(* ===== verification/Gldi_Prelude.thy ===== *)
theory Gldi_Prelude
  imports Complex_Main "HOL-Library.AList" "HOL-Library.Char_ord" "HOL-Library.List_Lexorder"
    "HOL-Library.Multiset" "HOL-Library.Sublist"
begin

text \<open>
  Shared vocabulary of the development: the pieces of the JavaScript runtime that the modelled
  modules use (insertion-ordered maps, the stable array sort with a comparison callback, string
  splitting, decimal rendering of counts), the comparator contract as a locale with the closure
  lemmas for lexicographic chains, and the hint collections the component theories extend.
\<close>

named_theorems decimal_laws "consequences of the decimal.js contract"

named_theorems log_grows "operations that only extend the audit log"

section \<open>Optional values and errors\<close>

text \<open>The nullish-coalescing operator: \<open>a ?? b\<close>.\<close>

definition nullish :: "'a option \<Rightarrow> 'a \<Rightarrow> 'a" where
  "nullish a b = (case a of None \<Rightarrow> b | Some x \<Rightarrow> x)"

lemma nullish_simps [simp]: "nullish None b = b" "nullish (Some x) b = x"
  by (simp_all add: nullish_def)

text \<open>Sequencing of fallible computations: an error (\<open>Inl\<close>) is a thrown exception.\<close>

definition and_then :: "'e + 'a \<Rightarrow> ('a \<Rightarrow> 'e + 'b) \<Rightarrow> 'e + 'b" where
  "and_then r f = (case r of Inl e \<Rightarrow> Inl e | Inr x \<Rightarrow> f x)"

lemma and_then_simps [simp]:
  "and_then (Inl e) f = Inl e" "and_then (Inr x) f = f x"
  by (simp_all add: and_then_def)

lemma and_then_Inr_iff: "and_then r f = Inr y \<longleftrightarrow> (\<exists>x. r = Inr x \<and> f x = Inr y)"
  by (cases r) simp_all

text \<open>A \<open>map\<close> whose callback may throw: the first error ends it.\<close>

fun try_map :: "('a \<Rightarrow> 'e + 'b) \<Rightarrow> 'a list \<Rightarrow> 'e + 'b list" where
  "try_map f [] = Inr []"
| "try_map f (x # xs) = and_then (f x) (\<lambda>y. and_then (try_map f xs) (\<lambda>ys. Inr (y # ys)))"

lemma try_map_Inr_length: "try_map f xs = Inr ys \<Longrightarrow> length ys = length xs"
  by (induction xs arbitrary: ys) (auto simp: and_then_Inr_iff)

lemma try_map_Inr_set: "try_map f xs = Inr ys \<Longrightarrow> y \<in> set ys \<Longrightarrow> \<exists>x\<in>set xs. f x = Inr y"
  by (induction xs arbitrary: ys) (auto simp: and_then_Inr_iff)

section \<open>Counts as text\<close>

definition digit_char :: "nat \<Rightarrow> char" where
  "digit_char n = char_of (48 + n)"

definition is_digit :: "char \<Rightarrow> bool" where
  "is_digit c \<longleftrightarrow> 48 \<le> (of_char c :: nat) \<and> (of_char c :: nat) \<le> 57"

definition digit_val :: "char \<Rightarrow> nat" where
  "digit_val c = of_char c - 48"

fun show_nat :: "nat \<Rightarrow> string" where
  "show_nat n = (if n < 10 then [digit_char n] else show_nat (n div 10) @ [digit_char (n mod 10)])"

declare show_nat.simps [simp del]

definition show_int :: "int \<Rightarrow> string" where
  "show_int i = (if i < 0 then ''-'' @ show_nat (nat (- i)) else show_nat (nat i))"

text \<open>\<open>parseInt(s, 10)\<close> on a string of digits.\<close>

definition parse_digits :: "string \<Rightarrow> nat" where
  "parse_digits s = foldl (\<lambda>acc c. 10 * acc + digit_val c) 0 s"

lemma of_char_digit: "n < 10 \<Longrightarrow> of_char (digit_char n) = 48 + n"
  by (simp add: digit_char_def)

lemma is_digit_digit_char [simp]: "n < 10 \<Longrightarrow> is_digit (digit_char n)"
  by (simp add: is_digit_def of_char_digit)

lemma digit_val_digit_char [simp]: "n < 10 \<Longrightarrow> digit_val (digit_char n) = n"
  by (simp add: digit_val_def of_char_digit)

lemma parse_digits_snoc [simp]: "parse_digits (s @ [c]) = 10 * parse_digits s + digit_val c"
  by (simp add: parse_digits_def)

lemma show_nat_digits: "list_all is_digit (show_nat n)"
proof (induction n rule: show_nat.induct)
  case (1 n)
  then show ?case by (subst show_nat.simps) auto
qed

lemma show_nat_nonempty [simp]: "show_nat n \<noteq> []"
  by (subst show_nat.simps) simp

lemma parse_show_nat [simp]: "parse_digits (show_nat n) = n"
proof (induction n rule: show_nat.induct)
  case (1 n)
  show ?case
  proof (cases "n < 10")
    case True
    then show ?thesis by (subst show_nat.simps) (simp add: parse_digits_def)
  next
    case False
    with 1 show ?thesis by (subst show_nat.simps) simp
  qed
qed

lemma show_nat_inj: "show_nat m = show_nat n \<Longrightarrow> m = n"
  by (metis parse_show_nat)

text \<open>\<open>String(n).padStart(w, '0')\<close>.\<close>

definition pad_zeros :: "nat \<Rightarrow> string \<Rightarrow> string" where
  "pad_zeros w s = replicate (w - length s) (CHR ''0'') @ s"

lemma parse_digits_zeros: "parse_digits (replicate k (CHR ''0'') @ s) = parse_digits s"
proof -
  have "foldl (\<lambda>acc c. 10 * acc + digit_val c) 0 (replicate k (CHR ''0'')) = 0"
    by (induction k) (simp_all add: digit_val_def)
  then show ?thesis by (simp add: parse_digits_def)
qed

lemma pad_zeros_inj: "pad_zeros w (show_nat m) = pad_zeros w (show_nat n) \<Longrightarrow> m = n"
  by (metis pad_zeros_def parse_digits_zeros parse_show_nat)

lemma pad_zeros_digits: "list_all is_digit s \<Longrightarrow> list_all is_digit (pad_zeros w s)"
proof -
  have "is_digit (CHR ''0'')" by (simp add: is_digit_def)
  then have "list_all is_digit (replicate k (CHR ''0''))" for k by (induction k) simp_all
  then show "list_all is_digit s \<Longrightarrow> list_all is_digit (pad_zeros w s)" by (simp add: pad_zeros_def)
qed

lemma parse_pad_zeros: "parse_digits (pad_zeros w s) = parse_digits s"
  by (simp add: pad_zeros_def parse_digits_zeros)

lemma show_nat_length: "n < 10 ^ Suc k \<Longrightarrow> length (show_nat n) \<le> Suc k"
proof (induction k arbitrary: n)
  case (Suc k)
  then have "n div 10 < 10 ^ Suc k" by (simp add: less_mult_imp_div_less mult.commute)
  from Suc.IH [OF this] show ?case by (subst show_nat.simps) (simp del: show_nat.simps)
next
  case 0
  then show ?case by (subst show_nat.simps) simp
qed

section \<open>Strings\<close>

text \<open>\<open>s.split(sep)\<close> for a one-character separator: never empty, \<open>''\<close> gives one empty part.\<close>

fun split_on :: "char \<Rightarrow> string \<Rightarrow> string list" where
  "split_on sep [] = [[]]"
| "split_on sep (c # cs) =
     (if c = sep then [] # split_on sep cs
      else (case split_on sep cs of [] \<Rightarrow> [[c]] | p # ps \<Rightarrow> (c # p) # ps))"

fun join_with :: "string \<Rightarrow> string list \<Rightarrow> string" where
  "join_with sep [] = []"
| "join_with sep [x] = x"
| "join_with sep (x # y # xs) = x @ sep @ join_with sep (y # xs)"

lemma split_on_nonempty [simp]: "split_on sep s \<noteq> []"
  by (induction s) (auto split: list.splits)

lemma join_split [simp]: "join_with [sep] (split_on sep s) = s"
proof (induction s)
  case Nil
  show ?case by simp
next
  case (Cons c s)
  obtain p ps where "split_on sep s = p # ps"
    using split_on_nonempty by (meson list.exhaust)
  with Cons show ?case by (cases ps) auto
qed

definition is_white :: "char \<Rightarrow> bool" where
  "is_white c \<longleftrightarrow> (of_char c :: nat) \<in> {9, 10, 11, 12, 13, 32}"

text \<open>\<open>s.trim()\<close> over the one-byte white space.\<close>

definition trim :: "string \<Rightarrow> string" where
  "trim s = rev (dropWhile is_white (rev (dropWhile is_white s)))"

section \<open>The stable sort with a comparison callback\<close>

text \<open>
  \<open>Array.prototype.sort(cmp)\<close> is stable and puts \<open>x\<close> before a later \<open>y\<close> unless
  \<open>cmp(x, y) > 0\<close>. For a comparator that is a total preorder this determines the result.
\<close>

fun insert_by :: "('a \<Rightarrow> 'a \<Rightarrow> int) \<Rightarrow> 'a \<Rightarrow> 'a list \<Rightarrow> 'a list" where
  "insert_by cmp x [] = [x]"
| "insert_by cmp x (y # ys) = (if cmp x y \<le> 0 then x # y # ys else y # insert_by cmp x ys)"

definition sort_by :: "('a \<Rightarrow> 'a \<Rightarrow> int) \<Rightarrow> 'a list \<Rightarrow> 'a list" where
  "sort_by cmp xs = foldr (insert_by cmp) xs []"

lemma sort_by_simps [simp]:
  "sort_by cmp [] = []" "sort_by cmp (x # xs) = insert_by cmp x (sort_by cmp xs)"
  by (simp_all add: sort_by_def)

lemma mset_insert_by [simp]: "mset (insert_by cmp x xs) = add_mset x (mset xs)"
  by (induction xs) auto

lemma mset_sort_by [simp]: "mset (sort_by cmp xs) = mset xs"
  by (induction xs) auto

lemma set_sort_by [simp]: "set (sort_by cmp xs) = set xs"
  by (metis mset_sort_by set_mset_mset)

lemma set_insert_by [simp]: "set (insert_by cmp x xs) = insert x (set xs)"
  by (metis mset_insert_by set_mset_add_mset_insert set_mset_mset)

lemma length_sort_by [simp]: "length (sort_by cmp xs) = length xs"
  by (metis mset_sort_by size_mset)

text \<open>
  The contract a comparison callback has to keep. Total preorder: the sort then sorts.
  Strict total order: the result no longer depends on the order of the input.
\<close>

locale comparator =
  fixes cmp :: "'a \<Rightarrow> 'a \<Rightarrow> int"
  assumes flip: "sgn (cmp y x) = - sgn (cmp x y)"
    and trans: "cmp x y \<le> 0 \<Longrightarrow> cmp y z \<le> 0 \<Longrightarrow> cmp x z \<le> 0"
begin

lemma refl [simp]: "cmp x x = 0"
  using flip [of x x] by (simp add: sgn_if split: if_splits)

lemma total: "cmp x y \<le> 0 \<or> cmp y x \<le> 0"
  using flip [of y x] by (auto simp: sgn_if split: if_splits)

lemma neg_iff: "cmp x y < 0 \<longleftrightarrow> 0 < cmp y x"
  using flip [of x y] by (auto simp: sgn_if split: if_splits)

lemma zero_sym: "cmp x y = 0 \<longleftrightarrow> cmp y x = 0"
  using flip [of x y] by (auto simp: sgn_if split: if_splits)

lemma less_trans: "cmp x y < 0 \<Longrightarrow> cmp y z \<le> 0 \<Longrightarrow> cmp x z < 0"
  using trans [of y z x] trans [of x y z] neg_iff [of x y] neg_iff [of x z]
  by (metis linorder_not_le order_less_imp_le zero_sym order_le_less)

lemma less_trans2: "cmp x y \<le> 0 \<Longrightarrow> cmp y z < 0 \<Longrightarrow> cmp x z < 0"
  using trans [of z x y] trans [of x y z] neg_iff [of y z] neg_iff [of x z]
  by (metis linorder_not_le order_less_imp_le zero_sym order_le_less)

lemma zero_trans: "cmp x y = 0 \<Longrightarrow> cmp y z = 0 \<Longrightarrow> cmp x z = 0"
  using trans [of x y z] trans [of z y x] zero_sym neg_iff
  by (metis order.order_iff_strict linorder_not_le)

lemma sorted_insert_by:
  "sorted_wrt (\<lambda>x y. cmp x y \<le> 0) xs \<Longrightarrow> sorted_wrt (\<lambda>x y. cmp x y \<le> 0) (insert_by cmp x xs)"
proof (induction xs)
  case Nil
  show ?case by simp
next
  case (Cons y ys)
  then show ?case using total trans by fastforce
qed

lemma sorted_sort_by: "sorted_wrt (\<lambda>x y. cmp x y \<le> 0) (sort_by cmp xs)"
  by (induction xs) (auto intro: sorted_insert_by)

text \<open>Where no two different elements compare equal, the sorted list is determined by the elements.\<close>

lemma sorted_unique:
  assumes "sorted_wrt (\<lambda>x y. cmp x y \<le> 0) xs" "sorted_wrt (\<lambda>x y. cmp x y \<le> 0) ys"
    and "mset xs = mset ys" "\<And>x y. x \<in> set xs \<Longrightarrow> y \<in> set xs \<Longrightarrow> cmp x y = 0 \<Longrightarrow> x = y"
  shows "xs = ys"
  using assms
proof (induction xs arbitrary: ys)
  case Nil
  then show ?case by simp
next
  case (Cons x xs)
  then obtain y ys' where ys: "ys = y # ys'" by (cases ys) auto
  have "x = y"
  proof (rule ccontr)
    assume "x \<noteq> y"
    have "add_mset x (mset xs) = add_mset y (mset ys')" using Cons.prems(3) ys by simp
    with \<open>x \<noteq> y\<close> have "x \<in># mset ys'" "y \<in># mset xs"
      by (auto simp: add_eq_conv_ex simp del: set_mset_mset in_multiset_in_set)
    then have mem: "x \<in> set ys'" "y \<in> set xs"
      by (simp_all only: set_mset_mset)
    with Cons.prems(1,2) ys have "cmp y x \<le> 0" "cmp x y \<le> 0" by auto
    with neg_iff [of x y] have "cmp x y = 0" by linarith
    with Cons.prems(4) [of x y] mem \<open>x \<noteq> y\<close> show False by simp
  qed
  with Cons ys show ?case by auto
qed

lemma sort_by_determined:
  assumes "mset xs = mset ys" "\<And>x y. x \<in> set xs \<Longrightarrow> y \<in> set xs \<Longrightarrow> cmp x y = 0 \<Longrightarrow> x = y"
  shows "sort_by cmp xs = sort_by cmp ys"
  using assms by (intro sorted_unique) (simp_all add: sorted_sort_by)

end

locale strict_comparator = comparator +
  assumes eq: "cmp x y = 0 \<Longrightarrow> x = y"
begin

lemma sort_by_order_independent: "mset xs = mset ys \<Longrightarrow> sort_by cmp xs = sort_by cmp ys"
  by (rule sort_by_determined) (simp_all add: eq)

end

text \<open>Comparators from keys and in lexicographic chains.\<close>

definition cmp_key :: "('a \<Rightarrow> 'b) \<Rightarrow> ('b \<Rightarrow> 'b \<Rightarrow> int) \<Rightarrow> 'a \<Rightarrow> 'a \<Rightarrow> int" where
  "cmp_key f c x y = c (f x) (f y)"

definition cmp_lex :: "('a \<Rightarrow> 'a \<Rightarrow> int) \<Rightarrow> ('a \<Rightarrow> 'a \<Rightarrow> int) \<Rightarrow> 'a \<Rightarrow> 'a \<Rightarrow> int" where
  "cmp_lex c d x y = (if c x y \<noteq> 0 then c x y else d x y)"

definition cmp_ord :: "'a::linorder \<Rightarrow> 'a \<Rightarrow> int" where
  "cmp_ord x y = (if x < y then - 1 else if y < x then 1 else 0)"

lemma comparator_key: "comparator c \<Longrightarrow> comparator (cmp_key f c)"
  unfolding comparator_def cmp_key_def by blast

lemma comparator_lex:
  assumes c: "comparator c" and d: "comparator d"
  shows "comparator (cmp_lex c d)"
proof
  fix x y
  show "sgn (cmp_lex c d y x) = - sgn (cmp_lex c d x y)"
    using comparator.flip [OF c, of y x] comparator.flip [OF d, of y x]
      comparator.zero_sym [OF c, of x y]
    by (simp add: cmp_lex_def)
next
  fix x y z
  assume xy: "cmp_lex c d x y \<le> 0" and yz: "cmp_lex c d y z \<le> 0"
  have cxy: "c x y \<le> 0" and cyz: "c y z \<le> 0"
    using xy yz by (auto simp: cmp_lex_def split: if_splits)
  show "cmp_lex c d x z \<le> 0"
  proof (cases "c x y = 0 \<and> c y z = 0")
    case True
    then have "c x z = 0" using comparator.zero_trans [OF c] by blast
    with True xy yz show ?thesis
      using comparator.trans [OF d, of x y z] by (simp add: cmp_lex_def)
  next
    case False
    then have "c x y < 0 \<or> c y z < 0" using cxy cyz by linarith
    then have "c x z < 0"
      using comparator.less_trans [OF c _ cyz] comparator.less_trans2 [OF c cxy] by blast
    then show ?thesis by (simp add: cmp_lex_def)
  qed
qed

interpretation natural: strict_comparator "cmp_ord :: 'a::linorder \<Rightarrow> 'a \<Rightarrow> int"
  by unfold_locales (auto simp: cmp_ord_def split: if_splits)

text \<open>The default sort of an array of strings is by code unit.\<close>

definition sort_strings :: "string list \<Rightarrow> string list" where
  "sort_strings xs = sort_by cmp_ord xs"

lemma set_sort_strings [simp]: "set (sort_strings xs) = set xs"
  by (simp add: sort_strings_def)

lemma mset_sort_strings [simp]: "mset (sort_strings xs) = mset xs"
  by (simp add: sort_strings_def)

lemma sort_strings_determined:
  "distinct xs \<Longrightarrow> distinct ys \<Longrightarrow> set xs = set ys \<Longrightarrow> sort_strings xs = sort_strings ys"
  unfolding sort_strings_def by (rule natural.sort_by_order_independent) (simp add: set_eq_iff_mset_eq_distinct)

section \<open>Insertion-ordered maps\<close>

text \<open>
  \<open>Map\<close> and plain objects keep their entries in insertion order; setting a key that is present
  keeps its place. \<open>AList.update\<close> is that operation on an association list.
\<close>

type_synonym ('k, 'v) js_map = "('k \<times> 'v) list"

definition js_get :: "('k, 'v) js_map \<Rightarrow> 'k \<Rightarrow> 'v option" where
  "js_get m k = map_of m k"

definition js_set :: "'k \<Rightarrow> 'v \<Rightarrow> ('k, 'v) js_map \<Rightarrow> ('k, 'v) js_map" where
  "js_set k v m = AList.update k v m"

text \<open>What a keyed store promises to the components that keep their records in one.\<close>

locale keyed_store =
  fixes lookup :: "'m \<Rightarrow> 'k \<Rightarrow> 'v option"
    and store :: "'k \<Rightarrow> 'v \<Rightarrow> 'm \<Rightarrow> 'm"
    and fresh :: 'm
  assumes lookup_fresh: "lookup fresh k = None"
    and lookup_store: "lookup (store k v m) j = (if j = k then Some v else lookup m j)"
begin

lemma lookup_store_same [simp]: "lookup (store k v m) k = Some v"
  by (simp add: lookup_store)

lemma lookup_store_other: "j \<noteq> k \<Longrightarrow> lookup (store k v m) j = lookup m j"
  by (simp add: lookup_store)

text \<open>A predicate on every stored value survives storing a value that satisfies it.\<close>

lemma all_stored:
  assumes "\<And>j x. lookup m j = Some x \<Longrightarrow> P j x" and "P k v"
    and "lookup (store k v m) j = Some x"
  shows "P j x"
  using assms by (auto simp: lookup_store split: if_splits)

end

interpretation jsm: keyed_store js_get js_set "[]"
  by unfold_locales (simp_all add: js_get_def js_set_def update_conv')

lemma js_set_keys: "map fst (js_set k v m) = (if k \<in> fst ` set m then map fst m else map fst m @ [k])"
  by (simp add: js_set_def update_keys)

lemma js_get_None_iff: "js_get m k = None \<longleftrightarrow> k \<notin> fst ` set m"
  by (simp add: js_get_def map_of_eq_None_iff)

text \<open>\<open>new Map(entries)\<close>: a key that occurs again takes the later value, in its first place.\<close>

definition js_map_of :: "('k \<times> 'v) list \<Rightarrow> ('k, 'v) js_map" where
  "js_map_of entries = foldl (\<lambda>m (k, v). js_set k v m) [] entries"

lemma js_get_map_of: "js_get (js_map_of entries) k = map_of (rev entries) k"
proof (induction entries rule: rev_induct)
  case (snoc e es)
  then show ?case by (cases e) (simp add: js_map_of_def jsm.lookup_store)
qed (simp add: js_map_of_def jsm.lookup_fresh)

lemma js_get_map_of_None: "js_get (js_map_of entries) k = None \<longleftrightarrow> k \<notin> fst ` set entries"
  by (simp add: js_get_map_of map_of_eq_None_iff)

section \<open>Append-only logs\<close>

text \<open>
  What a log promises to those who rely on its past: whatever step is taken, the entries that were
  there stay there, in place.
\<close>

locale append_only =
  fixes entries :: "'s \<Rightarrow> 'a list"
    and step :: "'s \<Rightarrow> 's \<Rightarrow> bool"
  assumes grows: "step s t \<Longrightarrow> prefix (entries s) (entries t)"
begin

lemma run_grows: "step\<^sup>*\<^sup>* s t \<Longrightarrow> prefix (entries s) (entries t)"
proof (induction rule: rtranclp_induct)
  case (step t u)
  then show ?case using grows prefix_order.trans by blast
qed simp

lemma entry_kept:
  assumes "step\<^sup>*\<^sup>* s t" "i < length (entries s)"
  shows "i < length (entries t) \<and> entries t ! i = entries s ! i"
  using run_grows [OF assms(1)] assms(2) by (auto simp: prefix_def nth_append)

end

end
