(* ===== verification/Decimals.thy ===== *)
theory Decimals
  imports Gldi_Prelude
begin

text \<open>
  \<open>src/platform/decimal/quantity.ts\<close> and \<open>src/platform/decimal/ratio.ts\<close>.

  A \<open>Quantity\<close> is a decimal string. It is modelled by the literal the string writes, its digits
  as one integer and the number of digits after the point, so \<open>0.80\<close> and \<open>0.8\<close> are different
  quantities of equal value. \<open>decimal.js\<close> is not in the repository: it is the parameter \<open>dj\<close> of
  every operation that computes, and the locale \<open>decimal_lib\<close> states what its documentation
  promises (correct rounding to a number of significant digits, half away from zero; printing that
  loses nothing; fixed-scale printing). A reference implementation of that documentation shows the
  contract can be met and gives the witnesses something to run.
\<close>

section \<open>Decimal literals\<close>

datatype quantity = Qty (mant: int) (places: nat)

definition qval :: "quantity \<Rightarrow> rat" where
  "qval q = of_int (mant q) / 10 ^ places q"

lemma qval_Qty [simp]: "qval (Qty m s) = of_int m / 10 ^ s"
  by (simp add: qval_def)

section \<open>The interface of decimal.js\<close>

text \<open>
  \<open>dround p x\<close> is the result of an operation with the exact value \<open>x\<close> on a constructor whose
  \<open>precision\<close> is \<open>p\<close> and whose rounding is \<open>ROUND_HALF_UP\<close>; \<open>dshow\<close> is \<open>toFixed()\<close> and
  \<open>dfixed dp\<close> is \<open>toFixed(dp, ROUND_HALF_UP)\<close>.
\<close>

record decimal_js =
  dround :: "nat \<Rightarrow> rat \<Rightarrow> rat"
  dshow :: "rat \<Rightarrow> quantity"
  dfixed :: "nat \<Rightarrow> rat \<Rightarrow> quantity"

definition fits :: "nat \<Rightarrow> rat \<Rightarrow> bool" where
  "fits p x \<longleftrightarrow> (\<exists>m s. x = of_int m / 10 ^ s \<and> \<bar>m\<bar> < 10 ^ p)"

locale decimal_lib =
  fixes dj :: decimal_js
  assumes round_mono: "x \<le> y \<Longrightarrow> dround dj p x \<le> dround dj p y"
    and round_neg: "dround dj p (- x) = - dround dj p x"
    and round_pos: "0 < p \<Longrightarrow> 0 < x \<Longrightarrow> 0 < dround dj p x"
    and round_fits: "fits p x \<Longrightarrow> dround dj p x = x"
    and round_near: "0 < p \<Longrightarrow> \<bar>dround dj p x - x\<bar> \<le> \<bar>x\<bar> / 10 ^ (p - 1)"
    and round_decimal: "\<exists>q. dround dj p x = qval q"
    and show_val: "qval (dshow dj (qval q)) = qval q"
    and fixed_places: "places (dfixed dj dp x) = dp"
    and fixed_near: "\<bar>qval (dfixed dj dp x) - x\<bar> \<le> 1 / 2 / 10 ^ dp"
    and fixed_mono: "x \<le> y \<Longrightarrow> qval (dfixed dj dp x) \<le> qval (dfixed dj dp y)"
begin

lemma round_zero [simp]: "dround dj p 0 = 0"
  using round_neg [of p 0] by simp

lemma round_nonneg: "0 \<le> x \<Longrightarrow> 0 \<le> dround dj p x"
  using round_mono [of 0 x p] by simp

lemma show_round [simp]: "qval (dshow dj (dround dj p x)) = dround dj p x"
  using round_decimal [of p x] show_val by metis

lemma round_abs: "dround dj p \<bar>x\<bar> = \<bar>dround dj p x\<bar>"
  using round_neg [of p x] round_nonneg [of x p] round_nonneg [of "- x" p] by (cases "0 \<le> x") simp_all

lemma round_double: "0 < p \<Longrightarrow> \<bar>dround dj p x\<bar> \<le> 2 * \<bar>x\<bar>"
proof -
  assume "0 < p"
  then have "\<bar>dround dj p x - x\<bar> \<le> \<bar>x\<bar> / 10 ^ (p - 1)" by (rule round_near)
  also have "\<dots> \<le> \<bar>x\<bar> / 1" by (intro divide_left_mono) simp_all
  finally show ?thesis by linarith
qed

lemma round_le_fits: "x \<le> y \<Longrightarrow> fits p y \<Longrightarrow> dround dj p x \<le> y"
  using round_mono [of x y p] round_fits [of p y] by simp

lemma round_ge_fits: "y \<le> x \<Longrightarrow> fits p y \<Longrightarrow> y \<le> dround dj p x"
  using round_mono [of y x p] round_fits [of p y] by simp

end

section \<open>Quantities\<close>

datatype decimal_error = NotADecimalString

text \<open>\<open>DECIMAL_RE\<close>: an optional minus sign, digits, and optionally a point and digits.\<close>

definition all_digits :: "string \<Rightarrow> bool" where
  "all_digits s \<longleftrightarrow> s \<noteq> [] \<and> list_all is_digit s"

definition drop_sign :: "string \<Rightarrow> string" where
  "drop_sign s = (case s of c # cs \<Rightarrow> if c = CHR ''-'' then cs else s | [] \<Rightarrow> [])"

definition decimal_text :: "string \<Rightarrow> bool" where
  "decimal_text s =
     (case split_on (CHR ''.'') (drop_sign s) of
        [i] \<Rightarrow> all_digits i
      | [i, f] \<Rightarrow> all_digits i \<and> all_digits f
      | _ \<Rightarrow> False)"

definition read_decimal :: "string \<Rightarrow> quantity" where
  "read_decimal s =
     (let neg = (case s of c # _ \<Rightarrow> c = CHR ''-'' | [] \<Rightarrow> False);
          sign = (\<lambda>n. if neg then - int n else int n)
      in case split_on (CHR ''.'') (drop_sign s) of
           i # f # _ \<Rightarrow> Qty (sign (parse_digits (i @ f))) (length f)
         | [i] \<Rightarrow> Qty (sign (parse_digits i)) 0
         | [] \<Rightarrow> Qty 0 0)"

definition qty :: "string \<Rightarrow> decimal_error + quantity" where
  "qty value =
     (let trimmed = trim value
      in if decimal_text trimmed then Inr (read_decimal trimmed) else Inl NotADecimalString)"

text \<open>The string a quantity is.\<close>

definition q_text :: "quantity \<Rightarrow> string" where
  "q_text q =
     (let digits = pad_zeros (Suc (places q)) (show_nat (nat \<bar>mant q\<bar>));
          whole = take (length digits - places q) digits;
          frac = drop (length digits - places q) digits
      in (if mant q < 0 then ''-'' else []) @ whole @ (if places q = 0 then [] else ''.'' @ frac))"

definition Q_ZERO :: quantity where "Q_ZERO = Qty 0 0"

definition Q_ONE :: quantity where "Q_ONE = Qty 1 0"

definition Q_HUNDRED :: quantity where "Q_HUNDRED = Qty 100 0"

definition q_nat :: "nat \<Rightarrow> quantity" where "q_nat n = Qty (int n) 0"

text \<open>The constructor \<open>Q\<close> (and \<open>D\<close> in \<open>money.ts\<close>) has precision 34; the unconfigured \<open>Decimal\<close> has 20.\<close>

definition q_precision :: nat where "q_precision = 34"

definition default_precision :: nat where "default_precision = 20"

definition qAdd :: "decimal_js \<Rightarrow> quantity \<Rightarrow> quantity \<Rightarrow> quantity" where
  "qAdd dj a b = dshow dj (dround dj q_precision (qval a + qval b))"

definition qSub :: "decimal_js \<Rightarrow> quantity \<Rightarrow> quantity \<Rightarrow> quantity" where
  "qSub dj a b = dshow dj (dround dj q_precision (qval a - qval b))"

definition qMul :: "decimal_js \<Rightarrow> quantity \<Rightarrow> quantity \<Rightarrow> quantity" where
  "qMul dj a b = dshow dj (dround dj q_precision (qval a * qval b))"

definition qDiv :: "decimal_js \<Rightarrow> quantity \<Rightarrow> quantity \<Rightarrow> quantity option" where
  "qDiv dj a b =
     (if qval b = 0 then None else Some (dshow dj (dround dj q_precision (qval a / qval b))))"

definition qNeg :: "decimal_js \<Rightarrow> quantity \<Rightarrow> quantity" where
  "qNeg dj a = dshow dj (- qval a)"

definition qAbs :: "decimal_js \<Rightarrow> quantity \<Rightarrow> quantity" where
  "qAbs dj a = dshow dj \<bar>qval a\<bar>"

definition qCompare :: "quantity \<Rightarrow> quantity \<Rightarrow> int" where
  "qCompare a b = cmp_ord (qval a) (qval b)"

definition qIsZero :: "quantity \<Rightarrow> bool" where
  "qIsZero a \<longleftrightarrow> qval a = 0"

definition qIsNegative :: "quantity \<Rightarrow> bool" where
  "qIsNegative a \<longleftrightarrow> qval a < 0 \<and> \<not> qIsZero a"

definition qMin :: "quantity \<Rightarrow> quantity \<Rightarrow> quantity" where
  "qMin a b = (if qCompare a b \<le> 0 then a else b)"

definition qMax :: "quantity \<Rightarrow> quantity \<Rightarrow> quantity" where
  "qMax a b = (if qCompare a b \<ge> 0 then a else b)"

definition qClamp :: "quantity \<Rightarrow> quantity \<Rightarrow> quantity \<Rightarrow> quantity" where
  "qClamp v lo hi = qMin (qMax v lo) hi"

definition qFixed :: "decimal_js \<Rightarrow> quantity \<Rightarrow> nat \<Rightarrow> quantity" where
  "qFixed dj a dp = dfixed dj dp (qval a)"

definition qWeightedMean :: "decimal_js \<Rightarrow> (quantity \<times> quantity) list \<Rightarrow> quantity option" where
  "qWeightedMean dj pairs =
     (if pairs = [] then None
      else
        let totalWeight = foldl (\<lambda>a (v, w). dround dj q_precision (a + qval w)) 0 pairs
        in if totalWeight = 0 then None
           else
             let total = foldl (\<lambda>a (v, w). dround dj q_precision
                           (a + dround dj q_precision (qval v * qval w))) 0 pairs
             in Some (dshow dj (dround dj q_precision (total / totalWeight))))"

text \<open>
  \<open>Decimal.max\<close> and \<open>Decimal.min\<close> are called on the unconfigured constructor, so the product with
  100 is rounded to its precision of 20 digits, not to the 34 of \<open>Q\<close>.
\<close>

definition qNormaliseScore :: "decimal_js \<Rightarrow> quantity \<Rightarrow> quantity \<Rightarrow> quantity \<Rightarrow> bool \<Rightarrow> quantity" where
  "qNormaliseScore dj value greenEdge redEdge higherIsBetter =
     (let v = qval value; green = qval greenEdge; red = qval redEdge;
          span = dround dj q_precision (if higherIsBetter then green - red else red - green)
      in if span = 0 then
           (let passes = (if higherIsBetter then v \<ge> green else v \<le> green)
            in if passes then Q_HUNDRED else Q_ZERO)
         else
           let position = dround dj q_precision
                 (dround dj q_precision (if higherIsBetter then v - red else red - v) / span)
           in dshow dj (dround dj default_precision (max 0 (min 1 position) * 100)))"

text \<open>\<open>/^\d{1,15}$/\<close>, then the bounds; every such number is a safe integer.\<close>

definition parseBoundedCount :: "string \<Rightarrow> nat \<Rightarrow> nat \<Rightarrow> nat option" where
  "parseBoundedCount value lo hi =
     (if \<not> (all_digits value \<and> length value \<le> 15) then None
      else let n = parse_digits value
           in if n < 2 ^ 53 \<and> n \<ge> lo \<and> n \<le> hi then Some n else None)"

section \<open>Ratios\<close>

datatype not_computable_reason =
  ZERO_DENOMINATOR | NO_BASELINE | INSUFFICIENT_HISTORY | MIXED_CURRENCY | SOURCE_UNAVAILABLE

text \<open>A computed ratio carries a \<open>Decimal\<close>, whose later operations use its own constructor's precision.\<close>

datatype ratio = Computed (ctor_precision: nat) (ratio_value: rat) | NotComputable not_computable_reason

definition isComputable :: "ratio \<Rightarrow> bool" where
  "isComputable r = (case r of Computed _ _ \<Rightarrow> True | NotComputable _ \<Rightarrow> False)"

definition ratioToQuantity :: "decimal_js \<Rightarrow> ratio \<Rightarrow> quantity option" where
  "ratioToQuantity dj r = (case r of Computed _ v \<Rightarrow> Some (dshow dj v) | NotComputable _ \<Rightarrow> None)"

definition ratioFromQuantity :: "quantity \<Rightarrow> ratio" where
  "ratioFromQuantity q = Computed default_precision (qval q)"

definition ratioSubtractQuantity :: "decimal_js \<Rightarrow> ratio \<Rightarrow> quantity \<Rightarrow> ratio" where
  "ratioSubtractQuantity dj a b =
     (case a of Computed p v \<Rightarrow> Computed p (dround dj p (v - qval b)) | NotComputable r \<Rightarrow> NotComputable r)"

definition ratioToPercentString :: "decimal_js \<Rightarrow> ratio \<Rightarrow> nat \<Rightarrow> quantity option" where
  "ratioToPercentString dj r decimals =
     (case r of Computed p v \<Rightarrow> Some (dfixed dj decimals (dround dj p (v * 100)))
      | NotComputable _ \<Rightarrow> None)"

section \<open>Reading back what is written\<close>

lemma split_on_notin: "sep \<notin> set s \<Longrightarrow> split_on sep s = [s]"
  by (induction s) auto

lemma split_on_append: "sep \<notin> set s \<Longrightarrow> split_on sep (s @ sep # t) = s # split_on sep t"
  by (induction s) auto

lemma trim_id:
  assumes "s \<noteq> []" "\<not> is_white (hd s)" "\<not> is_white (last s)"
  shows "trim s = s"
proof -
  have "dropWhile is_white s = s" using assms by (cases s) simp_all
  moreover have "dropWhile is_white (rev s) = rev s"
    using assms by (cases s rule: rev_cases) simp_all
  ultimately show ?thesis by (simp add: trim_def)
qed

lemma digit_not_special:
  assumes "is_digit c"
  shows "\<not> is_white c" "c \<noteq> CHR ''-''" "c \<noteq> CHR ''.''"
  using assms by (auto simp: is_digit_def is_white_def)

lemma digits_no_point: "list_all is_digit s \<Longrightarrow> CHR ''.'' \<notin> set s"
  using digit_not_special(3) by (auto simp: list_all_iff)

lemma qty_of_text: "qty (q_text q) = Inr q"
proof (cases q)
  case (Qty m s)
  define ds where "ds = pad_zeros (Suc s) (show_nat (nat \<bar>m\<bar>))"
  define w where "w = take (length ds - s) ds"
  define f where "f = drop (length ds - s) ds"
  have len: "s < length ds" by (simp add: ds_def pad_zeros_def)
  have dig: "list_all is_digit ds" unfolding ds_def by (intro pad_zeros_digits show_nat_digits)
  then have wd: "list_all is_digit w" and fd: "list_all is_digit f"
    using append_take_drop_id [of "length ds - s" ds]
    unfolding w_def f_def by (metis list_all_append)+
  have wne: "w \<noteq> []" and flen: "length f = s" using len by (auto simp: w_def f_def)
  have wf: "parse_digits (w @ f) = nat \<bar>m\<bar>"
    by (simp add: w_def f_def ds_def parse_pad_zeros)
  have ws: "s = 0 \<Longrightarrow> f = []" using flen by simp
  define body where "body = w @ (if s = 0 then [] else ''.'' @ f)"
  have qt: "q_text q = (if m < 0 then ''-'' else []) @ body"
    unfolding body_def w_def f_def ds_def q_text_def Qty by (simp add: Let_def)
  have hd: "is_digit (hd w)" using wd wne by (cases w) simp_all
  have lastd: "is_digit (last body)"
  proof (cases "s = 0")
    case True
    then show ?thesis using wd wne by (simp add: body_def list_all_iff)
  next
    case False
    then have "f \<noteq> []" using flen by auto
    then show ?thesis using fd False by (simp add: body_def list_all_iff)
  qed
  have "trim (q_text q) = q_text q"
  proof (rule trim_id)
    show "q_text q \<noteq> []" using wne by (simp add: qt body_def)
    have "\<not> is_white (CHR ''-'')" by (simp add: is_white_def)
    then show "\<not> is_white (hd (q_text q))"
      using digit_not_special(1) [OF hd] wne by (simp add: qt body_def)
    have "body \<noteq> []" using wne by (simp add: body_def)
    then show "\<not> is_white (last (q_text q))" using digit_not_special(1) [OF lastd] by (simp add: qt)
  qed
  moreover have drop: "drop_sign (q_text q) = body"
    using hd wne by (cases w) (auto simp: qt body_def drop_sign_def digit_not_special)
  moreover have parts: "split_on (CHR ''.'') body = (if s = 0 then [w] else [w, f])"
    using digits_no_point [OF wd] digits_no_point [OF fd]
    by (simp add: body_def split_on_notin split_on_append)
  moreover have "decimal_text (q_text q)"
    using wd fd wne flen by (auto simp: decimal_text_def drop parts all_digits_def)
  moreover have "(case q_text q of [] \<Rightarrow> False | c # _ \<Rightarrow> c = CHR ''-'') = (m < 0)"
    using hd wne by (cases w) (auto simp: qt body_def digit_not_special)
  ultimately show ?thesis
    using wf ws flen by (auto simp: qty_def read_decimal_def Qty Let_def)
qed

text \<open>Reading the text of a quantity gives the quantity back, sign, trailing zeros and all, so
  nothing is lost when a quantity crosses a boundary as a string, and two quantities have the same
  text only when they are the same.\<close>

theorem quantity_text_roundtrip: "qty (q_text q) = Inr q \<and> (q_text q = q_text r \<longleftrightarrow> q = r)"
proof -
  have "q = r" if "q_text q = q_text r"
    using that qty_of_text by (metis sum.inject(2))
  then show ?thesis using qty_of_text by blast
qed

section \<open>What the contract gives the operations\<close>

lemma fits_int: "\<bar>m\<bar> < 10 ^ p \<Longrightarrow> fits p (of_int m)"
  unfolding fits_def by (intro exI [of _ m] exI [of _ 0]) simp

lemma fits_places: "\<bar>m\<bar> < 10 ^ p \<Longrightarrow> fits p (of_int m / 10 ^ s)"
  unfolding fits_def by blast

lemma fits_0: "fits p 0"
  using fits_int [of 0 p] by simp

lemma fits_1: "0 < p \<Longrightarrow> fits p 1"
  using fits_int [of 1 p] by simp

lemma fits_100: "fits default_precision 100" "fits q_precision 100"
  using fits_int [of 100 default_precision] fits_int [of 100 q_precision]
  by (simp_all add: default_precision_def q_precision_def)

lemma precision_pos [simp]: "0 < q_precision" "0 < default_precision"
  by (simp_all add: q_precision_def default_precision_def)

lemma qval_constants [simp]: "qval Q_ZERO = 0" "qval Q_ONE = 1" "qval Q_HUNDRED = 100"
  "qval (q_nat n) = of_nat n"
  by (simp_all add: Q_ZERO_def Q_ONE_def Q_HUNDRED_def q_nat_def)

lemma qCompare_sign:
  "qCompare a b < 0 \<longleftrightarrow> qval a < qval b" "qCompare a b \<le> 0 \<longleftrightarrow> qval a \<le> qval b"
  "0 < qCompare a b \<longleftrightarrow> qval b < qval a" "0 \<le> qCompare a b \<longleftrightarrow> qval b \<le> qval a"
  "qCompare a b = 0 \<longleftrightarrow> qval a = qval b"
  by (auto simp: qCompare_def cmp_ord_def)

text \<open>Quantities are compared by value: a total preorder on the strings, not an order.\<close>

lemma qCompare_key: "qCompare = cmp_key qval cmp_ord"
  by (intro ext) (simp add: cmp_key_def qCompare_def)

interpretation by_value: comparator qCompare
  unfolding qCompare_key by (rule comparator_key [OF natural.comparator_axioms])

context decimal_lib begin

lemma qval_ops:
  "qval (qAdd dj a b) = dround dj q_precision (qval a + qval b)"
  "qval (qSub dj a b) = dround dj q_precision (qval a - qval b)"
  "qval (qMul dj a b) = dround dj q_precision (qval a * qval b)"
  by (simp_all add: qAdd_def qSub_def qMul_def)

lemma qDiv_Some: "qDiv dj a b = Some q \<Longrightarrow>
    qval b \<noteq> 0 \<and> qval q = dround dj q_precision (qval a / qval b)"
  by (auto simp: qDiv_def split: if_splits)

lemma qDiv_None_iff: "qDiv dj a b = None \<longleftrightarrow> qval b = 0"
  by (simp add: qDiv_def)

lemma fixed_bounds:
  assumes "lo \<le> x" "x \<le> hi" "lo = of_int a" "hi = of_int b"
  shows "lo \<le> qval (dfixed dj dp x) \<and> qval (dfixed dj dp x) \<le> hi"
proof -
  have exact: "qval (dfixed dj dp (of_int c)) = of_int c" for c
  proof -
    let ?q = "dfixed dj dp (of_int c)"
    have "\<bar>qval ?q - of_int c\<bar> \<le> 1 / 2 / 10 ^ dp" by (rule fixed_near)
    moreover have "qval ?q - of_int c = of_int (mant ?q - c * 10 ^ dp) / 10 ^ dp"
      by (simp add: qval_def fixed_places field_simps)
    ultimately have "\<bar>of_int (mant ?q - c * 10 ^ dp)\<bar> \<le> (1 / 2 :: rat)"
      by (simp add: abs_divide pos_divide_le_eq)
    then have "of_int \<bar>mant ?q - c * 10 ^ dp\<bar> < (1 :: rat)" by simp
    then have "\<bar>mant ?q - c * 10 ^ dp\<bar> < 1" by (metis of_int_1 of_int_less_iff)
    then have "mant ?q = c * 10 ^ dp" by simp
    then show ?thesis by (simp add: qval_def fixed_places)
  qed
  show ?thesis
    using fixed_mono [OF assms(1), of dp] fixed_mono [OF assms(2), of dp] exact [of a] exact [of b]
      assms(3,4) by simp
qed

lemma score_round: "0 \<le> t \<Longrightarrow> t \<le> 1 \<Longrightarrow>
    0 \<le> dround dj default_precision (t * 100) \<and> dround dj default_precision (t * 100) \<le> 100"
  using round_nonneg [of "t * 100" default_precision]
    round_le_fits [of "t * 100" 100 default_precision] fits_100 by simp

lemma normalise_bounds: "0 \<le> qval (qNormaliseScore dj v g r hib) \<and> qval (qNormaliseScore dj v g r hib) \<le> 100"
  by (simp add: qNormaliseScore_def Let_def score_round)

lemma normalise_mono_higher:
  assumes "qval r < qval g" "qval v \<le> qval w"
  shows "qval (qNormaliseScore dj v g r True) \<le> qval (qNormaliseScore dj w g r True)"
proof -
  let ?span = "dround dj q_precision (qval g - qval r)"
  have pos: "0 < ?span" using assms(1) by (intro round_pos) simp_all
  let ?p = "\<lambda>x. dround dj q_precision (dround dj q_precision (qval x - qval r) / ?span)"
  have "?p v \<le> ?p w" using assms(2) pos by (intro round_mono divide_right_mono) simp_all
  then have "max 0 (min 1 (?p v)) * 100 \<le> max 0 (min 1 (?p w)) * 100" by simp
  from round_mono [OF this, of default_precision] show ?thesis
    using pos by (simp add: qNormaliseScore_def Let_def)
qed

lemma normalise_mono_lower:
  assumes "qval g < qval r" "qval v \<le> qval w"
  shows "qval (qNormaliseScore dj w g r False) \<le> qval (qNormaliseScore dj v g r False)"
proof -
  let ?span = "dround dj q_precision (qval r - qval g)"
  have pos: "0 < ?span" using assms(1) by (intro round_pos) simp_all
  let ?p = "\<lambda>x. dround dj q_precision (dround dj q_precision (qval r - qval x) / ?span)"
  have "?p w \<le> ?p v" using assms(2) pos by (intro round_mono divide_right_mono) simp_all
  then have "max 0 (min 1 (?p w)) * 100 \<le> max 0 (min 1 (?p v)) * 100" by simp
  from round_mono [OF this, of default_precision] show ?thesis
    using pos by (simp add: qNormaliseScore_def Let_def)
qed

lemma normalise_at_green:
  assumes "if hib then qval r < qval g \<and> qval g \<le> qval v else qval g < qval r \<and> qval v \<le> qval g"
  shows "qval (qNormaliseScore dj v g r hib) = 100"
proof -
  let ?d = "\<lambda>x. if hib then x - qval r else qval r - x"
  let ?span = "dround dj q_precision (?d (qval g))"
  have pos: "0 < ?span" using assms by (intro round_pos) (simp_all split: if_splits)
  have "?span \<le> dround dj q_precision (?d (qval v))" using assms by (intro round_mono) (simp split: if_splits)
  then have "1 \<le> dround dj q_precision (?d (qval v)) / ?span" using pos by simp
  then have "1 \<le> dround dj q_precision (dround dj q_precision (?d (qval v)) / ?span)"
    by (intro round_ge_fits fits_1) simp_all
  moreover have "qval (dshow dj 100) = 100" "dround dj default_precision 100 = 100"
    using show_val [of Q_HUNDRED] fits_100 by (simp_all add: round_fits)
  ultimately show ?thesis using pos by (auto simp: qNormaliseScore_def Let_def split: if_splits)
qed

lemma normalise_at_red:
  assumes "if hib then qval r < qval g \<and> qval v \<le> qval r else qval g < qval r \<and> qval r \<le> qval v"
  shows "qval (qNormaliseScore dj v g r hib) = 0"
proof -
  let ?d = "\<lambda>x. if hib then x - qval r else qval r - x"
  let ?span = "dround dj q_precision (?d (qval g))"
  have pos: "0 < ?span" using assms by (intro round_pos) (simp_all split: if_splits)
  have "dround dj q_precision (?d (qval v)) \<le> 0"
    using assms by (intro round_le_fits fits_0) (simp split: if_splits)
  then have "dround dj q_precision (?d (qval v)) / ?span \<le> 0" using pos by (simp add: divide_le_0_iff)
  then have "dround dj q_precision (dround dj q_precision (?d (qval v)) / ?span) \<le> 0"
    by (intro round_le_fits fits_0)
  moreover have "qval (dshow dj 0) = 0" using show_val [of Q_ZERO] by simp
  ultimately show ?thesis using pos by (auto simp: qNormaliseScore_def Let_def split: if_splits)
qed

end

end
