(* ===== verification/Time_Periods.thy ===== *)
theory Time_Periods
  imports Gldi_Prelude
begin

text \<open>
  \<open>src/platform/time/index.ts\<close> and \<open>src/platform/time/periods.ts\<close>: instants, calendar dates,
  ISO weeks, fiscal periods and project periods.

  An \<open>Instant\<close> is a string \<open>YYYY-MM-DDThh:mm:ss[.f]Z\<close>. Its first 19 characters have a fixed
  width, so they are modelled by the second they name, whose order is their order as text; the
  fraction is kept as the text it is, because the code compares instants as strings and the text of
  the fraction then matters. A \<open>CalendarDate\<close> is modelled by its three fields, a \<open>WeekId\<close> by its
  two, again with the order of the fixed-width text. \<open>Date.UTC\<close> and the \<open>getUTC\<close> accessors are
  ECMAScript's proleptic Gregorian calendar, including the mapping of the years 0 to 99 to 1900 to
  1999.
\<close>

section \<open>Instants\<close>

datatype instant = Instant (inst_sec: int) (inst_frac: string)

text \<open>The fraction group of \<open>INSTANT_RE\<close>: absent, or a point and one to three digits.\<close>

definition frac_text :: "string \<Rightarrow> bool" where
  "frac_text f = (case f of [] \<Rightarrow> True
     | c # ds \<Rightarrow> c = CHR ''.'' \<and> list_all is_digit ds \<and> 1 \<le> length ds \<and> length ds \<le> 3)"

definition frac_ms :: "string \<Rightarrow> int" where
  "frac_ms f = (case f of [] \<Rightarrow> 0 | _ # ds \<Rightarrow> int (parse_digits ds) * 10 ^ (3 - length ds))"

text \<open>\<open>Date.parse\<close> and \<open>new Date(ms).toISOString()\<close>, which always writes three fraction digits.\<close>

definition date_parse :: "instant \<Rightarrow> int" where
  "date_parse i = inst_sec i * 1000 + frac_ms (inst_frac i)"

definition to_iso :: "int \<Rightarrow> instant" where
  "to_iso ms = Instant (ms div 1000) (''.'' @ pad_zeros 3 (show_nat (nat (ms mod 1000))))"

text \<open>\<open>a <= b\<close> and \<open>a < b\<close> on the strings.\<close>

definition inst_le :: "instant \<Rightarrow> instant \<Rightarrow> bool" where
  "inst_le a b \<longleftrightarrow> inst_sec a < inst_sec b
     \<or> inst_sec a = inst_sec b \<and> inst_frac a @ ''Z'' \<le> inst_frac b @ ''Z''"

definition inst_lt :: "instant \<Rightarrow> instant \<Rightarrow> bool" where
  "inst_lt a b \<longleftrightarrow> \<not> inst_le b a"

definition instantPlusMs :: "instant \<Rightarrow> int \<Rightarrow> instant" where
  "instantPlusMs from ms = to_iso (date_parse from + ms)"

definition msBetween :: "instant \<Rightarrow> instant \<Rightarrow> int" where
  "msBetween from to = date_parse to - date_parse from"

definition daysBetweenInstants :: "instant \<Rightarrow> instant \<Rightarrow> int" where
  "daysBetweenInstants from to = msBetween from to div 86400000"

definition earlier :: "instant \<Rightarrow> instant \<Rightarrow> instant" where
  "earlier a b = (if inst_le a b then a else b)"

text \<open>\<open>SystemClock.now\<close> drops the fraction of the instant it reads.\<close>

definition systemNow :: "int \<Rightarrow> instant" where
  "systemNow ms = Instant (ms div 1000) []"

section \<open>Calendar dates\<close>

datatype calendar_date = Date (year: int) (month: int) (day: int)

text \<open>ECMAScript's remainder takes the sign of the dividend.\<close>

definition js_rem :: "int \<Rightarrow> int \<Rightarrow> int" where
  "js_rem a b = sgn a * (\<bar>a\<bar> mod \<bar>b\<bar>)"

definition leap_year :: "int \<Rightarrow> bool" where
  "leap_year y \<longleftrightarrow> y mod 4 = 0 \<and> (y mod 100 \<noteq> 0 \<or> y mod 400 = 0)"

definition day_from_year :: "int \<Rightarrow> int" where
  "day_from_year y =
     365 * (y - 1970) + (y - 1969) div 4 - (y - 1901) div 100 + (y - 1601) div 400"

definition days_before_month :: "bool \<Rightarrow> int \<Rightarrow> int" where
  "days_before_month leap m =
     (if m \<le> 1 then 0 else if m = 2 then 31
      else (if leap then 1 else 0)
        + (if m = 3 then 59 else if m = 4 then 90 else if m = 5 then 120 else if m = 6 then 151
           else if m = 7 then 181 else if m = 8 then 212 else if m = 9 then 243
           else if m = 10 then 273 else if m = 11 then 304 else 334))"

text \<open>\<open>Date.UTC(y, m - 1, d)\<close> in days.\<close>

definition utc_day :: "int \<Rightarrow> int \<Rightarrow> int \<Rightarrow> int" where
  "utc_day y m d =
     (let yr = (if 0 \<le> y \<and> y \<le> 99 then 1900 + y else y);
          ym = yr + (m - 1) div 12; mn = (m - 1) mod 12 + 1
      in day_from_year ym + days_before_month (leap_year ym) mn + d - 1)"

text \<open>\<open>getUTCFullYear\<close>: the largest year that starts no later than the day.\<close>

definition year_of_day :: "int \<Rightarrow> int" where
  "year_of_day n =
     (let c = 1970 + (400 * n) div 146097
      in if day_from_year (c + 1) \<le> n then c + 1 else if day_from_year c \<le> n then c else c - 1)"

definition month_of_day :: "bool \<Rightarrow> int \<Rightarrow> int" where
  "month_of_day leap k =
     (if k < days_before_month leap 2 then 1 else if k < days_before_month leap 3 then 2
      else if k < days_before_month leap 4 then 3 else if k < days_before_month leap 5 then 4
      else if k < days_before_month leap 6 then 5 else if k < days_before_month leap 7 then 6
      else if k < days_before_month leap 8 then 7 else if k < days_before_month leap 9 then 8
      else if k < days_before_month leap 10 then 9 else if k < days_before_month leap 11 then 10
      else if k < days_before_month leap 12 then 11 else 12)"

definition toEpochDay :: "calendar_date \<Rightarrow> int" where
  "toEpochDay d = utc_day (year d) (month d) (day d)"

definition fromEpochDay :: "int \<Rightarrow> calendar_date" where
  "fromEpochDay epochDay =
     (let y = year_of_day epochDay; k = epochDay - day_from_year y;
          m = month_of_day (leap_year y) k
      in Date y m (k - days_before_month (leap_year y) m + 1))"

definition isCalendarDate :: "calendar_date \<Rightarrow> bool" where
  "isCalendarDate d \<longleftrightarrow>
     \<not> (month d < 1 \<or> month d > 12 \<or> day d < 1 \<or> day d > 31)
     \<and> fromEpochDay (utc_day (year d) (month d) (day d)) = d"

text \<open>The text of an instant, and the calendar date it starts with.\<close>

definition instant_text :: "instant \<Rightarrow> string" where
  "instant_text i =
     (let d = fromEpochDay (inst_sec i div 86400); t = inst_sec i mod 86400;
          two = (\<lambda>n. pad_zeros 2 (show_nat (nat n)))
      in pad_zeros 4 (show_nat (nat (year d))) @ ''-'' @ two (month d) @ ''-'' @ two (day d) @ ''T''
         @ two (t div 3600) @ '':'' @ two (t div 60 mod 60) @ '':'' @ two (t mod 60) @ inst_frac i @ ''Z'')"

definition date_text :: "calendar_date \<Rightarrow> string" where
  "date_text d =
     pad_zeros 4 (show_nat (nat (year d))) @ ''-'' @ pad_zeros 2 (show_nat (nat (month d))) @ ''-''
       @ pad_zeros 2 (show_nat (nat (day d)))"

definition dateOf :: "instant \<Rightarrow> calendar_date" where
  "dateOf i = fromEpochDay (inst_sec i div 86400)"

definition addDays :: "calendar_date \<Rightarrow> int \<Rightarrow> calendar_date" where
  "addDays d days = fromEpochDay (toEpochDay d + days)"

definition daysBetween :: "calendar_date \<Rightarrow> calendar_date \<Rightarrow> int" where
  "daysBetween from to = toEpochDay to - toEpochDay from"

definition compareDates :: "calendar_date \<Rightarrow> calendar_date \<Rightarrow> int" where
  "compareDates a b = toEpochDay a - toEpochDay b"

section \<open>ISO weeks\<close>

datatype week_id = Week (week_year: int) (week_number: int)

definition isoWeekday :: "int \<Rightarrow> int" where
  "isoWeekday epochDay = js_rem (js_rem (epochDay + 3) 7 + 7) 7 + 1"

definition startOfWeek :: "calendar_date \<Rightarrow> calendar_date" where
  "startOfWeek d = (let e = toEpochDay d in fromEpochDay (e - (isoWeekday e - 1)))"

definition weekOf :: "calendar_date \<Rightarrow> week_id" where
  "weekOf d =
     (let monday = toEpochDay (startOfWeek d);
          thursday = fromEpochDay (monday + 3);
          y = year thursday;
          jan4 = toEpochDay (Date y 1 4);
          week1Monday = jan4 - (isoWeekday jan4 - 1);
          week = (monday - week1Monday) div 7 + 1
      in Week y week)"

definition startOfWeekId :: "week_id \<Rightarrow> calendar_date" where
  "startOfWeekId w =
     (let y = week_year w; week = week_number w;
          jan4 = toEpochDay (Date y 1 4);
          week1Monday = jan4 - (isoWeekday jan4 - 1)
      in fromEpochDay (week1Monday + (week - 1) * 7))"

definition weeksBetween :: "week_id \<Rightarrow> week_id \<Rightarrow> int" where
  "weeksBetween from to =
     \<lfloor>of_int (daysBetween (startOfWeekId from) (startOfWeekId to)) / 7 + (1 / 2 :: rat)\<rfloor>"

definition addWeeks :: "week_id \<Rightarrow> int \<Rightarrow> week_id" where
  "addWeeks w n = weekOf (addDays (startOfWeekId w) (n * 7))"

datatype period_error = WindowTooShort int | BeforeProjectStart

definition trailingWeeks :: "week_id \<Rightarrow> int \<Rightarrow> period_error + week_id list" where
  "trailingWeeks endWeek weeks =
     (if weeks < 1 then Inl (WindowTooShort weeks)
      else Inr (map (\<lambda>i. addWeeks endWeek (- (weeks - 1 - int i))) [0..<nat weeks]))"

section \<open>Fiscal periods\<close>

datatype year_label = START_YEAR | END_YEAR

datatype fiscal_kind = MONTH | QUARTER | YEAR

record fiscal_calendar =
  cal_id :: string
  cal_name :: string
  startMonth :: int
  yearLabelPrefix :: string
  yearLabelledBy :: year_label

definition fiscalYearOf :: "calendar_date \<Rightarrow> fiscal_calendar \<Rightarrow> int" where
  "fiscalYearOf d cal =
     (let startYear = (if month d \<ge> startMonth cal then year d else year d - 1)
      in if yearLabelledBy cal = START_YEAR then startYear else startYear + 1)"

definition fiscalMonthOf :: "calendar_date \<Rightarrow> fiscal_calendar \<Rightarrow> int" where
  "fiscalMonthOf d cal = js_rem (month d - startMonth cal + 12) 12 + 1"

text \<open>\<open>Math.ceil(m / 3)\<close> on a whole month is \<open>(m + 2) div 3\<close>.\<close>

definition fiscalPeriodOf :: "calendar_date \<Rightarrow> fiscal_calendar \<Rightarrow> fiscal_kind \<Rightarrow> string" where
  "fiscalPeriodOf d cal kind =
     (let label = yearLabelPrefix cal @ show_int (fiscalYearOf d cal)
      in case kind of
           YEAR \<Rightarrow> label
         | QUARTER \<Rightarrow> label @ ''-Q'' @ show_int ((fiscalMonthOf d cal + 2) div 3)
         | MONTH \<Rightarrow> label @ ''-M'' @ pad_zeros 2 (show_int (fiscalMonthOf d cal)))"

section \<open>Project periods and as-of state\<close>

definition projectPeriodOf :: "calendar_date \<Rightarrow> calendar_date \<Rightarrow> period_error + int" where
  "projectPeriodOf d projectStart =
     (if compareDates d projectStart < 0 then Inl BeforeProjectStart
      else Inr (weeksBetween (weekOf projectStart) (weekOf d) + 1))"

text \<open>\<open>date <= asOf\<close> on \<open>YYYY-MM-DD\<close> text.\<close>

definition date_le :: "calendar_date \<Rightarrow> calendar_date \<Rightarrow> bool" where
  "date_le a b \<longleftrightarrow> year a < year b
     \<or> year a = year b \<and> (month a < month b \<or> month a = month b \<and> day a \<le> day b)"

definition hasOccurredAsOf :: "calendar_date option \<Rightarrow> calendar_date \<Rightarrow> bool" where
  "hasOccurredAsOf d asOf = (case d of None \<Rightarrow> False | Some x \<Rightarrow> date_le x asOf)"

definition isOpenAsOf :: "calendar_date option \<Rightarrow> calendar_date \<Rightarrow> bool" where
  "isOpenAsOf settledOn asOf = (\<not> hasOccurredAsOf settledOn asOf)"

definition settledOnAsOf :: "calendar_date option \<Rightarrow> calendar_date \<Rightarrow> calendar_date option" where
  "settledOnAsOf settledOn asOf = (if hasOccurredAsOf settledOn asOf then settledOn else None)"

section \<open>The calendar is the Gregorian calendar\<close>

lemma div_sandwich: "0 < k \<Longrightarrow> k * (x div k) \<le> x \<and> x < k * (x div k) + (k :: int)"
  using mult_div_mod_eq [of k x] pos_mod_sign [of k x] pos_mod_bound [of k x] by linarith

lemma div_succ:
  assumes "0 < k"
  shows "(x + 1) div k = x div k + (if (x + 1) mod k = 0 then 1 else (0 :: int))"
proof -
  have "(x + 1) = k * (x div k) + (x mod k + 1)" by simp
  then have "(x + 1) div k = x div k + (x mod k + 1) div k"
    using assms by (metis div_mult_self4 add.commute mult.commute less_irrefl)
  moreover have "(x + 1) mod k = (x mod k + 1) mod k" by (simp add: mod_add_left_eq)
  moreover have "(x mod k + 1) div k = (if (x mod k + 1) mod k = 0 then 1 else 0)"
  proof (cases "x mod k + 1 = k")
    case True
    then show ?thesis using assms by simp
  next
    case False
    then have "x mod k + 1 < k" "0 < x mod k + 1"
      using assms pos_mod_bound [of k x] pos_mod_sign [of k x] by linarith+
    then show ?thesis by simp
  qed
  ultimately show ?thesis by simp
qed

lemma div_succ_shift:
  assumes "0 < k" "k dvd c"
  shows "(y + 1 - (c + 1)) div k = (y - (c + 1)) div k + (if y mod k = 0 then 1 else (0 :: int))"
proof -
  have "(y - c) mod k = 0 \<longleftrightarrow> y mod k = 0"
    using dvd_add_left_iff [of k "- c" y] assms(2) by (simp add: mod_eq_0_iff_dvd)
  then show ?thesis using div_succ [OF assms(1), of "y - (c + 1)"] by (simp add: algebra_simps)
qed

lemma day_from_year_step:
  "day_from_year (y + 1) = day_from_year y + (if leap_year y then 366 else 365)"
proof -
  have four: "(y + 1 - 1969) div 4 = (y - 1969) div 4 + (if y mod 4 = 0 then 1 else 0)"
    using div_succ_shift [of 4 1968 y] by simp
  have hundred: "(y + 1 - 1901) div 100 = (y - 1901) div 100 + (if y mod 100 = 0 then 1 else 0)"
    using div_succ_shift [of 100 1900 y] by simp
  have fourh: "(y + 1 - 1601) div 400 = (y - 1601) div 400 + (if y mod 400 = 0 then 1 else 0)"
    using div_succ_shift [of 400 1600 y] by simp
  have "day_from_year (y + 1) = day_from_year y + 365 + (if y mod 4 = 0 then 1 else 0)
      - (if y mod 100 = 0 then 1 else 0) + (if y mod 400 = 0 then 1 else 0)"
    unfolding day_from_year_def four hundred fourh by simp
  moreover have "y mod 400 = 0 \<Longrightarrow> y mod 100 = 0" "y mod 100 = 0 \<Longrightarrow> y mod 4 = 0"
    using dvd_trans [of 100 400 y] dvd_trans [of 4 100 y] by (simp_all add: mod_eq_0_iff_dvd)
  ultimately show ?thesis unfolding leap_year_def by presburger
qed

lemma month_cases: "1 \<le> m \<Longrightarrow> m \<le> 12 \<Longrightarrow> m \<in> {1, 2, 3, 4, 5, 6, 7, 8, 9, 10, 11, 12 :: int}"
proof -
  assume "1 \<le> m" "m \<le> 12"
  then have "m \<in> set [1..12]" by simp
  moreover have "[1..12] = [1, 2, 3, 4, 5, 6, 7, 8, 9, 10, 11, 12 :: int]"
    by (simp add: upto_rec1)
  ultimately show ?thesis by simp
qed

lemma year_of_day_bounds:
  "day_from_year (year_of_day n) \<le> n \<and> n < day_from_year (year_of_day n + 1)"
proof -
  define c where "c = (400 * n) div 146097"
  have c: "146097 * c \<le> 400 * n" "400 * n < 146097 * c + 146097"
    unfolding c_def using div_sandwich [of 146097 "400 * n"] by simp_all
  note ds = div_sandwich [of 4 c] div_sandwich [of 100 "c + 68"] div_sandwich [of 400 "c + 368"]
    div_sandwich [of 4 "c + 3"] div_sandwich [of 100 "c + 71"] div_sandwich [of 400 "c + 371"]
  have lo: "day_from_year (1970 + c - 1) \<le> n"
    using c ds unfolding day_from_year_def by (simp add: algebra_simps)
  have hi: "n < day_from_year (1970 + c + 2)"
    using c ds unfolding day_from_year_def by (simp add: algebra_simps)
  show ?thesis using lo hi unfolding year_of_day_def Let_def c_def [symmetric] by auto
qed

lemma day_from_year_mono: "x \<le> y \<Longrightarrow> day_from_year x \<le> day_from_year y"
proof (induction rule: int_ge_induct)
  case base
  show ?case by simp
next
  case (step i)
  then show ?case using day_from_year_step [of i] by (simp split: if_splits)
qed

lemma year_of_day_unique:
  assumes "day_from_year y \<le> n" "n < day_from_year (y + 1)"
  shows "year_of_day n = y"
proof (rule ccontr)
  assume "year_of_day n \<noteq> y"
  then consider "year_of_day n + 1 \<le> y" | "y + 1 \<le> year_of_day n" by linarith
  then show False
    using assms year_of_day_bounds [of n] day_from_year_mono by cases force+
qed

lemma month_of_day_bounds:
  assumes "0 \<le> k" "k < (if leap then 366 else 365)"
  shows "1 \<le> month_of_day leap k" "month_of_day leap k \<le> 12"
    "days_before_month leap (month_of_day leap k) \<le> k"
    "k < days_before_month leap (month_of_day leap k) + 31"
  using assms by (auto simp: month_of_day_def days_before_month_def split: if_splits)

definition days_in_month :: "bool \<Rightarrow> int \<Rightarrow> int" where
  "days_in_month leap m =
     (if m = 12 then 31 else days_before_month leap (m + 1) - days_before_month leap m)"

lemma month_of_day_unique:
  assumes "1 \<le> m" "m \<le> 12" "1 \<le> d" "d \<le> days_in_month leap m"
  shows "month_of_day leap (days_before_month leap m + d - 1) = m"
proof -
  have "m \<in> {1, 2, 3, 4, 5, 6, 7, 8, 9, 10, 11, 12}" using assms(1,2) by (rule month_cases)
  then have "m = 1 \<or> m = 2 \<or> m = 3 \<or> m = 4 \<or> m = 5 \<or> m = 6 \<or> m = 7 \<or> m = 8 \<or> m = 9
      \<or> m = 10 \<or> m = 11 \<or> m = 12" by simp
  then show ?thesis
    using assms(3,4)
    by (cases leap; elim disjE; simp add: month_of_day_def days_before_month_def days_in_month_def)
qed

text \<open>The dates the calendar has, in the years that \<open>Date.UTC\<close> does not remap.\<close>

definition gregorian :: "calendar_date \<Rightarrow> bool" where
  "gregorian d \<longleftrightarrow> 100 \<le> year d \<and> 1 \<le> month d \<and> month d \<le> 12
     \<and> 1 \<le> day d \<and> day d \<le> days_in_month (leap_year (year d)) (month d)"

definition modern :: "int \<Rightarrow> bool" where
  "modern n \<longleftrightarrow> day_from_year 100 \<le> n"

lemma modern_year: "modern n \<longleftrightarrow> 100 \<le> year_of_day n"
proof
  assume "modern n"
  show "100 \<le> year_of_day n"
  proof (rule ccontr)
    assume "\<not> 100 \<le> year_of_day n"
    then have "day_from_year (year_of_day n + 1) \<le> day_from_year 100" by (intro day_from_year_mono) simp
    with \<open>modern n\<close> year_of_day_bounds [of n] show False by (simp add: modern_def)
  qed
next
  assume "100 \<le> year_of_day n"
  then show "modern n"
    using day_from_year_mono [of 100 "year_of_day n"] year_of_day_bounds [of n]
    by (simp add: modern_def)
qed

lemma utc_day_gregorian:
  "100 \<le> y \<Longrightarrow> 1 \<le> m \<Longrightarrow> m \<le> 12 \<Longrightarrow>
    utc_day y m d = day_from_year y + days_before_month (leap_year y) m + d - 1"
  by (simp add: utc_day_def Let_def div_pos_pos_trivial mod_pos_pos_trivial)

lemma from_toEpochDay:
  assumes "gregorian d"
  shows "fromEpochDay (toEpochDay d) = d"
proof -
  obtain y m k where d: "d = Date y m k" by (cases d)
  from assms d have g: "100 \<le> y" "1 \<le> m" "m \<le> 12" "1 \<le> k" "k \<le> days_in_month (leap_year y) m"
    by (simp_all add: gregorian_def)
  let ?k = "days_before_month (leap_year y) m + k - 1"
  have n: "toEpochDay d = day_from_year y + ?k"
    using g by (simp add: toEpochDay_def d utc_day_gregorian)
  have "m \<in> {1, 2, 3, 4, 5, 6, 7, 8, 9, 10, 11, 12}" using g(2,3) by (rule month_cases)
  then have "m = 1 \<or> m = 2 \<or> m = 3 \<or> m = 4 \<or> m = 5 \<or> m = 6 \<or> m = 7 \<or> m = 8 \<or> m = 9
      \<or> m = 10 \<or> m = 11 \<or> m = 12" by simp
  then have "0 \<le> ?k \<and> ?k < (if leap_year y then 366 else 365)"
    using g(4,5)
    by (cases "leap_year y"; elim disjE; simp add: days_before_month_def days_in_month_def)
  then have "year_of_day (toEpochDay d) = y"
    using n by (intro year_of_day_unique) (simp_all add: day_from_year_step)
  then show ?thesis
    using n g month_of_day_unique [of m k "leap_year y"]
    by (simp add: fromEpochDay_def Let_def d)
qed

lemma gregorian_fromEpochDay:
  assumes "modern n"
  shows "gregorian (fromEpochDay n)"
proof -
  let ?y = "year_of_day n" and ?k = "n - day_from_year (year_of_day n)"
  have k: "0 \<le> ?k" "?k < (if leap_year ?y then 366 else 365)"
    using year_of_day_bounds [of n] by (auto simp: day_from_year_step)
  have y: "100 \<le> ?y" using assms by (simp add: modern_year)
  have "?k - days_before_month (leap_year ?y) (month_of_day (leap_year ?y) ?k) + 1
      \<le> days_in_month (leap_year ?y) (month_of_day (leap_year ?y) ?k)"
    using k by (auto simp: month_of_day_def days_in_month_def days_before_month_def split: if_splits)
  then show ?thesis
    using y month_of_day_bounds [OF k] by (simp add: gregorian_def fromEpochDay_def Let_def)
qed

lemma to_fromEpochDay:
  assumes "modern n"
  shows "toEpochDay (fromEpochDay n) = n"
proof -
  have "gregorian (fromEpochDay n)" by (rule gregorian_fromEpochDay [OF assms])
  then have "toEpochDay (fromEpochDay n) = day_from_year (year (fromEpochDay n))
      + days_before_month (leap_year (year (fromEpochDay n))) (month (fromEpochDay n))
      + day (fromEpochDay n) - 1"
    by (simp add: toEpochDay_def utc_day_gregorian gregorian_def)
  then show ?thesis by (simp add: fromEpochDay_def Let_def)
qed

section \<open>Weeks\<close>

lemma isoWeekday_mod: "isoWeekday e = (e + 3) mod 7 + 1"
proof -
  have "js_rem (js_rem a 7 + 7) 7 = a mod 7" for a :: int
  proof (cases "a < 0")
    case True
    have "0 < - ((- a) mod 7) + 7" using pos_mod_bound [of 7 "- a"] by linarith
    moreover have "(- ((- a) mod 7) + 7) mod 7 = a mod 7" by (simp add: mod_minus_eq)
    ultimately show ?thesis using True by (simp add: js_rem_def)
  next
    case False
    then have "0 < a mod 7 + 7" using pos_mod_sign [of 7 a] by linarith
    with False show ?thesis by (cases "a = 0") (simp_all add: js_rem_def)
  qed
  then show ?thesis by (simp add: isoWeekday_def)
qed

text \<open>The Monday of the week of a day.\<close>

definition monday :: "int \<Rightarrow> int" where
  "monday e = e - (isoWeekday e - 1)"

lemma monday_bounds: "monday e \<le> e" "e < monday e + 7"
  using pos_mod_sign [of 7 "e + 3"] pos_mod_bound [of 7 "e + 3"]
  by (simp_all add: monday_def isoWeekday_mod)

lemma monday_mod: "(monday e + 3) mod 7 = 0"
proof -
  have "monday e + 3 = (e + 3) - (e + 3) mod 7" by (simp add: monday_def isoWeekday_mod)
  then show ?thesis by (metis minus_mod_eq_mult_div mod_mult_self1_is_0)
qed

lemma monday_unique: "(m + 3) mod 7 = 0 \<Longrightarrow> m \<le> e \<Longrightarrow> e < m + 7 \<Longrightarrow> monday e = m"
proof -
  assume m: "(m + 3) mod 7 = 0" "m \<le> e" "e < m + 7"
  have "7 dvd (monday e + 3) - (m + 3)"
    using m(1) monday_mod [of e] by (intro dvd_diff) (simp_all only: mod_eq_0_iff_dvd)
  then obtain k where k: "(monday e + 3) - (m + 3) = 7 * k" by (rule dvdE)
  moreover have "- 7 < (monday e + 3) - (m + 3)" "(monday e + 3) - (m + 3) < 7"
    using m monday_bounds [of e] by linarith+
  ultimately have "k = 0" by linarith
  with k show ?thesis by simp
qed

lemma monday_monday [simp]: "monday (monday e) = monday e"
  by (rule monday_unique) (simp_all add: monday_mod)

lemma monday_add: "monday (e + 7 * n) = monday e + 7 * n"
proof (rule monday_unique)
  have "(monday e + 7 * n + 3) mod 7 = (monday e + 3 + 7 * n) mod 7" by (simp add: algebra_simps)
  then show "(monday e + 7 * n + 3) mod 7 = 0" by (simp add: monday_mod)
qed (use monday_bounds [of e] in simp_all)

lemma modern_le: "modern m \<Longrightarrow> m \<le> n \<Longrightarrow> modern n"
  by (simp add: modern_def)

lemma startOfWeek_epoch: "modern (monday (toEpochDay d)) \<Longrightarrow> toEpochDay (startOfWeek d) = monday (toEpochDay d)"
  by (simp add: startOfWeek_def Let_def to_fromEpochDay flip: monday_def)

lemma startOfWeekId_weekOf:
  assumes "modern (monday (toEpochDay d))"
  shows "startOfWeekId (weekOf d) = startOfWeek d"
proof -
  let ?m = "monday (toEpochDay d)"
  let ?y = "year (fromEpochDay (?m + 3))"
  let ?j = "toEpochDay (Date ?y 1 4)"
  have "7 dvd (?m + 3) - (monday ?j + 3)"
    using monday_mod [of "toEpochDay d"] monday_mod [of ?j]
    by (intro dvd_diff) (simp_all only: mod_eq_0_iff_dvd)
  then have "monday ?j + (?m - monday ?j) div 7 * 7 = ?m" by simp
  moreover have "weekOf d = Week ?y ((?m - monday ?j) div 7 + 1)"
    by (simp add: weekOf_def Let_def startOfWeek_epoch [OF assms] flip: monday_def)
  ultimately show ?thesis
    by (simp add: startOfWeekId_def startOfWeek_def Let_def flip: monday_def)
qed

lemma weekOf_startOfWeek:
  assumes "modern (monday (toEpochDay d))"
  shows "weekOf (startOfWeek d) = weekOf d"
  using assms by (simp add: weekOf_def startOfWeek_epoch Let_def)

text \<open>Weeks are modelled up to their Monday: \<open>week_monday\<close> is the day number of a week's Monday.\<close>

definition week_monday :: "week_id \<Rightarrow> int" where
  "week_monday w = toEpochDay (startOfWeekId w)"

lemma week_monday_weekOf: "modern (monday (toEpochDay d)) \<Longrightarrow> week_monday (weekOf d) = monday (toEpochDay d)"
  by (simp add: week_monday_def startOfWeekId_weekOf startOfWeek_epoch)

lemma week_monday_addWeeks:
  assumes "modern (monday (toEpochDay d))" "modern (monday (toEpochDay d) + 7 * n)"
  shows "week_monday (addWeeks (weekOf d) n) = monday (toEpochDay d) + 7 * n"
proof -
  have e: "toEpochDay (addDays (startOfWeekId (weekOf d)) (n * 7)) = monday (toEpochDay d) + 7 * n"
    using assms
    by (simp add: addDays_def startOfWeekId_weekOf startOfWeek_epoch to_fromEpochDay mult.commute)
  then show ?thesis
    using assms week_monday_weekOf [of "addDays (startOfWeekId (weekOf d)) (n * 7)"]
    by (simp add: addWeeks_def monday_add)
qed

lemma addWeeks_zero:
  assumes "modern (monday (toEpochDay d))"
  shows "addWeeks (weekOf d) 0 = weekOf d"
proof -
  have "addDays (startOfWeekId (weekOf d)) 0 = startOfWeek d"
    using assms by (simp add: addDays_def startOfWeekId_weekOf startOfWeek_epoch)
      (simp add: startOfWeek_def Let_def flip: monday_def)
  then show ?thesis using assms by (simp add: addWeeks_def weekOf_startOfWeek)
qed

lemma weeksBetween_mondays: "week_monday v - week_monday u = 7 * n \<Longrightarrow> weeksBetween u v = n"
proof -
  assume "week_monday v - week_monday u = 7 * n"
  then have "daysBetween (startOfWeekId u) (startOfWeekId v) = 7 * n"
    by (simp add: daysBetween_def week_monday_def)
  then show ?thesis by (simp add: weeksBetween_def floor_unique)
qed

lemma weeksBetween_addWeeks:
  assumes "modern (monday (toEpochDay d))"
    and "modern (monday (toEpochDay d) + 7 * a)" "modern (monday (toEpochDay d) + 7 * b)"
  shows "weeksBetween (addWeeks (weekOf d) a) (addWeeks (weekOf d) b) = b - a"
  using assms by (intro weeksBetween_mondays) (simp add: week_monday_addWeeks right_diff_distrib)

text \<open>The trailing window of a trajectory metric, asked for \<open>n > 0\<close> weeks, is not an error and
  holds exactly \<open>n\<close> ISO weeks, one apart from each other, oldest first, ending in the given week.\<close>

theorem trailing_weeks_consecutive:
  assumes "modern (monday (toEpochDay d) - 7 * n)" and "0 < n"
  shows "\<exists>ws. trailingWeeks (weekOf d) n = Inr ws \<and> length ws = nat n \<and> last ws = weekOf d
      \<and> (\<forall>i. Suc i < length ws \<longrightarrow> weeksBetween (ws ! i) (ws ! Suc i) = 1)"
proof -
  let ?ws = "map (\<lambda>i. addWeeks (weekOf d) (- (n - 1 - int i))) [0..<nat n]"
  have "last ?ws = addWeeks (weekOf d) 0"
    using assms(2) by (simp add: last_map)
  then have "last ?ws = weekOf d"
    using assms by (simp add: addWeeks_zero modern_le [OF assms(1)])
  moreover have "weeksBetween (?ws ! i) (?ws ! Suc i) = 1" if i: "Suc i < nat n" for i
  proof -
    have "weeksBetween (addWeeks (weekOf d) (- (n - 1 - int i)))
        (addWeeks (weekOf d) (- (n - 1 - int (Suc i)))) = 1"
      using assms i by (subst weeksBetween_addWeeks) (auto intro: modern_le [OF assms(1)])
    moreover have "?ws ! j = addWeeks (weekOf d) (- (n - 1 - int j))" if "j < nat n" for j
      using that by simp
    ultimately show ?thesis using i by (simp only: Suc_lessD)
  qed
  ultimately show ?thesis using assms(2) by (simp add: trailingWeeks_def)
qed

theorem trailing_weeks_consecutive_witness:
  "\<exists>ws. trailingWeeks (weekOf (Date 2026 8 31)) 8 = Inr ws \<and> length ws = nat 8
      \<and> last ws = weekOf (Date 2026 8 31)
      \<and> (\<forall>i. Suc i < length ws \<longrightarrow> weeksBetween (ws ! i) (ws ! Suc i) = 1)"
  by (rule trailing_weeks_consecutive) (code_simp, simp)

text \<open>A calendar date survives the passage to its day number and back, and so does every day
  number, in all the years that \<open>Date.UTC\<close> does not remap (100 onwards); the dates so reached are
  exactly the dates of the Gregorian calendar.\<close>

theorem epoch_day_roundtrip:
  "(gregorian d \<longrightarrow> fromEpochDay (toEpochDay d) = d \<and> modern (toEpochDay d))
    \<and> (modern n \<longrightarrow> toEpochDay (fromEpochDay n) = n \<and> gregorian (fromEpochDay n))"
proof -
  have "modern (toEpochDay d)" if "gregorian d"
  proof -
    from that have "100 \<le> year_of_day (toEpochDay d)"
      using from_toEpochDay [OF that] by (metis calendar_date.sel(1) fromEpochDay_def gregorian_def)
    then show ?thesis by (simp add: modern_year)
  qed
  then show ?thesis by (simp add: from_toEpochDay to_fromEpochDay gregorian_fromEpochDay)
qed

theorem epoch_day_roundtrip_witness:
  "fromEpochDay (toEpochDay (Date 2024 2 29)) = Date 2024 2 29
    \<and> toEpochDay (fromEpochDay 20696) = 20696"
proof -
  have "gregorian (Date 2024 2 29)" "modern 20696" by code_simp+
  then show ?thesis using epoch_day_roundtrip [of "Date 2024 2 29" 20696] by blast
qed

section \<open>Fiscal periods\<close>

lemma js_rem_pos: "0 \<le> a \<Longrightarrow> js_rem a 12 = a mod 12"
  by (cases "a = 0") (simp_all add: js_rem_def)

text \<open>For every fiscal calendar the fiscal month is between 1 and 12, and fiscal years and
  months count calendar months without a gap or an overlap: moving \<open>k\<close> calendar months moves the
  fiscal count by exactly \<open>k\<close>.\<close>

theorem fiscal_months_contiguous:
  assumes "1 \<le> startMonth cal" "startMonth cal \<le> 12"
    and "1 \<le> month d" "month d \<le> 12" "1 \<le> month e" "month e \<le> 12"
  shows "1 \<le> fiscalMonthOf d cal \<and> fiscalMonthOf d cal \<le> 12
    \<and> (12 * fiscalYearOf e cal + fiscalMonthOf e cal) - (12 * fiscalYearOf d cal + fiscalMonthOf d cal)
      = (12 * year e + month e) - (12 * year d + month d)"
proof -
  have abs: "12 * fiscalYearOf x cal + fiscalMonthOf x cal
      = 12 * year x + month x - startMonth cal + 1 + (if yearLabelledBy cal = START_YEAR then 0 else 12)"
    if "1 \<le> month x" "month x \<le> 12" for x
  proof (cases "month x \<ge> startMonth cal")
    case True
    then have "(month x - startMonth cal + 12) mod 12 = month x - startMonth cal"
      using that assms(1) by simp
    then show ?thesis
      using True that by (simp add: fiscalYearOf_def fiscalMonthOf_def js_rem_pos)
  next
    case False
    then have "(month x - startMonth cal + 12) mod 12 = month x - startMonth cal + 12"
      using that assms(2) by (intro mod_pos_pos_trivial) linarith+
    then show ?thesis
      using False that assms(2) by (simp add: fiscalYearOf_def fiscalMonthOf_def js_rem_pos)
  qed
  have "0 \<le> month d - startMonth cal + 12" using assms by linarith
  then have "1 \<le> fiscalMonthOf d cal" "fiscalMonthOf d cal \<le> 12"
    using pos_mod_bound [of 12 "month d - startMonth cal + 12"]
    by (simp_all add: fiscalMonthOf_def js_rem_pos)
  then show ?thesis using abs [OF assms(3,4)] abs [OF assms(5,6)] by simp
qed

theorem fiscal_months_contiguous_witness:
  "12 * fiscalYearOf (Date 2027 1 31) \<lparr>cal_id = ''in'', cal_name = ''India'', startMonth = 4,
      yearLabelPrefix = ''FY'', yearLabelledBy = END_YEAR\<rparr>
    + fiscalMonthOf (Date 2027 1 31) \<lparr>cal_id = ''in'', cal_name = ''India'', startMonth = 4,
      yearLabelPrefix = ''FY'', yearLabelledBy = END_YEAR\<rparr> = 12 * 2027 + 10"
  using fiscal_months_contiguous [of "\<lparr>cal_id = ''in'', cal_name = ''India'', startMonth = 4,
      yearLabelPrefix = ''FY'', yearLabelledBy = END_YEAR\<rparr>" "Date 2026 4 1" "Date 2027 1 31"]
  by (simp add: fiscalYearOf_def fiscalMonthOf_def js_rem_def)

section \<open>The text order of instants\<close>

lemma parse_digits_Cons: "parse_digits (c # s) = digit_val c * 10 ^ length s + parse_digits s"
proof (induction s rule: rev_induct)
  case Nil
  show ?case by (simp add: parse_digits_def)
next
  case (snoc d s)
  have "parse_digits (c # s @ [d]) = 10 * parse_digits (c # s) + digit_val d"
    using parse_digits_snoc [of "c # s" d] by simp
  with snoc show ?case by (simp add: algebra_simps)
qed

lemma parse_digits_bound: "list_all is_digit s \<Longrightarrow> parse_digits s < 10 ^ length s"
proof (induction s)
  case Nil
  show ?case by (simp add: parse_digits_def)
next
  case (Cons c s)
  then have "digit_val c \<le> 9" "parse_digits s < 10 ^ length s"
    by (auto simp: digit_val_def is_digit_def)
  moreover from this have "digit_val c * 10 ^ length s \<le> 9 * 10 ^ length s" by (intro mult_le_mono1)
  ultimately have "digit_val c * 10 ^ length s + parse_digits s < 10 * 10 ^ length s" by linarith
  then show ?case by (simp add: parse_digits_Cons)
qed

lemma digit_val_less: "is_digit c \<Longrightarrow> is_digit d \<Longrightarrow> c < d \<Longrightarrow> digit_val c < digit_val d"
  by (auto simp: digit_val_def is_digit_def less_char_def)

lemma digits_text_order:
  "length s = length t \<Longrightarrow> list_all is_digit s \<Longrightarrow> list_all is_digit t \<Longrightarrow>
    s @ [z] \<le> t @ [z] \<longleftrightarrow> parse_digits s \<le> parse_digits t"
proof (induction s t rule: list_induct2)
  case Nil
  show ?case by simp
next
  case (Cons c s d t)
  have b: "parse_digits s < 10 ^ length s" "parse_digits t < 10 ^ length s"
    using Cons parse_digits_bound [of s] parse_digits_bound [of t] by simp_all
  consider "c = d" | "c < d" | "d < c" by fastforce
  then show ?case
  proof cases
    case 1
    with Cons show ?thesis by (simp add: parse_digits_Cons)
  next
    case 2
    then have "Suc (digit_val c) \<le> digit_val d" using digit_val_less [of c d] Cons by simp
    then have "Suc (digit_val c) * 10 ^ length s \<le> digit_val d * 10 ^ length s" by (rule mult_le_mono1)
    with 2 b Cons show ?thesis by (simp add: parse_digits_Cons)
  next
    case 3
    then have "Suc (digit_val d) \<le> digit_val c" using digit_val_less [of d c] Cons by simp
    then have "Suc (digit_val d) * 10 ^ length s \<le> digit_val c * 10 ^ length s" by (rule mult_le_mono1)
    with 3 b Cons show ?thesis by (auto simp: parse_digits_Cons dest: less_asym)
  qed
qed

lemma frac_ms_bound: "frac_text f \<Longrightarrow> 0 \<le> frac_ms f \<and> frac_ms f < 1000"
proof (cases f)
  case (Cons c ds)
  assume "frac_text f"
  with Cons have ds: "list_all is_digit ds" "length ds \<le> 3" by (simp_all add: frac_text_def)
  from ds(1) have "parse_digits ds < 10 ^ length ds" by (rule parse_digits_bound)
  then have "parse_digits ds * 10 ^ (3 - length ds) < 10 ^ length ds * 10 ^ (3 - length ds)" by simp
  also have "\<dots> = (1000 :: nat)" using ds(2) by (simp flip: power_add)
  finally have "int (parse_digits ds * 10 ^ (3 - length ds)) < int 1000"
    by (simp only: of_nat_less_iff)
  with Cons show ?thesis by (simp add: frac_ms_def)
qed (simp add: frac_ms_def)

lemma text_order_time:
  assumes "frac_text (inst_frac a)" "frac_text (inst_frac b)"
    and "length (inst_frac a) = length (inst_frac b)"
  shows "inst_le a b \<longleftrightarrow> date_parse a \<le> date_parse b"
proof -
  have "inst_frac a @ ''Z'' \<le> inst_frac b @ ''Z'' \<longleftrightarrow> frac_ms (inst_frac a) \<le> frac_ms (inst_frac b)"
    using assms digits_text_order [of "tl (inst_frac a)" "tl (inst_frac b)" "CHR ''Z''"]
    by (auto simp: frac_text_def frac_ms_def split: list.splits)
  then show ?thesis
    using frac_ms_bound [OF assms(1)] frac_ms_bound [OF assms(2)]
    by (auto simp: inst_le_def date_parse_def)
qed

text \<open>Instants written by \<open>toISOString\<close> all have three fraction digits; against one of those, an instant
  read from the system clock (whole seconds) compares as its second does.\<close>

lemma to_iso_frac: "frac_text (inst_frac (to_iso ms))" "length (inst_frac (to_iso ms)) = 4" "date_parse (to_iso ms) = ms"
proof -
  let ?n = "nat (ms mod 1000)"
  have n: "?n < 10 ^ 3" by (simp add: nat_less_iff)
  have len: "length (show_nat ?n) \<le> 3" using n show_nat_length [of ?n 2] by (simp add: numeral_eq_Suc)
  then have l: "length (pad_zeros 3 (show_nat ?n)) = 3" by (simp add: pad_zeros_def)
  moreover have "list_all is_digit (pad_zeros 3 (show_nat ?n))" by (intro pad_zeros_digits show_nat_digits)
  ultimately show "frac_text (inst_frac (to_iso ms))" "length (inst_frac (to_iso ms)) = 4"
    by (simp_all add: to_iso_def frac_text_def)
  have "parse_digits (pad_zeros 3 (show_nat ?n)) = ?n" by (simp add: parse_pad_zeros parse_show_nat)
  then show "date_parse (to_iso ms) = ms" using l by (simp add: date_parse_def to_iso_def frac_ms_def)
qed

lemma to_iso_le: "inst_le (to_iso a) (to_iso b) \<longleftrightarrow> a \<le> b"
  by (simp add: text_order_time to_iso_frac)

lemma earlier_to_iso: "earlier (to_iso a) (to_iso b) = to_iso (min a b)"
  by (simp add: earlier_def to_iso_le min_def)

lemma to_iso_le_second: "inst_le (to_iso e) (Instant s []) \<longleftrightarrow> e div 1000 \<le> s"
  by (auto simp: inst_le_def to_iso_def)

text \<open>Comparing two instants as text is comparing them in time, and \<open>earlier\<close> returns the one
  that comes first, as long as both are written with the same number of fraction digits.\<close>

theorem instant_text_order:
  assumes "frac_text (inst_frac a)" "frac_text (inst_frac b)"
    and "length (inst_frac a) = length (inst_frac b)"
  shows "(inst_le a b \<longleftrightarrow> date_parse a \<le> date_parse b)
    \<and> date_parse (earlier a b) = min (date_parse a) (date_parse b)"
  using text_order_time [OF assms] by (simp add: earlier_def min_def)

theorem instant_text_order_witness:
  "date_parse (earlier (Instant 60 ''.250'') (Instant 60 ''.125'')) = 60125"
proof -
  have "frac_text ''.250''" "frac_text ''.125''" by code_simp+
  then have "date_parse (earlier (Instant 60 ''.250'') (Instant 60 ''.125''))
      = min (date_parse (Instant 60 ''.250'')) (date_parse (Instant 60 ''.125''))"
    using instant_text_order [of "Instant 60 ''.250''" "Instant 60 ''.125''"] by simp
  also have "\<dots> = 60125" by code_simp
  finally show ?thesis .
qed

text \<open>Without that proviso the text order is not the order in time, although both instants are
  well formed: \<open>00:00:00.5Z\<close> sorts before \<open>00:00:00Z\<close>, so \<open>earlier\<close> returns the later of the two.\<close>

theorem earlier_mixed_fractions:
  "\<exists>a b. frac_text (inst_frac a) \<and> frac_text (inst_frac b)
    \<and> date_parse b < date_parse a \<and> earlier a b = a"
proof (intro exI conjI)
  show "frac_text (inst_frac (Instant 0 ''.5''))" "frac_text (inst_frac (Instant 0 []))"
    "date_parse (Instant 0 []) < date_parse (Instant 0 ''.5'')"
    "earlier (Instant 0 ''.5'') (Instant 0 []) = Instant 0 ''.5''"
    by code_simp+
qed

end
