(* ===== verification/Explainability.thy ===== *)
theory Explainability
  imports Decimals Time_Periods
begin

text \<open>
  \<open>src/platform/provenance/index.ts\<close> and \<open>src/platform/explainability/index.ts\<close>: the provenance
  envelope, the evaluation of one rule as a value, and the explanation that refuses an assessment
  which looked at nothing or fired without evidence. Prose keeps the source's words; characters
  outside ASCII are written with ASCII (an em dash as \<open>--\<close>, a relation sign as its digraph).
\<close>

section \<open>Provenance\<close>

record record_ref =
  rr_context :: string
  rr_entityType :: string
  rr_entityId :: string
  rr_metricId :: "string option"

type_synonym rule_version = string

datatype epistemic_layer = L1 | L2 | L3

record 'a provenance =
  pv_value :: 'a
  pv_layer :: epistemic_layer
  pv_sources :: "record_ref list"
  pv_ruleVersion :: "rule_version option"
  pv_computedAt :: instant

datatype provenance_error = NoSources

definition observed :: "'a \<Rightarrow> record_ref \<Rightarrow> instant \<Rightarrow> 'a provenance" where
  "observed v source computedAt = \<lparr>pv_value = v, pv_layer = L1, pv_sources = [source],
     pv_ruleVersion = None, pv_computedAt = computedAt\<rparr>"

definition derived :: "'a \<Rightarrow> record_ref list \<Rightarrow> rule_version \<Rightarrow> instant \<Rightarrow> provenance_error + 'a provenance" where
  "derived v sources rules computedAt =
     (if sources = [] then Inl NoSources
      else Inr \<lparr>pv_value = v, pv_layer = L2, pv_sources = sources,
             pv_ruleVersion = Some rules, pv_computedAt = computedAt\<rparr>)"

definition inferred :: "'a \<Rightarrow> record_ref list \<Rightarrow> instant \<Rightarrow> rule_version option \<Rightarrow> provenance_error + 'a provenance" where
  "inferred v sources computedAt rules =
     (if sources = [] then Inl NoSources
      else Inr \<lparr>pv_value = v, pv_layer = L3, pv_sources = sources,
             pv_ruleVersion = rules, pv_computedAt = computedAt\<rparr>)"

datatype authority_class = AUTHORITATIVE | GOVERNED_REFERENCE | SUPPLEMENTAL | EVIDENCE_ONLY | UNVERIFIED

definition AUTHORITY_ORDER :: "authority_class list" where
  "AUTHORITY_ORDER = [AUTHORITATIVE, GOVERNED_REFERENCE, SUPPLEMENTAL, EVIDENCE_ONLY, UNVERIFIED]"

definition index_of :: "'a \<Rightarrow> 'a list \<Rightarrow> int" where
  "index_of x xs = (if x \<in> set xs then int (length (takeWhile (\<lambda>y. y \<noteq> x) xs)) else - 1)"

definition outranks :: "authority_class \<Rightarrow> authority_class \<Rightarrow> bool" where
  "outranks a b \<longleftrightarrow> index_of a AUTHORITY_ORDER < index_of b AUTHORITY_ORDER"

datatype data_context = CANONICAL | APPROVED | VALIDATED | SANDBOX

definition isGoverned :: "data_context \<Rightarrow> bool" where
  "isGoverned ctx \<longleftrightarrow> ctx = CANONICAL"

section \<open>The evaluation of a rule\<close>

datatype signal_direction = IMPROVING | STABLE | WORSENING | DIRECTION_NOT_COMPUTABLE

datatype comparison = LT | LTE | GT | GTE | EQ | NEQ | IN_BAND | PRESENT

fun COMPARISON_SYMBOL :: "comparison \<Rightarrow> string" where
  "COMPARISON_SYMBOL LT = ''<''"
| "COMPARISON_SYMBOL LTE = ''<=''"
| "COMPARISON_SYMBOL GT = ''>''"
| "COMPARISON_SYMBOL GTE = ''>=''"
| "COMPARISON_SYMBOL EQ = ''=''"
| "COMPARISON_SYMBOL NEQ = ''/=''"
| "COMPARISON_SYMBOL IN_BAND = ''within band''"
| "COMPARISON_SYMBOL PRESENT = ''present''"

text \<open>The five states of a rule; \<open>RULE_\<close> tells them from the states of a signal below.\<close>

datatype rule_status = FIRED | CLEAR | RULE_NOT_APPLICABLE | RULE_NOT_COMPUTABLE | RULE_CONFIGURATION_ERROR

datatype signal_state = OBSERVED | KNOWN_ZERO | NOT_APPLICABLE | NOT_COMPUTABLE | UNBOUNDED | CONFIGURATION_ERROR

datatype reason_code =
  LIFECYCLE_NOT_APPLICABLE
| CONTRACT_TYPE_NOT_APPLICABLE
| NO_REMAINING_WORK
| RISK_OBJECT_ABSENT
| NO_REMAINING_DELIVERY_WINDOW
| INSUFFICIENT_EXECUTION_HISTORY
| REQUIRED_METRIC_NOT_COMPUTABLE
| REQUIRED_EVIDENCE_MISSING
| SIGNAL_BUILDER_MISSING
| THRESHOLD_UNDECIDED
| REASON_CONFIGURATION_ERROR

record impact =
  impact_amount :: quantity
  impact_currency :: string

record rule_evaluation =
  ev_status :: rule_status
  ev_notEvaluatedReasonCode :: "reason_code option"
  ev_requiredEvidence :: "string list option"
  ev_missingEvidence :: "string list option"
  ev_ruleId :: string
  ev_ruleName :: string
  ev_ruleSetId :: string
  ev_ruleVersion :: rule_version
  ev_signalId :: string
  ev_signalMetricId :: "string option"
  ev_observedValue :: "string option"
  ev_comparison :: comparison
  ev_thresholdValue :: "string option"
  ev_notEvaluatedReason :: "string option"
  ev_fired :: bool
  ev_trend :: "signal_direction option"
  ev_estimatedImpact :: "impact option"
  ev_contribution :: string
  ev_narrative :: string
  ev_evidence :: "record_ref list"

record explanation =
  ex_outcome :: string
  ex_outcomeDetail :: "string option"
  ex_evaluatedAt :: instant
  ex_ruleSetVersion :: rule_version
  ex_metricCatalogVersion :: string
  ex_healthModelVersion :: "rule_version option"
  ex_evaluations :: "rule_evaluation list"
  ex_firedRules :: "string list"
  ex_unevaluatedRules :: "string list"
  ex_evidence :: "record_ref list"

datatype explanation_error = NoEvaluations string | FiredWithoutEvidence string

section \<open>Explanations\<close>

definition evidence_key :: "record_ref \<Rightarrow> string" where
  "evidence_key r = rr_context r @ ''|'' @ rr_entityType r @ ''|'' @ rr_entityId r @ ''|'' @ nullish (rr_metricId r) ''''"

definition dedupeEvidence :: "record_ref list \<Rightarrow> record_ref list" where
  "dedupeEvidence refs = map snd (foldl (\<lambda>seen r. js_set (evidence_key r) r seen) [] refs)"

definition explain :: "string \<Rightarrow> string option \<Rightarrow> instant \<Rightarrow> rule_version \<Rightarrow> string \<Rightarrow> rule_version option \<Rightarrow>
    rule_evaluation list \<Rightarrow> explanation_error + explanation" where
  "explain outcome outcomeDetail evaluatedAt ruleSetVersion metricCatalogVersion healthModelVersion evaluations =
     (if evaluations = [] then Inl (NoEvaluations outcome)
      else case find (\<lambda>e. ev_fired e \<and> ev_evidence e = []) evaluations of
        Some e \<Rightarrow> Inl (FiredWithoutEvidence (ev_ruleId e))
      | None \<Rightarrow> Inr
          \<lparr>ex_outcome = outcome,
           ex_outcomeDetail = outcomeDetail,
           ex_evaluatedAt = evaluatedAt,
           ex_ruleSetVersion = ruleSetVersion,
           ex_metricCatalogVersion = metricCatalogVersion,
           ex_healthModelVersion = healthModelVersion,
           ex_evaluations = evaluations,
           ex_firedRules = map ev_ruleId (filter ev_fired evaluations),
           ex_unevaluatedRules = map ev_ruleId (filter (\<lambda>e. ev_notEvaluatedReason e \<noteq> None) evaluations),
           ex_evidence = dedupeEvidence (concat (map ev_evidence evaluations))\<rparr>)"

fun direction_lower :: "signal_direction \<Rightarrow> string" where
  "direction_lower IMPROVING = ''improving''"
| "direction_lower STABLE = ''stable''"
| "direction_lower WORSENING = ''worsening''"
| "direction_lower DIRECTION_NOT_COMPUTABLE = ''not_computable''"

definition renderEvaluation :: "rule_evaluation \<Rightarrow> string" where
  "renderEvaluation e =
     (case ev_notEvaluatedReason e of
        Some reason \<Rightarrow> ''  . '' @ ev_ruleName e @ '': NOT EVALUATED -- '' @ reason
      | None \<Rightarrow>
          let cmp = (case ev_thresholdValue e of
                       None \<Rightarrow> COMPARISON_SYMBOL (ev_comparison e)
                     | Some t \<Rightarrow> COMPARISON_SYMBOL (ev_comparison e) @ '' '' @ t);
              impact = (case ev_estimatedImpact e of
                          None \<Rightarrow> ''''
                        | Some i \<Rightarrow> ''  [impact '' @ q_text (impact_amount i) @ '' '' @ impact_currency i @ '']'');
              trend = (case ev_trend e of
                         None \<Rightarrow> ''''
                       | Some d \<Rightarrow> if d \<noteq> DIRECTION_NOT_COMPUTABLE then ''  ('' @ direction_lower d @ '')'' else '''')
          in ''  '' @ (if ev_fired e then ''^'' else ''.'') @ '' '' @ ev_ruleName e @ '': ''
             @ nullish (ev_observedValue e) ''not computable'' @ '' '' @ cmp @ trend @ impact
             @ [CHR 0x0A] @ ''      '' @ ev_narrative e)"

section \<open>What an explanation guarantees\<close>

lemma explain_Inr_iff: "(\<exists>x. explain o' d t rv mv hv evs = Inr x) \<longleftrightarrow>
    evs \<noteq> [] \<and> (\<forall>e\<in>set evs. ev_fired e \<longrightarrow> ev_evidence e \<noteq> [])"
  by (auto simp: explain_def find_None_iff find_Some_iff split: option.splits)

lemma explain_Inr: "explain o' d t rv mv hv evs = Inr x \<Longrightarrow>
    ex_evaluations x = evs \<and> ex_outcome x = o' \<and> ex_outcomeDetail x = d
    \<and> ex_firedRules x = map ev_ruleId (filter ev_fired evs)
    \<and> ex_evidence x = dedupeEvidence (concat (map ev_evidence evs))"
  by (auto simp: explain_def split: if_splits option.splits)

lemma js_set_subset: "set (js_set k v m) \<subseteq> insert (k, v) (set m)"
  unfolding js_set_def by (induction m) auto

lemma js_set_distinct: "distinct (map fst m) \<Longrightarrow> distinct (map fst (js_set k v m))"
  by (auto simp: js_set_keys)

lemma dedupe_fold:
  "distinct (map fst (foldl (\<lambda>seen r. js_set (evidence_key r) r seen) [] refs))
    \<and> (\<forall>p\<in>set (foldl (\<lambda>seen r. js_set (evidence_key r) r seen) [] refs).
         evidence_key (snd p) = fst p \<and> snd p \<in> set refs)
    \<and> set (map fst (foldl (\<lambda>seen r. js_set (evidence_key r) r seen) [] refs)) = evidence_key ` set refs"
proof (induction refs rule: rev_induct)
  case Nil
  show ?case by simp
next
  case (snoc r refs)
  let ?m = "foldl (\<lambda>seen r. js_set (evidence_key r) r seen) [] refs"
  let ?m' = "js_set (evidence_key r) r ?m"
  have sub: "set ?m' \<subseteq> insert (evidence_key r, r) (set ?m)" by (rule js_set_subset)
  have "distinct (map fst ?m')" using snoc by (intro js_set_distinct) blast
  moreover have "evidence_key (snd p) = fst p \<and> snd p \<in> set (refs @ [r])" if "p \<in> set ?m'" for p
  proof (cases "p = (evidence_key r, r)")
    case True
    then show ?thesis by simp
  next
    case False
    then have "p \<in> set ?m" using that sub by blast
    then show ?thesis using snoc by simp
  qed
  moreover have "set (map fst ?m') = evidence_key ` set (refs @ [r])"
    using snoc unfolding js_set_keys by (auto simp: insert_absorb simp flip: set_map)
  ultimately show ?case by simp
qed

lemma dedupe_sound:
  "set (dedupeEvidence refs) \<subseteq> set refs \<and> distinct (map evidence_key (dedupeEvidence refs))
    \<and> evidence_key ` set (dedupeEvidence refs) = evidence_key ` set refs"
proof -
  let ?m = "foldl (\<lambda>seen r. js_set (evidence_key r) r seen) [] refs"
  have m: "distinct (map fst ?m)" "\<forall>p\<in>set ?m. evidence_key (snd p) = fst p \<and> snd p \<in> set refs"
    "set (map fst ?m) = evidence_key ` set refs"
    using dedupe_fold [of refs] by auto
  have keys: "map evidence_key (dedupeEvidence refs) = map fst ?m"
    unfolding dedupeEvidence_def map_map by (intro map_cong) (simp_all add: m(2))
  have "set (dedupeEvidence refs) \<subseteq> set refs" using m(2) by (auto simp: dedupeEvidence_def)
  then show ?thesis using m(1,3) keys by (metis list.set_map)
qed

text \<open>An explanation exists exactly when something was evaluated and no firing is without
  evidence; the evidence it lists holds one record for every record identity the evaluations cite,
  each of them a cited record, none twice.\<close>

theorem explanation_traceable:
  "(case explain outcome detail evaluatedAt rules metrics model evs of
      Inl _ \<Rightarrow> evs = [] \<or> list_ex (\<lambda>e. ev_evidence e = []) (filter ev_fired evs)
    | Inr x \<Rightarrow> evs \<noteq> [] \<and> list_all (\<lambda>e. ev_evidence e \<noteq> []) (filter ev_fired evs)
        \<and> ex_firedRules x = map ev_ruleId (filter ev_fired evs)
        \<and> set (ex_evidence x) \<subseteq> set (concat (map ev_evidence evs))
        \<and> distinct (map evidence_key (ex_evidence x))
        \<and> evidence_key ` set (ex_evidence x) = evidence_key ` set (concat (map ev_evidence evs)))"
proof (cases "explain outcome detail evaluatedAt rules metrics model evs")
  case (Inl e)
  then show ?thesis
    using explain_Inr_iff [of outcome detail evaluatedAt rules metrics model evs] by (auto simp: list_all_iff list_ex_iff)
next
  case (Inr x)
  then show ?thesis
    using explain_Inr_iff [of outcome detail evaluatedAt rules metrics model evs]
      explain_Inr [OF Inr] dedupe_sound [of "concat (map ev_evidence evs)"]
    by (simp add: list_all_iff)
qed

end
