(* ===== verification/Authz_Policy.thy ===== *)
theory Authz_Policy
  imports Gldi_Prelude
begin

text \<open>
  \<open>src/platform/authz/index.ts\<close> and \<open>src/platform/authz/policy.ts\<close>: the capability and
  classification matrices, the scope of a caller, and the policy decision point. A lookup in a
  JavaScript object also finds what the object inherits; the inherited names are written out, because
  the decision functions then fail with an exception instead of deciding.
\<close>

section \<open>Contracts\<close>

datatype role = EXECUTIVE | PORTFOLIO_DIRECTOR | DELIVERY_MANAGER | FINANCE_CONTROLLER | ASSURANCE_AUDITOR | SECURITY_ADMIN

datatype field_classification =
  PUBLIC_INTERNAL | DELIVERY_SENSITIVE | COMMERCIAL_CONFIDENTIAL | PERSONAL_DATA | SECURITY_TELEMETRY

datatype scope_kind = BUSINESS_UNIT | GEOGRAPHY | PORTFOLIO | ACCOUNT | PROJECT

record scope_node =
  sn_kind :: scope_kind
  sn_id :: string

record auth_context =
  au_actorId :: string
  au_role :: role
  au_sessionId :: string
  au_correlationId :: string
  au_scope :: "scope_node list"
  au_impersonatorId :: "string option"

datatype decision = GRANT | DENY string

record entity_set =
  es_projectIds :: "string list"
  es_resolvedFrom :: "scope_node list"

text \<open>A capability is one of the string literals of the union \<open>Capability\<close>.\<close>

type_synonym capability = string

definition ALL_CAPABILITIES :: "capability list" where
  "ALL_CAPABILITIES =
    [''project.view'', ''project.viewCommercial'', ''portfolio.viewAggregates'', ''resource.viewIndividual'',
     ''health.setReportedRag'', ''health.applyOverride'', ''intervention.manage'', ''rules.editThresholds'',
     ''audit.read'', ''audit.readAccessEventsOnly'', ''identity.manageGrants'', ''assistant.use'',
     ''forecast.updateEtc'', ''contract.reviseBaseline'', ''commercial.setCrAssumption'',
     ''risk.acceptRisk'', ''recovery.setAssumption'', ''data.applyCorrection'']"

definition CAPABILITY_MATRIX :: "(capability \<times> role list) list" where
  "CAPABILITY_MATRIX =
    [(''project.view'', [EXECUTIVE, PORTFOLIO_DIRECTOR, DELIVERY_MANAGER, FINANCE_CONTROLLER, ASSURANCE_AUDITOR]),
     (''project.viewCommercial'', [EXECUTIVE, PORTFOLIO_DIRECTOR, FINANCE_CONTROLLER, ASSURANCE_AUDITOR]),
     (''portfolio.viewAggregates'', [EXECUTIVE, PORTFOLIO_DIRECTOR, FINANCE_CONTROLLER, ASSURANCE_AUDITOR]),
     (''resource.viewIndividual'', []),
     (''health.setReportedRag'', [PORTFOLIO_DIRECTOR, DELIVERY_MANAGER]),
     (''health.applyOverride'', [EXECUTIVE, PORTFOLIO_DIRECTOR]),
     (''intervention.manage'', [EXECUTIVE, PORTFOLIO_DIRECTOR, DELIVERY_MANAGER]),
     (''rules.editThresholds'', [EXECUTIVE]),
     (''audit.read'', [ASSURANCE_AUDITOR]),
     (''audit.readAccessEventsOnly'', [SECURITY_ADMIN]),
     (''identity.manageGrants'', [SECURITY_ADMIN]),
     (''assistant.use'', [EXECUTIVE, PORTFOLIO_DIRECTOR, DELIVERY_MANAGER, FINANCE_CONTROLLER, ASSURANCE_AUDITOR]),
     (''forecast.updateEtc'', [DELIVERY_MANAGER, PORTFOLIO_DIRECTOR, FINANCE_CONTROLLER]),
     (''contract.reviseBaseline'', [PORTFOLIO_DIRECTOR, FINANCE_CONTROLLER]),
     (''commercial.setCrAssumption'', [PORTFOLIO_DIRECTOR, FINANCE_CONTROLLER]),
     (''risk.acceptRisk'', [EXECUTIVE, PORTFOLIO_DIRECTOR]),
     (''recovery.setAssumption'', [EXECUTIVE, PORTFOLIO_DIRECTOR, DELIVERY_MANAGER]),
     (''data.applyCorrection'', [FINANCE_CONTROLLER])]"

fun CLASSIFICATION_MATRIX :: "field_classification \<Rightarrow> role list" where
  "CLASSIFICATION_MATRIX PUBLIC_INTERNAL =
     [EXECUTIVE, PORTFOLIO_DIRECTOR, DELIVERY_MANAGER, FINANCE_CONTROLLER, ASSURANCE_AUDITOR]"
| "CLASSIFICATION_MATRIX DELIVERY_SENSITIVE =
     [EXECUTIVE, PORTFOLIO_DIRECTOR, DELIVERY_MANAGER, FINANCE_CONTROLLER, ASSURANCE_AUDITOR]"
| "CLASSIFICATION_MATRIX COMMERCIAL_CONFIDENTIAL =
     [EXECUTIVE, PORTFOLIO_DIRECTOR, FINANCE_CONTROLLER, ASSURANCE_AUDITOR]"
| "CLASSIFICATION_MATRIX PERSONAL_DATA = []"
| "CLASSIFICATION_MATRIX SECURITY_TELEMETRY = [ASSURANCE_AUDITOR]"

definition AUDITED_READ_CLASSIFICATIONS :: "field_classification list" where
  "AUDITED_READ_CLASSIFICATIONS = [COMMERCIAL_CONFIDENTIAL, PERSONAL_DATA, SECURITY_TELEMETRY]"

definition SECURITY_TELEMETRY_RESOURCES :: "string list" where
  "SECURITY_TELEMETRY_RESOURCES = [''auditEvent'']"

section \<open>The policy decision point\<close>

record entity_placement =
  pl_projectId :: string
  pl_businessUnitId :: string
  pl_geographyId :: string
  pl_portfolioId :: string
  pl_accountId :: string

fun NODE_FIELD :: "scope_kind \<Rightarrow> entity_placement \<Rightarrow> string" where
  "NODE_FIELD BUSINESS_UNIT p = pl_businessUnitId p"
| "NODE_FIELD GEOGRAPHY p = pl_geographyId p"
| "NODE_FIELD PORTFOLIO p = pl_portfolioId p"
| "NODE_FIELD ACCOUNT p = pl_accountId p"
| "NODE_FIELD PROJECT p = pl_projectId p"

definition placementInScope :: "entity_placement \<Rightarrow> scope_node list \<Rightarrow> bool" where
  "placementInScope placement scope = list_ex (\<lambda>node. NODE_FIELD (sn_kind node) placement = sn_id node) scope"

text \<open>The names every object inherits from \<open>Object.prototype\<close>.\<close>

definition INHERITED_NAMES :: "string list" where
  "INHERITED_NAMES =
    [''constructor'', ''hasOwnProperty'', ''isPrototypeOf'', ''propertyIsEnumerable'', ''toLocaleString'',
     ''toString'', ''valueOf'', ''__proto__'', ''__defineGetter__'', ''__defineSetter__'',
     ''__lookupGetter__'', ''__lookupSetter__'']"

text \<open>
  \<open>Inl\<close> is the \<open>TypeError\<close> of calling \<open>includes\<close> on an inherited function, which is not a decision.
\<close>

datatype type_error = TypeError

fun role_text :: "role \<Rightarrow> string" where
  "role_text EXECUTIVE = ''EXECUTIVE''"
| "role_text PORTFOLIO_DIRECTOR = ''PORTFOLIO_DIRECTOR''"
| "role_text DELIVERY_MANAGER = ''DELIVERY_MANAGER''"
| "role_text FINANCE_CONTROLLER = ''FINANCE_CONTROLLER''"
| "role_text ASSURANCE_AUDITOR = ''ASSURANCE_AUDITOR''"
| "role_text SECURITY_ADMIN = ''SECURITY_ADMIN''"

fun classification_text :: "field_classification \<Rightarrow> string" where
  "classification_text PUBLIC_INTERNAL = ''PUBLIC_INTERNAL''"
| "classification_text DELIVERY_SENSITIVE = ''DELIVERY_SENSITIVE''"
| "classification_text COMMERCIAL_CONFIDENTIAL = ''COMMERCIAL_CONFIDENTIAL''"
| "classification_text PERSONAL_DATA = ''PERSONAL_DATA''"
| "classification_text SECURITY_TELEMETRY = ''SECURITY_TELEMETRY''"

definition may :: "auth_context \<Rightarrow> string \<Rightarrow> type_error + decision" where
  "may ctx capability =
     (case map_of CAPABILITY_MATRIX capability of
        None \<Rightarrow>
          if capability \<in> set INHERITED_NAMES then Inl TypeError
          else Inr (DENY (''capability \"'' @ capability @ ''\" is not declared; deny-by-default (REQ-SEC-005)''))
      | Some allowed \<Rightarrow>
          if au_role ctx \<notin> set allowed
          then Inr (DENY (''role '' @ role_text (au_role ctx) @ '' is not granted \"'' @ capability @ ''\" by SECURITY_MODEL.md 4.4''))
          else Inr GRANT)"

definition resolveScope :: "entity_placement list \<Rightarrow> auth_context \<Rightarrow> entity_set" where
  "resolveScope placements ctx =
     \<lparr>es_projectIds = sort_strings (map pl_projectId (filter (\<lambda>p. placementInScope p (au_scope ctx)) placements)),
      es_resolvedFrom = au_scope ctx\<rparr>"

definition mayReadField :: "auth_context \<Rightarrow> field_classification \<Rightarrow> decision" where
  "mayReadField ctx classification =
     (if au_role ctx \<notin> set (CLASSIFICATION_MATRIX classification)
      then DENY (''role '' @ role_text (au_role ctx) @ '' may not read '' @ classification_text classification
                 @ '' (SECURITY_MODEL.md 4.3)'')
      else GRANT)"

definition readIsAudited :: "field_classification list \<Rightarrow> bool" where
  "readIsAudited classifications = list_ex (\<lambda>c. c \<in> set AUDITED_READ_CLASSIFICATIONS) classifications"

section \<open>The decisions\<close>

lemma in_resolved_set:
  "pid \<in> set (es_projectIds (resolveScope placements ctx)) \<longleftrightarrow>
    (\<exists>p node. p \<in> set placements \<and> node \<in> set (au_scope ctx) \<and> pl_projectId p = pid
      \<and> NODE_FIELD (sn_kind node) p = sn_id node)"
  by (auto simp: resolveScope_def placementInScope_def list_ex_iff)

lemma matrix_keys: "map fst CAPABILITY_MATRIX = ALL_CAPABILITIES"
  by (simp add: CAPABILITY_MATRIX_def ALL_CAPABILITIES_def)

lemma declared_not_inherited: "c \<in> set ALL_CAPABILITIES \<Longrightarrow> c \<notin> set INHERITED_NAMES"
proof -
  have "\<forall>c\<in>set ALL_CAPABILITIES. c \<notin> set INHERITED_NAMES"
    by (simp add: ALL_CAPABILITIES_def INHERITED_NAMES_def)
  then show "c \<in> set ALL_CAPABILITIES \<Longrightarrow> c \<notin> set INHERITED_NAMES" by blast
qed

lemma may_GRANT_iff:
  "may ctx c = Inr GRANT \<longleftrightarrow> (\<exists>allowed. map_of CAPABILITY_MATRIX c = Some allowed \<and> au_role ctx \<in> set allowed)"
  by (auto simp: may_def split: option.splits)

lemma matrix_granted: "map_of CAPABILITY_MATRIX c = Some allowed \<Longrightarrow> (c, allowed) \<in> set CAPABILITY_MATRIX"
  by (rule map_of_SomeD)

text \<open>C7: access is denied by default. A capability is granted only by a row of the matrix that
  names the caller's role; everything undeclared is denied, except the names every object inherits,
  on which the lookup does not decide at all but throws, which also gives no access.\<close>

theorem deny_by_default:
  "case may ctx c of
     Inr GRANT \<Rightarrow> c \<in> set ALL_CAPABILITIES \<and> (\<exists>roles. (c, roles) \<in> set CAPABILITY_MATRIX \<and> au_role ctx \<in> set roles)
   | Inr (DENY _) \<Rightarrow> c \<notin> set INHERITED_NAMES
       \<and> (if c \<in> set ALL_CAPABILITIES
            then \<exists>roles. (c, roles) \<in> set CAPABILITY_MATRIX \<and> au_role ctx \<notin> set roles else True)
   | Inl TypeError \<Rightarrow> c \<in> set INHERITED_NAMES \<and> c \<notin> set ALL_CAPABILITIES"
proof (cases "map_of CAPABILITY_MATRIX c")
  case None
  then have "c \<notin> set ALL_CAPABILITIES"
    unfolding matrix_keys [symmetric] by (simp add: map_of_eq_None_iff)
  then show ?thesis using None by (simp add: may_def split: type_error.splits)
next
  case (Some allowed)
  then have mem: "(c, allowed) \<in> set CAPABILITY_MATRIX" by (rule map_of_SomeD)
  then have "c \<in> set ALL_CAPABILITIES" unfolding matrix_keys [symmetric] by force
  with declared_not_inherited Some mem show ?thesis by (auto simp: may_def)
qed

text \<open>Separation of duties in the matrices. No role may both manage grants and read or change
  business data: the security administrator is granted no capability but the identity ones and reads
  no field classification; nobody reads individual resource data or personal data; only the auditor
  reads security telemetry, and the auditor writes nothing.\<close>

theorem separation_of_duties:
  "(may ctx c = Inr GRANT \<and> au_role ctx = SECURITY_ADMIN
      \<longleftrightarrow> au_role ctx = SECURITY_ADMIN \<and> c \<in> {''audit.readAccessEventsOnly'', ''identity.manageGrants''})
   \<and> \<not> (mayReadField ctx k = GRANT \<and> au_role ctx = SECURITY_ADMIN)
   \<and> mayReadField ctx PERSONAL_DATA \<noteq> GRANT \<and> may ctx ''resource.viewIndividual'' \<noteq> Inr GRANT
   \<and> (mayReadField ctx SECURITY_TELEMETRY = GRANT \<longleftrightarrow> au_role ctx = ASSURANCE_AUDITOR)
   \<and> (may ctx c = Inr GRANT \<and> au_role ctx = ASSURANCE_AUDITOR
      \<longleftrightarrow> au_role ctx = ASSURANCE_AUDITOR
        \<and> c \<in> {''project.view'', ''project.viewCommercial'', ''portfolio.viewAggregates'', ''audit.read'', ''assistant.use''})"
proof -
  have admin: "(\<exists>allowed. map_of CAPABILITY_MATRIX c = Some allowed \<and> SECURITY_ADMIN \<in> set allowed)
      \<longleftrightarrow> c \<in> {''audit.readAccessEventsOnly'', ''identity.manageGrants''}"
    by (auto simp: CAPABILITY_MATRIX_def split: if_splits)
  have auditor: "(\<exists>allowed. map_of CAPABILITY_MATRIX c = Some allowed \<and> ASSURANCE_AUDITOR \<in> set allowed)
      \<longleftrightarrow> c \<in> {''project.view'', ''project.viewCommercial'', ''portfolio.viewAggregates'', ''audit.read'', ''assistant.use''}"
    by (auto simp: CAPABILITY_MATRIX_def split: if_splits)
  have nobody: "map_of CAPABILITY_MATRIX ''resource.viewIndividual'' = Some []"
    by (simp add: CAPABILITY_MATRIX_def)
  have fields: "mayReadField ctx k = GRANT \<longleftrightarrow> au_role ctx \<in> set (CLASSIFICATION_MATRIX k)" for k
    by (simp add: mayReadField_def)
  show ?thesis
  proof (intro conjI)
    show "may ctx c = Inr GRANT \<and> au_role ctx = SECURITY_ADMIN
      \<longleftrightarrow> au_role ctx = SECURITY_ADMIN \<and> c \<in> {''audit.readAccessEventsOnly'', ''identity.manageGrants''}"
      unfolding may_GRANT_iff admin [symmetric] by (cases "au_role ctx = SECURITY_ADMIN") simp_all
    show "may ctx c = Inr GRANT \<and> au_role ctx = ASSURANCE_AUDITOR
      \<longleftrightarrow> au_role ctx = ASSURANCE_AUDITOR
        \<and> c \<in> {''project.view'', ''project.viewCommercial'', ''portfolio.viewAggregates'', ''audit.read'', ''assistant.use''}"
      unfolding may_GRANT_iff auditor [symmetric] by (cases "au_role ctx = ASSURANCE_AUDITOR") simp_all
    show "may ctx ''resource.viewIndividual'' \<noteq> Inr GRANT"
      unfolding may_GRANT_iff nobody by simp
    show "\<not> (mayReadField ctx k = GRANT \<and> au_role ctx = SECURITY_ADMIN)" unfolding fields by (cases k) auto
    show "mayReadField ctx PERSONAL_DATA \<noteq> GRANT" "mayReadField ctx SECURITY_TELEMETRY = GRANT \<longleftrightarrow> au_role ctx = ASSURANCE_AUDITOR"
      unfolding fields by simp_all
  qed
qed

end
