(* ===== verification/Audit_Log.thy ===== *)
theory Audit_Log
  imports Explainability Authz_Policy
begin

text \<open>
  The audit log (\<open>platform/audit/append-only.ts\<close>, \<open>platform/audit/index.ts\<close>): the stable
  serialisation behind change fingerprints and record ids, the append-only log with its refusals,
  and the narrowing of what a reader of the log may see.

  JavaScript values that cross a JSON boundary are \<open>json\<close>; a number is a safe integer or, for every
  other number, the text \<open>String(value)\<close> gives. \<open>String.prototype.localeCompare\<close> and the SHA-256
  digest of node:crypto are parameters.
\<close>

section \<open>JavaScript values\<close>

datatype json =
    JNull
  | JUndefined
  | JBool bool
  | JInt int
  | JFloat string
  | JStr string
  | JArr "json list"
  | JObj "(string \<times> json) list"

record js_lib =
  localeCompare :: "string \<Rightarrow> string \<Rightarrow> int"
  sha256_hex :: "string \<Rightarrow> string"

text \<open>\<open>JSON.stringify\<close> of a string and of the other values that are not objects.\<close>

definition hex_digit :: "nat \<Rightarrow> char" where
  "hex_digit n = (if n < 10 then char_of (48 + n) else char_of (87 + n))"

definition escape_char :: "char \<Rightarrow> string" where
  "escape_char c =
     (if c = CHR 0x22 then [CHR 0x5C, CHR 0x22]
      else if c = CHR 0x5C then [CHR 0x5C, CHR 0x5C]
      else if c = CHR 0x08 then [CHR 0x5C, CHR ''b'']
      else if c = CHR 0x09 then [CHR 0x5C, CHR ''t'']
      else if c = CHR 0x0A then [CHR 0x5C, CHR ''n'']
      else if c = CHR 0x0C then [CHR 0x5C, CHR ''f'']
      else if c = CHR 0x0D then [CHR 0x5C, CHR ''r'']
      else if of_char c < (32 :: nat)
      then [CHR 0x5C, CHR ''u'', CHR ''0'', CHR ''0'', hex_digit (of_char c div 16), hex_digit (of_char c mod 16)]
      else [c])"

definition json_quote :: "string \<Rightarrow> string" where
  "json_quote s = CHR 0x22 # concat (map escape_char s) @ [CHR 0x22]"

definition not_finite :: "string list" where
  "not_finite = [''NaN'', ''Infinity'', ''-Infinity'']"

section \<open>The stable serialisation\<close>

lemma size_entry: "(k, v) \<in> set entries \<Longrightarrow> size (v :: json) < Suc (size_list (size_prod (\<lambda>x. 0) size) entries)"
  by (induction entries) auto

function (sequential) stableStringify :: "(string \<Rightarrow> string \<Rightarrow> int) \<Rightarrow> json \<Rightarrow> string" where
  "stableStringify lc (JArr xs) = ''['' @ join_with '','' (map (stableStringify lc) xs) @ '']''"
| "stableStringify lc (JObj entries) =
     ''{'' @ join_with '','' (map (\<lambda>(k, v). json_quote k @ '':'' @ stableStringify lc v)
        (sort_by (cmp_key fst lc) (filter (\<lambda>(_, v). v \<noteq> JUndefined) entries))) @ ''}''"
| "stableStringify lc JUndefined = ''null''"
| "stableStringify lc JNull = ''null''"
| "stableStringify lc (JBool b) = (if b then ''true'' else ''false'')"
| "stableStringify lc (JInt i) = show_int i"
| "stableStringify lc (JFloat t) = (if t \<in> set not_finite then ''null'' else t)"
| "stableStringify lc (JStr s) = json_quote s"
  by pat_completeness auto

termination
  by (relation "measure (\<lambda>(lc, v). size v)")
    (auto simp: less_Suc_eq_le size_list_estimation' intro: size_entry [simplified less_Suc_eq_le])

text \<open>
  Reading a property: an own one, the accessor \<open>__proto__\<close> that every object inherits (an object
  without own properties), or nothing. The inherited functions serialise as nothing does.
\<close>

definition prop_of :: "(string \<times> json) list \<Rightarrow> string \<Rightarrow> json" where
  "prop_of entries k =
     (case map_of entries k of Some v \<Rightarrow> v
      | None \<Rightarrow> if k = ''__proto__'' then JObj [] else JUndefined)"

definition diffKeys :: "(string \<Rightarrow> string \<Rightarrow> int) \<Rightarrow> json \<Rightarrow> json \<Rightarrow> string list" where
  "diffKeys lc before after =
     (case after of
        JObj a \<Rightarrow>
          let b = (case before of JObj b \<Rightarrow> b | _ \<Rightarrow> []);
              keys = remdups (map fst b @ map fst a)
          in sort_strings (filter (\<lambda>k. stableStringify lc (prop_of b k) \<noteq> stableStringify lc (prop_of a k)) keys)
      | _ \<Rightarrow> [])"

record change_fingerprint =
  beforeHash :: "string option"
  afterHash :: string
  changedFields :: "string list"

definition fingerprint :: "js_lib \<Rightarrow> json \<Rightarrow> json \<Rightarrow> change_fingerprint" where
  "fingerprint lib before after =
     (let hash = (\<lambda>v. sha256_hex lib (stableStringify (localeCompare lib) v))
      in \<lparr>beforeHash = (if before = JUndefined \<or> before = JNull then None else Some (hash before)),
          afterHash = hash after,
          changedFields = diffKeys (localeCompare lib) before after\<rparr>)"

section \<open>The log\<close>

datatype audit_action =
    READ | WRITE | LOGIN | LOGOUT | LOGIN_FAILURE | SESSION_EXPIRY
  | IMPERSONATION_START | IMPERSONATION_END | ASSISTANT_QUERY | OVERRIDE_ACTION | RULE_CHANGE

fun action_text :: "audit_action \<Rightarrow> string" where
  "action_text READ = ''READ''"
| "action_text WRITE = ''WRITE''"
| "action_text LOGIN = ''LOGIN''"
| "action_text LOGOUT = ''LOGOUT''"
| "action_text LOGIN_FAILURE = ''LOGIN_FAILURE''"
| "action_text SESSION_EXPIRY = ''SESSION_EXPIRY''"
| "action_text IMPERSONATION_START = ''IMPERSONATION_START''"
| "action_text IMPERSONATION_END = ''IMPERSONATION_END''"
| "action_text ASSISTANT_QUERY = ''ASSISTANT_QUERY''"
| "action_text OVERRIDE_ACTION = ''OVERRIDE''"
| "action_text RULE_CHANGE = ''RULE_CHANGE''"

datatype verdict = GRANTED | DENIED

fun verdict_text :: "verdict \<Rightarrow> string" where
  "verdict_text GRANTED = ''GRANT''"
| "verdict_text DENIED = ''DENY''"

text \<open>\<open>Omit<AuditRecord, 'id'>\<close>, and the record with its id.\<close>

record audit_entry =
  ae_occurredAt :: instant
  ae_actorId :: string
  ae_actorRole :: role
  ae_impersonatorId :: "string option"
  ae_action :: audit_action
  ae_entityType :: string
  ae_entityId :: string
  ae_fields :: "string list"
  ae_decision :: verdict
  ae_reason :: "string option"
  ae_correlationId :: string
  ae_ruleVersion :: "rule_version option"
  ae_sourceIp :: string
  ae_userAgent :: string

record audit_record =
  ar_entry :: audit_entry
  ar_id :: string

definition entry_json :: "audit_entry \<Rightarrow> json" where
  "entry_json e =
     JObj ([(''occurredAt'', JStr (instant_text (ae_occurredAt e))),
            (''actorId'', JStr (ae_actorId e)),
            (''actorRole'', JStr (role_text (ae_actorRole e)))]
       @ (case ae_impersonatorId e of None \<Rightarrow> [] | Some i \<Rightarrow> [(''impersonatorId'', JStr i)])
       @ [(''action'', JStr (action_text (ae_action e))),
          (''entityType'', JStr (ae_entityType e)),
          (''entityId'', JStr (ae_entityId e)),
          (''fields'', JArr (map JStr (ae_fields e))),
          (''decision'', JStr (verdict_text (ae_decision e)))]
       @ (case ae_reason e of None \<Rightarrow> [] | Some r \<Rightarrow> [(''reason'', JStr r)])
       @ [(''correlationId'', JStr (ae_correlationId e))]
       @ (case ae_ruleVersion e of None \<Rightarrow> [] | Some v \<Rightarrow> [(''ruleVersion'', JStr v)])
       @ [(''sourceIp'', JStr (ae_sourceIp e)), (''userAgent'', JStr (ae_userAgent e))])"

record audit_log =
  al_records :: "audit_record list"
  al_sealed :: bool

definition empty_log :: audit_log where
  "empty_log = \<lparr>al_records = [], al_sealed = False\<rparr>"

datatype audit_failure = AuditWriteFailed string

definition record_id :: "js_lib \<Rightarrow> nat \<Rightarrow> audit_entry \<Rightarrow> string" where
  "record_id lib seq e =
     take 32 (sha256_hex lib (show_nat seq @ '':'' @ stableStringify (localeCompare lib) (entry_json e)))"

definition record_entry :: "js_lib \<Rightarrow> audit_entry \<Rightarrow> audit_log \<Rightarrow> audit_failure + audit_log" where
  "record_entry lib e st =
     (if al_sealed st then Inl (AuditWriteFailed ''the log is sealed'')
      else if length (ae_actorId e) = 0 then Inl (AuditWriteFailed ''no actor'')
      else if length (ae_entityType e) = 0 then Inl (AuditWriteFailed ''no entity type'')
      else Inr (st\<lparr>al_records := al_records st @
             [\<lparr>ar_entry = e, ar_id = record_id lib (length (al_records st)) e\<rparr>]\<rparr>))"

record audit_query =
  aq_actorId :: "string option"
  aq_entityType :: "string option"
  aq_entityId :: "string option"
  aq_from :: "instant option"
  aq_to :: "instant option"

definition query_log :: "audit_query \<Rightarrow> audit_log \<Rightarrow> audit_record list" where
  "query_log criteria st =
     filter (\<lambda>r. (case aq_actorId criteria of None \<Rightarrow> True | Some a \<Rightarrow> ae_actorId (ar_entry r) = a)
       \<and> (case aq_entityType criteria of None \<Rightarrow> True | Some t \<Rightarrow> ae_entityType (ar_entry r) = t)
       \<and> (case aq_entityId criteria of None \<Rightarrow> True | Some i \<Rightarrow> ae_entityId (ar_entry r) = i)
       \<and> (case aq_from criteria of None \<Rightarrow> True | Some f \<Rightarrow> inst_le f (ae_occurredAt (ar_entry r)))
       \<and> (case aq_to criteria of None \<Rightarrow> True | Some t \<Rightarrow> inst_le (ae_occurredAt (ar_entry r)) t))
     (al_records st)"

definition all_records :: "audit_log \<Rightarrow> audit_record list" where
  "all_records st = al_records st"

definition log_size :: "audit_log \<Rightarrow> nat" where
  "log_size st = length (al_records st)"

definition seal :: "audit_log \<Rightarrow> audit_log" where
  "seal st = st\<lparr>al_sealed := True\<rparr>"

definition ACCESS_EVENT_ACTIONS :: "audit_action list" where
  "ACCESS_EVENT_ACTIONS =
     [LOGIN, LOGOUT, LOGIN_FAILURE, SESSION_EXPIRY, IMPERSONATION_START, IMPERSONATION_END]"

definition isAccessEvent :: "audit_record \<Rightarrow> bool" where
  "isAccessEvent r \<longleftrightarrow> ae_action (ar_entry r) \<in> set ACCESS_EVENT_ACTIONS"

definition accessEventsOnly :: "audit_record list \<Rightarrow> audit_record list" where
  "accessEventsOnly records = filter isAccessEvent records"

definition withinAuthorisedEntities :: "audit_record list \<Rightarrow> string list \<Rightarrow> string list \<Rightarrow> audit_record list" where
  "withinAuthorisedEntities records knownEntityIds authorisedEntityIds =
     filter (\<lambda>r. ae_entityId (ar_entry r) \<notin> set knownEntityIds
                 \<or> ae_entityId (ar_entry r) \<in> set authorisedEntityIds) records"

section \<open>The serialisation does not depend on the order of keys\<close>

text \<open>Two descriptions of one state: the fields of an object may come in any order and an undefined field
  may be present or not, at any depth. Field names are taken from a set \<open>K\<close>.\<close>

inductive same_state :: "string set \<Rightarrow> json \<Rightarrow> json \<Rightarrow> bool" for K where
  same_refl: "same_state K v v"
| same_sym: "same_state K v w \<Longrightarrow> same_state K w v"
| same_trans: "same_state K u v \<Longrightarrow> same_state K v w \<Longrightarrow> same_state K u w"
| same_order: "distinct (map fst es) \<Longrightarrow> fst ` set es \<subseteq> K \<Longrightarrow> mset es = mset fs \<Longrightarrow> same_state K (JObj es) (JObj fs)"
| same_absent: "distinct (map fst (es @ (k, JUndefined) # fs)) \<Longrightarrow> k \<noteq> ''__proto__'' \<Longrightarrow>
    same_state K (JObj (es @ (k, JUndefined) # fs)) (JObj (es @ fs))"
| same_field: "same_state K v w \<Longrightarrow> same_state K (JObj (es @ (k, v) # fs)) (JObj (es @ (k, w) # fs))"
| same_item: "same_state K v w \<Longrightarrow> same_state K (JArr (xs @ v # ys)) (JArr (xs @ w # ys))"

definition separates :: "(string \<Rightarrow> string \<Rightarrow> int) \<Rightarrow> string set \<Rightarrow> bool" where
  "separates lc K \<longleftrightarrow> comparator lc \<and> (\<forall>a\<in>K. \<forall>b\<in>K. lc a b = 0 \<longrightarrow> a = b)"

lemma sort_by_apsnd:
  "map (\<lambda>(k, v). (k, f v)) (sort_by (cmp_key fst lc) es) = sort_by (cmp_key fst lc) (map (\<lambda>(k, v). (k, f v)) es)"
proof -
  have ins: "map (\<lambda>(k, v). (k, f v)) (insert_by (cmp_key fst lc) e es)
      = insert_by (cmp_key fst lc) (case e of (k, v) \<Rightarrow> (k, f v)) (map (\<lambda>(k, v). (k, f v)) es)" for e es
    by (induction es) (auto simp: cmp_key_def split: prod.splits)
  show ?thesis by (induction es) (auto simp: ins split: prod.splits)
qed

text \<open>The text of an object, with its values serialised before the sort.\<close>

definition rendered :: "(string \<Rightarrow> string \<Rightarrow> int) \<Rightarrow> (string \<times> json) list \<Rightarrow> (string \<times> string) list" where
  "rendered lc es = map (\<lambda>(k, v). (k, stableStringify lc v)) (filter (\<lambda>(_, v). v \<noteq> JUndefined) es)"

lemma stringify_object:
  "stableStringify lc (JObj es) = ''{'' @ join_with '',''
     (map (\<lambda>(k, t). json_quote k @ '':'' @ t) (sort_by (cmp_key fst lc) (rendered lc es))) @ ''}''"
proof -
  have "map (\<lambda>(k, t). json_quote k @ '':'' @ t) (sort_by (cmp_key fst lc) (rendered lc es))
      = map (\<lambda>(k, v). json_quote k @ '':'' @ stableStringify lc v)
          (sort_by (cmp_key fst lc) (filter (\<lambda>(_, v). v \<noteq> JUndefined) es))"
    by (simp add: rendered_def sort_by_apsnd [symmetric] o_def case_prod_beta)
  then show ?thesis by simp
qed

lemma rendered_append [simp]: "rendered lc (es @ fs) = rendered lc es @ rendered lc fs"
  by (simp add: rendered_def)

lemma rendered_Cons [simp]:
  "rendered lc ((k, v) # fs) = (if v = JUndefined then rendered lc fs else (k, stableStringify lc v) # rendered lc fs)"
  by (simp add: rendered_def)

lemma rendered_sorted:
  assumes "separates lc K" "distinct (map fst es)" "fst ` set es \<subseteq> K" "mset es = mset fs"
  shows "sort_by (cmp_key fst lc) (rendered lc es) = sort_by (cmp_key fst lc) (rendered lc fs)"
proof (rule comparator.sort_by_determined)
  show "comparator (cmp_key fst lc)" using assms(1) by (simp add: separates_def comparator_key)
  show "mset (rendered lc es) = mset (rendered lc fs)"
    by (simp only: rendered_def mset_map mset_filter assms(4))
next
  fix x y
  assume x: "x \<in> set (rendered lc es)" and y: "y \<in> set (rendered lc es)" and eq: "cmp_key fst lc x y = 0"
  from x obtain v where v: "(fst x, v) \<in> set es" "snd x = stableStringify lc v" by (auto simp: rendered_def)
  from y obtain w where w: "(fst y, w) \<in> set es" "snd y = stableStringify lc w" by (auto simp: rendered_def)
  have "fst x \<in> K" "fst y \<in> K" using assms(3) v(1) w(1) by (auto simp: image_subset_iff)
  then have "fst x = fst y" using assms(1) eq by (simp add: separates_def cmp_key_def)
  then have "v = w" using assms(2) v(1) w(1) by (metis eq_key_imp_eq_value)
  with v w \<open>fst x = fst y\<close> show "x = y" by (simp add: prod_eq_iff)
qed

lemma same_state_text:
  "same_state K v w \<Longrightarrow> separates lc K \<Longrightarrow>
    stableStringify lc v = stableStringify lc w \<and> (v = JUndefined \<longleftrightarrow> w = JUndefined) \<and> (v = JNull \<longleftrightarrow> w = JNull)"
proof (induction rule: same_state.induct)
  case (same_order es fs)
  then show ?case by (simp add: stringify_object rendered_sorted del: stableStringify.simps)
next
  case (same_absent es k fs)
  then show ?case by (simp add: stringify_object del: stableStringify.simps)
next
  case (same_field v w es k fs)
  then show ?case by (simp add: stringify_object del: stableStringify.simps)
qed auto

text \<open>What a fingerprint reads of an object: its fields, one by one.\<close>

definition fields_alike :: "(string \<Rightarrow> string \<Rightarrow> int) \<Rightarrow> json \<Rightarrow> json \<Rightarrow> bool" where
  "fields_alike lc v w =
     (case v of
        JObj es \<Rightarrow> (case w of JObj fs \<Rightarrow> \<forall>k. stableStringify lc (prop_of es k) = stableStringify lc (prop_of fs k) | _ \<Rightarrow> False)
      | _ \<Rightarrow> (case w of JObj _ \<Rightarrow> False | _ \<Rightarrow> True))"

lemma fields_alike_sym: "fields_alike lc v w \<Longrightarrow> fields_alike lc w v"
  by (cases v; cases w) (simp_all add: fields_alike_def)

lemma fields_alike_trans: "fields_alike lc u v \<Longrightarrow> fields_alike lc v w \<Longrightarrow> fields_alike lc u w"
  by (cases u; cases v; cases w) (simp_all add: fields_alike_def)

lemma map_of_mset: "distinct (map fst es) \<Longrightarrow> mset es = mset fs \<Longrightarrow> map_of es = map_of fs"
  by (metis map_of_inject_set mset_map mset_eq_imp_distinct_iff mset_eq_setD)

lemma prop_of_Cons [simp]: "prop_of ((k, v) # es) j = (if j = k then v else prop_of es j)"
  by (simp add: prop_of_def)

lemma prop_of_missing: "k \<notin> fst ` set es \<Longrightarrow> prop_of es k = (if k = ''__proto__'' then JObj [] else JUndefined)"
  by (simp add: prop_of_def map_of_eq_None_iff [THEN iffD2])

lemma prop_absent:
  "distinct (map fst (es @ (k, JUndefined) # fs)) \<Longrightarrow> k \<noteq> ''__proto__'' \<Longrightarrow>
    prop_of (es @ (k, JUndefined) # fs) j = prop_of (es @ fs) j"
proof (induction es)
  case Nil
  then have "map_of fs k = None" by (simp add: map_of_eq_None_iff)
  with Nil show ?case by (simp add: prop_of_def)
next
  case (Cons e es)
  then show ?case by (cases e) simp
qed

lemma prop_replaced:
  "stableStringify lc v = stableStringify lc w \<Longrightarrow>
    stableStringify lc (prop_of (es @ (k, v) # fs) j) = stableStringify lc (prop_of (es @ (k, w) # fs) j)"
proof (induction es)
  case (Cons e es)
  then show ?case by (cases e) (simp del: stableStringify.simps)
qed (simp del: stableStringify.simps)

lemma same_state_fields: "same_state K v w \<Longrightarrow> separates lc K \<Longrightarrow> fields_alike lc v w"
proof (induction rule: same_state.induct)
  case (same_refl v)
  show ?case by (cases v) (simp_all add: fields_alike_def)
next
  case (same_order es fs)
  then show ?case by (simp add: fields_alike_def prop_of_def map_of_mset [OF same_order.hyps(1,3)])
next
  case (same_absent es k fs)
  then show ?case by (simp add: fields_alike_def prop_absent del: stableStringify.simps)
next
  case (same_field v w es k fs)
  then have "stableStringify lc v = stableStringify lc w" using same_state_text by blast
  from prop_replaced [OF this] show ?case by (simp only: fields_alike_def json.case simp_thms)
next
  case (same_item v w xs ys)
  show ?case by (simp add: fields_alike_def)
qed (blast intro: fields_alike_sym fields_alike_trans)+

lemma changed_field_iff:
  "k \<in> set (diffKeys lc before (JObj a)) \<longleftrightarrow>
    stableStringify lc (prop_of (case before of JObj b \<Rightarrow> b | _ \<Rightarrow> []) k) \<noteq> stableStringify lc (prop_of a k)"
proof -
  have "k \<in> fst ` set b \<or> k \<in> fst ` set a" if "prop_of b k \<noteq> prop_of a k" for b
    using that prop_of_missing [of k b] prop_of_missing [of k a] by (cases "k \<in> fst ` set b") auto
  then have "k \<in> set (remdups (map fst b @ map fst a))"
    if "stableStringify lc (prop_of b k) \<noteq> stableStringify lc (prop_of a k)" for b
    using that by (metis image_set set_remdups set_append Un_iff)
  then show ?thesis
    unfolding diffKeys_def json.case(8) Let_def set_sort_strings set_filter by blast
qed

lemma diffKeys_congruent:
  assumes "fields_alike lc before before'" "fields_alike lc after after'"
  shows "diffKeys lc before after = diffKeys lc before' after'"
proof (cases after)
  case (JObj a)
  with assms(2) obtain a' where a': "after' = JObj a'"
    and a: "\<And>k. stableStringify lc (prop_of a k) = stableStringify lc (prop_of a' k)"
    by (cases after') (simp_all add: fields_alike_def)
  let ?b = "\<lambda>v. case v of JObj b \<Rightarrow> b | _ \<Rightarrow> []"
  have b: "stableStringify lc (prop_of (?b before) k) = stableStringify lc (prop_of (?b before') k)" for k
    using assms(1) by (cases before; cases before') (simp_all add: fields_alike_def)
  have "set (diffKeys lc before (JObj a)) = set (diffKeys lc before' (JObj a'))"
    by (intro set_eqI) (simp only: changed_field_iff a b)
  then show ?thesis
    unfolding JObj a' diffKeys_def Let_def by simp (intro sort_strings_determined; simp)
next
qed (use assms(2) in \<open>cases after'; simp add: fields_alike_def diffKeys_def\<close>)+

text \<open>C10: a fingerprint depends on the state and not on how it was written down. Two descriptions of
  the before-state and of the after-state that differ in the order of fields or in fields that are
  present but undefined, at any depth, give the same hashes and the same changed fields, as long as
  the collation tells the field names apart.\<close>

theorem fingerprint_canonical:
  assumes "separates (localeCompare lib) K" "same_state K before before'" "same_state K after after'"
  shows "fingerprint lib before after = fingerprint lib before' after'"
proof -
  have "stableStringify (localeCompare lib) before = stableStringify (localeCompare lib) before'"
    "before = JUndefined \<longleftrightarrow> before' = JUndefined" "before = JNull \<longleftrightarrow> before' = JNull"
    "stableStringify (localeCompare lib) after = stableStringify (localeCompare lib) after'"
    using same_state_text [OF assms(2,1)] same_state_text [OF assms(3,1)] by blast+
  moreover have "diffKeys (localeCompare lib) before after = diffKeys (localeCompare lib) before' after'"
    using assms same_state_fields by (intro diffKeys_congruent) blast+
  ultimately show ?thesis by (simp add: fingerprint_def Let_def)
qed

text \<open>A runtime to run the theorems on: strings compared by code unit, and a digest that is the text.\<close>

definition sample_lib :: js_lib where
  "sample_lib = \<lparr>localeCompare = cmp_ord, sha256_hex = (\<lambda>s. s)\<rparr>"

lemma sample_separates: "separates (localeCompare sample_lib) UNIV"
  using natural.comparator_axioms natural.eq by (auto simp: separates_def sample_lib_def)

theorem fingerprint_canonical_witness:
  "fingerprint sample_lib JNull (JObj [(''rag'', JStr ''RED''), (''note'', JUndefined), (''due'', JBool True)])
    = fingerprint sample_lib JNull (JObj [(''due'', JBool True), (''rag'', JStr ''RED'')])
   \<and> changedFields (fingerprint sample_lib JNull (JObj [(''due'', JBool True), (''rag'', JStr ''RED'')])) = [''due'', ''rag'']"
proof
  have "same_state UNIV (JObj ([(''rag'', JStr ''RED'')] @ (''note'', JUndefined) # [(''due'', JBool True)]))
      (JObj ([(''rag'', JStr ''RED'')] @ [(''due'', JBool True)]))"
    by (rule same_absent) simp_all
  moreover have "same_state UNIV (JObj ([(''rag'', JStr ''RED'')] @ [(''due'', JBool True)]))
      (JObj [(''due'', JBool True), (''rag'', JStr ''RED'')])"
    by (rule same_order) simp_all
  ultimately have "same_state UNIV (JObj [(''rag'', JStr ''RED''), (''note'', JUndefined), (''due'', JBool True)])
      (JObj [(''due'', JBool True), (''rag'', JStr ''RED'')])"
    using same_trans by fastforce
  from fingerprint_canonical [OF sample_separates same_refl this]
  show "fingerprint sample_lib JNull (JObj [(''rag'', JStr ''RED''), (''note'', JUndefined), (''due'', JBool True)])
    = fingerprint sample_lib JNull (JObj [(''due'', JBool True), (''rag'', JStr ''RED'')])" .
  show "changedFields (fingerprint sample_lib JNull (JObj [(''due'', JBool True), (''rag'', JStr ''RED'')])) = [''due'', ''rag'']"
    by (simp add: fingerprint_def diffKeys_def prop_of_def sort_strings_def cmp_ord_def json_quote_def show_int_def)
qed

section \<open>The life of a log\<close>

text \<open>Everything the class offers: a write that is accepted, one that is refused, sealing; reading
  (\<open>query_log\<close>, \<open>all_records\<close>, \<open>log_size\<close>) returns values and changes nothing.\<close>

inductive audit_step :: "js_lib \<Rightarrow> audit_log \<Rightarrow> audit_log \<Rightarrow> bool" for lib where
  accept: "record_entry lib e st = Inr st' \<Longrightarrow> audit_step lib st st'"
| refuse: "record_entry lib e st = Inl failure \<Longrightarrow> audit_step lib st st"
| close_log: "audit_step lib st (seal st)"

inductive_cases audit_stepE: "audit_step lib st st'"

lemma record_entry_Inr:
  "record_entry lib e st = Inr st' \<longleftrightarrow> \<not> al_sealed st \<and> ae_actorId e \<noteq> [] \<and> ae_entityType e \<noteq> []
    \<and> st' = st\<lparr>al_records := al_records st @ [\<lparr>ar_entry = e, ar_id = record_id lib (length (al_records st)) e\<rparr>]\<rparr>"
  by (auto simp: record_entry_def)

interpretation audit: append_only al_records "audit_step lib" for lib
  by unfold_locales (auto elim!: audit_stepE simp: record_entry_Inr seal_def)

lemma sealed_stays: "(audit_step lib)\<^sup>*\<^sup>* st st' \<Longrightarrow> al_sealed st \<Longrightarrow> st' = st"
proof (induction rule: rtranclp_induct)
  case (step t u)
  then show ?case by (auto elim!: audit_stepE simp: record_entry_Inr seal_def)
qed simp

definition well_recorded :: "js_lib \<Rightarrow> audit_log \<Rightarrow> bool" where
  "well_recorded lib st \<longleftrightarrow>
     (\<forall>i < length (al_records st). let r = al_records st ! i in
        ae_actorId (ar_entry r) \<noteq> [] \<and> ae_entityType (ar_entry r) \<noteq> [] \<and> ar_id r = record_id lib i (ar_entry r))"

lemma well_recorded_step: "audit_step lib st st' \<Longrightarrow> well_recorded lib st \<Longrightarrow> well_recorded lib st'"
  by (auto elim!: audit_stepE simp: record_entry_Inr seal_def well_recorded_def Let_def nth_append less_Suc_eq)

lemma reachable_well_recorded: "(audit_step lib)\<^sup>*\<^sup>* empty_log st \<Longrightarrow> well_recorded lib st"
proof (induction rule: rtranclp_induct)
  case base
  show ?case by (simp add: well_recorded_def empty_log_def)
next
  case (step st st')
  then show ?case using well_recorded_step by blast
qed

text \<open>The text a record's id is the digest of starts with the record's position.\<close>

definition id_text :: "js_lib \<Rightarrow> nat \<Rightarrow> audit_entry \<Rightarrow> string" where
  "id_text lib i e = show_nat i @ '':'' @ stableStringify (localeCompare lib) (entry_json e)"

lemma id_text_position:
  assumes "id_text lib i e = id_text lib j f"
  shows "i = j"
proof -
  have colon: "CHR '':'' \<notin> set (show_nat n)" for n
    using show_nat_digits [of n] by (auto simp: list_all_iff is_digit_def)
  have "takeWhile (\<lambda>c. c \<noteq> CHR '':'') (show_nat n @ CHR '':'' # s) = show_nat n" for n s
    using colon [of n] by (subst takeWhile_append2) (auto intro: ccontr)
  then have "show_nat i = show_nat j" using assms by (simp add: id_text_def) metis
  then show ?thesis by (simp add: show_nat_inj)
qed

text \<open>C9: what was written is never changed or dropped: every later state of the log has the earlier
  records where they were; a sealed log takes nothing more.\<close>

theorem audit_log_append_only:
  assumes "(audit_step lib)\<^sup>*\<^sup>* st st'"
  shows "prefix (al_records st) (al_records st')
    \<and> (if al_sealed st then all_records st' = all_records st \<and> (\<exists>why. record_entry lib e st' = Inl (AuditWriteFailed why))
       else log_size st \<le> log_size st')"
proof -
  have p: "prefix (al_records st) (al_records st')" by (rule audit.run_grows [OF assms])
  then show ?thesis
    using sealed_stays [OF assms] prefix_length_le [OF p]
    by (auto simp: all_records_def log_size_def record_entry_def)
qed

definition sample_entry :: audit_entry where
  "sample_entry = \<lparr>ae_occurredAt = Instant 0 [], ae_actorId = ''act-1'', ae_actorRole = EXECUTIVE, ae_impersonatorId = None,
     ae_action = READ, ae_entityType = ''project'', ae_entityId = ''prj-001'', ae_fields = [], ae_decision = GRANTED,
     ae_reason = None, ae_correlationId = ''c-1'', ae_ruleVersion = None, ae_sourceIp = [], ae_userAgent = []\<rparr>"

definition sample_log :: "js_lib \<Rightarrow> audit_log" where
  "sample_log lib = \<lparr>al_records = [\<lparr>ar_entry = sample_entry, ar_id = record_id lib 0 sample_entry\<rparr>], al_sealed = False\<rparr>"

lemma sample_write: "record_entry lib sample_entry empty_log = Inr (sample_log lib)"
  by (simp add: record_entry_def sample_entry_def empty_log_def sample_log_def)

lemma sample_run: "(audit_step lib)\<^sup>*\<^sup>* empty_log (sample_log lib)"
  by (rule r_into_rtranclp) (rule accept [OF sample_write])

theorem audit_log_append_only_witness:
  "prefix (al_records (sample_log sample_lib)) (al_records (seal (sample_log sample_lib)))
   \<and> all_records (seal (sample_log sample_lib)) = all_records (sample_log sample_lib)"
proof
  have s: "(audit_step sample_lib)\<^sup>*\<^sup>* (sample_log sample_lib) (seal (sample_log sample_lib))"
    by (rule r_into_rtranclp) (rule close_log)
  from audit_log_append_only [OF s]
  show "prefix (al_records (sample_log sample_lib)) (al_records (seal (sample_log sample_lib)))" by simp
qed (simp add: all_records_def seal_def)

text \<open>In every log that grew from the empty one, each record names an actor and an entity type and
  carries the id its position and content determine; as long as the digest does not collide on the
  texts that were hashed, no two records share an id.\<close>

theorem audit_ids_determined:
  assumes "(audit_step lib)\<^sup>*\<^sup>* empty_log st"
    and "inj_on (\<lambda>s. take 32 (sha256_hex lib s)) {id_text lib i (ar_entry (al_records st ! i)) |i. i < log_size st}"
  shows "(\<forall>i < log_size st. let r = all_records st ! i in
            ae_actorId (ar_entry r) \<noteq> [] \<and> ae_entityType (ar_entry r) \<noteq> [] \<and> ar_id r = record_id lib i (ar_entry r))
    \<and> distinct (map ar_id (all_records st))"
proof
  from reachable_well_recorded [OF assms(1)]
  show wr: "\<forall>i < log_size st. let r = all_records st ! i in
            ae_actorId (ar_entry r) \<noteq> [] \<and> ae_entityType (ar_entry r) \<noteq> [] \<and> ar_id r = record_id lib i (ar_entry r)"
    by (simp add: well_recorded_def log_size_def all_records_def)
  have "i = j" if "i < log_size st" "j < log_size st" "ar_id (all_records st ! i) = ar_id (all_records st ! j)" for i j
  proof -
    have "record_id lib i (ar_entry (al_records st ! i)) = record_id lib j (ar_entry (al_records st ! j))"
      using wr that by (simp add: Let_def all_records_def)
    then have "take 32 (sha256_hex lib (id_text lib i (ar_entry (al_records st ! i))))
        = take 32 (sha256_hex lib (id_text lib j (ar_entry (al_records st ! j))))"
      by (simp only: record_id_def id_text_def)
    then have "id_text lib i (ar_entry (al_records st ! i)) = id_text lib j (ar_entry (al_records st ! j))"
      using that(1,2) by - (rule inj_onD [OF assms(2)], assumption, blast, blast)
    then show ?thesis by (rule id_text_position)
  qed
  then show "distinct (map ar_id (all_records st))"
    by (auto simp: distinct_conv_nth all_records_def log_size_def)
qed

theorem audit_ids_determined_witness:
  "ar_id (all_records (sample_log sample_lib) ! 0) = record_id sample_lib 0 sample_entry
   \<and> distinct (map ar_id (all_records (sample_log sample_lib)))"
proof -
  have one: "log_size (sample_log sample_lib) = 1" by (simp add: log_size_def sample_log_def)
  have "inj_on (\<lambda>s. take 32 (sha256_hex sample_lib s))
      {id_text sample_lib i (ar_entry (al_records (sample_log sample_lib) ! i)) |i. i < log_size (sample_log sample_lib)}"
    unfolding one by (auto simp only: inj_on_def less_one)
  note ids = audit_ids_determined [OF sample_run this]
  have entry: "ar_entry (all_records (sample_log sample_lib) ! 0) = sample_entry"
    by (simp add: all_records_def sample_log_def)
  from conjunct1 [OF ids, unfolded Let_def, rule_format, of 0] conjunct2 [OF ids] one
  show ?thesis by (simp only: entry zero_less_one simp_thms)
qed

end
