(* ===== verification/Field_Policy.thy ===== *)
theory Field_Policy
  imports Audit_Log
begin

text \<open>
  Response shaping (\<open>src/app/authorization/field-policy.ts\<close>): a row leaves the system with the fields its
  reader may see and no others; a field nobody classified stops the response.
\<close>

datatype disposition = OMIT | REDACT

record field_policy =
  fp_field :: string
  fp_classification :: field_classification
  fp_disposition :: disposition

definition REDACTION_PLACEHOLDER :: json where "REDACTION_PLACEHOLDER = JStr ''[restricted]''"

type_synonym classification_map = "(string, field_policy) js_map"

text \<open>\<open>InheritedName\<close> is the \<open>TypeError\<close> of a field named like a property every object inherits: the map
  then yields that property, which has no classification to look up.\<close>

datatype shape_error =
    UnclassifiedField string string
  | MisplacedSecurityTelemetry string string
  | InheritedName string

record shape_result =
  sh_payload :: "(string \<times> json) list"
  sh_withheld :: "string list"
  sh_sensitiveFieldsRead :: "string list"
  sh_securityTelemetryRead :: "string list"

text \<open>\<open>payload[field] = raw\<close>; the name \<open>__proto__\<close> sets the prototype and no field.\<close>

definition set_field :: "string \<Rightarrow> json \<Rightarrow> (string \<times> json) list \<Rightarrow> (string \<times> json) list" where
  "set_field field raw payload = (if field = ''__proto__'' then payload else js_set field raw payload)"

definition policy_of :: "string \<Rightarrow> classification_map \<Rightarrow> string \<Rightarrow> shape_error + field_policy" where
  "policy_of resource classifications field =
     (case js_get classifications field of
        None \<Rightarrow> if field \<in> set INHERITED_NAMES then Inl (InheritedName field) else Inl (UnclassifiedField resource field)
      | Some policy \<Rightarrow>
          if fp_classification policy = SECURITY_TELEMETRY \<and> resource \<notin> set SECURITY_TELEMETRY_RESOURCES
          then Inl (MisplacedSecurityTelemetry resource field) else Inr policy)"

definition shape_field :: "auth_context \<Rightarrow> string \<Rightarrow> json \<Rightarrow> field_policy \<Rightarrow> shape_result \<Rightarrow> shape_result" where
  "shape_field ctx field raw policy acc =
     (let c = fp_classification policy
      in if au_role ctx \<in> set (CLASSIFICATION_MATRIX c)
         then acc\<lparr>sh_payload := set_field field raw (sh_payload acc),
                  sh_sensitiveFieldsRead := sh_sensitiveFieldsRead acc @ (if c \<in> set AUDITED_READ_CLASSIFICATIONS then [field] else []),
                  sh_securityTelemetryRead := sh_securityTelemetryRead acc @ (if c = SECURITY_TELEMETRY then [field] else [])\<rparr>
         else acc\<lparr>sh_withheld := sh_withheld acc @ [field],
                  sh_payload := (if fp_disposition policy = REDACT then set_field field REDACTION_PLACEHOLDER (sh_payload acc)
                                 else sh_payload acc)\<rparr>)"

text \<open>The loop over \<open>Object.entries(value)\<close>; the first error ends it.\<close>

fun shape_fields :: "string \<Rightarrow> classification_map \<Rightarrow> auth_context \<Rightarrow> (string \<times> json) list \<Rightarrow> shape_result \<Rightarrow> shape_error + shape_result" where
  "shape_fields resource classifications ctx [] acc = Inr acc"
| "shape_fields resource classifications ctx ((field, raw) # rest) acc =
     and_then (policy_of resource classifications field)
       (\<lambda>policy. shape_fields resource classifications ctx rest (shape_field ctx field raw policy acc))"

definition shape :: "string \<Rightarrow> (string \<times> json) list \<Rightarrow> classification_map \<Rightarrow> auth_context \<Rightarrow> shape_error + shape_result" where
  "shape resource row classifications ctx =
     and_then (shape_fields resource classifications ctx row
         \<lparr>sh_payload = [], sh_withheld = [], sh_sensitiveFieldsRead = [], sh_securityTelemetryRead = []\<rparr>)
       (\<lambda>r. Inr (r\<lparr>sh_withheld := sort_strings (sh_withheld r),
                   sh_sensitiveFieldsRead := sort_strings (sh_sensitiveFieldsRead r),
                   sh_securityTelemetryRead := sort_strings (sh_securityTelemetryRead r)\<rparr>))"

definition classify :: "(string \<times> field_classification) list \<Rightarrow> classification_map" where
  "classify entries =
     foldl (\<lambda>out (field, c). js_set field \<lparr>fp_field = field, fp_classification = c, fp_disposition = OMIT\<rparr> out) [] entries"

section \<open>What leaves the system\<close>

definition readable :: "classification_map \<Rightarrow> auth_context \<Rightarrow> string \<Rightarrow> bool" where
  "readable cm ctx f = (case js_get cm f of None \<Rightarrow> False
     | Some p \<Rightarrow> au_role ctx \<in> set (CLASSIFICATION_MATRIX (fp_classification p)))"

definition classified_as :: "classification_map \<Rightarrow> (field_classification \<Rightarrow> bool) \<Rightarrow> string \<Rightarrow> bool" where
  "classified_as cm P f = (case js_get cm f of None \<Rightarrow> False | Some p \<Rightarrow> P (fp_classification p))"

definition returnable :: "string \<Rightarrow> classification_map \<Rightarrow> string \<Rightarrow> bool" where
  "returnable resource cm f =
     (case js_get cm f of None \<Rightarrow> False
      | Some p \<Rightarrow> (if fp_classification p = SECURITY_TELEMETRY then resource \<in> set SECURITY_TELEMETRY_RESOURCES else True))"

lemma policy_of_Inr: "policy_of resource cm f = Inr p \<longleftrightarrow> js_get cm f = Some p \<and> returnable resource cm f"
  by (auto simp: policy_of_def returnable_def split: option.splits)

lemma policy_of_fails: "(\<exists>e. policy_of resource cm f = Inl e) \<longleftrightarrow> \<not> returnable resource cm f"
  by (auto simp: policy_of_def returnable_def split: option.splits)

lemma js_set_new: "k \<notin> fst ` set m \<Longrightarrow> js_set k v m = m @ [(k, v)]"
  unfolding js_set_def by (induction m) auto

lemma omit_classify: "js_get (classify entries) f = Some p \<Longrightarrow> fp_disposition p = OMIT"
proof (induction entries rule: rev_induct)
  case (snoc e es)
  then show ?case by (cases e) (auto simp: classify_def jsm.lookup_store split: if_splits)
qed (simp add: classify_def js_get_def)

lemma shape_field_parts:
  assumes "js_get cm f = Some p" "fp_disposition p = OMIT"
  shows "sh_payload (shape_field ctx f raw p acc) = (if readable cm ctx f then set_field f raw (sh_payload acc) else sh_payload acc)"
    and "sh_withheld (shape_field ctx f raw p acc) = sh_withheld acc @ (if readable cm ctx f then [] else [f])"
    and "sh_sensitiveFieldsRead (shape_field ctx f raw p acc) = sh_sensitiveFieldsRead acc
      @ (if readable cm ctx f \<and> classified_as cm (\<lambda>c. c \<in> set AUDITED_READ_CLASSIFICATIONS) f then [f] else [])"
    and "sh_securityTelemetryRead (shape_field ctx f raw p acc) = sh_securityTelemetryRead acc
      @ (if readable cm ctx f \<and> classified_as cm ((=) SECURITY_TELEMETRY) f then [f] else [])"
  using assms by (auto simp: shape_field_def Let_def readable_def classified_as_def)

lemma shape_fields_spec:
  assumes "\<forall>f p. js_get cm f = Some p \<longrightarrow> fp_disposition p = OMIT"
  shows "distinct (map fst row) \<Longrightarrow> fst ` set (sh_payload acc) \<inter> fst ` set row = {} \<Longrightarrow>
    shape_fields resource cm ctx row acc = Inr r \<longleftrightarrow>
      list_all (returnable resource cm) (map fst row)
      \<and> r = \<lparr>sh_payload = sh_payload acc @ filter (\<lambda>(f, _). readable cm ctx f \<and> f \<noteq> ''__proto__'') row,
           sh_withheld = sh_withheld acc @ filter (\<lambda>f. \<not> readable cm ctx f) (map fst row),
           sh_sensitiveFieldsRead = sh_sensitiveFieldsRead acc @ filter (\<lambda>f. readable cm ctx f
             \<and> classified_as cm (\<lambda>c. c \<in> set AUDITED_READ_CLASSIFICATIONS) f) (map fst row),
           sh_securityTelemetryRead = sh_securityTelemetryRead acc @ filter (\<lambda>f. readable cm ctx f
             \<and> classified_as cm ((=) SECURITY_TELEMETRY) f) (map fst row)\<rparr>"
proof (induction row arbitrary: acc)
  case Nil
  show ?case by (cases acc) auto
next
  case (Cons e row)
  obtain f raw where e: "e = (f, raw)" by (cases e)
  have fresh: "f \<notin> fst ` set row" "f \<notin> fst ` set (sh_payload acc)" "fst ` set (sh_payload acc) \<inter> fst ` set row = {}"
    using Cons.prems by (auto simp: e)
  show ?case
  proof (cases "policy_of resource cm f")
    case (Inl err)
    then have "\<not> returnable resource cm f" using policy_of_fails by blast
    with Inl show ?thesis by (simp add: e)
  next
    case (Inr p)
    then have p: "js_get cm f = Some p" "returnable resource cm f" by (simp_all add: policy_of_Inr)
    note parts = shape_field_parts [OF p(1) assms [rule_format, OF p(1)], where ctx = ctx and raw = raw and acc = acc]
    have pay: "sh_payload (shape_field ctx f raw p acc) =
        sh_payload acc @ filter (\<lambda>(f, _). readable cm ctx f \<and> f \<noteq> ''__proto__'') [(f, raw)]"
      using fresh(2) by (simp add: parts(1) set_field_def js_set_new)
    have "fst ` set (sh_payload (shape_field ctx f raw p acc)) \<inter> fst ` set row = {}"
      unfolding parts(1) set_field_def using fresh by (simp add: js_set_new image_Un Int_Un_distrib2)
    note ih = Cons.IH [OF _ this]
    have "distinct (map fst row)" using Cons.prems(1) by (simp add: e)
    from ih [OF this] show ?thesis
      unfolding pay parts(2-4) by (simp add: e Inr p(2))
  qed
qed

lemma shape_payload:
  assumes "shape resource row (classify entries) ctx = Inr r" "distinct (map fst row)"
  shows "sh_payload r = filter (\<lambda>(f, _). readable (classify entries) ctx f \<and> f \<noteq> ''__proto__'') row
    \<and> list_all (returnable resource (classify entries)) (map fst row)"
proof -
  let ?acc = "\<lparr>sh_payload = [], sh_withheld = [], sh_sensitiveFieldsRead = [], sh_securityTelemetryRead = []\<rparr>"
  obtain s where s: "shape_fields resource (classify entries) ctx row ?acc = Inr s" "sh_payload r = sh_payload s"
    using assms(1) by (auto simp: shape_def and_then_def split: sum.splits)
  have omit: "\<forall>f p. js_get (classify entries) f = Some p \<longrightarrow> fp_disposition p = OMIT"
    using omit_classify by blast
  from shape_fields_spec [OF omit assms(2), where acc = ?acc] s show ?thesis by simp
qed

text \<open>A row leaves with exactly the fields its reader may read, unchanged and in place, and nothing
  else: no field that is withheld appears, not even as a null; what was withheld, what was read under
  an audited classification and what was security telemetry are named in full for the audit record.
  One field without a classification, or telemetry on a business resource, stops the whole row.\<close>

theorem shape_releases_exactly_readable:
  assumes "distinct (map fst row)" "cm = classify entries"
  shows "case shape resource row cm ctx of
      Inl _ \<Rightarrow> list_ex (\<lambda>f. \<not> returnable resource cm f) (map fst row)
    | Inr r \<Rightarrow> list_all (returnable resource cm) (map fst row)
        \<and> sh_payload r = filter (\<lambda>(f, _). readable cm ctx f \<and> f \<noteq> ''__proto__'') row
        \<and> sh_withheld r = sort_strings (filter (\<lambda>f. \<not> readable cm ctx f) (map fst row))
        \<and> sh_sensitiveFieldsRead r = sort_strings (filter (\<lambda>f. readable cm ctx f
            \<and> classified_as cm (\<lambda>c. c \<in> set AUDITED_READ_CLASSIFICATIONS) f) (map fst row))
        \<and> sh_securityTelemetryRead r = sort_strings (filter (\<lambda>f. readable cm ctx f
            \<and> classified_as cm ((=) SECURITY_TELEMETRY) f) (map fst row))"
proof -
  let ?acc = "\<lparr>sh_payload = [], sh_withheld = [], sh_sensitiveFieldsRead = [], sh_securityTelemetryRead = []\<rparr>"
  have omit: "\<forall>f p. js_get cm f = Some p \<longrightarrow> fp_disposition p = OMIT"
    using omit_classify unfolding assms(2) by blast
  note spec = shape_fields_spec [where acc = ?acc, OF omit assms(1), simplified]
  show ?thesis
  proof (cases "shape_fields resource cm ctx row ?acc")
    case (Inl e)
    then have "\<not> list_all (returnable resource cm) (map fst row)"
      using spec [of resource ctx, THEN iffD2, OF conjI, OF _ HOL.refl] by auto
    then show ?thesis using Inl by (auto simp: shape_def list_all_iff list_ex_iff)
  next
    case (Inr r)
    note r = conjunct1 [OF spec [THEN iffD1, OF Inr]] conjunct2 [OF spec [THEN iffD1, OF Inr]]
    show ?thesis using r(1) by (simp add: shape_def Inr) (simp add: r(2))
  qed
qed

definition sample_map :: classification_map where
  "sample_map = classify [(''name'', PUBLIC_INTERNAL), (''margin'', COMMERCIAL_CONFIDENTIAL)]"

definition sample_ctx :: "role \<Rightarrow> auth_context" where
  "sample_ctx r = \<lparr>au_actorId = ''act-1'', au_role = r, au_sessionId = ''ses-000001'', au_correlationId = ''c-1'',
     au_scope = [], au_impersonatorId = None\<rparr>"

theorem shape_releases_exactly_readable_witness:
  "case shape ''project'' [(''name'', JStr ''Apollo''), (''margin'', JInt 12)] sample_map (sample_ctx DELIVERY_MANAGER) of
     Inl _ \<Rightarrow> False
   | Inr r \<Rightarrow> sh_payload r = [(''name'', JStr ''Apollo'')] \<and> sh_withheld r = [''margin'']"
proof -
  let ?row = "[(''name'', JStr ''Apollo''), (''margin'', JInt 12)]"
  have d: "distinct (map fst ?row)" by simp
  have f: "filter (\<lambda>(f, _). readable sample_map (sample_ctx DELIVERY_MANAGER) f \<and> f \<noteq> ''__proto__'') ?row = [(''name'', JStr ''Apollo'')]"
    "sort_strings (filter (\<lambda>f. \<not> readable sample_map (sample_ctx DELIVERY_MANAGER) f) (map fst ?row)) = [''margin'']"
    "list_all (returnable ''project'' sample_map) (map fst ?row)"
    by code_simp+
  then have "\<not> list_ex (\<lambda>f. \<not> returnable ''project'' sample_map f) (map fst ?row)" by (simp add: list_all_iff list_ex_iff)
  with shape_releases_exactly_readable [OF d sample_map_def, where resource = "''project''" and ctx = "sample_ctx DELIVERY_MANAGER"] f
  show ?thesis by (auto split: sum.splits)
qed

end
