(* ===== verification/Sessions.thy ===== *)
theory Sessions
  imports Time_Periods Authz_Policy
begin

text \<open>
  Identity and sessions: the security policy of \<open>platform/config/index.ts\<close>, the session store, the
  synthetic identity provider and its guard of \<open>contexts/identity/internal/identity-provider.ts\<close>.

  Every operation is given the instant its reading of the injected clock returned; an operation that
  reads the clock in a loop is given the sequence of its readings. A session is looked up by the
  opaque id only. \<open>spec_session\<close> is what the security model promises, without stored expiry
  instants; the last section proves that the store keeps that promise.
\<close>

section \<open>The security policy\<close>

record rate_limit =
  windowMs :: int
  maxRequests :: nat

datatype bucket = AUTH_BUCKET | READ_BUCKET | WRITE_BUCKET | ASSISTANT_BUCKET

record security_policy =
  sessionAbsoluteLifetimeMs :: int
  sessionIdleLifetimeMs :: int
  rateLimits :: "bucket \<Rightarrow> rate_limit"
  syntheticIdentityEnvironments :: "string list"

fun POC_RATE_LIMITS :: "bucket \<Rightarrow> rate_limit" where
  "POC_RATE_LIMITS AUTH_BUCKET = \<lparr>windowMs = 60000, maxRequests = 10\<rparr>"
| "POC_RATE_LIMITS READ_BUCKET = \<lparr>windowMs = 60000, maxRequests = 300\<rparr>"
| "POC_RATE_LIMITS WRITE_BUCKET = \<lparr>windowMs = 60000, maxRequests = 30\<rparr>"
| "POC_RATE_LIMITS ASSISTANT_BUCKET = \<lparr>windowMs = 60000, maxRequests = 20\<rparr>"

definition POC_SECURITY_POLICY :: security_policy where
  "POC_SECURITY_POLICY =
     \<lparr>sessionAbsoluteLifetimeMs = 8 * 60 * 60 * 1000,
      sessionIdleLifetimeMs = 30 * 60 * 1000,
      rateLimits = POC_RATE_LIMITS,
      syntheticIdentityEnvironments = [''dev'', ''test'']\<rparr>"

section \<open>The session store\<close>

record session_record =
  sr_sessionId :: string
  sr_actorId :: string
  sr_issuedAt :: instant
  sr_absoluteExpiry :: instant
  sr_idleExpiry :: instant
  sr_revokedAt :: "instant option"

datatype session_rejection = NOT_FOUND | REVOKED | ABSOLUTE_EXPIRY | IDLE_EXPIRY

record session_store =
  ss_sessions :: "(string, session_record) js_map"
  ss_seq :: nat

definition no_sessions :: session_store where
  "no_sessions = \<lparr>ss_sessions = [], ss_seq = 0\<rparr>"

definition session_id :: "nat \<Rightarrow> string" where
  "session_id n = ''ses-'' @ pad_zeros 6 (show_nat n)"

definition issue :: "security_policy \<Rightarrow> instant \<Rightarrow> string \<Rightarrow> session_store \<Rightarrow> session_record \<times> session_store" where
  "issue policy now actorId st =
     (let n = ss_seq st + 1;
          r = \<lparr>sr_sessionId = session_id n, sr_actorId = actorId, sr_issuedAt = now,
               sr_absoluteExpiry = instantPlusMs now (sessionAbsoluteLifetimeMs policy),
               sr_idleExpiry = instantPlusMs now (sessionIdleLifetimeMs policy),
               sr_revokedAt = None\<rparr>
      in (r, \<lparr>ss_sessions = js_set (sr_sessionId r) r (ss_sessions st), ss_seq = n\<rparr>))"

definition validate :: "security_policy \<Rightarrow> instant \<Rightarrow> string \<Rightarrow> session_store
    \<Rightarrow> (session_rejection + session_record) \<times> session_store" where
  "validate policy now sessionId st =
     (case js_get (ss_sessions st) sessionId of
        None \<Rightarrow> (Inl NOT_FOUND, st)
      | Some r \<Rightarrow>
          if sr_revokedAt r \<noteq> None then (Inl REVOKED, st)
          else if inst_le (sr_absoluteExpiry r) now then (Inl ABSOLUTE_EXPIRY, st)
          else if inst_le (sr_idleExpiry r) now then (Inl IDLE_EXPIRY, st)
          else
            let idleExpiry = earlier (instantPlusMs now (sessionIdleLifetimeMs policy)) (sr_absoluteExpiry r);
                updated = r\<lparr>sr_idleExpiry := idleExpiry\<rparr>
            in (Inr updated, st\<lparr>ss_sessions := js_set sessionId updated (ss_sessions st)\<rparr>))"

definition revoke :: "instant \<Rightarrow> string \<Rightarrow> session_store \<Rightarrow> session_store" where
  "revoke now sessionId st =
     (case js_get (ss_sessions st) sessionId of
        None \<Rightarrow> st
      | Some r \<Rightarrow> st\<lparr>ss_sessions := js_set sessionId (r\<lparr>sr_revokedAt := Some now\<rparr>) (ss_sessions st)\<rparr>)"

text \<open>The loop over the map's entries; setting a present key keeps its place.\<close>

fun revoke_entries :: "(nat \<Rightarrow> instant) \<Rightarrow> string \<Rightarrow> nat \<Rightarrow> (string, session_record) js_map
    \<Rightarrow> nat \<times> (string, session_record) js_map" where
  "revoke_entries clock actorId n [] = (n, [])"
| "revoke_entries clock actorId n ((id', r) # rest) =
     (if sr_actorId r = actorId \<and> sr_revokedAt r = None
      then apsnd (Cons (id', r\<lparr>sr_revokedAt := Some (clock n)\<rparr>)) (revoke_entries clock actorId (Suc n) rest)
      else apsnd (Cons (id', r)) (revoke_entries clock actorId n rest))"

definition revokeAllFor :: "(nat \<Rightarrow> instant) \<Rightarrow> string \<Rightarrow> session_store \<Rightarrow> nat \<times> session_store" where
  "revokeAllFor clock actorId st =
     (let (n, entries) = revoke_entries clock actorId 0 (ss_sessions st)
      in (n, st\<lparr>ss_sessions := entries\<rparr>))"

definition find_session :: "string \<Rightarrow> session_store \<Rightarrow> session_record option" where
  "find_session sessionId st = js_get (ss_sessions st) sessionId"

definition activeCount :: "session_store \<Rightarrow> nat" where
  "activeCount st = length (filter (\<lambda>r. sr_revokedAt r = None) (map snd (ss_sessions st)))"

section \<open>The identity provider\<close>

datatype authentication_method = SYNTHETIC_PERSONA | OIDC_METHOD | IMPERSONATION

record user =
  us_actorId :: string
  us_username :: string
  us_displayName :: string
  us_role :: role
  us_scope :: "scope_node list"

record verified_subject =
  vs_actorId :: string
  vs_username :: string
  vs_displayName :: string
  vs_role :: role
  vs_scope :: "scope_node list"
  vs_authenticationMethod :: authentication_method
  vs_issuer :: "string option"

record mock_provider =
  mp_byUsername :: "(string, verified_subject) js_map"
  mp_byActorId :: "(string, verified_subject) js_map"

definition subject_of :: "user \<Rightarrow> verified_subject" where
  "subject_of u =
     \<lparr>vs_actorId = us_actorId u, vs_username = us_username u, vs_displayName = us_displayName u,
      vs_role = us_role u, vs_scope = us_scope u, vs_authenticationMethod = SYNTHETIC_PERSONA, vs_issuer = None\<rparr>"

definition MockIdentityProvider :: "user list \<Rightarrow> mock_provider" where
  "MockIdentityProvider users =
     foldl (\<lambda>p u. \<lparr>mp_byUsername = js_set (us_username u) (subject_of u) (mp_byUsername p),
                   mp_byActorId = js_set (us_actorId u) (subject_of u) (mp_byActorId p)\<rparr>)
       \<lparr>mp_byUsername = [], mp_byActorId = []\<rparr> users"

definition verify :: "mock_provider \<Rightarrow> string \<Rightarrow> verified_subject option" where
  "verify p credential = js_get (mp_byUsername p) credential"

definition findByActorId :: "mock_provider \<Rightarrow> string \<Rightarrow> verified_subject option" where
  "findByActorId p actorId = js_get (mp_byActorId p) actorId"

datatype provider_kind = SYNTHETIC_KIND | OIDC_KIND

datatype start_error = RefusesToStart string

definition assertDemoEnvironment :: "provider_kind \<Rightarrow> string \<Rightarrow> security_policy \<Rightarrow> start_error + unit" where
  "assertDemoEnvironment kind environment policy =
     (if kind = SYNTHETIC_KIND \<and> environment \<notin> set (syntheticIdentityEnvironments policy)
      then Inl (RefusesToStart environment) else Inr ())"

section \<open>Runs of the store\<close>

datatype session_op =
    OpIssue instant string
  | OpValidate instant string
  | OpRevoke instant string
  | OpRevokeAll "nat \<Rightarrow> instant" string

text \<open>What the caller sees of an operation.\<close>

datatype session_outcome =
    Issued string
  | Rejected session_rejection
  | Valid string
  | Revoked_one
  | Revoked_many nat

fun session_apply :: "security_policy \<Rightarrow> session_op \<Rightarrow> session_store \<Rightarrow> session_outcome \<times> session_store" where
  "session_apply policy (OpIssue now actorId) st = (let (r, st') = issue policy now actorId st in (Issued (sr_sessionId r), st'))"
| "session_apply policy (OpValidate now sid) st =
     (case validate policy now sid st of
        (Inl why, st') \<Rightarrow> (Rejected why, st')
      | (Inr r, st') \<Rightarrow> (Valid (sr_actorId r), st'))"
| "session_apply policy (OpRevoke now sid) st = (Revoked_one, revoke now sid st)"
| "session_apply policy (OpRevokeAll clock actorId) st = (let (n, st') = revokeAllFor clock actorId st in (Revoked_many n, st'))"

inductive session_step :: "security_policy \<Rightarrow> session_store \<Rightarrow> session_store \<Rightarrow> bool" for policy where
  op: "session_apply policy op st = (out, st') \<Longrightarrow> session_step policy st st'"

inductive_cases session_stepE: "session_step policy st st'"

lemmas session_ops = issue_def validate_def revoke_def revokeAllFor_def

text \<open>What every reachable store satisfies of every session: its id was handed out by this store, and
  its absolute expiry is the one set when it was issued.\<close>

definition issued_here :: "security_policy \<Rightarrow> nat \<Rightarrow> string \<Rightarrow> session_record \<Rightarrow> bool" where
  "issued_here policy n sid r \<longleftrightarrow>
     sr_sessionId r = sid \<and> (\<exists>k. 1 \<le> k \<and> k \<le> n \<and> sid = session_id k)
     \<and> sr_absoluteExpiry r = instantPlusMs (sr_issuedAt r) (sessionAbsoluteLifetimeMs policy)
     \<and> (\<exists>ms. sr_idleExpiry r = to_iso ms)"

definition good_store :: "security_policy \<Rightarrow> session_store \<Rightarrow> bool" where
  "good_store policy st \<longleftrightarrow>
     (\<forall>sid r. js_get (ss_sessions st) sid = Some r \<longrightarrow> issued_here policy (ss_seq st) sid r)"

lemma good_storeD: "good_store policy st \<Longrightarrow> js_get (ss_sessions st) sid = Some r \<Longrightarrow> issued_here policy (ss_seq st) sid r"
  by (simp add: good_store_def)

lemma session_id_inj: "session_id m = session_id n \<Longrightarrow> m = n"
  by (auto simp: session_id_def dest: pad_zeros_inj)

lemma issued_here_later: "issued_here policy n sid r \<Longrightarrow> n \<le> m \<Longrightarrow> issued_here policy m sid r"
  by (fastforce simp: issued_here_def)

lemma issued_here_upd:
  "issued_here policy n sid (r\<lparr>sr_revokedAt := x\<rparr>) \<longleftrightarrow> issued_here policy n sid r"
  "issued_here policy n sid r \<Longrightarrow> issued_here policy n sid (r\<lparr>sr_idleExpiry := to_iso ms\<rparr>)"
  by (auto simp: issued_here_def)

lemma issued_here_slide:
  assumes "issued_here policy n sid r"
  shows "issued_here policy n sid (r\<lparr>sr_idleExpiry := earlier (instantPlusMs now ms) (sr_absoluteExpiry r)\<rparr>)"
  using assms issued_here_upd(2) [OF assms] by (simp add: issued_here_def instantPlusMs_def earlier_to_iso)

text \<open>Revoking all sessions of an actor, one entry at a time.\<close>

lemma revoke_entries_get:
  "js_get (snd (revoke_entries clock actorId n m)) sid =
     (case js_get m sid of None \<Rightarrow> None
      | Some r \<Rightarrow> if sr_actorId r = actorId \<and> sr_revokedAt r = None
                 then Some (r\<lparr>sr_revokedAt := Some (clock (n + length (filter (\<lambda>(_, q). sr_actorId q = actorId \<and> sr_revokedAt q = None)
                        (takeWhile (\<lambda>e. fst e \<noteq> sid) m))))\<rparr>)
                 else Some r)"
proof (induction m arbitrary: n)
  case Nil
  show ?case by (simp add: js_get_def)
next
  case (Cons e m)
  obtain i r where e: "e = (i, r)" by (cases e)
  show ?case
    using Cons.IH [of n] Cons.IH [of "Suc n"] by (auto simp: e js_get_def split: option.splits)
qed

lemma good_issue:
  assumes "good_store policy st"
  shows "good_store policy (snd (issue policy now actorId st))"
proof -
  have "issued_here policy (Suc (ss_seq st)) (session_id (Suc (ss_seq st))) (fst (issue policy now actorId st))"
    by (auto simp: issue_def issued_here_def instantPlusMs_def Let_def)
  moreover have "issued_here policy (Suc (ss_seq st)) sid r" if "js_get (ss_sessions st) sid = Some r" for sid r
    using issued_here_later [OF good_storeD [OF assms that]] by simp
  ultimately show ?thesis
    by (auto simp: good_store_def issue_def Let_def jsm.lookup_store)
qed

lemma good_validate: "good_store policy st \<Longrightarrow> good_store policy (snd (validate policy now sid st))"
  using issued_here_slide
  by (auto simp: good_store_def validate_def Let_def jsm.lookup_store split: option.split)

lemma good_revoke: "good_store policy st \<Longrightarrow> good_store policy (revoke now sid st)"
  by (auto simp: good_store_def revoke_def jsm.lookup_store issued_here_upd split: option.split)

lemma good_revokeAll: "good_store policy st \<Longrightarrow> good_store policy (snd (revokeAllFor clock actorId st))"
  by (auto simp: good_store_def revokeAllFor_def case_prod_beta revoke_entries_get issued_here_upd
      split: option.splits if_splits)

lemma good_step: "session_step policy st st' \<Longrightarrow> good_store policy st \<Longrightarrow> good_store policy st'"
proof (elim session_stepE)
  fix op out
  assume g: "good_store policy st" and a: "session_apply policy op st = (out, st')"
  show "good_store policy st'"
  proof (cases op)
    case (OpIssue now actorId)
    with a good_issue [OF g, of now actorId] show ?thesis by (simp add: case_prod_beta)
  next
    case (OpValidate now sid)
    with a good_validate [OF g, of now sid] show ?thesis by (auto simp: case_prod_beta split: prod.splits sum.splits)
  next
    case (OpRevoke now sid)
    with a good_revoke [OF g] show ?thesis by auto
  next
    case (OpRevokeAll clock actorId)
    with a good_revokeAll [OF g, of clock actorId] show ?thesis by (simp add: case_prod_beta)
  qed
qed

lemma good_reachable: "(session_step policy)\<^sup>*\<^sup>* no_sessions st \<Longrightarrow> good_store policy st"
proof (induction rule: rtranclp_induct)
  case base
  show ?case by (simp add: good_store_def no_sessions_def js_get_def)
next
  case (step st st')
  then show ?case using good_step by blast
qed

section \<open>What the store guarantees\<close>

lemma digits_text_bound:
  "list_all is_digit s \<Longrightarrow> list_all is_digit t \<Longrightarrow> length s \<le> length t \<Longrightarrow>
    parse_digits t \<le> parse_digits s * 10 ^ (length t - length s) \<Longrightarrow> t @ ''Z'' \<le> s @ ''Z''"
proof (induction s arbitrary: t)
  case Nil
  then show ?case by (cases t) (auto simp: is_digit_def less_char_def)
next
  case (Cons c s)
  then obtain d t' where t: "t = d # t'" by (cases t) auto
  define k where "k = length t' - length s"
  have len: "length t' = length s + k" using Cons.prems(3) t by (simp add: k_def)
  have dig: "is_digit c" "is_digit d" "list_all is_digit s" "list_all is_digit t'" using Cons.prems t by simp_all
  have "parse_digits s * 10 ^ k < 10 ^ length s * 10 ^ k" using parse_digits_bound [OF dig(3)] by simp
  then have bound: "parse_digits s * 10 ^ k < 10 ^ length t'" by (simp add: len power_add)
  have le: "digit_val d * 10 ^ length t' + parse_digits t' \<le> digit_val c * 10 ^ length t' + parse_digits s * 10 ^ k"
    using Cons.prems(4) by (simp add: t parse_digits_Cons len power_add algebra_simps)
  consider "d = c" | "d < c" | "c < d" by fastforce
  then show ?case
  proof cases
    case 1
    with le have "parse_digits t' \<le> parse_digits s * 10 ^ (length t' - length s)" by (simp add: k_def)
    with Cons.IH [OF dig(3,4)] len 1 show ?thesis by (simp add: t)
  next
    case 3
    then have "Suc (digit_val c) \<le> digit_val d" using digit_val_less [OF dig(1,2)] by simp
    then have "Suc (digit_val c) * 10 ^ length t' \<le> digit_val d * 10 ^ length t'" by (rule mult_le_mono1)
    with le bound show ?thesis by simp
  qed (simp add: t)
qed

lemma fraction_text_expired:
  assumes "frac_text f" "frac_text g" "length g = 4" "frac_ms g \<le> frac_ms f"
  shows "g @ ''Z'' \<le> f @ ''Z''"
proof -
  obtain es where g: "g = CHR ''.'' # es" "list_all is_digit es" "length es = 3"
    using assms(2,3) by (auto simp: frac_text_def split: list.splits)
  show ?thesis
  proof (cases f)
    case Nil
    then show ?thesis by (simp add: g)
  next
    case (Cons p ds)
    then have ds: "p = CHR ''.''" "list_all is_digit ds" "length ds \<le> 3"
      using assms(1) by (simp_all add: frac_text_def)
    have "int (parse_digits es) \<le> int (parse_digits ds * 10 ^ (3 - length ds))"
      using assms(4) by (simp add: frac_ms_def Cons g)
    then have "parse_digits es \<le> parse_digits ds * 10 ^ (length es - length ds)"
      unfolding g(3) by (rule of_nat_le_iff [THEN iffD1])
    with digits_text_bound [of ds es] ds g show ?thesis by (simp add: Cons)
  qed
qed

text \<open>An expiry is compared as text, with the clock's own number of fraction digits: an instant that has
  passed is never taken for one that has not.\<close>

lemma not_expired_in_time:
  assumes "frac_text (inst_frac now)" "\<not> inst_le (to_iso e) now"
  shows "date_parse now < e"
proof (rule ccontr)
  assume "\<not> date_parse now < e"
  then have le: "date_parse (to_iso e) \<le> date_parse now" by (simp add: to_iso_frac)
  have b: "0 \<le> frac_ms (inst_frac now)" "frac_ms (inst_frac now) < 1000"
    "0 \<le> frac_ms (inst_frac (to_iso e))" "frac_ms (inst_frac (to_iso e)) < 1000"
    using frac_ms_bound [OF assms(1)] frac_ms_bound [OF to_iso_frac(1)] by blast+
  then have "inst_sec (to_iso e) < inst_sec now \<or>
      inst_sec (to_iso e) = inst_sec now \<and> frac_ms (inst_frac (to_iso e)) \<le> frac_ms (inst_frac now)"
    using le unfolding date_parse_def by linarith
  then have "inst_le (to_iso e) now"
    using fraction_text_expired [OF assms(1) to_iso_frac(1,2)] by (auto simp: inst_le_def)
  with assms(2) show False ..
qed

lemma validate_Inr:
  "validate policy now sid st = (Inr r, st') \<longleftrightarrow>
    (\<exists>q. find_session sid st = Some q \<and> sr_revokedAt q = None
       \<and> \<not> inst_le (sr_absoluteExpiry q) now \<and> \<not> inst_le (sr_idleExpiry q) now
       \<and> r = q\<lparr>sr_idleExpiry := earlier (instantPlusMs now (sessionIdleLifetimeMs policy)) (sr_absoluteExpiry q)\<rparr>
       \<and> st' = st\<lparr>ss_sessions := js_set sid r (ss_sessions st)\<rparr>)"
  by (auto simp: validate_def find_session_def Let_def split: option.splits)

text \<open>No use keeps a session alive beyond its absolute lifetime. However the store was used before,
  a session that validates was handed out by this store, is not revoked, and is younger than the
  absolute lifetime; using it never moves its issue or its absolute expiry, and its new idle expiry
  lies within both windows.\<close>

theorem absolute_lifetime_enforced:
  assumes "(session_step policy)\<^sup>*\<^sup>* no_sessions st" "validate policy now sid st = (Inr r, st')"
    and "frac_text (inst_frac now)"
  shows "(\<exists>k. 1 \<le> k \<and> k \<le> ss_seq st \<and> sid = session_id k)
    \<and> date_parse now < date_parse (sr_issuedAt r) + sessionAbsoluteLifetimeMs policy
    \<and> (\<exists>q. find_session sid st = Some q \<and> sr_revokedAt q = None \<and> sr_actorId r = sr_actorId q
         \<and> sr_issuedAt r = sr_issuedAt q \<and> sr_absoluteExpiry r = sr_absoluteExpiry q)
    \<and> date_parse (sr_idleExpiry r) =
        min (date_parse now + sessionIdleLifetimeMs policy)
            (date_parse (sr_issuedAt r) + sessionAbsoluteLifetimeMs policy)"
proof -
  from assms(2) obtain q where q: "find_session sid st = Some q" "sr_revokedAt q = None"
    "\<not> inst_le (sr_absoluteExpiry q) now"
    "r = q\<lparr>sr_idleExpiry := earlier (instantPlusMs now (sessionIdleLifetimeMs policy)) (sr_absoluteExpiry q)\<rparr>"
    unfolding validate_Inr by blast
  have i: "issued_here policy (ss_seq st) sid q"
    using good_storeD [OF good_reachable [OF assms(1)]] q(1) by (simp add: find_session_def)
  then have abs_exp: "sr_absoluteExpiry q = to_iso (date_parse (sr_issuedAt q) + sessionAbsoluteLifetimeMs policy)"
    by (simp add: issued_here_def instantPlusMs_def)
  with not_expired_in_time [OF assms(3)] q(3)
  have "date_parse now < date_parse (sr_issuedAt q) + sessionAbsoluteLifetimeMs policy" by simp
  moreover have "date_parse (sr_idleExpiry r) =
        min (date_parse now + sessionIdleLifetimeMs policy) (date_parse (sr_issuedAt q) + sessionAbsoluteLifetimeMs policy)"
    by (simp add: q(4) abs_exp instantPlusMs_def earlier_to_iso to_iso_frac)
  ultimately show ?thesis using i q by (auto simp: issued_here_def)
qed

definition day_start :: instant where "day_start = Instant 1788134400 []"

definition one_session :: session_store where
  "one_session = snd (issue POC_SECURITY_POLICY day_start ''act-1'' no_sessions)"

lemma one_session_run: "(session_step POC_SECURITY_POLICY)\<^sup>*\<^sup>* no_sessions one_session"
  unfolding one_session_def
  by (rule r_into_rtranclp, rule op [where op = "OpIssue day_start ''act-1''"]) (simp add: case_prod_beta)

theorem absolute_lifetime_enforced_witness:
  "\<exists>r st'. validate POC_SECURITY_POLICY (instantPlusMs day_start 600000) ''ses-000001'' one_session = (Inr r, st')
     \<and> date_parse (sr_idleExpiry r) = date_parse day_start + 2400000"
proof -
  define v where "v = validate POC_SECURITY_POLICY (instantPlusMs day_start 600000) ''ses-000001'' one_session"
  have "case v of (Inr r, _) \<Rightarrow> sr_issuedAt r = day_start | _ \<Rightarrow> False" unfolding v_def by code_simp
  then obtain r st' where v: "validate POC_SECURITY_POLICY (instantPlusMs day_start 600000) ''ses-000001'' one_session = (Inr r, st')"
    "sr_issuedAt r = day_start" unfolding v_def by (auto split: prod.splits sum.splits)
  have "frac_text (inst_frac (instantPlusMs day_start 600000))" by code_simp
  from absolute_lifetime_enforced [OF one_session_run v(1) this] v
  show ?thesis by (auto simp: instantPlusMs_def to_iso_frac POC_SECURITY_POLICY_def)
qed

text \<open>What a step does to one session: it keeps the record or its revocation.\<close>

lemma step_keeps_revoked:
  assumes "session_step policy st st'" "good_store policy st"
    and "find_session sid st = Some r" "sr_revokedAt r \<noteq> None"
  shows "\<exists>r'. find_session sid st' = Some r' \<and> sr_revokedAt r' \<noteq> None"
proof -
  have old: "sid \<noteq> session_id (Suc (ss_seq st))"
    using good_storeD [OF assms(2), of sid r] assms(3)
    by (auto simp: issued_here_def find_session_def) (metis Suc_n_not_le_n session_id_inj)
  from assms(1) obtain op out where "session_apply policy op st = (out, st')" by (blast elim: session_stepE)
  then show ?thesis
    using assms(3,4) old
    by (cases op) (auto simp: session_ops Let_def find_session_def jsm.lookup_store revoke_entries_get case_prod_beta
        split: option.splits sum.splits prod.splits if_splits)
qed

lemma run_keeps_revoked:
  assumes "(session_step policy)\<^sup>*\<^sup>* st st'" "good_store policy st"
    and "find_session sid st = Some r" "sr_revokedAt r \<noteq> None"
  shows "\<exists>r'. find_session sid st' = Some r' \<and> sr_revokedAt r' \<noteq> None"
  using assms
proof (induction arbitrary: r rule: converse_rtranclp_induct)
  case (step st st1)
  obtain r1 where "find_session sid st1 = Some r1" "sr_revokedAt r1 \<noteq> None"
    using step_keeps_revoked [OF step.hyps(1) step.prems] by blast
  then show ?case using step.IH good_step [OF step.hyps(1) step.prems(1)] by blast
qed blast

text \<open>Revocation is final. A session revoked by its id, or together with all sessions of its actor
  (a role or scope change), is refused as revoked ever after, whatever happens in between.\<close>

theorem revoked_for_good:
  assumes "(session_step policy)\<^sup>*\<^sup>* no_sessions st" "find_session sid st = Some r"
    and "st1 = revoke t sid st \<or> st1 = snd (revokeAllFor clock (sr_actorId r) st)"
    and "(session_step policy)\<^sup>*\<^sup>* st1 st2"
  shows "validate policy now sid st2 = (Inl REVOKED, st2)"
proof -
  have g: "good_store policy st" by (rule good_reachable [OF assms(1)])
  have "good_store policy st1" using assms(3) good_revoke [OF g] good_revokeAll [OF g] by blast
  moreover have "\<exists>r1. find_session sid st1 = Some r1 \<and> sr_revokedAt r1 \<noteq> None"
    using assms(2,3)
    by (auto simp: find_session_def revoke_def revokeAllFor_def case_prod_beta revoke_entries_get jsm.lookup_store)
  ultimately obtain r2 where "find_session sid st2 = Some r2" "sr_revokedAt r2 \<noteq> None"
    using run_keeps_revoked [OF assms(4)] by blast
  then show ?thesis by (auto simp: validate_def find_session_def)
qed

theorem revoked_for_good_witness:
  "validate POC_SECURITY_POLICY day_start ''ses-000001'' (snd (revokeAllFor (\<lambda>_. day_start) ''act-1'' one_session))
     = (Inl REVOKED, snd (revokeAllFor (\<lambda>_. day_start) ''act-1'' one_session))"
proof -
  define f where "f = find_session ''ses-000001'' one_session"
  have "case f of Some r \<Rightarrow> sr_actorId r = ''act-1'' | None \<Rightarrow> False" unfolding f_def by code_simp
  then obtain r where r: "find_session ''ses-000001'' one_session = Some r" "sr_actorId r = ''act-1''"
    unfolding f_def by (auto split: option.splits)
  show ?thesis
    by (rule revoked_for_good [OF one_session_run r(1) disjI2 rtranclp.rtrancl_refl]) (simp add: r(2))
qed

section \<open>The promise the store implements\<close>

text \<open>
  The security model speaks of when a session was issued and last used: it is valid while it is not
  revoked, younger than the absolute lifetime and used within the idle lifetime. The code stores two
  expiry instants instead, one of them cut off at the other.
\<close>

record spec_session =
  sp_actor :: string
  sp_issued :: int
  sp_used :: int
  sp_revoked :: bool

record spec_store =
  sp_sessions :: "(string, spec_session) js_map"
  sp_seq :: nat

definition spec_empty :: spec_store where
  "spec_empty = \<lparr>sp_sessions = [], sp_seq = 0\<rparr>"

fun spec_apply :: "security_policy \<Rightarrow> session_op \<Rightarrow> spec_store \<Rightarrow> session_outcome \<times> spec_store" where
  "spec_apply policy (OpIssue now actorId) sp =
     (let n = sp_seq sp + 1; t = date_parse now
      in (Issued (session_id n),
          \<lparr>sp_sessions = js_set (session_id n) \<lparr>sp_actor = actorId, sp_issued = t, sp_used = t, sp_revoked = False\<rparr> (sp_sessions sp),
           sp_seq = n\<rparr>))"
| "spec_apply policy (OpValidate now sid) sp =
     (let t = date_parse now
      in case js_get (sp_sessions sp) sid of
           None \<Rightarrow> (Rejected NOT_FOUND, sp)
         | Some s \<Rightarrow>
             if sp_revoked s then (Rejected REVOKED, sp)
             else if sp_issued s + sessionAbsoluteLifetimeMs policy \<le> t then (Rejected ABSOLUTE_EXPIRY, sp)
             else if sp_used s + sessionIdleLifetimeMs policy \<le> t then (Rejected IDLE_EXPIRY, sp)
             else (Valid (sp_actor s), sp\<lparr>sp_sessions := js_set sid (s\<lparr>sp_used := t\<rparr>) (sp_sessions sp)\<rparr>))"
| "spec_apply policy (OpRevoke now sid) sp =
     (Revoked_one,
      case js_get (sp_sessions sp) sid of None \<Rightarrow> sp
      | Some s \<Rightarrow> sp\<lparr>sp_sessions := js_set sid (s\<lparr>sp_revoked := True\<rparr>) (sp_sessions sp)\<rparr>)"
| "spec_apply policy (OpRevokeAll clock actorId) sp =
     (Revoked_many (length (filter (\<lambda>(_, s). sp_actor s = actorId \<and> \<not> sp_revoked s) (sp_sessions sp))),
      sp\<lparr>sp_sessions := map (\<lambda>(k, s). (k, if sp_actor s = actorId \<and> \<not> sp_revoked s then s\<lparr>sp_revoked := True\<rparr> else s))
            (sp_sessions sp)\<rparr>)"

fun outcomes :: "('op \<Rightarrow> 's \<Rightarrow> 'out \<times> 's) \<Rightarrow> 'op list \<Rightarrow> 's \<Rightarrow> 'out list" where
  "outcomes step [] s = []"
| "outcomes step (op # ops) s = (let (out, s') = step op s in out # outcomes step ops s')"

text \<open>The system clock reads whole seconds; lifetimes are whole seconds.\<close>

fun reads_seconds :: "session_op \<Rightarrow> bool" where
  "reads_seconds (OpIssue now actorId) = (inst_frac now = [])"
| "reads_seconds (OpValidate now sid) = (inst_frac now = [])"
| "reads_seconds (OpRevoke now sid) = True"
| "reads_seconds (OpRevokeAll clock actorId) = True"

definition whole_policy :: "security_policy \<Rightarrow> bool" where
  "whole_policy policy \<longleftrightarrow> 1000 dvd sessionAbsoluteLifetimeMs policy \<and> 1000 dvd sessionIdleLifetimeMs policy"

definition tracks :: "security_policy \<Rightarrow> session_record \<Rightarrow> spec_session \<Rightarrow> bool" where
  "tracks policy r s \<longleftrightarrow>
     (let A = sp_issued s + sessionAbsoluteLifetimeMs policy; U = sp_used s + sessionIdleLifetimeMs policy
      in sr_actorId r = sp_actor s \<and> (sr_revokedAt r \<noteq> None \<longleftrightarrow> sp_revoked s)
       \<and> 1000 dvd sp_issued s \<and> 1000 dvd sp_used s
       \<and> sr_absoluteExpiry r = to_iso A
       \<and> (\<exists>e. 1000 dvd e \<and> sr_idleExpiry r = to_iso e \<and> min e A = min U A))"

definition simulates :: "security_policy \<Rightarrow> session_store \<Rightarrow> spec_store \<Rightarrow> bool" where
  "simulates policy st sp \<longleftrightarrow> ss_seq st = sp_seq sp
     \<and> list_all2 (\<lambda>(k, r) (l, s). k = l \<and> tracks policy r s) (ss_sessions st) (sp_sessions sp)"

lemma alist_get:
  "list_all2 (\<lambda>(k, a) (l, b). k = l \<and> P a b) m m' \<Longrightarrow> rel_option P (js_get m x) (js_get m' x)"
  by (induction rule: list_all2_induct) (auto simp: js_get_def)

lemma alist_set:
  "list_all2 (\<lambda>(k, a) (l, b). k = l \<and> P a b) m m' \<Longrightarrow> P a b \<Longrightarrow>
    list_all2 (\<lambda>(k, a) (l, b). k = l \<and> P a b) (js_set x a m) (js_set x b m')"
  by (induction rule: list_all2_induct) (auto simp: js_set_def)

lemma second_expired: "1000 dvd e \<Longrightarrow> inst_frac now = [] \<Longrightarrow> inst_le (to_iso e) now \<longleftrightarrow> e \<le> date_parse now"
  by (cases now) (auto simp: to_iso_le_second date_parse_def frac_ms_def elim!: dvdE)

lemma second_dvd: "inst_frac now = [] \<Longrightarrow> 1000 dvd date_parse now"
  by (simp add: date_parse_def frac_ms_def)

lemma tracks_revoked:
  "tracks policy r s \<Longrightarrow> tracks policy (r\<lparr>sr_revokedAt := Some t\<rparr>) (s\<lparr>sp_revoked := True\<rparr>)"
  by (simp add: tracks_def Let_def)

lemma tracks_used:
  assumes "whole_policy policy" "tracks policy r s" "inst_frac now = []"
  shows "tracks policy
    (r\<lparr>sr_idleExpiry := earlier (instantPlusMs now (sessionIdleLifetimeMs policy)) (sr_absoluteExpiry r)\<rparr>)
    (s\<lparr>sp_used := date_parse now\<rparr>)"
proof -
  let ?A = "sp_issued s + sessionAbsoluteLifetimeMs policy"
  let ?e = "min (date_parse now + sessionIdleLifetimeMs policy) ?A"
  have "sr_absoluteExpiry r = to_iso ?A" using assms(2) by (simp add: tracks_def Let_def)
  then have e: "earlier (instantPlusMs now (sessionIdleLifetimeMs policy)) (sr_absoluteExpiry r) = to_iso ?e"
    by (simp add: instantPlusMs_def earlier_to_iso)
  have d: "1000 dvd ?e"
    using assms(1,2) second_dvd [OF assms(3)] by (simp add: tracks_def whole_policy_def Let_def min_def)
  show ?thesis
    using assms(2) second_dvd [OF assms(3)] d unfolding tracks_def Let_def e
    by (intro conjI exI [of _ ?e]) simp_all
qed

lemma tracks_expired:
  assumes "whole_policy policy" "tracks policy r s" "inst_frac now = []"
  shows "inst_le (sr_absoluteExpiry r) now \<longleftrightarrow> sp_issued s + sessionAbsoluteLifetimeMs policy \<le> date_parse now"
    and "\<not> inst_le (sr_absoluteExpiry r) now \<Longrightarrow>
      inst_le (sr_idleExpiry r) now \<longleftrightarrow> sp_used s + sessionIdleLifetimeMs policy \<le> date_parse now"
proof -
  from assms(1,2) have "1000 dvd sp_issued s + sessionAbsoluteLifetimeMs policy"
    by (simp add: tracks_def whole_policy_def Let_def)
  then show a: "inst_le (sr_absoluteExpiry r) now \<longleftrightarrow> sp_issued s + sessionAbsoluteLifetimeMs policy \<le> date_parse now"
    using assms(2,3) second_expired by (simp add: tracks_def Let_def)
  from assms(2) obtain e where e: "1000 dvd e" "sr_idleExpiry r = to_iso e"
    "min e (sp_issued s + sessionAbsoluteLifetimeMs policy)
      = min (sp_used s + sessionIdleLifetimeMs policy) (sp_issued s + sessionAbsoluteLifetimeMs policy)"
    by (auto simp: tracks_def Let_def)
  show "\<not> inst_le (sr_absoluteExpiry r) now \<Longrightarrow>
      inst_le (sr_idleExpiry r) now \<longleftrightarrow> sp_used s + sessionIdleLifetimeMs policy \<le> date_parse now"
    using a e(3) second_expired [OF e(1) assms(3)] unfolding e(2) by (simp add: min_def split: if_splits)
qed

lemma revoke_entries_simulates:
  "list_all2 (\<lambda>(k, r) (l, s). k = l \<and> tracks policy r s) m m' \<Longrightarrow>
    fst (revoke_entries clock a n m) = n + length (filter (\<lambda>(_, s). sp_actor s = a \<and> \<not> sp_revoked s) m')
    \<and> list_all2 (\<lambda>(k, r) (l, s). k = l \<and> tracks policy r s) (snd (revoke_entries clock a n m))
        (map (\<lambda>(k, s). (k, if sp_actor s = a \<and> \<not> sp_revoked s then s\<lparr>sp_revoked := True\<rparr> else s)) m')"
proof (induction arbitrary: n rule: list_all2_induct)
  case (Cons x m y m')
  obtain k r s where x: "x = (k, r)" "y = (k, s)" "tracks policy r s"
    using Cons.hyps(1) by (auto split: prod.splits)
  have "sr_actorId r = sp_actor s"
    "sr_revokedAt r = None \<longleftrightarrow> \<not> sp_revoked s"
    using x(3) by (auto simp: tracks_def Let_def)
  then show ?case using Cons.IH tracks_revoked [OF x(3)] x by auto
qed simp

lemma simulates_get:
  "simulates policy st sp \<Longrightarrow> rel_option (tracks policy) (js_get (ss_sessions st) sid) (js_get (sp_sessions sp) sid)"
  by (auto simp: simulates_def intro: alist_get)

lemma simulates_set:
  "simulates policy st sp \<Longrightarrow> tracks policy r s \<Longrightarrow>
    simulates policy (st\<lparr>ss_sessions := js_set sid r (ss_sessions st)\<rparr>) (sp\<lparr>sp_sessions := js_set sid s (sp_sessions sp)\<rparr>)"
  by (auto simp: simulates_def intro: alist_set)

lemma simulates_step:
  assumes "whole_policy policy" "reads_seconds op" "simulates policy st sp"
  shows "fst (session_apply policy op st) = fst (spec_apply policy op sp)
    \<and> simulates policy (snd (session_apply policy op st)) (snd (spec_apply policy op sp))"
proof (cases op)
  case (OpIssue now actorId)
  then have now: "inst_frac now = []" using assms(2) by simp
  let ?r = "fst (issue policy now actorId st)"
  let ?s = "\<lparr>sp_actor = actorId, sp_issued = date_parse now, sp_used = date_parse now, sp_revoked = False\<rparr>"
  have "tracks policy ?r ?s"
    using assms(1) second_dvd [OF now] unfolding tracks_def issue_def Let_def whole_policy_def instantPlusMs_def
    by (intro conjI exI [of _ "date_parse now + sessionIdleLifetimeMs policy"]) simp_all
  from alist_set [where P = "tracks policy", OF _ this] assms(3) show ?thesis
    by (auto simp: OpIssue simulates_def issue_def Let_def)
next
  case (OpValidate now sid)
  then have now: "inst_frac now = []" using assms(2) by simp
  show ?thesis
  proof (cases "js_get (ss_sessions st) sid")
    case None
    with simulates_get [OF assms(3), of sid] assms(3) show ?thesis
      by (simp add: OpValidate validate_def)
  next
    case (Some r)
    with simulates_get [OF assms(3), of sid] obtain s where s: "js_get (sp_sessions sp) sid = Some s" "tracks policy r s"
      by (auto elim: option.rel_cases)
    have "sr_actorId r = sp_actor s" "sr_revokedAt r \<noteq> None \<longleftrightarrow> sp_revoked s"
      using s(2) by (simp_all add: tracks_def Let_def)
    then show ?thesis
      using Some s(1) assms(3) tracks_expired [OF assms(1) s(2) now]
        simulates_set [OF assms(3) tracks_used [OF assms(1) s(2) now]]
      by (simp add: OpValidate validate_def Let_def)
  qed
next
  case (OpRevoke now sid)
  then show ?thesis
    using simulates_get [OF assms(3), of sid] assms(3) simulates_set [OF assms(3) tracks_revoked]
    by (auto simp: revoke_def elim!: option.rel_cases)
next
  case (OpRevokeAll clock actorId)
  have "list_all2 (\<lambda>(k, r) (l, s). k = l \<and> tracks policy r s) (ss_sessions st) (sp_sessions sp)"
    using assms(3) by (simp add: simulates_def)
  from revoke_entries_simulates [OF this, of clock actorId 0] assms(3) show ?thesis
    by (simp add: OpRevokeAll revokeAllFor_def case_prod_beta simulates_def)
qed

lemma simulates_run:
  "whole_policy policy \<Longrightarrow> list_all reads_seconds ops \<Longrightarrow> simulates policy st sp \<Longrightarrow>
    outcomes (session_apply policy) ops st = outcomes (spec_apply policy) ops sp"
proof (induction ops arbitrary: st sp)
  case (Cons op ops)
  then show ?case using simulates_step [of policy op st sp] by (simp add: case_prod_beta)
qed simp

text \<open>C8: the store keeps the promise of the security model. For every sequence of logins, uses, logouts
  and revocations, the ids handed out, every acceptance, every refusal with its reason and every
  number of revoked sessions are those of a store that remembers only when each session was issued,
  when it was last used and whether it was revoked.\<close>

theorem sessions_refine_spec:
  assumes "whole_policy policy" "list_all reads_seconds ops"
  shows "outcomes (session_apply policy) ops no_sessions = outcomes (spec_apply policy) ops spec_empty"
  using assms by (intro simulates_run) (simp_all add: simulates_def no_sessions_def spec_empty_def)

theorem sessions_refine_spec_witness:
  "outcomes (session_apply POC_SECURITY_POLICY)
     [OpIssue (Instant 0 []) ''act-1'', OpValidate (Instant 1799 []) ''ses-000001'', OpValidate (Instant 3599 []) ''ses-000001'']
     no_sessions
   = [Issued ''ses-000001'', Valid ''act-1'', Rejected IDLE_EXPIRY]"
proof -
  have "whole_policy POC_SECURITY_POLICY" by (simp add: whole_policy_def POC_SECURITY_POLICY_def)
  moreover have "list_all reads_seconds
     [OpIssue (Instant 0 []) ''act-1'', OpValidate (Instant 1799 []) ''ses-000001'', OpValidate (Instant 3599 []) ''ses-000001'']"
    by simp
  moreover have "outcomes (spec_apply POC_SECURITY_POLICY)
     [OpIssue (Instant 0 []) ''act-1'', OpValidate (Instant 1799 []) ''ses-000001'', OpValidate (Instant 3599 []) ''ses-000001'']
     spec_empty = [Issued ''ses-000001'', Valid ''act-1'', Rejected IDLE_EXPIRY]"
    by code_simp
  ultimately show ?thesis using sessions_refine_spec by metis
qed

end
