(* ===== verification/Api.thy ===== *)
theory Api
  imports Audit_Log Sessions Decimals
begin

text \<open>
  The versioned API surface (\<open>src/app/api\<close>): the route table and path matching of \<open>contract.ts\<close>, the
  fixed-window limiter of \<open>rate-limit.ts\<close>, and the input validation of \<open>validation.ts\<close>. Inputs of type
  \<open>unknown\<close> are \<open>json\<close> values.
\<close>

section \<open>The route table\<close>

datatype http_method = HGET | HPOST | HPATCH

record route =
  rt_method :: http_method
  rt_path :: string
  rt_capability :: capability
  rt_entityType :: string
  rt_readsClassifications :: "field_classification list"
  rt_auditReads :: bool
  rt_isWrite :: bool
  rt_maxPageSize :: "nat option"
  rt_description :: string

definition DEFAULT_PAGE_SIZE :: nat where "DEFAULT_PAGE_SIZE = 25"

definition MAX_PAGE_SIZE :: nat where "MAX_PAGE_SIZE = 100"

definition MAX_FILTER_VALUES :: nat where "MAX_FILTER_VALUES = 20"

definition ROUTES :: "route list" where
  "ROUTES =
     [
      \<lparr>rt_method = HGET, rt_path = ''/v1/projects'', rt_capability = ''project.view'', rt_entityType = ''project'',
       rt_readsClassifications = [PUBLIC_INTERNAL, DELIVERY_SENSITIVE],
       rt_auditReads = False, rt_isWrite = False, rt_maxPageSize = Some MAX_PAGE_SIZE,
       rt_description = ''List projects within the caller's authorised set.''\<rparr>,
      \<lparr>rt_method = HGET, rt_path = ''/v1/projects/:id'', rt_capability = ''project.view'', rt_entityType = ''project'',
       rt_readsClassifications = [PUBLIC_INTERNAL, DELIVERY_SENSITIVE, COMMERCIAL_CONFIDENTIAL],
       rt_auditReads = True, rt_isWrite = False, rt_maxPageSize = None,
       rt_description = ''One project. Commercial fields are omitted for roles that may not read them.''\<rparr>,
      \<lparr>rt_method = HGET, rt_path = ''/v1/projects/:id/executive-health'', rt_capability = ''project.view'', rt_entityType = ''projectExecutiveHealth'',
       rt_readsClassifications = [PUBLIC_INTERNAL, DELIVERY_SENSITIVE, COMMERCIAL_CONFIDENTIAL],
       rt_auditReads = True, rt_isWrite = False, rt_maxPageSize = Some 1,
       rt_description = ''One project's executive health review, with evidence for every headline figure.''\<rparr>,
      \<lparr>rt_method = HGET, rt_path = ''/v1/projects/:id/margin-intelligence'', rt_capability = ''project.viewCommercial'', rt_entityType = ''marginIntelligence'',
       rt_readsClassifications = [PUBLIC_INTERNAL, DELIVERY_SENSITIVE, COMMERCIAL_CONFIDENTIAL],
       rt_auditReads = True, rt_isWrite = False, rt_maxPageSize = Some 1,
       rt_description = ''One project's margin bridge, driver economics and scenarios.''\<rparr>,
      \<lparr>rt_method = HGET, rt_path = ''/v1/projects/:id/forward-risk'', rt_capability = ''project.view'', rt_entityType = ''forwardRisk'',
       rt_readsClassifications = [PUBLIC_INTERNAL, DELIVERY_SENSITIVE, COMMERCIAL_CONFIDENTIAL],
       rt_auditReads = True, rt_isWrite = False, rt_maxPageSize = Some 1,
       rt_description = ''One project's emerging signals, outlook, recovery plan and intervention priority.''\<rparr>,
      \<lparr>rt_method = HGET, rt_path = ''/v1/projects/:id/economics'', rt_capability = ''project.viewCommercial'', rt_entityType = ''projectEconomics'',
       rt_readsClassifications = [COMMERCIAL_CONFIDENTIAL],
       rt_auditReads = True, rt_isWrite = False, rt_maxPageSize = None,
       rt_description = ''Project economics. Every read is audited (SECURITY_MODEL.md 5.1).''\<rparr>,
      \<lparr>rt_method = HGET, rt_path = ''/v1/portfolio/command-center'', rt_capability = ''portfolio.viewAggregates'', rt_entityType = ''portfolioCommandCenter'',
       rt_readsClassifications = [PUBLIC_INTERNAL, DELIVERY_SENSITIVE, COMMERCIAL_CONFIDENTIAL],
       rt_auditReads = True, rt_isWrite = False, rt_maxPageSize = Some 1,
       rt_description = ''Executive portfolio command centre, aggregated over the authorised set only.''\<rparr>,
      \<lparr>rt_method = HGET, rt_path = ''/v1/portfolio/summary'', rt_capability = ''portfolio.viewAggregates'', rt_entityType = ''portfolioSummary'',
       rt_readsClassifications = [COMMERCIAL_CONFIDENTIAL],
       rt_auditReads = True, rt_isWrite = False, rt_maxPageSize = Some 1,
       rt_description = ''Aggregates computed over the authorised set only (ADR-0005 5).''\<rparr>,
      \<lparr>rt_method = HGET, rt_path = ''/v1/lineage/:id'', rt_capability = ''project.view'', rt_entityType = ''lineage'',
       rt_readsClassifications = [PUBLIC_INTERNAL],
       rt_auditReads = False, rt_isWrite = False, rt_maxPageSize = None,
       rt_description = ''Source, freshness and evidence ids behind a project's metrics (REQ-DATA-010).''\<rparr>,
      \<lparr>rt_method = HGET, rt_path = ''/v1/audit'', rt_capability = ''audit.read'', rt_entityType = ''auditEvent'',
       rt_readsClassifications = [COMMERCIAL_CONFIDENTIAL, SECURITY_TELEMETRY],
       rt_auditReads = True, rt_isWrite = False, rt_maxPageSize = Some MAX_PAGE_SIZE,
       rt_description = ''Audit log. Readable by ASSURANCE_AUDITOR; reading it is itself audited.''\<rparr>,
      \<lparr>rt_method = HPOST, rt_path = ''/v1/projects/:id/rag-override'', rt_capability = ''health.applyOverride'', rt_entityType = ''ragOverride'',
       rt_readsClassifications = [PUBLIC_INTERNAL],
       rt_auditReads = False, rt_isWrite = True, rt_maxPageSize = None,
       rt_description = ''Apply an authorised RAG override. Requires actor, reason and expiry.''\<rparr>,
      \<lparr>rt_method = HPATCH, rt_path = ''/v1/projects/:id/etc'', rt_capability = ''forecast.updateEtc'', rt_entityType = ''estimateToComplete'',
       rt_readsClassifications = [COMMERCIAL_CONFIDENTIAL],
       rt_auditReads = False, rt_isWrite = True, rt_maxPageSize = None,
       rt_description = ''Revise the bottom-up ETC. Audited with a before/after fingerprint.''\<rparr>]"

text \<open>Exact segment match, with \<open>:param\<close> matching one non-empty segment and nothing else.\<close>

definition path_matches :: "string \<Rightarrow> string \<Rightarrow> bool" where
  "path_matches pattern actual =
     (let p = split_on (CHR ''/'') pattern; a = split_on (CHR ''/'') actual
      in length p = length a
       \<and> list_all (\<lambda>(seg, x). if prefix '':'' seg then length x > 0 else seg = x) (zip p a))"

definition findRoute :: "http_method \<Rightarrow> string \<Rightarrow> route option" where
  "findRoute m path = find (\<lambda>r. rt_method r = m \<and> path_matches (rt_path r) path) ROUTES"

definition pathParam :: "string \<Rightarrow> string \<Rightarrow> string \<Rightarrow> string option" where
  "pathParam pattern actual name =
     (let p = split_on (CHR ''/'') pattern; a = split_on (CHR ''/'') actual; idx = index_of ('':'' @ name) p
      in if idx = - 1 then None else if nat idx < length a then Some (a ! nat idx) else None)"

definition SECURITY_HEADERS :: "(string \<times> string) list" where
  "SECURITY_HEADERS =
     [(''Content-Security-Policy'',
       ''default-src 'self'; script-src 'self'; style-src 'self'; img-src 'self' data:; ''
       @ ''connect-src 'self'; font-src 'self'; object-src 'none'; base-uri 'none'; ''
       @ ''form-action 'self'; frame-ancestors 'none'' @ [CHR 0x27]),
      (''Strict-Transport-Security'', ''max-age=31536000; includeSubDomains''),
      (''X-Content-Type-Options'', ''nosniff''),
      (''Referrer-Policy'', ''no-referrer''),
      (''Cross-Origin-Opener-Policy'', ''same-origin''),
      (''Cross-Origin-Resource-Policy'', ''same-origin''),
      (''Permissions-Policy'', ''geolocation=(), camera=(), microphone=(), payment=()''),
      (''Cache-Control'', ''no-store'')]"

section \<open>The rate limiter\<close>

fun bucket_text :: "bucket \<Rightarrow> string" where
  "bucket_text AUTH_BUCKET = ''auth''"
| "bucket_text READ_BUCKET = ''read''"
| "bucket_text WRITE_BUCKET = ''write''"
| "bucket_text ASSISTANT_BUCKET = ''assistant''"

text \<open>The class \<open>FixedWindowRateLimiter\<close>: one window per actor and bucket, its start and its count. The
  error carries the milliseconds to wait.\<close>

type_synonym windows = "(string, instant \<times> nat) js_map"

definition window_key :: "string \<Rightarrow> bucket \<Rightarrow> string" where
  "window_key actorId b = actorId @ '':'' @ bucket_text b"

definition check_rate :: "(bucket \<Rightarrow> rate_limit) \<Rightarrow> instant \<Rightarrow> string \<Rightarrow> bucket \<Rightarrow> windows \<Rightarrow> (int + unit) \<times> windows" where
  "check_rate limits now actorId b ws =
     (let policy = limits b; key = window_key actorId b
      in case js_get ws key of
           None \<Rightarrow> (Inr (), js_set key (now, 1) ws)
         | Some (start, n) \<Rightarrow>
             let elapsed = msBetween start now
             in if elapsed \<ge> windowMs policy then (Inr (), js_set key (now, 1) ws)
                else if n \<ge> maxRequests policy then (Inl (windowMs policy - elapsed), ws)
                else (Inr (), js_set key (start, n + 1) ws))"

section \<open>Input validation\<close>

datatype validation_error = ValidationError "string list"

definition id_char :: "char \<Rightarrow> bool" where
  "id_char c \<longleftrightarrow> is_digit c \<or> (CHR ''a'' \<le> c \<and> c \<le> CHR ''z'')"

text \<open>\<open>/^[a-z0-9][a-z0-9-]{0,63}$/\<close>.\<close>

definition ID_PATTERN :: "string \<Rightarrow> bool" where
  "ID_PATTERN s = (case s of [] \<Rightarrow> False
     | c # cs \<Rightarrow> id_char c \<and> list_all (\<lambda>d. id_char d \<or> d = CHR ''-'') cs \<and> length cs \<le> 63)"

definition valid_identifier :: "string \<Rightarrow> json \<Rightarrow> validation_error + string" where
  "valid_identifier field value =
     (case value of
        JStr s \<Rightarrow>
          if ID_PATTERN s then Inr s
          else Inl (ValidationError [field @ '' must match ^[a-z0-9][a-z0-9-]{0,63}$ -- got a value of length '' @ show_nat (length s)])
      | _ \<Rightarrow> Inl (ValidationError [field @ '' must be a string'']))"

definition boundedString :: "string \<Rightarrow> json \<Rightarrow> nat \<Rightarrow> nat \<Rightarrow> validation_error + string" where
  "boundedString field value hi lo =
     (case value of
        JStr s \<Rightarrow>
          let trimmed = trim s
          in if length trimmed < lo then Inl (ValidationError [field @ '' must be at least '' @ show_nat lo @ '' characters''])
             else if length trimmed > hi then Inl (ValidationError [field @ '' must be at most '' @ show_nat hi @ '' characters''])
             else Inr trimmed
      | _ \<Rightarrow> Inl (ValidationError [field @ '' must be a string'']))"

definition oneOf :: "string \<Rightarrow> json \<Rightarrow> string list \<Rightarrow> validation_error + string" where
  "oneOf field value allowed =
     (let err = Inl (ValidationError [field @ '' must be one of: '' @ join_with '', '' allowed])
      in case value of JStr s \<Rightarrow> if s \<in> set allowed then Inr s else err | _ \<Rightarrow> err)"

definition boundedInteger :: "string \<Rightarrow> json \<Rightarrow> nat \<Rightarrow> nat \<Rightarrow> validation_error + nat" where
  "boundedInteger field value lo hi =
     (let text' = (case value of JInt i \<Rightarrow> if i \<ge> 0 then show_int i else [] | JStr s \<Rightarrow> s | _ \<Rightarrow> [])
      in case parseBoundedCount text' lo hi of
           None \<Rightarrow> Inl (ValidationError [field @ '' must be an integer between '' @ show_nat lo @ '' and '' @ show_nat hi])
         | Some n \<Rightarrow> Inr n)"

definition FORBIDDEN_FIELDS :: "string list" where
  "FORBIDDEN_FIELDS = [''__proto__'', ''constructor'', ''prototype'']"

definition rejectUnknownFields :: "json \<Rightarrow> string list \<Rightarrow> validation_error + (string \<times> json) list" where
  "rejectUnknownFields input allowed =
     (case input of
        JObj r \<Rightarrow>
          let unknown = filter (\<lambda>k. k \<notin> set allowed) (map fst r)
          in if length unknown > 0 then
               Inl (ValidationError [show_nat (length unknown) @ '' unknown field'' @ (if length unknown = 1 then [] else ''s'')
                      @ '': '' @ join_with '', '' (sort_strings unknown)])
             else (case find (\<lambda>k. k \<in> set (map fst r)) FORBIDDEN_FIELDS of
                     Some k \<Rightarrow> Inl (ValidationError [''forbidden field: '' @ k])
                   | None \<Rightarrow> Inr r)
      | _ \<Rightarrow> Inl (ValidationError [''body must be an object'']))"

record page_request =
  pg_limit :: nat
  pg_offset :: nat

text \<open>A query parameter; one that is absent and one that is \<open>undefined\<close> are the same.\<close>

definition query_param :: "(string \<times> json) list \<Rightarrow> string \<Rightarrow> json" where
  "query_param query name = (case map_of query name of None \<Rightarrow> JUndefined | Some v \<Rightarrow> v)"

definition pageRequest :: "(string \<times> json) list \<Rightarrow> nat \<Rightarrow> nat \<Rightarrow> validation_error + page_request" where
  "pageRequest query maxPageSize defaultPageSize =
     (let rawLimit = query_param query ''limit''; rawOffset = query_param query ''offset''
      in and_then (if rawLimit = JUndefined then Inr defaultPageSize else boundedInteger ''limit'' rawLimit 1 1000000)
        (\<lambda>limit. and_then (if rawOffset = JUndefined then Inr 0 else boundedInteger ''offset'' rawOffset 0 1000000)
        (\<lambda>offset. Inr \<lparr>pg_limit = min limit maxPageSize, pg_offset = offset\<rparr>)))"

definition filterValues :: "string \<Rightarrow> json \<Rightarrow> string list \<Rightarrow> nat \<Rightarrow> validation_error + string list" where
  "filterValues field value allowed maxValues =
     (let xs = (case value of JArr ys \<Rightarrow> ys | v \<Rightarrow> [v])
      in if length xs > maxValues then Inl (ValidationError [field @ '' accepts at most '' @ show_nat maxValues @ '' values''])
         else try_map (\<lambda>v. oneOf field v allowed) xs)"

section \<open>What the limiter bounds\<close>

lemma bucket_text_no_colon: "CHR '':'' \<notin> set (bucket_text b)"
  by (cases b) simp_all

lemma bucket_text_inj: "bucket_text b = bucket_text c \<Longrightarrow> b = c"
  by (cases b; cases c) simp_all

lemma window_key_inj: "window_key a b = window_key a' b' \<longleftrightarrow> a = a' \<and> b = b'"
proof
  assume k: "window_key a b = window_key a' b'"
  have "takeWhile (\<lambda>x. x \<noteq> CHR '':'') (rev (window_key x c)) = rev (bucket_text c)" for x c
    using bucket_text_no_colon [of c] by (simp add: window_key_def takeWhile_append2) (subst takeWhile_append2; auto)
  then have "bucket_text b = bucket_text b'" using k by (metis rev_rev_ident)
  then have "b = b'" by (rule bucket_text_inj)
  with k show "a = a' \<and> b = b'" by (simp add: window_key_def)
qed simp

text \<open>The requests of one actor and bucket that a sequence of checks lets through.\<close>

fun admitted :: "(bucket \<Rightarrow> rate_limit) \<Rightarrow> string \<Rightarrow> bucket \<Rightarrow> (string \<times> bucket \<times> instant) list \<Rightarrow> windows \<Rightarrow> nat" where
  "admitted limits a b [] ws = 0"
| "admitted limits a b ((a', b', now) # rs) ws =
     (let (r, ws') = check_rate limits now a' b' ws
      in (if a' = a \<and> b' = b \<and> r = Inr () then 1 else 0) + admitted limits a b rs ws')"

definition budget :: "rate_limit \<Rightarrow> int \<Rightarrow> (instant \<times> nat) option \<Rightarrow> nat" where
  "budget quota t w =
     (case w of None \<Rightarrow> maxRequests quota
      | Some (start, n) \<Rightarrow>
          (if t \<le> date_parse start then maxRequests quota - n else maxRequests quota - n + maxRequests quota))"

lemma check_rate_other:
  "\<not> (a' = a \<and> b' = b) \<Longrightarrow> js_get (snd (check_rate limits now a' b' ws)) (window_key a b) = js_get ws (window_key a b)"
  by (auto simp: check_rate_def Let_def jsm.lookup_store window_key_inj split: option.split)

lemma check_rate_budget:
  assumes "1 \<le> maxRequests (limits b)" "t \<le> date_parse now" "date_parse now < t + windowMs (limits b)"
  shows "(if fst (check_rate limits now a b ws) = Inr () then 1 else 0)
      + budget (limits b) t (js_get (snd (check_rate limits now a b ws)) (window_key a b))
    \<le> budget (limits b) t (js_get ws (window_key a b))"
  using assms by (auto simp: check_rate_def Let_def budget_def msBetween_def split: option.split)

lemma admitted_budget:
  assumes "1 \<le> maxRequests (limits b)"
    and "\<And>now. (a, b, now) \<in> set reqs \<Longrightarrow> t \<le> date_parse now \<and> date_parse now < t + windowMs (limits b)"
  shows "admitted limits a b reqs ws \<le> budget (limits b) t (js_get ws (window_key a b))"
  using assms(2)
proof (induction reqs arbitrary: ws)
  case (Cons q rs)
  obtain a' b' now where q: "q = (a', b', now)" by (cases q)
  let ?r = "check_rate limits now a' b' ws"
  have ih: "admitted limits a b rs (snd ?r) \<le> budget (limits b) t (js_get (snd ?r) (window_key a b))"
    using Cons by simp
  show ?case
  proof (cases "a' = a \<and> b' = b")
    case True
    with ih check_rate_budget [where limits = limits and b = b and t = t and now = now and a = a and ws = ws]
      assms(1) Cons.prems [of now] show ?thesis
      by (simp add: q case_prod_beta)
  next
    case False
    then have "admitted limits a b (q # rs) ws = admitted limits a b rs (snd ?r)"
      by (cases "a' = a"; simp add: q case_prod_beta)
    with ih check_rate_other [OF False] show ?thesis by simp
  qed
qed simp

text \<open>C11: whatever the limiter has seen before and whatever other actors do, the requests of one actor
  in one bucket that are let through within any stretch of time as long as the window are at most
  twice the declared maximum.\<close>

theorem rate_limit_bound:
  assumes "1 \<le> maxRequests (limits b)"
    and "\<And>now. (a, b, now) \<in> set reqs \<Longrightarrow> t \<le> date_parse now \<and> date_parse now < t + windowMs (limits b)"
  shows "admitted limits a b reqs ws \<le> 2 * maxRequests (limits b)"
proof -
  have "budget (limits b) t (js_get ws (window_key a b)) \<le> 2 * maxRequests (limits b)"
    by (cases "js_get ws (window_key a b)") (auto simp: budget_def)
  then show ?thesis using admitted_budget [where limits = limits, OF assms] order_trans by blast
qed

theorem rate_limit_bound_witness:
  "admitted POC_RATE_LIMITS ''act-1'' AUTH_BUCKET (replicate 12 (''act-1'', AUTH_BUCKET, Instant 0 [])) [] = 10
   \<and> admitted POC_RATE_LIMITS ''act-1'' AUTH_BUCKET (replicate 12 (''act-1'', AUTH_BUCKET, Instant 0 [])) [] \<le> 20"
proof
  show "admitted POC_RATE_LIMITS ''act-1'' AUTH_BUCKET (replicate 12 (''act-1'', AUTH_BUCKET, Instant 0 [])) [] = 10"
    by code_simp
  have "admitted POC_RATE_LIMITS ''act-1'' AUTH_BUCKET (replicate 12 (''act-1'', AUTH_BUCKET, Instant 0 [])) []
      \<le> 2 * maxRequests (POC_RATE_LIMITS AUTH_BUCKET)"
    by (rule rate_limit_bound [where t = 0]) (auto simp: date_parse_def frac_ms_def)
  then show "admitted POC_RATE_LIMITS ''act-1'' AUTH_BUCKET (replicate 12 (''act-1'', AUTH_BUCKET, Instant 0 [])) [] \<le> 20"
    by simp
qed

text \<open>C12: a refusal is temporary and says how long. The wait it asks for is positive and, with a clock
  that does not run backwards, at most a window; a request made once it is over is let through.\<close>

theorem refusal_is_temporary:
  assumes "check_rate limits now a b ws = (Inl wait, ws')"
    and "date_parse later = date_parse now + wait + extra" "0 \<le> extra"
  shows "0 < wait \<and> ws' = ws \<and> fst (check_rate limits later a b ws') = Inr ()
    \<and> (case js_get ws (window_key a b) of None \<Rightarrow> False
       | Some (start, _) \<Rightarrow> date_parse start + windowMs (limits b) = date_parse now + wait)"
  using assms by (auto simp: check_rate_def Let_def msBetween_def split: option.splits if_splits)

theorem refusal_is_temporary_witness:
  "fst (check_rate POC_RATE_LIMITS (Instant 60 []) ''act-1'' AUTH_BUCKET [(''act-1:auth'', (Instant 1 [], 10))]) = Inl 1000
   \<and> fst (check_rate POC_RATE_LIMITS (Instant 61 []) ''act-1'' AUTH_BUCKET [(''act-1:auth'', (Instant 1 [], 10))]) = Inr ()"
proof -
  have c: "check_rate POC_RATE_LIMITS (Instant 60 []) ''act-1'' AUTH_BUCKET [(''act-1:auth'', (Instant 1 [], 10))]
      = (Inl 1000, [(''act-1:auth'', (Instant 1 [], 10))])" by code_simp
  have "date_parse (Instant 61 []) = date_parse (Instant 60 []) + 1000 + 0" by code_simp
  from refusal_is_temporary [OF c this] c show ?thesis by simp
qed

end
