(* ===== verification/Enforcement.thy ===== *)
theory Enforcement
  imports Field_Policy Api
begin

text \<open>
  The enforcement point (\<open>src/app/authorization/enforcement.ts\<close>): session, capability, scope, object, audit,
  in that order, over the state a request can touch. An operation returns what it throws or gives,
  and the state it leaves; \<open>clock i\<close> is the reading of the clock at the i-th place the request reads
  it. Telemetry spans and counters have no effect on any of this and are left out.
\<close>

section \<open>State and effects\<close>

text \<open>\<open>w_data\<close> is whatever the use cases keep, a parameter.\<close>

record 'd world =
  w_sessions :: session_store
  w_windows :: windows
  w_log :: audit_log
  w_data :: 'd

text \<open>What a request can throw; \<open>Other\<close> is whatever a use case throws beyond these.\<close>

datatype 'e thrown =
    RateLimitExceeded int
  | RequestInvalid "string list"
  | AuthorizationDenied string
  | AuditFailed string
  | PolicyTypeError
  | ShapeThrown shape_error
  | Other 'e

type_synonym ('e, 'a, 'd) effect = "('e thrown + 'a) \<times> 'd world"

definition and_do :: "('e, 'a, 'd) effect \<Rightarrow> ('a \<Rightarrow> 'd world \<Rightarrow> ('e, 'b, 'd) effect) \<Rightarrow> ('e, 'b, 'd) effect" where
  "and_do r f = (case r of (Inl x, w) \<Rightarrow> (Inl x, w) | (Inr a, w) \<Rightarrow> f a w)"

lemma and_do_simps [simp]: "and_do (Inl x, w) f = (Inl x, w)" "and_do (Inr a, w) f = f a w"
  by (simp_all add: and_do_def)

section \<open>Requests\<close>

record request_context =
  rc_auth :: auth_context
  rc_placements :: "entity_placement list"
  rc_sourceIp :: string
  rc_userAgent :: string

record capability_declaration =
  cd_capability :: capability
  cd_readsClassifications :: "field_classification list"
  cd_auditReads :: bool
  cd_isWrite :: bool

record authorise_request =
  aq_declaration :: capability_declaration
  aq_entity :: "string option"
  aq_type :: string

record authorised_request =
  az_auth :: auth_context
  az_capability :: capability
  az_entitySet :: entity_set
  az_correlationId :: string

definition permits :: "authorised_request \<Rightarrow> string \<Rightarrow> bool" where
  "permits a projectId \<longleftrightarrow> projectId \<in> set (es_projectIds (az_entitySet a))"

fun sessionReason :: "session_rejection \<Rightarrow> string" where
  "sessionReason NOT_FOUND = ''session not found''"
| "sessionReason REVOKED = ''session was revoked (logout, or a role/scope change)''"
| "sessionReason ABSOLUTE_EXPIRY = ''session passed its absolute 8h lifetime''"
| "sessionReason IDLE_EXPIRY = ''session passed its 30m idle window''"

section \<open>The audit record of a decision\<close>

definition write_audit :: "js_lib \<Rightarrow> audit_entry \<Rightarrow> 'd world \<Rightarrow> ('e, unit, 'd) effect" where
  "write_audit lib e w =
     (case record_entry lib e (w_log w) of
        Inl (AuditWriteFailed why) \<Rightarrow> (Inl (AuditFailed why), w)
      | Inr st \<Rightarrow> (Inr (), w\<lparr>w_log := st\<rparr>))"

definition decision_entry :: "request_context \<Rightarrow> instant \<Rightarrow> authorise_request \<Rightarrow> verdict \<Rightarrow> string option
    \<Rightarrow> field_classification list \<Rightarrow> audit_entry" where
  "decision_entry ctx now request verdict reason classifications =
     \<lparr>ae_occurredAt = now,
      ae_actorId = au_actorId (rc_auth ctx),
      ae_actorRole = au_role (rc_auth ctx),
      ae_impersonatorId = au_impersonatorId (rc_auth ctx),
      ae_action = (if cd_isWrite (aq_declaration request) then WRITE else READ),
      ae_entityType = aq_type request,
      ae_entityId = nullish (aq_entity request) ''*'',
      ae_fields = map classification_text classifications,
      ae_decision = verdict,
      ae_reason = reason,
      ae_correlationId = au_correlationId (rc_auth ctx),
      ae_ruleVersion = None,
      ae_sourceIp = rc_sourceIp ctx,
      ae_userAgent = rc_userAgent ctx\<rparr>"

record write_record =
  wr_entityId :: string
  wr_action :: audit_action
  wr_reason :: string
  wr_changedFields :: "string list"
  wr_beforeHash :: "string option"
  wr_afterHash :: string

definition recordWrite :: "js_lib \<Rightarrow> request_context \<Rightarrow> instant \<Rightarrow> string \<Rightarrow> write_record \<Rightarrow> 'd world \<Rightarrow> ('e, unit, 'd) effect" where
  "recordWrite lib ctx now entityType args w =
     write_audit lib
       \<lparr>ae_occurredAt = now,
        ae_actorId = au_actorId (rc_auth ctx),
        ae_actorRole = au_role (rc_auth ctx),
        ae_impersonatorId = au_impersonatorId (rc_auth ctx),
        ae_action = wr_action args,
        ae_entityType = entityType,
        ae_entityId = wr_entityId args,
        ae_fields = wr_changedFields args,
        ae_decision = GRANTED,
        ae_reason = Some (wr_reason args @ '' | before='' @ nullish (wr_beforeHash args) ''none'' @ '' after='' @ wr_afterHash args),
        ae_correlationId = au_correlationId (rc_auth ctx),
        ae_ruleVersion = None,
        ae_sourceIp = rc_sourceIp ctx,
        ae_userAgent = rc_userAgent ctx\<rparr> w"

section \<open>Authorisation\<close>

definition deny :: "js_lib \<Rightarrow> request_context \<Rightarrow> instant \<Rightarrow> authorise_request \<Rightarrow> string \<Rightarrow> 'd world \<Rightarrow> ('e, 'a, 'd) effect" where
  "deny lib ctx now request reason w =
     and_do (write_audit lib (decision_entry ctx now request DENIED (Some reason) []) w)
       (\<lambda>_ w'. (Inl (AuthorizationDenied reason), w'))"

definition outside_reason :: "authorise_request \<Rightarrow> string \<Rightarrow> entity_set \<Rightarrow> string" where
  "outside_reason request entityId entitySet =
     ''entity '' @ aq_type request @ '':'' @ entityId @ '' is outside the caller's authorised set ''
     @ ''('' @ show_nat (length (es_projectIds entitySet)) @ '' entities resolved from ''
     @ show_nat (length (es_resolvedFrom entitySet)) @ '' scope nodes)''"

definition authorise :: "js_lib \<Rightarrow> security_policy \<Rightarrow> (nat \<Rightarrow> instant) \<Rightarrow> request_context \<Rightarrow> authorise_request
    \<Rightarrow> 'd world \<Rightarrow> ('e, authorised_request, 'd) effect" where
  "authorise lib policy clock ctx request w =
     (let auth = rc_auth ctx;
          declaration = aq_declaration request;
          (session, sessions) = validate policy (clock 1) (au_sessionId auth) (w_sessions w);
          w = w\<lparr>w_sessions := sessions\<rparr>
      in case session of
           Inl why \<Rightarrow> deny lib ctx (clock 2) request (sessionReason why) w
         | Inr session \<Rightarrow>
             if sr_actorId session \<noteq> au_actorId auth
             then deny lib ctx (clock 2) request ''session actor does not match the request context actor'' w
             else (case may auth (cd_capability declaration) of
                 Inl TypeError \<Rightarrow> (Inl PolicyTypeError, w)
               | Inr (DENY reason) \<Rightarrow> deny lib ctx (clock 2) request reason w
               | Inr GRANT \<Rightarrow>
                   let entitySet = resolveScope (rc_placements ctx) auth;
                       authorised = \<lparr>az_auth = auth, az_capability = cd_capability declaration, az_entitySet = entitySet,
                                     az_correlationId = au_correlationId auth\<rparr>;
                       finish = (if cd_auditReads declaration \<or> cd_isWrite declaration
                                 then and_do (write_audit lib (decision_entry ctx (clock 2) request GRANTED None
                                               (cd_readsClassifications declaration)) w)
                                        (\<lambda>_ w'. (Inr authorised, w'))
                                 else (Inr authorised, w))
                   in (case aq_entity request of
                         None \<Rightarrow> finish
                       | Some entityId \<Rightarrow>
                           if entityId \<notin> set (es_projectIds entitySet)
                           then deny lib ctx (clock 2) request (outside_reason request entityId entitySet) w
                           else finish)))"

section \<open>Who is let through\<close>

definition entitled :: "security_policy \<Rightarrow> (nat \<Rightarrow> instant) \<Rightarrow> request_context \<Rightarrow> authorise_request \<Rightarrow> 'd world \<Rightarrow> bool" where
  "entitled policy clock ctx request w \<longleftrightarrow>
     (case fst (validate policy (clock 1) (au_sessionId (rc_auth ctx)) (w_sessions w)) of
        Inl _ \<Rightarrow> False | Inr s \<Rightarrow> sr_actorId s = au_actorId (rc_auth ctx))
     \<and> may (rc_auth ctx) (cd_capability (aq_declaration request)) = Inr GRANT
     \<and> (case aq_entity request of None \<Rightarrow> True
        | Some i \<Rightarrow> i \<in> set (es_projectIds (resolveScope (rc_placements ctx) (rc_auth ctx))))"

definition proof_of :: "request_context \<Rightarrow> authorise_request \<Rightarrow> authorised_request" where
  "proof_of ctx request =
     \<lparr>az_auth = rc_auth ctx, az_capability = cd_capability (aq_declaration request),
      az_entitySet = resolveScope (rc_placements ctx) (rc_auth ctx), az_correlationId = au_correlationId (rc_auth ctx)\<rparr>"

definition after_validate :: "security_policy \<Rightarrow> (nat \<Rightarrow> instant) \<Rightarrow> request_context \<Rightarrow> 'd world \<Rightarrow> 'd world" where
  "after_validate policy clock ctx w =
     w\<lparr>w_sessions := snd (validate policy (clock 1) (au_sessionId (rc_auth ctx)) (w_sessions w))\<rparr>"

lemma write_audit_Inr:
  "write_audit lib e w = (Inr u, w') \<longleftrightarrow> (\<exists>st. record_entry lib e (w_log w) = Inr st \<and> w' = w\<lparr>w_log := st\<rparr>)"
  by (auto simp: write_audit_def split: sum.splits audit_failure.splits)

lemma deny_outcome:
  "deny lib ctx now request reason w =
     (case record_entry lib (decision_entry ctx now request DENIED (Some reason) []) (w_log w) of
        Inl (AuditWriteFailed why) \<Rightarrow> (Inl (AuditFailed why), w)
      | Inr st \<Rightarrow> (Inl (AuthorizationDenied reason), w\<lparr>w_log := st\<rparr>))"
  by (auto simp: deny_def write_audit_def split: sum.split audit_failure.split)

lemma deny_not_Inr: "deny lib ctx now request reason w \<noteq> (Inr a, w')"
  by (auto simp: deny_outcome split: sum.splits audit_failure.splits)

lemma authorise_entitled:
  "entitled policy clock ctx request w \<Longrightarrow> authorise lib policy clock ctx request w =
     (if cd_auditReads (aq_declaration request) \<or> cd_isWrite (aq_declaration request)
      then and_do (write_audit lib (decision_entry ctx (clock 2) request GRANTED None
             (cd_readsClassifications (aq_declaration request))) (after_validate policy clock ctx w))
             (\<lambda>_ w'. (Inr (proof_of ctx request), w'))
      else (Inr (proof_of ctx request), after_validate policy clock ctx w))"
  by (simp add: authorise_def entitled_def proof_of_def after_validate_def Let_def case_prod_beta split: sum.splits option.splits)

lemma authorise_refused:
  "\<not> entitled policy clock ctx request w \<Longrightarrow> authorise lib policy clock ctx request w = (out, w') \<Longrightarrow>
    (\<exists>reason. deny lib ctx (clock 2) request reason (after_validate policy clock ctx w) = (out, w'))
    \<or> may (rc_auth ctx) (cd_capability (aq_declaration request)) = Inl TypeError
      \<and> out = Inl PolicyTypeError \<and> w' = after_validate policy clock ctx w"
  by (auto simp: authorise_def entitled_def after_validate_def Let_def case_prod_beta
      split: sum.splits option.splits decision.splits type_error.splits if_splits)

text \<open>Authorisation succeeds exactly for the entitled, with the audit record written where one is due.\<close>

lemma authorise_Inr:
  "authorise lib policy clock ctx request w = (Inr a, w') \<longleftrightarrow>
     entitled policy clock ctx request w \<and> a = proof_of ctx request
     \<and> (if cd_auditReads (aq_declaration request) \<or> cd_isWrite (aq_declaration request)
        then \<exists>st. record_entry lib (decision_entry ctx (clock 2) request GRANTED None
               (cd_readsClassifications (aq_declaration request))) (w_log w) = Inr st
             \<and> w' = (after_validate policy clock ctx w)\<lparr>w_log := st\<rparr>
        else w' = after_validate policy clock ctx w)"
proof (cases "entitled policy clock ctx request w")
  case True
  have "w_log (after_validate policy clock ctx w) = w_log w" by (simp add: after_validate_def)
  then show ?thesis
    using True
    by (auto simp: authorise_entitled and_do_def write_audit_def split: sum.splits audit_failure.splits)
next
  case False
  then have "authorise lib policy clock ctx request w \<noteq> (Inr a, w')"
    by (metis authorise_refused deny_not_Inr sum.distinct(1))
  with False show ?thesis by simp
qed

end
