(* ===== verification/Dispatcher.thy ===== *)
theory Dispatcher
  imports Enforcement
begin

text \<open>
  The request pipeline (\<open>src/app/api/dispatcher.ts\<close>): route, rate limit, validation, authorisation, use
  case, shaping, audit, in that order and with no way around it. The use cases are a parameter: a
  handler is given the proof of authorisation, the validated input, the request context, the clock
  and the state, and returns rows or throws. \<open>clock 0\<close> is the limiter's reading, 1 and 2 those of the
  enforcement point, 3 that of the final audit record.
\<close>

section \<open>Requests, handlers, responses\<close>

record api_request =
  ap_method :: http_method
  ap_path :: string
  ap_query :: "(string \<times> json) list"
  ap_body :: "json option"

record handler_input =
  hd_authorised :: authorised_request
  hd_entityId :: "string option"
  hd_page :: page_request
  hd_body :: "(string \<times> json) list option"

record handler_result =
  hr_rows :: "(string \<times> json) list list"
  hr_classifications :: classification_map
  hr_resourceName :: string
  hr_total :: "nat option"
  hr_write :: "write_record option"

type_synonym ('e, 'd) handler =
  "handler_input \<Rightarrow> request_context \<Rightarrow> (nat \<Rightarrow> instant) \<Rightarrow> 'd world \<Rightarrow> ('e, handler_result, 'd) effect"

type_synonym ('e, 'd) handlers = "http_method \<Rightarrow> string \<Rightarrow> ('e, 'd) handler option"

datatype response_body =
    NotFound
  | RateLimited
  | InvalidRequest
  | Data "(string \<times> json) list list" page_request "nat option" string

record api_response =
  rs_status :: nat
  rs_body :: response_body
  rs_headers :: "(string \<times> string) list"

definition not_found :: "(string \<times> string) list \<Rightarrow> api_response" where
  "not_found headers = \<lparr>rs_status = 404, rs_body = NotFound, rs_headers = headers\<rparr>"

definition bucketFor :: "route \<Rightarrow> bucket" where
  "bucketFor r = (if rt_isWrite r then WRITE_BUCKET else READ_BUCKET)"

definition allowedBodyFields :: "route \<Rightarrow> string list" where
  "allowedBodyFields r =
     (if rt_path r = ''/v1/projects/:id/rag-override'' then [''rag'', ''reason'', ''expiresAt'']
      else if rt_path r = ''/v1/projects/:id/etc'' then [''amount'', ''currency'', ''basisOfEstimate'']
      else [])"

section \<open>The steps\<close>

definition limit_step :: "request_context \<Rightarrow> instant \<Rightarrow> route \<Rightarrow> 'd world \<Rightarrow> ('e, unit, 'd) effect" where
  "limit_step ctx now r w =
     (case check_rate POC_RATE_LIMITS now (au_actorId (rc_auth ctx)) (bucketFor r) (w_windows w) of
        (Inl retryAfter, ws) \<Rightarrow> (Inl (RateLimitExceeded retryAfter), w\<lparr>w_windows := ws\<rparr>)
      | (Inr u, ws) \<Rightarrow> (Inr u, w\<lparr>w_windows := ws\<rparr>))"

record validated =
  va_entityId :: "string option"
  va_page :: page_request
  va_body :: "(string \<times> json) list option"

definition validate_request :: "route \<Rightarrow> api_request \<Rightarrow> validation_error + validated" where
  "validate_request r request =
     and_then (case pathParam (rt_path r) (ap_path request) ''id'' of
                 None \<Rightarrow> Inr None
               | Some rawId \<Rightarrow> and_then (valid_identifier ''id'' (JStr rawId)) (\<lambda>i. Inr (Some i)))
       (\<lambda>entityId. and_then (pageRequest (ap_query request) (nullish (rt_maxPageSize r) DEFAULT_PAGE_SIZE) DEFAULT_PAGE_SIZE)
       (\<lambda>page. and_then (case ap_body request of
                            None \<Rightarrow> Inr None
                          | Some b \<Rightarrow> and_then (rejectUnknownFields b (allowedBodyFields r)) (\<lambda>fs. Inr (Some fs)))
       (\<lambda>body. Inr \<lparr>va_entityId = entityId, va_page = page, va_body = body\<rparr>)))"

definition authorise_route :: "route \<Rightarrow> string option \<Rightarrow> authorise_request" where
  "authorise_route r entityId =
     \<lparr>aq_declaration = \<lparr>cd_capability = rt_capability r, cd_readsClassifications = rt_readsClassifications r,
                        cd_auditReads = rt_auditReads r, cd_isWrite = rt_isWrite r\<rparr>,
      aq_entity = entityId, aq_type = rt_entityType r\<rparr>"

definition shape_rows :: "request_context \<Rightarrow> handler_result \<Rightarrow> shape_error + shape_result list" where
  "shape_rows ctx result =
     try_map (\<lambda>row. shape (hr_resourceName result) row (hr_classifications result) (rc_auth ctx)) (hr_rows result)"

definition records_returned :: "nat \<Rightarrow> string" where
  "records_returned n = show_nat n @ '' record'' @ (if n = 1 then [] else ''s'') @ '' returned''"

definition recordFieldLevelRead :: "js_lib \<Rightarrow> request_context \<Rightarrow> instant \<Rightarrow> route \<Rightarrow> string option \<Rightarrow> shape_result list
    \<Rightarrow> 'd world \<Rightarrow> ('e, unit, 'd) effect" where
  "recordFieldLevelRead lib ctx now r entityId shaped w =
     (let fields = sort_strings (remdups (concat (map sh_sensitiveFieldsRead shaped)));
          telemetry = sort_strings (remdups (concat (map sh_securityTelemetryRead shaped)))
      in if length fields = 0 then (Inr (), w)
         else write_audit lib
           \<lparr>ae_occurredAt = now,
            ae_actorId = au_actorId (rc_auth ctx),
            ae_actorRole = au_role (rc_auth ctx),
            ae_impersonatorId = au_impersonatorId (rc_auth ctx),
            ae_action = READ,
            ae_entityType = rt_entityType r,
            ae_entityId = nullish entityId ''*'',
            ae_fields = fields,
            ae_decision = GRANTED,
            ae_reason = Some (if length telemetry = 0 then records_returned (length shaped)
                              else records_returned (length shaped) @ '' | securityTelemetry='' @ join_with '','' telemetry),
            ae_correlationId = au_correlationId (rc_auth ctx),
            ae_ruleVersion = None,
            ae_sourceIp = rc_sourceIp ctx,
            ae_userAgent = rc_userAgent ctx\<rparr> w)"

text \<open>The last audit record: of the write the use case made, or of the fields that were read.\<close>

definition final_audit :: "js_lib \<Rightarrow> request_context \<Rightarrow> instant \<Rightarrow> route \<Rightarrow> validated \<Rightarrow> handler_result \<Rightarrow> shape_result list
    \<Rightarrow> 'd world \<Rightarrow> ('e, unit, 'd) effect" where
  "final_audit lib ctx now r v result shaped w =
     (case hr_write result of
        Some args \<Rightarrow> recordWrite lib ctx now (rt_entityType r) args w
      | None \<Rightarrow> if rt_auditReads r then recordFieldLevelRead lib ctx now r (va_entityId v) shaped w else (Inr (), w))"

text \<open>Steps 5 to 7, for a request that has been authorised; a route without a handler is not found.\<close>

definition serve :: "js_lib \<Rightarrow> (nat \<Rightarrow> instant) \<Rightarrow> (string \<times> string) list \<Rightarrow> ('e, 'd) handlers \<Rightarrow> request_context \<Rightarrow> route
    \<Rightarrow> validated \<Rightarrow> authorised_request \<Rightarrow> 'd world \<Rightarrow> ('e, api_response, 'd) effect" where
  "serve lib clock headers handlers ctx r v authorised w =
     (case handlers (rt_method r) (rt_path r) of
        None \<Rightarrow> (Inr (not_found headers), w)
      | Some handler \<Rightarrow>
          and_do (handler \<lparr>hd_authorised = authorised, hd_entityId = va_entityId v, hd_page = va_page v, hd_body = va_body v\<rparr>
                   ctx clock w)
            (\<lambda>result w.
              case shape_rows ctx result of
                Inl e \<Rightarrow> (Inl (ShapeThrown e), w)
              | Inr shaped \<Rightarrow>
                  and_do (final_audit lib ctx (clock 3) r v result shaped w)
                    (\<lambda>_ w. (Inr \<lparr>rs_status = 200,
                                 rs_body = Data (map sh_payload shaped) (va_page v) (hr_total result) ''DEMO -- SYNTHETIC DATA'',
                                 rs_headers = headers\<rparr>, w))))"

definition pipeline :: "js_lib \<Rightarrow> security_policy \<Rightarrow> (nat \<Rightarrow> instant) \<Rightarrow> (string \<times> string) list \<Rightarrow> ('e, 'd) handlers
    \<Rightarrow> request_context \<Rightarrow> route \<Rightarrow> api_request \<Rightarrow> 'd world \<Rightarrow> ('e, api_response, 'd) effect" where
  "pipeline lib policy clock headers handlers ctx r request w =
     and_do (limit_step ctx (clock 0) r w)
       (\<lambda>_ w. case validate_request r request of
          Inl (ValidationError issues) \<Rightarrow> (Inl (RequestInvalid issues), w)
        | Inr v \<Rightarrow>
            and_do (authorise lib policy clock ctx (authorise_route r (va_entityId v)) w)
              (\<lambda>authorised w. serve lib clock headers handlers ctx r v authorised w))"

text \<open>What is thrown becomes a response, or is thrown on.\<close>

definition catch_thrown :: "(string \<times> string) list \<Rightarrow> 'e thrown + api_response \<Rightarrow> 'e thrown + api_response" where
  "catch_thrown headers outcome =
     (case outcome of
        Inl (RateLimitExceeded retryAfter) \<Rightarrow>
          Inr \<lparr>rs_status = 429, rs_body = RateLimited,
               rs_headers = headers @ [(''Retry-After'', show_int ((retryAfter + 999) div 1000))]\<rparr>
      | Inl (RequestInvalid issues) \<Rightarrow> Inr \<lparr>rs_status = 400, rs_body = InvalidRequest, rs_headers = headers\<rparr>
      | Inl (AuthorizationDenied reason) \<Rightarrow> Inr (not_found headers)
      | other \<Rightarrow> other)"

definition dispatch :: "js_lib \<Rightarrow> security_policy \<Rightarrow> (nat \<Rightarrow> instant) \<Rightarrow> (string \<times> string) list \<Rightarrow> ('e, 'd) handlers
    \<Rightarrow> api_request \<Rightarrow> request_context \<Rightarrow> 'd world \<Rightarrow> ('e, api_response, 'd) effect" where
  "dispatch lib policy clock headers handlers request ctx w =
     (case findRoute (ap_method request) (ap_path request) of
        None \<Rightarrow> (Inr (not_found headers), w)
      | Some r \<Rightarrow>
          let (outcome, w') = pipeline lib policy clock headers handlers ctx r request w
          in (catch_thrown headers outcome, w'))"

section \<open>Routes\<close>

lemma route_declared:
  assumes "findRoute m path = Some r"
  shows "rt_capability r \<in> set ALL_CAPABILITIES \<and> rt_entityType r \<noteq> []"
proof -
  have "list_all (\<lambda>r. rt_capability r \<in> set ALL_CAPABILITIES \<and> rt_entityType r \<noteq> []) ROUTES"
    by (simp add: ROUTES_def ALL_CAPABILITIES_def)
  moreover have "r \<in> set ROUTES" using assms by (auto simp: findRoute_def find_Some_iff)
  ultimately show ?thesis by (simp add: list_all_iff)
qed

lemma route_capability_decided:
  assumes "findRoute m path = Some r"
  shows "may auth (rt_capability r) \<noteq> Inl e"
proof -
  have "rt_capability r \<in> fst ` set CAPABILITY_MATRIX"
    using route_declared [OF assms] matrix_keys by (metis list.set_map)
  then show ?thesis by (auto simp: may_def map_of_eq_None_iff split: option.splits)
qed

section \<open>A refused request\<close>

lemma limit_step_log: "limit_step ctx now r w = (out, w') \<Longrightarrow>
    w_log w' = w_log w \<and> w_data w' = w_data w \<and> w_sessions w' = w_sessions w"
  by (auto simp: limit_step_def split: prod.splits sum.splits)

lemma limit_step_allowed:
  assumes "fst (check_rate POC_RATE_LIMITS now (au_actorId (rc_auth ctx)) (bucketFor r) (w_windows w)) = Inr ()"
  shows "limit_step ctx now r w =
    (Inr (), w\<lparr>w_windows := snd (check_rate POC_RATE_LIMITS now (au_actorId (rc_auth ctx)) (bucketFor r) (w_windows w))\<rparr>)"
  using assms by (cases "check_rate POC_RATE_LIMITS now (au_actorId (rc_auth ctx)) (bucketFor r) (w_windows w)")
    (simp add: limit_step_def)

lemma entitled_windows [simp]: "entitled policy clock ctx request (w\<lparr>w_windows := ws\<rparr>) = entitled policy clock ctx request w"
  by (simp add: entitled_def)

text \<open>C13: a denial reveals nothing. While the log is not sealed, a request of a known route by a named
  actor, well formed and within its rate, whose caller has no valid session of his own, lacks the
  capability, or names an entity outside his scope, is answered exactly as an unmapped path is,
  whatever the use cases are and whatever the cause; the application's data is untouched and one
  record of the denial is appended to the log.\<close>

theorem denied_requests_reveal_nothing:
  fixes handlers :: "('e, 'd) handlers"
  assumes "findRoute (ap_method request) (ap_path request) = Some r"
    and "validate_request r request = Inr v"
    and "fst (check_rate POC_RATE_LIMITS (clock 0) (au_actorId (rc_auth ctx)) (bucketFor r) (w_windows w)) = Inr ()"
    and "\<not> entitled policy clock ctx (authorise_route r (va_entityId v)) w"
    and "\<not> al_sealed (w_log w)" "au_actorId (rc_auth ctx) \<noteq> []"
    and "findRoute (ap_method unmapped) (ap_path unmapped) = None"
  shows "fst (dispatch lib policy clock headers handlers request ctx w)
      = fst (dispatch lib policy clock headers handlers unmapped ctx w)
    \<and> w_data (snd (dispatch lib policy clock headers handlers request ctx w)) = w_data w
    \<and> (\<exists>rec. al_records (w_log (snd (dispatch lib policy clock headers handlers request ctx w))) = al_records (w_log w) @ [rec]
         \<and> ae_decision (ar_entry rec) = DENIED \<and> ae_actorId (ar_entry rec) = au_actorId (rc_auth ctx)
         \<and> ae_entityType (ar_entry rec) = rt_entityType r)"
proof -
  define w1 where "w1 = w\<lparr>w_windows := snd (check_rate POC_RATE_LIMITS (clock 0) (au_actorId (rc_auth ctx)) (bucketFor r) (w_windows w))\<rparr>"
  note w1 = limit_step_allowed [OF assms(3), folded w1_def]
  have deny1: "\<not> entitled policy clock ctx (authorise_route r (va_entityId v)) w1"
    using assms(4) by (simp add: w1_def)
  have "\<exists>reason. (deny lib ctx (clock 2) (authorise_route r (va_entityId v)) reason (after_validate policy clock ctx w1)
        :: ('e, authorised_request, 'd) effect)
      = authorise lib policy clock ctx (authorise_route r (va_entityId v)) w1"
    using authorise_refused [OF deny1, where lib = lib] route_capability_decided [OF assms(1)]
    by (metis authorise_route_def authorise_request.select_convs(1) capability_declaration.select_convs(1) prod.exhaust_sel)
  then obtain reason where a: "(authorise lib policy clock ctx (authorise_route r (va_entityId v)) w1
        :: ('e, authorised_request, 'd) effect)
      = deny lib ctx (clock 2) (authorise_route r (va_entityId v)) reason (after_validate policy clock ctx w1)"
    by metis
  have lg: "w_log (after_validate policy clock ctx w1) = w_log w" "w_data (after_validate policy clock ctx w1) = w_data w"
    by (simp_all add: w1_def after_validate_def)
  let ?e = "decision_entry ctx (clock 2) (authorise_route r (va_entityId v)) DENIED (Some reason) []"
  have "record_entry lib ?e (w_log w) = Inr ((w_log w)\<lparr>al_records := al_records (w_log w)
      @ [\<lparr>ar_entry = ?e, ar_id = record_id lib (length (al_records (w_log w))) ?e\<rparr>]\<rparr>)"
    using assms(5,6) route_declared [OF assms(1)] by (simp add: record_entry_def decision_entry_def authorise_route_def)
  then have "(authorise lib policy clock ctx (authorise_route r (va_entityId v)) w1 :: ('e, authorised_request, 'd) effect) =
      (Inl (AuthorizationDenied reason), (after_validate policy clock ctx w1)\<lparr>w_log := (w_log w)\<lparr>al_records := al_records (w_log w)
      @ [\<lparr>ar_entry = ?e, ar_id = record_id lib (length (al_records (w_log w))) ?e\<rparr>]\<rparr>\<rparr>)"
    by (simp add: a deny_outcome lg)
  then have "dispatch lib policy clock headers handlers request ctx w =
      (Inr (not_found headers), (after_validate policy clock ctx w1)\<lparr>w_log := (w_log w)\<lparr>al_records := al_records (w_log w)
      @ [\<lparr>ar_entry = ?e, ar_id = record_id lib (length (al_records (w_log w))) ?e\<rparr>]\<rparr>\<rparr>)"
    by (simp add: dispatch_def pipeline_def catch_thrown_def assms(1,2) w1)
  then show ?thesis
    by (simp add: dispatch_def [where request = unmapped] assms(7) lg decision_entry_def authorise_route_def)
qed

text \<open>The same for a caller with no session at all, on the economics of a project.\<close>

definition sample_request :: "string \<Rightarrow> api_request" where
  "sample_request path = \<lparr>ap_method = HGET, ap_path = path, ap_query = [], ap_body = None\<rparr>"

definition sample_context :: "role \<Rightarrow> request_context" where
  "sample_context r = \<lparr>rc_auth = sample_ctx r, rc_placements = [], rc_sourceIp = ''10.0.0.1'', rc_userAgent = ''ua''\<rparr>"

definition sample_world :: "session_store \<Rightarrow> unit world" where
  "sample_world st = \<lparr>w_sessions = st, w_windows = [], w_log = empty_log, w_data = ()\<rparr>"

definition no_handlers :: "(unit, unit) handlers" where
  "no_handlers = (\<lambda>_ _. None)"

theorem denied_requests_reveal_nothing_witness:
  "fst (dispatch sample_lib POC_SECURITY_POLICY (\<lambda>_. day_start) SECURITY_HEADERS no_handlers
        (sample_request ''/v1/projects/prj-001/economics'') (sample_context DELIVERY_MANAGER) (sample_world no_sessions))
    = Inr (not_found SECURITY_HEADERS)"
proof -
  let ?req = "sample_request ''/v1/projects/prj-001/economics''"
  let ?w = "sample_world no_sessions"
  define r where "r = findRoute (ap_method ?req) (ap_path ?req)"
  have r: "case r of Some x \<Rightarrow> validate_request x ?req = Inr \<lparr>va_entityId = Some ''prj-001'',
      va_page = \<lparr>pg_limit = 25, pg_offset = 0\<rparr>, va_body = None\<rparr> | None \<Rightarrow> False"
    unfolding r_def by code_simp
  then obtain x where x: "findRoute (ap_method ?req) (ap_path ?req) = Some x"
    "validate_request x ?req = Inr \<lparr>va_entityId = Some ''prj-001'', va_page = \<lparr>pg_limit = 25, pg_offset = 0\<rparr>, va_body = None\<rparr>"
    by (auto simp: r_def split: option.splits)
  have "fst (check_rate POC_RATE_LIMITS day_start (au_actorId (rc_auth (sample_context DELIVERY_MANAGER))) (bucketFor x) (w_windows ?w)) = Inr ()"
    by (simp add: check_rate_def sample_world_def js_get_def Let_def)
  moreover have "\<not> entitled POC_SECURITY_POLICY (\<lambda>_. day_start) (sample_context DELIVERY_MANAGER) (authorise_route x (Some ''prj-001'')) ?w"
    by (simp add: entitled_def sample_world_def validate_def no_sessions_def js_get_def)
  moreover have "\<not> al_sealed (w_log ?w)" "au_actorId (rc_auth (sample_context DELIVERY_MANAGER)) \<noteq> []"
    by (simp_all add: sample_world_def empty_log_def sample_context_def sample_ctx_def)
  moreover have u: "findRoute (ap_method (sample_request ''/v2'')) (ap_path (sample_request ''/v2'')) = None" by code_simp
  ultimately show ?thesis
    using denied_requests_reveal_nothing [OF x, of "\<lambda>_. day_start" "sample_context DELIVERY_MANAGER" ?w POC_SECURITY_POLICY
        "sample_request ''/v2''" sample_lib SECURITY_HEADERS no_handlers]
    by (simp add: dispatch_def [where request = "sample_request ''/v2''"])
qed

section \<open>A served request\<close>

lemma and_do_Inr: "and_do x f = (Inr b, w') \<longleftrightarrow> (\<exists>a w. x = (Inr a, w) \<and> f a w = (Inr b, w'))"
  by (auto simp: and_do_def split: prod.splits sum.splits)

lemma serve_200:
  fixes handlers :: "('e, 'd) handlers"
  assumes "serve lib clock headers handlers ctx r v authorised w = (Inr resp, w')" "rs_status resp = 200"
  shows "\<exists>h result w2 shaped. handlers (rt_method r) (rt_path r) = Some h
    \<and> h \<lparr>hd_authorised = authorised, hd_entityId = va_entityId v, hd_page = va_page v, hd_body = va_body v\<rparr> ctx clock w = (Inr result, w2)
    \<and> shape_rows ctx result = Inr shaped
    \<and> final_audit lib ctx (clock 3) r v result shaped w2 = (Inr () :: 'e thrown + unit, w')
    \<and> rs_body resp = Data (map sh_payload shaped) (va_page v) (hr_total result) ''DEMO -- SYNTHETIC DATA''"
proof -
  obtain h where h: "handlers (rt_method r) (rt_path r) = Some h"
    using assms by (auto simp: serve_def not_found_def split: option.splits)
  obtain result w2 where hr: "h \<lparr>hd_authorised = authorised, hd_entityId = va_entityId v, hd_page = va_page v, hd_body = va_body v\<rparr>
      ctx clock w = (Inr result, w2)"
    using assms(1) by (auto simp: serve_def h and_do_Inr)
  obtain shaped where sh: "shape_rows ctx result = Inr shaped"
    using assms(1) by (auto simp: serve_def h hr split: sum.splits)
  show ?thesis using assms(1) h hr sh by (auto simp: serve_def and_do_Inr)
qed

lemma catch_200: "catch_thrown headers out = Inr resp \<Longrightarrow> rs_status resp = 200 \<Longrightarrow> out = Inr resp"
  by (auto simp: catch_thrown_def not_found_def split: sum.splits thrown.splits)

text \<open>A request that is answered with data has passed every step.\<close>

lemma dispatch_200:
  assumes "dispatch lib policy clock headers handlers request ctx w = (Inr resp, w')" "rs_status resp = 200"
  obtains r v w1 w2 where "findRoute (ap_method request) (ap_path request) = Some r"
    "limit_step ctx (clock 0) r w = (Inr () :: 'e thrown + unit, w1)" "validate_request r request = Inr v"
    "(authorise lib policy clock ctx (authorise_route r (va_entityId v)) w1 :: ('e, authorised_request, 'd) effect)
       = (Inr (proof_of ctx (authorise_route r (va_entityId v))), w2)"
    "serve lib clock headers (handlers :: ('e, 'd) handlers) ctx r v (proof_of ctx (authorise_route r (va_entityId v))) w2 = (Inr resp, w')"
proof -
  obtain r out where r: "findRoute (ap_method request) (ap_path request) = Some r"
    "pipeline lib policy clock headers handlers ctx r request w = (out, w')" "catch_thrown headers out = Inr resp"
    using assms by (auto simp: dispatch_def not_found_def split: option.splits prod.splits)
  have "pipeline lib policy clock headers handlers ctx r request w = (Inr resp, w')"
    using r(2) catch_200 [OF r(3) assms(2)] by simp
  then obtain w1 where w1: "limit_step ctx (clock 0) r w = (Inr () :: 'e thrown + unit, w1)"
    and *: "(case validate_request r request of
          Inl (ValidationError issues) \<Rightarrow> (Inl (RequestInvalid issues), w1)
        | Inr v \<Rightarrow> and_do (authorise lib policy clock ctx (authorise_route r (va_entityId v)) w1)
              (\<lambda>authorised w. serve lib clock headers handlers ctx r v authorised w)) = (Inr resp, w')"
    by (auto simp: pipeline_def and_do_Inr)
  then obtain v where v: "validate_request r request = Inr v"
    "and_do (authorise lib policy clock ctx (authorise_route r (va_entityId v)) w1)
       (\<lambda>authorised w. serve lib clock headers handlers ctx r v authorised w) = (Inr resp, w')"
    by (auto split: sum.splits validation_error.splits)
  then obtain a w2 where a: "(authorise lib policy clock ctx (authorise_route r (va_entityId v)) w1
      :: ('e, authorised_request, 'd) effect) = (Inr a, w2)"
    "serve lib clock headers handlers ctx r v a w2 = (Inr resp, w')"
    by (auto simp: and_do_Inr)
  have "a = proof_of ctx (authorise_route r (va_entityId v))" using a(1) by (simp add: authorise_Inr)
  with that [OF r(1) w1 v(1)] a show ?thesis by simp
qed

section \<open>What a request leaves behind\<close>

text \<open>The state changes only through the operations of its parts: the log by writing and sealing, the
  sessions by those of the session store.\<close>

definition lawful :: "js_lib \<Rightarrow> security_policy \<Rightarrow> 'd world \<Rightarrow> 'd world \<Rightarrow> bool" where
  "lawful lib policy w w' \<longleftrightarrow> (audit_step lib)\<^sup>*\<^sup>* (w_log w) (w_log w') \<and> (session_step policy)\<^sup>*\<^sup>* (w_sessions w) (w_sessions w')"

definition lawful_handlers :: "js_lib \<Rightarrow> security_policy \<Rightarrow> ('e, 'd) handlers \<Rightarrow> bool" where
  "lawful_handlers lib policy handlers \<longleftrightarrow>
     (\<forall>m p h input ctx clock w out w'. handlers m p = Some h \<longrightarrow> h input ctx clock w = (out, w') \<longrightarrow> lawful lib policy w w')"

lemma lawful_refl [simp]: "lawful lib policy w w" and
  lawful_trans: "lawful lib policy u v \<Longrightarrow> lawful lib policy v w \<Longrightarrow> lawful lib policy u w"
  unfolding lawful_def by (auto intro: rtranclp_trans)

lemma lawful_alike: "w_log w' = w_log w \<Longrightarrow> w_sessions w' = w_sessions w \<Longrightarrow> lawful lib policy w w'"
  by (simp add: lawful_def)

lemma lawful_accept: "record_entry lib e st = Inr st' \<Longrightarrow> (audit_step lib)\<^sup>*\<^sup>* st st'"
  by (rule r_into_rtranclp) (rule accept)

lemma lawful_write: "write_audit lib e w = (out, w') \<Longrightarrow> lawful lib policy w w'"
  by (auto simp: write_audit_def lawful_def intro: lawful_accept split: sum.splits audit_failure.splits)

lemma lawful_and_do:
  assumes "and_do x f = (out, w')" "lawful lib policy w (snd x)"
    and "\<And>a w1 out w'. x = (Inr a, w1) \<Longrightarrow> f a w1 = (out, w') \<Longrightarrow> lawful lib policy w1 w'"
  shows "lawful lib policy w w'"
  using assms by (cases x; cases "fst x") (auto intro: lawful_trans)

lemma lawful_deny: "deny lib ctx now request reason w = (out, w') \<Longrightarrow> lawful lib policy w w'"
  by (auto simp: deny_outcome lawful_def intro: lawful_accept split: sum.splits audit_failure.splits)

lemma lawful_validate: "lawful lib policy w (after_validate policy clock ctx w)"
proof -
  have "session_step policy (w_sessions w) (snd (validate policy (clock 1) (au_sessionId (rc_auth ctx)) (w_sessions w)))"
    by (rule session_step.op [where op = "OpValidate (clock 1) (au_sessionId (rc_auth ctx))"
        and out = "fst (session_apply policy (OpValidate (clock 1) (au_sessionId (rc_auth ctx))) (w_sessions w))"])
      (auto split: prod.splits sum.splits)
  then show ?thesis by (simp add: lawful_def after_validate_def)
qed

lemma lawful_authorise:
  assumes "authorise lib policy clock ctx request w = (out, w')"
  shows "lawful lib policy w w'"
proof (cases "entitled policy clock ctx request w")
  case True
  have "lawful lib policy (after_validate policy clock ctx w) w'"
    using assms lawful_write unfolding authorise_entitled [OF True]
    by (auto split: if_splits prod.splits sum.splits simp: and_do_def)
  then show ?thesis by (rule lawful_trans [OF lawful_validate])
next
  case False
  then have "lawful lib policy (after_validate policy clock ctx w) w'"
    using authorise_refused [OF False assms] lawful_deny by auto
  then show ?thesis by (rule lawful_trans [OF lawful_validate])
qed

lemma lawful_final_audit: "final_audit lib ctx now r v result shaped w = (out, w') \<Longrightarrow> lawful lib policy w w'"
  by (auto simp: final_audit_def recordWrite_def recordFieldLevelRead_def Let_def
      intro: lawful_write split: option.splits if_splits)

lemma lawful_serve:
  assumes "lawful_handlers lib policy handlers" "serve lib clock headers handlers ctx r v authorised w = (out, w')"
  shows "lawful lib policy w w'"
proof (cases "handlers (rt_method r) (rt_path r)")
  case (Some h)
  let ?input = "\<lparr>hd_authorised = authorised, hd_entityId = va_entityId v, hd_page = va_page v, hd_body = va_body v\<rparr>"
  have "lawful lib policy w (snd (h ?input ctx clock w))"
    using assms(1) Some unfolding lawful_handlers_def by (metis prod.collapse)
  with assms(2) show ?thesis unfolding serve_def Some option.case
    by (rule lawful_and_do)
      (auto split: sum.splits elim!: lawful_and_do intro: lawful_final_audit [OF surjective_pairing])
qed (use assms in \<open>simp add: serve_def\<close>)

lemma lawful_dispatch:
  assumes "lawful_handlers lib policy handlers" "dispatch lib policy clock headers handlers request ctx w = (out, w')"
  shows "lawful lib policy w w'"
proof (cases "findRoute (ap_method request) (ap_path request)")
  case (Some r)
  obtain o1 where "pipeline lib policy clock headers handlers ctx r request w = (o1, w')"
    using assms(2) by (auto simp: dispatch_def Some split: prod.splits)
  moreover have "lawful lib policy w (snd (limit_step ctx (clock 0) r w))"
    by (metis lawful_alike limit_step_log prod.collapse)
  ultimately show ?thesis unfolding pipeline_def
    by (rule lawful_and_do)
      (auto split: sum.splits validation_error.splits elim!: lawful_and_do
        intro: lawful_authorise [OF surjective_pairing] lawful_serve [OF assms(1)])
qed (use assms in \<open>simp add: dispatch_def\<close>)

section \<open>What the pipeline guarantees\<close>

lemma authorised_audit:
  assumes "authorise lib policy clock ctx request w = (Inr a, w')"
    and "cd_auditReads (aq_declaration request) \<or> cd_isWrite (aq_declaration request)"
  shows "\<not> al_sealed (w_log w) \<and> (\<exists>rec. al_records (w_log w') = al_records (w_log w) @ [rec]
    \<and> ar_entry rec = decision_entry ctx (clock 2) request GRANTED None (cd_readsClassifications (aq_declaration request)))"
  using assms by (auto simp: authorise_Inr record_entry_Inr)

text \<open>C14: no data leaves before it is on record. Whatever lawful use cases are plugged in, a request of a
  route that audits its reads or writes is answered with data only when the log still takes records,
  and the log then holds, as the first record after those it had, the grant: who asked, for what,
  with which classifications, at the moment of the decision.\<close>

theorem audit_precedes_data:
  fixes handlers :: "('e, 'd) handlers"
  assumes "lawful_handlers lib policy handlers"
    and "dispatch lib policy clock headers handlers request ctx w = (Inr resp, w')" "rs_status resp = 200"
    and "findRoute (ap_method request) (ap_path request) = Some r" "rt_auditReads r \<or> rt_isWrite r"
  shows "\<not> al_sealed (w_log w) \<and> length (al_records (w_log w)) < length (al_records (w_log w'))
    \<and> (let e = ar_entry (al_records (w_log w') ! length (al_records (w_log w))) in
         ae_decision e = GRANTED \<and> ae_actorId e = au_actorId (rc_auth ctx) \<and> ae_entityType e = rt_entityType r
         \<and> ae_action e = (if rt_isWrite r then WRITE else READ)
         \<and> ae_fields e = map classification_text (rt_readsClassifications r) \<and> ae_occurredAt e = clock 2)"
proof -
  from dispatch_200 [OF assms(2,3)] assms(4) obtain v w1 w2 where
    s: "limit_step ctx (clock 0) r w = (Inr () :: 'e thrown + unit, w1)"
    "(authorise lib policy clock ctx (authorise_route r (va_entityId v)) w1 :: ('e, authorised_request, 'd) effect)
       = (Inr (proof_of ctx (authorise_route r (va_entityId v))), w2)"
    "serve lib clock headers handlers ctx r v (proof_of ctx (authorise_route r (va_entityId v))) w2 = (Inr resp, w')"
    by (metis option.inject)
  let ?rq = "authorise_route r (va_entityId v)"
  have due: "cd_auditReads (aq_declaration ?rq) \<or> cd_isWrite (aq_declaration ?rq)"
    using assms(5) by (simp add: authorise_route_def)
  obtain rec where rec: "\<not> al_sealed (w_log w)" "al_records (w_log w2) = al_records (w_log w) @ [rec]"
    "ar_entry rec = decision_entry ctx (clock 2) ?rq GRANTED None (cd_readsClassifications (aq_declaration ?rq))"
    using authorised_audit [OF s(2) due] limit_step_log [OF s(1)] by auto
  have "(audit_step lib)\<^sup>*\<^sup>* (w_log w2) (w_log w')"
    using lawful_serve [OF assms(1) s(3)] by (simp add: lawful_def)
  from audit.entry_kept [OF this, of "length (al_records (w_log w))"] rec show ?thesis
    by (simp add: decision_entry_def authorise_route_def Let_def)
qed

text \<open>A session that is signed in, and a use case for the audit page.\<close>

definition audit_page_map :: classification_map where
  "audit_page_map = classify [(''name'', PUBLIC_INTERNAL), (''email'', PERSONAL_DATA)]"

definition audit_page :: "(unit, unit) handlers" where
  "audit_page m p =
     (if p = ''/v1/audit''
      then Some (\<lambda>input ctx clock w. (Inr \<lparr>hr_rows = [[(''name'', JStr ''Apollo''), (''email'', JStr ''a@b'')]],
             hr_classifications = audit_page_map, hr_resourceName = ''auditEvent'', hr_total = Some 1, hr_write = None\<rparr>, w))
      else None)"

lemma audit_page_lawful: "lawful_handlers lib policy audit_page"
  by (auto simp: lawful_handlers_def audit_page_def split: if_splits)

definition audit_page_reply :: "(unit thrown + api_response) \<times> unit world" where
  "audit_page_reply = dispatch sample_lib POC_SECURITY_POLICY (\<lambda>_. instantPlusMs day_start 1000) [] audit_page
     (sample_request ''/v1/audit'') (sample_context ASSURANCE_AUDITOR) (sample_world one_session)"

lemma audit_page_reply_ok:
  obtains resp w' r where "audit_page_reply = (Inr resp, w')" "rs_status resp = 200"
    "rs_body resp = Data [[(''name'', JStr ''Apollo'')]] \<lparr>pg_limit = 25, pg_offset = 0\<rparr> (Some 1) ''DEMO -- SYNTHETIC DATA''"
    "findRoute HGET ''/v1/audit'' = Some r" "rt_auditReads r" "rt_entityType r = ''auditEvent''"
proof -
  define reply where "reply = audit_page_reply"
  have "case reply of (Inr resp, _) \<Rightarrow> rs_status resp = 200
      \<and> rs_body resp = Data [[(''name'', JStr ''Apollo'')]] \<lparr>pg_limit = 25, pg_offset = 0\<rparr> (Some 1) ''DEMO -- SYNTHETIC DATA''
      | _ \<Rightarrow> False"
    unfolding reply_def by code_simp
  then obtain resp w' where "audit_page_reply = (Inr resp, w')" "rs_status resp = 200"
    "rs_body resp = Data [[(''name'', JStr ''Apollo'')]] \<lparr>pg_limit = 25, pg_offset = 0\<rparr> (Some 1) ''DEMO -- SYNTHETIC DATA''"
    unfolding reply_def by (auto split: prod.splits sum.splits)
  moreover
  define route where "route = findRoute HGET ''/v1/audit''"
  have "case route of Some r \<Rightarrow> rt_auditReads r \<and> rt_entityType r = ''auditEvent'' | None \<Rightarrow> False" unfolding route_def by code_simp
  then obtain r where "findRoute HGET ''/v1/audit'' = Some r" "rt_auditReads r" "rt_entityType r = ''auditEvent''"
    unfolding route_def by (auto split: option.splits)
  ultimately show thesis by (rule that)
qed

theorem audit_precedes_data_witness:
  "\<exists>resp w'. audit_page_reply = (Inr resp, w') \<and> rs_status resp = 200
     \<and> (case al_records (w_log w') of [] \<Rightarrow> False | rec # _ \<Rightarrow>
          ae_decision (ar_entry rec) = GRANTED \<and> ae_entityType (ar_entry rec) = ''auditEvent'')"
proof -
  obtain resp w' r where a: "audit_page_reply = (Inr resp, w')" "rs_status resp = 200"
    "findRoute HGET ''/v1/audit'' = Some r" "rt_auditReads r" "rt_entityType r = ''auditEvent''" by (rule audit_page_reply_ok)
  have "case al_records (w_log w') of [] \<Rightarrow> False | rec # _ \<Rightarrow>
          ae_decision (ar_entry rec) = GRANTED \<and> ae_entityType (ar_entry rec) = ''auditEvent''"
    using audit_precedes_data [OF audit_page_lawful a(1) [unfolded audit_page_reply_def] a(2), of r] a(3-5)
    by (cases "al_records (w_log w')") (simp_all add: sample_request_def sample_world_def empty_log_def Let_def)
  with a(1,2) show ?thesis by blast
qed

text \<open>Use cases that classify their rows with \<open>classify\<close> and name each field of a row once.\<close>

definition classified_handlers :: "('e, 'd) handlers \<Rightarrow> bool" where
  "classified_handlers handlers \<longleftrightarrow>
     (\<forall>m p h input ctx clock w result w'. handlers m p = Some h \<longrightarrow> h input ctx clock w = (Inr result, w') \<longrightarrow>
        (\<exists>entries. hr_classifications result = classify entries) \<and> list_all (\<lambda>row. distinct (map fst row)) (hr_rows result))"

lemma entitled_sessions: "w_sessions w' = w_sessions w \<Longrightarrow> entitled policy clock ctx request w' = entitled policy clock ctx request w"
  by (simp add: entitled_def)

lemma try_map_payload:
  "try_map (\<lambda>row. shape name row (classify entries) ctx) rows = Inr shaped \<Longrightarrow> list_all (\<lambda>row. distinct (map fst row)) rows \<Longrightarrow>
    map sh_payload shaped = map (filter (\<lambda>(f, _). readable (classify entries) ctx f \<and> f \<noteq> ''__proto__'')) rows"
proof (induction rows arbitrary: shaped)
  case (Cons row rows)
  then show ?case by (auto simp: and_then_def shape_payload split: sum.splits)
qed simp

text \<open>C15: an answer holds nothing its reader may not see. When every use case classifies its rows and
  names each field once, data is returned only to a caller with a valid session of his own, the
  capability of the route and the entity in scope; the use case was given the proof of exactly that;
  and of every row it produced, exactly the fields the caller's role may read are returned.\<close>

theorem response_data_is_filtered:
  fixes handlers :: "('e, 'd) handlers"
  assumes "classified_handlers handlers"
    and "dispatch lib policy clock headers handlers request ctx w = (Inr resp, w')" "rs_status resp = 200"
    and "findRoute (ap_method request) (ap_path request) = Some r"
  shows "\<exists>v h input result w2 w3. validate_request r request = Inr v
    \<and> entitled policy clock ctx (authorise_route r (va_entityId v)) w
    \<and> handlers (rt_method r) (rt_path r) = Some h
    \<and> hd_authorised input = proof_of ctx (authorise_route r (va_entityId v)) \<and> hd_entityId input = va_entityId v
    \<and> h input ctx clock w2 = (Inr result, w3)
    \<and> rs_body resp = Data (map (filter (\<lambda>(f, _). readable (hr_classifications result) (rc_auth ctx) f \<and> f \<noteq> ''__proto__''))
        (hr_rows result)) (va_page v) (hr_total result) ''DEMO -- SYNTHETIC DATA''"
proof -
  from dispatch_200 [OF assms(2,3)] assms(4) obtain v w1 w2 where
    s: "limit_step ctx (clock 0) r w = (Inr () :: 'e thrown + unit, w1)" "validate_request r request = Inr v"
    "(authorise lib policy clock ctx (authorise_route r (va_entityId v)) w1 :: ('e, authorised_request, 'd) effect)
       = (Inr (proof_of ctx (authorise_route r (va_entityId v))), w2)"
    "serve lib clock headers handlers ctx r v (proof_of ctx (authorise_route r (va_entityId v))) w2 = (Inr resp, w')"
    by (metis option.inject)
  have e: "entitled policy clock ctx (authorise_route r (va_entityId v)) w"
    using s(3) entitled_sessions limit_step_log [OF s(1)] by (metis authorise_Inr)
  let ?input = "\<lparr>hd_authorised = proof_of ctx (authorise_route r (va_entityId v)), hd_entityId = va_entityId v,
    hd_page = va_page v, hd_body = va_body v\<rparr>"
  from serve_200 [OF s(4) assms(3)] obtain h result w3 shaped where
    h: "handlers (rt_method r) (rt_path r) = Some h" "h ?input ctx clock w2 = (Inr result, w3)"
    "shape_rows ctx result = Inr shaped"
    "rs_body resp = Data (map sh_payload shaped) (va_page v) (hr_total result) ''DEMO -- SYNTHETIC DATA''"
    by blast
  obtain entries where c: "hr_classifications result = classify entries"
    "list_all (\<lambda>row. distinct (map fst row)) (hr_rows result)"
    using assms(1) h(1,2) unfolding classified_handlers_def by blast
  have "rs_body resp = Data (map (filter (\<lambda>(f, _). readable (hr_classifications result) (rc_auth ctx) f \<and> f \<noteq> ''__proto__''))
      (hr_rows result)) (va_page v) (hr_total result) ''DEMO -- SYNTHETIC DATA''"
    using h(3,4) try_map_payload [OF _ c(2)] unfolding shape_rows_def c(1) by simp
  moreover have "hd_authorised ?input = proof_of ctx (authorise_route r (va_entityId v))" "hd_entityId ?input = va_entityId v"
    by simp_all
  ultimately show ?thesis using s(2) e h(1,2) by blast
qed

lemma audit_page_classified: "classified_handlers audit_page"
  by (auto simp: classified_handlers_def audit_page_def audit_page_map_def split: if_splits)

theorem response_data_is_filtered_witness:
  "\<exists>result :: handler_result. map (filter (\<lambda>(f, _). readable (hr_classifications result) (sample_ctx ASSURANCE_AUDITOR) f \<and> f \<noteq> ''__proto__''))
     (hr_rows result) = [[(''name'', JStr ''Apollo'')]]"
proof -
  obtain resp w' r where a: "audit_page_reply = (Inr resp, w')" "rs_status resp = 200"
    "rs_body resp = Data [[(''name'', JStr ''Apollo'')]] \<lparr>pg_limit = 25, pg_offset = 0\<rparr> (Some 1) ''DEMO -- SYNTHETIC DATA''"
    "findRoute HGET ''/v1/audit'' = Some r"
    by (rule audit_page_reply_ok)
  have "findRoute (ap_method (sample_request ''/v1/audit'')) (ap_path (sample_request ''/v1/audit'')) = Some r"
    using a(4) by (simp add: sample_request_def)
  from response_data_is_filtered [OF audit_page_classified a(1) [unfolded audit_page_reply_def] a(2) this]
  obtain v and result :: handler_result where "rs_body resp = Data (map (filter (\<lambda>(f, _). readable (hr_classifications result)
      (rc_auth (sample_context ASSURANCE_AUDITOR)) f \<and> f \<noteq> ''__proto__'')) (hr_rows result)) (va_page (v :: validated)) (hr_total result)
      ''DEMO -- SYNTHETIC DATA''"
    by (elim exE conjE) (rule that, assumption)
  then have "map (filter (\<lambda>(f, _). readable (hr_classifications result)
      (rc_auth (sample_context ASSURANCE_AUDITOR)) f \<and> f \<noteq> ''__proto__'')) (hr_rows result) = [[(''name'', JStr ''Apollo'')]]"
    unfolding a(3) by (simp only: response_body.inject)
  moreover have "rc_auth (sample_context ASSURANCE_AUDITOR) = sample_ctx ASSURANCE_AUDITOR" by (simp add: sample_context_def)
  ultimately show ?thesis by (intro exI [of _ result]) simp
qed

section \<open>The life of a service\<close>

text \<open>What happens between requests: a request is served, or a session is opened, revoked or checked.\<close>

inductive service_step :: "js_lib \<Rightarrow> security_policy \<Rightarrow> ('e, 'd) handlers \<Rightarrow> 'd world \<Rightarrow> 'd world \<Rightarrow> bool"
  for lib policy handlers where
  request: "dispatch lib policy clock headers handlers request ctx w = (out, w') \<Longrightarrow> service_step lib policy handlers w w'"
| session: "session_step policy (w_sessions w) st \<Longrightarrow> service_step lib policy handlers w (w\<lparr>w_sessions := st\<rparr>)"

inductive_cases service_stepE: "service_step lib policy handlers w w'"

lemma lawful_service:
  assumes "lawful_handlers lib policy handlers" "(service_step lib policy handlers)\<^sup>*\<^sup>* w w'"
  shows "lawful lib policy w w'"
  using assms(2)
proof (induction rule: rtranclp_induct)
  case (step v u)
  have "lawful lib policy v u" using step.hyps(2) lawful_dispatch [OF assms(1)]
    by (auto elim!: service_stepE simp: lawful_def)
  then show ?case by (rule lawful_trans [OF step.IH])
qed simp

text \<open>C16: whatever a service with lawful use cases has been through since it started empty, every record
  of its log names an actor and an entity and carries the id its place and content determine; every
  session was handed out by it and keeps the absolute expiry of its issue; and whatever follows, no
  record that is there is changed or lost.\<close>

theorem service_invariant:
  assumes "lawful_handlers lib policy handlers" "w_log w0 = empty_log" "w_sessions w0 = no_sessions"
    and "(service_step lib policy handlers)\<^sup>*\<^sup>* w0 w" "(service_step lib policy handlers)\<^sup>*\<^sup>* w w'"
  shows "well_recorded lib (w_log w) \<and> good_store policy (w_sessions w)
    \<and> prefix (al_records (w_log w)) (al_records (w_log w'))"
  using lawful_service [OF assms(1,4)] lawful_service [OF assms(1,5)]
  by (auto simp: lawful_def assms(2,3) reachable_well_recorded good_reachable audit.run_grows)

theorem service_invariant_witness:
  "\<exists>w'. (service_step sample_lib POC_SECURITY_POLICY audit_page)\<^sup>*\<^sup>* (sample_world no_sessions) w'
     \<and> well_recorded sample_lib (w_log w') \<and> length (al_records (w_log w')) > 0"
proof -
  define w1 where "w1 = (sample_world no_sessions)\<lparr>w_sessions := one_session\<rparr>"
  have w1: "w1 = sample_world one_session" by (simp add: w1_def sample_world_def)
  have "session_step POC_SECURITY_POLICY (w_sessions (sample_world no_sessions)) one_session"
    unfolding one_session_def
    by (rule op [where op = "OpIssue day_start ''act-1''"]) (simp add: case_prod_beta sample_world_def)
  then have s1: "service_step sample_lib POC_SECURITY_POLICY audit_page (sample_world no_sessions) w1"
    unfolding w1_def by (rule service_step.session)
  obtain resp w' r where a: "audit_page_reply = (Inr resp, w')" "rs_status resp = 200"
    "findRoute HGET ''/v1/audit'' = Some r" "rt_auditReads r" by (rule audit_page_reply_ok)
  have "service_step sample_lib POC_SECURITY_POLICY audit_page w1 w'"
    unfolding w1 by (rule service_step.request [OF a(1) [unfolded audit_page_reply_def]])
  with s1 have run: "(service_step sample_lib POC_SECURITY_POLICY audit_page)\<^sup>*\<^sup>* (sample_world no_sessions) w'" by auto
  have "w_log (sample_world no_sessions) = empty_log" "w_sessions (sample_world no_sessions) = no_sessions"
    by (simp_all add: sample_world_def)
  note inv = service_invariant [OF audit_page_lawful this run rtranclp.rtrancl_refl]
  have "case al_records (w_log (snd audit_page_reply)) of [] \<Rightarrow> False | _ \<Rightarrow> True" by code_simp
  then have "length (al_records (w_log w')) > 0" by (simp add: a(1) split: list.splits)
  with inv run show ?thesis by blast
qed

end
