(* ===== verification/Rule_Engine.thy ===== *)
theory Rule_Engine
  imports Explainability
begin

text \<open>
  \<open>src/contexts/rules/internal/engine.ts\<close>: threshold rules as data and their evaluation against a
  signal reading. A reading's value and a rule's threshold are decimal strings in the code and
  quantities here; the prose of an evaluation keeps the source's words.
\<close>

section \<open>Rules and readings\<close>

record applicability_context =
  physicalCompletion :: "quantity option"
  daysToBaselineCompletion :: "int option"
  elapsedDeliveryWeeks :: "int option"
  velocityWindowWeeks :: int
  contractType :: string
  lifecycleStage :: string

record applicability_verdict =
  applicable :: bool
  verdict_reasonCode :: "reason_code option"
  verdict_reasonText :: "string option"

datatype rule_severity = OVERRIDE | WARNING | INFORMATIONAL

record threshold_rule =
  rule_id :: string
  rule_name :: string
  rule_ruleSetId :: string
  rule_ruleVersion :: rule_version
  rule_signalId :: string
  rule_signalMetricId :: "string option"
  rule_comparison :: comparison
  rule_threshold :: "quantity option"
  rule_severity :: rule_severity
  rule_narrativeWhenFired :: string
  rule_narrativeWhenClear :: string
  rule_effect :: string
  rule_blockedBy :: "string option"
  rule_applicability :: "(applicability_context \<Rightarrow> applicability_verdict) option"
  rule_requiredEvidence :: "string list option"

text \<open>\<open>rd_unbounded\<close> is \<open>adverseState === 'UNBOUNDED'\<close>, the only value that field has.\<close>

record signal_reading =
  rd_signalId :: string
  rd_value :: "quantity option"
  rd_trend :: "signal_direction option"
  rd_evidence :: "record_ref list"
  rd_estimatedImpact :: "impact option"
  rd_notComputableReason :: "string option"
  rd_unbounded :: bool
  rd_state :: "signal_state option"
  rd_stateReasonCode :: "reason_code option"

definition signalStateOf :: "signal_reading option \<Rightarrow> signal_state" where
  "signalStateOf reading =
     (case reading of
        None \<Rightarrow> NOT_COMPUTABLE
      | Some r \<Rightarrow>
          (case rd_state r of
             Some s \<Rightarrow> s
           | None \<Rightarrow> if rd_unbounded r then UNBOUNDED
                     else if rd_value r = None then NOT_COMPUTABLE else OBSERVED))"

section \<open>Evaluation\<close>

text \<open>\<open>IN_BAND\<close> drops a leading minus sign of the observed text before comparing.\<close>

fun compare :: "quantity \<Rightarrow> comparison \<Rightarrow> quantity \<Rightarrow> bool" where
  "compare obs LT threshold = (qCompare obs threshold < 0)"
| "compare obs LTE threshold = (qCompare obs threshold \<le> 0)"
| "compare obs GT threshold = (qCompare obs threshold > 0)"
| "compare obs GTE threshold = (qCompare obs threshold \<ge> 0)"
| "compare obs EQ threshold = (qCompare obs threshold = 0)"
| "compare obs NEQ threshold = (qCompare obs threshold \<noteq> 0)"
| "compare obs IN_BAND threshold =
     (qCompare (if mant obs < 0 then Qty (- mant obs) (places obs) else obs) threshold \<le> 0)"
| "compare obs PRESENT threshold = True"

text \<open>\<open>base\<close> of the code, completed by the fields every branch sets.\<close>

definition evaluation_of :: "threshold_rule \<Rightarrow> rule_status \<Rightarrow> string option \<Rightarrow> bool \<Rightarrow> string \<Rightarrow> string \<Rightarrow>
    record_ref list \<Rightarrow> rule_evaluation" where
  "evaluation_of rule status observedValue fired contribution narrative evidence =
     \<lparr>ev_status = status,
      ev_notEvaluatedReasonCode = None,
      ev_requiredEvidence = rule_requiredEvidence rule,
      ev_missingEvidence = None,
      ev_ruleId = rule_id rule,
      ev_ruleName = rule_name rule,
      ev_ruleSetId = rule_ruleSetId rule,
      ev_ruleVersion = rule_ruleVersion rule,
      ev_signalId = rule_signalId rule,
      ev_signalMetricId = rule_signalMetricId rule,
      ev_observedValue = observedValue,
      ev_comparison = rule_comparison rule,
      ev_thresholdValue = map_option q_text (rule_threshold rule),
      ev_notEvaluatedReason = None,
      ev_fired = fired,
      ev_trend = None,
      ev_estimatedImpact = None,
      ev_contribution = contribution,
      ev_narrative = narrative,
      ev_evidence = evidence\<rparr>"

definition reading_text :: "signal_reading option \<Rightarrow> string option" where
  "reading_text reading = (case reading of None \<Rightarrow> None | Some r \<Rightarrow> map_option q_text (rd_value r))"

definition reading_evidence :: "signal_reading option \<Rightarrow> record_ref list" where
  "reading_evidence reading = (case reading of None \<Rightarrow> [] | Some r \<Rightarrow> rd_evidence r)"

text \<open>The branches of \<open>evaluateRule\<close>, in the order the code takes them.\<close>

definition not_applicable_evaluation :: "threshold_rule \<Rightarrow> signal_reading option \<Rightarrow> applicability_verdict \<Rightarrow> rule_evaluation" where
  "not_applicable_evaluation rule reading verdict =
     (evaluation_of rule RULE_NOT_APPLICABLE (reading_text reading) False
        ''none -- rule not applicable''
        (''\"'' @ rule_name rule @ ''\" does not apply to this project. ''
         @ nullish (verdict_reasonText verdict) '''' @ '' This is **not** missing evidence and is **not** a finding ''
         @ ''about delivery: the condition the rule tests cannot arise here.'')
        (reading_evidence reading))
     \<lparr>ev_notEvaluatedReasonCode := verdict_reasonCode verdict,
      ev_notEvaluatedReason := Some (nullish (verdict_reasonText verdict)
        ''the rule does not apply to this project under its governed applicability conditions'')\<rparr>"

definition configuration_evaluation :: "threshold_rule \<Rightarrow> rule_evaluation" where
  "configuration_evaluation rule =
     (evaluation_of rule RULE_CONFIGURATION_ERROR None False
        ''none -- control not operational''
        (''\"'' @ rule_name rule @ ''\" could not run because no builder produces '' @ rule_signalId rule @ ''. This is a ''
         @ ''**system control defect, not a project finding** -- the control is not operational and ''
         @ ''its silence says nothing about this project.'')
        [])
     \<lparr>ev_notEvaluatedReasonCode := Some SIGNAL_BUILDER_MISSING,
      ev_notEvaluatedReason := Some (''no registered builder produces '' @ rule_signalId rule
        @ '', so this control cannot run anywhere''),
      ev_missingEvidence := Some [rule_signalId rule]\<rparr>"

definition undecided_evaluation :: "threshold_rule \<Rightarrow> signal_reading option \<Rightarrow> rule_evaluation" where
  "undecided_evaluation rule reading =
     (evaluation_of rule RULE_NOT_COMPUTABLE (reading_text reading) False
        ''none -- rule not evaluated''
        (''\"'' @ rule_name rule @ ''\" could not be evaluated because its threshold has not been set. The rule is ''
         @ ''declared and will apply as soon as a value is configured; it is not silently off.'')
        (reading_evidence reading))
     \<lparr>ev_notEvaluatedReasonCode := Some THRESHOLD_UNDECIDED,
      ev_notEvaluatedReason := Some
        (if nullish (rule_blockedBy rule) '''' \<noteq> '''' then ''threshold undecided -- '' @ nullish (rule_blockedBy rule) ''''
         else ''threshold undecided; the rule exists but has no configured value'')\<rparr>"

definition unbounded_evaluation :: "threshold_rule \<Rightarrow> signal_reading \<Rightarrow> rule_evaluation" where
  "unbounded_evaluation rule r =
     (let upperBound = (rule_comparison rule = GTE \<or> rule_comparison rule = GT)
      in evaluation_of rule (if upperBound then FIRED else CLEAR) (Some ''UNBOUNDED'') upperBound
           (if upperBound then rule_effect rule else ''none -- the comparison is not an upper bound'')
           (if upperBound
            then rule_narrativeWhenFired rule @ '' **The observed value is unbounded**: ''
                 @ nullish (rd_notComputableReason r) ''the denominator is an observed zero'' @ ''. That exceeds ''
                 @ ''the '' @ nullish (map_option q_text (rule_threshold rule)) ''undefined''
                 @ '' threshold by more than any finite value could.''
            else rule_narrativeWhenClear rule)
           (rd_evidence r))"

definition no_value_evaluation :: "threshold_rule \<Rightarrow> signal_reading option \<Rightarrow> rule_evaluation" where
  "no_value_evaluation rule reading =
     (let why = nullish (Option.bind reading rd_notComputableReason) ''signal not supplied''
      in (evaluation_of rule RULE_NOT_COMPUTABLE None False
            ''none -- signal not computable''
            (''\"'' @ rule_name rule @ ''\" could not be evaluated: '' @ rule_signalId rule @ '' is not computable (''
             @ why @ ''). '' @ ''Reported rather than treated as passing.'')
            (reading_evidence reading))
         \<lparr>ev_notEvaluatedReasonCode := Some REQUIRED_METRIC_NOT_COMPUTABLE,
          ev_missingEvidence := Some [nullish (rule_signalMetricId rule) (rule_signalId rule)],
          ev_notEvaluatedReason := Some (''signal not computable -- '' @ why)\<rparr>)"

definition value_evaluation :: "threshold_rule \<Rightarrow> signal_reading \<Rightarrow> quantity \<Rightarrow> rule_evaluation" where
  "value_evaluation rule r v =
     (let fired = (if rule_comparison rule = PRESENT then True
                   else compare v (rule_comparison rule) (nullish (rule_threshold rule) Q_ZERO))
      in (evaluation_of rule (if fired then FIRED else CLEAR) (Some (q_text v)) fired
            (if fired then rule_effect rule else ''none -- within threshold'')
            (if fired then rule_narrativeWhenFired rule else rule_narrativeWhenClear rule)
            (rd_evidence r))
         \<lparr>ev_trend := rd_trend r,
          ev_estimatedImpact := (if fired then rd_estimatedImpact r else None)\<rparr>)"

definition inapplicable_verdict :: "threshold_rule \<Rightarrow> applicability_context option \<Rightarrow> applicability_verdict option" where
  "inapplicable_verdict rule context =
     (case (rule_applicability rule, context) of
        (Some applies, Some ctx) \<Rightarrow> if applicable (applies ctx) then None else Some (applies ctx)
      | _ \<Rightarrow> None)"

definition evaluateRule :: "threshold_rule \<Rightarrow> signal_reading option \<Rightarrow> applicability_context option \<Rightarrow>
    string list option \<Rightarrow> rule_evaluation" where
  "evaluateRule rule reading context declaredSignals =
     (case inapplicable_verdict rule context of
        Some verdict \<Rightarrow> not_applicable_evaluation rule reading verdict
      | None \<Rightarrow>
          if (case declaredSignals of None \<Rightarrow> False | Some ds \<Rightarrow> rule_signalId rule \<notin> set ds)
          then configuration_evaluation rule
          else if rule_threshold rule = None \<and> rule_comparison rule \<noteq> PRESENT
          then undecided_evaluation rule reading
          else (case reading of
                  None \<Rightarrow> no_value_evaluation rule None
                | Some r \<Rightarrow>
                    if rd_unbounded r then unbounded_evaluation rule r
                    else (case rd_value r of
                            None \<Rightarrow> no_value_evaluation rule reading
                          | Some v \<Rightarrow> value_evaluation rule r v)))"

definition evaluateRules :: "threshold_rule list \<Rightarrow> (string, signal_reading) js_map \<Rightarrow>
    applicability_context option \<Rightarrow> string list option \<Rightarrow> rule_evaluation list" where
  "evaluateRules rules readings context declaredSignals =
     map (\<lambda>r. evaluateRule r (js_get readings (rule_signalId r)) context declaredSignals) rules"

definition normaliseToScore :: "decimal_js \<Rightarrow> quantity \<Rightarrow> quantity \<Rightarrow> quantity \<Rightarrow> bool \<Rightarrow> quantity" where
  "normaliseToScore dj value greenEdge redEdge higherIsBetter = qNormaliseScore dj value greenEdge redEdge higherIsBetter"

section \<open>What an evaluation says\<close>

lemmas branch_defs = not_applicable_evaluation_def configuration_evaluation_def undecided_evaluation_def
  unbounded_evaluation_def no_value_evaluation_def value_evaluation_def evaluation_of_def Let_def

lemma evaluation_identity [simp]:
  "ev_ruleId (evaluateRule rule reading ctx ds) = rule_id rule"
  "ev_signalId (evaluateRule rule reading ctx ds) = rule_signalId rule"
  by (auto simp: evaluateRule_def branch_defs split: option.splits)

lemma evaluateRules_ids: "map ev_ruleId (evaluateRules rules readings ctx ds) = map rule_id rules"
  by (simp add: evaluateRules_def)

text \<open>A comparison as a relation on values, and a breach of a rule by a reading.\<close>

fun crosses :: "comparison \<Rightarrow> rat \<Rightarrow> rat \<Rightarrow> bool" where
  "crosses LT x t = (x < t)"
| "crosses LTE x t = (x \<le> t)"
| "crosses GT x t = (t < x)"
| "crosses GTE x t = (t \<le> x)"
| "crosses EQ x t = (x = t)"
| "crosses NEQ x t = (x \<noteq> t)"
| "crosses IN_BAND x t = (\<bar>x\<bar> \<le> t)"
| "crosses PRESENT x t = True"

definition upper_bound :: "comparison \<Rightarrow> bool" where
  "upper_bound c \<longleftrightarrow> c = GTE \<or> c = GT"

definition breached :: "threshold_rule \<Rightarrow> signal_reading \<Rightarrow> bool" where
  "breached rule r \<longleftrightarrow>
     (if rd_unbounded r then upper_bound (rule_comparison rule)
      else case rd_value r of
        None \<Rightarrow> False
      | Some v \<Rightarrow> rule_comparison rule = PRESENT
          \<or> (\<exists>t. rule_threshold rule = Some t \<and> crosses (rule_comparison rule) (qval v) (qval t)))"

lemma compare_crosses: "compare v c t = crosses c (qval v) (qval t)"
  by (cases c) (auto simp: qCompare_sign qval_def abs_divide)

lemma inapplicable_verdict_Some: "inapplicable_verdict rule ctx = Some v \<Longrightarrow>
    \<exists>applies c. rule_applicability rule = Some applies \<and> ctx = Some c \<and> v = applies c \<and> \<not> applicable (applies c)"
  by (auto simp: inapplicable_verdict_def split: option.splits if_splits)

text \<open>What the status of an evaluation entitles a reader to conclude.\<close>

definition status_warranted :: "threshold_rule \<Rightarrow> signal_reading option \<Rightarrow> applicability_context option \<Rightarrow>
    string list option \<Rightarrow> rule_evaluation \<Rightarrow> bool" where
  "status_warranted rule reading context declaredSignals e \<longleftrightarrow>
     (case ev_status e of
        FIRED \<Rightarrow> ev_fired e \<and> ev_notEvaluatedReason e = None
          \<and> (\<exists>r. reading = Some r \<and> ev_evidence e = rd_evidence r \<and> breached rule r)
      | CLEAR \<Rightarrow> \<not> ev_fired e \<and> ev_notEvaluatedReason e = None
          \<and> (\<exists>r. reading = Some r \<and> ev_evidence e = rd_evidence r
               \<and> (rd_unbounded r \<or> rd_value r \<noteq> None) \<and> \<not> breached rule r)
      | RULE_NOT_APPLICABLE \<Rightarrow> \<not> ev_fired e \<and> ev_notEvaluatedReason e \<noteq> None
          \<and> (\<exists>applies ctx. rule_applicability rule = Some applies \<and> context = Some ctx \<and> \<not> applicable (applies ctx))
      | RULE_CONFIGURATION_ERROR \<Rightarrow> \<not> ev_fired e \<and> ev_notEvaluatedReasonCode e = Some SIGNAL_BUILDER_MISSING
          \<and> (\<exists>ds. declaredSignals = Some ds \<and> rule_signalId rule \<notin> set ds)
      | RULE_NOT_COMPUTABLE \<Rightarrow> \<not> ev_fired e
          \<and> (if rule_threshold rule = None \<and> rule_comparison rule \<noteq> PRESENT
             then ev_notEvaluatedReasonCode e = Some THRESHOLD_UNDECIDED
             else ev_notEvaluatedReasonCode e = Some REQUIRED_METRIC_NOT_COMPUTABLE
               \<and> (case reading of None \<Rightarrow> True | Some r \<Rightarrow> \<not> rd_unbounded r \<and> rd_value r = None)))"

lemma value_evaluation_warranted:
  assumes "rule_threshold rule \<noteq> None \<or> rule_comparison rule = PRESENT" "\<not> rd_unbounded r" "rd_value r = Some v"
  shows "status_warranted rule (Some r) ctx ds (value_evaluation rule r v)"
  using assms
  by (auto simp: status_warranted_def branch_defs breached_def compare_crosses split: option.splits)

lemma evaluateRule_warranted: "status_warranted rule reading ctx ds (evaluateRule rule reading ctx ds)"
proof (cases "inapplicable_verdict rule ctx")
  case (Some v)
  with inapplicable_verdict_Some [OF Some] show ?thesis
    by (auto simp: evaluateRule_def status_warranted_def branch_defs)
next
  case app: None
  show ?thesis
  proof (cases "\<exists>xs. ds = Some xs \<and> rule_signalId rule \<notin> set xs")
    case True
    then show ?thesis using app
      by (auto simp: evaluateRule_def status_warranted_def branch_defs)
  next
    case False
    then have ds: "\<not> (case ds of None \<Rightarrow> False | Some xs \<Rightarrow> rule_signalId rule \<notin> set xs)"
      by (auto simp: split: option.splits)
    show ?thesis
    proof (cases "rule_threshold rule = None \<and> rule_comparison rule \<noteq> PRESENT")
      case True
      then show ?thesis using app ds
        by (simp add: evaluateRule_def status_warranted_def branch_defs)
    next
      case thr: False
      show ?thesis
      proof (cases "\<exists>r v. reading = Some r \<and> \<not> rd_unbounded r \<and> rd_value r = Some v")
        case True
        then obtain r v where "reading = Some r" "\<not> rd_unbounded r" "rd_value r = Some v" by blast
        then show ?thesis
          using app ds thr value_evaluation_warranted [of rule r v ctx ds] by (auto simp: evaluateRule_def)
      next
        case False
        then show ?thesis using app ds thr
          by (auto simp: evaluateRule_def status_warranted_def branch_defs breached_def upper_bound_def
              split: option.splits)
      qed
    qed
  qed
qed

text \<open>C4: every status means what it says. A rule that fired was breached by the reading it cites; a
  clear rule was checked against a value that does not breach it; a rule is reported not applicable,
  not operational, undecided or without data only where that is the case, and then never fires.\<close>

theorem rule_status_warranted:
  "status_warranted rule reading context declaredSignals (evaluateRule rule reading context declaredSignals)"
  by (rule evaluateRule_warranted)

lemma fired_iff_status: "ev_fired (evaluateRule rule reading ctx ds) \<longleftrightarrow> ev_status (evaluateRule rule reading ctx ds) = FIRED"
  using evaluateRule_warranted [of rule reading ctx ds]
  by (auto simp: status_warranted_def split: rule_status.splits)

lemma fires_iff:
  assumes "inapplicable_verdict rule ctx = None"
    and "\<And>xs. ds = Some xs \<Longrightarrow> rule_signalId rule \<in> set xs"
    and "rule_threshold rule \<noteq> None \<or> rule_comparison rule = PRESENT"
  shows "ev_fired (evaluateRule rule (Some r) ctx ds) \<longleftrightarrow> breached rule r"
  using assms
  by (auto simp: evaluateRule_def branch_defs breached_def upper_bound_def compare_crosses
      split: option.splits)

lemma fired_context:
  assumes "ev_fired (evaluateRule rule reading ctx ds)"
  shows "inapplicable_verdict rule ctx = None" "ds = Some xs \<Longrightarrow> rule_signalId rule \<in> set xs"
    "rule_threshold rule \<noteq> None \<or> rule_comparison rule = PRESENT"
  using assms by (auto simp: evaluateRule_def branch_defs split: option.splits if_splits)

text \<open>A reading that is worse still fires. If a rule with an upper bound fires on a value, it
  fires on every larger value and on an observation that is unbounded.\<close>

theorem worse_reading_still_fires:
  assumes "upper_bound (rule_comparison rule)" "\<not> rd_unbounded r" "rd_value r = Some v"
    and "ev_fired (evaluateRule rule (Some r) ctx ds)"
    and "rd_unbounded r' \<or> (\<exists>v'. rd_value r' = Some v' \<and> qval v \<le> qval v')"
  shows "ev_fired (evaluateRule rule (Some r') ctx ds)"
proof -
  note fired = fired_context [OF assms(4)]
  then have iff: "ev_fired (evaluateRule rule (Some x) ctx ds) \<longleftrightarrow> breached rule x" for x
    by (intro fires_iff) auto
  have "breached rule r" using assms(4) iff by simp
  then have "breached rule r'"
    using assms(1,2,3,5) by (auto simp: breached_def upper_bound_def split: option.splits)
  then show ?thesis using iff by simp
qed

text \<open>A cost overrun of 40 points against a limit of 25, and an unbounded one.\<close>

definition sample_rule :: threshold_rule where
  "sample_rule = \<lparr>rule_id = ''R'', rule_name = ''rule'', rule_ruleSetId = ''S'', rule_ruleVersion = ''S-v1'',
     rule_signalId = ''BURN_GAP'', rule_signalMetricId = None, rule_comparison = GTE,
     rule_threshold = Some (Qty 25 2), rule_severity = WARNING, rule_narrativeWhenFired = ''over'',
     rule_narrativeWhenClear = ''within'', rule_effect = ''warns'', rule_blockedBy = None,
     rule_applicability = None, rule_requiredEvidence = None\<rparr>"

definition sample_reading :: "quantity option \<Rightarrow> bool \<Rightarrow> signal_state option \<Rightarrow> signal_reading" where
  "sample_reading v unbounded state = \<lparr>rd_signalId = ''BURN_GAP'', rd_value = v, rd_trend = None,
     rd_evidence = [], rd_estimatedImpact = None, rd_notComputableReason = None,
     rd_unbounded = unbounded, rd_state = state, rd_stateReasonCode = None\<rparr>"

theorem worse_reading_still_fires_witness:
  "ev_fired (evaluateRule sample_rule (Some (sample_reading None True None)) None None)"
proof (rule worse_reading_still_fires)
  let ?r = "sample_reading (Some (Qty 40 2)) False None"
  show "upper_bound (rule_comparison sample_rule)" "\<not> rd_unbounded ?r" "rd_value ?r = Some (Qty 40 2)"
    "rd_unbounded (sample_reading None True None) \<or> (\<exists>v'. rd_value (sample_reading None True None) = Some v' \<and> qval (Qty 40 2) \<le> qval v')"
    by (simp_all add: sample_rule_def sample_reading_def upper_bound_def)
  have "breached sample_rule ?r" by (simp add: breached_def sample_rule_def sample_reading_def)
  then show "ev_fired (evaluateRule sample_rule (Some ?r) None None)"
    by (subst fires_iff) (simp_all add: inapplicable_verdict_def sample_rule_def)
qed

text \<open>The evaluation reads \<open>adverseState\<close> and not the epistemic state. A reading whose state is
  \<open>UNBOUNDED\<close> and which carries no value and no \<open>adverseState\<close> is unbounded for the dimension
  scores, yet every rule with a threshold reports it as a metric that could not be computed.\<close>

theorem state_alone_does_not_fire:
  assumes "rule_threshold rule = Some t" "rule_applicability rule = None"
    and "rd_state r = Some UNBOUNDED" "\<not> rd_unbounded r" "rd_value r = None"
  shows "signalStateOf (Some r) = UNBOUNDED
    \<and> ev_status (evaluateRule rule (Some r) ctx None) = RULE_NOT_COMPUTABLE
    \<and> ev_notEvaluatedReasonCode (evaluateRule rule (Some r) ctx None) = Some REQUIRED_METRIC_NOT_COMPUTABLE"
  using assms by (simp add: signalStateOf_def evaluateRule_def inapplicable_verdict_def branch_defs)

theorem state_alone_does_not_fire_witness:
  "signalStateOf (Some (sample_reading None False (Some UNBOUNDED))) = UNBOUNDED
    \<and> ev_status (evaluateRule sample_rule (Some (sample_reading None False (Some UNBOUNDED))) None None) = RULE_NOT_COMPUTABLE"
  using state_alone_does_not_fire [of sample_rule "Qty 25 2" "sample_reading None False (Some UNBOUNDED)" None]
  by (simp add: sample_rule_def sample_reading_def)

end
