(* ===== verification/Override_Rules.thy ===== *)
theory Override_Rules
  imports Rule_Engine
begin

text \<open>
  \<open>src/contexts/rules/internal/override-rules.ts\<close>: the conditions that force a band whatever the
  composite score says, as data for the rule engine, and the band edges of the composite.
\<close>

definition HEALTH :: rule_version where "HEALTH = ''HEALTH-v2''"

definition rule :: "string \<Rightarrow> string \<Rightarrow> string \<Rightarrow> string \<Rightarrow> comparison \<Rightarrow> quantity option \<Rightarrow>
    string \<Rightarrow> string \<Rightarrow> string \<Rightarrow> string option \<Rightarrow> threshold_rule" where
  "rule rid name signalId signalMetricId cmp threshold effect whenFired whenClear blockedBy =
     \<lparr>rule_id = rid, rule_name = name, rule_ruleSetId = ''HEALTH'', rule_ruleVersion = HEALTH,
      rule_signalId = signalId, rule_signalMetricId = Some signalMetricId,
      rule_comparison = cmp, rule_threshold = threshold, rule_severity = OVERRIDE,
      rule_narrativeWhenFired = whenFired, rule_narrativeWhenClear = whenClear, rule_effect = effect,
      rule_blockedBy = blockedBy, rule_applicability = None, rule_requiredEvidence = None\<rparr>"

text \<open>
  The applicability of \<open>OVR-NO-CREDIBLE-PLAN\<close>: complete, past its date, or too young for a
  demonstrated velocity to exist.
\<close>

definition inapplicable :: "reason_code \<Rightarrow> string \<Rightarrow> applicability_verdict" where
  "inapplicable code reason =
     \<lparr>applicable = False, verdict_reasonCode = Some code, verdict_reasonText = Some reason\<rparr>"

definition credible_plan_applicability :: "applicability_context \<Rightarrow> applicability_verdict" where
  "credible_plan_applicability ctx =
     (if (case physicalCompletion ctx of None \<Rightarrow> False | Some c \<Rightarrow> qCompare c Q_ONE \<ge> 0)
      then inapplicable NO_REMAINING_WORK
        ''Delivery is complete, so there is no remaining plan whose credibility could be in question.''
      else if (case daysToBaselineCompletion ctx of None \<Rightarrow> False | Some d \<Rightarrow> d \<le> 0)
      then inapplicable NO_REMAINING_DELIVERY_WINDOW
        (''The committed completion date has been reached, so there is no remaining window a required '' @
         ''future velocity could be measured against. Whether the date was met is a separate, '' @
         ''backward-looking finding.'')
      else (case elapsedDeliveryWeeks ctx of
          Some w \<Rightarrow>
            if w < velocityWindowWeeks ctx + 1
            then inapplicable INSUFFICIENT_EXECUTION_HISTORY
              (''Delivery has been running '' @ show_int w @ '' weeks, and a demonstrated velocity needs '' @
               show_int (velocityWindowWeeks ctx + 1) @ ''. The comparison this rule makes has no subject yet -- '' @
               ''the history is not missing, it cannot exist yet.'')
            else \<lparr>applicable = True, verdict_reasonCode = None, verdict_reasonText = None\<rparr>
        | None \<Rightarrow> \<lparr>applicable = True, verdict_reasonCode = None, verdict_reasonText = None\<rparr>))"

definition HARD_OVERRIDE_RULES :: "threshold_rule list" where
  "HARD_OVERRIDE_RULES =
  [
rule
      ''OVR-GM-NEGATIVE'' ''Forecast gross margin is negative''
      ''FORECAST_GM_PERCENT'' ''MET-FIN-014'' LT (Some (Qty 0 0))
      ''forces RED''
      (''Forecast margin is below zero: every remaining unit of delivery costs more than it '' @
         ''earns. This is a commercial decision, not a delivery one.'')
      (''Forecast margin is positive.'') None,
  rule
      ''OVR-RAGM-NEGATIVE'' ''Risk-adjusted gross margin is negative''
      ''RISK_ADJUSTED_GM_PERCENT'' ''MET-FIN-033'' LT (Some (Qty 0 0))
      ''forces RED''
      (''Once unresolved risk that is not already provisioned in ETC is counted, the engagement '' @
         ''is loss-making. The headline margin may still look positive; it is not the number to '' @
         ''act on.'')
      (''Risk-adjusted margin is positive.'') None,
  rule
      ''OVR-CONTRACT-LOSS'' ''Forecast contract loss against the as-sold position''
      ''GM_VALUE_AT_RISK_RATIO'' ''MET-FIN-042'' GTE (Some (Qty 80 2))
      ''forces RED''
      (''Substantially all of the margin sold has been put at risk. The engagement is heading '' @
         ''for a contractual loss position rather than a margin shortfall.'')
      (''Margin at risk is within tolerance of the as-sold position.'') None,
  rule
      ''OVR-LD-EXPOSURE'' ''Critical liquidated-damages exposure''
      ''LD_EXPOSURE_RATIO'' ''MET-COM-011'' GTE (Some (Qty 2 2))
      ''forces RED''
      (''Liquidated damages are live and material against contract value. Exposure of this kind '' @
         ''is contractual and does not resolve through delivery recovery alone.'')
      (''No material liquidated-damages exposure.'') None,
  rule
      ''OVR-ACCEPTANCE-FAILURE'' ''Material acceptance failure''
      ''ACCEPTANCE_BLOCKERS'' ''MET-QUA-010'' GTE (Some (Qty 5 0))
      ''forces RED''
      (''The client has named enough blocking objections that formal acceptance is not '' @
         ''achievable on the current plan. In fixed-bid these gate revenue, so this is an economic '' @
         ''event.'')
      (''Acceptance blockers are below the override threshold.'') None,
  rule
      ''OVR-BURN-MISMATCH'' ''Severe burn against progress mismatch''
      ''BURN_GAP'' ''MET-FIN-027'' GTE (Some (Qty 25 2))
      ''forces RED''
      (''Spending has run far ahead of delivered progress. Whatever the current margin says, the '' @
         ''remaining work is being funded from margin that has already been consumed.'')
      (''Cost consumption is within tolerance of delivered progress.'') None,
  rule
      ''OVR-UNCOMMERCIALISED-SCOPE'' ''Material uncommercialised scope''
      ''UNCOMPENSATED_SCOPE_RATIO'' ''MET-COM-009'' GTE (Some (Qty 10 2))
      ''forces RED''
      (''A material share of contract value is being delivered with no executed change request '' @
         ''behind it. The loss is already incurred and the remedy is commercial.'')
      (''Uncommercialised scope is below the override threshold.'') None,
  (rule
      ''OVR-NO-CREDIBLE-PLAN'' ''No credible completion plan''
      ''REQUIRED_VELOCITY_RATIO'' ''MET-DEL-018'' GTE (Some (Qty 200 2))
      ''forces RED''
      (''Finishing on the committed date requires at least twice the delivery rate this team has '' @
         ''demonstrated. The plan assumes a step-change nobody has shown.'')
      (''The remaining plan is within reach of demonstrated delivery rate.'') None)
     \<lparr>rule_requiredEvidence := Some [''MET-DEL-018'', ''MET-DEL-019'', ''MET-DEL-020'', ''MET-DEL-016''],
      rule_applicability := Some credible_plan_applicability\<rparr>
  ]"

definition ELEVATION_RULES :: "threshold_rule list" where
  "ELEVATION_RULES =
  [
  (rule
      ''ELV-ETC-OPTIMISM'' ''Estimate at completion is materially optimistic''
      ''ETC_OPTIMISM_RATIO'' ''MET-FIN-040'' GTE (Some (Qty 10 2))
      ''forces at least AMBER''
      (''Demonstrated performance implies a materially higher outturn cost than the stated '' @
         ''estimate. The forecast has not caught up with the run rate.'')
      (''The stated estimate is consistent with demonstrated performance.'') None)
     \<lparr>rule_severity := WARNING\<rparr>,
  (rule
      ''ELV-CONTINGENCY-BURN'' ''Contingency consumed far ahead of progress''
      ''CONTINGENCY_BURN_GAP'' ''MET-FIN-034'' GTE (Some (Qty 20 2))
      ''forces at least AMBER''
      (''The buffer priced to absorb uncertainty is being spent faster than the work is being '' @
         ''delivered. Margin protection is going before the risk it was meant to cover has '' @
         ''materialised.'')
      (''Contingency consumption is proportionate to progress.'') None)
     \<lparr>rule_severity := WARNING\<rparr>,
  (rule
      ''ELV-MARGIN-EROSION'' ''Margin erosion against as-sold''
      ''MARGIN_EROSION_PP'' ''MET-FIN-016'' LTE (Some (Qty (- 5) 2))
      ''forces at least AMBER''
      (''Five or more percentage points of margin have gone against the price we sold.'')
      (''Margin erosion is within tolerance.'') None)
     \<lparr>rule_severity := WARNING\<rparr>
  ]"

text \<open>\<open>BAND_THRESHOLDS\<close>: green at or above 70, amber at or above 45.\<close>

definition greenFloor :: quantity where "greenFloor = Qty 70 0"

definition amberFloor :: quantity where "amberFloor = Qty 45 0"

definition ALL_HEALTH_RULES :: "threshold_rule list" where
  "ALL_HEALTH_RULES = HARD_OVERRIDE_RULES @ ELEVATION_RULES"

end
