(* ===== verification/Decimal_Reference.thy ===== *)
theory Decimal_Reference
  imports Decimals
begin

text \<open>
  A reference implementation of what decimal.js documents, and the proof that it keeps the contract
  \<open>decimal_lib\<close>: rounding to \<open>p\<close> significant digits, halves away from zero; printing in normal
  notation without trailing zeros; printing with a fixed number of places. The development's
  definitions never mention it: it interprets the contract and instantiates the witnesses.
\<close>

section \<open>Rounding to significant digits\<close>

text \<open>
  Scale a positive value into \<open>[10^(p-1), 10^p)\<close>, round it to an integer there, scale back.
\<close>

function round_pos :: "nat \<Rightarrow> rat \<Rightarrow> rat" where
  "round_pos p x =
     (if p = 0 \<or> x \<le> 0 then 0
      else if 10 ^ p \<le> x then 10 * round_pos p (x / 10)
      else if x < 10 ^ (p - 1) then round_pos p (10 * x) / 10
      else of_int \<lfloor>x + 1 / 2\<rfloor>)"
  by pat_completeness auto
termination
proof (relation "measure (\<lambda>(p, x :: rat). if 10 ^ p \<le> x then nat \<lfloor>x\<rfloor>
    else if x < 10 ^ (p - 1) then nat \<lceil>10 ^ p / x\<rceil> else 0)", goal_cases)
  case 1
  show ?case by simp
next
  case (2 p x)
  from 2 have p: "0 < p" and x: "10 ^ p \<le> x" by auto
  have pow: "(10 :: rat) ^ p = 10 * 10 ^ (p - 1)"
    using p by (cases p) simp_all
  moreover have "(1 :: rat) \<le> 10 ^ (p - 1)" by simp
  ultimately have ten: "10 \<le> x" using x by linarith
  then have "x / 10 \<le> x - of_int 9" by simp
  then have "\<lfloor>x / 10\<rfloor> \<le> \<lfloor>x - of_int 9\<rfloor>" by (rule floor_mono)
  then have "\<lfloor>x / 10\<rfloor> \<le> \<lfloor>x\<rfloor> - 9" by simp
  moreover have "10 \<le> \<lfloor>x\<rfloor>" using ten by (simp add: le_floor_iff)
  moreover have "\<not> x / 10 < 10 ^ (p - 1)" using x pow by (simp add: field_simps)
  ultimately show ?case using x by simp
next
  case (3 p x)
  from 3 have p: "0 < p" and x: "0 < x" "x < 10 ^ (p - 1)" by auto
  have pow: "(10 :: rat) ^ p = 10 * 10 ^ (p - 1)"
    using p by (cases p) simp_all
  have ten: "10 < 10 ^ p / x" using x pow by (simp add: field_simps)
  then have "10 ^ p / x / 10 \<le> 10 ^ p / x - of_int 9" by simp
  then have "\<lceil>10 ^ p / x / 10\<rceil> \<le> \<lceil>10 ^ p / x - of_int 9\<rceil>" by (rule ceiling_mono)
  then have "\<lceil>10 ^ p / (10 * x)\<rceil> \<le> \<lceil>10 ^ p / x\<rceil> - 9" by (simp add: mult.commute)
  moreover have "10 < \<lceil>10 ^ p / x\<rceil>" using ten by (simp add: less_ceiling_iff)
  moreover have "\<not> 10 ^ p \<le> 10 * x" using x pow by simp
  moreover have "\<not> 10 ^ p \<le> x" using 3 by simp
  ultimately show ?case using x by simp
qed

declare round_pos.simps [simp del]

lemma pow_split: "0 < p \<Longrightarrow> (10 :: rat) ^ p = 10 * 10 ^ (p - 1)"
  by (cases p) simp_all

lemma round_pos_scale: "0 < p \<Longrightarrow> 0 < x \<Longrightarrow> round_pos p (10 * x) = 10 * round_pos p x"
proof (cases "10 ^ p \<le> 10 * x")
  case True
  assume "0 < p" "0 < x"
  with True show ?thesis by (subst round_pos.simps) simp
next
  case False
  assume p: "0 < p" and "0 < x"
  with False show ?thesis
    by (subst (2) round_pos.simps) (simp add: pow_split)
qed

lemma round_pos_ge: "0 < p \<Longrightarrow> 10 ^ (p - 1) \<le> x \<Longrightarrow> 10 ^ (p - 1) \<le> round_pos p x"
proof (induction p x rule: round_pos.induct)
  case (1 p x)
  have "(0 :: rat) < 10 ^ (p - 1)" by simp
  then have pos: "0 < x" using 1 by linarith
  show ?case
  proof (cases "10 ^ p \<le> x")
    case True
    then have "10 ^ (p - 1) \<le> round_pos p (x / 10)"
      using "1.IH"(1) "1.prems" pos by (simp add: pow_split)
    moreover have "(0 :: rat) < 10 ^ (p - 1)" by simp
    ultimately have "10 ^ (p - 1) \<le> 10 * round_pos p (x / 10)" by linarith
    with True pos "1.prems" show ?thesis by (subst round_pos.simps) simp
  next
    case False
    have "of_int (10 ^ (p - 1)) \<le> x + 1 / 2" using "1.prems" by simp
    then have "10 ^ (p - 1) \<le> \<lfloor>x + 1 / 2\<rfloor>" by (simp only: le_floor_iff)
    then have "of_int (10 ^ (p - 1)) \<le> (of_int \<lfloor>x + 1 / 2\<rfloor> :: rat)" by (simp only: of_int_le_iff)
    with False pos "1.prems" show ?thesis by (subst round_pos.simps) simp
  qed
qed

lemma round_pos_le: "0 < p \<Longrightarrow> 0 < x \<Longrightarrow> x < 10 ^ p \<Longrightarrow> round_pos p x \<le> 10 ^ p"
proof (induction p x rule: round_pos.induct)
  case (1 p x)
  show ?case
  proof (cases "x < 10 ^ (p - 1)")
    case True
    then have "round_pos p (10 * x) \<le> 10 ^ p"
      using 1 by (simp add: pow_split)
    moreover have "(0 :: rat) < 10 ^ p" by simp
    ultimately have "round_pos p (10 * x) / 10 \<le> 10 ^ p" by linarith
    with True "1.prems" show ?thesis by (subst round_pos.simps) simp
  next
    case False
    have "x + 1 / 2 < of_int (10 ^ p + 1)" using "1.prems" by simp
    then have "\<lfloor>x + 1 / 2\<rfloor> < 10 ^ p + 1" by (simp only: floor_less_iff)
    then have "\<lfloor>x + 1 / 2\<rfloor> \<le> 10 ^ p" by simp
    then have "(of_int \<lfloor>x + 1 / 2\<rfloor> :: rat) \<le> of_int (10 ^ p)" by (simp only: of_int_le_iff)
    with False "1.prems" show ?thesis by (subst round_pos.simps) simp
  qed
qed

lemma round_pos_mono: "0 < p \<Longrightarrow> 0 < x \<Longrightarrow> x \<le> y \<Longrightarrow> round_pos p x \<le> round_pos p y"
proof (induction p x arbitrary: y rule: round_pos.induct)
  case (1 p x)
  consider (big) "10 ^ p \<le> x" | (small) "x < 10 ^ (p - 1)" "\<not> 10 ^ p \<le> x"
    | (mid) "10 ^ (p - 1) \<le> x" "x < 10 ^ p" by linarith
  then show ?case
  proof cases
    case big
    with "1.prems" "1.IH"(1) [of "y / 10"] have "round_pos p (x / 10) \<le> round_pos p (y / 10)"
      by simp
    with big "1.prems" show ?thesis
      by (subst (1 2) round_pos.simps) simp
  next
    case small
    with "1.prems" "1.IH"(2) [of "10 * y"] have "round_pos p (10 * x) \<le> round_pos p (10 * y)"
      by simp
    with "1.prems" show ?thesis by (simp add: round_pos_scale)
  next
    case mid
    show ?thesis
    proof (cases "y < 10 ^ p")
      case True
      have "\<lfloor>x + 1 / 2\<rfloor> \<le> \<lfloor>y + 1 / 2\<rfloor>" using "1.prems" by (intro floor_mono) simp
      with mid True "1.prems" show ?thesis by (subst (1 2) round_pos.simps) simp
    next
      case False
      then have "10 ^ (p - 1) \<le> round_pos p (y / 10)"
        using "1.prems" by (intro round_pos_ge) (simp_all add: pow_split)
      with False "1.prems" have "10 ^ p \<le> round_pos p y"
        by (subst round_pos.simps) (simp add: pow_split)
      moreover have "round_pos p x \<le> 10 ^ p" using mid "1.prems" by (intro round_pos_le)
      ultimately show ?thesis by linarith
    qed
  qed
qed

lemma round_pos_positive: "0 < p \<Longrightarrow> 0 < x \<Longrightarrow> 0 < round_pos p x"
proof (induction p x rule: round_pos.induct)
  case (1 p x)
  show ?case
  proof (cases "x < 10 ^ (p - 1)")
    case True
    with 1 have "0 < round_pos p (10 * x)" by (simp add: pow_split)
    with "1.prems" show ?thesis by (simp add: round_pos_scale)
  next
    case False
    then have "10 ^ (p - 1) \<le> round_pos p x" using "1.prems" by (intro round_pos_ge) simp_all
    moreover have "(0 :: rat) < 10 ^ (p - 1)" by simp
    ultimately show ?thesis by linarith
  qed
qed

lemma round_pos_fits:
  "0 < p \<Longrightarrow> 0 < x \<Longrightarrow> x = of_int m / 10 ^ s \<Longrightarrow> m < 10 ^ p \<Longrightarrow> round_pos p x = x"
proof (induction p x arbitrary: m s rule: round_pos.induct)
  case (1 p x)
  have m: "(of_int m :: rat) < 10 ^ p"
    using "1.prems"(4) by (metis of_int_less_iff of_int_numeral of_int_power)
  have "x * 10 ^ s = of_int m" using "1.prems"(3) by simp
  moreover have "x * 1 \<le> x * 10 ^ s" using "1.prems"(2) by (intro mult_left_mono) simp_all
  ultimately have lt: "x < 10 ^ p" using m by linarith
  show ?case
  proof (cases "x < 10 ^ (p - 1)")
    case True
    have "\<exists>m' s'. 10 * x = of_int m' / 10 ^ s' \<and> m' < 10 ^ p"
    proof (cases s)
      case 0
      then have "(of_int m :: rat) < of_int (10 ^ (p - 1))" using True "1.prems"(3) by simp
      then have "m < 10 ^ (p - 1)" by (simp only: of_int_less_iff)
      moreover have "(10 :: int) ^ p = 10 * 10 ^ (p - 1)" using "1.prems"(1) by (cases p) simp_all
      ultimately have "10 * m < 10 ^ p" by linarith
      moreover have "10 * x = of_int (10 * m) / 10 ^ 0" using 0 "1.prems"(3) by simp
      ultimately show ?thesis by blast
    next
      case (Suc t)
      then have "10 * x = of_int m / 10 ^ t" using "1.prems"(3) by simp
      then show ?thesis using "1.prems"(4) by blast
    qed
    then have "round_pos p (10 * x) = 10 * x"
      using "1.IH"(2) "1.prems"(1,2) True lt by (metis linorder_not_le mult_pos_pos zero_less_numeral neq0_conv)
    then show ?thesis using "1.prems"(1,2) by (simp add: round_pos_scale)
  next
    case False
    have "s = 0"
    proof (rule ccontr)
      assume "s \<noteq> 0"
      then have "(10 :: rat) \<le> 10 ^ s" by (cases s) simp_all
      then have "10 * x \<le> x * 10 ^ s" using "1.prems"(2) by simp
      with \<open>x * 10 ^ s = of_int m\<close> m False "1.prems"(1) show False by (simp add: pow_split)
    qed
    then have "x = of_int m" using "1.prems"(3) by simp
    moreover have "\<lfloor>of_int m + 1 / 2 :: rat\<rfloor> = m" by (simp add: floor_unique)
    ultimately show ?thesis using False lt "1.prems"(1,2) by (subst round_pos.simps) simp
  qed
qed

lemma round_pos_near:
  "0 < p \<Longrightarrow> 0 < x \<Longrightarrow> \<bar>round_pos p x - x\<bar> \<le> x / 10 ^ (p - 1)"
proof (induction p x rule: round_pos.induct)
  case (1 p x)
  consider (big) "10 ^ p \<le> x" | (small) "x < 10 ^ (p - 1)" "\<not> 10 ^ p \<le> x"
    | (mid) "10 ^ (p - 1) \<le> x" "x < 10 ^ p" by linarith
  then show ?case
  proof cases
    case big
    with 1 have "\<bar>round_pos p (x / 10) - x / 10\<bar> \<le> x / 10 / 10 ^ (p - 1)" by simp
    then have "10 * \<bar>round_pos p (x / 10) - x / 10\<bar> \<le> x / 10 ^ (p - 1)" by simp
    with big "1.prems" show ?thesis by (subst round_pos.simps) (simp add: abs_if split: if_splits)
  next
    case small
    with 1 have "\<bar>round_pos p (10 * x) - 10 * x\<bar> \<le> 10 * x / 10 ^ (p - 1)" by simp
    then have "10 * \<bar>round_pos p x - x\<bar> \<le> 10 * (x / 10 ^ (p - 1))"
      using "1.prems" by (simp add: round_pos_scale abs_if split: if_splits)
    then show ?thesis by (simp only: mult_le_cancel_left split: if_splits)
  next
    case mid
    then have "1 \<le> x / 10 ^ (p - 1)" by simp
    moreover have "\<bar>of_int \<lfloor>x + 1 / 2\<rfloor> - x\<bar> \<le> 1 / 2"
      using of_int_floor_le [of "x + 1 / 2"] floor_correct [of "x + 1 / 2"] by (simp add: abs_if) linarith
    ultimately have "\<bar>of_int \<lfloor>x + 1 / 2\<rfloor> - x\<bar> \<le> x / 10 ^ (p - 1)" by linarith
    with mid "1.prems" show ?thesis by (subst round_pos.simps) simp
  qed
qed

lemma round_pos_decimal: "\<exists>m s. round_pos p x = of_int m / 10 ^ s"
proof (induction p x rule: round_pos.induct)
  case (1 p x)
  consider "p = 0 \<or> x \<le> 0" | (big) "0 < p" "0 < x" "10 ^ p \<le> x"
    | (small) "0 < p" "0 < x" "\<not> 10 ^ p \<le> x" "x < 10 ^ (p - 1)"
    | (mid) "0 < p" "0 < x" "\<not> 10 ^ p \<le> x" "\<not> x < 10 ^ (p - 1)" by linarith
  then show ?case
  proof cases
    case 1
    then have "round_pos p x = of_int 0 / 10 ^ 0" by (subst round_pos.simps) auto
    then show ?thesis by blast
  next
    case big
    with "1.IH"(1) obtain m s where "round_pos p (x / 10) = of_int m / 10 ^ s" by auto
    with big have "round_pos p x = of_int (10 * m) / 10 ^ s" by (subst round_pos.simps) simp
    then show ?thesis by blast
  next
    case small
    with "1.IH"(2) obtain m s where "round_pos p (10 * x) = of_int m / 10 ^ s" by auto
    with small have "round_pos p x = of_int m / 10 ^ Suc s" by (subst round_pos.simps) simp
    then show ?thesis by blast
  next
    case mid
    then have "round_pos p x = of_int \<lfloor>x + 1 / 2\<rfloor> / 10 ^ 0" by (subst round_pos.simps) simp
    then show ?thesis by blast
  qed
qed

definition round_sig :: "nat \<Rightarrow> rat \<Rightarrow> rat" where
  "round_sig p x = (if x < 0 then - round_pos p (- x) else round_pos p x)"

lemma round_pos_zero [simp]: "round_pos p 0 = 0" "round_pos 0 x = 0"
  by (simp_all add: round_pos.simps)

lemma round_sig_nonneg: "0 \<le> x \<Longrightarrow> 0 \<le> round_sig p x"
  using round_pos_positive [of p x] by (cases "p = 0"; cases "x = 0") (auto simp: round_sig_def)

lemma round_sig_neg: "round_sig p (- x) = - round_sig p x"
  by (auto simp: round_sig_def not_less)

lemma round_sig_mono_nonneg: "0 \<le> x \<Longrightarrow> x \<le> y \<Longrightarrow> round_sig p x \<le> round_sig p y"
  using round_pos_mono [of p x y] round_sig_nonneg [of y p]
  by (cases "p = 0"; cases "x = 0") (auto simp: round_sig_def)

lemma round_sig_mono: "x \<le> y \<Longrightarrow> round_sig p x \<le> round_sig p y"
proof -
  assume xy: "x \<le> y"
  consider "0 \<le> x" | "x < 0" "0 \<le> y" | "y < 0" by linarith
  then show ?thesis
  proof cases
    case 1
    then show ?thesis using xy by (rule round_sig_mono_nonneg)
  next
    case 2
    then have "0 \<le> round_sig p (- x)" "0 \<le> round_sig p y" by (simp_all add: round_sig_nonneg)
    then show ?thesis by (simp add: round_sig_neg)
  next
    case 3
    then have "round_sig p (- y) \<le> round_sig p (- x)"
      using xy by (intro round_sig_mono_nonneg) simp_all
    then show ?thesis by (simp add: round_sig_neg)
  qed
qed

lemma round_sig_fits: "fits p x \<Longrightarrow> round_sig p x = x"
proof -
  assume "fits p x"
  then obtain m s where x: "x = of_int m / 10 ^ s" and m: "\<bar>m\<bar> < 10 ^ p"
    by (auto simp: fits_def)
  show ?thesis
  proof (cases "p = 0 \<or> x = 0")
    case True
    then show ?thesis using x m by (auto simp: round_sig_def)
  next
    case False
    show ?thesis
    proof (cases "0 < x")
      case True
      have "round_pos p x = x" using False True x m by (intro round_pos_fits [of p x m s]) simp_all
      with True show ?thesis by (simp add: round_sig_def)
    next
      case neg: False
      have "- x = of_int (- m) / 10 ^ s" using x by simp
      then have "round_pos p (- x) = - x"
        using False neg m by (intro round_pos_fits [of p "- x" "- m" s]) linarith+
      with False neg show ?thesis by (simp add: round_sig_def)
    qed
  qed
qed

lemma round_sig_near: "0 < p \<Longrightarrow> \<bar>round_sig p x - x\<bar> \<le> \<bar>x\<bar> / 10 ^ (p - 1)"
proof -
  assume p: "0 < p"
  consider "x = 0" | "0 < x" | "x < 0" by linarith
  then show ?thesis
  proof cases
    case 1
    then show ?thesis by (simp add: round_sig_def)
  next
    case 2
    then show ?thesis using round_pos_near [OF p 2] by (simp add: round_sig_def)
  next
    case 3
    have "\<bar>round_sig p x - x\<bar> = \<bar>round_pos p (- x) - - x\<bar>" using 3 by (simp add: round_sig_def)
    also have "\<dots> \<le> - x / 10 ^ (p - 1)" using round_pos_near [OF p, of "- x"] 3 by simp
    finally show ?thesis using 3 by simp
  qed
qed

lemma round_sig_decimal: "\<exists>q. round_sig p x = qval q"
proof -
  obtain m s where "round_pos p (if x < 0 then - x else x) = of_int m / 10 ^ s"
    using round_pos_decimal by blast
  then have "round_sig p x = qval (Qty (if x < 0 then - m else m) s)"
    by (auto simp: round_sig_def)
  then show ?thesis by blast
qed

section \<open>Printing\<close>

text \<open>The least number of places that writes a fraction with this denominator.\<close>

function least_places :: "nat \<Rightarrow> nat" where
  "least_places d =
     (if d = 0 \<or> gcd d 10 = 1 then 0 else Suc (least_places (d div gcd d 10)))"
  by pat_completeness auto
termination
proof (relation "measure id", goal_cases)
  case 1
  show ?case by simp
next
  case (2 d)
  then have "1 < gcd d 10" by (metis gcd_pos_nat less_one linorder_neqE_nat neq0_conv zero_neq_numeral)
  with 2 show ?case by simp
qed

declare least_places.simps [simp del]

lemma least_places_dvd: "d dvd 10 ^ t \<Longrightarrow> d dvd 10 ^ least_places d"
proof (induction d arbitrary: t rule: least_places.induct)
  case (1 d)
  have "d \<noteq> 0" using 1 by (metis dvd_0_left power_not_zero zero_neq_numeral)
  show ?case
  proof (cases "gcd d 10 = 1")
    case True
    then have "coprime d 10" by (simp add: coprime_iff_gcd_eq_1)
    then have "coprime d (10 ^ t)" by simp
    then have "d = 1" using "1.prems" by (metis coprime_common_divisor_nat dvd_refl)
    then show ?thesis by simp
  next
    case False
    let ?g = "gcd d 10"
    have split: "d = d div ?g * ?g" by simp
    have "d div ?g dvd d" by (metis dvd_triv_left split)
    then have "d div ?g dvd 10 ^ t" using "1.prems" dvd_trans by blast
    then have "d div ?g dvd 10 ^ least_places (d div ?g)" using "1.IH" False \<open>d \<noteq> 0\<close> by blast
    then have "d div ?g * ?g dvd 10 ^ least_places (d div ?g) * 10" by (intro mult_dvd_mono) simp_all
    then have "d dvd 10 ^ Suc (least_places (d div ?g))" using split by (simp add: mult.commute)
    then show ?thesis using False \<open>d \<noteq> 0\<close> by (subst least_places.simps) simp
  qed
qed

definition show_plain :: "rat \<Rightarrow> quantity" where
  "show_plain x =
     (let (n, d) = quotient_of x; s = least_places (nat d)
      in Qty (n * (10 ^ s div d)) s)"

lemma show_plain_val: "qval (show_plain (qval q)) = qval q"
proof -
  obtain n d where nd: "quotient_of (qval q) = (n, d)" by force
  then have d: "0 < d" and eq: "qval q = of_int n / of_int d" and cop: "coprime n d"
    by (simp_all add: quotient_of_denom_pos quotient_of_div quotient_of_coprime)
  let ?s = "least_places (nat d)"
  have "of_int (n * 10 ^ places q) = (of_int (mant q * d) :: rat)"
    using eq d by (simp add: qval_def field_simps)
  then have "n * 10 ^ places q = mant q * d" by (simp only: of_int_eq_iff)
  then have "d dvd n * 10 ^ places q" by simp
  then have "d dvd 10 ^ places q" using cop by (simp add: coprime_commute coprime_dvd_mult_right_iff)
  then have "nat d dvd 10 ^ places q" using d
    by (metis dvd_nat_abs_iff abs_of_pos int_dvd_int_iff int_nat_eq of_nat_numeral of_nat_power zless_nat_eq_int_zless
        int_ops(1) less_imp_le nat_int zero_less_imp_eq_int)
  then have "nat d dvd 10 ^ ?s" by (rule least_places_dvd)
  then have "int (nat d) dvd int (10 ^ ?s)" by (simp only: int_dvd_int_iff)
  then have "d dvd 10 ^ ?s" using d by simp
  then have "of_int (10 ^ ?s div d) = (10 ^ ?s / of_int d :: rat)"
    using d by (simp add: of_int_div)
  moreover have "show_plain (qval q) = Qty (n * (10 ^ ?s div d)) ?s"
    by (simp add: show_plain_def nd Let_def)
  ultimately show ?thesis using eq d by simp
qed

definition show_fixed :: "nat \<Rightarrow> rat \<Rightarrow> quantity" where
  "show_fixed dp x =
     (let n = \<lfloor>\<bar>x\<bar> * 10 ^ dp + 1 / 2\<rfloor> in Qty (if x < 0 then - n else n) dp)"

lemma half_up_near: "\<bar>of_int \<lfloor>y + 1 / 2\<rfloor> - y\<bar> \<le> (1 / 2 :: rat)"
  by linarith

lemma show_fixed_near: "\<bar>qval (show_fixed dp x) - x\<bar> \<le> 1 / 2 / 10 ^ dp"
proof -
  let ?n = "\<lfloor>\<bar>x\<bar> * 10 ^ dp + 1 / 2\<rfloor>"
  have "of_int ?n / 10 ^ dp - \<bar>x\<bar> = (of_int ?n - \<bar>x\<bar> * 10 ^ dp) / 10 ^ dp"
    by (simp add: diff_divide_distrib)
  then have "\<bar>of_int ?n / 10 ^ dp - \<bar>x\<bar>\<bar> = \<bar>of_int ?n - \<bar>x\<bar> * 10 ^ dp\<bar> / 10 ^ dp"
    by simp
  also have "\<dots> \<le> 1 / 2 / 10 ^ dp"
    using half_up_near [of "\<bar>x\<bar> * 10 ^ dp"] by (intro divide_right_mono) simp_all
  finally show ?thesis by (auto simp: show_fixed_def Let_def abs_if split: if_splits)
qed

lemma show_fixed_mono: "x \<le> y \<Longrightarrow> qval (show_fixed dp x) \<le> qval (show_fixed dp y)"
proof -
  assume xy: "x \<le> y"
  have mono: "\<lfloor>a * 10 ^ dp + 1 / 2\<rfloor> \<le> \<lfloor>b * 10 ^ dp + 1 / 2\<rfloor>" if "a \<le> b" for a b :: rat
    using that by (intro floor_mono add_mono mult_right_mono) simp_all
  have nonneg: "0 \<le> \<lfloor>\<bar>a\<bar> * 10 ^ dp + 1 / 2\<rfloor>" for a :: rat by simp
  have "(if x < 0 then - \<lfloor>\<bar>x\<bar> * 10 ^ dp + 1 / 2\<rfloor> else \<lfloor>\<bar>x\<bar> * 10 ^ dp + 1 / 2\<rfloor>)
      \<le> (if y < 0 then - \<lfloor>\<bar>y\<bar> * 10 ^ dp + 1 / 2\<rfloor> else \<lfloor>\<bar>y\<bar> * 10 ^ dp + 1 / 2\<rfloor>)"
  proof (cases "x < 0 \<and> 0 \<le> y")
    case True
    then have "- \<lfloor>\<bar>x\<bar> * 10 ^ dp + 1 / 2\<rfloor> \<le> \<lfloor>\<bar>y\<bar> * 10 ^ dp + 1 / 2\<rfloor>"
      using nonneg [of x] nonneg [of y] by linarith
    moreover have "x < 0" "\<not> y < 0" using True by simp_all
    ultimately show ?thesis by (simp only: if_True if_False)
  next
    case False
    then show ?thesis using xy mono [of x y] mono [of "- y" "- x"] by auto
  qed
  then have "(of_int (mant (show_fixed dp x)) :: rat) \<le> of_int (mant (show_fixed dp y))"
    unfolding show_fixed_def Let_def quantity.sel by (simp only: of_int_le_iff)
  then have "of_int (mant (show_fixed dp x)) / (10 :: rat) ^ dp \<le> of_int (mant (show_fixed dp y)) / 10 ^ dp"
    by (rule divide_right_mono) simp
  then show ?thesis by (simp add: qval_def show_fixed_def Let_def)
qed

section \<open>The contract holds\<close>

definition ref_decimal :: decimal_js where
  "ref_decimal = \<lparr>dround = round_sig, dshow = show_plain, dfixed = show_fixed\<rparr>"

interpretation ref: decimal_lib ref_decimal
proof
  fix x y p q dp
  show "x \<le> y \<Longrightarrow> dround ref_decimal p x \<le> dround ref_decimal p y"
    by (simp add: ref_decimal_def round_sig_mono)
  show "dround ref_decimal p (- x) = - dround ref_decimal p x"
    by (simp add: ref_decimal_def round_sig_neg)
  show "0 < p \<Longrightarrow> 0 < x \<Longrightarrow> 0 < dround ref_decimal p x"
    by (simp add: ref_decimal_def round_sig_def round_pos_positive)
  show "fits p x \<Longrightarrow> dround ref_decimal p x = x"
    by (simp add: ref_decimal_def round_sig_fits)
  show "0 < p \<Longrightarrow> \<bar>dround ref_decimal p x - x\<bar> \<le> \<bar>x\<bar> / 10 ^ (p - 1)"
    using round_sig_near [of p x] by (simp add: ref_decimal_def)
  show "\<exists>q. dround ref_decimal p x = qval q"
    by (simp add: ref_decimal_def round_sig_decimal)
  show "qval (dshow ref_decimal (qval q)) = qval q"
    by (simp add: ref_decimal_def show_plain_val)
  show "places (dfixed ref_decimal dp x) = dp"
    by (simp add: ref_decimal_def show_fixed_def Let_def)
  show "\<bar>qval (dfixed ref_decimal dp x) - x\<bar> \<le> 1 / 2 / 10 ^ dp"
    using show_fixed_near [of dp x] by (simp add: ref_decimal_def)
  show "x \<le> y \<Longrightarrow> qval (dfixed ref_decimal dp x) \<le> qval (dfixed ref_decimal dp y)"
    by (simp add: ref_decimal_def show_fixed_mono)
qed

lemma ref_decimal_lib: "decimal_lib ref_decimal"
  by (rule ref.decimal_lib_axioms)

section \<open>Normalised scores\<close>

text \<open>The score a signal is normalised to lies between 0 and 100, never falls when the signal
  gets better in the declared direction, is 100 at or beyond the green edge and 0 at or beyond the
  red edge, whatever the direction, for every pair of edges in the order the direction needs.\<close>

theorem normalised_score_sound:
  assumes "decimal_lib dj"
    and "if hib then qval r < qval g else qval g < qval r"
    and "if hib then qval v \<le> qval w else qval w \<le> qval v"
  shows "0 \<le> qval (qNormaliseScore dj v g r hib) \<and> qval (qNormaliseScore dj v g r hib) \<le> 100
    \<and> qval (qNormaliseScore dj v g r hib) \<le> qval (qNormaliseScore dj w g r hib)
    \<and> ((if hib then qval g \<le> qval v else qval v \<le> qval g) \<longrightarrow> qval (qNormaliseScore dj v g r hib) = 100)
    \<and> ((if hib then qval v \<le> qval r else qval r \<le> qval v) \<longrightarrow> qval (qNormaliseScore dj v g r hib) = 0)"
  using assms(2,3) decimal_lib.normalise_bounds [OF assms(1)]
    decimal_lib.normalise_mono_higher [OF assms(1), of r g v w]
    decimal_lib.normalise_mono_lower [OF assms(1), of g r w v]
    decimal_lib.normalise_at_green [OF assms(1), of hib r g v]
    decimal_lib.normalise_at_red [OF assms(1), of hib r g v]
  by (cases hib) simp_all

text \<open>A recovery rate of 60 and one of 80 percent, between the edges 50 and 85.\<close>

theorem normalised_score_sound_witness:
  "0 \<le> qval (qNormaliseScore ref_decimal (Qty 60 0) (Qty 85 0) (Qty 50 0) True)
    \<and> qval (qNormaliseScore ref_decimal (Qty 60 0) (Qty 85 0) (Qty 50 0) True)
      \<le> qval (qNormaliseScore ref_decimal (Qty 80 0) (Qty 85 0) (Qty 50 0) True)"
  using normalised_score_sound [OF ref_decimal_lib, of True "Qty 50 0" "Qty 85 0" "Qty 60 0" "Qty 80 0"]
  by simp

end
