(* ===== verification/Exact_Sums.thy ===== *)
theory Exact_Sums
  imports Decimal_Reference
begin

text \<open>
  When decimal sums do not round: amounts written on a common scale are integers there, and their
  running sum is exact while it fits the 34 digits of the constructor. Shared by the money
  arithmetic and the weights of the health models.
\<close>

section \<open>Sums without rounding\<close>

text \<open>Amounts on a common scale are integers there, and add exactly while they fit 34 digits.\<close>

definition scaled :: "nat \<Rightarrow> int \<Rightarrow> rat" where
  "scaled s k = of_int k / 10 ^ s"

lemma scaled_arith: "scaled s 0 = 0" "scaled s a + scaled s b = scaled s (a + b)"
  "scaled s a - scaled s b = scaled s (a - b)" "scaled s a = scaled s b \<longleftrightarrow> a = b"
  "sum_list (map (scaled s) ks) = scaled s (sum_list ks)"
  by (induction ks) (auto simp: scaled_def add_divide_distrib diff_divide_distrib)

lemma fits_scaled: "\<bar>k\<bar> < 10 ^ p \<Longrightarrow> fits p (scaled s k)"
  unfolding scaled_def by (rule fits_places)

lemma qval_scaled:
  assumes "places q \<le> s"
  shows "qval q = scaled s (mant q * 10 ^ (s - places q))"
proof -
  have "(10 :: rat) ^ s = 10 ^ (s - places q) * 10 ^ places q"
    using assms by (simp flip: power_add)
  then show ?thesis by (simp add: qval_def scaled_def)
qed

lemma nonneg_sum_abs: "(\<And>k. k \<in> set ks \<Longrightarrow> 0 \<le> k) \<Longrightarrow> sum_list (map abs ks) = sum_list (ks :: int list)"
  by (induction ks) auto

lemma sum_abs_bound: "(\<And>k. k \<in> set ks \<Longrightarrow> \<bar>k\<bar> \<le> B) \<Longrightarrow> sum_list (map abs ks) \<le> int (length ks) * B"
  by (induction ks) (fastforce simp: algebra_simps)+

lemma abs_sum_le: "\<bar>sum_list ks\<bar> \<le> sum_list (map abs (ks :: int list))"
  by (induction ks) auto

context decimal_lib begin

lemma foldl_exact:
  "\<bar>a\<bar> + sum_list (map abs ks) < 10 ^ q_precision \<Longrightarrow>
    foldl (\<lambda>acc x. dround dj q_precision (acc + x)) (scaled s a) (map (scaled s) ks)
      = scaled s (a + sum_list ks)"
proof (induction ks arbitrary: a)
  case Nil
  show ?case by simp
next
  case (Cons k ks)
  have "0 \<le> sum_list (map abs ks)" by (intro sum_list_nonneg) auto
  with Cons.prems have "\<bar>a + k\<bar> < 10 ^ q_precision" by simp
  then have "dround dj q_precision (scaled s a + scaled s k) = scaled s (a + k)"
    by (simp add: scaled_arith round_fits fits_scaled)
  moreover have "\<bar>a + k\<bar> + sum_list (map abs ks) < 10 ^ q_precision" using Cons.prems by simp
  ultimately show ?case using Cons.IH [of "a + k"] by (simp add: add.assoc)
qed

text \<open>The weights the result holds for: not negative, on one scale, adding within 34 digits.\<close>

lemma weights_exact:
  assumes "\<forall>w\<in>set ws. 0 \<le> qval w \<and> places w \<le> t" "sum_list (map qval ws) < 10 ^ q_precision / 10 ^ t"
  shows "foldl (\<lambda>a w. dround dj q_precision (a + qval w)) 0 ws = sum_list (map qval ws)"
proof -
  let ?k = "\<lambda>w. mant w * 10 ^ (t - places w)"
  have qv: "map qval ws = map (scaled t) (map ?k ws)"
    using assms(1) by (simp add: qval_scaled)
  have sum: "sum_list (map qval ws) = scaled t (sum_list (map ?k ws))"
    unfolding qv by (rule scaled_arith)
  have "0 \<le> mant w" if "w \<in> set ws" for w
  proof (rule ccontr)
    assume "\<not> 0 \<le> mant w"
    then have "qval w < 0" by (simp add: qval_def divide_neg_pos)
    then show False using assms(1) that by force
  qed
  then have "sum_list (map abs (map ?k ws)) = sum_list (map ?k ws)"
    by (intro nonneg_sum_abs) auto
  moreover have "(of_int (sum_list (map ?k ws)) :: rat) < of_int (10 ^ q_precision)"
    using assms(2) unfolding sum by (simp add: scaled_def divide_less_cancel)
  then have "sum_list (map ?k ws) < 10 ^ q_precision" by (simp only: of_int_less_iff)
  ultimately have "foldl (\<lambda>acc x. dround dj q_precision (acc + x)) (scaled t 0) (map (scaled t) (map ?k ws))
      = scaled t (0 + sum_list (map ?k ws))"
    by (intro foldl_exact) simp
  then show ?thesis unfolding qv [symmetric] sum by (simp add: scaled_arith foldl_map flip: qv)
qed

end

section \<open>Weights\<close>

text \<open>Weights between 0 and 1 with at most ten decimals, at most a million of them.\<close>

definition modest_weights :: "quantity list \<Rightarrow> bool" where
  "modest_weights ws \<longleftrightarrow>
     length ws \<le> 10 ^ 6 \<and> list_all (\<lambda>w. 0 \<le> qval w \<and> qval w \<le> 1 \<and> places w \<le> 10) ws"

lemma modest_sub: "modest_weights ws \<Longrightarrow> set xs \<subseteq> set ws \<Longrightarrow> length xs \<le> length ws \<Longrightarrow> modest_weights xs"
  by (auto simp: modest_weights_def list_all_iff)

lemma modest_sum:
  assumes "modest_weights ws"
  shows "0 \<le> sum_list (map qval ws)" "sum_list (map qval ws) \<le> 10 ^ 6"
    "\<exists>k. sum_list (map qval ws) = scaled 10 k \<and> 0 \<le> k \<and> k \<le> 10 ^ 16"
proof -
  let ?k = "\<lambda>w. mant w * 10 ^ (10 - places w)"
  show pos: "0 \<le> sum_list (map qval ws)"
    using assms by (intro sum_list_nonneg) (auto simp: modest_weights_def list_all_iff)
  have "sum_list (map qval ws) \<le> sum_list (map (\<lambda>_. 1) ws)"
    using assms by (intro sum_list_mono) (auto simp: modest_weights_def list_all_iff)
  also have "\<dots> = of_nat (length ws)" by (induction ws) simp_all
  also have "\<dots> \<le> of_nat (10 ^ 6)" using assms by (simp only: of_nat_le_iff modest_weights_def)
  finally show le: "sum_list (map qval ws) \<le> 10 ^ 6" by simp
  have "map qval ws = map (scaled 10) (map ?k ws)"
    using assms by (simp add: modest_weights_def list_all_iff qval_scaled)
  then have eq: "sum_list (map qval ws) = scaled 10 (sum_list (map ?k ws))" by (simp only: scaled_arith)
  moreover have "(0 :: rat) \<le> of_int (sum_list (map ?k ws))" "(of_int (sum_list (map ?k ws)) :: rat) \<le> of_int (10 ^ 16)"
    using pos le unfolding eq by (simp_all add: scaled_def zero_le_divide_iff pos_divide_le_eq)
  ultimately show "\<exists>k. sum_list (map qval ws) = scaled 10 k \<and> 0 \<le> k \<and> k \<le> 10 ^ 16"
    by (metis of_int_le_iff of_int_0_le_iff)
qed

lemma modest_fits: "modest_weights ws \<Longrightarrow> fits q_precision (100 * sum_list (map qval ws))"
proof -
  assume "modest_weights ws"
  then obtain k where k: "sum_list (map qval ws) = scaled 10 k" "0 \<le> k" "k \<le> 10 ^ 16"
    using modest_sum(3) by blast
  have "100 * sum_list (map qval ws) = scaled 10 (100 * k)" using k(1) by (simp add: scaled_def)
  moreover have "\<bar>100 * k\<bar> < 10 ^ q_precision" using k(2,3) by (simp add: q_precision_def)
  ultimately show ?thesis by (simp only: fits_scaled)
qed

context decimal_lib begin

lemma modest_total:
  "modest_weights ws \<Longrightarrow> foldl (\<lambda>a w. dround dj q_precision (a + qval w)) 0 ws = sum_list (map qval ws)"
proof -
  assume m: "modest_weights ws"
  have "sum_list (map qval ws) \<le> 10 ^ 6" using m by (rule modest_sum)
  then have "sum_list (map qval ws) < 10 ^ q_precision / 10 ^ 10" by (simp add: q_precision_def)
  with m show ?thesis by (intro weights_exact) (auto simp: modest_weights_def list_all_iff)
qed

end

end
