(* ===== verification/Health_Model.thy ===== *)
theory Health_Model
  imports Override_Rules Exact_Sums
begin

text \<open>
  \<open>src/contexts/rules/internal/health-model.ts\<close>: the versioned health models, which dimensions
  exist and what they weigh, and the validation that a model's weights sum to one and its edges
  point the right way.
\<close>

datatype materiality = MATERIAL | SUPPORTING

record dimension_input =
  in_metricId :: string
  in_signalId :: string
  in_weight :: quantity
  in_greenEdge :: quantity
  in_redEdge :: quantity
  in_higherIsBetter :: bool
  in_materiality :: "materiality option"
  in_required :: bool

text \<open>\<open>dim_weight = None\<close> is the weight \<open>'UNSET'\<close>.\<close>

record dimension_definition =
  dim_id :: string
  dim_name :: string
  dim_metricId :: string
  dim_weight :: "quantity option"
  dim_inputs :: "dimension_input list"

record health_model =
  hm_version :: rule_version
  hm_name :: string
  hm_effectiveFrom :: calendar_date
  hm_compositeMetricId :: string
  hm_dimensions :: "dimension_definition list"
  hm_isDefault :: bool
  hm_rationale :: string
  hm_blockedBy :: "string option"

definition hm_input :: "string \<Rightarrow> string \<Rightarrow> quantity \<Rightarrow> quantity \<Rightarrow> quantity \<Rightarrow> bool \<Rightarrow> bool \<Rightarrow> materiality \<Rightarrow>
    dimension_input" where
  "hm_input metricId signalId weight greenEdge redEdge higherIsBetter required mat =
     \<lparr>in_metricId = metricId, in_signalId = signalId, in_weight = weight, in_greenEdge = greenEdge,
      in_redEdge = redEdge, in_higherIsBetter = higherIsBetter,
      in_materiality = (if mat = MATERIAL then Some MATERIAL else None), in_required = required\<rparr>"

definition HEALTH_MODEL_V2 :: health_model where
  "HEALTH_MODEL_V2 =
  \<lparr>hm_version = ''HEALTH-v2'',
   hm_name = ''Executive health model -- four dimensions'',
   hm_effectiveFrom = Date 2026 8 31,
   hm_compositeMetricId = ''MET-HLTH-020'',
   hm_dimensions =
    [
    \<lparr>dim_id = ''FINANCIAL'', dim_name = ''Financial Health'', dim_metricId = ''MET-HLTH-021'', dim_weight = Some (Qty 40 2),
      dim_inputs =
       [
        hm_input ''MET-FIN-014'' ''FORECAST_GM_PERCENT'' (Qty 40 2) (Qty 22 2) (Qty 5 2) True True SUPPORTING,
        hm_input ''MET-FIN-016'' ''MARGIN_EROSION_PP'' (Qty 25 2) (Qty (- 1) 2) (Qty (- 9) 2) True False SUPPORTING,
        hm_input ''MET-FIN-027'' ''BURN_GAP'' (Qty 20 2) (Qty 2 2) (Qty 15 2) False False SUPPORTING,
        hm_input ''MET-FIN-034'' ''CONTINGENCY_BURN_GAP'' (Qty 15 2) (Qty 5 2) (Qty 30 2) False False SUPPORTING
       ]\<rparr>,
    \<lparr>dim_id = ''DELIVERY'', dim_name = ''Delivery Health'', dim_metricId = ''MET-HLTH-022'', dim_weight = Some (Qty 25 2),
      dim_inputs =
       [
        hm_input ''MET-DEL-015'' ''PROGRESS_VARIANCE'' (Qty 35 2) (Qty (- 2) 2) (Qty (- 15) 2) True True SUPPORTING,
        hm_input ''MET-DEL-018'' ''REQUIRED_VELOCITY_RATIO'' (Qty 30 2) (Qty 105 2) (Qty 180 2) False False MATERIAL,
        hm_input ''MET-DEL-010'' ''MILESTONES_AT_RISK'' (Qty 20 2) (Qty 0 0) (Qty 4 0) False False SUPPORTING,
        hm_input ''MET-DEL-023'' ''DEPENDENCY_AGEING_DAYS'' (Qty 15 2) (Qty 14 0) (Qty 90 0) False False SUPPORTING
       ]\<rparr>,
    \<lparr>dim_id = ''SCOPE_COMMERCIAL'', dim_name = ''Scope & Commercial Health'', dim_metricId = ''MET-HLTH-023'', dim_weight = Some (Qty 20 2),
      dim_inputs =
       [
        hm_input ''MET-COM-009'' ''UNCOMPENSATED_SCOPE_RATIO'' (Qty 45 2) (Qty 1 2) (Qty 10 2) False True SUPPORTING,
        hm_input ''MET-COM-007'' ''PENDING_CR_AGE_DAYS'' (Qty 30 2) (Qty 21 0) (Qty 120 0) False False SUPPORTING,
        hm_input ''MET-FIN-011'' ''UNSECURED_UPSIDE_RATIO'' (Qty 25 2) (Qty 1 2) (Qty 12 2) False False SUPPORTING
       ]\<rparr>,
    \<lparr>dim_id = ''PRODUCT_QUALITY'', dim_name = ''Product & Quality Health'', dim_metricId = ''MET-HLTH-024'', dim_weight = Some (Qty 15 2),
      dim_inputs =
       [
        hm_input ''MET-QUA-006'' ''REWORK_RATIO'' (Qty 35 2) (Qty 5 2) (Qty 20 2) False True SUPPORTING,
        hm_input ''MET-QUA-010'' ''ACCEPTANCE_BLOCKERS'' (Qty 30 2) (Qty 0 0) (Qty 5 0) False False SUPPORTING,
        hm_input ''MET-QUA-003'' ''ESCAPED_DEFECT_RATE'' (Qty 20 2) (Qty 5 2) (Qty 30 2) False False SUPPORTING,
        hm_input ''MET-QUA-009'' ''DEFECT_BACKLOG_TREND'' (Qty 15 2) (Qty 0 0) (Qty 3 0) False False SUPPORTING
       ]\<rparr>
    ],
   hm_isDefault = True,
   hm_rationale =
    ''Four dimensions an executive can act on, weighted as the Phase 4 brief specifies. The six '' @
    ''analytical dimensions of HEALTH-v1 remain computable underneath as the detail view; they are '' @
    ''not the executive output. Composite score is deliberately not the headline -- System-Assessed '' @
    ''RAG is, with the dimension breakdown beneath it.'',
   hm_blockedBy = None\<rparr>"

definition analytical_dimension :: "nat \<Rightarrow> string \<Rightarrow> string \<Rightarrow> dimension_definition" where
  "analytical_dimension idx did name =
     \<lparr>dim_id = did, dim_name = name @ '' Health Dimension'',
      dim_metricId = ''MET-HLTH-00'' @ show_nat (idx + 1), dim_weight = None, dim_inputs = []\<rparr>"

definition HEALTH_MODEL_V1 :: health_model where
  "HEALTH_MODEL_V1 =
  \<lparr>hm_version = ''HEALTH-v1'',
   hm_name = ''Analytical health model -- six dimensions'',
   hm_effectiveFrom = Date 2026 8 31,
   hm_compositeMetricId = ''MET-HLTH-010'',
   hm_dimensions =
    [analytical_dimension 0 ''FINANCIAL'' ''Financial'',
     analytical_dimension 1 ''SCHEDULE'' ''Schedule'',
     analytical_dimension 2 ''SCOPE_COMMERCIAL'' ''Scope & commercial'',
     analytical_dimension 3 ''QUALITY'' ''Quality'',
     analytical_dimension 4 ''RESOURCE'' ''Resource'',
     analytical_dimension 5 ''RISK'' ''Risk''],
   hm_isDefault = False,
   hm_rationale =
    ''The six analytical dimensions frozen in Phase 2. Its weights remain open (MC-2), so it cannot '' @
    ''produce a composite. It is kept because Phase 2 froze MET-HLTH-001...006 and MET-HLTH-010 '' @
    ''against it, and because the six-way breakdown is the right detail view beneath the executive four.'',
   hm_blockedBy = Some (''MC-2 -- the six dimension weights were never set. Owner: Sponsor / Delivery leadership.'')\<rparr>"

definition HEALTH_MODELS :: "health_model list" where
  "HEALTH_MODELS = [HEALTH_MODEL_V2, HEALTH_MODEL_V1]"

definition defaultHealthModel :: "health_model option" where
  "defaultHealthModel = find hm_isDefault HEALTH_MODELS"

definition healthModelAt :: "rule_version \<Rightarrow> health_model option" where
  "healthModelAt version = find (\<lambda>m. hm_version m = version) HEALTH_MODELS"

section \<open>Validation\<close>

definition sum_weights :: "decimal_js \<Rightarrow> quantity list \<Rightarrow> quantity" where
  "sum_weights dj ws = foldl (qAdd dj) Q_ZERO ws"

definition edgesOrdered :: "dimension_input \<Rightarrow> bool" where
  "edgesOrdered x =
     (if in_higherIsBetter x then qCompare (in_greenEdge x) (in_redEdge x) > 0
      else qCompare (in_greenEdge x) (in_redEdge x) < 0)"

definition validate_input :: "health_model \<Rightarrow> dimension_definition \<Rightarrow> dimension_input \<Rightarrow> string list" where
  "validate_input model d x =
     (if edgesOrdered x then []
      else [hm_version model @ ''/'' @ dim_id d @ ''/'' @ in_metricId x @ '': edges are the wrong way round for ''
        @ ''higherIsBetter='' @ (if in_higherIsBetter x then ''true'' else ''false'')
        @ ''. This silently inverts the dimension.''])"

definition validate_dimension :: "decimal_js \<Rightarrow> health_model \<Rightarrow> dimension_definition \<Rightarrow> string list" where
  "validate_dimension dj model d =
     (if dim_inputs d = [] then []
      else let inner = sum_weights dj (map in_weight (dim_inputs d))
           in (if qCompare inner Q_ONE \<noteq> 0
               then [hm_version model @ ''/'' @ dim_id d @ '': input weights sum to '' @ q_text inner @ '', not 1.'']
               else [])
              @ concat (map (validate_input model d) (dim_inputs d)))"

definition validateHealthModel :: "decimal_js \<Rightarrow> health_model \<Rightarrow> string list" where
  "validateHealthModel dj model =
     (if hm_blockedBy model \<noteq> None then []
      else if list_ex (\<lambda>d. dim_weight d = None) (hm_dimensions model)
      then [hm_version model @ '': a dimension weight is UNSET but the model is not marked blocked.'']
      else let total_weight = sum_weights dj (map (\<lambda>d. nullish (dim_weight d) Q_ZERO) (hm_dimensions model))
           in (if qCompare total_weight Q_ONE \<noteq> 0
               then [hm_version model @ '': dimension weights sum to '' @ q_text total_weight @ '', not 1.'']
               else [])
              @ concat (map (validate_dimension dj model) (hm_dimensions model)))"

section \<open>What validation establishes\<close>

context decimal_lib begin

lemma foldl_qAdd: "qval (foldl (qAdd dj) q ws) = foldl (\<lambda>a w. dround dj q_precision (a + qval w)) (qval q) ws"
  by (induction ws arbitrary: q) (simp_all add: qval_ops)

lemma sum_weights_exact: "modest_weights ws \<Longrightarrow> qval (sum_weights dj ws) = sum_list (map qval ws)"
  by (simp add: sum_weights_def foldl_qAdd modest_total)

end

text \<open>The sizes of weights that keep the sums free of rounding.\<close>

definition modest_model :: "health_model \<Rightarrow> bool" where
  "modest_model m \<longleftrightarrow> modest_weights (map (\<lambda>d. nullish (dim_weight d) Q_ZERO) (hm_dimensions m))
     \<and> list_all (\<lambda>d. modest_weights (map in_weight (dim_inputs d))) (hm_dimensions m)"

text \<open>What a model has to satisfy for its scores to mean what they say.\<close>

definition sound_input :: "dimension_input \<Rightarrow> bool" where
  "sound_input x \<longleftrightarrow>
     (if in_higherIsBetter x then qval (in_redEdge x) < qval (in_greenEdge x)
      else qval (in_greenEdge x) < qval (in_redEdge x))"

definition sound_model :: "health_model \<Rightarrow> bool" where
  "sound_model m \<longleftrightarrow>
     list_all (\<lambda>d. dim_weight d \<noteq> None) (hm_dimensions m)
     \<and> sum_list (map (\<lambda>d. qval (nullish (dim_weight d) Q_ZERO)) (hm_dimensions m)) = 1
     \<and> list_all (\<lambda>d. dim_inputs d = []
          \<or> sum_list (map (\<lambda>x. qval (in_weight x)) (dim_inputs d)) = 1 \<and> list_all sound_input (dim_inputs d))
        (hm_dimensions m)"

lemma edgesOrdered_iff: "edgesOrdered x \<longleftrightarrow> sound_input x"
  by (simp add: edgesOrdered_def sound_input_def qCompare_sign)

lemma validate_dimension_iff:
  assumes "decimal_lib dj" "modest_weights (map in_weight (dim_inputs d))"
  shows "validate_dimension dj m d = [] \<longleftrightarrow> dim_inputs d = []
    \<or> sum_list (map (\<lambda>x. qval (in_weight x)) (dim_inputs d)) = 1 \<and> list_all sound_input (dim_inputs d)"
  using decimal_lib.sum_weights_exact [OF assms]
  by (auto simp: validate_dimension_def validate_input_def edgesOrdered_iff qCompare_sign list_all_iff o_def Let_def
      split: if_splits)

text \<open>C6: when every weight lies between 0 and 1 and has at most ten decimals, and no list holds
  more than a million of them, validation reports no error for a model exactly when the model is
  marked blocked, or every dimension weight is set, the dimension weights add up to one, and each
  dimension that has inputs at all has input weights that add up to one and every pair of edges in
  the declared direction.  A dimension without inputs is skipped, and a blocked model is not
  examined further.\<close>

theorem validation_exact:
  assumes "decimal_lib dj" "modest_model m"
  shows "validateHealthModel dj m = [] \<longleftrightarrow> hm_blockedBy m \<noteq> None \<or> sound_model m"
proof (cases "hm_blockedBy m \<noteq> None \<or> list_ex (\<lambda>d. dim_weight d = None) (hm_dimensions m)")
  case True
  then show ?thesis
    by (auto simp: validateHealthModel_def sound_model_def list_all_iff list_ex_iff)
next
  case False
  let ?ws = "map (\<lambda>d. nullish (dim_weight d) Q_ZERO) (hm_dimensions m)"
  have "qval (sum_weights dj ?ws) = sum_list (map qval ?ws)"
    using assms(2) by (intro decimal_lib.sum_weights_exact [OF assms(1)]) (simp add: modest_model_def)
  then have tot: "qCompare (sum_weights dj ?ws) Q_ONE = 0
      \<longleftrightarrow> sum_list (map (\<lambda>d. qval (nullish (dim_weight d) Q_ZERO)) (hm_dimensions m)) = 1"
    by (simp add: qCompare_sign o_def)
  have dims: "concat (map (validate_dimension dj m) (hm_dimensions m)) = []
      \<longleftrightarrow> list_all (\<lambda>d. dim_inputs d = []
          \<or> sum_list (map (\<lambda>x. qval (in_weight x)) (dim_inputs d)) = 1 \<and> list_all sound_input (dim_inputs d))
        (hm_dimensions m)"
    using validate_dimension_iff [OF assms(1)] assms(2) by (auto simp: modest_model_def list_all_iff)
  have "list_all (\<lambda>d. dim_weight d \<noteq> None) (hm_dimensions m)"
    using False by (auto simp: list_all_iff list_ex_iff)
  then show ?thesis
    using False dims tot by (auto simp: validateHealthModel_def sound_model_def Let_def)
qed

lemma v2_modest: "modest_model HEALTH_MODEL_V2"
  by (simp add: modest_model_def modest_weights_def HEALTH_MODEL_V2_def hm_input_def)

lemma v2_sound: "sound_model HEALTH_MODEL_V2"
  by (simp add: sound_model_def sound_input_def HEALTH_MODEL_V2_def hm_input_def)

theorem validation_exact_witness: "validateHealthModel ref_decimal HEALTH_MODEL_V2 = []"
  using validation_exact [OF ref_decimal_lib v2_modest] v2_sound by blast

end
