(* ===== verification/Warning_Rules.thy ===== *)
theory Warning_Rules
  imports Override_Rules
begin

text \<open>
  \<open>src/contexts/rules/internal/early-warning-rules.ts\<close>: the rules that warn while a project is
  still green or amber, and the severity bands of a fired warning.
\<close>

definition EW :: rule_version where "EW = ''EARLY_WARNING-v1''"

definition warn :: "string \<Rightarrow> string \<Rightarrow> string \<Rightarrow> string \<Rightarrow> comparison \<Rightarrow> quantity option \<Rightarrow>
    string \<Rightarrow> string \<Rightarrow> string \<Rightarrow> string option \<Rightarrow> threshold_rule" where
  "warn rid name signalId signalMetricId cmp threshold effect whenFired whenClear blockedBy =
     \<lparr>rule_id = rid, rule_name = name, rule_ruleSetId = ''EARLY-WARNING'', rule_ruleVersion = EW,
      rule_signalId = signalId, rule_signalMetricId = Some signalMetricId,
      rule_comparison = cmp, rule_threshold = threshold, rule_severity = WARNING,
      rule_narrativeWhenFired = whenFired, rule_narrativeWhenClear = whenClear, rule_effect = effect,
      rule_blockedBy = blockedBy, rule_applicability = None, rule_requiredEvidence = None\<rparr>"

definition EARLY_WARNING_RULES :: "threshold_rule list" where
  "EARLY_WARNING_RULES =
  [
warn
      ''EW-GM-DETERIORATION-STREAK'' ''Forecast margin falling for consecutive periods''
      ''GM_DETERIORATION_STREAK'' ''MET-FIN-024'' GTE (Some (Qty 3 0))
      ''raises an early warning''
      (''Forecast gross margin has fallen in three or more consecutive reporting periods. One '' @
         ''period is noise; three is a direction, and it has not yet reached a band edge.'')
      (''Forecast margin has not fallen in three consecutive periods.'') None,
  warn
      ''EW-EAC-INCREASE'' ''Estimate at completion rising''
      ''EAC_INCREASE_RATIO'' ''MET-FIN-043'' GTE (Some (Qty 5 2))
      ''raises an early warning''
      (''The estimate at completion has risen more than 5% against the earliest period on '' @
         ''record. Cost to finish is growing, and every dollar of it comes out of margin on a '' @
         ''fixed-bid contract.'')
      (''The estimate at completion is stable against its earlier position.'') None,
  warn
      ''EW-BURN-GAP'' ''Cost outrunning progress''
      ''BURN_GAP'' ''MET-FIN-027'' GTE (Some (Qty 8 2))
      ''raises an early warning''
      (''Cost consumed is more than 8 percentage points ahead of physical completion. Money is '' @
         ''being spent faster than value is being created, which is a margin problem before it is '' @
         ''a schedule one.'')
      (''Cost consumption is tracking physical completion.'') None,
  warn
      ''EW-CONTINGENCY-DEPLETION'' ''Contingency consumed ahead of the work''
      ''CONTINGENCY_BURN_GAP'' ''MET-FIN-034'' GTE (Some (Qty 15 2))
      ''raises an early warning''
      (''Contingency is more than 15 percentage points more consumed than the project is '' @
         ''complete. The buffer that was meant to absorb the rest of the delivery is being spent '' @
         ''on the first half.'')
      (''Contingency consumption is proportionate to completion.'') None,
  warn
      ''EW-REQUIRED-VELOCITY'' ''The plan needs a team this one has not been''
      ''REQUIRED_VELOCITY_RATIO'' ''MET-DEL-018'' GTE (Some (Qty 130 2))
      ''raises an early warning''
      (''Finishing on the committed date now requires at least 1.3x the delivery rate '' @
         ''demonstrated over the trailing window. The plan assumes an improvement nobody has shown '' @
         ''yet.'')
      (''The remaining plan is within reach of the demonstrated delivery rate.'') None,
  warn
      ''EW-UNCOMMERCIALISED-SCOPE'' ''Scope delivered without a change request''
      ''UNCOMPENSATED_SCOPE_RATIO'' ''MET-COM-009'' GTE (Some (Qty 2 2))
      ''raises an early warning''
      (''More than 2% of contract value has been delivered with no executed change request '' @
         ''behind it. The cost is already incurred and the remedy is commercial, not operational.'')
      (''Delivered scope is covered by the contract and its executed changes.'') None,
  warn
      ''EW-PENDING-CR-AGEING'' ''Change requests ageing unresolved''
      ''PENDING_CR_AGE_DAYS'' ''MET-COM-007'' GTE (Some (Qty 45 0))
      ''raises an early warning''
      (''A pending change request has been open more than 45 days. Unsigned work is not revenue, '' @
         ''and an ageing request is usually a decision nobody is taking rather than one still '' @
         ''being made.'')
      (''No pending change request is ageing beyond the review window.'') None,
  warn
      ''EW-QUALITY-REWORK'' ''Rework above the priced allowance''
      ''REWORK_RATIO'' ''MET-QUA-006'' GTE (Some (Qty 12 2))
      ''raises an early warning''
      (''More than 12% of effort is rework. Every rework hour is paid for twice on a fixed-bid '' @
         ''contract and was priced once.'')
      (''Rework is within the allowance priced into the contract.'') None,
  warn
      ''EW-DEFECT-BACKLOG'' ''Defect backlog growing''
      ''DEFECT_BACKLOG_TREND'' ''MET-QUA-009'' GTE (Some (Qty 15 1))
      ''raises an early warning''
      (''Open defects are growing by more than 1.5 per week across the trailing window. The team '' @
         ''is creating defects faster than it is closing them, which ends in an acceptance problem.'')
      (''The defect backlog is stable or shrinking.'') None,
  warn
      ''EW-MILESTONE-SLIP'' ''Milestones forecast past their baseline''
      ''MILESTONES_AT_RISK'' ''MET-DEL-010'' GTE (Some (Qty 1 0))
      ''raises an early warning''
      (''At least one undelivered milestone is already forecast past its baseline date. Where '' @
         ''the milestone gates payment, the slip is a cash event as well as a schedule one.'')
      (''No undelivered milestone is forecast past its baseline.'') None,
  warn
      ''EW-RESOURCE-COST-DRIFT'' ''Blended rate above the priced rate''
      ''RESOURCE_COST_DRIFT_RATIO'' ''MET-RES-011'' GTE (Some (Qty 3 2))
      ''raises an early warning''
      (''The blended rate actually being paid, across hours delivered, is drifting more than 3% '' @
         ''of budgeted cost above the rate the work was priced at.'')
      (''The blended rate is tracking the priced rate.'') None,
  warn
      ''EW-DEPENDENCY-AGEING'' ''Customer dependency ageing''
      ''DEPENDENCY_AGEING_DAYS'' ''MET-DEL-023'' GTE (Some (Qty 30 0))
      ''raises an early warning''
      (''An open customer dependency has been outstanding more than 30 days. Whether the delay '' @
         ''is recoverable is a contractual question, and it is cheaper to ask it now than at '' @
         ''closure.'')
      (''No customer dependency is ageing beyond the tolerance.'') None,
  warn
      ''EW-STALE-EVIDENCE'' ''The evidence behind the assessment is stale''
      ''CRITICAL_DOMAIN_STALENESS_DAYS'' ''MET-DQ-002'' GTE (Some (Qty 10 0))
      ''raises an early warning''
      (''A critical domain has not reported for more than 10 days. This warning is about the '' @
         ''**assessment**, not the project: a quiet project and a project nobody is measuring look '' @
         ''identical from here, and only one of them is safe.'')
      (''Critical domains are reporting within their expected cadence.'') None
  ]"

datatype warning_severity = ELEVATED | HIGH | SEVERE

record warning_severity_band =
  band_id :: warning_severity
  band_atMultiple :: quantity
  band_meaning :: string

definition WARNING_SEVERITY_BANDS :: "warning_severity_band list" where
  "WARNING_SEVERITY_BANDS =
  [
  \<lparr>band_id = SEVERE, band_atMultiple = Qty 3 0, band_meaning = ''three or more times past the threshold''\<rparr>,
  \<lparr>band_id = HIGH, band_atMultiple = Qty 175 2, band_meaning = ''well past the threshold''\<rparr>,
  \<lparr>band_id = ELEVATED, band_atMultiple = Qty 1 0, band_meaning = ''past the threshold''\<rparr>
  ]"

section \<open>Warnings precede the forced bands\<close>

text \<open>What a rule compares: its signal, its comparison and its threshold.\<close>

definition rule_test :: "threshold_rule \<Rightarrow> string \<times> comparison \<times> quantity option" where
  "rule_test r = (rule_signalId r, rule_comparison r, rule_threshold r)"

lemma warning_tests:
  "map rule_test EARLY_WARNING_RULES =
    [(''GM_DETERIORATION_STREAK'', GTE, Some (Qty 3 0)), (''EAC_INCREASE_RATIO'', GTE, Some (Qty 5 2)),
     (''BURN_GAP'', GTE, Some (Qty 8 2)), (''CONTINGENCY_BURN_GAP'', GTE, Some (Qty 15 2)),
     (''REQUIRED_VELOCITY_RATIO'', GTE, Some (Qty 130 2)), (''UNCOMPENSATED_SCOPE_RATIO'', GTE, Some (Qty 2 2)),
     (''PENDING_CR_AGE_DAYS'', GTE, Some (Qty 45 0)), (''REWORK_RATIO'', GTE, Some (Qty 12 2)),
     (''DEFECT_BACKLOG_TREND'', GTE, Some (Qty 15 1)), (''MILESTONES_AT_RISK'', GTE, Some (Qty 1 0)),
     (''RESOURCE_COST_DRIFT_RATIO'', GTE, Some (Qty 3 2)), (''DEPENDENCY_AGEING_DAYS'', GTE, Some (Qty 30 0)),
     (''CRITICAL_DOMAIN_STALENESS_DAYS'', GTE, Some (Qty 10 0))]"
  by (simp add: EARLY_WARNING_RULES_def warn_def rule_test_def)

lemma health_tests:
  "map rule_test ALL_HEALTH_RULES =
    [(''FORECAST_GM_PERCENT'', LT, Some (Qty 0 0)), (''RISK_ADJUSTED_GM_PERCENT'', LT, Some (Qty 0 0)),
     (''GM_VALUE_AT_RISK_RATIO'', GTE, Some (Qty 80 2)), (''LD_EXPOSURE_RATIO'', GTE, Some (Qty 2 2)),
     (''ACCEPTANCE_BLOCKERS'', GTE, Some (Qty 5 0)), (''BURN_GAP'', GTE, Some (Qty 25 2)),
     (''UNCOMPENSATED_SCOPE_RATIO'', GTE, Some (Qty 10 2)), (''REQUIRED_VELOCITY_RATIO'', GTE, Some (Qty 200 2)),
     (''ETC_OPTIMISM_RATIO'', GTE, Some (Qty 10 2)), (''CONTINGENCY_BURN_GAP'', GTE, Some (Qty 20 2)),
     (''MARGIN_EROSION_PP'', LTE, Some (Qty (- 5) 2))]"
  by (simp add: ALL_HEALTH_RULES_def HARD_OVERRIDE_RULES_def ELEVATION_RULES_def rule_def rule_test_def)

lemma warning_applicability: "r \<in> set EARLY_WARNING_RULES \<Longrightarrow> rule_applicability r = None"
  by (auto simp: EARLY_WARNING_RULES_def warn_def)

lemma shared_signal_tests:
  assumes "r \<in> set ALL_HEALTH_RULES" "w \<in> set EARLY_WARNING_RULES" "rule_signalId r = rule_signalId w"
  shows "\<exists>t u. rule_comparison r = GTE \<and> rule_comparison w = GTE \<and> rule_threshold r = Some t
    \<and> rule_threshold w = Some u \<and> qval u \<le> qval t"
proof -
  have "rule_test r \<in> set (map rule_test ALL_HEALTH_RULES)" "rule_test w \<in> set (map rule_test EARLY_WARNING_RULES)"
    using assms by auto
  moreover have "fst (rule_test r) = fst (rule_test w)" using assms(3) by (simp add: rule_test_def)
  ultimately show ?thesis
    unfolding warning_tests health_tests by (auto simp: rule_test_def)
qed

text \<open>An early warning never lags the band. Whatever reading makes a forcing rule fire, the early
  warning on the same signal, if there is one, fires on that reading too.\<close>

theorem warning_precedes_forced_band:
  assumes "r \<in> set ALL_HEALTH_RULES" "w \<in> set EARLY_WARNING_RULES" "rule_signalId r = rule_signalId w"
    and "ev_fired (evaluateRule r (Some reading) ctx ds)"
  shows "ev_fired (evaluateRule w (Some reading) ctx' ds)"
proof -
  obtain t u where tests: "rule_comparison r = GTE" "rule_comparison w = GTE" "rule_threshold r = Some t"
    "rule_threshold w = Some u" "qval u \<le> qval t"
    using shared_signal_tests [OF assms(1,2,3)] by blast
  note ctx = fired_context [OF assms(4)]
  have "breached r reading" using assms(4) ctx by (subst (asm) fires_iff) auto
  then have "breached w reading"
    using tests by (auto simp: breached_def split: if_splits option.splits)
  then show ?thesis
    using ctx(2) warning_applicability [OF assms(2)] tests(4) assms(3)
    by (subst fires_iff) (auto simp: inapplicable_verdict_def split: option.splits)
qed

text \<open>A burn gap of 40 points: the override at 25 fires, and so does the warning at 8.\<close>

theorem warning_precedes_forced_band_witness:
  "ev_fired (evaluateRule (EARLY_WARNING_RULES ! 2) (Some (sample_reading (Some (Qty 40 2)) False None)) None None)"
proof (rule warning_precedes_forced_band)
  show "ALL_HEALTH_RULES ! 5 \<in> set ALL_HEALTH_RULES" "EARLY_WARNING_RULES ! 2 \<in> set EARLY_WARNING_RULES"
    by (simp_all add: ALL_HEALTH_RULES_def HARD_OVERRIDE_RULES_def EARLY_WARNING_RULES_def)
  have tests: "rule_test (ALL_HEALTH_RULES ! 5) = (''BURN_GAP'', GTE, Some (Qty 25 2))"
    "rule_test (EARLY_WARNING_RULES ! 2) = (''BURN_GAP'', GTE, Some (Qty 8 2))"
    using arg_cong [OF health_tests, of "\<lambda>xs. xs ! 5"] arg_cong [OF warning_tests, of "\<lambda>xs. xs ! 2"]
    by (simp_all add: ALL_HEALTH_RULES_def HARD_OVERRIDE_RULES_def EARLY_WARNING_RULES_def)
  then show "rule_signalId (ALL_HEALTH_RULES ! 5) = rule_signalId (EARLY_WARNING_RULES ! 2)"
    by (simp add: rule_test_def)
  have "breached (ALL_HEALTH_RULES ! 5) (sample_reading (Some (Qty 40 2)) False None)"
    using tests by (simp add: breached_def rule_test_def sample_reading_def)
  then show "ev_fired (evaluateRule (ALL_HEALTH_RULES ! 5) (Some (sample_reading (Some (Qty 40 2)) False None)) None None)"
    using tests by (subst fires_iff) (simp_all add: inapplicable_verdict_def rule_test_def split: option.splits)
qed

end
