(* ===== verification/Health_Engine.thy ===== *)
theory Health_Engine
  imports Health_Model Warning_Rules
begin

text \<open>
  \<open>src/contexts/health/internal/health-engine.ts\<close>: the score of a dimension, the composite, the
  system-assessed band and the three RAG values kept apart, with the coverage, completeness and
  explanation reported beside them.
\<close>

datatype rag = RED | AMBER | GREEN

fun RAG_ORDER :: "rag \<Rightarrow> int" where
  "RAG_ORDER RED = 0"
| "RAG_ORDER AMBER = 1"
| "RAG_ORDER GREEN = 2"

fun rag_text :: "rag \<Rightarrow> string" where
  "rag_text RED = ''RED''"
| "rag_text AMBER = ''AMBER''"
| "rag_text GREEN = ''GREEN''"

section \<open>Records\<close>

record input_score =
  is_metricId :: string
  is_signalId :: string
  is_observed :: "string option"
  is_normalised :: "quantity option"
  is_state :: signal_state
  is_reasonCode :: "reason_code option"
  is_reason :: "string option"
  is_weight :: quantity
  is_greenEdge :: quantity
  is_redEdge :: quantity
  is_higherIsBetter :: bool
  is_materiality :: "materiality option"

record dimension_score =
  ds_dimensionId :: string
  ds_name :: string
  ds_metricId :: string
  ds_weight :: quantity
  ds_score :: "quantity option"
  ds_contribution :: "quantity option"
  ds_inputs :: "input_score list"
  ds_notComputableReason :: "string option"

record rag_override =
  ov_rag :: rag
  ov_reason :: string
  ov_actorId :: string
  ov_appliedAt :: instant
  ov_expiresAt :: instant

record health_input =
  hi_applicability :: "applicability_context option"
  hi_declaredSignals :: "string list option"
  hi_projectId :: string
  hi_week :: week_id
  hi_assessedAt :: instant
  hi_model :: health_model
  hi_metricCatalogVersion :: string
  hi_readings :: "(string, signal_reading) js_map"
  hi_reportedRag :: "rag option"
  hi_override :: "rag_override option"
  hi_evidence :: "record_ref list"

record uncovered_control =
  uc_ruleId :: string
  uc_reasonCode :: reason_code
  uc_reason :: string
  uc_requiredEvidence :: "string list"
  uc_missingEvidence :: "string list"

record rule_coverage =
  overridesDeclared :: nat
  overridesApplicable :: nat
  overridesNotApplicable :: nat
  overridesFired :: nat
  overridesClear :: nat
  overridesNotComputable :: nat
  notApplicableCriticalControls :: "(string \<times> reason_code \<times> string) list"
  unevaluatedApplicableCriticalControls :: "uncovered_control list"
  configurationErrorCriticalControls :: "string list"
  allApplicableCriticalControlsEvaluated :: bool

datatype assessment_status = COMPLETE | PROVISIONAL | ASSESSMENT_NOT_COMPUTABLE

record missing_dimension =
  md_dimensionId :: string
  md_name :: string
  md_weight :: quantity
  md_reason :: string

datatype conflict_direction = REPORTED_OPTIMISTIC | REPORTED_PESSIMISTIC

record status_conflict =
  sc_reportedRag :: rag
  sc_systemAssessedRag :: rag
  sc_divergence :: int
  sc_direction :: conflict_direction
  sc_narrative :: string
  sc_unexplainedBy :: "string list"

record health_evaluation =
  he_projectId :: string
  he_week :: week_id
  he_assessedAt :: instant
  he_healthModelVersion :: rule_version
  he_compositeScore :: "quantity option"
  he_dimensions :: "dimension_score list"
  he_reportedRag :: "rag option"
  he_systemAssessedRag :: rag
  he_effectiveRag :: rag
  he_overrideApplied :: bool
  he_statusDivergence :: "int option"
  he_statusConflict :: "status_conflict option"
  he_firedOverrides :: "string list"
  he_ruleCoverage :: rule_coverage
  he_compositeBand :: "rag option"
  he_overrideChangedBand :: bool
  he_assessmentStatus :: assessment_status
  he_missingMaterialInputs :: "string list"
  he_dimensionCoverage :: "quantity option"
  he_availableWeight :: quantity
  he_declaredWeight :: quantity
  he_missingDimensions :: "missing_dimension list"
  he_explanation :: explanation

section \<open>Scoring a dimension\<close>

definition score_input :: "decimal_js \<Rightarrow> (string, signal_reading) js_map \<Rightarrow> dimension_input \<Rightarrow> input_score" where
  "score_input dj readings x =
     (let r = js_get readings (in_signalId x);
          state = signalStateOf r
      in \<lparr>is_metricId = in_metricId x,
          is_signalId = in_signalId x,
          is_observed = (if state = UNBOUNDED then Some ''UNBOUNDED'' else reading_text r),
          is_normalised =
            (if state = UNBOUNDED then Some Q_ZERO
             else if state = OBSERVED \<or> state = KNOWN_ZERO
             then map_option (\<lambda>v. normaliseToScore dj v (in_greenEdge x) (in_redEdge x) (in_higherIsBetter x))
                    (Option.bind r rd_value)
             else None),
          is_state = state,
          is_reasonCode = Option.bind r rd_stateReasonCode,
          is_reason = Option.bind r rd_notComputableReason,
          is_weight = in_weight x,
          is_greenEdge = in_greenEdge x,
          is_redEdge = in_redEdge x,
          is_higherIsBetter = in_higherIsBetter x,
          is_materiality = in_materiality x\<rparr>)"

definition missing_required :: "dimension_input list \<Rightarrow> input_score list \<Rightarrow> string list" where
  "missing_required dims inputs =
     map (\<lambda>x. in_signalId x @ '' ('' @ in_metricId x @ '')'')
       (filter (\<lambda>x. (case find (\<lambda>y. is_signalId y = in_signalId x) inputs of
                       None \<Rightarrow> True | Some y \<Rightarrow> is_normalised y = None))
         (filter in_required dims))"

definition weight_of :: "dimension_definition \<Rightarrow> quantity" where
  "weight_of d = nullish (dim_weight d) (Qty 0 0)"

definition unscored :: "dimension_definition \<Rightarrow> input_score list \<Rightarrow> string \<Rightarrow> dimension_score" where
  "unscored d inputs reason =
     \<lparr>ds_dimensionId = dim_id d, ds_name = dim_name d, ds_metricId = dim_metricId d,
      ds_weight = weight_of d, ds_score = None, ds_contribution = None, ds_inputs = inputs,
      ds_notComputableReason = Some reason\<rparr>"

definition usable_inputs :: "input_score list \<Rightarrow> (quantity \<times> quantity) list" where
  "usable_inputs inputs = List.map_filter (\<lambda>x. map_option (\<lambda>n. (n, is_weight x)) (is_normalised x)) inputs"

text \<open>The weighted sum of values, \<open>reduce((a, x) => qAdd(a, qMul(value, weight)), Q_ZERO)\<close>.\<close>

definition weighted_sum :: "decimal_js \<Rightarrow> (quantity \<times> quantity) list \<Rightarrow> quantity" where
  "weighted_sum dj pairs = foldl (\<lambda>a (n, w). qAdd dj a (qMul dj n w)) Q_ZERO pairs"

definition scoreDimension :: "decimal_js \<Rightarrow> dimension_definition \<Rightarrow> (string, signal_reading) js_map \<Rightarrow> dimension_score" where
  "scoreDimension dj d readings =
     (let inputs = map (score_input dj readings) (dim_inputs d);
          usable = usable_inputs inputs;
          missing = missing_required (dim_inputs d) inputs
      in if missing \<noteq> [] then
           unscored d inputs
             (''required signal'' @ (if length missing > 1 then ''s'' else '''') @ '' not supplied: '' @
              join_with '', '' missing @ ''. A dimension without the measure it is about is not a '' @
              ''partial score, it is a different metric.'')
         else if length usable = 0 \<or> length usable * 2 < length inputs then
           unscored d inputs
             (''only '' @ show_nat (length usable) @ '' of '' @ show_nat (length inputs) @
              '' contributing metrics are computable; '' @
              ''a dimension carried by fewer than half its inputs is not reported'')
         else
           let totalWeight = sum_weights dj (map snd usable);
               weighted = weighted_sum dj usable
           in (case qDiv dj weighted totalWeight of
                 None \<Rightarrow> unscored d inputs ''contributing input weights sum to zero''
               | Some score \<Rightarrow>
                   \<lparr>ds_dimensionId = dim_id d, ds_name = dim_name d, ds_metricId = dim_metricId d,
                    ds_weight = weight_of d,
                    ds_score = Some (qFixed dj score 2),
                    ds_contribution = Some (qFixed dj (qMul dj score (weight_of d)) 2),
                    ds_inputs = inputs, ds_notComputableReason = None\<rparr>))"

section \<open>The composite and its band\<close>

definition scored_pairs :: "dimension_score list \<Rightarrow> (quantity \<times> quantity) list" where
  "scored_pairs dimensions = List.map_filter (\<lambda>d. map_option (\<lambda>s. (s, ds_weight d)) (ds_score d)) dimensions"

definition composite_of :: "decimal_js \<Rightarrow> health_model \<Rightarrow> dimension_score list \<Rightarrow> quantity option" where
  "composite_of dj model dimensions =
     (let scored = scored_pairs dimensions
      in if scored = [] \<or> hm_blockedBy model \<noteq> None then None
         else map_option (\<lambda>c. qFixed dj c 2)
                (qDiv dj (weighted_sum dj scored) (sum_weights dj (map snd scored))))"

definition band_of :: "quantity \<Rightarrow> rag" where
  "band_of composite =
     (if qCompare composite greenFloor \<ge> 0 then GREEN
      else if qCompare composite amberFloor \<ge> 0 then AMBER else RED)"

text \<open>The band and the sentence that explains it.\<close>

definition assess_band :: "quantity option \<Rightarrow> string list \<Rightarrow> string list \<Rightarrow> rag \<times> string" where
  "assess_band compositeScore firedOverrides firedElevations =
     (if firedOverrides \<noteq> [] then
        (RED,
         ''Red is forced by '' @ show_nat (length firedOverrides) @ '' hard override''
         @ (if length firedOverrides > 1 then ''s'' else '''') @ '' ''
         @ ''('' @ join_with '', '' firedOverrides @ ''), regardless of the composite score. An override exists precisely ''
         @ ''because a weighted average can absorb a catastrophe in one dimension. ''
         @ ''The weighted composite alone would have banded this project ''
         @ (case compositeScore of None \<Rightarrow> ''NOT COMPUTABLE'' | Some c \<Rightarrow> rag_text (band_of c))
         @ '' -- the Red above is a policy decision, not the '' @ ''model's arithmetic.'')
      else (case compositeScore of
          None \<Rightarrow>
            (AMBER,
             ''The composite could not be computed, so no band could be derived from it. Amber is reported ''
             @ ''rather than Green: an unassessable project is not a healthy one.'')
        | Some c \<Rightarrow>
            let text =
              ''Composite '' @ q_text c @ '' banded against the HEALTH-v2 thresholds ''
              @ ''(Green >= '' @ q_text greenFloor @ '', Amber >= '' @ q_text amberFloor @ '').''
            in if band_of c = GREEN \<and> firedElevations \<noteq> [] then
                 (AMBER, text @ '' Elevated to Amber by '' @ join_with '', '' firedElevations
                    @ '': the composite is in the Green band but a '' @ ''warning condition is live.'')
               else (band_of c, text)))"

section \<open>Coverage and completeness\<close>

definition costsCompleteness :: "(string, signal_reading) js_map \<Rightarrow> string \<Rightarrow> bool" where
  "costsCompleteness readings signalId =
     (let st = signalStateOf (js_get readings signalId)
      in st = NOT_COMPUTABLE \<or> st = CONFIGURATION_ERROR)"

definition materialAbsent :: "health_model \<Rightarrow> (string, signal_reading) js_map \<Rightarrow> (string \<times> string) list" where
  "materialAbsent model readings =
     concat (map (\<lambda>d. map (\<lambda>x. (in_signalId x, in_signalId x @ '' ('' @ in_metricId x @ '', '' @ dim_name d @ '')''))
                        (filter (\<lambda>x. costsCompleteness readings (in_signalId x)) (dim_inputs d)))
       (hm_dimensions model))"

definition inapplicableSignals :: "rule_evaluation list \<Rightarrow> string list" where
  "inapplicableSignals evaluations =
     map ev_signalId (filter (\<lambda>e. ev_status e = RULE_NOT_APPLICABLE) evaluations)"

definition missingMaterialInputs :: "health_model \<Rightarrow> (string, signal_reading) js_map \<Rightarrow> rule_evaluation list \<Rightarrow> string list" where
  "missingMaterialInputs model readings evaluations =
     map snd (filter (\<lambda>x. fst x \<notin> set (inapplicableSignals evaluations)) (materialAbsent model readings))"

definition missingDimensions :: "dimension_score list \<Rightarrow> missing_dimension list" where
  "missingDimensions dimensions =
     map (\<lambda>d. \<lparr>md_dimensionId = ds_dimensionId d, md_name = ds_name d, md_weight = ds_weight d,
                md_reason = nullish (ds_notComputableReason d) ''no reason recorded''\<rparr>)
       (filter (\<lambda>d. ds_score d = None) dimensions)"

definition assessmentStatus :: "quantity option \<Rightarrow> missing_dimension list \<Rightarrow> string list \<Rightarrow> assessment_status" where
  "assessmentStatus compositeScore missing_dims missing_inputs =
     (if compositeScore = None then ASSESSMENT_NOT_COMPUTABLE
      else if length missing_dims = 0 \<and> length missing_inputs = 0 then COMPLETE else PROVISIONAL)"

definition with_status :: "rule_status \<Rightarrow> rule_evaluation list \<Rightarrow> rule_evaluation list" where
  "with_status st evaluations = filter (\<lambda>e. ev_status e = st) evaluations"

definition ruleCoverage :: "rule_evaluation list \<Rightarrow> rule_coverage" where
  "ruleCoverage evaluations =
     (let notApplicable = with_status RULE_NOT_APPLICABLE evaluations;
          notComputable = with_status RULE_NOT_COMPUTABLE evaluations;
          configErrors = with_status RULE_CONFIGURATION_ERROR evaluations
      in \<lparr>overridesDeclared = length evaluations,
          overridesApplicable = length evaluations - length notApplicable,
          overridesNotApplicable = length notApplicable,
          overridesFired = length (with_status FIRED evaluations),
          overridesClear = length (with_status CLEAR evaluations),
          overridesNotComputable = length notComputable,
          notApplicableCriticalControls =
            map (\<lambda>e. (ev_ruleId e, nullish (ev_notEvaluatedReasonCode e) LIFECYCLE_NOT_APPLICABLE,
                       nullish (ev_notEvaluatedReason e) ''not applicable'')) notApplicable,
          unevaluatedApplicableCriticalControls =
            map (\<lambda>e. \<lparr>uc_ruleId = ev_ruleId e,
                       uc_reasonCode = nullish (ev_notEvaluatedReasonCode e) REQUIRED_METRIC_NOT_COMPUTABLE,
                       uc_reason = nullish (ev_notEvaluatedReason e) ''not computable'',
                       uc_requiredEvidence = nullish (ev_requiredEvidence e) [],
                       uc_missingEvidence = nullish (ev_missingEvidence e) []\<rparr>) notComputable,
          configurationErrorCriticalControls = map ev_ruleId configErrors,
          allApplicableCriticalControlsEvaluated = (length notComputable = 0 \<and> length configErrors = 0)\<rparr>)"

section \<open>The three RAG values\<close>

definition overrideInDate :: "rag_override option \<Rightarrow> instant \<Rightarrow> bool" where
  "overrideInDate ovr assessedAt =
     (case ovr of None \<Rightarrow> False
      | Some o' \<Rightarrow> inst_le (ov_appliedAt o') assessedAt \<and> inst_lt assessedAt (ov_expiresAt o'))"

definition status_divergence :: "rag option \<Rightarrow> rag \<Rightarrow> int option" where
  "status_divergence reportedRag systemAssessedRag =
     map_option (\<lambda>r. RAG_ORDER r - RAG_ORDER systemAssessedRag) reportedRag"

definition status_conflict_of :: "rag option \<Rightarrow> rag \<Rightarrow> string list \<Rightarrow> status_conflict option" where
  "status_conflict_of reportedRag systemAssessedRag unexplained =
     (case reportedRag of None \<Rightarrow> None
      | Some reported \<Rightarrow>
          let divergence = RAG_ORDER reported - RAG_ORDER systemAssessedRag
          in if divergence = 0 then None
             else Some \<lparr>sc_reportedRag = reported,
                        sc_systemAssessedRag = systemAssessedRag,
                        sc_divergence = divergence,
                        sc_direction = (if divergence > 0 then REPORTED_OPTIMISTIC else REPORTED_PESSIMISTIC),
                        sc_narrative =
                          ''Reported '' @ rag_text reported @ '' while the evidence supports '' @ rag_text systemAssessedRag
                          @ (if divergence > 0
                             then ''. '' @ ''Nobody is necessarily wrong -- the reporting may simply not have caught up with the ''
                               @ ''arithmetic -- but the gap is the finding, and it is worth more than either value alone.''
                             else ''. The team '' @ ''is reporting more conservatively than the evidence requires, which is worth understanding ''
                               @ ''before it is corrected.''),
                        sc_unexplainedBy = unexplained\<rparr>)"

definition bandEvaluation :: "health_model \<Rightarrow> quantity option \<Rightarrow> rag \<times> string \<Rightarrow> record_ref list \<Rightarrow> rule_evaluation" where
  "bandEvaluation model compositeScore band evidence =
     \<lparr>ev_status = (if fst band \<noteq> GREEN then FIRED else CLEAR),
      ev_notEvaluatedReasonCode = None, ev_requiredEvidence = None, ev_missingEvidence = None,
      ev_ruleId = ''BAND-COMPOSITE'', ev_ruleName = ''Composite banding'', ev_ruleSetId = ''HEALTH'',
      ev_ruleVersion = HEALTH, ev_signalId = ''COMPOSITE_HEALTH_SCORE'',
      ev_signalMetricId = Some (hm_compositeMetricId model),
      ev_observedValue = map_option q_text compositeScore,
      ev_comparison = IN_BAND,
      ev_thresholdValue = Some (''Green >= '' @ q_text greenFloor @ '', Amber >= '' @ q_text amberFloor),
      ev_notEvaluatedReason = None,
      ev_fired = (fst band \<noteq> GREEN),
      ev_trend = None, ev_estimatedImpact = None,
      ev_contribution = ''System-Assessed RAG = '' @ rag_text (fst band),
      ev_narrative = snd band,
      ev_evidence = evidence\<rparr>"

definition overrideEvaluation :: "health_input \<Rightarrow> rag \<Rightarrow> rag \<Rightarrow> rule_evaluation" where
  "overrideEvaluation inp systemAssessedRag effectiveRag =
     (let inDate = overrideInDate (hi_override inp) (hi_assessedAt inp)
      in \<lparr>ev_status = (if inDate then FIRED else CLEAR),
          ev_notEvaluatedReasonCode = None, ev_requiredEvidence = None, ev_missingEvidence = None,
          ev_ruleId = ''RAG-OVERRIDE'', ev_ruleName = ''Authorised manual override'', ev_ruleSetId = ''HEALTH'',
          ev_ruleVersion = HEALTH, ev_signalId = ''MANUAL_OVERRIDE'', ev_signalMetricId = Some ''MET-HLTH-013'',
          ev_observedValue = map_option (\<lambda>o'. rag_text (ov_rag o')) (hi_override inp),
          ev_comparison = PRESENT, ev_thresholdValue = None, ev_notEvaluatedReason = None,
          ev_fired = inDate, ev_trend = None, ev_estimatedImpact = None,
          ev_contribution =
            (if inDate then ''Effective RAG = '' @ rag_text effectiveRag @ '' (override)''
             else ''none -- no in-date override''),
          ev_narrative =
            (case hi_override inp of
               Some o' \<Rightarrow>
                 if inDate
                 then ''An authorised override by '' @ ov_actorId o' @ '' holds this at '' @ rag_text (ov_rag o')
                   @ '' until '' @ instant_text (ov_expiresAt o') @ '': \"'' @ ov_reason o' @ ''\". ''
                   @ ''The system assessment of '' @ rag_text systemAssessedRag
                   @ '' is unchanged and remains visible beneath it.''
                 else ''No in-date authorised override. The effective status is the system assessment.''
             | None \<Rightarrow> ''No in-date authorised override. The effective status is the system assessment.''),
          ev_evidence =
            (if inDate
             then [\<lparr>rr_context = ''health'', rr_entityType = ''RagOverride'', rr_entityId = hi_projectId inp, rr_metricId = None\<rparr>]
             else hi_evidence inp)\<rparr>)"

section \<open>The assessment\<close>

definition override_evaluations :: "health_input \<Rightarrow> rule_evaluation list" where
  "override_evaluations inp =
     evaluateRules HARD_OVERRIDE_RULES (hi_readings inp) (hi_applicability inp) (hi_declaredSignals inp)"

definition elevation_evaluations :: "health_input \<Rightarrow> rule_evaluation list" where
  "elevation_evaluations inp =
     evaluateRules ELEVATION_RULES (hi_readings inp) (hi_applicability inp) (hi_declaredSignals inp)"

definition evaluateHealth :: "decimal_js \<Rightarrow> health_input \<Rightarrow> explanation_error + health_evaluation" where
  "evaluateHealth dj inp =
     (let model = hi_model inp;
          dimensions = map (\<lambda>d. scoreDimension dj d (hi_readings inp)) (hm_dimensions model);
          declaredWeight = sum_weights dj (map weight_of (hm_dimensions model));
          availableWeight = sum_weights dj (map snd (scored_pairs dimensions));
          missing_dims = missingDimensions dimensions;
          coverageRatio = qDiv dj availableWeight declaredWeight;
          compositeScore = composite_of dj model dimensions;
          overrides = override_evaluations inp;
          elevations = elevation_evaluations inp;
          missing_inputs = missingMaterialInputs model (hi_readings inp) (overrides @ elevations);
          firedOverrides = map ev_ruleId (with_status FIRED overrides);
          firedElevations = map ev_ruleId (filter ev_fired elevations);
          compositeBand = map_option band_of compositeScore;
          band = assess_band compositeScore firedOverrides firedElevations;
          systemAssessedRag = fst band;
          inDate = overrideInDate (hi_override inp) (hi_assessedAt inp);
          effectiveRag = (case hi_override inp of
                            Some o' \<Rightarrow> if inDate then ov_rag o' else systemAssessedRag
                          | None \<Rightarrow> systemAssessedRag);
          conflict = status_conflict_of (hi_reportedRag inp) systemAssessedRag (firedOverrides @ firedElevations);
          detail = map_option (\<lambda>c. ''Reported '' @ rag_text (sc_reportedRag c) @ ''; divergence ''
                     @ (if sc_divergence c > 0 then ''+'' else []) @ show_int (sc_divergence c)) conflict
      in and_then
           (explain (''System-Assessed RAG = '' @ rag_text systemAssessedRag) detail (hi_assessedAt inp) HEALTH
              (hi_metricCatalogVersion inp) (Some (hm_version model))
              (overrides @ elevations @ [bandEvaluation model compositeScore band (hi_evidence inp),
                                         overrideEvaluation inp systemAssessedRag effectiveRag]))
           (\<lambda>ex. Inr
              \<lparr>he_projectId = hi_projectId inp,
               he_week = hi_week inp,
               he_assessedAt = hi_assessedAt inp,
               he_healthModelVersion = hm_version model,
               he_compositeScore = compositeScore,
               he_dimensions = dimensions,
               he_reportedRag = hi_reportedRag inp,
               he_systemAssessedRag = systemAssessedRag,
               he_effectiveRag = effectiveRag,
               he_overrideApplied = inDate,
               he_statusDivergence = status_divergence (hi_reportedRag inp) systemAssessedRag,
               he_statusConflict = conflict,
               he_firedOverrides = firedOverrides,
               he_ruleCoverage = ruleCoverage overrides,
               he_compositeBand = compositeBand,
               he_overrideChangedBand = (firedOverrides \<noteq> [] \<and> compositeBand \<noteq> Some RED),
               he_assessmentStatus = assessmentStatus compositeScore missing_dims missing_inputs,
               he_missingMaterialInputs = missing_inputs,
               he_dimensionCoverage = map_option (\<lambda>c. qFixed dj c 4) coverageRatio,
               he_availableWeight = qFixed dj availableWeight 4,
               he_declaredWeight = qFixed dj declaredWeight 4,
               he_missingDimensions = missing_dims,
               he_explanation = ex\<rparr>))"

definition ratioToSignal :: "decimal_js \<Rightarrow> ratio \<Rightarrow> quantity option" where
  "ratioToSignal dj r = (if isComputable r then ratioToQuantity dj r else None)"

text \<open>The headline values in their envelopes.\<close>

definition toProvenance :: "health_evaluation \<Rightarrow> record_ref list \<Rightarrow>
    provenance_error + (quantity provenance option \<times> rag provenance \<times> rag provenance)" where
  "toProvenance a evidence =
     and_then (case he_compositeScore a of
                 None \<Rightarrow> Inr None
               | Some c \<Rightarrow> and_then (derived c evidence (he_healthModelVersion a) (he_assessedAt a)) (\<lambda>p. Inr (Some p)))
       (\<lambda>composite. and_then (inferred (he_systemAssessedRag a) evidence (he_assessedAt a) (Some (he_healthModelVersion a)))
       (\<lambda>sys. and_then (inferred (he_effectiveRag a) evidence (he_assessedAt a) (Some (he_healthModelVersion a)))
       (\<lambda>eff. Inr (composite, sys, eff))))"

section \<open>Weighted means stay in range\<close>

definition percent :: "quantity \<Rightarrow> bool" where
  "percent q \<longleftrightarrow> 0 \<le> qval q \<and> qval q \<le> 100"

context decimal_lib begin

lemma weighted_step:
  assumes "0 \<le> qval a" "qval a \<le> 100 * s" "percent n" "modest_weights [w]"
    and "fits q_precision (100 * (s + qval w))"
  shows "0 \<le> qval (qAdd dj a (qMul dj n w)) \<and> qval (qAdd dj a (qMul dj n w)) \<le> 100 * (s + qval w)"
proof -
  have w: "0 \<le> qval w" using assms(4) by (simp add: modest_weights_def)
  have "0 \<le> dround dj q_precision (qval n * qval w)"
    using assms(3) w by (intro round_nonneg) (simp add: percent_def)
  moreover have "dround dj q_precision (qval n * qval w) \<le> 100 * qval w"
    using assms(3) w modest_fits [OF assms(4)]
    by (intro round_le_fits) (simp_all add: percent_def mult_right_mono)
  ultimately have "0 \<le> qval a + dround dj q_precision (qval n * qval w)"
    "qval a + dround dj q_precision (qval n * qval w) \<le> 100 * (s + qval w)"
    using assms(1,2) by (simp_all add: algebra_simps)
  then show ?thesis using assms(5) by (simp add: qval_ops round_nonneg round_le_fits)
qed

lemma weighted_bound:
  "modest_weights (map snd pairs) \<Longrightarrow> list_all (\<lambda>p. percent (fst p)) pairs \<Longrightarrow>
    0 \<le> qval (weighted_sum dj pairs)
    \<and> qval (weighted_sum dj pairs) \<le> 100 * sum_list (map (\<lambda>p. qval (snd p)) pairs)"
proof (induction pairs rule: rev_induct)
  case Nil
  show ?case by (simp add: weighted_sum_def)
next
  case (snoc p pairs)
  have sub: "modest_weights (map snd pairs)" "modest_weights [snd p]"
    using snoc.prems(1) by (auto simp: modest_weights_def)
  have "0 \<le> qval (qAdd dj (weighted_sum dj pairs) (qMul dj (fst p) (snd p)))
    \<and> qval (qAdd dj (weighted_sum dj pairs) (qMul dj (fst p) (snd p)))
      \<le> 100 * (sum_list (map (\<lambda>p. qval (snd p)) pairs) + qval (snd p))"
  proof (rule weighted_step)
    show "fits q_precision (100 * (sum_list (map (\<lambda>p. qval (snd p)) pairs) + qval (snd p)))"
      using modest_fits [OF snoc.prems(1)] by (simp add: o_def)
  qed (use snoc sub in simp_all)
  then show ?case by (simp add: weighted_sum_def case_prod_beta)
qed

lemma weighted_mono:
  assumes "length xs = length ys" "\<And>i. i < length xs \<Longrightarrow> snd (xs ! i) = snd (ys ! i)"
    and "\<And>i. i < length xs \<Longrightarrow> 0 \<le> qval (snd (xs ! i)) \<and> qval (fst (xs ! i)) \<le> qval (fst (ys ! i))"
  shows "qval (weighted_sum dj xs) \<le> qval (weighted_sum dj ys)"
proof -
  let ?f = "\<lambda>a p. qAdd dj a (qMul dj (fst p) (snd p))"
  have "qval (foldl ?f a xs) \<le> qval (foldl ?f b ys)" if "qval a \<le> qval b" for a b
    using assms that
  proof (induction xs ys arbitrary: a b rule: list_induct2)
    case Nil
    then show ?case by simp
  next
    case (Cons x xs y ys)
    have x: "snd x = snd y" "0 \<le> qval (snd x)" "qval (fst x) \<le> qval (fst y)"
      using Cons.prems(1) [of 0] Cons.prems(2) [of 0] by auto
    then have "dround dj q_precision (qval (fst x) * qval (snd x)) \<le> dround dj q_precision (qval (fst y) * qval (snd y))"
      by (intro round_mono) (simp add: mult_right_mono)
    then have step: "qval (?f a x) \<le> qval (?f b y)"
      using Cons.prems(3) by (simp add: qval_ops round_mono)
    have tl1: "snd (xs ! i) = snd (ys ! i)" if "i < length xs" for i
      using Cons.prems(1) [of "Suc i"] that by simp
    have tl2: "0 \<le> qval (snd (xs ! i)) \<and> qval (fst (xs ! i)) \<le> qval (fst (ys ! i))" if "i < length xs" for i
      using Cons.prems(2) [of "Suc i"] that by simp
    show ?case unfolding foldl_Cons by (rule Cons.IH [OF tl1 tl2 step])
  qed
  then show ?thesis by (simp add: weighted_sum_def case_prod_beta')
qed

text \<open>The mean \<open>qFixed(weighted / total, 2)\<close> of values between 0 and 100 is between 0 and 100.\<close>

lemma weighted_mean_bound:
  assumes "modest_weights (map snd pairs)" "list_all (\<lambda>p. percent (fst p)) pairs"
    and "qDiv dj (weighted_sum dj pairs) (sum_weights dj (map snd pairs)) = Some c"
  shows "percent (qFixed dj c 2)"
proof -
  let ?s = "sum_list (map (\<lambda>p. qval (snd p)) pairs)"
  have tot: "qval (sum_weights dj (map snd pairs)) = ?s"
    using sum_weights_exact [OF assms(1)] by (simp add: o_def)
  have "0 \<le> ?s" using modest_sum(1) [OF assms(1)] by (simp add: o_def)
  then have pos: "0 < ?s" using qDiv_Some [OF assms(3)] tot by simp
  have b: "0 \<le> qval (weighted_sum dj pairs)" "qval (weighted_sum dj pairs) \<le> 100 * ?s"
    using weighted_bound [OF assms(1,2)] by auto
  have c: "qval c = dround dj q_precision (qval (weighted_sum dj pairs) / ?s)"
    using qDiv_Some [OF assms(3)] tot by simp
  have "0 \<le> qval (weighted_sum dj pairs) / ?s" "qval (weighted_sum dj pairs) / ?s \<le> 100"
    using b pos by (simp_all add: pos_divide_le_eq)
  then have "0 \<le> qval c" "qval c \<le> 100"
    unfolding c by (blast intro: round_nonneg round_le_fits fits_100(2))+
  then have "0 \<le> qval (dfixed dj 2 (qval c)) \<and> qval (dfixed dj 2 (qval c)) \<le> 100"
    by (rule fixed_bounds [where a = 0 and b = 100]) simp_all
  then show ?thesis unfolding percent_def qFixed_def .
qed

lemma percent_normalised: "is_normalised (score_input dj readings x) = Some n \<Longrightarrow> percent n"
  using normalise_bounds
  by (auto simp: score_input_def Let_def percent_def normaliseToScore_def split: if_splits)

end

section \<open>Scores are percentages\<close>

lemma usable_weights: "set (map snd (usable_inputs (map (score_input dj readings) xs))) \<subseteq> set (map in_weight xs)"
  by (auto simp: usable_inputs_def List.map_filter_def score_input_def Let_def split: option.splits)

lemma usable_length: "length (usable_inputs inputs) \<le> length inputs"
  by (simp add: usable_inputs_def List.map_filter_def)

lemma usable_modest:
  "modest_weights (map in_weight (dim_inputs d)) \<Longrightarrow>
    modest_weights (map snd (usable_inputs (map (score_input dj readings) (dim_inputs d))))"
proof (erule modest_sub)
  show "length (map snd (usable_inputs (map (score_input dj readings) (dim_inputs d))))
      \<le> length (map in_weight (dim_inputs d))"
    using usable_length [of "map (score_input dj readings) (dim_inputs d)"] by simp
qed (rule usable_weights)

lemma usable_percent:
  assumes "decimal_lib dj"
  shows "list_all (\<lambda>p. percent (fst p)) (usable_inputs (map (score_input dj readings) xs))"
  using decimal_lib.percent_normalised [OF assms]
  by (auto simp: usable_inputs_def List.map_filter_def list_all_iff split: option.splits)

lemma dimension_percent:
  assumes "decimal_lib dj" "modest_weights (map in_weight (dim_inputs d))"
    and "ds_score (scoreDimension dj d readings) = Some c"
  shows "percent c"
proof -
  let ?u = "usable_inputs (map (score_input dj readings) (dim_inputs d))"
  obtain q where "qDiv dj (weighted_sum dj ?u) (sum_weights dj (map snd ?u)) = Some q" "c = qFixed dj q 2"
    using assms(3) by (auto simp: scoreDimension_def Let_def unscored_def split: if_splits option.splits)
  then show ?thesis
    using decimal_lib.weighted_mean_bound [OF assms(1) usable_modest [OF assms(2)] usable_percent [OF assms(1)]]
    by blast
qed

lemma scoreDimension_weight [simp]: "ds_weight (scoreDimension dj d readings) = weight_of d"
  by (simp add: scoreDimension_def Let_def unscored_def split: option.splits)

lemma composite_percent:
  assumes "decimal_lib dj" "modest_model m"
    and "composite_of dj m (map (\<lambda>d. scoreDimension dj d readings) (hm_dimensions m)) = Some c"
  shows "percent c"
proof -
  let ?p = "scored_pairs (map (\<lambda>d. scoreDimension dj d readings) (hm_dimensions m))"
  obtain q where q: "qDiv dj (weighted_sum dj ?p) (sum_weights dj (map snd ?p)) = Some q" "c = qFixed dj q 2"
    using assms(3) by (auto simp: composite_of_def Let_def split: if_splits)
  have "set (map snd ?p) \<subseteq> set (map (\<lambda>d. nullish (dim_weight d) Q_ZERO) (hm_dimensions m))"
    by (auto simp: scored_pairs_def List.map_filter_def weight_of_def Q_ZERO_def split: option.splits)
  moreover have "length (map snd ?p) \<le> length (map (\<lambda>d. nullish (dim_weight d) Q_ZERO) (hm_dimensions m))"
    unfolding scored_pairs_def List.map_filter_def using length_filter_le by (simp add: le_trans)
  ultimately have "modest_weights (map snd ?p)"
    using assms(2) unfolding modest_model_def by (blast intro: modest_sub)
  moreover have "list_all (\<lambda>p. percent (fst p)) ?p"
    using dimension_percent [OF assms(1)] assms(2)
    by (auto simp: scored_pairs_def List.map_filter_def list_all_iff modest_model_def split: option.splits)
  ultimately show ?thesis using q decimal_lib.weighted_mean_bound [OF assms(1)] by blast
qed

section \<open>The assessment, field by field\<close>

lemma evaluateHealth_fields:
  "evaluateHealth dj inp = Inr h \<Longrightarrow>
    he_dimensions h = map (\<lambda>d. scoreDimension dj d (hi_readings inp)) (hm_dimensions (hi_model inp))
    \<and> he_compositeScore h = composite_of dj (hi_model inp) (he_dimensions h)
    \<and> he_firedOverrides h = map ev_ruleId (with_status FIRED (override_evaluations inp))
    \<and> he_systemAssessedRag h = fst (assess_band (he_compositeScore h) (he_firedOverrides h)
          (map ev_ruleId (filter ev_fired (elevation_evaluations inp))))
    \<and> he_compositeBand h = map_option band_of (he_compositeScore h)
    \<and> he_overrideApplied h = overrideInDate (hi_override inp) (hi_assessedAt inp)
    \<and> he_effectiveRag h = (case hi_override inp of
          Some o' \<Rightarrow> if he_overrideApplied h then ov_rag o' else he_systemAssessedRag h
        | None \<Rightarrow> he_systemAssessedRag h)
    \<and> he_reportedRag h = hi_reportedRag inp
    \<and> he_statusDivergence h = status_divergence (hi_reportedRag inp) (he_systemAssessedRag h)
    \<and> he_statusConflict h = status_conflict_of (hi_reportedRag inp) (he_systemAssessedRag h)
          (he_firedOverrides h @ map ev_ruleId (filter ev_fired (elevation_evaluations inp)))
    \<and> he_ruleCoverage h = ruleCoverage (override_evaluations inp)
    \<and> he_overrideChangedBand h = (he_firedOverrides h \<noteq> [] \<and> he_compositeBand h \<noteq> Some RED)
    \<and> he_missingDimensions h = missingDimensions (he_dimensions h)
    \<and> he_missingMaterialInputs h = missingMaterialInputs (hi_model inp) (hi_readings inp)
          (override_evaluations inp @ elevation_evaluations inp)
    \<and> he_assessmentStatus h = assessmentStatus (he_compositeScore h) (he_missingDimensions h) (he_missingMaterialInputs h)"
  unfolding evaluateHealth_def Let_def and_then_Inr_iff
  by (elim exE conjE, drule sum.inject(2) [THEN iffD1], hypsubst, simp split: option.splits)

lemma hard_rule_threshold: "r \<in> set HARD_OVERRIDE_RULES \<Longrightarrow> rule_threshold r \<noteq> None"
proof -
  assume "r \<in> set HARD_OVERRIDE_RULES"
  then have "rule_test r \<in> set (map rule_test ALL_HEALTH_RULES)" by (simp add: ALL_HEALTH_RULES_def)
  then have "snd (snd (rule_test r)) \<noteq> None" unfolding health_tests by auto
  then show ?thesis by (simp add: rule_test_def)
qed

lemma breach_fires_override:
  assumes "r \<in> set HARD_OVERRIDE_RULES" "js_get (hi_readings inp) (rule_signalId r) = Some reading"
    and "breached r reading" "inapplicable_verdict r (hi_applicability inp) = None"
    and "case hi_declaredSignals inp of None \<Rightarrow> True | Some ds \<Rightarrow> rule_signalId r \<in> set ds"
  shows "rule_id r \<in> set (map ev_ruleId (with_status FIRED (override_evaluations inp)))"
proof -
  let ?e = "evaluateRule r (Some reading) (hi_applicability inp) (hi_declaredSignals inp)"
  have "ev_fired ?e \<longleftrightarrow> breached r reading"
    using assms(4,5) hard_rule_threshold [OF assms(1)] by (intro fires_iff) (auto split: option.splits)
  then have "ev_status ?e = FIRED" using assms(3) by (simp add: fired_iff_status)
  moreover have "?e \<in> set (override_evaluations inp)"
    using assms(1,2) by (force simp: override_evaluations_def evaluateRules_def)
  ultimately show ?thesis by (force simp: with_status_def)
qed

text \<open>C1: no average absorbs a catastrophe. If one forcing rule applies and is breached by the
  reading of its signal, the system-assessed band is red and the rule is named, whatever the scores
  of the dimensions and the composite are.\<close>

theorem hard_override_forces_red:
  assumes "evaluateHealth dj inp = Inr h" "r \<in> set HARD_OVERRIDE_RULES"
    and "js_get (hi_readings inp) (rule_signalId r) = Some reading" "breached r reading"
    and "inapplicable_verdict r (hi_applicability inp) = None"
    and "case hi_declaredSignals inp of None \<Rightarrow> True | Some ds \<Rightarrow> rule_signalId r \<in> set ds"
  shows "he_systemAssessedRag h = RED \<and> rule_id r \<in> set (he_firedOverrides h)
    \<and> he_overrideChangedBand h = (he_compositeBand h \<noteq> Some RED)"
proof -
  note f = evaluateHealth_fields [OF assms(1)]
  have mem: "rule_id r \<in> set (he_firedOverrides h)"
    using breach_fires_override [OF assms(2-6)] f by simp
  then have ne: "he_firedOverrides h \<noteq> []" by auto
  then have "fst (assess_band (he_compositeScore h) (he_firedOverrides h) els) = RED" for els
    by (simp add: assess_band_def)
  with f mem ne show ?thesis by simp
qed

text \<open>C2: what each band means. Green: nothing forced, no warning live, and a composite of at least
  70. Red: a forcing rule fired, or the composite is below 45. Everything else is amber, an
  assessment without a composite among it.\<close>

theorem band_characterised:
  "case evaluateHealth dj inp of
     Inl _ \<Rightarrow> True
   | Inr h \<Rightarrow>
       (he_systemAssessedRag h = GREEN \<longleftrightarrow>
          he_firedOverrides h = [] \<and> filter ev_fired (elevation_evaluations inp) = []
          \<and> (\<exists>c. he_compositeScore h = Some c \<and> 70 \<le> qval c))
     \<and> (he_systemAssessedRag h = RED \<longleftrightarrow>
          0 < length (he_firedOverrides h) \<or> (\<exists>c. he_compositeScore h = Some c \<and> qval c < 45))"
proof (cases "evaluateHealth dj inp")
  case (Inr h)
  have floors: "qval greenFloor = 70" "qval amberFloor = 45" by (simp_all add: greenFloor_def amberFloor_def)
  have band: "band_of c = GREEN \<longleftrightarrow> 70 \<le> qval c" "band_of c = RED \<longleftrightarrow> qval c < 45"
    "band_of c = AMBER \<longleftrightarrow> 45 \<le> qval c \<and> qval c < 70" for c
    by (auto simp: band_of_def qCompare_sign floors)
  have rag: "he_systemAssessedRag h = fst (assess_band (he_compositeScore h) (he_firedOverrides h)
      (map ev_ruleId (filter ev_fired (elevation_evaluations inp))))"
    using evaluateHealth_fields [OF Inr] by blast
  have "(he_systemAssessedRag h = GREEN \<longleftrightarrow>
          he_firedOverrides h = [] \<and> filter ev_fired (elevation_evaluations inp) = []
          \<and> (\<exists>c. he_compositeScore h = Some c \<and> 70 \<le> qval c))"
    unfolding rag by (auto simp: assess_band_def Let_def band split: option.splits)
  moreover have "he_systemAssessedRag h = RED \<longleftrightarrow>
          0 < length (he_firedOverrides h) \<or> (\<exists>c. he_compositeScore h = Some c \<and> qval c < 45)"
    unfolding rag by (auto simp: assess_band_def Let_def band split: option.splits)
  ultimately show ?thesis using Inr by simp
qed simp

text \<open>The three RAG values stay apart. Declaring another status or applying another override
  changes neither the scores, the composite, the fired rules nor the system-assessed band; the
  declared status is reported as given, and the effective status is the override exactly while it
  is in date.\<close>

theorem rag_values_kept_apart:
  assumes "evaluateHealth dj inp = Inr h"
    and "evaluateHealth dj (inp\<lparr>hi_reportedRag := reported, hi_override := ovr\<rparr>) = Inr h'"
  shows "he_systemAssessedRag h' = he_systemAssessedRag h \<and> he_compositeScore h' = he_compositeScore h
    \<and> he_dimensions h' = he_dimensions h \<and> he_firedOverrides h' = he_firedOverrides h
    \<and> he_ruleCoverage h' = he_ruleCoverage h \<and> he_assessmentStatus h' = he_assessmentStatus h
    \<and> he_reportedRag h' = reported
    \<and> he_effectiveRag h' =
        (case ovr of None \<Rightarrow> he_systemAssessedRag h
         | Some o' \<Rightarrow> if inst_le (ov_appliedAt o') (hi_assessedAt inp) \<and> inst_lt (hi_assessedAt inp) (ov_expiresAt o')
                     then ov_rag o' else he_systemAssessedRag h)"
proof -
  have "override_evaluations (inp\<lparr>hi_reportedRag := reported, hi_override := ovr\<rparr>) = override_evaluations inp"
    "elevation_evaluations (inp\<lparr>hi_reportedRag := reported, hi_override := ovr\<rparr>) = elevation_evaluations inp"
    by (simp_all add: override_evaluations_def elevation_evaluations_def)
  with evaluateHealth_fields [OF assms(1)] evaluateHealth_fields [OF assms(2)] show ?thesis
    by (simp add: overrideInDate_def split: option.splits)
qed

text \<open>Every dimension score and the composite lie between 0 and 100, whatever the readings,
  for every model whose weights are between 0 and 1 and written with at most ten decimals.\<close>

theorem scores_are_percentages:
  assumes "decimal_lib dj" "modest_model (hi_model inp)" "evaluateHealth dj inp = Inr h"
  shows "list_all (\<lambda>d. pred_option percent (ds_score d)) (he_dimensions h)
    \<and> pred_option percent (he_compositeScore h)"
proof -
  note f = evaluateHealth_fields [OF assms(3)]
  have "list_all (\<lambda>d. pred_option percent (ds_score d)) (he_dimensions h)"
  proof -
    have dims: "he_dimensions h = map (\<lambda>d. scoreDimension dj d (hi_readings inp)) (hm_dimensions (hi_model inp))"
      using f by blast
    have "pred_option percent (ds_score (scoreDimension dj d (hi_readings inp)))"
      if "d \<in> set (hm_dimensions (hi_model inp))" for d
      using that assms(2) dimension_percent [OF assms(1), of d "hi_readings inp"]
      by (cases "ds_score (scoreDimension dj d (hi_readings inp))") (simp_all add: modest_model_def list_all_iff)
    then show ?thesis by (simp add: dims list_all_iff)
  qed
  moreover have "pred_option percent (he_compositeScore h)"
  proof (cases "he_compositeScore h")
    case (Some c)
    with f have "composite_of dj (hi_model inp)
        (map (\<lambda>d. scoreDimension dj d (hi_readings inp)) (hm_dimensions (hi_model inp))) = Some c" by metis
    then have "percent c" by (rule composite_percent [OF assms(1,2)])
    then show ?thesis by (simp add: Some)
  qed simp
  ultimately show ?thesis ..
qed

text \<open>The coverage accounts for every forcing rule exactly once, and all applicable ones were
  evaluated exactly when each of them either fired or is clear.\<close>

theorem coverage_partitions_rules:
  "let c = ruleCoverage (override_evaluations inp)
   in overridesDeclared c = length HARD_OVERRIDE_RULES
    \<and> overridesApplicable c = overridesFired c + overridesClear c + overridesNotComputable c
        + length (configurationErrorCriticalControls c)
    \<and> overridesDeclared c = overridesApplicable c + overridesNotApplicable c
    \<and> (allApplicableCriticalControlsEvaluated c \<longleftrightarrow> overridesApplicable c = overridesFired c + overridesClear c)"
proof -
  let ?es = "override_evaluations inp"
  have "length es = length (with_status FIRED es) + length (with_status CLEAR es)
      + length (with_status RULE_NOT_APPLICABLE es) + length (with_status RULE_NOT_COMPUTABLE es)
      + length (with_status RULE_CONFIGURATION_ERROR es)" for es
  proof (induction es)
    case (Cons e es)
    then show ?case by (cases "ev_status e") (simp_all add: with_status_def)
  qed (simp add: with_status_def)
  from this [of ?es] have "length ?es = length (with_status FIRED ?es) + length (with_status CLEAR ?es)
      + length (with_status RULE_NOT_APPLICABLE ?es) + length (with_status RULE_NOT_COMPUTABLE ?es)
      + length (with_status RULE_CONFIGURATION_ERROR ?es)" .
  moreover have "length ?es = length HARD_OVERRIDE_RULES"
    by (simp add: override_evaluations_def evaluateRules_def)
  ultimately show ?thesis by (simp add: ruleCoverage_def Let_def)
qed

lemma evaluateHealth_ok_iff:
  "(\<exists>h. evaluateHealth dj inp = Inr h) \<longleftrightarrow>
     list_all (\<lambda>e. ev_evidence e \<noteq> []) (filter ev_fired (override_evaluations inp @ elevation_evaluations inp))
     \<and> (0 < length (hi_evidence inp)
        \<or> fst (assess_band (composite_of dj (hi_model inp)
              (map (\<lambda>d. scoreDimension dj d (hi_readings inp)) (hm_dimensions (hi_model inp))))
            (map ev_ruleId (with_status FIRED (override_evaluations inp)))
            (map ev_ruleId (filter ev_fired (elevation_evaluations inp)))) = GREEN)"
proof -
  have "(\<exists>h. and_then (explain o' d t rv mv hv evs) (\<lambda>ex. Inr (f ex)) = Inr h)
      \<longleftrightarrow> evs \<noteq> [] \<and> (\<forall>e\<in>set evs. ev_fired e \<longrightarrow> ev_evidence e \<noteq> [])" for o' d t rv mv hv evs and f :: "_ \<Rightarrow> health_evaluation"
    using explain_Inr_iff [of o' d t rv mv hv evs] by (simp add: and_then_Inr_iff)
  note this [simp]
  show ?thesis
    unfolding evaluateHealth_def Let_def
    by (auto simp: bandEvaluation_def overrideEvaluation_def Let_def list_all_iff)
qed

text \<open>An assessment exists exactly when every rule that fired rests on a record: each forcing or
  elevating rule on the evidence of its reading, and a band other than green on the evidence of the
  assessment. Otherwise the assessment is refused.\<close>

theorem assessment_needs_evidence:
  "(\<exists>h. evaluateHealth dj inp = Inr h) \<longleftrightarrow>
     list_all (\<lambda>e. ev_evidence e \<noteq> []) (filter ev_fired (override_evaluations inp @ elevation_evaluations inp))
     \<and> (0 < length (hi_evidence inp)
        \<or> fst (assess_band (composite_of dj (hi_model inp)
              (map (\<lambda>d. scoreDimension dj d (hi_readings inp)) (hm_dimensions (hi_model inp))))
            (map ev_ruleId (with_status FIRED (override_evaluations inp)))
            (map ev_ruleId (filter ev_fired (elevation_evaluations inp)))) = GREEN)"
  by (rule evaluateHealth_ok_iff)

lemma assessment_exists:
  assumes "hi_evidence inp \<noteq> []" "\<And>s r. js_get (hi_readings inp) s = Some r \<Longrightarrow> rd_evidence r \<noteq> []"
  shows "\<exists>h. evaluateHealth dj inp = Inr h"
proof -
  have "ev_evidence (evaluateRule r (js_get (hi_readings inp) s) ctx ds) \<noteq> []"
    if "ev_fired (evaluateRule r (js_get (hi_readings inp) s) ctx ds)" for r s ctx ds
    using that assms(2) evaluateRule_warranted [of r "js_get (hi_readings inp) s" ctx ds]
    by (auto simp: fired_iff_status status_warranted_def)
  then have "list_all (\<lambda>e. ev_evidence e \<noteq> []) (filter ev_fired (override_evaluations inp @ elevation_evaluations inp))"
    by (auto simp: override_evaluations_def elevation_evaluations_def evaluateRules_def list_all_iff)
  with assms(1) show ?thesis by (simp only: evaluateHealth_ok_iff length_greater_0_conv simp_thms)
qed

text \<open>An input to run the theorems on: the executive model and one breached reading, a burn gap of
  forty points.\<close>

definition sample_ref :: record_ref where
  "sample_ref = \<lparr>rr_context = ''financial'', rr_entityType = ''Snapshot'', rr_entityId = ''s-1'', rr_metricId = None\<rparr>"

definition sample_input :: health_input where
  "sample_input = \<lparr>hi_applicability = None, hi_declaredSignals = None, hi_projectId = ''prj-001'',
     hi_week = Week 2026 30, hi_assessedAt = Instant 1785000000 [], hi_model = HEALTH_MODEL_V2,
     hi_metricCatalogVersion = ''1.0'',
     hi_readings = [(''BURN_GAP'', (sample_reading (Some (Qty 40 2)) False None)\<lparr>rd_evidence := [sample_ref]\<rparr>)],
     hi_reportedRag = Some GREEN, hi_override = None, hi_evidence = [sample_ref]\<rparr>"

lemma sample_ok: "\<exists>h. evaluateHealth dj (sample_input\<lparr>hi_reportedRag := r, hi_override := o'\<rparr>) = Inr h"
  by (rule assessment_exists) (auto simp: sample_input_def js_get_def split: if_splits)

lemma sample_ok': "\<exists>h. evaluateHealth dj sample_input = Inr h"
  by (rule assessment_exists) (auto simp: sample_input_def js_get_def split: if_splits)

lemma burn_rule: "HARD_OVERRIDE_RULES ! 5 \<in> set HARD_OVERRIDE_RULES"
  "rule_test (HARD_OVERRIDE_RULES ! 5) = (''BURN_GAP'', GTE, Some (Qty 25 2))"
  "rule_applicability (HARD_OVERRIDE_RULES ! 5) = None"
  by (simp_all add: HARD_OVERRIDE_RULES_def rule_def rule_test_def)

theorem hard_override_forces_red_witness:
  "\<exists>h. evaluateHealth ref_decimal sample_input = Inr h \<and> he_systemAssessedRag h = RED"
proof -
  obtain h where h: "evaluateHealth ref_decimal sample_input = Inr h" using sample_ok' by blast
  let ?r = "HARD_OVERRIDE_RULES ! 5"
  let ?reading = "(sample_reading (Some (Qty 40 2)) False None)\<lparr>rd_evidence := [sample_ref]\<rparr>"
  have t: "rule_signalId ?r = ''BURN_GAP''" "rule_comparison ?r = GTE" "rule_threshold ?r = Some (Qty 25 2)"
    using burn_rule(2) by (simp_all add: rule_test_def)
  have "js_get (hi_readings sample_input) (rule_signalId ?r) = Some ?reading"
    "breached ?r ?reading" "inapplicable_verdict ?r (hi_applicability sample_input) = None"
    "case hi_declaredSignals sample_input of None \<Rightarrow> True | Some ds \<Rightarrow> rule_signalId ?r \<in> set ds"
    using t burn_rule(3)
    by (simp_all add: sample_input_def js_get_def breached_def sample_reading_def inapplicable_verdict_def)
  from hard_override_forces_red [OF h burn_rule(1) this] h show ?thesis by blast
qed

theorem rag_values_kept_apart_witness:
  "\<exists>h h'. evaluateHealth ref_decimal sample_input = Inr h
    \<and> evaluateHealth ref_decimal (sample_input\<lparr>hi_reportedRag := Some RED, hi_override := None\<rparr>) = Inr h'
    \<and> he_systemAssessedRag h' = he_systemAssessedRag h \<and> he_reportedRag h' = Some RED"
proof -
  obtain h where h: "evaluateHealth ref_decimal sample_input = Inr h" using sample_ok' by blast
  obtain h' where h': "evaluateHealth ref_decimal (sample_input\<lparr>hi_reportedRag := Some RED, hi_override := None\<rparr>) = Inr h'"
    using sample_ok by blast
  from rag_values_kept_apart [OF h h'] h h' show ?thesis by blast
qed

theorem scores_are_percentages_witness:
  "\<exists>h. evaluateHealth ref_decimal sample_input = Inr h \<and> pred_option percent (he_compositeScore h)"
proof -
  obtain h where h: "evaluateHealth ref_decimal sample_input = Inr h" using sample_ok' by blast
  have "modest_model (hi_model sample_input)" using v2_modest by (simp add: sample_input_def)
  from scores_are_percentages [OF ref_decimal_lib this h] h show ?thesis by blast
qed

section \<open>A worse reading never improves a dimension\<close>

definition normalised_of :: "decimal_js \<Rightarrow> (string, signal_reading) js_map \<Rightarrow> dimension_input \<Rightarrow> quantity option" where
  "normalised_of dj readings x = is_normalised (score_input dj readings x)"

lemma usable_map:
  "usable_inputs (map (score_input dj readings) xs)
    = map (\<lambda>x. (the (normalised_of dj readings x), in_weight x)) (filter (\<lambda>x. normalised_of dj readings x \<noteq> None) xs)"
  by (induction xs)
    (auto simp: usable_inputs_def normalised_of_def List.map_filter_simps score_input_def Let_def split: option.splits)

lemma missing_required_cong:
  assumes "\<And>x. x \<in> set ys \<Longrightarrow> normalised_of dj readings x = None \<longleftrightarrow> normalised_of dj readings' x = None"
  shows "missing_required xs (map (score_input dj readings) ys) = missing_required xs (map (score_input dj readings') ys)"
proof -
  have sig: "is_signalId (score_input dj R y) = in_signalId y" for R y
    by (simp add: score_input_def Let_def)
  have "(case find (\<lambda>y. is_signalId y = s) (map (score_input dj readings) zs) of None \<Rightarrow> True | Some y \<Rightarrow> is_normalised y = None)
      = (case find (\<lambda>y. is_signalId y = s) (map (score_input dj readings') zs) of None \<Rightarrow> True | Some y \<Rightarrow> is_normalised y = None)"
    if "set zs \<subseteq> set ys" for zs s
    using that assms by (induction zs) (auto simp: sig normalised_of_def)
  then show ?thesis by (simp add: missing_required_def)
qed

lemma dimension_mono:
  assumes "decimal_lib dj" "modest_weights (map in_weight (dim_inputs d))"
    and same: "\<And>x. x \<in> set (dim_inputs d) \<Longrightarrow> normalised_of dj readings x = None \<longleftrightarrow> normalised_of dj readings' x = None"
    and worse: "\<And>x n n'. x \<in> set (dim_inputs d) \<Longrightarrow> normalised_of dj readings x = Some n \<Longrightarrow>
      normalised_of dj readings' x = Some n' \<Longrightarrow> qval n' \<le> qval n"
    and "ds_score (scoreDimension dj d readings) = Some c"
  shows "\<exists>c'. ds_score (scoreDimension dj d readings') = Some c' \<and> qval c' \<le> qval c"
proof -
  let ?i = "map (score_input dj readings) (dim_inputs d)" and ?i' = "map (score_input dj readings') (dim_inputs d)"
  let ?f = "filter (\<lambda>x. normalised_of dj readings x \<noteq> None) (dim_inputs d)"
  have f': "filter (\<lambda>x. normalised_of dj readings' x \<noteq> None) (dim_inputs d) = ?f"
    using same by (intro filter_cong) auto
  have u: "usable_inputs ?i = map (\<lambda>x. (the (normalised_of dj readings x), in_weight x)) ?f"
    and u': "usable_inputs ?i' = map (\<lambda>x. (the (normalised_of dj readings' x), in_weight x)) ?f"
    by (simp_all only: usable_map f')
  have weights: "map snd (usable_inputs ?i') = map snd (usable_inputs ?i)" by (simp add: u u')
  have len: "length (usable_inputs ?i') = length (usable_inputs ?i)" by (simp add: u u')
  have req: "missing_required (dim_inputs d) ?i' = missing_required (dim_inputs d) ?i"
    using missing_required_cong [of "dim_inputs d" dj readings' readings] same by blast
  obtain q where q: "qDiv dj (weighted_sum dj (usable_inputs ?i)) (sum_weights dj (map snd (usable_inputs ?i))) = Some q"
    and c: "c = qFixed dj q 2"
    and ok: "missing_required (dim_inputs d) ?i = []" "length (usable_inputs ?i) \<noteq> 0"
      "\<not> length (usable_inputs ?i) * 2 < length ?i"
    using assms(5) by (auto simp: scoreDimension_def Let_def unscored_def split: if_splits option.splits)
  let ?t = "sum_weights dj (map snd (usable_inputs ?i))"
  have t: "qval ?t \<noteq> 0" "qval q = dround dj q_precision (qval (weighted_sum dj (usable_inputs ?i)) / qval ?t)"
    using decimal_lib.qDiv_Some [OF assms(1) q] by auto
  have "qval ?t = sum_list (map qval (map snd (usable_inputs ?i)))"
    using decimal_lib.sum_weights_exact [OF assms(1)] usable_modest [OF assms(2)] by blast
  then have pos: "0 \<le> qval ?t" using modest_sum(1) [OF usable_modest [OF assms(2)]] by metis
  have nonneg: "0 \<le> qval (in_weight x)" if "x \<in> set (dim_inputs d)" for x
    using assms(2) that by (auto simp: modest_weights_def list_all_iff)
  have "qval (weighted_sum dj (usable_inputs ?i')) \<le> qval (weighted_sum dj (usable_inputs ?i))"
  proof (rule decimal_lib.weighted_mono [OF assms(1) len])
    fix k assume "k < length (usable_inputs ?i')"
    then have k: "k < length ?f" by (simp only: u' length_map)
    then have mem: "?f ! k \<in> set ?f" by (rule nth_mem)
    then have x: "?f ! k \<in> set (dim_inputs d)" "normalised_of dj readings (?f ! k) \<noteq> None"
      unfolding set_filter by blast+
    then have "normalised_of dj readings' (?f ! k) \<noteq> None" using same by metis
    with x(2) obtain n n' where "normalised_of dj readings (?f ! k) = Some n" "normalised_of dj readings' (?f ! k) = Some n'"
      by blast
    then have "qval (the (normalised_of dj readings' (?f ! k))) \<le> qval (the (normalised_of dj readings (?f ! k)))"
      using worse [OF x(1)] by simp
    with k x nonneg show "0 \<le> qval (snd (usable_inputs ?i' ! k))
        \<and> qval (fst (usable_inputs ?i' ! k)) \<le> qval (fst (usable_inputs ?i ! k))"
      "snd (usable_inputs ?i' ! k) = snd (usable_inputs ?i ! k)"
      unfolding u u' by simp_all
  qed
  then have le: "qval (weighted_sum dj (usable_inputs ?i')) / qval ?t \<le> qval (weighted_sum dj (usable_inputs ?i)) / qval ?t"
    using pos by (intro divide_right_mono)
  obtain q' where q': "qDiv dj (weighted_sum dj (usable_inputs ?i')) ?t = Some q'"
    using t(1) by (simp add: qDiv_def)
  have "qval q' \<le> qval q"
    using decimal_lib.qDiv_Some [OF assms(1) q'] t(2) decimal_lib.round_mono [OF assms(1) le] by simp
  then have "qval (qFixed dj q' 2) \<le> qval (qFixed dj q 2)"
    unfolding qFixed_def by (rule decimal_lib.fixed_mono [OF assms(1)])
  moreover have "ds_score (scoreDimension dj d readings') = Some (qFixed dj q' 2)"
    using q' ok by (simp add: scoreDimension_def Let_def req weights len)
  ultimately show ?thesis using c by blast
qed

text \<open>C3: the worst fact is never dropped from the average. Replacing an observed value by an
  observation that is unbounded leaves the dimension scored, with a score no higher than before.\<close>

theorem unbounded_never_helps:
  assumes "decimal_lib dj" "modest_weights (map in_weight (dim_inputs d))"
    and "ds_score (scoreDimension dj d readings) = Some c"
    and "js_get readings s = Some r" "signalStateOf (Some r) = OBSERVED" "rd_value r \<noteq> None"
    and "signalStateOf (Some u) = UNBOUNDED"
  shows "\<exists>c'. ds_score (scoreDimension dj d (js_set s u readings)) = Some c' \<and> qval c' \<le> qval c"
proof (rule dimension_mono [OF assms(1,2) _ _ assms(3)])
  fix x
  have other: "normalised_of dj (js_set s u readings) x = normalised_of dj readings x" if "in_signalId x \<noteq> s"
    using that by (simp add: normalised_of_def score_input_def Let_def jsm.lookup_store)
  have this_signal: "normalised_of dj (js_set s u readings) x = Some Q_ZERO" if "in_signalId x = s"
    using that assms(7) by (simp add: normalised_of_def score_input_def Let_def)
  have before: "\<exists>n. normalised_of dj readings x = Some n" if "in_signalId x = s"
    using that assms(4,5,6) by (auto simp: normalised_of_def score_input_def Let_def)
  show "normalised_of dj readings x = None \<longleftrightarrow> normalised_of dj (js_set s u readings) x = None"
    using other this_signal before by fastforce
  fix n n'
  assume n: "normalised_of dj readings x = Some n" "normalised_of dj (js_set s u readings) x = Some n'"
  have "percent n" using n(1) decimal_lib.percent_normalised [OF assms(1)] by (simp add: normalised_of_def)
  then show "qval n' \<le> qval n"
    using n other this_signal by (cases "in_signalId x = s") (auto simp: percent_def)
qed

text \<open>A dimension of one input, on target and then stalled.\<close>

definition sample_dimension :: dimension_definition where
  "sample_dimension = \<lparr>dim_id = ''D'', dim_name = ''Delivery'', dim_metricId = ''M'', dim_weight = Some (Qty 1 0),
     dim_inputs = [hm_input ''MET'' ''RATIO'' (Qty 1 0) (Qty 105 2) (Qty 180 2) False True MATERIAL]\<rparr>"

theorem unbounded_never_helps_witness:
  "\<exists>c c'. ds_score (scoreDimension ref_decimal sample_dimension [(''RATIO'', sample_reading (Some (Qty 1 0)) False None)]) = Some c
    \<and> ds_score (scoreDimension ref_decimal sample_dimension
        (js_set ''RATIO'' (sample_reading None True None) [(''RATIO'', sample_reading (Some (Qty 1 0)) False None)])) = Some c'
    \<and> qval c' \<le> qval c"
proof -
  let ?m = "[(''RATIO'', sample_reading (Some (Qty 1 0)) False None)]"
  have modest: "modest_weights (map in_weight (dim_inputs sample_dimension))"
    by (simp add: sample_dimension_def hm_input_def modest_weights_def)
  have "modest_weights [Qty 1 0]" by (simp add: modest_weights_def)
  then have "qval (sum_weights ref_decimal [Qty 1 0]) = 1"
    using ref.sum_weights_exact by simp
  then have "ds_score (scoreDimension ref_decimal sample_dimension ?m) \<noteq> None"
    by (simp add: scoreDimension_def Let_def missing_required_def usable_inputs_def sample_dimension_def hm_input_def
        score_input_def js_get_def signalStateOf_def sample_reading_def List.map_filter_simps qDiv_def)
  then obtain c where c: "ds_score (scoreDimension ref_decimal sample_dimension ?m) = Some c" by blast
  have "js_get ?m ''RATIO'' = Some (sample_reading (Some (Qty 1 0)) False None)"
    "signalStateOf (Some (sample_reading (Some (Qty 1 0)) False None)) = OBSERVED"
    "rd_value (sample_reading (Some (Qty 1 0)) False None) \<noteq> None"
    "signalStateOf (Some (sample_reading None True None)) = UNBOUNDED"
    by (simp_all add: js_get_def signalStateOf_def sample_reading_def)
  from unbounded_never_helps [OF ref_decimal_lib modest c this] c show ?thesis by blast
qed

end
