(* ===== verification/Trajectory.thy ===== *)
theory Trajectory
  imports Health_Engine
begin

text \<open>
  \<open>contexts/rules/internal/trajectory-policy.ts\<close>, the observation policy of every signal, and
  \<open>contexts/forecast/internal/trajectory-engine.ts\<close>: the slope of a series of observations, the
  trend of a signal, the state of a project's trajectory and the outlook it projects. An outlook band
  is one of the three RAG values.
\<close>

section \<open>Observation policies\<close>

datatype window_type = ROLLING_WEEK | REPORTING_PERIOD | LAST_N_EVENTS | CUMULATIVE_PLUS_RECENT | AGE_AND_TREND

datatype recency_weighting = NO_WEIGHTING | LINEAR | EXPONENTIAL

record observation_policy =
  po_signalId :: string
  po_windowType :: window_type
  po_windowSize :: nat
  po_minimumObservations :: nat
  po_recencyWeighting :: recency_weighting
  po_applicability :: "string list"
  po_effectiveFrom :: calendar_date
  po_version :: rule_version
  po_rationale :: string

definition TRAJECTORY_OBSERVATION_POLICIES :: "observation_policy list" where
  "TRAJECTORY_OBSERVATION_POLICIES =
    [
     \<lparr>po_signalId = ''DELIVERY_VELOCITY'', po_windowType = ROLLING_WEEK, po_windowSize = 8, po_minimumObservations = 6,
      po_recencyWeighting = NO_WEIGHTING, po_applicability = [''MET-DEL-019'', ''MET-DEL-013''],
      po_effectiveFrom = Date 2026 8 31, po_version = ''TRAJECTORY-v1'',
      po_rationale =
       ''Progress is claimed weekly and moves weekly. Eight weeks is long enough to survive a ''
       @ ''quiet week and short enough to notice a change of pace.''\<rparr>,
     \<lparr>po_signalId = ''FORECAST_GM_TREND'', po_windowType = REPORTING_PERIOD, po_windowSize = 3, po_minimumObservations = 3,
      po_recencyWeighting = LINEAR, po_applicability = [''MET-FCST-004'', ''MET-FCST-005''],
      po_effectiveFrom = Date 2026 8 31, po_version = ''TRAJECTORY-v1'',
      po_rationale =
       ''Forecast margin is restated on the reporting cycle, not weekly. Sampling it weekly ''
       @ ''produces a flat line punctuated by steps, and a weekly slope over that is noise.''\<rparr>,
     \<lparr>po_signalId = ''EAC_REVISION_TREND'', po_windowType = REPORTING_PERIOD, po_windowSize = 3, po_minimumObservations = 2,
      po_recencyWeighting = LINEAR, po_applicability = [''MET-FIN-008'', ''MET-DEL-014'', ''MET-FIN-030''],
      po_effectiveFrom = Date 2026 8 31, po_version = ''TRAJECTORY-v1'',
      po_rationale =
       ''An ETC revision is a discrete management act. What matters is the direction of ''
       @ ''successive revisions, not their weekly interpolation.''\<rparr>,
     \<lparr>po_signalId = ''MILESTONE_HIT_RATE'', po_windowType = LAST_N_EVENTS, po_windowSize = 5, po_minimumObservations = 3,
      po_recencyWeighting = NO_WEIGHTING, po_applicability = [''MET-DEL-009'', ''MET-DEL-010''],
      po_effectiveFrom = Date 2026 8 31, po_version = ''TRAJECTORY-v1'',
      po_rationale =
       ''Milestones are events on their own irregular cadence. \"Four of the last five ''
       @ ''slipped\" is meaningful; a weekly slope over milestone dates is not.''\<rparr>,
     \<lparr>po_signalId = ''SCOPE_EXPOSURE_TREND'', po_windowType = REPORTING_PERIOD, po_windowSize = 3, po_minimumObservations = 2,
      po_recencyWeighting = LINEAR, po_applicability = [''MET-COM-008'', ''MET-COM-009'', ''MET-FIN-011''],
      po_effectiveFrom = Date 2026 8 31, po_version = ''TRAJECTORY-v1'',
      po_rationale =
       ''Scope arrives in lumps and is assessed commercially on a period cadence.''\<rparr>,
     \<lparr>po_signalId = ''QUALITY_REWORK_TREND'', po_windowType = ROLLING_WEEK, po_windowSize = 6, po_minimumObservations = 4,
      po_recencyWeighting = LINEAR, po_applicability = [''MET-QUA-006'', ''MET-QUA-009'', ''MET-QUA-003''],
      po_effectiveFrom = Date 2026 8 31, po_version = ''TRAJECTORY-v1'',
      po_rationale =
       ''Defect and rework signals move on a delivery-iteration cadence, faster than a ''
       @ ''reporting period and with more noise than velocity -- so a shorter window with ''
       @ ''recency weighting.''\<rparr>,
     \<lparr>po_signalId = ''CR_EXPOSURE'', po_windowType = AGE_AND_TREND, po_windowSize = 3, po_minimumObservations = 1,
      po_recencyWeighting = NO_WEIGHTING, po_applicability = [''MET-COM-007'', ''MET-COM-010''],
      po_effectiveFrom = Date 2026 8 31, po_version = ''TRAJECTORY-v1'',
      po_rationale =
       ''For an unexecuted change request the *age* is the signal. A CR that has sat 140 days ''
       @ ''is a finding on its own, before any trend in the population.''\<rparr>,
     \<lparr>po_signalId = ''CONTINGENCY_CONSUMPTION'', po_windowType = CUMULATIVE_PLUS_RECENT, po_windowSize = 8, po_minimumObservations = 4,
      po_recencyWeighting = NO_WEIGHTING, po_applicability = [''MET-FIN-035'', ''MET-FIN-034''],
      po_effectiveFrom = Date 2026 8 31, po_version = ''TRAJECTORY-v1'',
      po_rationale =
       ''Both the level and the rate matter: 82% consumed is a fact about position, and a ''
       @ ''doubling of the weekly draw is a fact about direction. Neither alone is the signal.''\<rparr>,
     \<lparr>po_signalId = ''DEPENDENCY_BLOCKAGE'', po_windowType = AGE_AND_TREND, po_windowSize = 4, po_minimumObservations = 1,
      po_recencyWeighting = NO_WEIGHTING, po_applicability = [''MET-DEL-022'', ''MET-DEL-023''],
      po_effectiveFrom = Date 2026 8 31, po_version = ''TRAJECTORY-v1'',
      po_rationale =
       ''An unresolved customer dependency ageing past 60 days is a leading indicator in its ''
       @ ''own right, independent of any trend.''\<rparr>,
     \<lparr>po_signalId = ''HEALTH_TRAJECTORY'', po_windowType = ROLLING_WEEK, po_windowSize = 8, po_minimumObservations = 6,
      po_recencyWeighting = NO_WEIGHTING, po_applicability = [''MET-FCST-001'', ''MET-FCST-002'', ''MET-FCST-003'', ''MET-FCST-006'', ''MET-FCST-007'', ''MET-FCST-010'', ''MET-FCST-020'', ''MET-FCST-021''],
      po_effectiveFrom = Date 2026 8 31, po_version = ''TRAJECTORY-v1'',
      po_rationale =
       ''The composite health score is recomputed against every weekly snapshot, so a rolling ''
       @ ''weekly window is the right shape. **The window size is provisional**: it cannot be ''
       @ ''validated until MC-2 weights and MC-3 band edges exist and a health score can ''
       @ ''actually be computed.''\<rparr>,
     \<lparr>po_signalId = ''BAND_OUTLOOK'', po_windowType = ROLLING_WEEK, po_windowSize = 8, po_minimumObservations = 3,
      po_recencyWeighting = LINEAR, po_applicability = [''MET-FCST-022'', ''MET-FCST-025'', ''MET-FCST-026''],
      po_effectiveFrom = Date 2026 8 31, po_version = ''TRAJECTORY-v1'',
      po_rationale =
       ''The forward outlook restates every week from the current band and the current ''
       @ ''trajectory, so it observes on the weekly cadence. The minimum is deliberately lower ''
       @ ''than HEALTH_TRAJECTORY's six: an outlook that refuses to speak until six weeks of ''
       @ ''history exist is silent for exactly the early period in which intervention is ''
       @ ''cheapest. Three is the point below which a slope is a line between two points; ''
       @ ''recency weighting carries the rest.''\<rparr>]"

definition policyFor :: "string \<Rightarrow> observation_policy option" where
  "policyFor signalId = find (\<lambda>p. po_signalId p = signalId) TRAJECTORY_OBSERVATION_POLICIES"

definition policiesForMetric :: "string \<Rightarrow> observation_policy list" where
  "policiesForMetric metricId = filter (\<lambda>p. metricId \<in> set (po_applicability p)) TRAJECTORY_OBSERVATION_POLICIES"

section \<open>The trend of a signal\<close>

record observation =
  ob_period :: week_id
  ob_value :: quantity

record signal_series =
  se_signalId :: string
  se_metricId :: string
  se_observations :: "observation list"
  se_higherIsWorse :: bool
  se_materialAdverseSlope :: quantity
  se_evidence :: "record_ref list"

record signal_trend =
  tr_signalId :: string
  tr_metricId :: string
  tr_slope :: "quantity option"
  tr_adverseSlope :: "quantity option"
  tr_observationCount :: nat
  tr_policy :: "observation_policy option"
  tr_materiallyAdverse :: bool
  tr_notComputableReason :: "string option"

text \<open>\<open>slice(-n)\<close>; \<open>slice(-0)\<close> is everything.\<close>

definition slice_last :: "nat \<Rightarrow> 'a list \<Rightarrow> 'a list" where
  "slice_last n xs = (if n = 0 then xs else drop (length xs - n) xs)"

definition slope_sums :: "decimal_js \<Rightarrow> quantity \<Rightarrow> quantity \<Rightarrow> observation list \<Rightarrow> quantity \<times> quantity" where
  "slope_sums dj meanX meanY window =
     foldl (\<lambda>(numerator, denominator) (idx, o1).
       let dx = qSub dj (q_nat idx) meanX
       in (qAdd dj numerator (qMul dj dx (qSub dj (ob_value o1) meanY)),
           qAdd dj denominator (qMul dj dx dx)))
     (Q_ZERO, Q_ZERO) (enumerate 0 window)"

definition slopeOf :: "decimal_js \<Rightarrow> signal_series \<Rightarrow> string + quantity" where
  "slopeOf dj series =
     (let policy = policyFor (se_signalId series);
          minimum = (case policy of None \<Rightarrow> 3 | Some p \<Rightarrow> po_minimumObservations p);
          n = length (se_observations series)
      in if n < minimum
         then Inl (show_nat n @ '' observation'' @ (if n = 1 then '''' else ''s'') @ '', below the '' @ show_nat minimum
                   @ '' its observation policy requires'')
         else
           let window = (case policy of None \<Rightarrow> se_observations series
                         | Some p \<Rightarrow> slice_last (po_windowSize p) (se_observations series));
               cnt = length window;
               meanX = nullish (qDiv dj (Qty (int cnt - 1) 0) (q_nat 2)) Q_ZERO
           in case qDiv dj (foldl (\<lambda>a o1. qAdd dj a (ob_value o1)) Q_ZERO window) (q_nat cnt) of
                None \<Rightarrow> Inl ''empty window''
              | Some meanY \<Rightarrow>
                  let (numerator, denominator) = slope_sums dj meanX meanY window
                  in case qDiv dj numerator denominator of
                       None \<Rightarrow> Inl ''all observations fall in the same period''
                     | Some slope \<Rightarrow> Inr (qFixed dj slope 6))"

definition q_minus_one :: quantity where "q_minus_one = Qty (- 1) 0"

definition trendOf :: "decimal_js \<Rightarrow> signal_series \<Rightarrow> signal_trend" where
  "trendOf dj series =
     (case slopeOf dj series of
        Inl reason \<Rightarrow>
          \<lparr>tr_signalId = se_signalId series, tr_metricId = se_metricId series, tr_slope = None, tr_adverseSlope = None,
           tr_observationCount = length (se_observations series), tr_policy = policyFor (se_signalId series),
           tr_materiallyAdverse = False, tr_notComputableReason = Some reason\<rparr>
      | Inr slope \<Rightarrow>
          let adverseSlope = (if se_higherIsWorse series then qMul dj slope q_minus_one else slope)
          in \<lparr>tr_signalId = se_signalId series, tr_metricId = se_metricId series, tr_slope = Some slope,
              tr_adverseSlope = Some adverseSlope,
              tr_observationCount = length (se_observations series), tr_policy = policyFor (se_signalId series),
              tr_materiallyAdverse = (qCompare adverseSlope (qMul dj (se_materialAdverseSlope series) q_minus_one) \<le> 0),
              tr_notComputableReason = None\<rparr>)"

section \<open>The outlook\<close>

datatype trajectory_state = IMPROVING_STATE | STABLE_STATE | DETERIORATING | RAPIDLY_DETERIORATING

fun state_text :: "trajectory_state \<Rightarrow> string" where
  "state_text IMPROVING_STATE = ''IMPROVING''"
| "state_text STABLE_STATE = ''STABLE''"
| "state_text DETERIORATING = ''DETERIORATING''"
| "state_text RAPIDLY_DETERIORATING = ''RAPIDLY_DETERIORATING''"

datatype outlook_horizon = CURRENT | DAYS_30 | DAYS_60 | DAYS_90

datatype outlook_confidence = LOW_CONFIDENCE | MEDIUM_CONFIDENCE | HIGH_CONFIDENCE

record outlook_assessment =
  oa_horizon :: outlook_horizon
  oa_band :: rag
  oa_rationale :: string
  oa_contributingSignals :: "string list"
  oa_confidence :: outlook_confidence

definition BAND_ORDER :: "rag list" where
  "BAND_ORDER = [GREEN, AMBER, RED]"

definition degrade :: "rag \<Rightarrow> nat \<Rightarrow> rag" where
  "degrade band steps =
     BAND_ORDER ! nat (min (int (length BAND_ORDER) - 1) (index_of band BAND_ORDER + int steps))"

definition stepsPerHorizon :: "trajectory_state \<Rightarrow> rat" where
  "stepsPerHorizon state =
     (if state = RAPIDLY_DETERIORATING then 1 else if state = DETERIORATING then 1 / 2 else 0)"

definition horizons :: "(outlook_horizon \<times> nat) list" where
  "horizons = [(CURRENT, 0), (DAYS_30, 1), (DAYS_60, 2), (DAYS_90, 3)]"

fun days_text :: "outlook_horizon \<Rightarrow> string" where
  "days_text CURRENT = ''CURRENT''"
| "days_text DAYS_30 = ''30''"
| "days_text DAYS_60 = ''60''"
| "days_text DAYS_90 = ''90''"

definition outlook_at :: "rag \<Rightarrow> trajectory_state \<Rightarrow> nat \<Rightarrow> outlook_confidence \<Rightarrow> outlook_horizon \<times> nat \<Rightarrow> outlook_assessment" where
  "outlook_at now_band state adverseCount confidence hp =
     (let (h, periods) = hp;
          steps = nat \<lfloor>stepsPerHorizon state * of_nat periods\<rfloor>;
          band = degrade now_band steps
      in \<lparr>oa_horizon = h,
          oa_band = band,
          oa_rationale =
            (if h = CURRENT then ''Current System-Assessed band is '' @ rag_text now_band @ ''.''
             else if steps = 0
             then ''No band change expected by '' @ days_text h @ '' days: trajectory is '' @ state_text state @ ''.''
             else ''Expected to reach '' @ rag_text band @ '' by '' @ days_text h @ '' days if the current trajectory ''
               @ ''('' @ state_text state @ '', '' @ show_nat adverseCount @ '' adverse signal''
               @ (if adverseCount = 1 then '''' else ''s'') @ '') continues ''
               @ ''unchanged. This is a stated rule, not a fitted model: it assumes nothing intervenes.''),
          oa_contributingSignals = [],
          oa_confidence =
            (if h = CURRENT then confidence
             else if h = DAYS_30 then confidence
             else if h = DAYS_60 then (if confidence = HIGH_CONFIDENCE then MEDIUM_CONFIDENCE else LOW_CONFIDENCE)
             else LOW_CONFIDENCE)\<rparr>)"

definition projectOutlook :: "rag \<Rightarrow> trajectory_state \<Rightarrow> nat \<Rightarrow> nat \<Rightarrow> outlook_assessment list" where
  "projectOutlook now_band state adverseCount measurable =
     (let confidence = (if measurable = 0 then LOW_CONFIDENCE else if measurable \<ge> 4 then HIGH_CONFIDENCE else MEDIUM_CONFIDENCE)
      in map (outlook_at now_band state adverseCount confidence) horizons)"

section \<open>The trajectory of a project\<close>

record trajectory_input =
  ti_projectId :: string
  ti_week :: week_id
  ti_assessedAt :: instant
  ti_ruleVersion :: rule_version
  ti_metricCatalogVersion :: string
  ti_series :: "signal_series list"
  ti_currentBand :: rag
  ti_rapidConfluenceThreshold :: int

record trajectory_evaluation =
  te_projectId :: string
  te_week :: week_id
  te_assessedAt :: instant
  te_state :: trajectory_state
  te_trends :: "signal_trend list"
  te_adverseConfluence :: nat
  te_outlooks :: "outlook_assessment list"
  te_explanation :: explanation

definition trajectory_state_of :: "int \<Rightarrow> string list \<Rightarrow> nat \<Rightarrow> nat \<Rightarrow> trajectory_state \<times> string" where
  "trajectory_state_of threshold adverse improving computable =
     (if computable = 0 then
        (STABLE_STATE, ''No signal has enough history for a trend. Reported as Stable because there is no evidence of ''
           @ ''movement -- not because movement was ruled out.'')
      else if int (length adverse) \<ge> threshold then
        (RAPIDLY_DETERIORATING, show_nat (length adverse) @ '' signals are moving materially adversely at once ''
           @ ''('' @ join_with '', '' adverse @ ''). One dimension declining is a problem; several ''
           @ ''declining together is usually the same problem seen from several angles, and it compounds.'')
      else if length adverse > 0 then
        (DETERIORATING, show_nat (length adverse) @ '' signal'' @ (if length adverse > 1 then ''s are'' else '' is'')
           @ '' moving materially adversely ('' @ join_with '', '' adverse @ '').'')
      else if 2 * improving > computable then
        (IMPROVING_STATE, show_nat improving @ '' of '' @ show_nat computable
           @ '' measurable signals are improving and none is materially adverse.'')
      else (STABLE_STATE, ''No signal is moving materially in either direction.''))"

fun window_text :: "window_type \<Rightarrow> string" where
  "window_text ROLLING_WEEK = ''ROLLING_WEEK''"
| "window_text REPORTING_PERIOD = ''REPORTING_PERIOD''"
| "window_text LAST_N_EVENTS = ''LAST_N_EVENTS''"
| "window_text CUMULATIVE_PLUS_RECENT = ''CUMULATIVE_PLUS_RECENT''"
| "window_text AGE_AND_TREND = ''AGE_AND_TREND''"

text \<open>A template literal prints a missing slope as \<open>null\<close>.\<close>

definition trendEvaluation :: "decimal_js \<Rightarrow> trajectory_input \<Rightarrow> signal_trend \<Rightarrow> rule_evaluation" where
  "trendEvaluation dj input t =
     (let found = find (\<lambda>s. se_signalId s = tr_signalId t) (ti_series input)
      in \<lparr>ev_status = (if tr_materiallyAdverse t then FIRED else CLEAR),
          ev_notEvaluatedReasonCode = None,
          ev_requiredEvidence = None,
          ev_missingEvidence = None,
          ev_ruleId = ''TRAJ-'' @ tr_signalId t,
          ev_ruleName = tr_signalId t @ '' trend'',
          ev_ruleSetId = ''TRAJECTORY'',
          ev_ruleVersion = ti_ruleVersion input,
          ev_signalId = tr_signalId t,
          ev_signalMetricId = Some (tr_metricId t),
          ev_observedValue = map_option q_text (tr_slope t),
          ev_comparison = LTE,
          ev_thresholdValue = Some (q_text (qMul dj (case found of None \<Rightarrow> Q_ZERO | Some s \<Rightarrow> se_materialAdverseSlope s) q_minus_one)),
          ev_notEvaluatedReason = tr_notComputableReason t,
          ev_fired = tr_materiallyAdverse t,
          ev_trend = Some (case tr_adverseSlope t of None \<Rightarrow> DIRECTION_NOT_COMPUTABLE
                           | Some a \<Rightarrow> if qCompare a Q_ZERO > 0 then IMPROVING
                                      else if qCompare a Q_ZERO < 0 then WORSENING else STABLE),
          ev_estimatedImpact = None,
          ev_contribution = (if tr_materiallyAdverse t then ''counts toward adverse confluence'' else ''none''),
          ev_narrative =
            (case tr_notComputableReason t of
               Some reason \<Rightarrow> tr_signalId t @ '': '' @ reason @ ''.''
             | None \<Rightarrow> tr_signalId t @ '' slope '' @ (case tr_slope t of None \<Rightarrow> ''null'' | Some s \<Rightarrow> q_text s)
                 @ '' per period over '' @ show_nat (tr_observationCount t) @ '' observations''
                 @ (case tr_policy t of None \<Rightarrow> ''''
                    | Some p \<Rightarrow> '' ('' @ window_text (po_windowType p) @ ''/'' @ show_nat (po_windowSize p) @ '')'') @ ''.''
                 @ (if tr_materiallyAdverse t then '' Materially adverse.'' else '''')),
          ev_evidence = (case found of None \<Rightarrow> [] | Some s \<Rightarrow> se_evidence s)\<rparr>)"

definition stateEvaluation :: "trajectory_input \<Rightarrow> nat \<Rightarrow> trajectory_state \<times> string \<Rightarrow> rule_evaluation" where
  "stateEvaluation input adverse sn =
     (let state = fst sn; falling = (state = DETERIORATING \<or> state = RAPIDLY_DETERIORATING)
      in \<lparr>ev_status = (if falling then FIRED else CLEAR),
          ev_notEvaluatedReasonCode = None,
          ev_requiredEvidence = None,
          ev_missingEvidence = None,
          ev_ruleId = ''TRAJ-STATE'',
          ev_ruleName = ''Trajectory state'',
          ev_ruleSetId = ''TRAJECTORY'',
          ev_ruleVersion = ti_ruleVersion input,
          ev_signalId = ''ADVERSE_CONFLUENCE'',
          ev_signalMetricId = Some ''MET-FCST-006'',
          ev_observedValue = Some (show_nat adverse),
          ev_comparison = GTE,
          ev_thresholdValue = Some (show_int (ti_rapidConfluenceThreshold input)),
          ev_notEvaluatedReason = None,
          ev_fired = falling,
          ev_trend = None,
          ev_estimatedImpact = None,
          ev_contribution = ''Trajectory = '' @ state_text state,
          ev_narrative = snd sn,
          ev_evidence = concat (map se_evidence (ti_series input))\<rparr>)"

definition is_computable :: "signal_trend \<Rightarrow> bool" where
  "is_computable t = (case tr_adverseSlope t of None \<Rightarrow> False | Some _ \<Rightarrow> True)"

definition is_improving :: "signal_trend \<Rightarrow> bool" where
  "is_improving t = (case tr_adverseSlope t of None \<Rightarrow> False | Some a \<Rightarrow> qCompare a Q_ZERO > 0)"

definition evaluateTrajectory :: "decimal_js \<Rightarrow> trajectory_input \<Rightarrow> explanation_error + trajectory_evaluation" where
  "evaluateTrajectory dj input =
     (let trends = map (trendOf dj) (ti_series input);
          computable = filter is_computable trends;
          adverse = filter tr_materiallyAdverse computable;
          improving = filter is_improving computable;
          sn = trajectory_state_of (ti_rapidConfluenceThreshold input) (map tr_signalId adverse) (length improving) (length computable);
          outlooks = projectOutlook (ti_currentBand input) (fst sn) (length adverse) (length computable);
          evaluations = map (trendEvaluation dj input) trends @ [stateEvaluation input (length adverse) sn]
      in and_then (explain (''Trajectory = '' @ state_text (fst sn))
              (Some (show_nat (length adverse) @ '' of '' @ show_nat (length computable) @ '' measurable signals materially adverse''))
              (ti_assessedAt input) (ti_ruleVersion input) (ti_metricCatalogVersion input) None evaluations)
           (\<lambda>x. Inr \<lparr>te_projectId = ti_projectId input, te_week = ti_week input, te_assessedAt = ti_assessedAt input,
                     te_state = fst sn, te_trends = trends, te_adverseConfluence = length adverse,
                     te_outlooks = outlooks, te_explanation = x\<rparr>))"

section \<open>A steady movement\<close>

lemma scaled_times: "scaled s a * scaled t b = scaled (s + t) (a * b)"
  by (simp add: scaled_def power_add)

lemma scaled_up: "scaled s a = scaled (s + k) (a * 10 ^ k)"
  by (simp add: scaled_def power_add)

lemma table_windows:
  "policyFor s = Some p \<Longrightarrow> 2 \<le> po_windowSize p"
proof -
  have "list_all (\<lambda>p. 2 \<le> po_windowSize p) TRAJECTORY_OBSERVATION_POLICIES"
    by (simp add: TRAJECTORY_OBSERVATION_POLICIES_def)
  moreover assume "policyFor s = Some p"
  then have "p \<in> set TRAJECTORY_OBSERVATION_POLICIES" by (auto simp: policyFor_def find_Some_iff)
  ultimately show ?thesis by (simp add: list_all_iff)
qed

text \<open>Observations on a line: the i-th is \<open>a + b * i\<close> millionths.\<close>

definition on_line :: "int \<Rightarrow> int \<Rightarrow> observation list \<Rightarrow> bool" where
  "on_line a b obs \<longleftrightarrow> (\<forall>i < length obs. qval (ob_value (obs ! i)) = scaled 6 (a + b * int i))"

lemma on_line_drop: "on_line a b obs \<Longrightarrow> k \<le> length obs \<Longrightarrow> on_line (a + b * int k) b (drop k obs)"
  unfolding on_line_def by (auto simp: algebra_simps)

lemma gauss_sum: "2 * (\<Sum>i<n. a + b * int i) = int n * (2 * a + b * (int n - 1))"
  by (induction n) (simp_all add: algebra_simps)

text \<open>The distance of the i-th period from the middle of n periods, in tenths.\<close>

definition mid_dist :: "nat \<Rightarrow> nat \<Rightarrow> int" where
  "mid_dist n i = 10 * int i - 5 * (int n - 1)"

lemma mid_dist_bound: "i < n \<Longrightarrow> n \<le> 1000 \<Longrightarrow> \<bar>mid_dist n i\<bar> \<le> 10 ^ 4"
  by (auto simp: mid_dist_def)

lemma mid_squares_bound: "m \<le> n \<Longrightarrow> n \<le> 1000 \<Longrightarrow> 0 \<le> (\<Sum>i<m. (mid_dist n i)\<^sup>2) \<and> (\<Sum>i<m. (mid_dist n i)\<^sup>2) \<le> int m * 10 ^ 8"
proof (induction m)
  case (Suc m)
  have "(mid_dist n m)\<^sup>2 \<le> (10 ^ 4)\<^sup>2"
    using mid_dist_bound [of m n] Suc.prems by (intro abs_le_square_iff [THEN iffD1]) simp
  with Suc show ?case by simp
qed simp

lemma mid_squares_pos: "2 \<le> n \<Longrightarrow> 0 < (\<Sum>i<n. (mid_dist n i)\<^sup>2)"
  by (rule sum_pos2 [of _ 0]) (auto simp: mid_dist_def)

context decimal_lib begin

lemma fixed_exact:
  assumes "k \<le> dp"
  shows "qval (dfixed dj dp (scaled k m)) = scaled k m"
proof -
  define q where "q = dfixed dj dp (scaled k m)"
  define m' where "m' = m * 10 ^ (dp - k)"
  have x: "scaled k m = scaled dp m'" using scaled_up [of k m "dp - k"] assms by (simp add: m'_def)
  have q: "qval q = scaled dp (mant q)" by (simp add: qval_def scaled_def q_def fixed_places)
  have "\<bar>qval q - scaled dp m'\<bar> \<le> 1 / 2 / 10 ^ dp" using fixed_near [of dp "scaled k m"] by (simp add: q_def x)
  then have "\<bar>scaled dp (mant q - m')\<bar> \<le> 1 / 2 / 10 ^ dp" unfolding q by (simp add: scaled_arith)
  then have "\<bar>of_int (mant q - m') :: rat\<bar> \<le> 1 / 2" by (simp add: scaled_def abs_divide pos_divide_le_eq)
  then have "mant q = m'" by linarith
  then show ?thesis using q unfolding q_def x by simp
qed

lemma round_scaled: "\<bar>k\<bar> < 10 ^ 34 \<Longrightarrow> dround dj q_precision (scaled s k) = scaled s k"
  by (simp add: round_fits fits_scaled q_precision_def)

lemma line_total:
  assumes "on_line a b obs" "\<bar>a\<bar> \<le> 2 * 10 ^ 18" "\<bar>b\<bar> \<le> 10 ^ 15" "length obs \<le> 1000"
  shows "m \<le> length obs \<Longrightarrow>
    qval (foldl (\<lambda>q o1. qAdd dj q (ob_value o1)) Q_ZERO (take m obs)) = scaled 6 (\<Sum>i<m. a + b * int i)
    \<and> \<bar>\<Sum>i<m. a + b * int i\<bar> \<le> int m * (3 * 10 ^ 18)"
proof (induction m)
  case 0
  show ?case by (simp add: scaled_arith)
next
  case (Suc m)
  then have m: "m < length obs" by simp
  have "\<bar>b * int m\<bar> \<le> 10 ^ 15 * 1000" unfolding abs_mult using assms(3,4) m by (intro mult_mono) simp_all
  then have t: "\<bar>a + b * int m\<bar> \<le> 3 * 10 ^ 18" using assms(2) by simp
  have ih: "\<bar>\<Sum>i<m. a + b * int i\<bar> \<le> int m * (3 * 10 ^ 18)" using Suc by simp
  have b: "\<bar>(\<Sum>i<m. a + b * int i) + (a + b * int m)\<bar> \<le> int (Suc m) * (3 * 10 ^ 18)"
    using order_trans [OF abs_triangle_ineq add_mono [OF ih t]] by (simp add: algebra_simps)
  then have "\<bar>(\<Sum>i<m. a + b * int i) + (a + b * int m)\<bar> < 10 ^ 34" using m assms(4) by simp
  with Suc m b assms(1) show ?case
    by (simp add: take_Suc_conv_app_nth qval_ops on_line_def scaled_arith round_scaled)
qed
lemma slope_sums_line:
  assumes "on_line a b obs" "\<bar>a\<bar> \<le> 2 * 10 ^ 18" "\<bar>b\<bar> \<le> 10 ^ 15" "n = length obs" "n \<le> 1000"
    and "qval meanX = scaled 1 (5 * (int n - 1))" "qval meanY = scaled 7 (10 * a + 5 * b * (int n - 1))"
  shows "m \<le> n \<Longrightarrow>
    qval (fst (slope_sums dj meanX meanY (take m obs))) = scaled 8 (b * (\<Sum>i<m. (mid_dist n i)\<^sup>2))
    \<and> qval (snd (slope_sums dj meanX meanY (take m obs))) = scaled 2 (\<Sum>i<m. (mid_dist n i)\<^sup>2)"
proof (induction m)
  case 0
  show ?case by (simp add: slope_sums_def scaled_arith)
next
  case (Suc m)
  then have m: "m < n" by simp
  let ?S = "\<lambda>m. \<Sum>i<m. (mid_dist n i)\<^sup>2"
  let ?dx = "qSub dj (q_nat m) meanX"
  let ?dy = "qSub dj (ob_value (obs ! m)) meanY"
  have d4: "\<bar>mid_dist n m\<bar> \<le> 10 ^ 4" using mid_dist_bound [OF m assms(5)] .
  have bd: "\<bar>b * mid_dist n m\<bar> \<le> 10 ^ 15 * 10 ^ 4" unfolding abs_mult using assms(3) d4 by (intro mult_mono) simp_all
  have bdd: "\<bar>b * (mid_dist n m)\<^sup>2\<bar> \<le> 10 ^ 15 * 10 ^ 4 * 10 ^ 4"
    unfolding power2_eq_square mult.assoc [symmetric] abs_mult [of "b * mid_dist n m"] using bd d4 by (intro mult_mono) simp_all
  have dd: "\<bar>mid_dist n m * mid_dist n m\<bar> \<le> 10 ^ 4 * 10 ^ 4" unfolding abs_mult using d4 by (intro mult_mono) simp_all
  have "of_nat m - scaled 1 (5 * (int n - 1)) = scaled 1 (mid_dist n m)"
    by (simp add: scaled_def mid_dist_def field_simps)
  then have dx: "qval ?dx = scaled 1 (mid_dist n m)"
    using d4 by (simp add: qval_ops assms(6) round_scaled)
  have "scaled 6 (a + b * int m) - scaled 7 (10 * a + 5 * b * (int n - 1)) = scaled 7 (b * mid_dist n m)"
    by (simp add: scaled_def mid_dist_def field_simps)
  then have dy: "qval ?dy = scaled 7 (b * mid_dist n m)"
    using bd assms(1,4) m by (simp add: qval_ops assms(7) on_line_def round_scaled)
  have num: "qval (qMul dj ?dx ?dy) = scaled 8 (b * (mid_dist n m)\<^sup>2)"
    unfolding qval_ops(3) dx dy scaled_times
    using bdd by (simp add: round_scaled power2_eq_square mult.assoc mult.left_commute)
  have den: "qval (qMul dj ?dx ?dx) = scaled 2 ((mid_dist n m)\<^sup>2)"
    unfolding qval_ops(3) dx scaled_times using dd by (simp add: round_scaled power2_eq_square numeral_2_eq_2)
  have S: "0 \<le> ?S (Suc m)" "?S (Suc m) \<le> int (Suc m) * 10 ^ 8"
    using mid_squares_bound [of "Suc m" n] Suc.prems assms(5) by simp_all
  then have S11: "\<bar>?S (Suc m)\<bar> \<le> 10 ^ 11" using m assms(5) by simp
  then have bS: "\<bar>b * ?S (Suc m)\<bar> \<le> 10 ^ 15 * 10 ^ 11" unfolding abs_mult using assms(3) by (intro mult_mono) simp_all
  have step: "slope_sums dj meanX meanY (take (Suc m) obs) =
      (qAdd dj (fst (slope_sums dj meanX meanY (take m obs))) (qMul dj ?dx ?dy),
       qAdd dj (snd (slope_sums dj meanX meanY (take m obs))) (qMul dj ?dx ?dx))"
    using m assms(4) by (simp add: slope_sums_def take_Suc_conv_app_nth enumerate_append_eq Let_def case_prod_beta)
  have "dround dj q_precision (scaled 8 (b * ?S (Suc m))) = scaled 8 (b * ?S (Suc m))"
    by (rule round_scaled) (rule le_less_trans [OF bS], simp)
  moreover have "dround dj q_precision (scaled 2 (?S (Suc m))) = scaled 2 (?S (Suc m))"
    by (rule round_scaled) (rule le_less_trans [OF S11], simp)
  ultimately show ?case
    using Suc m unfolding step fst_conv snd_conv qval_ops(1) num den by (simp add: scaled_arith distrib_left)
qed

lemma slope_line:
  assumes "on_line a b w" "\<bar>a\<bar> \<le> 2 * 10 ^ 18" "\<bar>b\<bar> \<le> 10 ^ 15" "2 \<le> length w" "length w \<le> 1000"
  obtains meanY slope where
    "qDiv dj (foldl (\<lambda>q o1. qAdd dj q (ob_value o1)) Q_ZERO w) (q_nat (length w)) = Some meanY"
    "qDiv dj (fst (slope_sums dj (nullish (qDiv dj (Qty (int (length w) - 1) 0) (q_nat 2)) Q_ZERO) meanY w))
       (snd (slope_sums dj (nullish (qDiv dj (Qty (int (length w) - 1) 0) (q_nat 2)) Q_ZERO) meanY w)) = Some slope"
    "qval (qFixed dj slope 6) = scaled 6 b"
proof -
  let ?n = "length w"
  let ?meanX = "nullish (qDiv dj (Qty (int ?n - 1) 0) (q_nat 2)) Q_ZERO"
  let ?total = "foldl (\<lambda>q o1. qAdd dj q (ob_value o1)) Q_ZERO w"
  obtain mx where mx: "qDiv dj (Qty (int ?n - 1) 0) (q_nat 2) = Some mx"
    by (cases "qDiv dj (Qty (int ?n - 1) 0) (q_nat 2)") (simp_all add: qDiv_None_iff)
  have "of_int (int ?n - 1) / 2 = scaled 1 (5 * (int ?n - 1))" by (simp add: scaled_def field_simps)
  moreover have "dround dj q_precision (scaled 1 (5 * (int ?n - 1))) = scaled 1 (5 * (int ?n - 1))"
    using assms(4,5) by (intro round_scaled) simp
  ultimately have X: "qval ?meanX = scaled 1 (5 * (int ?n - 1))"
    using qDiv_Some [OF mx] by (simp add: mx)
  have tot: "qval ?total = scaled 6 (\<Sum>i<?n. a + b * int i)"
    using line_total [OF assms(1-3,5), of ?n] by simp
  obtain meanY where my: "qDiv dj ?total (q_nat ?n) = Some meanY"
    using assms(4) by (cases "qDiv dj ?total (q_nat ?n)") (auto simp: qDiv_None_iff)
  define T where "T = (\<Sum>i<?n. a + b * int i)"
  have "(of_int (2 * T) :: rat) = of_int (int ?n * (2 * a + b * (int ?n - 1)))"
    unfolding T_def gauss_sum ..
  then have "(of_int T :: rat) = of_nat ?n * ((2 * of_int a + of_int b * (of_nat ?n - 1)) / 2)" by simp
  then have "(of_int T :: rat) / of_nat ?n = (2 * of_int a + of_int b * (of_nat ?n - 1)) / 2"
    using assms(4) by auto
  moreover have "scaled 6 T / of_nat ?n = (of_int T / of_nat ?n) / 10 ^ 6" by (simp add: scaled_def)
  ultimately have "scaled 6 T / of_nat ?n = (2 * of_int a + of_int b * (of_nat ?n - 1)) / 2 / 10 ^ 6" by (simp only:)
  moreover have "(2 * of_int a + of_int b * (of_nat ?n - 1)) / 2 / 10 ^ 6 = scaled 7 (10 * a + 5 * b * (int ?n - 1))"
    by (simp add: scaled_def field_simps)
  ultimately have avg: "scaled 6 T / of_nat ?n = scaled 7 (10 * a + 5 * b * (int ?n - 1))" by (simp only:)
  have "\<bar>b * (int ?n - 1)\<bar> \<le> 10 ^ 15 * 1000" unfolding abs_mult using assms(3-5) by (intro mult_mono) simp_all
  then have "\<bar>10 * a + 5 * b * (int ?n - 1)\<bar> < 10 ^ 34" using assms(2) by simp
  then have Y: "qval meanY = scaled 7 (10 * a + 5 * b * (int ?n - 1))"
    using qDiv_Some [OF my] avg by (simp add: round_scaled tot [folded T_def])
  define S where "S = (\<Sum>i<?n. (mid_dist ?n i)\<^sup>2)"
  have sums: "qval (fst (slope_sums dj ?meanX meanY w)) = scaled 8 (b * S)" "qval (snd (slope_sums dj ?meanX meanY w)) = scaled 2 S"
    using slope_sums_line [OF assms(1-3) HOL.refl assms(5) X Y, of ?n] by (simp_all add: S_def)
  have S: "0 < S" unfolding S_def using mid_squares_pos [OF assms(4)] .
  then obtain slope where sl: "qDiv dj (fst (slope_sums dj ?meanX meanY w)) (snd (slope_sums dj ?meanX meanY w)) = Some slope"
    using sums(2) by (cases "qDiv dj (fst (slope_sums dj ?meanX meanY w)) (snd (slope_sums dj ?meanX meanY w))")
      (auto simp: qDiv_None_iff scaled_def)
  have "scaled 8 (b * S) / scaled 2 S = scaled 6 b" using S by (simp add: scaled_def field_simps)
  moreover have "\<bar>b\<bar> < 10 ^ 34" using assms(3) by simp
  ultimately have "qval slope = scaled 6 b" using qDiv_Some [OF sl] by (simp add: sums round_scaled)
  then have "qval (qFixed dj slope 6) = scaled 6 b" by (simp add: qFixed_def fixed_exact)
  with my sl show thesis by (rule that)
qed

end

lemma steady_trend:
  assumes "decimal_lib dj" "policyFor (se_signalId s) = Some p" "on_line a b (se_observations s)"
    and "\<bar>a\<bar> \<le> 10 ^ 15" "\<bar>b\<bar> \<le> 10 ^ 15"
    and "max 2 (po_minimumObservations p) \<le> length (se_observations s)" "length (se_observations s) \<le> 1000"
    and "\<bar>mant (se_materialAdverseSlope s)\<bar> < 10 ^ 34"
  shows "(case tr_slope (trendOf dj s) of None \<Rightarrow> False | Some q \<Rightarrow> qval q = scaled 6 b)
    \<and> (tr_materiallyAdverse (trendOf dj s) \<longleftrightarrow>
        qval (se_materialAdverseSlope s) \<le> scaled 6 (if se_higherIsWorse s then b else - b))"
proof -
  let ?obs = "se_observations s"
  define k where "k = length ?obs - po_windowSize p"
  have size: "2 \<le> po_windowSize p" by (rule table_windows [OF assms(2)])
  have w: "slice_last (po_windowSize p) ?obs = drop k ?obs" using size by (simp add: slice_last_def k_def)
  have len: "2 \<le> length (drop k ?obs)" "length (drop k ?obs) \<le> 1000" using assms(6,7) size by (auto simp: k_def)
  have "\<bar>b * int k\<bar> \<le> 10 ^ 15 * 1000" unfolding abs_mult using assms(5,7) by (intro mult_mono) (simp_all add: k_def)
  then have a: "\<bar>a + b * int k\<bar> \<le> 2 * 10 ^ 18" using assms(4) by simp
  have line: "on_line (a + b * int k) b (drop k ?obs)" using on_line_drop [OF assms(3)] by (simp add: k_def)
  obtain meanY slope where
    "qDiv dj (foldl (\<lambda>q o1. qAdd dj q (ob_value o1)) Q_ZERO (drop k ?obs)) (q_nat (length (drop k ?obs))) = Some meanY"
    "qDiv dj (fst (slope_sums dj (nullish (qDiv dj (Qty (int (length (drop k ?obs)) - 1) 0) (q_nat 2)) Q_ZERO) meanY (drop k ?obs)))
       (snd (slope_sums dj (nullish (qDiv dj (Qty (int (length (drop k ?obs)) - 1) 0) (q_nat 2)) Q_ZERO) meanY (drop k ?obs))) = Some slope"
    "qval (qFixed dj slope 6) = scaled 6 b"
    by (rule decimal_lib.slope_line [OF assms(1) line a assms(5) len])
  then have sl: "slopeOf dj s = Inr (qFixed dj slope 6)" and v: "qval (qFixed dj slope 6) = scaled 6 b"
    using assms(6) by (simp_all add: slopeOf_def assms(2) w Let_def case_prod_beta)
  have neg: "qval (qMul dj q q_minus_one) = - qval q" if "\<bar>mant q\<bar> < 10 ^ 34" for q
  proof -
    have "fits q_precision (- qval q)"
      using that fits_places [of "- mant q" q_precision "places q"] by (simp add: qval_def q_precision_def)
    then show ?thesis
      by (simp add: decimal_lib.qval_ops [OF assms(1)] decimal_lib.round_fits [OF assms(1)] q_minus_one_def)
  qed
  have negs: "qval (qMul dj (qFixed dj slope 6) q_minus_one) = - scaled 6 b"
    using decimal_lib.round_scaled [OF assms(1), of "- b" 6] assms(5)
    by (simp add: decimal_lib.qval_ops [OF assms(1)] q_minus_one_def v scaled_def)
  show ?thesis
    by (auto simp: trendOf_def sl v qCompare_sign neg [OF assms(8)] negs Let_def scaled_def)
qed

text \<open>A steady movement is measured exactly and flagged exactly when it is material. When a signal
  with an observation policy and enough history moves by the same amount every period (amounts of at
  most six decimals and nine integer digits), its slope is that amount, with no rounding residue, and
  it counts as materially adverse exactly when it worsens by at least the declared material slope,
  whichever direction is the bad one for that signal.\<close>

theorem steady_movement_flagged:
  assumes "decimal_lib dj" "policyFor (se_signalId s) = Some p" "on_line a b (se_observations s)"
    and "\<bar>a\<bar> \<le> 10 ^ 15" "\<bar>b\<bar> \<le> 10 ^ 15"
    and "max 2 (po_minimumObservations p) \<le> length (se_observations s)" "length (se_observations s) \<le> 1000"
    and "\<bar>mant (se_materialAdverseSlope s)\<bar> < 10 ^ 34"
  shows "(case tr_slope (trendOf dj s) of None \<Rightarrow> False | Some q \<Rightarrow> qval q = scaled 6 b)
    \<and> (tr_materiallyAdverse (trendOf dj s) \<longleftrightarrow>
        qval (se_materialAdverseSlope s) \<le> scaled 6 (if se_higherIsWorse s then b else - b))"
  using assms by (rule steady_trend)

definition sample_series :: signal_series where
  "sample_series = \<lparr>se_signalId = ''CONTINGENCY_CONSUMPTION'', se_metricId = ''MET-FIN-035'',
     se_observations = map (\<lambda>i. \<lparr>ob_period = Week 2026 (int i), ob_value = Qty (int (10 + 5 * i)) 2\<rparr>) [1, 2, 3, 4],
     se_higherIsWorse = True, se_materialAdverseSlope = Qty 5 2, se_evidence = [sample_ref]\<rparr>"

lemma sample_policy:
  obtains p where "policyFor (se_signalId sample_series) = Some p" "po_minimumObservations p = 4"
proof -
  define p where "p = policyFor (se_signalId sample_series)"
  have "case p of None \<Rightarrow> False | Some p \<Rightarrow> po_minimumObservations p = 4" unfolding p_def by code_simp
  with that show thesis unfolding p_def by (auto split: option.splits)
qed

lemma sample_line: "on_line 150000 50000 (se_observations sample_series)"
  by (auto simp: on_line_def sample_series_def scaled_def less_Suc_eq numeral_eq_Suc)

lemma sample_trend:
  "tr_materiallyAdverse (trendOf ref_decimal sample_series)" "is_computable (trendOf ref_decimal sample_series)"
proof -
  obtain p where p: "policyFor (se_signalId sample_series) = Some p" "po_minimumObservations p = 4" by (rule sample_policy)
  from steady_trend [OF ref_decimal_lib p(1) sample_line] p(2)
  show adverse: "tr_materiallyAdverse (trendOf ref_decimal sample_series)"
    by (auto simp: sample_series_def scaled_def)
  then show "is_computable (trendOf ref_decimal sample_series)"
    by (auto simp: is_computable_def trendOf_def Let_def split: sum.splits)
qed

theorem steady_movement_flagged_witness:
  "tr_materiallyAdverse (trendOf ref_decimal sample_series)
   \<and> (case tr_slope (trendOf ref_decimal sample_series) of None \<Rightarrow> False | Some q \<Rightarrow> qval q = 5 / 100)"
proof -
  obtain p where p: "policyFor (se_signalId sample_series) = Some p" "po_minimumObservations p = 4" by (rule sample_policy)
  show ?thesis
    using steady_movement_flagged [OF ref_decimal_lib p(1) sample_line] p(2)
    by (auto simp: sample_series_def scaled_def split: option.splits)
qed

section \<open>State and outlook\<close>

lemma evaluate_Inr:
  "evaluateTrajectory dj input = Inr t \<Longrightarrow>
    te_state t = fst (trajectory_state_of (ti_rapidConfluenceThreshold input)
      (map tr_signalId (filter tr_materiallyAdverse (filter is_computable (map (trendOf dj) (ti_series input)))))
      (length (filter is_improving (filter is_computable (map (trendOf dj) (ti_series input)))))
      (length (filter is_computable (map (trendOf dj) (ti_series input)))))
    \<and> ex_evidence (te_explanation t) = dedupeEvidence
        (concat (map (\<lambda>s. ev_evidence (trendEvaluation dj input (trendOf dj s))) (ti_series input)) @ concat (map se_evidence (ti_series input)))"
  unfolding evaluateTrajectory_def Let_def
  by (drule and_then_Inr_iff [THEN iffD1]) (auto dest!: explain_Inr simp: stateEvaluation_def Let_def comp_def)

text \<open>When every series cites evidence, the assessment succeeds.\<close>

lemma evaluate_succeeds:
  assumes "list_all (\<lambda>s. se_evidence s \<noteq> []) (ti_series input)"
  shows "\<exists>t. evaluateTrajectory dj input = Inr t"
proof -
  let ?trends = "map (trendOf dj) (ti_series input)"
  have trend: "ev_evidence (trendEvaluation dj input (trendOf dj s)) \<noteq> []" if "s \<in> set (ti_series input)" for s
  proof -
    have id: "tr_signalId (trendOf dj s) = se_signalId s" by (simp add: trendOf_def Let_def split: sum.split)
    have "find (\<lambda>q. se_signalId q = se_signalId s) (ti_series input) \<noteq> None"
      using that by (auto simp: find_None_iff)
    then obtain q where q: "find (\<lambda>q. se_signalId q = se_signalId s) (ti_series input) = Some q" by blast
    then have "q \<in> set (ti_series input)" by (auto simp: find_Some_iff)
    with q show ?thesis using assms by (simp add: trendEvaluation_def id Let_def list_all_iff)
  qed
  have state: "ev_evidence (stateEvaluation input n (trajectory_state_of th adv imp (length (filter is_computable ?trends)))) \<noteq> []"
    if "ev_fired (stateEvaluation input n (trajectory_state_of th adv imp (length (filter is_computable ?trends))))" for n th adv imp
  proof -
    have "\<not> ev_fired (stateEvaluation input n (trajectory_state_of th adv imp 0))"
      by (simp add: stateEvaluation_def trajectory_state_of_def Let_def)
    with that have "length (filter is_computable ?trends) \<noteq> 0" by metis
    then obtain s where "s \<in> set (ti_series input)" by (cases "ti_series input") auto
    then show ?thesis using assms by (auto simp: stateEvaluation_def Let_def list_all_iff)
  qed
  have "\<exists>x. explain oc d a1 b1 c1 h1 (map (trendEvaluation dj input) ?trends @
      [stateEvaluation input n (trajectory_state_of th adv imp (length (filter is_computable ?trends)))]) = Inr x"
    for oc d a1 b1 c1 h1 n th adv imp
    unfolding explain_Inr_iff using trend state by auto
  then show ?thesis unfolding evaluateTrajectory_def Let_def by (metis and_then_simps(2))
qed

text \<open>Where a project stands has no part in where it is heading. Assessing the same history from any
  other current band gives the same result but for the outlook, failures included.\<close>

theorem trajectory_ignores_band:
  "case (evaluateTrajectory dj input, evaluateTrajectory dj (input\<lparr>ti_currentBand := b\<rparr>)) of
     (Inr e, Inr e') \<Rightarrow> e' = e\<lparr>te_outlooks := te_outlooks e'\<rparr>
   | (Inl x, Inl y) \<Rightarrow> x = y
   | _ \<Rightarrow> False"
proof -
  have t: "trendEvaluation dj (input\<lparr>ti_currentBand := b\<rparr>) = trendEvaluation dj input"
    by (intro ext) (simp add: trendEvaluation_def)
  have s: "stateEvaluation (input\<lparr>ti_currentBand := b\<rparr>) = stateEvaluation input"
    by (intro ext) (simp add: stateEvaluation_def)
  show ?thesis by (simp add: evaluateTrajectory_def Let_def t s and_then_def split: sum.split)
qed

text \<open>How bad a trajectory is; an outlook may only worsen with it and with the horizon.\<close>

fun severity :: "trajectory_state \<Rightarrow> nat" where
  "severity IMPROVING_STATE = 0"
| "severity STABLE_STATE = 0"
| "severity DETERIORATING = 1"
| "severity RAPIDLY_DETERIORATING = 2"

fun confidence_rank :: "outlook_confidence \<Rightarrow> nat" where
  "confidence_rank LOW_CONFIDENCE = 0"
| "confidence_rank MEDIUM_CONFIDENCE = 1"
| "confidence_rank HIGH_CONFIDENCE = 2"

fun descending :: "int list \<Rightarrow> bool" where
  "descending (x # y # zs) = (y \<le> x \<and> descending (y # zs))"
| "descending _ = True"

lemma outlook_parts:
  "oa_horizon (outlook_at band state n c (h, k)) = h"
  "oa_band (outlook_at band state n c (h, k)) = degrade band (nat \<lfloor>stepsPerHorizon state * of_nat k\<rfloor>)"
  "oa_confidence (outlook_at band state n c (h, k)) = (if h = CURRENT \<or> h = DAYS_30 then c
     else if h = DAYS_60 then (if c = HIGH_CONFIDENCE then MEDIUM_CONFIDENCE else LOW_CONFIDENCE) else LOW_CONFIDENCE)"
  by (auto simp: outlook_at_def Let_def)

lemma degrade_order: "RAG_ORDER (degrade band k) = max 0 (RAG_ORDER band - int k)"
proof -
  have "degrade GREEN k = (if k = 0 then GREEN else if k = 1 then AMBER else RED)"
    "degrade AMBER k = (if k = 0 then AMBER else RED)" "degrade RED k = RED"
    by (simp_all add: degrade_def BAND_ORDER_def index_of_def numeral_2_eq_2 nat_add_distrib min_def)
  then show ?thesis by (cases band) auto
qed

lemma outlook_bands:
  "map (RAG_ORDER \<circ> oa_band) (projectOutlook band state adverse measurable) =
     map (\<lambda>k. max 0 (RAG_ORDER band - int (severity state * k div 2))) [0, 1, 2, 3]"
proof -
  have "nat \<lfloor>stepsPerHorizon state * of_nat k\<rfloor> = severity state * k div 2" for k
    by (cases state) (simp_all add: stepsPerHorizon_def floor_divide_of_nat_eq [of k 2, simplified])
  then show ?thesis
    by (simp only: projectOutlook_def horizons_def Let_def list.map o_apply outlook_parts degrade_order)
qed

text \<open>An outlook starts at the current band and never improves with the horizon, and its confidence
  never grows. A trajectory that does not deteriorate changes nothing; one that deteriorates costs no
  band within 30 days and one band by 60, not one band per horizon; a rapid one costs one by 30 days and
  is Red by 60; and at every horizon a worse trajectory gives no better band.\<close>

theorem outlook_never_improves:
  "map oa_horizon (projectOutlook band state adverse measurable) = [CURRENT, DAYS_30, DAYS_60, DAYS_90]
   \<and> oa_band (hd (projectOutlook band state adverse measurable)) = band
   \<and> descending (map (RAG_ORDER \<circ> oa_band) (projectOutlook band state adverse measurable))
   \<and> descending (map (int \<circ> confidence_rank \<circ> oa_confidence) (projectOutlook band state adverse measurable))
   \<and> map (RAG_ORDER \<circ> oa_band) (projectOutlook band state adverse measurable) =
       (if severity state = 0 then [RAG_ORDER band, RAG_ORDER band, RAG_ORDER band, RAG_ORDER band]
        else if severity state = 1
        then [RAG_ORDER band, RAG_ORDER band, max 0 (RAG_ORDER band - 1), max 0 (RAG_ORDER band - 1)]
        else [RAG_ORDER band, max 0 (RAG_ORDER band - 1), 0, 0])
   \<and> (if severity state \<le> severity worse
       then list_all2 (\<lambda>x y. RAG_ORDER (oa_band y) \<le> RAG_ORDER (oa_band x))
              (projectOutlook band state adverse measurable) (projectOutlook band worse adverse' measurable')
       else True)"
proof -
  let ?os = "projectOutlook band state adverse measurable" and ?ws = "projectOutlook band worse adverse' measurable'"
  have h: "map oa_horizon ?os = [CURRENT, DAYS_30, DAYS_60, DAYS_90]"
    by (simp only: projectOutlook_def horizons_def Let_def list.map outlook_parts)
  have f: "oa_band (hd ?os) = band"
    by (cases band) (simp_all add: projectOutlook_def horizons_def Let_def outlook_parts degrade_def BAND_ORDER_def index_of_def)
  have c: "descending (map (int \<circ> confidence_rank \<circ> oa_confidence) ?os)"
    by (simp add: projectOutlook_def horizons_def Let_def outlook_parts)
  have r: "0 \<le> RAG_ORDER band" "RAG_ORDER band \<le> 2" by (cases band; simp)+
  have b: "map (RAG_ORDER \<circ> oa_band) ?os =
       (if severity state = 0 then [RAG_ORDER band, RAG_ORDER band, RAG_ORDER band, RAG_ORDER band]
        else if severity state = 1
        then [RAG_ORDER band, RAG_ORDER band, max 0 (RAG_ORDER band - 1), max 0 (RAG_ORDER band - 1)]
        else [RAG_ORDER band, max 0 (RAG_ORDER band - 1), 0, 0])"
    unfolding outlook_bands using r by (cases state) simp_all
  have d: "descending (map (RAG_ORDER \<circ> oa_band) ?os)" unfolding b using r by simp
  have w: "list_all2 (\<lambda>x y. RAG_ORDER (oa_band y) \<le> RAG_ORDER (oa_band x)) ?os ?ws" if "severity state \<le> severity worse"
  proof -
    have "list_all2 (\<lambda>x y. y \<le> x) (map (RAG_ORDER \<circ> oa_band) ?os) (map (RAG_ORDER \<circ> oa_band) ?ws)"
      unfolding outlook_bands using that
      by (auto simp: list_all2_map1 list_all2_map2 list_all2_same intro!: max.mono diff_left_mono div_le_mono mult_le_mono)
    then show ?thesis by (simp add: list_all2_map1 list_all2_map2)
  qed
  show ?thesis using h f c b d w by simp
qed

end
