(* ===== verification/Money.thy ===== *)
theory Money
  imports Exact_Sums
begin

text \<open>
  \<open>src/platform/decimal/currency.ts\<close>, \<open>money.ts\<close> and \<open>fx.ts\<close>: amounts in a currency, their
  guarded arithmetic, the largest-remainder allocation and the dated conversion of mixed
  currencies. A \<open>Decimal\<close> inside a \<open>Money\<close> is its exact value; every operation on it rounds
  through the \<open>decimal_js\<close> argument at the 34 digits of the constructor \<open>D\<close>.
\<close>

section \<open>Currencies\<close>

datatype currency = USD | EUR | GBP | INR | JPY

definition SUPPORTED_CURRENCIES :: "(string \<times> currency) list" where
  "SUPPORTED_CURRENCIES = [(''USD'', USD), (''EUR'', EUR), (''GBP'', GBP), (''INR'', INR), (''JPY'', JPY)]"

fun currency_code :: "currency \<Rightarrow> string" where
  "currency_code USD = ''USD''"
| "currency_code EUR = ''EUR''"
| "currency_code GBP = ''GBP''"
| "currency_code INR = ''INR''"
| "currency_code JPY = ''JPY''"

definition isCurrencyCode :: "string \<Rightarrow> currency option" where
  "isCurrencyCode value = map_of SUPPORTED_CURRENCIES value"

fun minorUnits :: "currency \<Rightarrow> nat" where
  "minorUnits JPY = 0"
| "minorUnits _ = 2"

section \<open>Money\<close>

datatype fx_rate_type = SPOT | MONTHLY_AVERAGE | BUDGET | CLOSING

datatype money_error =
  NotPlainDecimal
| UnsupportedCurrency string
| CurrencyMismatch currency currency
| ZeroWeights
| FxRateMissing currency currency string
| FxRateMismatch

datatype money = Money (money_value: rat) (money_currency: currency)

record money_dto =
  dto_amount :: quantity
  dto_currency :: currency

definition money_of :: "string \<Rightarrow> currency \<Rightarrow> money_error + money" where
  "money_of amount c =
     (case qty amount of Inl _ \<Rightarrow> Inl NotPlainDecimal | Inr q \<Rightarrow> Inr (Money (qval q) c))"

definition money_zero :: "currency \<Rightarrow> money" where
  "money_zero c = Money 0 c"

definition money_fromDto :: "string \<Rightarrow> string \<Rightarrow> money_error + money" where
  "money_fromDto amount code =
     (case isCurrencyCode code of None \<Rightarrow> Inl (UnsupportedCurrency code) | Some c \<Rightarrow> money_of amount c)"

definition assertSameCurrency :: "money \<Rightarrow> money \<Rightarrow> money_error + unit" where
  "assertSameCurrency this other =
     (if money_currency other \<noteq> money_currency this
      then Inl (CurrencyMismatch (money_currency this) (money_currency other)) else Inr ())"

definition money_plus :: "decimal_js \<Rightarrow> money \<Rightarrow> money \<Rightarrow> money_error + money" where
  "money_plus dj this other = and_then (assertSameCurrency this other) (\<lambda>_.
     Inr (Money (dround dj q_precision (money_value this + money_value other)) (money_currency this)))"

definition money_minus :: "decimal_js \<Rightarrow> money \<Rightarrow> money \<Rightarrow> money_error + money" where
  "money_minus dj this other = and_then (assertSameCurrency this other) (\<lambda>_.
     Inr (Money (dround dj q_precision (money_value this - money_value other)) (money_currency this)))"

definition money_times :: "decimal_js \<Rightarrow> money \<Rightarrow> quantity \<Rightarrow> money" where
  "money_times dj this scalar =
     Money (dround dj q_precision (money_value this * qval scalar)) (money_currency this)"

definition money_negated :: "money \<Rightarrow> money" where
  "money_negated this = Money (- money_value this) (money_currency this)"

definition money_abs :: "money \<Rightarrow> money" where
  "money_abs this = Money \<bar>money_value this\<bar> (money_currency this)"

definition money_dividedBy :: "decimal_js \<Rightarrow> money \<Rightarrow> money \<Rightarrow> money_error + ratio" where
  "money_dividedBy dj this other = and_then (assertSameCurrency this other) (\<lambda>_.
     if money_value other = 0 then Inr (NotComputable ZERO_DENOMINATOR)
     else Inr (Computed q_precision (dround dj q_precision (money_value this / money_value other))))"

definition money_dividedByQuantity :: "decimal_js \<Rightarrow> money \<Rightarrow> quantity \<Rightarrow> money option" where
  "money_dividedByQuantity dj this divisor =
     (if qval divisor = 0 then None
      else Some (Money (dround dj q_precision (money_value this / qval divisor)) (money_currency this)))"

definition money_toQuantity :: "decimal_js \<Rightarrow> money \<Rightarrow> quantity" where
  "money_toQuantity dj this = dshow dj (money_value this)"

definition money_isZero :: "money \<Rightarrow> bool" where
  "money_isZero this \<longleftrightarrow> money_value this = 0"

definition money_isNegative :: "money \<Rightarrow> bool" where
  "money_isNegative this \<longleftrightarrow> money_value this < 0 \<and> \<not> money_isZero this"

definition money_compare :: "money \<Rightarrow> money \<Rightarrow> money_error + int" where
  "money_compare this other = and_then (assertSameCurrency this other) (\<lambda>_.
     Inr (cmp_ord (money_value this) (money_value other)))"

definition money_equals :: "money \<Rightarrow> money \<Rightarrow> bool" where
  "money_equals this other \<longleftrightarrow>
     money_currency this = money_currency other \<and> money_value this = money_value other"

text \<open>A \<open>reduce\<close> whose callback may throw.\<close>

fun money_sum_from :: "decimal_js \<Rightarrow> money \<Rightarrow> money list \<Rightarrow> money_error + money" where
  "money_sum_from dj acc [] = Inr acc"
| "money_sum_from dj acc (m # items) = and_then (money_plus dj acc m) (\<lambda>acc'. money_sum_from dj acc' items)"

definition money_sum :: "decimal_js \<Rightarrow> money list \<Rightarrow> currency \<Rightarrow> money_error + money" where
  "money_sum dj items c = money_sum_from dj (money_zero c) items"

definition money_toPresentationString :: "decimal_js \<Rightarrow> money \<Rightarrow> quantity" where
  "money_toPresentationString dj this = dfixed dj (minorUnits (money_currency this)) (money_value this)"

definition money_toDto :: "decimal_js \<Rightarrow> money \<Rightarrow> money_dto" where
  "money_toDto dj this = \<lparr>dto_amount = dshow dj (money_value this), dto_currency = money_currency this\<rparr>"

definition money_toString :: "decimal_js \<Rightarrow> money \<Rightarrow> string" where
  "money_toString dj this = q_text (dshow dj (money_value this)) @ '' '' @ currency_code (money_currency this)"

section \<open>Allocation\<close>

text \<open>\<open>Decimal.round()\<close>: to an integer, halves away from zero.\<close>

definition round_half_up :: "rat \<Rightarrow> int" where
  "round_half_up x = (if x < 0 then - \<lfloor>- x + 1 / 2\<rfloor> else \<lfloor>x + 1 / 2\<rfloor>)"

text \<open>
  The distribution loop: \<open>remaining\<close> is how many units are still to hand out, its sign being in
  \<open>step\<close>; \<open>cursor\<close> walks round the order.
\<close>

fun hand_out :: "decimal_js \<Rightarrow> rat \<Rightarrow> nat list \<Rightarrow> nat \<Rightarrow> nat \<Rightarrow> rat list \<Rightarrow> rat list" where
  "hand_out dj step order 0 cursor result = result"
| "hand_out dj step order (Suc remaining) cursor result =
     (let idx = order ! (cursor mod length order)
      in hand_out dj step order remaining (Suc cursor)
           (result[idx := dround dj q_precision (result ! idx + step)]))"

text \<open>The order: indices by descending fractional remainder, ties in index order.\<close>

definition remainder_order :: "decimal_js \<Rightarrow> rat list \<Rightarrow> rat list \<Rightarrow> nat list" where
  "remainder_order dj exact floored =
     map fst (sort_by (\<lambda>a b. cmp_ord (snd b) (snd a))
       (map (\<lambda>(i, e, f). (i, dround dj q_precision (e - f))) (enumerate 0 (zip exact floored))))"

definition money_allocate :: "decimal_js \<Rightarrow> money \<Rightarrow> quantity list \<Rightarrow> money_error + money list" where
  "money_allocate dj this weights =
     (if weights = [] then Inr []
      else
        let scale = minorUnits (money_currency this);
            D = dround dj q_precision;
            totalWeight = foldl (\<lambda>a w. D (a + qval w)) 0 weights
        in if totalWeight = 0 then Inl ZeroWeights
           else
             let unit = 1 / 10 ^ scale;
                 exact = map (\<lambda>w. D (D (money_value this * qval w) / totalWeight)) weights;
                 floored = map (\<lambda>e. D (of_int \<lfloor>D (e / unit)\<rfloor> * unit)) exact;
                 allocated = foldl (\<lambda>a f. D (a + f)) 0 floored;
                 remainderUnits = round_half_up (D (D (money_value this - allocated) / unit));
                 order = remainder_order dj exact floored;
                 step = (if remainderUnits \<ge> 0 then unit else - unit)
             in Inr (map (\<lambda>r. Money r (money_currency this))
                  (hand_out dj step order (nat \<bar>remainderUnits\<bar>) 0 floored)))"

section \<open>Foreign exchange\<close>

record fx_rate =
  fx_from :: currency
  fx_to :: currency
  fx_rate :: quantity
  fx_rateType :: fx_rate_type
  fx_effectiveDate :: string
  fx_source :: string

record converted_money =
  cm_original :: money
  cm_reportingCurrency :: currency
  cm_normalized :: money
  cm_rate :: fx_rate

text \<open>The provider is implemented by a context; it is an argument here.\<close>

type_synonym fx_provider = "currency \<Rightarrow> currency \<Rightarrow> string \<Rightarrow> fx_rate_type \<Rightarrow> fx_rate option"

definition convert :: "decimal_js \<Rightarrow> money \<Rightarrow> currency \<Rightarrow> fx_rate \<Rightarrow> money_error + converted_money" where
  "convert dj amount to rate =
     (if fx_from rate \<noteq> money_currency amount then Inl FxRateMismatch
      else if fx_to rate \<noteq> to then Inl FxRateMismatch
      else if money_currency amount = to then
        Inr \<lparr>cm_original = amount, cm_reportingCurrency = to, cm_normalized = amount, cm_rate = rate\<rparr>
      else
        and_then (money_of (q_text (dto_amount (money_toDto dj (money_times dj amount (fx_rate rate))))) to)
          (\<lambda>normalized.
            Inr \<lparr>cm_original = amount, cm_reportingCurrency = to, cm_normalized = normalized, cm_rate = rate\<rparr>))"

fun sum_converted :: "decimal_js \<Rightarrow> currency \<Rightarrow> string \<Rightarrow> fx_rate_type \<Rightarrow> fx_provider \<Rightarrow>
    money \<Rightarrow> converted_money list \<Rightarrow> money list \<Rightarrow> money_error + (money \<times> converted_money list)" where
  "sum_converted dj rc asOf rt provider acc conversions [] = Inr (acc, conversions)"
| "sum_converted dj rc asOf rt provider acc conversions (amount # amounts) =
     (if money_currency amount = rc then
        and_then (money_plus dj acc amount) (\<lambda>acc'.
          sum_converted dj rc asOf rt provider acc' conversions amounts)
      else
        (case provider (money_currency amount) rc asOf rt of
           None \<Rightarrow> Inl (FxRateMissing (money_currency amount) rc asOf)
         | Some rate \<Rightarrow>
             and_then (convert dj amount rc rate) (\<lambda>converted.
             and_then (money_plus dj acc (cm_normalized converted)) (\<lambda>acc'.
               sum_converted dj rc asOf rt provider acc' (conversions @ [converted]) amounts))))"

definition sumInReportingCurrency :: "decimal_js \<Rightarrow> money list \<Rightarrow> currency \<Rightarrow> string \<Rightarrow> fx_rate_type \<Rightarrow>
    fx_provider \<Rightarrow> money_error + (money \<times> converted_money list)" where
  "sumInReportingCurrency dj amounts rc asOf rt provider =
     sum_converted dj rc asOf rt provider (money_zero rc) [] amounts"

section \<open>The distribution loop\<close>

lemma sum_list_update_int: "i < length ks \<Longrightarrow> sum_list (ks[i := x]) = sum_list ks + x - (ks ! i :: int)"
  by (induction ks arbitrary: i) (auto split: nat.splits)

context decimal_lib begin

text \<open>The distribution loop adds its step as often as it has units to hand out.\<close>

lemma hand_out_exact:
  assumes "order \<noteq> []" "set order \<subseteq> {..<length ks}" "\<bar>d\<bar> = 1"
    and "\<And>k. k \<in> set ks \<Longrightarrow> \<bar>k\<bar> + int r < 10 ^ q_precision"
  shows "\<exists>ks'. hand_out dj (scaled s d) order r cursor (map (scaled s) ks) = map (scaled s) ks'
    \<and> length ks' = length ks \<and> sum_list ks' = sum_list ks + d * int r"
  using assms(2,4)
proof (induction r arbitrary: cursor ks)
  case 0
  then show ?case by auto
next
  case (Suc r)
  define idx where "idx = order ! (cursor mod length order)"
  have "idx \<in> set order" using assms(1) by (simp add: idx_def)
  then have idx: "idx < length ks" using Suc.prems(1) by auto
  define ks1 where "ks1 = ks[idx := ks ! idx + d]"
  have "\<bar>ks ! idx\<bar> + int (Suc r) < 10 ^ q_precision" using Suc.prems(2) idx by simp
  then have new: "\<bar>ks ! idx + d\<bar> + int r < 10 ^ q_precision" using assms(3) by simp
  then have "dround dj q_precision (scaled s (ks ! idx) + scaled s d) = scaled s (ks ! idx + d)"
    by (simp add: scaled_arith round_fits fits_scaled)
  then have step: "hand_out dj (scaled s d) order (Suc r) cursor (map (scaled s) ks)
      = hand_out dj (scaled s d) order r (Suc cursor) (map (scaled s) ks1)"
    using idx by (simp add: Let_def ks1_def map_update flip: idx_def)
  have "\<bar>k\<bar> + int r < 10 ^ q_precision" if "k \<in> set ks1" for k
  proof -
    have "k = ks ! idx + d \<or> k \<in> set ks" using that set_update_subset_insert unfolding ks1_def by fastforce
    then show ?thesis using new Suc.prems(2) [of k] by auto
  qed
  moreover have "set order \<subseteq> {..<length ks1}" using Suc.prems(1) by (simp add: ks1_def)
  ultimately obtain ks' where "hand_out dj (scaled s d) order r (Suc cursor) (map (scaled s) ks1)
      = map (scaled s) ks'" "length ks' = length ks1" "sum_list ks' = sum_list ks1 + d * int r"
    using Suc.IH [of ks1 "Suc cursor"] by blast
  moreover have "sum_list ks1 = sum_list ks + d" using idx by (simp add: ks1_def sum_list_update_int)
  ultimately show ?case using step by (intro exI [of _ ks']) (simp add: ks1_def algebra_simps)
qed

end

section \<open>What the allocation promises\<close>

lemma floor_scaled: "\<lfloor>of_int k + 1 / 2 :: rat\<rfloor> = k"
  by (simp add: floor_unique)

lemma round_half_up_int [simp]: "round_half_up (of_int k) = k"
  using floor_scaled [of k] floor_scaled [of "- k"] by (simp add: round_half_up_def)

lemma remainder_order_indices:
  assumes "length exact = n" "length floored = n"
  shows "set (remainder_order dj exact floored) = {..<n}"
    and "length (remainder_order dj exact floored) = n"
proof -
  let ?xs = "map (\<lambda>(i, e, f). (i, dround dj q_precision (e - f))) (enumerate 0 (zip exact floored))"
  have "map fst ?xs = [0..<n]"
    using assms by (intro nth_equalityI) (simp_all add: nth_enumerate_eq)
  then have "fst ` set ?xs = {..<n}" by (metis atLeast0LessThan list.set_map set_upt)
  then show "set (remainder_order dj exact floored) = {..<n}" by (simp add: remainder_order_def)
  show "length (remainder_order dj exact floored) = n" using assms by (simp add: remainder_order_def)
qed

context decimal_lib begin

text \<open>No share is far from the whole: its floor is at most eight times the amount, plus one.\<close>

lemma share_bound:
  assumes "0 \<le> w" "w \<le> t" "0 < t"
  shows "\<bar>\<lfloor>dround dj q_precision (dround dj q_precision (dround dj q_precision (scaled s a * w) / t) / (1 / 10 ^ s))\<rfloor>\<bar>
    \<le> 8 * \<bar>a\<bar> + 1"
proof -
  let ?D = "dround dj q_precision"
  have v: "\<bar>scaled s a\<bar> * 10 ^ s = of_int \<bar>a\<bar>" by (simp add: scaled_def)
  have "\<bar>?D (scaled s a * w)\<bar> \<le> 2 * \<bar>scaled s a * w\<bar>" by (rule round_double) simp
  also have "\<dots> \<le> 2 * (\<bar>scaled s a\<bar> * t)" using assms by (simp add: abs_mult mult_left_mono)
  finally have "\<bar>?D (scaled s a * w) / t\<bar> \<le> 2 * \<bar>scaled s a\<bar>"
    using assms(3) by (simp add: abs_divide pos_divide_le_eq algebra_simps)
  moreover have "\<bar>?D (?D (scaled s a * w) / t)\<bar> \<le> 2 * \<bar>?D (scaled s a * w) / t\<bar>"
    by (rule round_double) simp
  ultimately have "\<bar>?D (?D (scaled s a * w) / t)\<bar> \<le> 4 * \<bar>scaled s a\<bar>" by linarith
  then have "\<bar>?D (?D (scaled s a * w) / t)\<bar> * 10 ^ s \<le> 4 * \<bar>scaled s a\<bar> * 10 ^ s"
    by (intro mult_right_mono) simp_all
  then have "\<bar>?D (?D (scaled s a * w) / t) / (1 / 10 ^ s)\<bar> \<le> 4 * of_int \<bar>a\<bar>"
    using v by (simp add: abs_mult mult.assoc)
  moreover have "\<bar>?D (?D (?D (scaled s a * w) / t) / (1 / 10 ^ s))\<bar>
      \<le> 2 * \<bar>?D (?D (scaled s a * w) / t) / (1 / 10 ^ s)\<bar>"
    by (rule round_double) simp
  ultimately have "\<bar>?D (?D (?D (scaled s a * w) / t) / (1 / 10 ^ s))\<bar> \<le> of_int (8 * \<bar>a\<bar>)"
    (is "\<bar>?x\<bar> \<le> _") by simp
  then have "?x \<le> of_int (8 * \<bar>a\<bar>)" "of_int (- (8 * \<bar>a\<bar>)) \<le> ?x"
    by (simp_all only: abs_le_iff of_int_minus) linarith
  then have "\<lfloor>?x\<rfloor> \<le> 8 * \<bar>a\<bar>" "- (8 * \<bar>a\<bar>) \<le> \<lfloor>?x\<rfloor>"
    by (simp_all only: floor_le_iff le_floor_iff of_int_add of_int_1)
  then show ?thesis by linarith
qed

lemma allocate_units:
  assumes "ws \<noteq> []" "\<forall>w\<in>set ws. 0 \<le> qval w \<and> places w \<le> t" "0 < sum_list (map qval ws)"
    and "sum_list (map qval ws) < 10 ^ q_precision / 10 ^ t"
    and "\<bar>a\<bar> < 10 ^ 24" "length ws \<le> 10 ^ 8"
  shows "\<exists>ks. money_allocate dj (Money (scaled (minorUnits c) a) c) ws
      = Inr (map (\<lambda>k. Money (scaled (minorUnits c) k) c) ks)
    \<and> length ks = length ws \<and> sum_list ks = a"
proof -
  let ?D = "dround dj q_precision" and ?t = "sum_list (map qval ws)"
  let ?s = "minorUnits c"
  let ?v = "scaled ?s a"
  let ?e = "\<lambda>w. ?D (?D (?v * qval w) / ?t)"
  define ks where "ks = map (\<lambda>w. \<lfloor>?D (?e w / (1 / 10 ^ ?s))\<rfloor>) ws"
  have share: "\<bar>k\<bar> \<le> 8 * \<bar>a\<bar> + 1" if "k \<in> set ks" for k
  proof -
    from that obtain w where w: "w \<in> set ws" "k = \<lfloor>?D (?e w / (1 / 10 ^ ?s))\<rfloor>"
      by (auto simp: ks_def)
    have "qval w \<le> ?t" using w(1) assms(2) by (intro member_le_sum_list) auto
    then show ?thesis using w assms(2,3) share_bound [of "qval w" ?t ?s a] by simp
  qed
  have "sum_list (map abs ks) \<le> int (length ks) * (8 * \<bar>a\<bar> + 1)" using share by (rule sum_abs_bound)
  also have "\<dots> \<le> 10 ^ 8 * (8 * \<bar>a\<bar> + 1)"
    using assms(6) by (intro mult_right_mono) (simp_all add: ks_def)
  finally have total: "sum_list (map abs ks) \<le> 10 ^ 8 * (8 * \<bar>a\<bar> + 1)" .
  define d where "d = a - sum_list ks"
  have dle: "\<bar>d\<bar> \<le> \<bar>a\<bar> + 10 ^ 8 * (8 * \<bar>a\<bar> + 1)" using abs_sum_le [of ks] total by (simp add: d_def)
  have room: "8 * \<bar>a\<bar> + 1 + (\<bar>a\<bar> + 10 ^ 8 * (8 * \<bar>a\<bar> + 1)) < 10 ^ q_precision"
    using assms(5) by (simp add: q_precision_def)
  have floored: "map (\<lambda>e. ?D (of_int \<lfloor>?D (e / (1 / 10 ^ ?s))\<rfloor> * (1 / 10 ^ ?s))) (map ?e ws) = map (scaled ?s) ks"
  proof -
    have "?D (of_int k * (1 / 10 ^ ?s)) = scaled ?s k" if "k \<in> set ks" for k
      using share [OF that] room round_fits [OF fits_scaled [of k q_precision ?s]] by (simp add: scaled_def)
    then show ?thesis by (simp add: ks_def)
  qed
  have allocated: "foldl (\<lambda>a f. ?D (a + f)) 0 (map (scaled ?s) ks) = scaled ?s (sum_list ks)"
    using foldl_exact [of 0 ks ?s] total room by (simp add: scaled_arith)
  have fd: "fits q_precision (scaled ?s d)" "fits q_precision (of_int d)"
    using dle room by (auto intro!: fits_scaled fits_int)
  have units: "round_half_up (?D (?D (?v - scaled ?s (sum_list ks)) / (1 / 10 ^ ?s))) = d"
  proof -
    have "?v - scaled ?s (sum_list ks) = scaled ?s d" by (simp add: scaled_arith d_def)
    moreover have "scaled ?s d / (1 / 10 ^ ?s) = of_int d" by (simp add: scaled_def)
    ultimately show ?thesis by (simp only: round_fits [OF fd(1)] round_fits [OF fd(2)] round_half_up_int)
  qed
  let ?order = "remainder_order dj (map ?e ws) (map (scaled ?s) ks)"
  have len: "length ks = length ws" by (simp add: ks_def)
  have lens: "length (map ?e ws) = length ks" "length (map (scaled ?s) ks) = length ks"
    by (simp_all only: length_map len)
  have "length ?order = length ks" and set_order: "set ?order = {..<length ks}"
    by (rule remainder_order_indices [OF lens])+
  then have order: "?order \<noteq> []" using assms(1) len by (metis length_0_conv)
  define step where "step = (if 0 \<le> d then 1 else - 1 :: int)"
  have step1: "\<bar>step\<bar> = 1" by (simp add: step_def)
  have small: "\<bar>k\<bar> + int (nat \<bar>d\<bar>) < 10 ^ q_precision" if "k \<in> set ks" for k
    using share [OF that] dle room by linarith
  have "\<exists>ks'. hand_out dj (scaled ?s step) ?order (nat \<bar>d\<bar>) 0 (map (scaled ?s) ks) = map (scaled ?s) ks'
      \<and> length ks' = length ks \<and> sum_list ks' = sum_list ks + step * int (nat \<bar>d\<bar>)"
    by (rule hand_out_exact [OF order equalityD1 [OF set_order] step1 small])
  then obtain ks' where ks': "hand_out dj (scaled ?s step) ?order (nat \<bar>d\<bar>) 0 (map (scaled ?s) ks) = map (scaled ?s) ks'"
    "length ks' = length ks" "sum_list ks' = sum_list ks + step * int (nat \<bar>d\<bar>)" by blast
  moreover have "step * int (nat \<bar>d\<bar>) = d" by (simp add: step_def)
  ultimately have sum': "sum_list ks' = a" by (simp add: d_def)
  have st: "(if 0 \<le> d then 1 / 10 ^ ?s else - (1 / 10 ^ ?s)) = scaled ?s step"
    by (simp add: scaled_def step_def)
  have ne: "(ws = []) = False" "(?t = 0) = False" using assms(1,3) by auto
  have "money_allocate dj (Money ?v c) ws = Inr (map (\<lambda>r. Money r c) (map (scaled ?s) ks'))"
    by (simp only: money_allocate_def Let_def money.sel weights_exact [OF assms(2,4)] ne if_False
        floored allocated units st ks'(1))
  then show ?thesis using ks'(2) sum' len by (intro exI [of _ ks']) (simp add: o_def)
qed

end

text \<open>C5: an amount of whole minor units split over weights that are not negative and not all zero
  gives one part per weight, every part is of whole minor units in the same currency, and the parts
  add up to exactly the amount, whatever the divisions were rounded to.  This holds for amounts
  below 10^24 minor units and up to 10^8 weights whose total, written with the
  decimals of the finest weight, stays within 34 digits.\<close>

theorem allocate_exact:
  assumes "decimal_lib dj" "ws \<noteq> []" "\<forall>w\<in>set ws. 0 \<le> qval w \<and> places w \<le> t"
    and "0 < sum_list (map qval ws)" "sum_list (map qval ws) < 10 ^ q_precision / 10 ^ t"
    and "\<bar>a\<bar> < 10 ^ 24" "length ws \<le> 10 ^ 8"
  shows "\<exists>ks. money_allocate dj (Money (of_int a / 10 ^ minorUnits c) c) ws
      = Inr (map (\<lambda>k. Money (of_int k / 10 ^ minorUnits c) c) ks)
    \<and> length ks = length ws \<and> sum_list ks = a"
  using decimal_lib.allocate_units [OF assms, of c] unfolding scaled_def .

text \<open>One dollar in three equal parts.\<close>

theorem allocate_exact_witness:
  "\<exists>ks. money_allocate ref_decimal (Money (of_int 100 / 10 ^ minorUnits USD) USD) [Qty 1 0, Qty 1 0, Qty 1 0]
      = Inr (map (\<lambda>k. Money (of_int k / 10 ^ minorUnits USD) USD) ks) \<and> length ks = 3 \<and> sum_list ks = 100"
  using allocate_exact [OF ref_decimal_lib, of "[Qty 1 0, Qty 1 0, Qty 1 0]" 0 100 USD]
  by (simp add: q_precision_def numeral_3_eq_3)

text \<open>An amount below the minor unit is not preserved by the allocation: a tenth of a cent
  given to a single weight comes back as nothing, so the parts do not add up to the whole.\<close>

theorem allocate_loses_residue:
  assumes "decimal_lib dj"
  shows "money_of ''0.001'' USD = Inr (Money (1 / 1000) USD)
    \<and> money_allocate dj (Money (1 / 1000) USD) [Qty 1 0] = Inr [Money 0 USD]"
proof -
  have fit: "fits q_precision 1" "fits q_precision (1 / 10)" "fits q_precision (1 / 1000)"
    using fits_places [of 1 q_precision 0] fits_places [of 1 q_precision 1] fits_places [of 1 q_precision 3]
    by (simp_all add: q_precision_def)
  note r = decimal_lib.round_fits [OF assms fit(1)] decimal_lib.round_fits [OF assms fit(2)]
    decimal_lib.round_fits [OF assms fit(3)] decimal_lib.round_zero [OF assms]
  have fl: "\<lfloor>1 / 10 :: rat\<rfloor> = 0" "\<lfloor>1 / 10 + 1 / 2 :: rat\<rfloor> = 0" "\<lfloor>3 / 5 :: rat\<rfloor> = 0" by (simp_all add: floor_eq_iff)
  have "money_of ''0.001'' USD = Inr (Money (1 / 1000) USD)" by code_simp
  moreover have "money_allocate dj (Money (1 / 1000) USD) [Qty 1 0] = Inr [Money 0 USD]"
    using floor_scaled [of 0] by (simp add: money_allocate_def Let_def r round_half_up_def fl)
  ultimately show ?thesis ..
qed

theorem allocate_loses_residue_witness:
  "money_allocate ref_decimal (Money (1 / 1000) USD) [Qty 1 0] = Inr [Money 0 USD]"
  using allocate_loses_residue [OF ref_decimal_lib] by simp

section \<open>Sums\<close>

lemma money_sum_from_eq:
  "money_sum_from dj (Money v c) items =
     (case find (\<lambda>m. money_currency m \<noteq> c) items of
        Some m \<Rightarrow> Inl (CurrencyMismatch c (money_currency m))
      | None \<Rightarrow> Inr (Money (foldl (\<lambda>a x. dround dj q_precision (a + x)) v (map money_value items)) c))"
  by (induction items arbitrary: v)
    (auto simp: money_plus_def assertSameCurrency_def split: option.splits)

text \<open>A sum is refused exactly when some amount is in another currency, and the error names
  the first such currency; otherwise it is the running sum of the values in the asked currency.\<close>

theorem money_sum_guard:
  "money_sum dj items c =
     (case find (\<lambda>m. money_currency m \<noteq> c) items of
        Some m \<Rightarrow> Inl (CurrencyMismatch c (money_currency m))
      | None \<Rightarrow> Inr (Money (foldl (\<lambda>a x. dround dj q_precision (a + x)) 0 (map money_value items)) c))"
  by (simp add: money_sum_def money_zero_def money_sum_from_eq)

lemma all_scaled: "\<forall>m\<in>set items. \<exists>k. f m = scaled s k \<Longrightarrow> \<exists>ks. map f items = map (scaled s) ks"
proof (induction items)
  case Nil
  show ?case by simp
next
  case (Cons m items)
  then obtain k ks where "f m = scaled s k" "map f items = map (scaled s) ks" by auto
  then show ?case by (intro exI [of _ "k # ks"]) simp
qed

lemma abs_scaled: "\<bar>scaled s k\<bar> = scaled s \<bar>k\<bar>"
  by (simp add: scaled_def)

lemma money_sum_value:
  assumes "decimal_lib dj" "\<forall>m\<in>set items. money_currency m = c \<and> (\<exists>k. money_value m = scaled s k)"
    and "sum_list (map (\<lambda>m. \<bar>money_value m\<bar>) items) < 10 ^ q_precision / 10 ^ s"
  shows "money_sum dj items c = Inr (Money (sum_list (map money_value items)) c)"
proof -
  obtain ks where ks: "map money_value items = map (scaled s) ks"
    using all_scaled [of items money_value s] assms(2) by auto
  have "map (\<lambda>m. \<bar>money_value m\<bar>) items = map abs (map money_value items)" by simp
  also have "\<dots> = map (scaled s) (map abs ks)" by (simp only: ks) (simp add: abs_scaled)
  finally have "scaled s (sum_list (map abs ks)) < 10 ^ q_precision / 10 ^ s"
    using assms(3) by (simp only: scaled_arith)
  then have "(of_int (sum_list (map abs ks)) :: rat) < of_int (10 ^ q_precision)"
    by (simp add: scaled_def divide_less_cancel)
  then have "sum_list (map abs ks) < 10 ^ q_precision" by (simp only: of_int_less_iff)
  then have "foldl (\<lambda>a x. dround dj q_precision (a + x)) (scaled s 0) (map (scaled s) ks) = scaled s (0 + sum_list ks)"
    by (intro decimal_lib.foldl_exact [OF assms(1)]) simp
  moreover have "find (\<lambda>m. money_currency m \<noteq> c) items = None" using assms(2) by (auto simp: find_None_iff)
  ultimately show ?thesis by (simp add: money_sum_def money_zero_def money_sum_from_eq ks scaled_arith)
qed

text \<open>Amounts written with at most \<open>s\<close> decimals, whose absolute values add up within 34
  digits, sum to their exact sum, in whatever order they come.\<close>

theorem money_sum_exact:
  assumes "decimal_lib dj" "mset items' = mset items"
    and "\<forall>m\<in>set items. money_currency m = c \<and> (\<exists>k. money_value m = of_int k / 10 ^ s)"
    and "sum_list (map (\<lambda>m. \<bar>money_value m\<bar>) items) < 10 ^ q_precision / 10 ^ s"
  shows "money_sum dj items c = Inr (Money (sum_list (map money_value items)) c)
    \<and> money_sum dj items' c = money_sum dj items c"
proof -
  have perm: "sum_list (map f items') = sum_list (map f items)" for f :: "money \<Rightarrow> rat"
    using assms(2) by (metis mset_map sum_mset_sum_list)
  have "set items' = set items" using assms(2) by (metis set_mset_mset)
  then show ?thesis
    using money_sum_value [OF assms(1), of items c s] money_sum_value [OF assms(1), of items' c s]
      assms(3,4) perm [of money_value] perm [of "\<lambda>m. \<bar>money_value m\<bar>"]
    by (simp add: scaled_def)
qed

theorem money_sum_exact_witness:
  "money_sum ref_decimal [Money (1 / 10) USD, Money (2 / 10) USD, Money (- 3 / 10) USD] USD = Inr (Money 0 USD)"
proof -
  have k: "1 / 10 = (of_int 1 / 10 ^ 1 :: rat)" "2 / 10 = (of_int 2 / 10 ^ 1 :: rat)"
    "- 3 / 10 = (of_int (- 3) / 10 ^ 1 :: rat)" by simp_all
  have "\<forall>m\<in>set [Money (1 / 10) USD, Money (2 / 10) USD, Money (- 3 / 10) USD].
      money_currency m = USD \<and> (\<exists>k. money_value m = of_int k / 10 ^ 1)"
    using k by (simp only: list.simps ball_simps money.sel) (blast intro: k)
  from money_sum_exact [OF ref_decimal_lib refl this] show ?thesis
    by (simp add: q_precision_def)
qed

section \<open>Totals in a reporting currency\<close>

text \<open>What one amount contributes to the total, and the conversion recorded for it, if any.\<close>

definition contribution :: "decimal_js \<Rightarrow> currency \<Rightarrow> string \<Rightarrow> fx_rate_type \<Rightarrow> fx_provider \<Rightarrow> money \<Rightarrow>
    money_error + (money \<times> converted_money option)" where
  "contribution dj rc asOf rt provider amount =
     (if money_currency amount = rc then Inr (amount, None)
      else (case provider (money_currency amount) rc asOf rt of
              None \<Rightarrow> Inl (FxRateMissing (money_currency amount) rc asOf)
            | Some rate \<Rightarrow> and_then (convert dj amount rc rate) (\<lambda>cv. Inr (cm_normalized cv, Some cv))))"

lemma convert_Inr:
  assumes "decimal_lib dj" "convert dj amount rc rate = Inr cv" "money_currency amount \<noteq> rc"
  shows "cm_original cv = amount \<and> cm_rate cv = rate \<and> fx_from rate = money_currency amount \<and> fx_to rate = rc
    \<and> cm_normalized cv = Money (dround dj q_precision (money_value amount * qval (fx_rate rate))) rc"
  using assms(2,3) decimal_lib.show_round [OF assms(1)]
  by (auto simp: convert_def money_of_def money_toDto_def money_times_def qty_of_text split: if_splits)

lemma convert_ok:
  assumes "fx_from rate = money_currency amount" "fx_to rate = rc"
  shows "\<exists>cv. convert dj amount rc rate = Inr cv"
  using assms by (auto simp: convert_def money_of_def qty_of_text)

lemma contribution_currency:
  "decimal_lib dj \<Longrightarrow> contribution dj rc asOf rt provider amount = Inr (m, x) \<Longrightarrow> money_currency m = rc"
  by (auto simp: contribution_def and_then_Inr_iff dest!: convert_Inr split: if_splits option.splits)

lemma sum_converted_eq:
  assumes "decimal_lib dj"
  shows "sum_converted dj rc asOf rt provider (Money v rc) convs amounts =
    and_then (try_map (contribution dj rc asOf rt provider) amounts) (\<lambda>cs.
      Inr (Money (foldl (\<lambda>a c. dround dj q_precision (a + money_value (fst c))) v cs) rc,
           convs @ List.map_filter snd cs))"
proof (induction amounts arbitrary: v convs)
  case Nil
  show ?case by (simp add: List.map_filter_simps)
next
  case (Cons amount amounts)
  have step: "sum_converted dj rc asOf rt provider (Money v rc) convs (amount # amounts) =
    and_then (contribution dj rc asOf rt provider amount) (\<lambda>(m, x).
      sum_converted dj rc asOf rt provider (Money (dround dj q_precision (v + money_value m)) rc)
        (convs @ (case x of None \<Rightarrow> [] | Some cv \<Rightarrow> [cv])) amounts)"
  proof (cases "contribution dj rc asOf rt provider amount")
    case (Inl e)
    then show ?thesis
      by (auto simp: contribution_def and_then_def split: if_splits option.splits sum.splits)
  next
    case (Inr r)
    obtain m x where r: "r = (m, x)" by fastforce
    then have cur: "money_currency m = rc" using Inr contribution_currency [OF assms] by simp
    show ?thesis
      using Inr cur unfolding r
      by (auto simp: contribution_def and_then_Inr_iff money_plus_def assertSameCurrency_def
          split: if_splits option.splits)
  qed
  show ?case
    unfolding step
    by (cases "contribution dj rc asOf rt provider amount";
        cases "try_map (contribution dj rc asOf rt provider) amounts")
      (auto simp: Cons.IH List.map_filter_simps split: option.splits)
qed

lemma reporting_eq:
  "decimal_lib dj \<Longrightarrow> sumInReportingCurrency dj amounts rc asOf rt provider =
    and_then (try_map (contribution dj rc asOf rt provider) amounts) (\<lambda>cs.
      Inr (Money (foldl (\<lambda>a c. dround dj q_precision (a + money_value (fst c))) 0 cs) rc,
           List.map_filter snd cs))"
  by (simp add: sumInReportingCurrency_def money_zero_def sum_converted_eq)

lemma contributions_recorded:
  assumes "decimal_lib dj"
  shows "try_map (contribution dj rc asOf rt provider) amounts = Inr cs \<Longrightarrow>
    map cm_original (List.map_filter snd cs) = filter (\<lambda>m. money_currency m \<noteq> rc) amounts
    \<and> (\<forall>cv\<in>set (List.map_filter snd cs).
         provider (money_currency (cm_original cv)) rc asOf rt = Some (cm_rate cv)
         \<and> cm_normalized cv
             = Money (dround dj q_precision (money_value (cm_original cv) * qval (fx_rate (cm_rate cv)))) rc)
    \<and> mset (map fst cs) = mset (filter (\<lambda>m. money_currency m = rc) amounts)
         + mset (map cm_normalized (List.map_filter snd cs))"
proof (induction amounts arbitrary: cs)
  case Nil
  then show ?case by (simp add: List.map_filter_simps)
next
  case (Cons amount amounts)
  from Cons.prems obtain c cs' where c: "contribution dj rc asOf rt provider amount = Inr c"
    and cs': "try_map (contribution dj rc asOf rt provider) amounts = Inr cs'" and cs: "cs = c # cs'"
    by (auto simp: and_then_Inr_iff)
  note IH = Cons.IH [OF cs']
  show ?case
  proof (cases "money_currency amount = rc")
    case True
    then have "c = (amount, None)" using c by (simp add: contribution_def)
    with True IH cs show ?thesis by (simp add: List.map_filter_simps)
  next
    case False
    then obtain rate cv where cv: "provider (money_currency amount) rc asOf rt = Some rate"
      "convert dj amount rc rate = Inr cv" "c = (cm_normalized cv, Some cv)"
      using c by (auto simp: contribution_def and_then_Inr_iff split: option.splits)
    from convert_Inr [OF assms cv(2) False] False IH cs cv(1,3) show ?thesis
      by (simp add: List.map_filter_simps)
  qed
qed

text \<open>A total in a reporting currency accounts for every amount. Every foreign amount has one
  recorded conversion, in order, at the rate the provider gives for its currency, the date and the
  rate type; the total is the running sum of exactly the native amounts and the converted ones.\<close>

theorem reporting_total_accounts_for_all:
  assumes "decimal_lib dj" "sumInReportingCurrency dj amounts rc asOf rt provider = Inr (total_money, convs)"
  shows "map cm_original convs = filter (\<lambda>m. money_currency m \<noteq> rc) amounts
    \<and> (\<forall>cv\<in>set convs. provider (money_currency (cm_original cv)) rc asOf rt = Some (cm_rate cv)
         \<and> cm_normalized cv
             = Money (dround dj q_precision (money_value (cm_original cv) * qval (fx_rate (cm_rate cv)))) rc)
    \<and> (\<exists>parts. mset parts = mset (filter (\<lambda>m. money_currency m = rc) amounts) + mset (map cm_normalized convs)
         \<and> money_sum dj parts rc = Inr total_money)"
proof -
  from assms(2) obtain cs where cs: "try_map (contribution dj rc asOf rt provider) amounts = Inr cs"
    and t: "total_money = Money (foldl (\<lambda>a c. dround dj q_precision (a + money_value (fst c))) 0 cs) rc"
    and convs: "convs = List.map_filter snd cs"
    by (auto simp: reporting_eq [OF assms(1)] and_then_Inr_iff)
  have "money_currency m = rc" if "m \<in> set (map fst cs)" for m
    using that try_map_Inr_set [OF cs] contribution_currency [OF assms(1)] by fastforce
  then have "money_sum dj (map fst cs) rc = Inr total_money"
    by (auto simp: money_sum_def money_zero_def money_sum_from_eq t foldl_map find_None_iff split: option.splits)
  with contributions_recorded [OF assms(1) cs] show ?thesis unfolding convs by blast
qed

definition sample_rate :: fx_rate where
  "sample_rate = \<lparr>fx_from = EUR, fx_to = USD, fx_rate = Qty 125 2, fx_rateType = CLOSING,
     fx_effectiveDate = ''2026-06-30'', fx_source = ''ecb''\<rparr>"

theorem reporting_total_accounts_for_all_witness:
  "\<exists>total_money convs. sumInReportingCurrency ref_decimal [Money 10 USD, Money 4 EUR] USD ''2026-06-30'' CLOSING
      (\<lambda>f t d k. Some sample_rate) = Inr (total_money, convs)
    \<and> map cm_original convs = [Money 4 EUR]"
proof -
  let ?p = "\<lambda>f t d k. Some sample_rate"
  have "\<exists>cv. convert ref_decimal (Money 4 EUR) USD sample_rate = Inr cv"
    by (rule convert_ok) (simp_all add: sample_rate_def)
  then have "\<exists>cs. try_map (contribution ref_decimal USD ''2026-06-30'' CLOSING ?p) [Money 10 USD, Money 4 EUR] = Inr cs"
    by (auto simp: contribution_def)
  then obtain tm convs where ok: "sumInReportingCurrency ref_decimal [Money 10 USD, Money 4 EUR] USD ''2026-06-30'' CLOSING ?p
      = Inr (tm, convs)"
    by (auto simp: reporting_eq [OF ref_decimal_lib])
  from reporting_total_accounts_for_all [OF ref_decimal_lib ok] ok show ?thesis by auto
qed

end
