(* ===== verification/Green_At_Risk.thy ===== *)
theory Green_At_Risk
  imports Trajectory Money
begin

text \<open>
  \<open>contexts/forecast/internal/green-at-risk.ts\<close>: the two findings about a project that looks healthy,
  System Green-at-Risk and Reported Green Risk, with the evaluations that explain them. Weeks are whole
  numbers.
\<close>

section \<open>Data\<close>

datatype gar_reason_code =
    MARGIN_ERODING | BURN_AHEAD_OF_PROGRESS | CONTINGENCY_DEPLETING | UNCOMMERCIALISED_SCOPE
  | QUALITY_SPIRAL | ETC_OPTIMISM | REPORTED_STATUS_DIVERGENCE | SIGNAL_CONFLUENCE

fun gar_code_text :: "gar_reason_code \<Rightarrow> string" where
  "gar_code_text MARGIN_ERODING = ''MARGIN_ERODING''"
| "gar_code_text BURN_AHEAD_OF_PROGRESS = ''BURN_AHEAD_OF_PROGRESS''"
| "gar_code_text CONTINGENCY_DEPLETING = ''CONTINGENCY_DEPLETING''"
| "gar_code_text UNCOMMERCIALISED_SCOPE = ''UNCOMMERCIALISED_SCOPE''"
| "gar_code_text QUALITY_SPIRAL = ''QUALITY_SPIRAL''"
| "gar_code_text ETC_OPTIMISM = ''ETC_OPTIMISM''"
| "gar_code_text REPORTED_STATUS_DIVERGENCE = ''REPORTED_STATUS_DIVERGENCE''"
| "gar_code_text SIGNAL_CONFLUENCE = ''SIGNAL_CONFLUENCE''"

record gar_reason =
  gr_code :: gar_reason_code
  gr_metricId :: string
  gr_observedValue :: string
  gr_narrative :: string
  gr_evidence :: "record_ref list"

record gar_input =
  gi_projectId :: string
  gi_week :: week_id
  gi_assessedAt :: instant
  gi_ruleVersion :: rule_version
  gi_metricCatalogVersion :: string
  gi_systemAssessedBand :: rag
  gi_reportedRag :: "rag option"
  gi_trajectory :: trajectory_evaluation
  gi_economicExposure :: money
  gi_marginPointsAtRisk :: "quantity option"
  gi_reasons :: "gar_reason list"
  gi_bandEvidence :: "record_ref list"
  gi_dataConfidence :: "quantity option"
  gi_weeksToBandChange :: "int option"
  gi_minimumInterventionWeeks :: int

record gar_finding =
  gf_projectId :: string
  gf_week :: week_id
  gf_assessedAt :: instant
  gf_isSystemGreenAtRisk :: bool
  gf_isReportedGreenRisk :: bool
  gf_reportedRag :: "rag option"
  gf_systemAssessedBand :: rag
  gf_outlook30 :: "rag option"
  gf_outlook60 :: "rag option"
  gf_reasons :: "gar_reason list"
  gf_economicExposure :: money
  gf_marginPointsAtRisk :: "quantity option"
  gf_dataConfidence :: "quantity option"
  gf_confidenceBand :: outlook_confidence
  gf_weeksToBandChange :: "int option"
  gf_interventionWindowOpen :: bool
  gf_notApplicableReason :: "string option"
  gf_explanation :: explanation

section \<open>The conditions\<close>

definition FALLING :: "trajectory_state list" where
  "FALLING = [DETERIORATING, RAPIDLY_DETERIORATING]"

definition ADVERSE_OUTLOOK :: "rag list" where
  "ADVERSE_OUTLOOK = [AMBER, RED]"

definition SYSTEM_GREEN_AT_RISK_HORIZONS :: "outlook_horizon list" where
  "SYSTEM_GREEN_AT_RISK_HORIZONS = [DAYS_30, DAYS_60]"

definition outlookAt :: "trajectory_evaluation \<Rightarrow> outlook_horizon \<Rightarrow> rag option" where
  "outlookAt t horizon = map_option oa_band (find (\<lambda>x. oa_horizon x = horizon) (te_outlooks t))"

definition adverseHorizons :: "gar_input \<Rightarrow> outlook_horizon list" where
  "adverseHorizons input =
     filter (\<lambda>h. case (if h = DAYS_30 then outlookAt (gi_trajectory input) DAYS_30 else outlookAt (gi_trajectory input) DAYS_60) of
         None \<Rightarrow> False | Some band \<Rightarrow> band \<in> set ADVERSE_OUTLOOK)
       SYSTEM_GREEN_AT_RISK_HORIZONS"

definition outlookAdverse :: "gar_input \<Rightarrow> bool" where
  "outlookAdverse input \<longleftrightarrow> length (adverseHorizons input) > 0"

definition isSystemGreenAtRisk :: "gar_input \<Rightarrow> bool" where
  "isSystemGreenAtRisk input \<longleftrightarrow> gi_systemAssessedBand input = GREEN \<and> outlookAdverse input"

definition materialDeterioration :: "gar_input \<Rightarrow> bool" where
  "materialDeterioration input \<longleftrightarrow> te_state (gi_trajectory input) \<in> set FALLING \<or> outlookAdverse input"

definition isReportedGreenRisk :: "gar_input \<Rightarrow> bool" where
  "isReportedGreenRisk input \<longleftrightarrow>
     gi_reportedRag input = Some GREEN \<and> (gi_systemAssessedBand input \<noteq> GREEN \<or> materialDeterioration input)"

definition windowOpen :: "gar_input \<Rightarrow> bool" where
  "windowOpen input = (case gi_weeksToBandChange input of None \<Rightarrow> True | Some n \<Rightarrow> n \<ge> gi_minimumInterventionWeeks input)"

definition notApplicableReason :: "gar_input \<Rightarrow> string option" where
  "notApplicableReason input =
     (if isSystemGreenAtRisk input then None
      else if gi_systemAssessedBand input \<noteq> GREEN
      then Some (''System-Assessed RAG is already '' @ rag_text (gi_systemAssessedBand input) @ ''. System Green-at-Risk describes ''
             @ ''projects the system still assesses as healthy; this one it does not, and it is handled as ''
             @ ''an active problem instead.''
             @ (if isReportedGreenRisk input then '' It IS a Reported Green Risk: the organisation still reports GREEN.'' else ''''))
      else Some (''The forward outlook stays GREEN at both 30 and 60 days. Green now and Green ahead is simply Green.''))"

definition confidenceBand :: "quantity option \<Rightarrow> outlook_confidence" where
  "confidenceBand dataConfidence =
     (case dataConfidence of
        None \<Rightarrow> LOW_CONFIDENCE
      | Some c \<Rightarrow> if qCompare c (Qty 75 0) \<ge> 0 then HIGH_CONFIDENCE
                 else if qCompare c (Qty 50 0) \<ge> 0 then MEDIUM_CONFIDENCE else LOW_CONFIDENCE)"

section \<open>The evaluations\<close>

text \<open>The fields every evaluation of the rule set shares.\<close>

definition gar_evaluation :: "gar_input \<Rightarrow> string \<Rightarrow> string \<Rightarrow> string \<Rightarrow> string option \<Rightarrow> bool \<Rightarrow> rule_evaluation" where
  "gar_evaluation input rid name signalId metricId fired =
     \<lparr>ev_status = (if fired then FIRED else CLEAR),
      ev_notEvaluatedReasonCode = None, ev_requiredEvidence = None, ev_missingEvidence = None,
      ev_ruleId = rid, ev_ruleName = name, ev_ruleSetId = ''GREEN_AT_RISK'', ev_ruleVersion = gi_ruleVersion input,
      ev_signalId = signalId, ev_signalMetricId = metricId,
      ev_observedValue = None, ev_comparison = PRESENT, ev_thresholdValue = None,
      ev_notEvaluatedReason = None, ev_fired = fired, ev_trend = None, ev_estimatedImpact = None,
      ev_contribution = '''', ev_narrative = '''', ev_evidence = []\<rparr>"

definition gar_band :: "gar_input \<Rightarrow> rule_evaluation" where
  "gar_band input =
     (let looksHealthy = (gi_systemAssessedBand input = GREEN)
      in (gar_evaluation input ''GAR-BAND'' ''Currently presents as healthy'' ''SYSTEM_ASSESSED_RAG'' (Some ''MET-HLTH-011'') looksHealthy)
         \<lparr>ev_observedValue := Some (rag_text (gi_systemAssessedBand input)), ev_comparison := EQ, ev_thresholdValue := Some ''GREEN'',
          ev_contribution := (if looksHealthy then ''condition 1 of 2 met'' else ''condition 1 of 2 failed''),
          ev_narrative := ''System-Assessed RAG is '' @ rag_text (gi_systemAssessedBand input) @ ''.'',
          ev_evidence := gi_bandEvidence input\<rparr>)"

fun horizon_text :: "outlook_horizon \<Rightarrow> string" where
  "horizon_text CURRENT = ''CURRENT''"
| "horizon_text DAYS_30 = ''DAYS_30''"
| "horizon_text DAYS_60 = ''DAYS_60''"
| "horizon_text DAYS_90 = ''DAYS_90''"

definition horizon_band :: "rag option \<Rightarrow> rag option \<Rightarrow> outlook_horizon \<Rightarrow> string" where
  "horizon_band o30 o60 h =
     (if h = DAYS_30 then ''30-day '' @ (case o30 of None \<Rightarrow> ''null'' | Some b \<Rightarrow> rag_text b)
      else ''60-day '' @ (case o60 of None \<Rightarrow> ''null'' | Some b \<Rightarrow> rag_text b))"

definition gar_outlook :: "gar_input \<Rightarrow> rule_evaluation" where
  "gar_outlook input =
     (let t = gi_trajectory input; o30 = outlookAt t DAYS_30; o60 = outlookAt t DAYS_60;
          hs = adverseHorizons input; adverse = outlookAdverse input
      in (gar_evaluation input ''GAR-OUTLOOK'' ''Forward outlook turns adverse within 60 days'' ''FORWARD_OUTLOOK'' (Some ''MET-FCST-022'') adverse)
         \<lparr>ev_observedValue := Some (''30d='' @ nullish (map_option rag_text o30) ''none'' @ '' 60d='' @ nullish (map_option rag_text o60) ''none''),
          ev_comparison := IN_BAND, ev_thresholdValue := Some (join_with ''|'' (map rag_text ADVERSE_OUTLOOK)),
          ev_contribution := (if adverse then ''condition 2 of 2 met at '' @ join_with '' and '' (map horizon_text hs)
                              else ''condition 2 of 2 failed -- outlook stays GREEN through 60 days''),
          ev_trend := Some (if adverse then WORSENING else STABLE),
          ev_narrative :=
            (if adverse
             then ''The approved forward outlook is '' @ join_with '', '' (map (horizon_band o30 o60) hs) @ '', ''
               @ ''driven by a '' @ state_text (te_state t) @ '' trajectory with '' @ show_nat (te_adverseConfluence t) @ '' ''
               @ ''materially adverse signal'' @ (if te_adverseConfluence t = 1 then '''' else ''s'') @ ''.''
             else ''The forward outlook is 30-day '' @ nullish (map_option rag_text o30) ''not projected'' @ '' and 60-day ''
               @ nullish (map_option rag_text o60) ''not projected'' @ ''; neither is AMBER or RED.''),
          ev_evidence := ex_evidence (te_explanation t)\<rparr>)"

definition gar_reported :: "gar_input \<Rightarrow> rule_evaluation" where
  "gar_reported input =
     (let fired = isReportedGreenRisk input; reported = gi_reportedRag input
      in (gar_evaluation input ''GAR-REPORTED-CONFLICT'' ''Reported GREEN against system evidence'' ''REPORTED_RAG'' (Some ''MET-HLTH-012'') fired)
         \<lparr>ev_observedValue := Some (nullish (map_option rag_text reported) ''NOT_REPORTED''),
          ev_comparison := EQ, ev_thresholdValue := Some ''GREEN'',
          ev_notEvaluatedReason := (if reported = None then Some ''no status was reported for this period'' else None),
          ev_contribution := (if fired then ''Reported Green Risk (MET-HLTH-031)'' else ''no reported/system conflict''),
          ev_narrative :=
            (case reported of
               None \<Rightarrow> ''No Reported RAG for this period, so no reported/system comparison is possible. Absence of ''
                 @ ''a report is recorded as absence, never as GREEN.''
             | Some rag \<Rightarrow>
                 if fired
                 then ''Reported GREEN while the system assesses '' @ rag_text (gi_systemAssessedBand input)
                   @ (if materialDeterioration input
                      then '' and the evidence shows material deterioration ('' @ state_text (te_state (gi_trajectory input)) @ '')'' else '''')
                   @ ''. Reported RAG is left exactly as reported; this records the disagreement, it does not resolve it.''
                 else ''Reported '' @ rag_text rag @ '' against a System-Assessed '' @ rag_text (gi_systemAssessedBand input) @ ''; no conflict.''),
          ev_evidence := gi_bandEvidence input\<rparr>)"

definition gar_reasons :: "gar_input \<Rightarrow> rule_evaluation" where
  "gar_reasons input =
     (let rs = gi_reasons input; hasReasons = (length rs > 0)
      in (gar_evaluation input ''GAR-REASONS'' ''Stateable signal-level reasons'' ''REASON_COUNT'' None hasReasons)
         \<lparr>ev_observedValue := Some (show_nat (length rs)), ev_comparison := GTE, ev_thresholdValue := Some ''1'',
          ev_contribution := (if hasReasons then ''supporting detail'' else ''none available''),
          ev_narrative :=
            (if hasReasons
             then show_nat (length rs) @ '' reason'' @ (if length rs = 1 then '''' else ''s'') @ '': ''
               @ join_with '', '' (map (\<lambda>r. gar_code_text (gr_code r)) rs) @ ''.''
             else ''No economics signal cleared its threshold. The determination rests on the band and the ''
               @ ''forward outlook, both of which carry their own evidence.''),
          ev_evidence := (if hasReasons then concat (map gr_evidence rs) else ex_evidence (te_explanation (gi_trajectory input)))\<rparr>)"

definition gar_window :: "gar_input \<Rightarrow> rule_evaluation" where
  "gar_window input =
     (let weeks = gi_weeksToBandChange input; opened = windowOpen input
      in (gar_evaluation input ''GAR-WINDOW'' ''Intervention window still open'' ''WEEKS_TO_BAND_CHANGE'' (Some ''MET-FCST-007'') opened)
         \<lparr>ev_observedValue := map_option show_int weeks, ev_comparison := GTE,
          ev_thresholdValue := Some (show_int (gi_minimumInterventionWeeks input)),
          ev_notEvaluatedReason := (if weeks = None then Some ''no band change is projected within the outlook horizon'' else None),
          ev_contribution := (if opened then ''actionable'' else ''flagged as late -- escalate rather than plan''),
          ev_narrative :=
            (case weeks of
               None \<Rightarrow> ''No band change projected within the horizon, so the window is treated as open.''
             | Some n \<Rightarrow> show_int n @ '' weeks until the projected band change, against a minimum ''
                 @ ''intervention window of '' @ show_int (gi_minimumInterventionWeeks input) @ ''.''),
          ev_evidence := ex_evidence (te_explanation (gi_trajectory input))\<rparr>)"

definition gar_contributing :: "gar_input \<Rightarrow> gar_reason \<Rightarrow> rule_evaluation" where
  "gar_contributing input r =
     (gar_evaluation input (''GAR-'' @ gar_code_text (gr_code r)) (gar_code_text (gr_code r)) (gar_code_text (gr_code r)) (Some (gr_metricId r)) True)
     \<lparr>ev_observedValue := Some (gr_observedValue r), ev_contribution := ''contributing reason'',
      ev_narrative := gr_narrative r, ev_evidence := gr_evidence r\<rparr>"

definition gar_evaluations :: "gar_input \<Rightarrow> rule_evaluation list" where
  "gar_evaluations input =
     [gar_band input, gar_outlook input, gar_reported input, gar_reasons input, gar_window input]
     @ map (gar_contributing input) (gi_reasons input)"

section \<open>The finding\<close>

definition gar_outcome :: "gar_input \<Rightarrow> string" where
  "gar_outcome input =
     (if isSystemGreenAtRisk input \<and> isReportedGreenRisk input then ''SYSTEM GREEN-AT-RISK and REPORTED GREEN RISK''
      else if isSystemGreenAtRisk input then ''SYSTEM GREEN-AT-RISK''
      else if isReportedGreenRisk input then ''REPORTED GREEN RISK''
      else ''Neither System Green-at-Risk nor Reported Green Risk'')"

definition assessGreenAtRisk :: "gar_input \<Rightarrow> explanation_error + gar_finding" where
  "assessGreenAtRisk input =
     and_then (explain (gar_outcome input) (notApplicableReason input) (gi_assessedAt input) (gi_ruleVersion input)
         (gi_metricCatalogVersion input) None (gar_evaluations input))
       (\<lambda>x. Inr
         \<lparr>gf_projectId = gi_projectId input, gf_week = gi_week input, gf_assessedAt = gi_assessedAt input,
          gf_isSystemGreenAtRisk = isSystemGreenAtRisk input,
          gf_isReportedGreenRisk = isReportedGreenRisk input,
          gf_reportedRag = gi_reportedRag input,
          gf_systemAssessedBand = gi_systemAssessedBand input,
          gf_outlook30 = outlookAt (gi_trajectory input) DAYS_30,
          gf_outlook60 = outlookAt (gi_trajectory input) DAYS_60,
          gf_reasons = (if isSystemGreenAtRisk input \<or> isReportedGreenRisk input then gi_reasons input else []),
          gf_economicExposure = gi_economicExposure input,
          gf_marginPointsAtRisk = gi_marginPointsAtRisk input,
          gf_dataConfidence = gi_dataConfidence input,
          gf_confidenceBand = confidenceBand (gi_dataConfidence input),
          gf_weeksToBandChange = gi_weeksToBandChange input,
          gf_interventionWindowOpen = windowOpen input,
          gf_notApplicableReason = notApplicableReason input,
          gf_explanation = x\<rparr>)"

section \<open>What the findings mean\<close>

lemma assess_Inr:
  "assessGreenAtRisk input = Inr f \<Longrightarrow>
    gf_isSystemGreenAtRisk f = isSystemGreenAtRisk input \<and> gf_isReportedGreenRisk f = isReportedGreenRisk input
    \<and> gf_reportedRag f = gi_reportedRag input \<and> gf_systemAssessedBand f = gi_systemAssessedBand input
    \<and> gf_interventionWindowOpen f = windowOpen input"
  by (auto simp: assessGreenAtRisk_def and_then_def split: sum.splits)

lemma trajectory_outlooks:
  "evaluateTrajectory dj ti = Inr t \<Longrightarrow> \<exists>n m. te_outlooks t = projectOutlook (ti_currentBand ti) (te_state t) n m"
  by (auto simp: evaluateTrajectory_def Let_def and_then_def intro!: exI split: sum.splits)

lemma outlook_found:
  "map_option oa_band (find (\<lambda>x. oa_horizon x = DAYS_30) (projectOutlook band state n m)) =
     Some (degrade band (nat \<lfloor>stepsPerHorizon state\<rfloor>))"
  "map_option oa_band (find (\<lambda>x. oa_horizon x = DAYS_60) (projectOutlook band state n m)) =
     Some (degrade band (nat \<lfloor>stepsPerHorizon state * 2\<rfloor>))"
  by (simp_all add: projectOutlook_def horizons_def Let_def outlook_parts)

lemma outlook_adverse_iff:
  assumes "evaluateTrajectory dj ti = Inr t" "gi_trajectory input = t"
  shows "outlookAdverse input \<longleftrightarrow> ti_currentBand ti \<noteq> GREEN \<or> te_state t \<in> set FALLING"
proof -
  obtain n m where "te_outlooks t = projectOutlook (ti_currentBand ti) (te_state t) n m"
    using trajectory_outlooks [OF assms(1)] by blast
  then have at: "outlookAt t DAYS_30 = Some (degrade (ti_currentBand ti) (nat \<lfloor>stepsPerHorizon (te_state t)\<rfloor>))"
    "outlookAt t DAYS_60 = Some (degrade (ti_currentBand ti) (nat \<lfloor>stepsPerHorizon (te_state t) * 2\<rfloor>))"
    by (simp_all add: outlookAt_def outlook_found)
  show ?thesis
    unfolding outlookAdverse_def adverseHorizons_def SYSTEM_GREEN_AT_RISK_HORIZONS_def assms(2) at
    by (cases "ti_currentBand ti"; cases "te_state t")
      (simp_all add: ADVERSE_OUTLOOK_def FALLING_def stepsPerHorizon_def degrade_def BAND_ORDER_def index_of_def)
qed

text \<open>C17: over the trajectory the engine computes from the same current band, the finding is exactly what
  it is named for. System Green-at-Risk holds exactly of projects assessed Green whose trajectory
  deteriorates, so never of one that is already Amber or Red; Reported Green Risk exactly of projects
  reported Green that are not assessed Green or whose trajectory deteriorates; and the reported status
  leaves as it came.\<close>

theorem green_at_risk_means_falling_green:
  assumes "evaluateTrajectory dj ti = Inr t" "gi_trajectory input = t" "gi_systemAssessedBand input = ti_currentBand ti"
    and "assessGreenAtRisk input = Inr f"
  shows "(gf_isSystemGreenAtRisk f \<longleftrightarrow> ti_currentBand ti = GREEN \<and> te_state t \<in> set FALLING)
    \<and> (gf_isReportedGreenRisk f \<longleftrightarrow>
        gi_reportedRag input = Some GREEN \<and> (ti_currentBand ti \<noteq> GREEN \<or> te_state t \<in> set FALLING))
    \<and> gf_reportedRag f = gi_reportedRag input \<and> gf_systemAssessedBand f = ti_currentBand ti"
  using assess_Inr [OF assms(4)] outlook_adverse_iff [OF assms(1,2)] assms(2,3)
  by (auto simp: isSystemGreenAtRisk_def isReportedGreenRisk_def materialDeterioration_def)

lemma gar_fails_iff:
  "(case assessGreenAtRisk input of
      Inl _ \<Rightarrow> True | Inr _ \<Rightarrow> False) \<longleftrightarrow>
     gi_bandEvidence input = [] \<and> (gi_systemAssessedBand input = GREEN \<or> isReportedGreenRisk input)
     \<or> ex_evidence (te_explanation (gi_trajectory input)) = [] \<and> (outlookAdverse input \<or> windowOpen input)
     \<or> list_ex (\<lambda>r. gr_evidence r = []) (gi_reasons input)"
proof -
  have fires: "ev_fired (gar_band input) = (gi_systemAssessedBand input = GREEN)"
    "ev_fired (gar_outlook input) = outlookAdverse input" "ev_fired (gar_reported input) = isReportedGreenRisk input"
    "ev_fired (gar_reasons input) = (gi_reasons input \<noteq> [])" "ev_fired (gar_window input) = windowOpen input"
    by (auto simp: gar_band_def gar_outlook_def gar_reported_def gar_reasons_def gar_window_def gar_evaluation_def Let_def)
  have evs: "ev_evidence (gar_band input) = gi_bandEvidence input" "ev_evidence (gar_reported input) = gi_bandEvidence input"
    "ev_evidence (gar_outlook input) = ex_evidence (te_explanation (gi_trajectory input))"
    "ev_evidence (gar_window input) = ex_evidence (te_explanation (gi_trajectory input))"
    "gi_reasons input \<noteq> [] \<longrightarrow> ev_evidence (gar_reasons input) = concat (map gr_evidence (gi_reasons input))"
    by (auto simp: gar_band_def gar_outlook_def gar_reported_def gar_reasons_def gar_window_def gar_evaluation_def Let_def)
  have iff: "(\<exists>x. explain o1 d1 t1 v1 m1 h1 (gar_evaluations input) = Inr x) \<longleftrightarrow>
      \<not> (gi_bandEvidence input = [] \<and> (gi_systemAssessedBand input = GREEN \<or> isReportedGreenRisk input)
     \<or> ex_evidence (te_explanation (gi_trajectory input)) = [] \<and> (outlookAdverse input \<or> windowOpen input)
     \<or> list_ex (\<lambda>r. gr_evidence r = []) (gi_reasons input))" for o1 d1 t1 v1 m1 h1
    unfolding explain_Inr_iff using evs(5)
    by (cases "gi_reasons input")
      (auto simp: gar_evaluations_def fires evs(1-4) gar_contributing_def gar_evaluation_def list_ex_iff)
  have "(case assessGreenAtRisk input of Inl _ \<Rightarrow> True | Inr _ \<Rightarrow> False) \<longleftrightarrow>
      \<not> (\<exists>x. explain (gar_outcome input) (notApplicableReason input) (gi_assessedAt input) (gi_ruleVersion input)
            (gi_metricCatalogVersion input) None (gar_evaluations input) = Inr x)"
    by (auto simp: assessGreenAtRisk_def and_then_def split: sum.splits)
  then show ?thesis unfolding iff by simp
qed

text \<open>An assessment fails exactly when something it asserts has no record behind it: a Green band or a
  reported conflict without band evidence, an adverse outlook or an open window over a trajectory
  without evidence, or a reason without evidence. A project that has no observed signal has such a
  trajectory, and while its window is open, which it is when no change is projected, it cannot be
  assessed at all.\<close>

theorem green_at_risk_failure_exact:
  "(case assessGreenAtRisk input of
      Inl _ \<Rightarrow> True | Inr _ \<Rightarrow> False) \<longleftrightarrow>
     gi_bandEvidence input = [] \<and> (gi_systemAssessedBand input = GREEN \<or> isReportedGreenRisk input)
     \<or> ex_evidence (te_explanation (gi_trajectory input)) = [] \<and> (outlookAdverse input \<or> windowOpen input)
     \<or> list_ex (\<lambda>r. gr_evidence r = []) (gi_reasons input)"
  by (rule gar_fails_iff)

lemma no_series_no_evidence:
  assumes "ti_series ti = []" "evaluateTrajectory dj ti = Inr t"
  shows "te_state t = STABLE_STATE" "ex_evidence (te_explanation t) = []"
  using assms
  by (auto simp: evaluateTrajectory_def Let_def and_then_def trajectory_state_of_def stateEvaluation_def dedupeEvidence_def
      dest!: explain_Inr split: sum.splits)

lemma no_series_no_assessment:
  assumes "ti_series ti = []" "evaluateTrajectory dj ti = Inr t" "gi_trajectory input = t" "gi_weeksToBandChange input = None"
  shows "\<exists>e. assessGreenAtRisk input = Inl e"
  using gar_fails_iff [of input] no_series_no_evidence [OF assms(1,2)] assms(3,4)
  by (auto simp: windowOpen_def split: sum.splits)

section \<open>A project that is Green and falling\<close>

definition sample_trajectory_input :: trajectory_input where
  "sample_trajectory_input = \<lparr>ti_projectId = ''prj-001'', ti_week = Week 2026 36, ti_assessedAt = Instant 0 [],
     ti_ruleVersion = ''TRAJECTORY-v1'', ti_metricCatalogVersion = ''v1'', ti_series = [sample_series],
     ti_currentBand = GREEN, ti_rapidConfluenceThreshold = 2\<rparr>"

definition sample_gar_input :: "trajectory_evaluation \<Rightarrow> gar_input" where
  "sample_gar_input t = \<lparr>gi_projectId = ''prj-001'', gi_week = Week 2026 36, gi_assessedAt = Instant 0 [],
     gi_ruleVersion = ''GAR-v1'', gi_metricCatalogVersion = ''v1'', gi_systemAssessedBand = GREEN,
     gi_reportedRag = Some GREEN, gi_trajectory = t, gi_economicExposure = money_zero USD,
     gi_marginPointsAtRisk = None, gi_reasons = [], gi_bandEvidence = [sample_ref], gi_dataConfidence = Some (Qty 80 0),
     gi_weeksToBandChange = Some 8, gi_minimumInterventionWeeks = 4\<rparr>"

lemma sample_trajectory:
  obtains t where "evaluateTrajectory ref_decimal sample_trajectory_input = Inr t" "te_state t = DETERIORATING"
    "ex_evidence (te_explanation t) \<noteq> []"
proof -
  have ser: "ti_series sample_trajectory_input = [sample_series]" "ti_rapidConfluenceThreshold sample_trajectory_input = 2"
    by (simp_all add: sample_trajectory_input_def)
  have "list_all (\<lambda>s. se_evidence s \<noteq> []) (ti_series sample_trajectory_input)"
    by (simp add: ser sample_series_def)
  then obtain t where t: "evaluateTrajectory ref_decimal sample_trajectory_input = Inr t"
    using evaluate_succeeds by blast
  have "te_state t = DETERIORATING"
    using conjunct1 [OF evaluate_Inr [OF t]] by (simp add: ser sample_trend trajectory_state_of_def)
  moreover have "ex_evidence (te_explanation t) \<noteq> []"
    using evaluate_Inr [OF t] dedupe_sound [of "concat (map (\<lambda>s. ev_evidence (trendEvaluation ref_decimal sample_trajectory_input
      (trendOf ref_decimal s))) (ti_series sample_trajectory_input)) @ [sample_ref]"]
    by (auto simp: ser sample_series_def)
  ultimately show thesis by (rule that [OF t])
qed

theorem green_at_risk_means_falling_green_witness:
  "\<exists>t f. evaluateTrajectory ref_decimal sample_trajectory_input = Inr t \<and> assessGreenAtRisk (sample_gar_input t) = Inr f
     \<and> gf_isSystemGreenAtRisk f \<and> gf_isReportedGreenRisk f \<and> gf_reportedRag f = Some GREEN"
proof -
  obtain t where t: "evaluateTrajectory ref_decimal sample_trajectory_input = Inr t" "te_state t = DETERIORATING"
    "ex_evidence (te_explanation t) \<noteq> []"
    by (rule sample_trajectory)
  have "\<not> (case assessGreenAtRisk (sample_gar_input t) of Inl _ \<Rightarrow> True | Inr _ \<Rightarrow> False)"
    unfolding gar_fails_iff using t(3) by (simp add: sample_gar_input_def)
  then obtain f where f: "assessGreenAtRisk (sample_gar_input t) = Inr f" by (auto split: sum.splits)
  have "gi_trajectory (sample_gar_input t) = t"
    "gi_systemAssessedBand (sample_gar_input t) = ti_currentBand sample_trajectory_input"
    "gi_reportedRag (sample_gar_input t) = Some GREEN" "ti_currentBand sample_trajectory_input = GREEN"
    by (simp_all add: sample_gar_input_def sample_trajectory_input_def)
  with green_at_risk_means_falling_green [OF t(1) this(1,2) f] t f
  show ?thesis by (auto simp: FALLING_def)
qed

end
