(* ===== verification/Early_Warning.thy ===== *)
theory Early_Warning
  imports Warning_Rules Decimal_Reference
begin

text \<open>
  \<open>contexts/forecast/internal/early-warning-engine.ts\<close>: warnings recomputed from the readings, their
  severity, the lifecycle of what people did about them, and the late-detection rate. The collation
  of \<open>localeCompare\<close> is a parameter.
\<close>

section \<open>Data\<close>

datatype disposition_kind = DISP_VALIDATED | DISP_CHALLENGED | DISP_ACCEPTED_RISK

record disposition_input =
  dp_signalId :: string
  dp_raisedOn :: calendar_date
  dp_disposition :: disposition_kind
  dp_dispositionedOn :: "calendar_date option"
  dp_assuranceActorId :: string
  dp_rationale :: string
  dp_dueOn :: calendar_date

record action_link =
  ac_id :: string
  ac_signalId :: "string option"
  ac_description :: string
  ac_ownerActorId :: "string option"
  ac_dueOn :: "calendar_date option"
  ac_status :: string
  ac_executiveDecisionRequired :: bool

record early_warning_input =
  wi_projectId :: string
  wi_asOf :: instant
  wi_readings :: "(string, signal_reading) js_map"
  wi_dispositions :: "disposition_input list"
  wi_actions :: "action_link list"

datatype warning_lifecycle =
    AWAITING_DISPOSITION | OVERDUE_DISPOSITION | VALIDATED_NO_ACTION | VALIDATED_ACTION_OPEN
  | VALIDATED_ACTION_OVERDUE | VALIDATED_ACTION_COMPLETE | CHALLENGED | ACCEPTED_RISK

record detected_warning =
  dw_ruleId :: string
  dw_ruleName :: string
  dw_ruleVersion :: rule_version
  dw_signalId :: string
  dw_metricId :: "string option"
  dw_observedValue :: "string option"
  dw_threshold :: "quantity option"
  dw_comparison :: comparison
  dw_trend :: "signal_direction option"
  dw_severity :: warning_severity
  dw_thresholdMultiple :: "quantity option"
  dw_estimatedImpact :: "impact option"
  dw_scheduleImpactWeeks :: "int option"
  dw_narrative :: string
  dw_evidence :: "record_ref list"
  dw_evidenceAsOf :: instant
  dw_lifecycle :: warning_lifecycle
  dw_disposition :: "disposition_input option"
  dw_linkedActions :: "action_link list"
  dw_assuranceExceptionReason :: "string option"

record early_warning_assessment =
  wa_projectId :: string
  wa_asOf :: instant
  wa_ruleSetVersion :: rule_version
  wa_warnings :: "detected_warning list"
  wa_clear :: "(string \<times> string \<times> string) list"
  wa_notEvaluated :: "(string \<times> string) list"
  wa_assuranceExceptions :: "detected_warning list"
  wa_validatedWithoutAction :: "detected_warning list"
  wa_evaluatedAt :: instant

section \<open>Severity\<close>

fun SEVERITY_ORDER :: "warning_severity \<Rightarrow> int" where
  "SEVERITY_ORDER SEVERE = 3"
| "SEVERITY_ORDER HIGH = 2"
| "SEVERITY_ORDER ELEVATED = 1"

definition OPEN_STATUSES :: "string list" where
  "OPEN_STATUSES = [''PROPOSED'', ''COMMITTED'', ''IN_PROGRESS'']"

text \<open>The observed value is text; what is no decimal is a \<open>TypeError\<close>.\<close>

definition thresholdMultipleOf :: "decimal_js \<Rightarrow> string option \<Rightarrow> quantity option \<Rightarrow> decimal_error + quantity option" where
  "thresholdMultipleOf dj obs threshold =
     (case obs of None \<Rightarrow> Inr None | Some v \<Rightarrow>
      case threshold of None \<Rightarrow> Inr None | Some th \<Rightarrow>
        let t = qAbs dj th
        in if qCompare t Q_ZERO = 0 then Inr None
           else and_then (qty v) (\<lambda>q. Inr (qDiv dj (qAbs dj q) t)))"

definition severityFor :: "quantity option \<Rightarrow> warning_severity" where
  "severityFor multiple =
     (case multiple of
        None \<Rightarrow> ELEVATED
      | Some m \<Rightarrow> (case find (\<lambda>band. qCompare m (band_atMultiple band) \<ge> 0) WARNING_SEVERITY_BANDS of
                    None \<Rightarrow> ELEVATED | Some band \<Rightarrow> band_id band))"

section \<open>The lifecycle of a warning\<close>

definition overdue_reason :: "int \<Rightarrow> calendar_date \<Rightarrow> string" where
  "overdue_reason overdueBy dueOn =
     ''Assurance has not dispositioned this warning '' @ show_int overdueBy @ '' day''
     @ (if overdueBy = 1 then '''' else ''s'') @ '' past its control date of '' @ date_text dueOn @ ''. ''
     @ ''Overdue assurance is an assurance exception in its own right -- it is a failure of the ''
     @ ''control, not evidence about the project.''"

definition lifecycle_of :: "calendar_date \<Rightarrow> disposition_input option \<Rightarrow> action_link list \<Rightarrow> warning_lifecycle \<times> string option" where
  "lifecycle_of today disposition linked =
     (case disposition of
        None \<Rightarrow> (AWAITING_DISPOSITION, None)
      | Some d \<Rightarrow>
          if dp_dispositionedOn d = None then
            (let overdueBy = daysBetween (dp_dueOn d) today
             in if overdueBy > 0 then (OVERDUE_DISPOSITION, Some (overdue_reason overdueBy (dp_dueOn d)))
                else (AWAITING_DISPOSITION, None))
          else if dp_disposition d = DISP_CHALLENGED then (CHALLENGED, None)
          else if dp_disposition d = DISP_ACCEPTED_RISK then (ACCEPTED_RISK, None)
          else if length linked = 0 then (VALIDATED_NO_ACTION, None)
          else if list_all (\<lambda>a. ac_status a = ''COMPLETE'') linked then (VALIDATED_ACTION_COMPLETE, None)
          else if list_ex (\<lambda>a. ac_status a \<in> set OPEN_STATUSES
                \<and> (case ac_dueOn a of None \<Rightarrow> False | Some due \<Rightarrow> daysBetween due today > 0)) linked
          then (VALIDATED_ACTION_OVERDUE, None)
          else (VALIDATED_ACTION_OPEN, None))"

section \<open>Detection\<close>

text \<open>What one turn of the loop adds, and to which of its three lists.\<close>

datatype detection =
    Raised detected_warning
  | Cleared "string \<times> string \<times> string"
  | Unevaluated "string \<times> string"
  | Unknown_rule

definition detect :: "decimal_js \<Rightarrow> early_warning_input \<Rightarrow> rule_evaluation \<Rightarrow> decimal_error + detection" where
  "detect dj input e =
     (case js_get (js_map_of (map (\<lambda>r. (rule_id r, r)) EARLY_WARNING_RULES)) (ev_ruleId e) of
        None \<Rightarrow> Inr Unknown_rule
      | Some rl \<Rightarrow>
          (case ev_notEvaluatedReason e of
             Some reason \<Rightarrow> Inr (Unevaluated (ev_ruleId e, reason))
           | None \<Rightarrow>
               if \<not> ev_fired e
               then Inr (Cleared (ev_ruleId e, rule_signalId rl, rule_narrativeWhenClear rl))
               else
                 let reading = js_get (wi_readings input) (rule_signalId rl)
                 in and_then (thresholdMultipleOf dj (ev_observedValue e) (rule_threshold rl))
                      (\<lambda>multiple.
                        let disposition = js_get (js_map_of (map (\<lambda>d. (dp_signalId d, d)) (wi_dispositions input))) (rule_signalId rl);
                            linked = filter (\<lambda>a. ac_signalId a = Some (rule_signalId rl)) (wi_actions input);
                            state = lifecycle_of (dateOf (wi_asOf input)) disposition linked
                        in Inr (Raised
                          \<lparr>dw_ruleId = ev_ruleId e, dw_ruleName = rule_name rl, dw_ruleVersion = rule_ruleVersion rl,
                           dw_signalId = rule_signalId rl, dw_metricId = rule_signalMetricId rl,
                           dw_observedValue = ev_observedValue e, dw_threshold = rule_threshold rl,
                           dw_comparison = rule_comparison rl, dw_trend = Option.bind reading rd_trend,
                           dw_severity = severityFor multiple, dw_thresholdMultiple = multiple,
                           dw_estimatedImpact = Option.bind reading rd_estimatedImpact, dw_scheduleImpactWeeks = None,
                           dw_narrative = rule_narrativeWhenFired rl,
                           dw_evidence = (case reading of None \<Rightarrow> [] | Some r \<Rightarrow> rd_evidence r),
                           dw_evidenceAsOf = wi_asOf input, dw_lifecycle = fst state, dw_disposition = disposition,
                           dw_linkedActions = linked, dw_assuranceExceptionReason = snd state\<rparr>))))"

definition warning_order :: "(string \<Rightarrow> string \<Rightarrow> int) \<Rightarrow> detected_warning \<Rightarrow> detected_warning \<Rightarrow> int" where
  "warning_order lc a b =
     (let bySeverity = SEVERITY_ORDER (dw_severity b) - SEVERITY_ORDER (dw_severity a)
      in if bySeverity \<noteq> 0 then bySeverity else lc (dw_ruleId a) (dw_ruleId b))"

definition evaluateEarlyWarnings :: "decimal_js \<Rightarrow> (string \<Rightarrow> string \<Rightarrow> int) \<Rightarrow> early_warning_input
    \<Rightarrow> decimal_error + early_warning_assessment" where
  "evaluateEarlyWarnings dj lc input =
     and_then (try_map (detect dj input) (evaluateRules EARLY_WARNING_RULES (wi_readings input) None None))
       (\<lambda>found.
         let warnings = List.map_filter (\<lambda>x. case x of Raised w \<Rightarrow> Some w | _ \<Rightarrow> None) found;
             ordered = sort_by (warning_order lc) warnings
         in Inr
           \<lparr>wa_projectId = wi_projectId input, wa_asOf = wi_asOf input,
            wa_ruleSetVersion = rule_ruleVersion (hd EARLY_WARNING_RULES),
            wa_warnings = ordered,
            wa_clear = List.map_filter (\<lambda>x. case x of Cleared c \<Rightarrow> Some c | _ \<Rightarrow> None) found,
            wa_notEvaluated = List.map_filter (\<lambda>x. case x of Unevaluated n \<Rightarrow> Some n | _ \<Rightarrow> None) found,
            wa_assuranceExceptions = filter (\<lambda>w. dw_lifecycle w = OVERDUE_DISPOSITION) ordered,
            wa_validatedWithoutAction = filter (\<lambda>w. dw_lifecycle w = VALIDATED_NO_ACTION) ordered,
            wa_evaluatedAt = wi_asOf input\<rparr>)"

section \<open>Late detection\<close>

record late_detection_case =
  lc_projectId :: string
  lc_firstRedPeriod :: string
  lc_priorBand :: "string option"
  lc_priorWarningCount :: nat
  lc_detected :: bool

datatype historical_coverage = FULL_COVERAGE | PARTIAL_COVERAGE | NO_COVERAGE

record late_detection_rate =
  lr_metricId :: string
  lr_projectsReachingRed :: nat
  lr_lateDetections :: nat
  lr_rate :: "quantity option"
  lr_notComputableReason :: "string option"
  lr_cases :: "late_detection_case list"
  lr_reconstructedDimensions :: "string list"
  lr_unavailableDimensions :: "string list"
  lr_historicalCoverage :: historical_coverage
  lr_executiveAuthoritative :: bool
  lr_claimQualification :: string

definition or_text :: "string \<Rightarrow> string \<Rightarrow> string" where
  "or_text s fallback = (if s = '''' then fallback else s)"

definition claim_qualification :: "bool \<Rightarrow> string list \<Rightarrow> string list \<Rightarrow> string" where
  "claim_qualification authoritative reconstructed unavailable =
     (if authoritative
      then ''The historical replay reconstructed every health dimension, so this rate is stated over the ''
        @ ''same band the product reports today.''
      else ''**Not an executive conclusion.** The historical replay could rewind ''
        @ or_text (join_with '', '' reconstructed) ''no'' @ '' ''
        @ ''dimension'' @ (if length reconstructed = 1 then '''' else ''s'') @ '' only; ''
        @ or_text (join_with '', '' unavailable) ''the rest'' @ '' could not be reconstructed ''
        @ ''because the fact tables hold no per-period snapshot of them. Carrying today's signals ''
        @ ''backward would attribute current evidence to a past decision and flatter detection, so they ''
        @ ''are omitted. This rate therefore measures detection against a **partial historical band**, ''
        @ ''not against the four-dimension band the product reports now (DR-059).'')"

definition computeLateDetectionRate :: "decimal_js \<Rightarrow> late_detection_case list \<Rightarrow> string list \<Rightarrow> string list \<Rightarrow> late_detection_rate" where
  "computeLateDetectionRate dj cases reconstructed unavailable =
     (let coverage = (if length unavailable = 0
                      then (if length reconstructed = 0 then NO_COVERAGE else FULL_COVERAGE) else PARTIAL_COVERAGE);
          authoritative = (coverage = FULL_COVERAGE);
          late = length (filter (\<lambda>c. \<not> lc_detected c) cases)
      in if length cases = 0
         then \<lparr>lr_metricId = ''MET-FCST-030'', lr_projectsReachingRed = 0, lr_lateDetections = 0, lr_rate = None,
               lr_notComputableReason =
                 Some (''No project in scope reached Red within the observed history, so there is no population to ''
                       @ ''rate. That is not a 0% late-detection rate -- it is an absence of cases.''),
               lr_cases = cases, lr_reconstructedDimensions = reconstructed, lr_unavailableDimensions = unavailable,
               lr_historicalCoverage = coverage, lr_executiveAuthoritative = False,
               lr_claimQualification = claim_qualification authoritative reconstructed unavailable\<rparr>
         else \<lparr>lr_metricId = ''MET-FCST-030'', lr_projectsReachingRed = length cases, lr_lateDetections = late,
               lr_rate = qDiv dj (q_nat late) (q_nat (length cases)), lr_notComputableReason = None,
               lr_cases = cases, lr_reconstructedDimensions = reconstructed, lr_unavailableDimensions = unavailable,
               lr_historicalCoverage = coverage, lr_executiveAuthoritative = authoritative,
               lr_claimQualification = claim_qualification authoritative reconstructed unavailable\<rparr>)"

section \<open>One rule at a time\<close>

lemma warning_rule_shape:
  "r \<in> set EARLY_WARNING_RULES \<Longrightarrow> rule_comparison r = GTE \<and> (\<exists>t. rule_threshold r = Some t \<and> 0 < qval t)"
proof -
  assume "r \<in> set EARLY_WARNING_RULES"
  then have "rule_test r \<in> set (map rule_test EARLY_WARNING_RULES)" by simp
  then show ?thesis unfolding warning_tests by (auto simp: rule_test_def)
qed

lemma warning_ids_distinct: "distinct (map rule_id EARLY_WARNING_RULES)"
  by (simp add: EARLY_WARNING_RULES_def warn_def)

lemma warning_rule_lookup:
  assumes "r \<in> set EARLY_WARNING_RULES"
  shows "js_get (js_map_of (map (\<lambda>r. (rule_id r, r)) EARLY_WARNING_RULES)) (rule_id r) = Some r"
proof -
  have "distinct (map fst (rev (map (\<lambda>r. (rule_id r, r)) EARLY_WARNING_RULES)))"
    using warning_ids_distinct by (simp add: comp_def rev_map [symmetric])
  then show ?thesis using assms by (auto simp: js_get_map_of intro!: map_of_is_SomeI)
qed

lemma unbounded_text: "qty ''UNBOUNDED'' = Inl NotADecimalString"
  by code_simp

definition warning_evaluation :: "early_warning_input \<Rightarrow> threshold_rule \<Rightarrow> rule_evaluation" where
  "warning_evaluation input r = evaluateRule r (js_get (wi_readings input) (rule_signalId r)) None None"

fun detection_id :: "detection \<Rightarrow> string" where
  "detection_id (Raised w) = dw_ruleId w"
| "detection_id (Cleared c) = fst c"
| "detection_id (Unevaluated n) = fst n"
| "detection_id Unknown_rule = []"

text \<open>Whether a signal's reading is one that the engine cannot band.\<close>

definition unbounded_reading :: "early_warning_input \<Rightarrow> threshold_rule \<Rightarrow> bool" where
  "unbounded_reading input r \<longleftrightarrow> (case js_get (wi_readings input) (rule_signalId r) of None \<Rightarrow> False | Some x \<Rightarrow> rd_unbounded x)"

lemma detect_unbounded:
  assumes "decimal_lib dj" "r \<in> set EARLY_WARNING_RULES" "unbounded_reading input r"
  shows "detect dj input (warning_evaluation input r) = Inl NotADecimalString"
proof -
  obtain t where rule: "rule_comparison r = GTE" "rule_threshold r = Some t" "0 < qval t"
    using warning_rule_shape [OF assms(2)] by blast
  obtain x where x: "js_get (wi_readings input) (rule_signalId r) = Some x" "rd_unbounded x"
    using assms(3) by (auto simp: unbounded_reading_def split: option.splits)
  have e: "warning_evaluation input r = unbounded_evaluation r x"
    using x rule warning_applicability [OF assms(2)]
    by (simp add: warning_evaluation_def evaluateRule_def inapplicable_verdict_def)
  have "qCompare (qAbs dj t) Q_ZERO \<noteq> 0"
    using rule(3) decimal_lib.show_val [OF assms(1), of t] by (simp add: qAbs_def qCompare_sign)
  then have "thresholdMultipleOf dj (Some ''UNBOUNDED'') (Some t) = Inl NotADecimalString"
    by (simp add: thresholdMultipleOf_def unbounded_text Let_def)
  moreover have "ev_ruleId (unbounded_evaluation r x) = rule_id r" "ev_notEvaluatedReason (unbounded_evaluation r x) = None"
    "ev_fired (unbounded_evaluation r x)" "ev_observedValue (unbounded_evaluation r x) = Some ''UNBOUNDED''"
    using rule by (simp_all add: branch_defs)
  ultimately show ?thesis
    unfolding e detect_def by (simp add: warning_rule_lookup [OF assms(2)] rule)
qed

lemma detect_bounded:
  assumes "r \<in> set EARLY_WARNING_RULES" "\<not> unbounded_reading input r"
  shows "\<exists>d. detect dj input (warning_evaluation input r) = Inr d \<and> d \<noteq> Unknown_rule \<and> detection_id d = rule_id r"
proof -
  obtain t where rule: "rule_comparison r = GTE" "rule_threshold r = Some t" "0 < qval t"
    using warning_rule_shape [OF assms(1)] by blast
  have app: "inapplicable_verdict r None = None" by (simp add: inapplicable_verdict_def split: option.splits)
  let ?x = "js_get (wi_readings input) (rule_signalId r)"
  show ?thesis
  proof (cases "Option.bind ?x rd_value")
    case None
    then have "warning_evaluation input r = no_value_evaluation r ?x"
      using assms(2) rule app
      by (auto simp: warning_evaluation_def evaluateRule_def unbounded_reading_def split: option.splits)
    then show ?thesis
      by (simp add: detect_def warning_rule_lookup [OF assms(1)] branch_defs)
  next
    case (Some v)
    then obtain x where x: "?x = Some x" "rd_value x = Some v" "\<not> rd_unbounded x"
      using assms(2) by (auto simp: unbounded_reading_def split: option.splits)
    then have e: "warning_evaluation input r = value_evaluation r x v"
      using rule app by (simp add: warning_evaluation_def evaluateRule_def)
    have m: "\<exists>m. thresholdMultipleOf dj (Some (q_text v)) (Some t) = Inr m"
      by (simp add: thresholdMultipleOf_def qty_of_text Let_def)
    have evs: "ev_ruleId (value_evaluation r x v) = rule_id r" "ev_notEvaluatedReason (value_evaluation r x v) = None"
      "ev_observedValue (value_evaluation r x v) = Some (q_text v)"
      by (simp_all add: branch_defs)
    show ?thesis
    proof (cases "ev_fired (value_evaluation r x v)")
      case False
      then show ?thesis unfolding e detect_def by (simp add: evs warning_rule_lookup [OF assms(1)])
    next
      case True
      with m evs show ?thesis unfolding e detect_def
        by (auto simp: warning_rule_lookup [OF assms(1)] rule Let_def split: prod.splits)
    qed
  qed
qed

lemma detect_raised:
  assumes "r \<in> set EARLY_WARNING_RULES" "detect dj input (warning_evaluation input r) = Inr (Raised w)"
  shows "dw_ruleId w = rule_id r \<and> dw_signalId w = rule_signalId r
    \<and> (dw_lifecycle w, dw_assuranceExceptionReason w)
        = lifecycle_of (dateOf (wi_asOf input)) (dw_disposition w) (dw_linkedActions w)
    \<and> dw_disposition w = map_of (rev (map (\<lambda>d. (dp_signalId d, d)) (wi_dispositions input))) (rule_signalId r)"
  using assms warning_rule_lookup [OF assms(1), unfolded js_get_map_of]
  by (auto simp: detect_def and_then_Inr_iff js_get_map_of Let_def warning_evaluation_def
      split: option.splits if_splits prod.splits)

section \<open>The assessment\<close>

lemma try_map_cases:
  "(\<forall>x\<in>set xs. \<exists>y. f x = Inr y) \<Longrightarrow> \<exists>ys. try_map f xs = Inr ys \<and> list_all2 (\<lambda>x y. f x = Inr y) xs ys"
  by (induction xs) auto

lemma try_map_fails: "x \<in> set xs \<Longrightarrow> f x = Inl e \<Longrightarrow> \<exists>e'. try_map f xs = Inl e'"
proof (induction xs)
  case (Cons a xs)
  then show ?case by (cases "f a"; cases "try_map f xs") auto
qed simp

lemma found_partition:
  "Unknown_rule \<notin> set ds \<Longrightarrow>
   mset (map dw_ruleId (List.map_filter (\<lambda>x. case x of Raised w \<Rightarrow> Some w | _ \<Rightarrow> None) ds))
   + mset (map fst (List.map_filter (\<lambda>x. case x of Cleared c \<Rightarrow> Some c | _ \<Rightarrow> None) ds))
   + mset (map fst (List.map_filter (\<lambda>x. case x of Unevaluated n \<Rightarrow> Some n | _ \<Rightarrow> None) ds))
   = mset (map detection_id ds)"
  by (induction ds) (auto simp: List.map_filter_simps split: detection.splits)

lemma evaluations: "evaluateRules EARLY_WARNING_RULES (wi_readings input) None None = map (warning_evaluation input) EARLY_WARNING_RULES"
  by (simp add: evaluateRules_def warning_evaluation_def)

lemma try_map_map: "try_map f (map g xs) = try_map (\<lambda>x. f (g x)) xs"
  by (induction xs) simp_all

lemma comparator_warning: "comparator lc \<Longrightarrow> comparator (warning_order lc)"
proof -
  assume "comparator lc"
  moreover have "comparator (\<lambda>x y. y - x :: int)" by unfold_locales (auto simp: sgn_if)
  moreover have "warning_order lc = cmp_lex (cmp_key (\<lambda>w. SEVERITY_ORDER (dw_severity w)) (\<lambda>x y. y - x)) (cmp_key dw_ruleId lc)"
    by (intro ext) (simp add: warning_order_def cmp_lex_def cmp_key_def Let_def)
  ultimately show ?thesis by (metis comparator_lex comparator_key)
qed

text \<open>Every rule is accounted for. As long as no reading is unbounded, the assessment exists, each of the
  early-warning rules is reported exactly once (as a warning, as clear or as not evaluated), and the warnings
  are listed by decreasing severity.\<close>

theorem every_warning_rule_reported:
  assumes "comparator lc" "\<And>r. r \<in> set EARLY_WARNING_RULES \<Longrightarrow> \<not> unbounded_reading input r"
  shows "\<exists>a. evaluateEarlyWarnings dj lc input = Inr a
     \<and> mset (map dw_ruleId (wa_warnings a)) + mset (map fst (wa_clear a)) + mset (map fst (wa_notEvaluated a))
       = mset (map rule_id EARLY_WARNING_RULES)
     \<and> sorted_wrt (\<lambda>v w. SEVERITY_ORDER (dw_severity w) \<le> SEVERITY_ORDER (dw_severity v)) (wa_warnings a)"
proof -
  let ?f = "\<lambda>r. detect dj input (warning_evaluation input r)"
  have each: "\<forall>r\<in>set EARLY_WARNING_RULES. \<exists>d. ?f r = Inr d"
    using detect_bounded assms(2) by blast
  then obtain ds where ds: "try_map ?f EARLY_WARNING_RULES = Inr ds"
    "list_all2 (\<lambda>r d. ?f r = Inr d) EARLY_WARNING_RULES ds"
    using try_map_cases [OF each] by blast
  have "list_all2 (\<lambda>r d. d \<noteq> Unknown_rule \<and> detection_id d = rule_id r) EARLY_WARNING_RULES ds"
    using ds(2) unfolding list_all2_conv_all_nth
    by (metis assms(2) detect_bounded nth_mem old.sum.inject(2))
  then have ids: "map detection_id ds = map rule_id EARLY_WARNING_RULES" "Unknown_rule \<notin> set ds"
    by (auto simp: list_all2_conv_all_nth in_set_conv_nth intro: nth_equalityI)
  have "sorted_wrt (\<lambda>v w. warning_order lc v w \<le> 0) (sort_by (warning_order lc) ws)" for ws
    by (rule comparator.sorted_sort_by [OF comparator_warning [OF assms(1)]])
  then have sorted: "sorted_wrt (\<lambda>v w. SEVERITY_ORDER (dw_severity w) \<le> SEVERITY_ORDER (dw_severity v))
      (sort_by (warning_order lc) ws)" for ws
    by (rule sorted_wrt_mono_rel [rotated]) (auto simp: warning_order_def Let_def split: if_splits)
  have "mset (map dw_ruleId (sort_by (warning_order lc) ws)) = mset (map dw_ruleId ws)" for ws
    by simp
  with sorted show ?thesis
    by (simp add: evaluateEarlyWarnings_def evaluations try_map_map ds(1) found_partition [OF ids(2), unfolded ids(1)] Let_def
        del: mset_map)
qed

text \<open>One unbounded observation loses every warning. If the reading of any rule's signal is unbounded, the
  engine throws: the warning fires, its observed value is the word \<open>UNBOUNDED\<close>, and banding its severity
  parses that word as a decimal.\<close>

theorem unbounded_reading_ends_the_assessment:
  assumes "decimal_lib dj" "r \<in> set EARLY_WARNING_RULES" "unbounded_reading input r"
  shows "evaluateEarlyWarnings dj lc input = Inl NotADecimalString"
proof -
  let ?f = "\<lambda>r. detect dj input (warning_evaluation input r)"
  obtain e where "try_map ?f EARLY_WARNING_RULES = Inl e"
    using try_map_fails [of r EARLY_WARNING_RULES ?f, OF assms(2)] detect_unbounded [OF assms] by blast
  then show ?thesis
    by (cases e) (simp add: evaluateEarlyWarnings_def evaluations try_map_map)
qed

lemma detect_raises:
  assumes "r \<in> set EARLY_WARNING_RULES" "detect dj input (warning_evaluation input r) = Inr d"
  shows "(\<exists>w. d = Raised w \<and> dw_ruleId w = rule_id r) \<longleftrightarrow> ev_fired (warning_evaluation input r)"
proof -
  have "ev_fired (warning_evaluation input r) \<Longrightarrow> ev_notEvaluatedReason (warning_evaluation input r) = None"
    by (auto simp: warning_evaluation_def evaluateRule_def branch_defs split: option.splits if_splits)
  then show ?thesis using assms(2)
    by (auto simp: detect_def warning_rule_lookup [OF assms(1)] and_then_Inr_iff Let_def warning_evaluation_def
        split: option.splits if_splits prod.splits)
qed

lemma assessment_found:
  assumes "evaluateEarlyWarnings dj lc input = Inr a"
  shows "\<exists>ds. try_map (\<lambda>r. detect dj input (warning_evaluation input r)) EARLY_WARNING_RULES = Inr ds
    \<and> wa_assuranceExceptions a = filter (\<lambda>w. dw_lifecycle w = OVERDUE_DISPOSITION) (wa_warnings a)
    \<and> (\<forall>w. w \<in> set (wa_warnings a) \<longleftrightarrow> Raised w \<in> set ds)"
proof -
  obtain ds where ds: "try_map (\<lambda>r. detect dj input (warning_evaluation input r)) EARLY_WARNING_RULES = Inr ds"
    using assms by (auto simp: evaluateEarlyWarnings_def evaluations try_map_map and_then_Inr_iff)
  then have "wa_warnings a = sort_by (warning_order lc) (List.map_filter (\<lambda>x. case x of Raised w \<Rightarrow> Some w | _ \<Rightarrow> None) ds)"
    "wa_assuranceExceptions a = filter (\<lambda>w. dw_lifecycle w = OVERDUE_DISPOSITION) (wa_warnings a)"
    using assms by (auto simp: evaluateEarlyWarnings_def evaluations try_map_map Let_def)
  moreover have "w \<in> set (List.map_filter (\<lambda>x. case x of Raised w \<Rightarrow> Some w | _ \<Rightarrow> None) ds) \<longleftrightarrow> Raised w \<in> set ds" for w
    by (induction ds) (auto simp: List.map_filter_simps split: detection.splits)
  ultimately show ?thesis using ds by simp
qed

lemma try_map_Inr_all: "try_map f xs = Inr ys \<Longrightarrow> x \<in> set xs \<Longrightarrow> \<exists>y\<in>set ys. f x = Inr y"
  by (induction xs arbitrary: ys) (auto simp: and_then_Inr_iff)

lemma warned_iff:
  assumes "evaluateEarlyWarnings dj lc input = Inr a" "r \<in> set EARLY_WARNING_RULES"
  shows "(\<exists>w\<in>set (wa_warnings a). dw_ruleId w = rule_id r)
     \<longleftrightarrow> (\<exists>x. js_get (wi_readings input) (rule_signalId r) = Some x \<and> breached r x)"
proof -
  obtain ds where ds: "try_map (\<lambda>r. detect dj input (warning_evaluation input r)) EARLY_WARNING_RULES = Inr ds"
    "\<And>w. w \<in> set (wa_warnings a) \<longleftrightarrow> Raised w \<in> set ds"
    using assessment_found [OF assms(1)] by metis
  have "(\<exists>w\<in>set (wa_warnings a). dw_ruleId w = rule_id r) \<longleftrightarrow> ev_fired (warning_evaluation input r)"
  proof
    assume "\<exists>w\<in>set (wa_warnings a). dw_ruleId w = rule_id r"
    then obtain w where w: "Raised w \<in> set ds" "dw_ruleId w = rule_id r" using ds(2) by blast
    then obtain r' where r': "r' \<in> set EARLY_WARNING_RULES" "detect dj input (warning_evaluation input r') = Inr (Raised w)"
      using try_map_Inr_set [OF ds(1)] by blast
    then have fired: "ev_fired (warning_evaluation input r')" and "dw_ruleId w = rule_id r'"
      using detect_raised [OF r'] detect_raises [OF r'] by auto
    then have "r' = r" using w(2) r'(1) assms(2) warning_ids_distinct by (metis distinct_map inj_onD)
    with fired show "ev_fired (warning_evaluation input r)" by simp
  next
    assume "ev_fired (warning_evaluation input r)"
    then show "\<exists>w\<in>set (wa_warnings a). dw_ruleId w = rule_id r"
      using try_map_Inr_all [OF ds(1) assms(2)] detect_raises [OF assms(2)] ds(2) by blast
  qed
  moreover have "ev_fired (warning_evaluation input r)
      \<longleftrightarrow> (\<exists>x. js_get (wi_readings input) (rule_signalId r) = Some x \<and> breached r x)"
  proof (cases "js_get (wi_readings input) (rule_signalId r)")
    case None
    then show ?thesis
      by (auto simp: warning_evaluation_def evaluateRule_def branch_defs split: option.splits)
  next
    case (Some x)
    obtain t where "rule_threshold r = Some t" using warning_rule_shape [OF assms(2)] by blast
    then have "ev_fired (evaluateRule r (Some x) None None) \<longleftrightarrow> breached r x"
      using warning_applicability [OF assms(2)] by (intro fires_iff) (simp_all add: inapplicable_verdict_def)
    with Some show ?thesis by (simp add: warning_evaluation_def)
  qed
  ultimately show ?thesis by simp
qed

lemma signal_of_warning:
  assumes "evaluateEarlyWarnings dj lc input = Inr a" "w \<in> set (wa_warnings a)"
    "r \<in> set EARLY_WARNING_RULES" "dw_ruleId w = rule_id r"
  shows "dw_signalId w = rule_signalId r"
proof -
  obtain ds where ds: "try_map (\<lambda>r. detect dj input (warning_evaluation input r)) EARLY_WARNING_RULES = Inr ds"
    "\<And>w. w \<in> set (wa_warnings a) \<longleftrightarrow> Raised w \<in> set ds"
    using assessment_found [OF assms(1)] by metis
  obtain r' where "r' \<in> set EARLY_WARNING_RULES" "detect dj input (warning_evaluation input r') = Inr (Raised w)"
    using assms(2) ds(2) try_map_Inr_set [OF ds(1)] by blast
  then have r': "r' \<in> set EARLY_WARNING_RULES" "dw_ruleId w = rule_id r'" "dw_signalId w = rule_signalId r'"
    using detect_raised by blast+
  then have "r' = r" using assms(3,4) warning_ids_distinct by (metis distinct_map inj_onD)
  with r'(3) show ?thesis by simp
qed

text \<open>A warning is raised exactly for the rules that are breached. In an assessment that the engine returns,
  a rule is among the warnings if and only if its signal was read and the reading crosses its threshold.\<close>

theorem warned_exactly_when_breached:
  assumes "evaluateEarlyWarnings dj lc input = Inr a" "r \<in> set EARLY_WARNING_RULES"
  shows "(\<exists>w\<in>set (wa_warnings a). dw_ruleId w = rule_id r)
     \<longleftrightarrow> (\<exists>x. js_get (wi_readings input) (rule_signalId r) = Some x \<and> breached r x)"
  by (rule warned_iff [OF assms])

section \<open>The lifecycle\<close>

lemma overdue_iff:
  "fst (lifecycle_of today d linked) = OVERDUE_DISPOSITION
   \<longleftrightarrow> (case d of None \<Rightarrow> False | Some x \<Rightarrow> dp_dispositionedOn x = None \<and> daysBetween (dp_dueOn x) today > 0)"
  by (simp add: lifecycle_of_def Let_def split: option.splits disposition_kind.splits)

text \<open>Overdue assurance is reported whatever else is true of the project. A warning is an assurance exception
  exactly when its latest disposition record is undated and past its control date; linked actions and the
  kind of disposition do not matter.\<close>

theorem overdue_assurance_is_an_exception:
  assumes "evaluateEarlyWarnings dj lc input = Inr a" "w \<in> set (wa_warnings a)"
  shows "w \<in> set (wa_assuranceExceptions a)
     \<longleftrightarrow> (case map_of (rev (map (\<lambda>d. (dp_signalId d, d)) (wi_dispositions input))) (dw_signalId w) of
           None \<Rightarrow> False
         | Some d \<Rightarrow> dp_dispositionedOn d = None \<and> daysBetween (dp_dueOn d) (dateOf (wi_asOf input)) > 0)"
proof -
  obtain ds where ds: "try_map (\<lambda>r. detect dj input (warning_evaluation input r)) EARLY_WARNING_RULES = Inr ds"
    "wa_assuranceExceptions a = filter (\<lambda>w. dw_lifecycle w = OVERDUE_DISPOSITION) (wa_warnings a)"
    "\<And>w. w \<in> set (wa_warnings a) \<longleftrightarrow> Raised w \<in> set ds"
    using assessment_found [OF assms(1)] by metis
  obtain r where r: "r \<in> set EARLY_WARNING_RULES" "detect dj input (warning_evaluation input r) = Inr (Raised w)"
    using assms(2) ds(3) try_map_Inr_set [OF ds(1)] by blast
  have "dw_signalId w = rule_signalId r \<and> (dw_lifecycle w, dw_assuranceExceptionReason w)
       = lifecycle_of (dateOf (wi_asOf input)) (dw_disposition w) (dw_linkedActions w)
     \<and> dw_disposition w = map_of (rev (map (\<lambda>d. (dp_signalId d, d)) (wi_dispositions input))) (rule_signalId r)"
    using r detect_raised by fast
  then have "dw_lifecycle w = fst (lifecycle_of (dateOf (wi_asOf input))
      (map_of (rev (map (\<lambda>d. (dp_signalId d, d)) (wi_dispositions input))) (dw_signalId w)) (dw_linkedActions w))"
    by (metis fst_conv)
  then show ?thesis using assms(2) ds(2) overdue_iff by simp
qed

section \<open>Late detection\<close>

text \<open>The late-detection rate is a proportion, absent exactly when no project reached Red, and stated as an
  executive conclusion only with cases to rate, something reconstructed and nothing missing.\<close>

theorem late_detection_rate_is_honest:
  assumes "decimal_lib dj"
  shows "let l = computeLateDetectionRate dj cases reconstructed unavailable in
     (case lr_rate l of None \<Rightarrow> cases = []
        | Some q \<Rightarrow> cases \<noteq> [] \<and> 0 \<le> qval q \<and> qval q \<le> 1
            \<and> (qval q = 0 \<longleftrightarrow> list_all lc_detected cases))
     \<and> lr_lateDetections l \<le> lr_projectsReachingRed l
     \<and> (lr_executiveAuthoritative l \<longleftrightarrow> cases \<noteq> [] \<and> reconstructed \<noteq> [] \<and> unavailable = [])"
proof (cases "cases = []")
  case True
  then show ?thesis by (simp add: computeLateDetectionRate_def Let_def)
next
  case False
  let ?late = "length (filter (\<lambda>c. \<not> lc_detected c) cases)" and ?n = "length cases"
  let ?x = "of_nat ?late / of_nat ?n :: rat"
  have x: "0 \<le> ?x" "?x \<le> 1" "?x = 0 \<longleftrightarrow> ?late = 0" using False by (simp_all add: divide_le_eq)
  have none: "?late = 0 \<longleftrightarrow> list_all lc_detected cases" by (auto simp: filter_empty_conv list_all_iff)
  have rate: "lr_rate (computeLateDetectionRate dj cases reconstructed unavailable)
      = Some (dshow dj (dround dj q_precision ?x))"
    using False by (simp add: computeLateDetectionRate_def qDiv_def Let_def)
  have val: "qval (dshow dj (dround dj q_precision ?x)) = dround dj q_precision ?x"
    by (rule decimal_lib.show_round [OF assms])
  have "0 \<le> dround dj q_precision ?x" "dround dj q_precision ?x \<le> 1"
    using decimal_lib.round_nonneg [OF assms x(1)] decimal_lib.round_le_fits [OF assms x(2) fits_1] by simp_all
  moreover have "dround dj q_precision ?x = 0 \<longleftrightarrow> ?x = 0"
    using decimal_lib.round_pos [OF assms, of q_precision ?x] x(1) decimal_lib.round_zero [OF assms]
    by (metis order_le_less precision_pos(1) less_irrefl)
  ultimately show ?thesis using False rate val x(3) none
    by (simp add: Let_def) (simp add: computeLateDetectionRate_def Let_def)
qed

section \<open>Sample assessments\<close>

definition sample_warning_input :: "bool \<Rightarrow> early_warning_input" where
  "sample_warning_input unbounded =
     \<lparr>wi_projectId = ''P-1'', wi_asOf = Instant 0 [],
      wi_readings = [(''BURN_GAP'', sample_reading (Some (Qty 40 2)) unbounded None)],
      wi_dispositions = [\<lparr>dp_signalId = ''BURN_GAP'', dp_raisedOn = Date 1969 11 1, dp_disposition = DISP_VALIDATED,
        dp_dispositionedOn = None, dp_assuranceActorId = ''U-1'', dp_rationale = [], dp_dueOn = Date 1969 12 1\<rparr>],
      wi_actions = []\<rparr>"

lemma sample_readings:
  "unbounded_reading (sample_warning_input b) r \<longleftrightarrow> b \<and> rule_signalId r = ''BURN_GAP''"
  by (simp add: unbounded_reading_def sample_warning_input_def js_get_def sample_reading_def)

theorem every_warning_rule_reported_witness:
  "\<exists>a. evaluateEarlyWarnings ref_decimal cmp_ord (sample_warning_input False) = Inr a
     \<and> mset (map dw_ruleId (wa_warnings a)) + mset (map fst (wa_clear a)) + mset (map fst (wa_notEvaluated a))
       = mset (map rule_id EARLY_WARNING_RULES)
     \<and> sorted_wrt (\<lambda>v w. SEVERITY_ORDER (dw_severity w) \<le> SEVERITY_ORDER (dw_severity v)) (wa_warnings a)"
  by (rule every_warning_rule_reported [OF natural.comparator_axioms]) (simp add: sample_readings)

lemma burn_gap_rule: "EARLY_WARNING_RULES ! 2 \<in> set EARLY_WARNING_RULES" "rule_signalId (EARLY_WARNING_RULES ! 2) = ''BURN_GAP''"
  "rule_threshold (EARLY_WARNING_RULES ! 2) = Some (Qty 8 2)" "rule_comparison (EARLY_WARNING_RULES ! 2) = GTE"
  by (simp_all add: EARLY_WARNING_RULES_def warn_def)

theorem unbounded_reading_ends_the_assessment_witness:
  "evaluateEarlyWarnings ref_decimal cmp_ord (sample_warning_input True) = Inl NotADecimalString"
  by (rule unbounded_reading_ends_the_assessment [OF ref_decimal_lib burn_gap_rule(1)])
    (simp add: sample_readings burn_gap_rule)

text \<open>A disposition due in December is still undated on the first of January.\<close>

lemma sample_warned:
  "\<exists>a w. evaluateEarlyWarnings ref_decimal cmp_ord (sample_warning_input False) = Inr a
     \<and> w \<in> set (wa_warnings a) \<and> dw_signalId w = ''BURN_GAP''"
proof -
  let ?in = "sample_warning_input False" and ?r = "EARLY_WARNING_RULES ! 2"
  obtain ds where "try_map (\<lambda>r. detect ref_decimal ?in (warning_evaluation ?in r)) EARLY_WARNING_RULES = Inr ds"
    using try_map_cases [of EARLY_WARNING_RULES "\<lambda>r. detect ref_decimal ?in (warning_evaluation ?in r)"]
      detect_bounded sample_readings by blast
  then obtain a where a: "evaluateEarlyWarnings ref_decimal cmp_ord ?in = Inr a"
    by (simp add: evaluateEarlyWarnings_def evaluations try_map_map Let_def)
  have "breached ?r (sample_reading (Some (Qty 40 2)) False None)"
    by (simp add: breached_def burn_gap_rule sample_reading_def)
  then obtain w where w: "w \<in> set (wa_warnings a)" "dw_ruleId w = rule_id ?r"
    using warned_iff [OF a burn_gap_rule(1)] burn_gap_rule(2)
    by (auto simp: sample_warning_input_def js_get_def)
  moreover have "dw_signalId w = ''BURN_GAP''"
    using signal_of_warning [OF a w(1) burn_gap_rule(1) w(2)] burn_gap_rule(2) by simp
  ultimately show ?thesis using a by blast
qed

theorem warned_exactly_when_breached_witness:
  "\<exists>a. evaluateEarlyWarnings ref_decimal cmp_ord (sample_warning_input False) = Inr a
     \<and> ((\<exists>w\<in>set (wa_warnings a). dw_ruleId w = rule_id (EARLY_WARNING_RULES ! 2))
       \<longleftrightarrow> (\<exists>x. js_get (wi_readings (sample_warning_input False)) ''BURN_GAP'' = Some x \<and> breached (EARLY_WARNING_RULES ! 2) x))"
  using sample_warned warned_exactly_when_breached [OF _ burn_gap_rule(1)] burn_gap_rule(2) by fastforce

text \<open>A disposition due in December is still undated on the first of January.\<close>

theorem overdue_assurance_is_an_exception_witness:
  "\<exists>a w. evaluateEarlyWarnings ref_decimal cmp_ord (sample_warning_input False) = Inr a
     \<and> w \<in> set (wa_assuranceExceptions a)"
proof -
  obtain a w where a: "evaluateEarlyWarnings ref_decimal cmp_ord (sample_warning_input False) = Inr a"
    "w \<in> set (wa_warnings a)" "dw_signalId w = ''BURN_GAP''"
    using sample_warned by blast
  have "daysBetween (Date 1969 12 1) (dateOf (Instant 0 [])) > 0" by code_simp
  then have "w \<in> set (wa_assuranceExceptions a)"
    using overdue_assurance_is_an_exception [OF a(1,2)] a(3) by (simp add: sample_warning_input_def)
  with a(1) show ?thesis by blast
qed

theorem late_detection_rate_is_honest_witness:
  "let l = computeLateDetectionRate ref_decimal [\<lparr>lc_projectId = ''P-1'', lc_firstRedPeriod = ''2026-03'', lc_priorBand = None,
       lc_priorWarningCount = 0, lc_detected = False\<rparr>] [''FINANCIAL''] [] in
     (case lr_rate l of None \<Rightarrow> False | Some q \<Rightarrow> 0 < qval q \<and> qval q \<le> 1) \<and> lr_executiveAuthoritative l"
  using late_detection_rate_is_honest [OF ref_decimal_lib, of "[\<lparr>lc_projectId = ''P-1'', lc_firstRedPeriod = ''2026-03'',
       lc_priorBand = None, lc_priorWarningCount = 0, lc_detected = False\<rparr>]" "[''FINANCIAL'']" "[]"]
  by (auto simp: Let_def order_le_less split: option.splits)

end
