(* ===== verification/Intervention_Priority.thy ===== *)
theory Intervention_Priority
  imports Health_Engine
begin

text \<open>
  \<open>contexts/portfolio/internal/intervention-priority.ts\<close>: the lexicographic ranking that says where
  leadership should intervene first, the candidates it declines to rank, and the sentences that explain
  a place. Weeks are whole numbers; the collation of \<open>localeCompare\<close> is the parameter \<open>lc\<close>.
\<close>

section \<open>Inputs\<close>

datatype confidence_band = CB_HIGH | CB_MEDIUM | CB_LOW

record exposure_evidence =
  ee_systemAssessedBand :: "rag option"
  ee_gmValueAtRisk :: "quantity option"
  ee_contractualPenaltyExposure :: "quantity option"
  ee_forecastContractLoss :: "quantity option"
  ee_isSystemGreenAtRisk :: bool
  ee_outlook30 :: "rag option"
  ee_outlook60 :: "rag option"
  ee_weeksToBandChange :: "int option"
  ee_weeksToCriticalMilestone :: "int option"
  ee_hardOverridePresent :: bool

record actionability_evidence =
  ae_openRecoveryActionId :: "string option"
  ae_namedOwner :: "string option"
  ae_dueDate :: "string option"
  ae_estimatedGmBenefit :: "quantity option"
  ae_estimatedScheduleBenefitWeeks :: "int option"
  ae_planConfidence :: "confidence_band option"
  ae_executiveDependency :: bool

record priority_candidate =
  pc_projectId :: string
  pc_exposure :: exposure_evidence
  pc_actionability :: actionability_evidence
  pc_dataConfidenceBand :: "confidence_band option"
  pc_forecastConfidenceBand :: "confidence_band option"

record priority_policy =
  pp_version :: rule_version
  pp_criticalGmValueAtRiskFloor :: quantity
  pp_immediateHorizonWeeks :: int

section \<open>Derived grades\<close>

datatype actionability_grade = CREDIBLE_PLAN | PLAN_FORMING | NO_PLAN | NOT_ASSESSED

fun ACTIONABILITY_ORDER :: "actionability_grade \<Rightarrow> int" where
  "ACTIONABILITY_ORDER CREDIBLE_PLAN = 3"
| "ACTIONABILITY_ORDER PLAN_FORMING = 2"
| "ACTIONABILITY_ORDER NO_PLAN = 1"
| "ACTIONABILITY_ORDER NOT_ASSESSED = 0"

definition gradeActionability :: "actionability_evidence \<Rightarrow> actionability_grade" where
  "gradeActionability a =
     (let nothingKnown = ae_openRecoveryActionId a = None \<and> ae_namedOwner a = None \<and> ae_dueDate a = None
            \<and> ae_estimatedGmBenefit a = None \<and> ae_estimatedScheduleBenefitWeeks a = None
            \<and> ae_planConfidence a = None
      in if nothingKnown then NOT_ASSESSED
         else if ae_openRecoveryActionId a = None then NO_PLAN
         else let hasBenefit = ae_estimatedGmBenefit a \<noteq> None \<or> ae_estimatedScheduleBenefitWeeks a \<noteq> None
              in if ae_namedOwner a \<noteq> None \<and> ae_dueDate a \<noteq> None \<and> hasBenefit then CREDIBLE_PLAN
                 else PLAN_FORMING)"

fun PRIORITY_BAND_ORDER :: "rag \<Rightarrow> int" where
  "PRIORITY_BAND_ORDER GREEN = 0"
| "PRIORITY_BAND_ORDER AMBER = 1"
| "PRIORITY_BAND_ORDER RED = 2"

fun CONFIDENCE_ORDER :: "confidence_band \<Rightarrow> int" where
  "CONFIDENCE_ORDER CB_LOW = 0"
| "CONFIDENCE_ORDER CB_MEDIUM = 1"
| "CONFIDENCE_ORDER CB_HIGH = 2"

definition positive :: "quantity option \<Rightarrow> bool" where
  "positive q = (case q of None \<Rightarrow> False | Some x \<Rightarrow> qCompare x Q_ZERO > 0)"

definition hasCriticalExposure :: "exposure_evidence \<Rightarrow> priority_policy \<Rightarrow> bool" where
  "hasCriticalExposure e policy =
     (if positive (ee_contractualPenaltyExposure e) then True
      else if positive (ee_forecastContractLoss e) then True
      else ee_systemAssessedBand e = Some RED
           \<and> (case ee_gmValueAtRisk e of
                None \<Rightarrow> False | Some v \<Rightarrow> qCompare v (pp_criticalGmValueAtRiskFloor policy) \<ge> 0))"

definition present :: "'a option list \<Rightarrow> 'a list" where
  "present xs = List.map_filter (\<lambda>x. x) xs"

definition hasPredictedDeterioration :: "exposure_evidence \<Rightarrow> bool" where
  "hasPredictedDeterioration e =
     (if ee_isSystemGreenAtRisk e then True
      else case ee_systemAssessedBand e of
             None \<Rightarrow> False
           | Some band \<Rightarrow> list_ex (\<lambda>b. PRIORITY_BAND_ORDER b > PRIORITY_BAND_ORDER band)
               (present [ee_outlook30 e, ee_outlook60 e]))"

definition timeCriticalityWeeks :: "exposure_evidence \<Rightarrow> int option" where
  "timeCriticalityWeeks e =
     (case present [ee_weeksToBandChange e, ee_weeksToCriticalMilestone e] of
        [] \<Rightarrow> None | w # ws \<Rightarrow> Some (foldl min w ws))"

section \<open>Results\<close>

record priority_tier_values =
  tv_criticalExposure :: bool
  tv_predictedDeterioration :: bool
  tv_timeCriticalityWeeks :: "int option"
  tv_gmValueAtRisk :: "quantity option"
  tv_actionability :: actionability_grade
  tv_rankConfidence :: confidence_band

record priority_ranking =
  pr_projectId :: string
  pr_rank :: nat
  pr_tiers :: priority_tier_values
  pr_evidenceGaps :: "string list"
  pr_narrative :: string
  pr_outranksBecause :: string

record unranked_candidate =
  uc_projectId :: string
  uc_reason :: string
  uc_evidenceGaps :: "string list"

record priority_result =
  ip_week :: week_id
  ip_ruleVersion :: rule_version
  ip_metricId :: string
  ip_model :: string
  ip_tierOrder :: "string list"
  ip_ranked :: "priority_ranking list"
  ip_insufficientEvidence :: "unranked_candidate list"

definition PRIORITY_TIER_ORDER :: "string list" where
  "PRIORITY_TIER_ORDER =
   [''1. Critical economic / contractual exposure'',
    ''2. Predicted deterioration (System Green-at-Risk or worsening outlook)'',
    ''3. Time criticality (weeks to band change or critical milestone)'',
    ''4. GM value at risk'',
    ''5. Actionability (credible plan evidence)'',
    ''6. Rank confidence'',
    ''7. Project id (deterministic tiebreak)'']"

definition rankConfidenceOf :: "priority_candidate \<Rightarrow> string list \<Rightarrow> confidence_band" where
  "rankConfidenceOf c gaps =
     (if length gaps \<ge> 3 then CB_LOW
      else let base = (case present [pc_dataConfidenceBand c, pc_forecastConfidenceBand c] of
                         [] \<Rightarrow> CB_LOW
                       | b # bs \<Rightarrow> foldl (\<lambda>worst x. if CONFIDENCE_ORDER x < CONFIDENCE_ORDER worst then x else worst) b bs)
           in if length gaps = 0 then base else if base = CB_HIGH then CB_MEDIUM else CB_LOW)"

definition gapsOf :: "priority_candidate \<Rightarrow> string list" where
  "gapsOf c =
     (if ee_systemAssessedBand (pc_exposure c) = None then [''MET-HLTH-011 System-Assessed RAG''] else [])
     @ (if ee_gmValueAtRisk (pc_exposure c) = None then [''MET-FIN-019 GM value at risk''] else [])
     @ (if timeCriticalityWeeks (pc_exposure c) = None then [''no time-to-band-change or milestone clock''] else [])
     @ (if gradeActionability (pc_actionability c) = NOT_ASSESSED then [''no intervention assessment''] else [])
     @ (if pc_dataConfidenceBand c = None then [''MET-DQ-005 data confidence''] else [])"

section \<open>The comparison\<close>

definition compareClock :: "int option \<Rightarrow> int option \<Rightarrow> int" where
  "compareClock a b =
     (if a = b then 0 else case a of None \<Rightarrow> 1 | Some x \<Rightarrow> (case b of None \<Rightarrow> - 1 | Some y \<Rightarrow> x - y))"

definition comparePriority :: "(string \<Rightarrow> string \<Rightarrow> int) \<Rightarrow> priority_tier_values \<Rightarrow> priority_tier_values
    \<Rightarrow> string \<Rightarrow> string \<Rightarrow> int" where
  "comparePriority lc a b aId bId =
     (if tv_criticalExposure a \<noteq> tv_criticalExposure b then (if tv_criticalExposure a then - 1 else 1)
      else if tv_predictedDeterioration a \<noteq> tv_predictedDeterioration b
      then (if tv_predictedDeterioration a then - 1 else 1)
      else let byClock = compareClock (tv_timeCriticalityWeeks a) (tv_timeCriticalityWeeks b)
      in if byClock \<noteq> 0 then byClock
      else let byVar = (case (tv_gmValueAtRisk a, tv_gmValueAtRisk b) of
                          (Some x, Some y) \<Rightarrow> qCompare y x
                        | (None, None) \<Rightarrow> 0 | (None, Some _) \<Rightarrow> 1 | (Some _, None) \<Rightarrow> - 1)
      in if byVar \<noteq> 0 then byVar
      else let byAction = ACTIONABILITY_ORDER (tv_actionability b) - ACTIONABILITY_ORDER (tv_actionability a)
      in if byAction \<noteq> 0 then byAction
      else let byConfidence = CONFIDENCE_ORDER (tv_rankConfidence b) - CONFIDENCE_ORDER (tv_rankConfidence a)
      in if byConfidence \<noteq> 0 then byConfidence
      else lc aId bId)"

section \<open>The explanation of a place\<close>

fun grade_text :: "actionability_grade \<Rightarrow> string" where
  "grade_text CREDIBLE_PLAN = ''CREDIBLE_PLAN''"
| "grade_text PLAN_FORMING = ''PLAN_FORMING''"
| "grade_text NO_PLAN = ''NO_PLAN''"
| "grade_text NOT_ASSESSED = ''NOT_ASSESSED''"

fun band_text :: "confidence_band \<Rightarrow> string" where
  "band_text CB_HIGH = ''HIGH''"
| "band_text CB_MEDIUM = ''MEDIUM''"
| "band_text CB_LOW = ''LOW''"

definition narrate :: "priority_tier_values \<Rightarrow> string list \<Rightarrow> string" where
  "narrate t gaps =
     (let parts =
        [if tv_criticalExposure t then ''Critical economic or contractual exposure is present''
         else ''No critical contractual exposure'',
         if tv_predictedDeterioration t then ''the forward outlook is worse than the present position''
         else ''the outlook does not worsen'',
         case tv_timeCriticalityWeeks t of
           None \<Rightarrow> ''no time clock is known''
         | Some w \<Rightarrow> show_int w @ '' week'' @ (if w = 1 then '''' else ''s'') @ '' until the next irreversible point'',
         case tv_gmValueAtRisk t of
           None \<Rightarrow> ''GM value at risk is not computable''
         | Some v \<Rightarrow> ''GM value at risk '' @ q_text v,
         ''actionability '' @ grade_text (tv_actionability t)];
       base = join_with ''; '' parts @ ''. Rank confidence '' @ band_text (tv_rankConfidence t) @ ''.''
      in if length gaps = 0 then base
         else base @ '' Placed on partial evidence -- missing: '' @ join_with '', '' gaps @ ''.'')"

definition clock_text :: "int option \<Rightarrow> string" where
  "clock_text w = nullish (map_option show_int w) ''unknown''"

definition var_text :: "quantity option \<Rightarrow> string" where
  "var_text v = nullish (map_option q_text v) ''not computable''"

text \<open>Tier 4 compares the two decimal strings, that is, the literals and not their values.\<close>

definition decidingTier :: "priority_tier_values \<Rightarrow> priority_tier_values \<Rightarrow> string \<Rightarrow> string \<Rightarrow> string" where
  "decidingTier a b aId bId =
     (if tv_criticalExposure a \<noteq> tv_criticalExposure b
      then ''it carries critical economic or contractual exposure and the next project does not (tier 1)''
      else if tv_predictedDeterioration a \<noteq> tv_predictedDeterioration b
      then ''its forward outlook deteriorates and the next project's does not (tier 2)''
      else if compareClock (tv_timeCriticalityWeeks a) (tv_timeCriticalityWeeks b) \<noteq> 0
      then ''less time remains before an irreversible point (tier 3: '' @ clock_text (tv_timeCriticalityWeeks a)
           @ '' vs '' @ clock_text (tv_timeCriticalityWeeks b) @ '' weeks)''
      else if tv_gmValueAtRisk a \<noteq> tv_gmValueAtRisk b
      then ''more gross margin is at risk (tier 4: '' @ var_text (tv_gmValueAtRisk a) @ '' vs ''
           @ var_text (tv_gmValueAtRisk b) @ '')''
      else if tv_actionability a \<noteq> tv_actionability b
      then ''a more credible intervention exists at equal exposure (tier 5: '' @ grade_text (tv_actionability a)
           @ '' vs '' @ grade_text (tv_actionability b) @ '')''
      else if tv_rankConfidence a \<noteq> tv_rankConfidence b
      then ''the ranking rests on better evidence (tier 6: '' @ band_text (tv_rankConfidence a) @ '' vs ''
           @ band_text (tv_rankConfidence b) @ '')''
      else ''every tier is equal; ordered by project id for determinism (tier 7: '' @ aId @ '' before '' @ bId @ '')'')"

section \<open>The ranking\<close>

record rankable =
  ra_id :: string
  ra_tiers :: priority_tier_values
  ra_gaps :: "string list"

definition tiers_of :: "priority_policy \<Rightarrow> priority_candidate \<Rightarrow> priority_tier_values" where
  "tiers_of policy c =
     \<lparr>tv_criticalExposure = hasCriticalExposure (pc_exposure c) policy,
      tv_predictedDeterioration = hasPredictedDeterioration (pc_exposure c),
      tv_timeCriticalityWeeks = timeCriticalityWeeks (pc_exposure c),
      tv_gmValueAtRisk = ee_gmValueAtRisk (pc_exposure c),
      tv_actionability = gradeActionability (pc_actionability c),
      tv_rankConfidence = rankConfidenceOf c (gapsOf c)\<rparr>"

definition placeable :: "priority_policy \<Rightarrow> priority_candidate \<Rightarrow> bool" where
  "placeable policy c \<longleftrightarrow> hasCriticalExposure (pc_exposure c) policy \<or> hasPredictedDeterioration (pc_exposure c)
     \<or> ee_gmValueAtRisk (pc_exposure c) \<noteq> None"

definition insufficient :: "priority_candidate \<Rightarrow> unranked_candidate" where
  "insufficient c =
     \<lparr>uc_projectId = pc_projectId c,
      uc_reason = ''No tier could be evaluated: no critical exposure, no outlook worse than the present, and ''
        @ ''no GM value at risk. Listed separately rather than ranked last -- an unmeasured project is ''
        @ ''not a safe one.'',
      uc_evidenceGaps = gapsOf c\<rparr>"

definition rank_order :: "(string \<Rightarrow> string \<Rightarrow> int) \<Rightarrow> rankable \<Rightarrow> rankable \<Rightarrow> int" where
  "rank_order lc x y = comparePriority lc (ra_tiers x) (ra_tiers y) (ra_id x) (ra_id y)"

text \<open>The final pass over the sorted list; \<open>i\<close> counts from the first place.\<close>

fun rank_from :: "nat \<Rightarrow> rankable list \<Rightarrow> priority_ranking list" where
  "rank_from i [] = []"
| "rank_from i (r # rs) =
     \<lparr>pr_projectId = ra_id r, pr_rank = i, pr_tiers = ra_tiers r, pr_evidenceGaps = ra_gaps r,
      pr_narrative = narrate (ra_tiers r) (ra_gaps r),
      pr_outranksBecause = (case rs of [] \<Rightarrow> '''' | n # _ \<Rightarrow> decidingTier (ra_tiers r) (ra_tiers n) (ra_id r) (ra_id n))\<rparr>
     # rank_from (Suc i) rs"

definition rankables :: "priority_policy \<Rightarrow> priority_candidate list \<Rightarrow> rankable list" where
  "rankables policy candidates =
     map (\<lambda>c. \<lparr>ra_id = pc_projectId c, ra_tiers = tiers_of policy c, ra_gaps = gapsOf c\<rparr>)
       (filter (placeable policy) candidates)"

definition rankInterventionPriority :: "(string \<Rightarrow> string \<Rightarrow> int) \<Rightarrow> week_id \<Rightarrow> priority_policy
    \<Rightarrow> priority_candidate list \<Rightarrow> priority_result" where
  "rankInterventionPriority lc week policy candidates =
     \<lparr>ip_week = week, ip_ruleVersion = pp_version policy, ip_metricId = ''MET-PORT-007'',
      ip_model = ''LEXICOGRAPHIC_TIERED'', ip_tierOrder = PRIORITY_TIER_ORDER,
      ip_ranked = rank_from 1 (sort_by (rank_order lc) (rankables policy candidates)),
      ip_insufficientEvidence = map insufficient (filter (\<lambda>c. \<not> placeable policy c) candidates)\<rparr>"

definition rankableCount :: "priority_candidate list \<Rightarrow> priority_policy \<Rightarrow> quantity" where
  "rankableCount candidates policy =
     (let n = length (filter (\<lambda>c. hasCriticalExposure (pc_exposure c) policy
                \<or> hasPredictedDeterioration (pc_exposure c) \<or> ee_gmValueAtRisk (pc_exposure c) \<noteq> None) candidates)
      in if n = 0 then Q_ZERO else q_nat n)"

section \<open>The order is a total preorder\<close>

definition compareVar :: "quantity option \<Rightarrow> quantity option \<Rightarrow> int" where
  "compareVar a b = (case (a, b) of
     (Some x, Some y) \<Rightarrow> qCompare y x | (None, None) \<Rightarrow> 0 | (None, Some _) \<Rightarrow> 1 | (Some _, None) \<Rightarrow> - 1)"

lemma comparator_clock: "comparator compareClock"
  by unfold_locales (auto simp: compareClock_def sgn_if split: option.splits if_splits)

lemma comparator_var: "comparator compareVar"
  by unfold_locales (auto simp: compareVar_def qCompare_sign sgn_if split: option.splits if_splits)

lemma comparator_difference: "comparator (\<lambda>x y. y - x :: int)"
  by unfold_locales (auto simp: sgn_if)

text \<open>The chain of tiers as a lexicographic comparator.\<close>

definition exposure_order :: "priority_tier_values \<Rightarrow> priority_tier_values \<Rightarrow> int" where
  "exposure_order =
     cmp_lex (cmp_key (\<lambda>t. \<not> tv_criticalExposure t) cmp_ord)
      (cmp_lex (cmp_key (\<lambda>t. \<not> tv_predictedDeterioration t) cmp_ord)
        (cmp_lex (cmp_key tv_timeCriticalityWeeks compareClock) (cmp_key tv_gmValueAtRisk compareVar)))"

definition evidence_order :: "priority_tier_values \<Rightarrow> priority_tier_values \<Rightarrow> int" where
  "evidence_order =
     cmp_lex (cmp_key (\<lambda>t. ACTIONABILITY_ORDER (tv_actionability t)) (\<lambda>x y. y - x))
       (cmp_key (\<lambda>t. CONFIDENCE_ORDER (tv_rankConfidence t)) (\<lambda>x y. y - x))"

lemma rank_order_lex:
  "rank_order lc = cmp_lex (cmp_key ra_tiers exposure_order)
     (cmp_lex (cmp_key ra_tiers evidence_order) (cmp_key ra_id lc))"
  by (intro ext)
    (simp add: rank_order_def comparePriority_def exposure_order_def evidence_order_def cmp_lex_def cmp_key_def
      cmp_ord_def compareVar_def Let_def)

lemma comparator_exposure: "comparator exposure_order"
  unfolding exposure_order_def
  by (intro comparator_lex comparator_key comparator_clock comparator_var natural.comparator_axioms)

lemma comparator_rank: "comparator lc \<Longrightarrow> comparator (rank_order lc)"
  unfolding rank_order_lex evidence_order_def
  by (intro comparator_lex comparator_key comparator_exposure comparator_difference)

lemma rank_order_exposure: "rank_order lc x y \<le> 0 \<Longrightarrow> exposure_order (ra_tiers x) (ra_tiers y) \<le> 0"
  by (auto simp: rank_order_lex cmp_lex_def cmp_key_def split: if_splits)

section \<open>The ranked list\<close>

lemma rank_from_maps:
  "map pr_tiers (rank_from i rs) = map ra_tiers rs" "map pr_projectId (rank_from i rs) = map ra_id rs"
  "map pr_rank (rank_from i rs) = [i..<i + length rs]"
  by (induction rs arbitrary: i) (simp_all add: upt_rec)

definition ranked_items :: "(string \<Rightarrow> string \<Rightarrow> int) \<Rightarrow> priority_policy \<Rightarrow> priority_candidate list \<Rightarrow> rankable list" where
  "ranked_items lc policy cs = sort_by (rank_order lc) (rankables policy cs)"

lemma rank_result:
  "ip_ranked (rankInterventionPriority lc week policy cs) = rank_from 1 (ranked_items lc policy cs)"
  "ip_insufficientEvidence (rankInterventionPriority lc week policy cs) = map insufficient (filter (\<lambda>c. \<not> placeable policy c) cs)"
  by (simp_all add: rankInterventionPriority_def ranked_items_def)

lemma ranked_ids: "map ra_id (rankables policy cs) = map pc_projectId (filter (placeable policy) cs)"
  by (simp add: rankables_def)

text \<open>What a project can be outranked on, written out: the first exposure tier on which two differ.\<close>

definition exposure_first :: "priority_tier_values \<Rightarrow> priority_tier_values \<Rightarrow> bool" where
  "exposure_first a b \<longleftrightarrow>
     (if tv_criticalExposure a \<noteq> tv_criticalExposure b then tv_criticalExposure a
      else if tv_predictedDeterioration a \<noteq> tv_predictedDeterioration b then tv_predictedDeterioration a
      else if tv_timeCriticalityWeeks a \<noteq> tv_timeCriticalityWeeks b
      then (case (tv_timeCriticalityWeeks a, tv_timeCriticalityWeeks b) of
              (Some x, Some y) \<Rightarrow> x < y | (Some _, None) \<Rightarrow> True | _ \<Rightarrow> False)
      else (case (tv_gmValueAtRisk a, tv_gmValueAtRisk b) of
              (Some x, Some y) \<Rightarrow> qval y \<le> qval x | (None, Some _) \<Rightarrow> False | _ \<Rightarrow> True))"

lemma exposure_order_first: "exposure_order a b \<le> 0 \<Longrightarrow> exposure_first a b"
  by (auto simp: exposure_order_def exposure_first_def cmp_lex_def cmp_key_def cmp_ord_def compareClock_def
      compareVar_def qCompare_sign split: if_splits option.splits)

text \<open>The ranking is lexicographic over exposure. A project is placed above another only if the first
  exposure tier on which they differ says so; no plan and no confidence lifts a project over one with more
  exposure, whatever the other tiers say.\<close>

theorem exposure_decides_rank:
  assumes "comparator lc"
  shows "sorted_wrt (\<lambda>a b. exposure_first (pr_tiers a) (pr_tiers b)) (ip_ranked (rankInterventionPriority lc week policy cs))"
proof -
  have "sorted_wrt (\<lambda>x y. rank_order lc x y \<le> 0) (ranked_items lc policy cs)"
    unfolding ranked_items_def by (rule comparator.sorted_sort_by [OF comparator_rank [OF assms]])
  then have "sorted_wrt (\<lambda>x y. exposure_first (ra_tiers x) (ra_tiers y)) (ranked_items lc policy cs)"
    by (rule sorted_wrt_mono_rel [rotated]) (auto intro: exposure_order_first dest: rank_order_exposure)
  then have "sorted_wrt exposure_first (map ra_tiers (ranked_items lc policy cs))"
    by (simp add: sorted_wrt_map)
  then have "sorted_wrt exposure_first (map pr_tiers (rank_from 1 (ranked_items lc policy cs)))"
    by (simp only: rank_from_maps)
  then show ?thesis by (simp add: rank_result sorted_wrt_map)
qed

definition sample_exposure :: "quantity option \<Rightarrow> quantity option \<Rightarrow> exposure_evidence" where
  "sample_exposure gm penalty =
     \<lparr>ee_systemAssessedBand = Some AMBER, ee_gmValueAtRisk = gm, ee_contractualPenaltyExposure = penalty,
      ee_forecastContractLoss = None, ee_isSystemGreenAtRisk = False, ee_outlook30 = None, ee_outlook60 = None,
      ee_weeksToBandChange = None, ee_weeksToCriticalMilestone = None, ee_hardOverridePresent = False\<rparr>"

definition sample_candidate :: "string \<Rightarrow> string option \<Rightarrow> quantity option \<Rightarrow> quantity option \<Rightarrow> priority_candidate" where
  "sample_candidate pid plan gm penalty =
     \<lparr>pc_projectId = pid, pc_exposure = sample_exposure gm penalty,
      pc_actionability = \<lparr>ae_openRecoveryActionId = plan, ae_namedOwner = plan, ae_dueDate = plan,
        ae_estimatedGmBenefit = None, ae_estimatedScheduleBenefitWeeks = map_option (\<lambda>_. 2) plan,
        ae_planConfidence = None, ae_executiveDependency = False\<rparr>,
      pc_dataConfidenceBand = Some CB_HIGH, pc_forecastConfidenceBand = None\<rparr>"

definition sample_priority_policy :: priority_policy where
  "sample_priority_policy = \<lparr>pp_version = ''PRIORITY-v1'', pp_criticalGmValueAtRiskFloor = Qty 500000 0,
     pp_immediateHorizonWeeks = 4\<rparr>"

definition sample_pool :: "priority_candidate list" where
  "sample_pool =
     [sample_candidate ''P-1'' (Some ''A-7'') (Some (Qty 900 0)) None,
      sample_candidate ''P-2'' None (Some (Qty 100 0)) (Some (Qty 5 0)),
      sample_candidate ''P-3'' None None None]"

theorem exposure_decides_rank_witness:
  "sorted_wrt (\<lambda>a b. exposure_first (pr_tiers a) (pr_tiers b))
     (ip_ranked (rankInterventionPriority cmp_ord (Week 2026 10) sample_priority_policy sample_pool))"
  by (rule exposure_decides_rank [OF natural.comparator_axioms])

text \<open>The ranking does not depend on the order in which the candidates arrive, as long as their ids differ.\<close>

theorem ranking_order_independent:
  assumes "strict_comparator lc" "mset cs = mset cs'" "distinct (map pc_projectId cs)"
  shows "ip_ranked (rankInterventionPriority lc week policy cs) = ip_ranked (rankInterventionPriority lc week policy cs')"
proof -
  have lc: "comparator lc" using assms(1) by (simp add: strict_comparator_def)
  have inj: "inj_on pc_projectId (set cs)" using assms(3) by (simp add: distinct_map)
  have "x = y" if "x \<in> set (rankables policy cs)" "y \<in> set (rankables policy cs)" "ra_id x = ra_id y" for x y
    using that inj_onD [OF inj] by (fastforce simp: rankables_def)
  moreover have "ra_id x = ra_id y" if "rank_order lc x y = 0" for x y
    using that strict_comparator.eq [OF assms(1)] by (auto simp: rank_order_lex cmp_lex_def cmp_key_def split: if_splits)
  ultimately have "sort_by (rank_order lc) (rankables policy cs) = sort_by (rank_order lc) (rankables policy cs')"
    using assms(2) by (intro comparator.sort_by_determined [OF comparator_rank [OF lc]])
      (simp_all add: rankables_def)
  then show ?thesis by (simp add: rank_result ranked_items_def)
qed

theorem ranking_order_independent_witness:
  "ip_ranked (rankInterventionPriority cmp_ord (Week 2026 10) sample_priority_policy sample_pool)
   = ip_ranked (rankInterventionPriority cmp_ord (Week 2026 10) sample_priority_policy (rev sample_pool))"
  by (rule ranking_order_independent [OF natural.strict_comparator_axioms])
    (simp_all add: sample_pool_def sample_candidate_def)

text \<open>No candidate is lost, invented or counted twice: each is either ranked or listed as
  unrankable, places are numbered from one without a gap, and the coverage count is the number ranked.\<close>

theorem every_candidate_accounted:
  "mset (map pr_projectId (ip_ranked (rankInterventionPriority lc week policy cs)))
     + mset (map uc_projectId (ip_insufficientEvidence (rankInterventionPriority lc week policy cs)))
   = mset (map pc_projectId cs)
   \<and> map pr_rank (ip_ranked (rankInterventionPriority lc week policy cs))
     = [1..<Suc (length (ip_ranked (rankInterventionPriority lc week policy cs)))]
   \<and> qval (rankableCount cs policy) = of_nat (length (ip_ranked (rankInterventionPriority lc week policy cs)))"
proof -
  have len: "length (rank_from i rs) = length rs" for i rs
    using arg_cong [OF rank_from_maps(1), of length i rs] by simp
  have count: "length (filter (placeable policy) cs)
      = length (filter (\<lambda>c. hasCriticalExposure (pc_exposure c) policy
          \<or> hasPredictedDeterioration (pc_exposure c) \<or> ee_gmValueAtRisk (pc_exposure c) \<noteq> None) cs)"
    by (rule arg_cong [where f = length]) (simp add: placeable_def [abs_def])
  have ids: "mset (map ra_id (ranked_items lc policy cs)) = mset (map pc_projectId (filter (placeable policy) cs))"
    by (simp only: ranked_items_def mset_map mset_sort_by flip: ranked_ids)
  have "mset (map pc_projectId (filter (placeable policy) cs))
      + mset (map pc_projectId (filter (\<lambda>c. \<not> placeable policy c) cs)) = mset (map pc_projectId cs)"
    by (induction cs) simp_all
  moreover have "map uc_projectId (map insufficient ds) = map pc_projectId ds" for ds
    by (simp add: insufficient_def)
  moreover have "qval (rankableCount cs policy) = of_nat (length (ranked_items lc policy cs))"
    by (simp add: rankableCount_def Let_def ranked_items_def rankables_def count q_nat_def)
  ultimately show ?thesis
    by (simp only: rank_result rank_from_maps ids len) (simp add: rank_from_maps)
qed

section \<open>The sentence that explains a place\<close>

text \<open>
  The order compares the exposures by value, the sentence by their text: two projects with equal gross margin
  at risk, one written \<open>100\<close> and one \<open>100.0\<close>, are separated by their plans while the sentence says that more
  gross margin is at risk.
\<close>

theorem tier_four_claimed_on_equal_value:
  "\<exists>a b. qCompare (the (tv_gmValueAtRisk a)) (the (tv_gmValueAtRisk b)) = 0
     \<and> comparePriority cmp_ord a b ''P-1'' ''P-2'' = ACTIONABILITY_ORDER (tv_actionability b) - ACTIONABILITY_ORDER (tv_actionability a)
     \<and> comparePriority cmp_ord a b ''P-1'' ''P-2'' < 0
     \<and> decidingTier a b ''P-1'' ''P-2'' = ''more gross margin is at risk (tier 4: 100 vs 100.0)''"
proof -
  let ?a = "tiers_of sample_priority_policy (sample_candidate ''P-1'' (Some ''A-7'') (Some (Qty 100 0)) None)"
  let ?b = "tiers_of sample_priority_policy (sample_candidate ''P-2'' None (Some (Qty 1000 1)) None)"
  have "q_text (Qty 100 0) = ''100''" "q_text (Qty 1000 1) = ''100.0''" by code_simp+
  then have "qCompare (the (tv_gmValueAtRisk ?a)) (the (tv_gmValueAtRisk ?b)) = 0
     \<and> comparePriority cmp_ord ?a ?b ''P-1'' ''P-2'' = ACTIONABILITY_ORDER (tv_actionability ?b) - ACTIONABILITY_ORDER (tv_actionability ?a)
     \<and> comparePriority cmp_ord ?a ?b ''P-1'' ''P-2'' < 0
     \<and> decidingTier ?a ?b ''P-1'' ''P-2'' = ''more gross margin is at risk (tier 4: 100 vs 100.0)''"
    by (simp add: tiers_of_def sample_candidate_def sample_exposure_def sample_priority_policy_def qCompare_sign
        comparePriority_def decidingTier_def var_text_def gradeActionability_def hasCriticalExposure_def positive_def
        hasPredictedDeterioration_def timeCriticalityWeeks_def present_def compareClock_def List.map_filter_def)
  then show ?thesis by blast
qed

end
