(* ===== verification/Js_Number.thy ===== *)
theory Js_Number
  imports Gldi_Prelude "HOL-Library.Log_Nat"
begin

text \<open>
  The numbers of the host: IEEE 754 doubles, each the rational it denotes. \<open>double x\<close> is the double nearest to \<open>x\<close>, with ties
  to the even significand, and an operation of the code is \<open>double\<close> of the exact one. Values of \<open>2\<^sup>1\<^sup>0\<^sup>2\<^sup>4\<close> and more, where the
  host has an infinity, keep their significand here; a negative zero is zero.
\<close>

definition round_even :: "rat \<Rightarrow> int" where
  "round_even y = (let f = \<lfloor>y\<rfloor>; r = y - of_int f in
     if r < 1 / 2 then f else if r > 1 / 2 then f + 1 else if even f then f else f + 1)"

text \<open>The exponent of the leading bit.\<close>

definition lead_exponent :: "rat \<Rightarrow> int" where
  "lead_exponent x = (case quotient_of \<bar>x\<bar> of (n, d) \<Rightarrow>
     let e = bitlen n - bitlen d in if 2 powi e \<le> \<bar>x\<bar> then e else e - 1)"

definition subnormal_places :: nat where "subnormal_places = 1074"

text \<open>The weight of the last bit: fifty-three bits, and never below the smallest subnormal.\<close>

definition last_bit :: "rat \<Rightarrow> rat" where
  "last_bit x = 2 powi (max (- int subnormal_places) (lead_exponent x - 52))"

definition double :: "rat \<Rightarrow> rat" where
  "double x = (if x = 0 then 0 else of_int (round_even (x / last_bit x)) * last_bit x)"

lemma round_even_int [simp]: "round_even (of_int k) = k"
  by (simp add: round_even_def Let_def)

lemma round_even_near: "\<bar>of_int (round_even y) - y\<bar> \<le> 1 / 2"
proof -
  have "of_int \<lfloor>y\<rfloor> \<le> y" "y < of_int \<lfloor>y\<rfloor> + 1" by linarith+
  then show ?thesis by (auto simp: round_even_def Let_def)
qed

lemma powi_two: "(2 :: rat) powi (int a - int b) = 2 ^ a / 2 ^ b"
  by (simp add: power_int_diff)

lemma lead_bounds:
  assumes "x \<noteq> 0"
  shows "2 powi lead_exponent x \<le> \<bar>x\<bar> \<and> \<bar>x\<bar> < 2 powi (lead_exponent x + 1)"
proof -
  obtain n d where q: "quotient_of \<bar>x\<bar> = (n, d)" by (cases "quotient_of \<bar>x\<bar>")
  have d: "0 < d" and x: "\<bar>x\<bar> = of_int n / of_int d" using quotient_of_denom_pos [OF q] quotient_of_div [OF q] by simp_all
  have n: "0 < n" using x d assms by (metis of_int_0_less_iff of_int_pos zero_less_abs_iff zero_less_divide_iff order_less_asym)
  define a b where "a = nat (bitlen n - 1)" and "b = nat (bitlen d - 1)"
  have "0 < bitlen n" "0 < bitlen d"
    using n d bitlen_eq_zero_iff bitlen_nonneg by (metis less_le not_le)+
  then have an: "bitlen n = int a + 1" "nat (bitlen n) = Suc a" and bd: "bitlen d = int b + 1" "nat (bitlen d) = Suc b"
    by (simp_all add: a_def b_def)
  have "2 ^ a \<le> n" "n < 2 ^ Suc a" "2 ^ b \<le> d" "d < 2 ^ Suc b"
    using bitlen_bounds [OF n, folded a_def, unfolded an(2)] bitlen_bounds [OF d, folded b_def, unfolded bd(2)] by simp_all
  then have r: "2 ^ a \<le> (of_int n :: rat)" "(of_int n :: rat) < 2 ^ Suc a" "2 ^ b \<le> (of_int d :: rat)" "(of_int d :: rat) < 2 ^ Suc b"
    by (metis of_int_le_iff of_int_less_iff of_int_numeral of_int_power)+
  have d': "(0 :: rat) < of_int d" using d by simp
  have e: "bitlen n - bitlen d = int a - int b" using an bd by simp
  have "\<bar>x\<bar> < 2 ^ Suc a / 2 ^ b"
    unfolding x using r d' n by (intro frac_less) simp_all
  then have up: "\<bar>x\<bar> < 2 powi (int a - int b + 1)"
    using powi_two [of "Suc a" b] by (simp add: algebra_simps)
  have "2 ^ a / 2 ^ Suc b < \<bar>x\<bar>"
    unfolding x using r d' n by (intro frac_less2) simp_all
  then have low: "2 powi (int a - int b - 1) \<le> \<bar>x\<bar>"
    using powi_two [of a "Suc b"] by (simp add: algebra_simps)
  show ?thesis
    unfolding lead_exponent_def q prod.case Let_def e using up low by (auto simp: not_le)
qed

lemma last_bit_pos [simp]: "0 < last_bit x" "last_bit x \<noteq> 0"
  by (simp_all add: last_bit_def)

text \<open>An operation is off by half a unit in the last place at most.\<close>

lemma double_near: "\<bar>double x - x\<bar> \<le> \<bar>x\<bar> / 2 ^ 53 + 1 / 2 ^ Suc subnormal_places"
proof (cases "x = 0")
  case False
  let ?u = "last_bit x"
  have "\<bar>double x - x\<bar> = \<bar>of_int (round_even (x / ?u)) - x / ?u\<bar> * ?u"
  proof -
    have "double x - x = (of_int (round_even (x / ?u)) - x / ?u) * ?u" using False by (simp add: double_def left_diff_distrib)
    then show ?thesis by (simp only: abs_mult) (simp add: abs_of_pos)
  qed
  also have "\<dots> \<le> 1 / 2 * ?u" by (intro mult_right_mono round_even_near) (simp add: less_imp_le)
  also have "1 / 2 * ?u \<le> \<bar>x\<bar> / 2 ^ 53 + 1 / 2 ^ Suc subnormal_places"
  proof (cases "- int subnormal_places \<le> lead_exponent x - 52")
    case True
    then have "?u = 2 powi (lead_exponent x - int 52)" by (simp add: last_bit_def)
    also have "\<dots> = 2 powi lead_exponent x / 2 ^ 52"
      using power_int_diff [of "2 :: rat" "lead_exponent x" "int 52"] by (simp only: power_int_of_nat) simp
    also have "\<dots> \<le> \<bar>x\<bar> / 2 ^ 52" using lead_bounds [OF False] by (intro divide_right_mono) simp_all
    finally have "1 / 2 * ?u \<le> \<bar>x\<bar> / 2 ^ 53" by simp
    also have "\<dots> \<le> \<bar>x\<bar> / 2 ^ 53 + 1 / 2 ^ Suc subnormal_places" by simp
    finally show ?thesis .
  next
    case False
    then have "1 / 2 * ?u = 1 / 2 ^ Suc subnormal_places" using powi_two [of 0 subnormal_places] by (simp add: last_bit_def)
    also have "\<dots> \<le> \<bar>x\<bar> / 2 ^ 53 + 1 / 2 ^ Suc subnormal_places" by simp
    finally show ?thesis .
  qed
  finally show ?thesis .
qed (simp add: double_def)

text \<open>What has fewer than fifty-four significant bits is a double.\<close>

lemma double_exact:
  assumes "x = of_int k / 2 ^ j" "\<bar>k\<bar> < 2 ^ 53" "j \<le> subnormal_places"
  shows "double x = x"
proof (cases "x = 0")
  case False
  let ?m = "max (- int subnormal_places) (lead_exponent x - 52)"
  have m: "?m \<le> - int j"
  proof (rule ccontr)
    assume "\<not> ?m \<le> - int j"
    then have "int 53 - int j \<le> lead_exponent x" using assms(3) by auto
    then have "2 powi (int 53 - int j) \<le> (2 powi lead_exponent x :: rat)" by (intro power_int_increasing) simp_all
    also have "\<dots> \<le> \<bar>x\<bar>" using lead_bounds [OF False] by simp
    finally have "2 ^ 53 \<le> (of_int \<bar>k\<bar> :: rat)" unfolding powi_two assms(1) by (simp add: abs_divide divide_le_cancel)
    then have "2 ^ 53 \<le> \<bar>k\<bar>" by (metis of_int_le_iff of_int_numeral of_int_power)
    then show False using assms(2) by simp
  qed
  define i where "i = nat (- int j - ?m)"
  have i: "?m = - int j - int i" using m by (simp add: i_def)
  have "last_bit x = 1 / (2 ^ j * 2 ^ i)"
    unfolding last_bit_def i using powi_two [of 0 "j + i"] by (simp add: power_add)
  then have "x / last_bit x = of_int (k * 2 ^ i)" using assms(1) by simp
  then have "of_int (round_even (x / last_bit x)) = x / last_bit x" by (simp only: round_even_int)
  then show ?thesis using False by (simp add: double_def)
qed (simp add: double_def)

lemma double_int: "\<bar>k\<bar> < 2 ^ 53 \<Longrightarrow> double (of_int k) = of_int k"
  by (rule double_exact [of _ k 0]) simp_all

lemma double_zero [simp]: "double 0 = 0"
  by (simp add: double_def)

text \<open>From \<open>2\<^sup>5\<^sup>3\<close> on, a step of one is lost.\<close>

lemma big_step_lost: "double (2 ^ 60 - 1) = 2 ^ 60"
proof -
  have "quotient_of (2 ^ 60 - 1) = (2 ^ 60 - 1, 1)" by (simp add: quotient_of_number)
  moreover have "bitlen (2 ^ 60 - 1) = 60" "bitlen 1 = 1"
    using bitlen_le_iff_power [of "2 ^ 60 - 1" 60] bitlen_ge_iff_power [of 60 "2 ^ 60 - 1"]
    by (simp_all add: bitlen_alt_def floor_eq_iff)
  ultimately have "lead_exponent (2 ^ 60 - 1) = 59"
    by (simp add: lead_exponent_def Let_def)
  moreover have "\<lfloor>1152921504606846975 / 128 :: rat\<rfloor> = 9007199254740991" by (simp add: floor_eq_iff)
  ultimately show ?thesis by (simp add: double_def last_bit_def subnormal_places_def round_even_def Let_def)
qed

lemma double_error: "\<bar>double x - x\<bar> \<le> (\<bar>x\<bar> + 1) / 2 ^ 53"
proof -
  have "(2 :: rat) ^ 53 \<le> 2 ^ Suc subnormal_places" by (rule power_increasing) (simp_all add: subnormal_places_def)
  then have "1 / (2 :: rat) ^ Suc subnormal_places \<le> 1 / 2 ^ 53" by (intro divide_left_mono) simp_all
  then show ?thesis unfolding add_divide_distrib using double_near [of x] by linarith
qed

text \<open>\<open>xs.reduce((a, b) => a + b, 0)\<close> over whole numbers, and \<open>Math.round(x * 10) / 10\<close>.\<close>

definition js_sum :: "int list \<Rightarrow> rat" where
  "js_sum xs = foldl (\<lambda>a b. double (a + of_int b)) 0 xs"

definition js_tenths :: "rat \<Rightarrow> rat" where
  "js_tenths x = double (of_int \<lfloor>double (x * 10) + 1 / 2\<rfloor> / 10)"

lemma js_sum_from: "\<bar>a\<bar> + sum_list (map abs xs) < 2 ^ 53 \<Longrightarrow> foldl (\<lambda>a b. double (a + of_int b)) (of_int a) xs = of_int (a + sum_list xs)"
proof (induction xs arbitrary: a)
  case (Cons x xs)
  have pos: "0 \<le> sum_list (map abs xs)" by (rule sum_list_nonneg) auto
  have "\<bar>a + x\<bar> \<le> \<bar>a\<bar> + \<bar>x\<bar>" by (rule abs_triangle_ineq)
  then have small: "\<bar>a + x\<bar> + sum_list (map abs xs) < 2 ^ 53" "\<bar>a + x\<bar> < 2 ^ 53" using Cons.prems pos by simp_all
  have "double (of_int a + of_int x) = of_int (a + x)" using double_int [OF small(2)] by simp
  then show ?case using Cons.IH [OF small(1)] by (simp add: add.assoc)
qed simp

lemma js_sum_exact: "sum_list (map abs xs) < 2 ^ 53 \<Longrightarrow> js_sum xs = of_int (sum_list xs)"
  using js_sum_from [of 0 xs] by (simp add: js_sum_def)

end
