(* ===== verification/Delivery.thy ===== *)
theory Delivery
  imports Js_Number Warning_Rules Decimal_Reference
begin

text \<open>
  \<open>contexts/delivery/internal/delivery-engine.ts\<close>: milestones, velocity and customer dependencies
  derived from the recorded facts, and the two adapters that hand the velocity ratio to the rules:
  \<open>add\<close> of \<open>scripts/assessment/curated-assessment.ts\<close> (health) and \<open>reading\<close> of
  \<open>scripts/assessment/risk-adapter.ts\<close> (early warnings). The mean age of dependencies is a double.
\<close>

section \<open>Inputs and outputs\<close>

record milestone_input =
  mi_id :: string
  mi_name :: string
  mi_baselineDate :: calendar_date
  mi_forecastDate :: calendar_date
  mi_actualDate :: "calendar_date option"
  mi_paymentGating :: bool

datatype dependency_owner = CUSTOMER | THIRD_PARTY | INTERNAL

record dependency_input =
  di_id :: string
  di_description :: string
  di_owner :: dependency_owner
  di_raisedOn :: calendar_date
  di_dueOn :: calendar_date
  di_resolvedOn :: "calendar_date option"
  di_blocking :: bool

record progress_observation =
  po_week :: string
  po_physicalCompletion :: string
  po_plannedCompletion :: string

record delivery_input =
  dl_projectId :: string
  dl_asOf :: instant
  dl_baselineCompletionDate :: calendar_date
  dl_forecastCompletionDate :: "calendar_date option"
  dl_milestones :: "milestone_input list"
  dl_dependencies :: "dependency_input list"
  dl_progress :: "progress_observation list"
  dl_velocityWindowWeeks :: int

text \<open>\<open>dv_unbounded\<close> is \<open>adverseState === 'UNBOUNDED'\<close>, the only value that field has.\<close>

record 'a derived_value =
  dv_metricId :: string
  dv_value :: "'a option"
  dv_notComputableReason :: "string option"
  dv_state :: "signal_state option"
  dv_stateReasonCode :: "reason_code option"
  dv_unbounded :: bool

datatype milestone_state = DELIVERED_ON_TIME | DELIVERED_LATE | AT_RISK | ON_TRACK

record milestone_view =
  mv_id :: string
  mv_name :: string
  mv_baselineDate :: calendar_date
  mv_forecastDate :: calendar_date
  mv_actualDate :: "calendar_date option"
  mv_paymentGating :: bool
  mv_slipDays :: int
  mv_state :: milestone_state

record delivery_evaluation =
  de_projectId :: string
  de_asOf :: instant
  de_milestoneSlippageDays :: "int derived_value"
  de_milestonesAtRisk :: "int derived_value"
  de_scheduleVarianceDays :: "int derived_value"
  de_demonstratedVelocity :: "quantity derived_value"
  de_requiredFutureVelocity :: "quantity derived_value"
  de_requiredVelocityRatio :: "quantity derived_value"
  de_customerDependencyAgeingDays :: "int derived_value"
  de_customerDependencyMeanDays :: "rat derived_value"
  de_openCustomerDependencies :: nat
  de_milestoneHitRate :: "quantity derived_value"
  de_milestones :: "milestone_view list"
  de_lastCriticalMilestone :: "milestone_view option"
  de_nextCriticalMilestone :: "milestone_view option"
  de_progressAtLatest :: "progress_observation option"

text \<open>A completion that is no decimal string, or an index outside the observations.\<close>

datatype delivery_error = Bad_completion | No_such_observation

definition nc :: "string \<Rightarrow> string \<Rightarrow> 'a derived_value" where
  "nc metricId reason = \<lparr>dv_metricId = metricId, dv_value = None, dv_notComputableReason = Some reason,
     dv_state = None, dv_stateReasonCode = None, dv_unbounded = False\<rparr>"

definition ok :: "string \<Rightarrow> 'a \<Rightarrow> 'a derived_value" where
  "ok metricId v = \<lparr>dv_metricId = metricId, dv_value = Some v, dv_notComputableReason = None,
     dv_state = None, dv_stateReasonCode = None, dv_unbounded = False\<rparr>"

definition na :: "string \<Rightarrow> string \<Rightarrow> 'a derived_value" where
  "na metricId reason = \<lparr>dv_metricId = metricId, dv_value = None, dv_notComputableReason = Some reason,
     dv_state = Some NOT_APPLICABLE, dv_stateReasonCode = Some RISK_OBJECT_ABSENT, dv_unbounded = False\<rparr>"

section \<open>Milestones\<close>

definition viewOf :: "milestone_input \<Rightarrow> milestone_view" where
  "viewOf m =
     (let settled = mi_actualDate m;
          slipDays = (case settled of
            None \<Rightarrow> daysBetween (mi_baselineDate m) (mi_forecastDate m)
          | Some d \<Rightarrow> daysBetween (mi_baselineDate m) d);
          state = (if settled \<noteq> None then (if slipDays > 0 then DELIVERED_LATE else DELIVERED_ON_TIME)
                   else (if slipDays > 0 then AT_RISK else ON_TRACK))
      in \<lparr>mv_id = mi_id m, mv_name = mi_name m, mv_baselineDate = mi_baselineDate m,
          mv_forecastDate = mi_forecastDate m, mv_actualDate = settled, mv_paymentGating = mi_paymentGating m,
          mv_slipDays = slipDays, mv_state = state\<rparr>)"

definition slippage_of :: "milestone_input list \<Rightarrow> int derived_value" where
  "slippage_of ms =
     (if length ms = 0 then nc ''MET-DEL-009'' ''the project has no milestones recorded''
      else ok ''MET-DEL-009''
        (foldl (\<lambda>total m. total + max 0 (daysBetween (mi_baselineDate m) (mi_forecastDate m))) 0 ms))"

definition at_risk_of :: "milestone_input list \<Rightarrow> int derived_value" where
  "at_risk_of ms =
     (if length ms = 0 then nc ''MET-DEL-010'' ''the project has no milestones recorded''
      else ok ''MET-DEL-010''
        (int (length (filter (\<lambda>m. mi_actualDate m = None
            \<and> daysBetween (mi_baselineDate m) (mi_forecastDate m) > 0) ms))))"

definition schedule_variance_of :: "calendar_date \<Rightarrow> calendar_date option \<Rightarrow> int derived_value" where
  "schedule_variance_of baseline forecast =
     (case forecast of
        None \<Rightarrow> nc ''MET-DEL-011''
          (''no forecast completion date is recorded for this project -- the milestone set ends before ''
           @ ''the contractual end date and is not a substitute for one'')
      | Some f \<Rightarrow> ok ''MET-DEL-011'' (daysBetween baseline f))"

definition hit_rate_of :: "decimal_js \<Rightarrow> milestone_view list \<Rightarrow> quantity derived_value" where
  "hit_rate_of dj views =
     (let delivered = filter (\<lambda>v. mv_actualDate v \<noteq> None) views
      in if length delivered = 0 then nc ''MET-DEL-009'' ''no milestone has been delivered yet''
         else ok ''MET-DEL-009'' (nullish
           (qDiv dj (q_nat (length (filter (\<lambda>v. mv_state v = DELIVERED_ON_TIME) delivered)))
              (q_nat (length delivered))) Q_ZERO))"

section \<open>Velocity\<close>

definition completion_of :: "progress_observation option \<Rightarrow> delivery_error + quantity" where
  "completion_of p =
     (case p of None \<Rightarrow> Inl No_such_observation
      | Some x \<Rightarrow> (case qty (po_physicalCompletion x) of Inl _ \<Rightarrow> Inl Bad_completion | Inr q \<Rightarrow> Inr q))"

text \<open>\<open>xs[i]\<close>: \<open>undefined\<close> outside the array.\<close>

definition element_at :: "'a list \<Rightarrow> int \<Rightarrow> 'a option" where
  "element_at xs i = (if 0 \<le> i \<and> nat i < length xs then Some (xs ! nat i) else None)"

definition q_int :: "int \<Rightarrow> quantity" where "q_int i = Qty i 0"

definition demonstrated_of :: "decimal_js \<Rightarrow> int \<Rightarrow> progress_observation list \<Rightarrow> delivery_error + quantity derived_value" where
  "demonstrated_of dj window progress =
     (let n = int (length progress)
      in if n < window + 1
         then Inr (nc ''MET-DEL-019''
           (show_int n @ '' weekly progress observation'' @ (if n = 1 then '''' else ''s'') @ '', below the ''
            @ show_int (window + 1) @ '' an '' @ show_int window @ ''-week velocity window requires''))
         else and_then (completion_of (element_at progress (n - 1))) (\<lambda>latest.
              and_then (completion_of (element_at progress (n - 1 - window))) (\<lambda>earlier.
                let gained = qSub dj latest earlier
                in Inr (case qDiv dj gained (q_int window) of
                     None \<Rightarrow> nc ''MET-DEL-019'' ''the velocity window is zero weeks''
                   | Some perWeek \<Rightarrow> ok ''MET-DEL-019'' perWeek))))"

definition required_of :: "decimal_js \<Rightarrow> int \<Rightarrow> progress_observation list \<Rightarrow> delivery_error + quantity derived_value" where
  "required_of dj daysRemaining progress =
     (case element_at progress (int (length progress) - 1) of
        None \<Rightarrow> Inr (nc ''MET-DEL-020'' ''no progress has been claimed, so completion is unknown'')
      | Some latestClaim \<Rightarrow>
          if daysRemaining \<le> 0
          then Inr (nc ''MET-DEL-020''
            (''the baseline completion date passed '' @ show_int (- daysRemaining) @ '' days ago, so no weeks remain ''
             @ ''to spread the outstanding work across''))
          else and_then (completion_of (Some latestClaim)) (\<lambda>completion.
            let remainingWork = qSub dj Q_ONE completion;
                weeksRemaining = qDiv dj (q_int daysRemaining) (q_int 7);
                perWeek = Option.bind weeksRemaining (qDiv dj remainingWork)
            in Inr (case perWeek of
                 None \<Rightarrow> nc ''MET-DEL-020'' ''no weeks remain to the baseline completion date''
               | Some v \<Rightarrow> ok ''MET-DEL-020'' v)))"

definition unbounded_ratio :: "decimal_js \<Rightarrow> quantity \<Rightarrow> quantity derived_value" where
  "unbounded_ratio dj required =
     \<lparr>dv_metricId = ''MET-DEL-018'', dv_value = None,
      dv_notComputableReason = Some
        (''demonstrated velocity is an observed zero over the window while ''
         @ q_text (qFixed dj required 4) @ '' completion-points per week are still required -- the ''
         @ ''project has delivered nothing measurable and the required step-change is unbounded''),
      dv_state = None, dv_stateReasonCode = None, dv_unbounded = True\<rparr>"

definition velocity_ratio_of :: "decimal_js \<Rightarrow> quantity derived_value \<Rightarrow> quantity derived_value \<Rightarrow> quantity derived_value" where
  "velocity_ratio_of dj required demonstrated =
     (case dv_value required of
        None \<Rightarrow> nc ''MET-DEL-018'' (''required future velocity is not computable: ''
          @ nullish (dv_notComputableReason required) ''unknown'')
      | Some req \<Rightarrow>
          (case dv_value demonstrated of
             None \<Rightarrow> nc ''MET-DEL-018'' (''demonstrated velocity is not computable: ''
               @ nullish (dv_notComputableReason demonstrated) ''unknown'')
           | Some dem \<Rightarrow>
               if qCompare dem Q_ZERO \<le> 0
               then (if qCompare req Q_ZERO > 0 then unbounded_ratio dj req
                     else nc ''MET-DEL-018''
                       (''demonstrated velocity is zero and no future velocity is required, so there is no ''
                        @ ''step-change to assess''))
               else (case qDiv dj req dem of
                       None \<Rightarrow> nc ''MET-DEL-018'' ''demonstrated velocity is zero''
                     | Some r \<Rightarrow> ok ''MET-DEL-018'' r)))"

section \<open>Customer dependencies\<close>

definition no_dependency_reason :: string where
  "no_dependency_reason = ''no open customer dependencies exist on this project, so there is none to age''"

definition open_customer :: "dependency_input list \<Rightarrow> dependency_input list" where
  "open_customer ds = filter (\<lambda>d. di_owner d = CUSTOMER \<and> di_resolvedOn d = None) ds"

definition ages_of :: "calendar_date \<Rightarrow> dependency_input list \<Rightarrow> int list" where
  "ages_of today ds = map (\<lambda>d. daysBetween (di_raisedOn d) today) (open_customer ds)"

definition ageing_max :: "int list \<Rightarrow> int derived_value" where
  "ageing_max ages =
     (case ages of [] \<Rightarrow> na ''MET-DEL-023'' no_dependency_reason
      | a # as \<Rightarrow> ok ''MET-DEL-023'' (foldl max a as))"

definition ageing_mean :: "int list \<Rightarrow> rat derived_value" where
  "ageing_mean ages =
     (if length ages = 0 then na ''MET-DEL-023'' no_dependency_reason
      else ok ''MET-DEL-023''
        (js_tenths (double (js_sum ages / of_nat (length ages)))))"

section \<open>The evaluation\<close>

definition past_critical :: "(string \<Rightarrow> string \<Rightarrow> int) \<Rightarrow> milestone_view list \<Rightarrow> milestone_view list" where
  "past_critical lc views =
     sort_by (\<lambda>a b. lc (date_text (the (mv_actualDate a))) (date_text (the (mv_actualDate b))))
       (filter (\<lambda>v. mv_actualDate v \<noteq> None) (filter mv_paymentGating views))"

definition upcoming_critical :: "(string \<Rightarrow> string \<Rightarrow> int) \<Rightarrow> milestone_view list \<Rightarrow> milestone_view list" where
  "upcoming_critical lc views =
     sort_by (\<lambda>a b. lc (date_text (mv_forecastDate a)) (date_text (mv_forecastDate b)))
       (filter (\<lambda>v. mv_actualDate v = None) (filter mv_paymentGating views))"

definition evaluateDelivery :: "decimal_js \<Rightarrow> (string \<Rightarrow> string \<Rightarrow> int) \<Rightarrow> delivery_input
    \<Rightarrow> delivery_error + delivery_evaluation" where
  "evaluateDelivery dj lc input =
     (let today = dateOf (dl_asOf input);
          views = map viewOf (dl_milestones input);
          ages = ages_of today (dl_dependencies input)
      in and_then (demonstrated_of dj (dl_velocityWindowWeeks input) (dl_progress input)) (\<lambda>demonstrated.
         and_then (required_of dj (daysBetween today (dl_baselineCompletionDate input)) (dl_progress input)) (\<lambda>required.
         Inr
          \<lparr>de_projectId = dl_projectId input, de_asOf = dl_asOf input,
           de_milestoneSlippageDays = slippage_of (dl_milestones input),
           de_milestonesAtRisk = at_risk_of (dl_milestones input),
           de_scheduleVarianceDays = schedule_variance_of (dl_baselineCompletionDate input) (dl_forecastCompletionDate input),
           de_demonstratedVelocity = demonstrated, de_requiredFutureVelocity = required,
           de_requiredVelocityRatio = velocity_ratio_of dj required demonstrated,
           de_customerDependencyAgeingDays = ageing_max ages, de_customerDependencyMeanDays = ageing_mean ages,
           de_openCustomerDependencies = length (open_customer (dl_dependencies input)),
           de_milestoneHitRate = hit_rate_of dj views, de_milestones = views,
           de_lastCriticalMilestone = (case rev (past_critical lc views) of [] \<Rightarrow> None | v # _ \<Rightarrow> Some v),
           de_nextCriticalMilestone = (case upcoming_critical lc views of [] \<Rightarrow> None | v # _ \<Rightarrow> Some v),
           de_progressAtLatest = element_at (dl_progress input) (int (length (dl_progress input)) - 1)\<rparr>)))"

definition gatedValueAtRisk :: "decimal_js \<Rightarrow> delivery_evaluation \<Rightarrow> (string \<Rightarrow> quantity option) \<Rightarrow> quantity" where
  "gatedValueAtRisk dj evaluation gatedValueOf =
     foldl (\<lambda>total m. qAdd dj total (nullish (gatedValueOf (mv_id m)) Q_ZERO)) Q_ZERO
       (filter (\<lambda>m. mv_state m = AT_RISK) (de_milestones evaluation))"

definition asPoints :: "decimal_js \<Rightarrow> quantity \<Rightarrow> quantity" where
  "asPoints dj q = qMul dj q Q_HUNDRED"

section \<open>Readings for the rules\<close>

text \<open>The health adapter carries the state of the metric; the early-warning adapter passes its value.\<close>

definition health_reading :: "string \<Rightarrow> record_ref list \<Rightarrow> quantity derived_value \<Rightarrow> signal_reading" where
  "health_reading signalId evidence from =
     \<lparr>rd_signalId = signalId, rd_value = dv_value from, rd_trend = None, rd_evidence = evidence,
      rd_estimatedImpact = None, rd_notComputableReason = dv_notComputableReason from,
      rd_unbounded = dv_unbounded from, rd_state = dv_state from, rd_stateReasonCode = dv_stateReasonCode from\<rparr>"

definition warning_reading :: "string \<Rightarrow> quantity option \<Rightarrow> record_ref list \<Rightarrow> signal_direction option
    \<Rightarrow> impact option \<Rightarrow> signal_reading" where
  "warning_reading signalId v evidence trend estimatedImpact =
     \<lparr>rd_signalId = signalId, rd_value = v, rd_trend = trend, rd_evidence = evidence,
      rd_estimatedImpact = estimatedImpact, rd_notComputableReason = None,
      rd_unbounded = False, rd_state = None, rd_stateReasonCode = None\<rparr>"

section \<open>Milestones: nothing nets off\<close>

lemma foldl_plus: "foldl (\<lambda>tot m. tot + f m) a ms = a + sum_list (map f ms :: int list)"
  by (induction ms arbitrary: a) simp_all

definition forecast_slip :: "milestone_input \<Rightarrow> int" where
  "forecast_slip m = daysBetween (mi_baselineDate m) (mi_forecastDate m)"

lemma slippage_value: "ms \<noteq> [] \<Longrightarrow> dv_value (slippage_of ms) = Some (sum_list (map (\<lambda>m. max 0 (forecast_slip m)) ms))"
  by (simp add: slippage_of_def ok_def foldl_plus forecast_slip_def)

lemma sum_nonneg_zero: "(\<And>x. x \<in> set xs \<Longrightarrow> 0 \<le> f x) \<Longrightarrow> 0 \<le> sum_list (map f xs)
    \<and> (sum_list (map f xs) = 0 \<longleftrightarrow> (\<forall>x\<in>set xs. f x = 0)) \<and> (\<forall>x\<in>set xs. f x \<le> (sum_list (map f xs) :: int))"
  by (induction xs) force+

text \<open>Slippage never nets off. The total is at least the slip of each late milestone, is zero only when no
  milestone is forecast late, and does not change when a milestone that is forecast early is added; a milestone
  counted as at risk always shows in it.\<close>

theorem slippage_never_nets_off:
  assumes "dv_value (slippage_of ms) = Some tot"
  shows "list_all (\<lambda>m. forecast_slip m \<le> tot) ms \<and> (tot = 0 \<longleftrightarrow> list_all (\<lambda>m. forecast_slip m \<le> 0) ms)
    \<and> dv_value (slippage_of (ms @ [m'])) = Some (tot + max 0 (forecast_slip m'))
    \<and> (\<exists>n. dv_value (at_risk_of ms) = Some n \<and> 0 \<le> n \<and> n \<le> tot)"
proof -
  have ms: "ms \<noteq> []" using assms by (auto simp: slippage_of_def nc_def split: if_splits)
  let ?f = "\<lambda>m. max 0 (forecast_slip m)"
  have tot: "tot = sum_list (map ?f ms)" using assms slippage_value [OF ms] by simp
  have facts: "tot = 0 \<longleftrightarrow> (\<forall>m\<in>set ms. ?f m = 0)" "\<forall>m\<in>set ms. ?f m \<le> tot"
    using sum_nonneg_zero [of ms ?f] tot by auto
  have "int (length (filter (\<lambda>m. mi_actualDate m = None \<and> forecast_slip m > 0) xs)) \<le> sum_list (map ?f xs)" for xs
    by (induction xs) auto
  then have "\<exists>n. dv_value (at_risk_of ms) = Some n \<and> 0 \<le> n \<and> n \<le> tot"
    using ms tot by (simp add: at_risk_of_def ok_def forecast_slip_def)
  moreover have "dv_value (slippage_of (ms @ [m'])) = Some (tot + ?f m')"
    using slippage_value [of "ms @ [m']"] tot by simp
  moreover have "list_all (\<lambda>m. forecast_slip m \<le> tot) ms"
    using facts(2) by (force simp: list_all_iff)
  moreover have "tot = 0 \<longleftrightarrow> list_all (\<lambda>m. forecast_slip m \<le> 0) ms"
    using facts(1) by (force simp: list_all_iff max_def)
  ultimately show ?thesis by blast
qed

definition sample_milestone :: "calendar_date \<Rightarrow> milestone_input" where
  "sample_milestone d = \<lparr>mi_id = ''M-1'', mi_name = ''Cutover'', mi_baselineDate = Date 2026 3 1, mi_forecastDate = d,
     mi_actualDate = None, mi_paymentGating = True\<rparr>"

text \<open>One milestone ten days late, another recovered to ten days early.\<close>

theorem slippage_never_nets_off_witness:
  "dv_value (slippage_of ([sample_milestone (Date 2026 3 11)] @ [sample_milestone (Date 2026 2 19)])) = Some 10"
proof -
  have slips: "forecast_slip (sample_milestone (Date 2026 3 11)) = 10"
    "forecast_slip (sample_milestone (Date 2026 2 19)) = - 10"
    by code_simp+
  have "dv_value (slippage_of [sample_milestone (Date 2026 3 11)]) = Some 10"
    using slippage_value [of "[sample_milestone (Date 2026 3 11)]"] slips by simp
  from slippage_never_nets_off [OF this, of "sample_milestone (Date 2026 2 19)"] slips show ?thesis by simp
qed

text \<open>The hit rate is a proportion of what was delivered: absent exactly when nothing was, one exactly when
  every delivered milestone landed on or before its baseline, never outside the unit interval.\<close>

theorem hit_rate_is_a_proportion:
  assumes "decimal_lib dj"
  shows "let landed = filter (\<lambda>m. mi_actualDate m \<noteq> None) ms in
    (case dv_value (hit_rate_of dj (map viewOf ms)) of
       None \<Rightarrow> landed = []
     | Some q \<Rightarrow> landed \<noteq> [] \<and> 0 \<le> qval q \<and> qval q \<le> 1
         \<and> (if list_all (\<lambda>m. daysBetween (mi_baselineDate m) (the (mi_actualDate m)) \<le> 0) landed then qval q = 1 else True))"
proof -
  let ?landed = "filter (\<lambda>m. mi_actualDate m \<noteq> None) ms"
  let ?d = "map viewOf ?landed"
  let ?k = "length (filter (\<lambda>v. mv_state v = DELIVERED_ON_TIME) ?d)"
  have landed: "filter (\<lambda>v. mv_actualDate v \<noteq> None) (map viewOf ms) = ?d"
    by (induction ms) (simp_all add: viewOf_def Let_def)
  show ?thesis
  proof (cases "?landed = []")
    case True
    then have "dv_value (hit_rate_of dj (map viewOf ms)) = None"
      unfolding hit_rate_of_def Let_def landed by (simp add: nc_def)
    with True show ?thesis by (simp add: Let_def)
  next
    case False
    obtain x where x_def: "x = (of_nat ?k / of_nat (length ?d) :: rat)" by blast
    have n: "0 < length ?d" using False by simp
    have "?k \<le> length ?d" by (rule length_filter_le)
    then have "(of_nat ?k :: rat) \<le> of_nat (length ?d)" by (simp only: of_nat_le_iff)
    then have x: "0 \<le> x" "x \<le> 1" using n
      by (simp_all only: x_def divide_le_eq_1_pos of_nat_0_less_iff zero_le_divide_iff of_nat_0_le_iff simp_thms)
    have q: "dv_value (hit_rate_of dj (map viewOf ms)) = Some (dshow dj (dround dj q_precision x))"
      using n unfolding hit_rate_of_def Let_def landed x_def by (simp add: ok_def qDiv_def)
    have val: "qval (dshow dj (dround dj q_precision x)) = dround dj q_precision x"
      by (rule decimal_lib.show_round [OF assms])
    have "x = 1"
      if "list_all (\<lambda>m. daysBetween (mi_baselineDate m) (the (mi_actualDate m)) \<le> 0) ?landed"
    proof -
      have "filter (\<lambda>v. mv_state v = DELIVERED_ON_TIME) ?d = ?d"
        unfolding filter_id_conv using that by (fastforce simp: list_all_iff viewOf_def Let_def)
      then show ?thesis using n by (simp add: x_def)
    qed
    moreover have "dround dj q_precision 1 = 1" "qval (dshow dj 1) = 1"
      using decimal_lib.round_fits [OF assms fits_1] decimal_lib.show_val [OF assms, of Q_ONE] by simp_all
    ultimately show ?thesis using False q val decimal_lib.round_nonneg [OF assms x(1)]
        decimal_lib.round_le_fits [OF assms x(2) fits_1] by (simp add: Let_def)
  qed
qed

theorem hit_rate_is_a_proportion_witness:
  "let q = hit_rate_of ref_decimal (map viewOf [(sample_milestone (Date 2026 3 1)) \<lparr>mi_actualDate := Some (Date 2026 2 1)\<rparr>])
   in \<exists>x. dv_value q = Some x \<and> qval x = 1"
proof -
  have "daysBetween (Date 2026 3 1) (Date 2026 2 1) \<le> 0" by code_simp
  then show ?thesis
    using hit_rate_is_a_proportion [OF ref_decimal_lib,
        of "[(sample_milestone (Date 2026 3 1)) \<lparr>mi_actualDate := Some (Date 2026 2 1)\<rparr>]"]
    by (auto simp: Let_def sample_milestone_def split: option.splits)
qed

section \<open>Velocity: a stall is the worst observation\<close>

lemma velocity_ratio_cases:
  assumes "decimal_lib dj"
  shows "dv_unbounded (velocity_ratio_of dj required demonstrated)
      \<longleftrightarrow> (\<exists>req dem. dv_value required = Some req \<and> dv_value demonstrated = Some dem \<and> 0 < qval req \<and> qval dem \<le> 0)"
    and "dv_value (velocity_ratio_of dj required demonstrated) = Some r \<Longrightarrow>
      \<exists>req dem. dv_value required = Some req \<and> dv_value demonstrated = Some dem \<and> 0 < qval dem
        \<and> qval r = dround dj q_precision (qval req / qval dem)"
  by (auto simp: velocity_ratio_of_def nc_def ok_def unbounded_ratio_def qCompare_sign
      decimal_lib.qDiv_None_iff [OF assms] split: option.splits if_splits dest!: decimal_lib.qDiv_Some [OF assms])

lemma delivery_velocity:
  assumes "evaluateDelivery dj lc input = Inr ev"
  shows "de_requiredVelocityRatio ev = velocity_ratio_of dj (de_requiredFutureVelocity ev) (de_demonstratedVelocity ev)"
  using assms by (auto simp: evaluateDelivery_def and_then_Inr_iff Let_def)

text \<open>A ratio never flatters. Where work remains, the velocity ratio is unbounded if nothing has been
  demonstrated and positive otherwise; a number is reported only over a positive demonstrated velocity, so a
  project that went backwards never shows a healthy sign.\<close>

theorem velocity_ratio_never_flatters:
  assumes "decimal_lib dj" "evaluateDelivery dj lc input = Inr ev"
    and "dv_value (de_requiredFutureVelocity ev) = Some req" "dv_value (de_demonstratedVelocity ev) = Some dem" "0 < qval req"
  shows "if qval dem \<le> 0 then dv_unbounded (de_requiredVelocityRatio ev) \<and> dv_value (de_requiredVelocityRatio ev) = None
    else \<exists>r. dv_value (de_requiredVelocityRatio ev) = Some r \<and> 0 < qval r \<and> \<not> dv_unbounded (de_requiredVelocityRatio ev)
       \<and> (if qval dem \<le> qval req then 1 \<le> qval r else True)"
proof (cases "qval dem \<le> 0")
  case True
  then show ?thesis using assms(3-5) delivery_velocity [OF assms(2)]
    by (simp add: velocity_ratio_of_def unbounded_ratio_def qCompare_sign)
next
  case False
  let ?x = "qval req / qval dem"
  have x: "0 < ?x" using False assms(5) by simp
  have "1 \<le> ?x" if "qval dem \<le> qval req" using that False by (simp add: le_divide_eq)
  then have "1 \<le> dround dj q_precision ?x" if "qval dem \<le> qval req"
    using that decimal_lib.round_ge_fits [OF assms(1) _ fits_1] by simp
  moreover have "0 < dround dj q_precision ?x" using decimal_lib.round_pos [OF assms(1) _ x] by simp
  moreover have "qDiv dj req dem = Some (dshow dj (dround dj q_precision ?x))"
    using False by (simp add: qDiv_def)
  ultimately show ?thesis
    using False assms(3,4) delivery_velocity [OF assms(2)] decimal_lib.show_round [OF assms(1)]
    by (simp add: velocity_ratio_of_def qCompare_sign ok_def)
qed

text \<open>C18: a stalled project forces its override. If work remains and nothing was demonstrated, the health reading
  built from the derivation makes every velocity rule that applies fire, although the ratio has no value.\<close>

theorem stalled_project_fires_override:
  assumes "evaluateDelivery dj lc input = Inr ev"
    and "dv_value (de_requiredFutureVelocity ev) = Some req" "dv_value (de_demonstratedVelocity ev) = Some dem"
    and "0 < qval req" "qval dem \<le> 0"
    and "r \<in> set ALL_HEALTH_RULES" "rule_signalId r = ''REQUIRED_VELOCITY_RATIO''" "inapplicable_verdict r ctx = None"
  shows "ev_status (evaluateRule r (Some (health_reading ''REQUIRED_VELOCITY_RATIO'' refs (de_requiredVelocityRatio ev))) ctx None) = FIRED"
proof -
  have "rule_test r \<in> set (map rule_test ALL_HEALTH_RULES)" using assms(6) by simp
  then have "rule_comparison r = GTE" "rule_threshold r \<noteq> None"
    using assms(7) unfolding health_tests by (auto simp: rule_test_def)
  moreover have "de_requiredVelocityRatio ev = unbounded_ratio dj req"
    using assms(2-5) delivery_velocity [OF assms(1)] by (simp add: velocity_ratio_of_def qCompare_sign)
  ultimately show ?thesis using assms(8)
    by (simp add: evaluateRule_def health_reading_def unbounded_ratio_def branch_defs)
qed

text \<open>The early-warning adapter passes the value alone: for the same stalled project the velocity warning is not
  raised and not even computable, although the override that it should precede fires.\<close>

theorem stalled_project_raises_no_warning:
  assumes "evaluateDelivery dj lc input = Inr ev"
    and "dv_value (de_requiredFutureVelocity ev) = Some req" "dv_value (de_demonstratedVelocity ev) = Some dem"
    and "0 < qval req" "qval dem \<le> 0"
    and "w \<in> set EARLY_WARNING_RULES" "rule_signalId w = ''REQUIRED_VELOCITY_RATIO''"
  shows "ev_status (evaluateRule w (Some (warning_reading ''REQUIRED_VELOCITY_RATIO''
      (dv_value (de_requiredVelocityRatio ev)) refs (Some WORSENING) None)) None None) = RULE_NOT_COMPUTABLE"
proof -
  have "rule_test w \<in> set (map rule_test EARLY_WARNING_RULES)" using assms(6) by simp
  then have "rule_threshold w \<noteq> None"
    using assms(7) unfolding warning_tests by (auto simp: rule_test_def)
  moreover have "de_requiredVelocityRatio ev = unbounded_ratio dj req"
    using assms(2-5) delivery_velocity [OF assms(1)] by (simp add: velocity_ratio_of_def qCompare_sign)
  ultimately show ?thesis using warning_applicability [OF assms(6)]
    by (simp add: evaluateRule_def warning_reading_def unbounded_ratio_def branch_defs inapplicable_verdict_def)
qed

section \<open>When the derivation exists\<close>

text \<open>The derivation is total on well-formed facts. With a window of zero or more weeks and completions that
  are decimal strings it returns, whatever the milestones, the dependencies and the dates; with a malformed
  completion in one of the two weeks it needs, it throws.\<close>

theorem delivery_total:
  assumes "list_all (\<lambda>p. \<exists>q. qty (po_physicalCompletion p) = Inr q) (dl_progress input)" "0 \<le> dl_velocityWindowWeeks input"
  shows "\<exists>ev. evaluateDelivery dj lc input = Inr ev"
proof -
  let ?n = "int (length (dl_progress input))" and ?w = "dl_velocityWindowWeeks input"
  have at: "\<exists>q. completion_of (element_at (dl_progress input) i) = Inr q" if "0 \<le> i" "i < int (length (dl_progress input))" for i
  proof -
    have "nat i < length (dl_progress input)" using that by (simp add: nat_less_iff)
    then obtain q where "qty (po_physicalCompletion (dl_progress input ! nat i)) = Inr q"
      using assms(1) by (auto simp: list_all_length)
    with that show ?thesis by (simp add: element_at_def completion_of_def nat_less_iff)
  qed
  have "\<exists>d. demonstrated_of dj (dl_velocityWindowWeeks input) (dl_progress input) = Inr d"
  proof (cases "?n < ?w + 1")
    case False
    then have "0 \<le> ?n - 1" "?n - 1 < ?n" "0 \<le> ?n - 1 - ?w" "?n - 1 - ?w < ?n" using assms(2) by linarith+
    then obtain q q' where "completion_of (element_at (dl_progress input) (?n - 1)) = Inr q"
      "completion_of (element_at (dl_progress input) (?n - 1 - ?w)) = Inr q'"
      using at by meson
    then show ?thesis by (simp add: demonstrated_of_def Let_def)
  qed (simp add: demonstrated_of_def Let_def)
  moreover have "\<exists>d. required_of dj n (dl_progress input) = Inr d" for n
  proof (cases "element_at (dl_progress input) (int (length (dl_progress input)) - 1)")
    case (Some p)
    then have "int (length (dl_progress input)) > 0" by (auto simp: element_at_def split: if_splits)
    then obtain q where "completion_of (Some p) = Inr q"
      using at [of "int (length (dl_progress input)) - 1"] Some by auto
    with Some show ?thesis by (simp add: required_of_def Let_def)
  qed (simp add: required_of_def)
  ultimately obtain dem req where "demonstrated_of dj ?w (dl_progress input) = Inr dem"
    "required_of dj (daysBetween (dateOf (dl_asOf input)) (dl_baselineCompletionDate input)) (dl_progress input) = Inr req"
    by blast
  then show ?thesis by (simp add: evaluateDelivery_def Let_def)
qed

section \<open>A stalled project\<close>

text \<open>Half done in both observed weeks, one week apart, with one week left.\<close>

definition sample_stall :: delivery_input where
  "sample_stall =
     \<lparr>dl_projectId = ''P-1'', dl_asOf = Instant 0 [], dl_baselineCompletionDate = Date 1970 1 8,
      dl_forecastCompletionDate = None, dl_milestones = [], dl_dependencies = [],
      dl_progress = [\<lparr>po_week = ''1969-W52'', po_physicalCompletion = ''0.5'', po_plannedCompletion = ''0.6''\<rparr>,
        \<lparr>po_week = ''1970-W01'', po_physicalCompletion = ''0.5'', po_plannedCompletion = ''0.7''\<rparr>],
      dl_velocityWindowWeeks = 1\<rparr>"

lemma sample_completion: "qty ''0.5'' = Inr (Qty 5 1)"
  by code_simp

theorem delivery_total_witness: "\<exists>ev. evaluateDelivery ref_decimal cmp_ord sample_stall = Inr ev"
  by (rule delivery_total) (simp_all add: sample_stall_def sample_completion)

lemma sample_stall_evaluated:
  "\<exists>ev req dem. evaluateDelivery ref_decimal cmp_ord sample_stall = Inr ev
     \<and> dv_value (de_requiredFutureVelocity ev) = Some req \<and> dv_value (de_demonstratedVelocity ev) = Some dem
     \<and> 0 < qval req \<and> qval dem = 0"
proof -
  have days: "daysBetween (dateOf (Instant 0 [])) (Date 1970 1 8) = 7" by code_simp
  have pos: "0 < dround ref_decimal q_precision (dround ref_decimal q_precision (1 / 2))"
    by (intro ref.round_pos) simp_all
  have one: "dround ref_decimal q_precision 1 = 1" by (rule ref.round_fits [OF fits_1]) simp
  have dem: "\<exists>d. demonstrated_of ref_decimal 1 (dl_progress sample_stall) = Inr (ok ''MET-DEL-019'' d) \<and> qval d = 0"
    using ref.show_val [of Q_ZERO]
    by (auto simp: demonstrated_of_def sample_stall_def completion_of_def element_at_def sample_completion ref.qval_ops
        qDiv_def q_int_def ok_def Let_def)
  have req: "\<exists>r. required_of ref_decimal 7 (dl_progress sample_stall) = Inr (ok ''MET-DEL-020'' r) \<and> 0 < qval r"
    using pos one ref.show_val [of Q_ONE]
    by (auto simp: required_of_def sample_stall_def completion_of_def element_at_def sample_completion ref.qval_ops
        qDiv_def q_int_def ok_def Let_def)
  from dem req days show ?thesis
    by (auto simp: evaluateDelivery_def sample_stall_def ok_def Let_def)
qed

lemma sample_velocity_rules:
  "ALL_HEALTH_RULES ! 7 \<in> set ALL_HEALTH_RULES" "rule_signalId (ALL_HEALTH_RULES ! 7) = ''REQUIRED_VELOCITY_RATIO''"
  "EARLY_WARNING_RULES ! 4 \<in> set EARLY_WARNING_RULES" "rule_signalId (EARLY_WARNING_RULES ! 4) = ''REQUIRED_VELOCITY_RATIO''"
  by (simp_all add: ALL_HEALTH_RULES_def HARD_OVERRIDE_RULES_def ELEVATION_RULES_def rule_def EARLY_WARNING_RULES_def warn_def)

theorem velocity_ratio_never_flatters_witness:
  "\<exists>ev. evaluateDelivery ref_decimal cmp_ord sample_stall = Inr ev
     \<and> dv_unbounded (de_requiredVelocityRatio ev) \<and> dv_value (de_requiredVelocityRatio ev) = None"
proof -
  obtain ev req dem where s: "evaluateDelivery ref_decimal cmp_ord sample_stall = Inr ev"
    "dv_value (de_requiredFutureVelocity ev) = Some req" "dv_value (de_demonstratedVelocity ev) = Some dem"
    "0 < qval req" "qval dem = 0"
    using sample_stall_evaluated by blast
  then show ?thesis using velocity_ratio_never_flatters [OF ref_decimal_lib s(1-4)] by auto
qed

theorem stalled_project_fires_override_witness:
  "\<exists>ev. evaluateDelivery ref_decimal cmp_ord sample_stall = Inr ev
     \<and> ev_status (evaluateRule (ALL_HEALTH_RULES ! 7)
         (Some (health_reading ''REQUIRED_VELOCITY_RATIO'' [] (de_requiredVelocityRatio ev))) None None) = FIRED"
proof -
  obtain ev req dem where s: "evaluateDelivery ref_decimal cmp_ord sample_stall = Inr ev"
    "dv_value (de_requiredFutureVelocity ev) = Some req" "dv_value (de_demonstratedVelocity ev) = Some dem"
    "0 < qval req" "qval dem = 0"
    using sample_stall_evaluated by blast
  have none: "inapplicable_verdict (ALL_HEALTH_RULES ! 7) None = None"
    by (simp add: inapplicable_verdict_def split: option.splits)
  have le: "qval dem \<le> 0" using s(5) by simp
  show ?thesis
    using stalled_project_fires_override [OF s(1-4) le sample_velocity_rules(1,2) none] s(1) by blast
qed

theorem stalled_project_raises_no_warning_witness:
  "\<exists>ev. evaluateDelivery ref_decimal cmp_ord sample_stall = Inr ev
     \<and> ev_status (evaluateRule (EARLY_WARNING_RULES ! 4) (Some (warning_reading ''REQUIRED_VELOCITY_RATIO''
         (dv_value (de_requiredVelocityRatio ev)) [] (Some WORSENING) None)) None None) = RULE_NOT_COMPUTABLE"
proof -
  obtain ev req dem where s: "evaluateDelivery ref_decimal cmp_ord sample_stall = Inr ev"
    "dv_value (de_requiredFutureVelocity ev) = Some req" "dv_value (de_demonstratedVelocity ev) = Some dem"
    "0 < qval req" "qval dem = 0"
    using sample_stall_evaluated by blast
  have le: "qval dem \<le> 0" using s(5) by simp
  show ?thesis
    using stalled_project_raises_no_warning [OF s(1-4) le sample_velocity_rules(3,4)] s(1) by blast
qed

end
