(* ===== verification/Economics.thy ===== *)
theory Economics
  imports Money Explainability
begin

text \<open>
  \<open>contexts/financial/internal/economics-engine.ts\<close>: project economics in one pass. Each group of
  derived figures of \<open>computeEconomics\<close> is a definition of its own, in the order the code has them.
  Probabilities, completions and the maturity threshold are decimal strings, that is, quantities; every
  \<open>Money\<close> operation can refuse amounts of another currency.
\<close>

section \<open>Facts and results\<close>

record executed_change =
  ec_id :: string
  ec_valueDelta :: money
  ec_costDelta :: money
  ec_contingencyDelta :: money

record pending_change =
  pn_id :: string
  pn_proposedValue :: money
  pn_approvalProbability :: quantity

record project_risk =
  rk_id :: string
  rk_probability :: quantity
  rk_costImpact :: money
  rk_includedInEtc :: bool
  rk_state :: string

record economics_input =
  ei_projectId :: string
  ei_asOf :: instant
  ei_currency :: currency
  ei_contractValueAsSold :: money
  ei_budgetedCostAsSold :: money
  ei_contingencyBudget :: money
  ei_executedChanges :: "executed_change list"
  ei_pendingChanges :: "pending_change list"
  ei_costToDate :: money
  ei_estimateToComplete :: money
  ei_committedFutureCost :: money
  ei_contingencyConsumed :: money
  ei_physicalCompletion :: "quantity option"
  ei_plannedCompletion :: "quantity option"
  ei_risks :: "project_risk list"
  ei_liquidatedDamagesExposure :: "money option"
  ei_uncompensatedScopeExposure :: "money option"
  ei_maturityThresholdCompletion :: quantity
  ei_progressMeasureCredible :: bool

record economics_result =
  er_projectId :: string
  er_asOf :: instant
  er_currency :: currency
  er_contractualRevenue :: money
  er_budgetedCostCurrentContractual :: money
  er_forecastRevenue :: money
  er_unsecuredUpside :: money
  er_unsecuredUpsideRatio :: ratio
  er_estimateAtCompletion :: money
  er_soldGmValue :: money
  er_soldGmPercent :: ratio
  er_forecastGmValue :: money
  er_forecastGmPercent :: ratio
  er_marginValueDelta :: money
  er_gmErosionValue :: money
  er_marginErosionPp :: ratio
  er_costConsumedPercent :: ratio
  er_burnGap :: ratio
  er_progressVariance :: ratio
  er_contingencyConsumedPercent :: ratio
  er_contingencyBurnGap :: ratio
  er_performanceImpliedEac :: "money option"
  er_performanceImpliedEacNotComputableReason :: "string option"
  er_etcOptimismGap :: "money option"
  er_etcOptimismRatio :: "ratio option"
  er_grossRiskExposure :: money
  er_incrementalRiskExposure :: money
  er_riskProvisionedInEtc :: money
  er_expectedPendingCrRecovery :: money
  er_riskAdjustedRevenue :: money
  er_riskAdjustedGmValue :: money
  er_riskAdjustedGmPercent :: ratio
  er_gmValueAtRisk :: money
  er_gmValueAtRiskRatio :: ratio
  er_plannedValue :: "money option"
  er_earnedValue :: "money option"
  er_actualCost :: money
  er_costPerformanceIndex :: ratio
  er_schedulePerformanceIndex :: ratio
  er_costVariance :: "money option"
  er_scheduleVariance :: "money option"
  er_varianceAtCompletion :: money
  er_evidence :: "record_ref list"

section \<open>The contract\<close>

text \<open>\<open>xs.reduce((a, x) => a.plus(f(x)), zero)\<close>\<close>

definition sum_of :: "decimal_js \<Rightarrow> currency \<Rightarrow> ('a \<Rightarrow> money) \<Rightarrow> 'a list \<Rightarrow> money_error + money" where
  "sum_of dj c f xs = money_sum_from dj (money_zero c) (map f xs)"

record contract_position =
  cp_contractualRevenue :: money
  cp_budgetedCost :: money
  cp_contingencyBudget :: money
  cp_unsecuredUpside :: money

definition contract_of :: "decimal_js \<Rightarrow> economics_input \<Rightarrow> money_error + contract_position" where
  "contract_of dj input =
     (let c = ei_currency input in
      and_then (sum_of dj c ec_valueDelta (ei_executedChanges input)) (\<lambda>executedValueDelta.
      and_then (sum_of dj c ec_costDelta (ei_executedChanges input)) (\<lambda>executedCostDelta.
      and_then (sum_of dj c ec_contingencyDelta (ei_executedChanges input)) (\<lambda>executedContingencyDelta.
      and_then (money_plus dj (ei_contractValueAsSold input) executedValueDelta) (\<lambda>contractualRevenue.
      and_then (money_plus dj (ei_budgetedCostAsSold input) executedCostDelta) (\<lambda>budgeted.
      and_then (money_plus dj (ei_contingencyBudget input) executedContingencyDelta) (\<lambda>contingency.
      and_then (sum_of dj c pn_proposedValue (ei_pendingChanges input)) (\<lambda>unsecuredUpside.
        Inr \<lparr>cp_contractualRevenue = contractualRevenue, cp_budgetedCost = budgeted,
             cp_contingencyBudget = contingency, cp_unsecuredUpside = unsecuredUpside\<rparr>))))))))"

section \<open>Margin\<close>

record margin_position =
  mp_estimateAtCompletion :: money
  mp_soldGmValue :: money
  mp_soldGmPercent :: ratio
  mp_forecastGmValue :: money
  mp_forecastGmPercent :: ratio
  mp_marginValueDelta :: money
  mp_gmErosionValue :: money
  mp_marginErosionPp :: ratio

definition erosion_points :: "decimal_js \<Rightarrow> ratio \<Rightarrow> ratio \<Rightarrow> ratio" where
  "erosion_points dj forecastGmPercent soldGmPercent =
     (case (ratioToQuantity dj forecastGmPercent, ratioToQuantity dj soldGmPercent) of
        (Some f, Some s) \<Rightarrow> ratioFromQuantity (qSub dj f s)
      | _ \<Rightarrow> NotComputable ZERO_DENOMINATOR)"

definition margin_of :: "decimal_js \<Rightarrow> economics_input \<Rightarrow> money \<Rightarrow> money_error + margin_position" where
  "margin_of dj input forecastRevenue =
     and_then (money_plus dj (ei_costToDate input) (ei_estimateToComplete input)) (\<lambda>spentAndToCome.
     and_then (money_plus dj spentAndToCome (ei_committedFutureCost input)) (\<lambda>eac.
     and_then (money_minus dj (ei_contractValueAsSold input) (ei_budgetedCostAsSold input)) (\<lambda>soldGm.
     and_then (money_dividedBy dj soldGm (ei_contractValueAsSold input)) (\<lambda>soldPercent.
     and_then (money_minus dj forecastRevenue eac) (\<lambda>forecastGm.
     and_then (money_dividedBy dj forecastGm forecastRevenue) (\<lambda>forecastPercent.
     and_then (money_minus dj forecastGm soldGm) (\<lambda>delta.
     and_then (money_minus dj soldGm forecastGm) (\<lambda>erosion.
       Inr \<lparr>mp_estimateAtCompletion = eac, mp_soldGmValue = soldGm, mp_soldGmPercent = soldPercent,
            mp_forecastGmValue = forecastGm, mp_forecastGmPercent = forecastPercent,
            mp_marginValueDelta = delta, mp_gmErosionValue = erosion,
            mp_marginErosionPp = erosion_points dj forecastPercent soldPercent\<rparr>))))))))"

section \<open>Progress and burn\<close>

record burn_position =
  bp_costConsumedPercent :: ratio
  bp_burnGap :: ratio
  bp_progressVariance :: ratio
  bp_contingencyConsumedPercent :: ratio
  bp_contingencyBurnGap :: ratio

definition gap_against :: "decimal_js \<Rightarrow> ratio \<Rightarrow> quantity option \<Rightarrow> ratio" where
  "gap_against dj consumed physical =
     (case physical of
        None \<Rightarrow> NotComputable SOURCE_UNAVAILABLE
      | Some p \<Rightarrow> if isComputable consumed then ratioSubtractQuantity dj consumed p
                  else NotComputable ZERO_DENOMINATOR)"

definition burn_of :: "decimal_js \<Rightarrow> economics_input \<Rightarrow> money \<Rightarrow> money \<Rightarrow> money_error + burn_position" where
  "burn_of dj input budgeted contingency =
     and_then (money_dividedBy dj (ei_costToDate input) budgeted) (\<lambda>costConsumed.
     and_then (money_dividedBy dj (ei_contingencyConsumed input) contingency) (\<lambda>contingencyConsumed.
       Inr \<lparr>bp_costConsumedPercent = costConsumed,
            bp_burnGap = gap_against dj costConsumed (ei_physicalCompletion input),
            bp_progressVariance =
              (case (ei_physicalCompletion input, ei_plannedCompletion input) of
                 (Some physical, Some planned) \<Rightarrow> ratioFromQuantity (qSub dj physical planned)
               | _ \<Rightarrow> NotComputable SOURCE_UNAVAILABLE),
            bp_contingencyConsumedPercent = contingencyConsumed,
            bp_contingencyBurnGap = gap_against dj contingencyConsumed (ei_physicalCompletion input)\<rparr>))"

section \<open>The maturity gate\<close>

definition implied_eac :: "decimal_js \<Rightarrow> economics_input \<Rightarrow> money option \<times> string option" where
  "implied_eac dj input =
     (case ei_physicalCompletion input of
        None \<Rightarrow> (None, Some ''physical completion is not available'')
      | Some physical \<Rightarrow>
          if qIsZero physical then (None, Some ''physical completion is zero'')
          else if \<not> ei_progressMeasureCredible input
          then (None, Some ''the progress measure is not assessed as credible (EAC-v1)'')
          else if qCompare physical (ei_maturityThresholdCompletion input) < 0
          then (None, Some (''physical completion '' @ q_text physical @ '' is below the EAC-v1 maturity threshold of ''
                  @ q_text (ei_maturityThresholdCompletion input)))
          else (money_dividedByQuantity dj (ei_costToDate input) physical, None))"

definition optimism_gap :: "decimal_js \<Rightarrow> currency \<Rightarrow> money option \<Rightarrow> money \<Rightarrow> money_error + money option" where
  "optimism_gap dj c implied eac =
     (case implied of
        None \<Rightarrow> Inr None
      | Some p \<Rightarrow> and_then (money_compare p eac) (\<lambda>order.
          if order > 0 then and_then (money_minus dj p eac) (\<lambda>gap. Inr (Some gap)) else Inr (Some (money_zero c))))"

definition optimism_ratio :: "decimal_js \<Rightarrow> money option \<Rightarrow> money \<Rightarrow> money_error + ratio option" where
  "optimism_ratio dj gap eac =
     (case gap of
        None \<Rightarrow> Inr None
      | Some g \<Rightarrow> if money_isZero eac then Inr None else and_then (money_dividedBy dj g eac) (\<lambda>r. Inr (Some r)))"

section \<open>Risk\<close>

definition open_risks :: "project_risk list \<Rightarrow> project_risk list" where
  "open_risks rs = filter (\<lambda>r. rk_state r \<noteq> ''MITIGATED'' \<and> rk_state r \<noteq> ''REALISED'') rs"

definition weighted :: "decimal_js \<Rightarrow> project_risk \<Rightarrow> money" where
  "weighted dj r = money_times dj (rk_costImpact r) (rk_probability r)"

record risk_position =
  rp_gross :: money
  rp_incremental :: money
  rp_provisioned :: money

definition risk_of :: "decimal_js \<Rightarrow> currency \<Rightarrow> project_risk list \<Rightarrow> money_error + risk_position" where
  "risk_of dj c opened =
     and_then (sum_of dj c (weighted dj) opened) (\<lambda>gross.
     and_then (sum_of dj c (weighted dj) (filter (\<lambda>r. \<not> rk_includedInEtc r) opened)) (\<lambda>incremental.
     and_then (sum_of dj c (weighted dj) (filter rk_includedInEtc opened)) (\<lambda>provisioned.
       Inr \<lparr>rp_gross = gross, rp_incremental = incremental, rp_provisioned = provisioned\<rparr>)))"

section \<open>The risk-adjusted scenario and the value at risk\<close>

record scenario_position =
  sc_expectedPendingCrRecovery :: money
  sc_riskAdjustedRevenue :: money
  sc_riskAdjustedGmValue :: money
  sc_riskAdjustedGmPercent :: ratio

definition expected_recovery :: "decimal_js \<Rightarrow> pending_change \<Rightarrow> money" where
  "expected_recovery dj p = money_times dj (pn_proposedValue p) (pn_approvalProbability p)"

definition scenario_of :: "decimal_js \<Rightarrow> economics_input \<Rightarrow> money \<Rightarrow> money \<Rightarrow> money \<Rightarrow> money_error + scenario_position" where
  "scenario_of dj input forecastRevenue eac incremental =
     and_then (sum_of dj (ei_currency input) (expected_recovery dj) (ei_pendingChanges input)) (\<lambda>recovery.
     and_then (money_plus dj forecastRevenue recovery) (\<lambda>revenue.
     and_then (money_minus dj revenue eac) (\<lambda>afterCost.
     and_then (money_minus dj afterCost incremental) (\<lambda>gm.
     and_then (money_dividedBy dj gm revenue) (\<lambda>percent.
       Inr \<lparr>sc_expectedPendingCrRecovery = recovery, sc_riskAdjustedRevenue = revenue,
            sc_riskAdjustedGmValue = gm, sc_riskAdjustedGmPercent = percent\<rparr>)))))"

definition value_at_risk :: "decimal_js \<Rightarrow> currency \<Rightarrow> money \<Rightarrow> money \<Rightarrow> money \<Rightarrow> money_error + money" where
  "value_at_risk dj c soldGm riskAdjustedGm contractualRevenue =
     and_then (money_minus dj soldGm riskAdjustedGm) (\<lambda>rawVar.
       if money_isNegative rawVar then Inr (money_zero c)
       else and_then (money_compare rawVar contractualRevenue) (\<lambda>order.
         Inr (if order > 0 then contractualRevenue else rawVar)))"

definition value_at_risk_ratio :: "decimal_js \<Rightarrow> money \<Rightarrow> money \<Rightarrow> money_error + ratio" where
  "value_at_risk_ratio dj soldGm gmValueAtRisk =
     (if money_isZero soldGm then Inr (NotComputable ZERO_DENOMINATOR) else money_dividedBy dj gmValueAtRisk soldGm)"

section \<open>Earned value\<close>

record earned_position =
  ep_plannedValue :: "money option"
  ep_earnedValue :: "money option"
  ep_costPerformanceIndex :: ratio
  ep_schedulePerformanceIndex :: ratio
  ep_costVariance :: "money option"
  ep_scheduleVariance :: "money option"
  ep_varianceAtCompletion :: money

definition ratio_of :: "decimal_js \<Rightarrow> money option \<Rightarrow> money option \<Rightarrow> money_error + ratio" where
  "ratio_of dj a b =
     (case (a, b) of (Some x, Some y) \<Rightarrow> money_dividedBy dj x y | _ \<Rightarrow> Inr (NotComputable SOURCE_UNAVAILABLE))"

definition difference_of :: "decimal_js \<Rightarrow> money option \<Rightarrow> money option \<Rightarrow> money_error + money option" where
  "difference_of dj a b =
     (case (a, b) of (Some x, Some y) \<Rightarrow> and_then (money_minus dj x y) (\<lambda>d. Inr (Some d)) | _ \<Rightarrow> Inr None)"

definition earned_of :: "decimal_js \<Rightarrow> economics_input \<Rightarrow> money \<Rightarrow> money \<Rightarrow> money_error + earned_position" where
  "earned_of dj input budgeted eac =
     (let planned = map_option (money_times dj budgeted) (ei_plannedCompletion input);
          earned = map_option (money_times dj budgeted) (ei_physicalCompletion input)
      in and_then (ratio_of dj earned (Some (ei_costToDate input))) (\<lambda>cpi.
         and_then (ratio_of dj earned planned) (\<lambda>spi.
         and_then (difference_of dj earned (Some (ei_costToDate input))) (\<lambda>costVariance.
         and_then (difference_of dj earned planned) (\<lambda>scheduleVariance.
         and_then (money_minus dj budgeted eac) (\<lambda>atCompletion.
           Inr \<lparr>ep_plannedValue = planned, ep_earnedValue = earned, ep_costPerformanceIndex = cpi,
                ep_schedulePerformanceIndex = spi, ep_costVariance = costVariance,
                ep_scheduleVariance = scheduleVariance, ep_varianceAtCompletion = atCompletion\<rparr>))))))"

section \<open>The whole of it\<close>

definition econ_ref :: "string \<Rightarrow> string \<Rightarrow> string \<Rightarrow> string option \<Rightarrow> record_ref" where
  "econ_ref context' entityType entityId metricId =
     \<lparr>rr_context = context', rr_entityType = entityType, rr_entityId = entityId, rr_metricId = metricId\<rparr>"

definition economics_evidence :: "economics_input \<Rightarrow> record_ref list" where
  "economics_evidence input =
     (let p = ei_projectId input in
      [econ_ref ''contract'' ''AsSoldBaseline'' p (Some ''MET-FIN-001''),
       econ_ref ''financial'' ''ActualCost'' p (Some ''MET-FIN-005''),
       econ_ref ''financial'' ''EtcLineItem'' p (Some ''MET-FIN-007''),
       econ_ref ''financial'' ''Commitment'' p (Some ''MET-FIN-023''),
       econ_ref ''financial'' ''ContingencyDrawdown'' p (Some ''MET-FIN-037''),
       econ_ref ''delivery'' ''ProgressClaim'' p (Some ''MET-DEL-016'')]
      @ map (\<lambda>c. econ_ref ''contract'' ''ExecutedChange'' (ec_id c) None) (ei_executedChanges input)
      @ map (\<lambda>c. econ_ref ''contract'' ''PendingChange'' (pn_id c) None) (ei_pendingChanges input)
      @ map (\<lambda>r. econ_ref ''risk'' ''Risk'' (rk_id r) None) (open_risks (ei_risks input)))"

definition computeEconomics :: "decimal_js \<Rightarrow> economics_input \<Rightarrow> money_error + economics_result" where
  "computeEconomics dj input =
     (let c = ei_currency input in
      and_then (contract_of dj input) (\<lambda>k.
      let revenue = cp_contractualRevenue k; budgeted = cp_budgetedCost k in
      and_then (margin_of dj input revenue) (\<lambda>m.
      let eac = mp_estimateAtCompletion m; soldGm = mp_soldGmValue m in
      and_then (burn_of dj input budgeted (cp_contingencyBudget k)) (\<lambda>b.
      let implied = implied_eac dj input in
      and_then (optimism_gap dj c (fst implied) eac) (\<lambda>gap.
      and_then (optimism_ratio dj gap eac) (\<lambda>gapRatio.
      and_then (risk_of dj c (open_risks (ei_risks input))) (\<lambda>r.
      and_then (scenario_of dj input revenue eac (rp_incremental r)) (\<lambda>s.
      and_then (value_at_risk dj c soldGm (sc_riskAdjustedGmValue s) revenue) (\<lambda>atRisk.
      and_then (value_at_risk_ratio dj soldGm atRisk) (\<lambda>atRiskRatio.
      and_then (earned_of dj input budgeted eac) (\<lambda>v.
      and_then (money_dividedBy dj (cp_unsecuredUpside k) revenue) (\<lambda>upsideRatio.
      Inr \<lparr>er_projectId = ei_projectId input, er_asOf = ei_asOf input, er_currency = c,
           er_contractualRevenue = revenue, er_budgetedCostCurrentContractual = budgeted,
           er_forecastRevenue = revenue, er_unsecuredUpside = cp_unsecuredUpside k,
           er_unsecuredUpsideRatio = upsideRatio, er_estimateAtCompletion = eac,
           er_soldGmValue = soldGm, er_soldGmPercent = mp_soldGmPercent m,
           er_forecastGmValue = mp_forecastGmValue m, er_forecastGmPercent = mp_forecastGmPercent m,
           er_marginValueDelta = mp_marginValueDelta m, er_gmErosionValue = mp_gmErosionValue m,
           er_marginErosionPp = mp_marginErosionPp m, er_costConsumedPercent = bp_costConsumedPercent b,
           er_burnGap = bp_burnGap b, er_progressVariance = bp_progressVariance b,
           er_contingencyConsumedPercent = bp_contingencyConsumedPercent b,
           er_contingencyBurnGap = bp_contingencyBurnGap b,
           er_performanceImpliedEac = fst implied, er_performanceImpliedEacNotComputableReason = snd implied,
           er_etcOptimismGap = gap, er_etcOptimismRatio = gapRatio,
           er_grossRiskExposure = rp_gross r, er_incrementalRiskExposure = rp_incremental r,
           er_riskProvisionedInEtc = rp_provisioned r,
           er_expectedPendingCrRecovery = sc_expectedPendingCrRecovery s,
           er_riskAdjustedRevenue = sc_riskAdjustedRevenue s, er_riskAdjustedGmValue = sc_riskAdjustedGmValue s,
           er_riskAdjustedGmPercent = sc_riskAdjustedGmPercent s,
           er_gmValueAtRisk = atRisk, er_gmValueAtRiskRatio = atRiskRatio,
           er_plannedValue = ep_plannedValue v, er_earnedValue = ep_earnedValue v,
           er_actualCost = ei_costToDate input, er_costPerformanceIndex = ep_costPerformanceIndex v,
           er_schedulePerformanceIndex = ep_schedulePerformanceIndex v,
           er_costVariance = ep_costVariance v, er_scheduleVariance = ep_scheduleVariance v,
           er_varianceAtCompletion = ep_varianceAtCompletion v,
           er_evidence = economics_evidence input\<rparr>))))))))))))"

definition ratioValue :: "decimal_js \<Rightarrow> ratio \<Rightarrow> nat \<Rightarrow> quantity option" where
  "ratioValue dj r dp = (case r of Computed _ v \<Rightarrow> Some (dfixed dj dp v) | NotComputable _ \<Rightarrow> None)"

section \<open>When an operation on amounts returns\<close>

lemma money_ops_Inr:
  "money_plus dj a b = Inr m \<longleftrightarrow> money_currency b = money_currency a
     \<and> m = Money (dround dj q_precision (money_value a + money_value b)) (money_currency a)"
  "money_minus dj a b = Inr m \<longleftrightarrow> money_currency b = money_currency a
     \<and> m = Money (dround dj q_precision (money_value a - money_value b)) (money_currency a)"
  "money_compare a b = Inr k \<longleftrightarrow> money_currency b = money_currency a \<and> k = cmp_ord (money_value a) (money_value b)"
  "money_dividedBy dj a b = Inr r \<longleftrightarrow> money_currency b = money_currency a
     \<and> r = (if money_value b = 0 then NotComputable ZERO_DENOMINATOR
            else Computed q_precision (dround dj q_precision (money_value a / money_value b)))"
  by (auto simp: money_plus_def money_minus_def money_compare_def money_dividedBy_def assertSameCurrency_def)

lemma sum_of_Inr:
  "sum_of dj c f xs = Inr m \<longleftrightarrow> list_all (\<lambda>x. money_currency (f x) = c) xs
     \<and> m = Money (foldl (\<lambda>a x. dround dj q_precision (a + x)) 0 (map (\<lambda>x. money_value (f x)) xs)) c"
proof (cases "find (\<lambda>m. money_currency m \<noteq> c) (map f xs)")
  case None
  then have "list_all (\<lambda>x. money_currency (f x) = c) xs" by (auto simp: find_None_iff list_all_iff)
  with None show ?thesis
    by (auto simp: sum_of_def money_zero_def money_sum_from_eq comp_def)
next
  case (Some m')
  then have "\<not> list_all (\<lambda>x. money_currency (f x) = c) xs"
    by (auto simp: find_Some_iff list_all_iff)
  with Some show ?thesis by (auto simp: sum_of_def money_zero_def money_sum_from_eq)
qed

lemma currency_of_times [simp]: "money_currency (money_times dj m q) = money_currency m"
  by (simp add: money_times_def)

lemma sum_currency: "sum_of dj c f xs = Inr m \<Longrightarrow> list_all (\<lambda>x. money_currency (f x) = c) xs \<and> money_currency m = c"
  by (simp add: sum_of_Inr)

lemma plus_currency: "money_plus dj a b = Inr m \<Longrightarrow> money_currency a = money_currency b \<and> money_currency m = money_currency b"
  by (simp add: money_ops_Inr)

lemma minus_currency: "money_minus dj a b = Inr m \<Longrightarrow> money_currency a = money_currency b \<and> money_currency m = money_currency b"
  by (simp add: money_ops_Inr)

lemma contract_of_Inr:
  "contract_of dj input = Inr k \<Longrightarrow>
    \<exists>v. sum_of dj (ei_currency input) ec_valueDelta (ei_executedChanges input) = Inr v
      \<and> money_plus dj (ei_contractValueAsSold input) v = Inr (cp_contractualRevenue k)
      \<and> (\<exists>b. sum_of dj (ei_currency input) ec_costDelta (ei_executedChanges input) = Inr b
           \<and> money_plus dj (ei_budgetedCostAsSold input) b = Inr (cp_budgetedCost k))
      \<and> (\<exists>g. sum_of dj (ei_currency input) ec_contingencyDelta (ei_executedChanges input) = Inr g
           \<and> money_plus dj (ei_contingencyBudget input) g = Inr (cp_contingencyBudget k))
      \<and> sum_of dj (ei_currency input) pn_proposedValue (ei_pendingChanges input) = Inr (cp_unsecuredUpside k)"
  by (auto simp: contract_of_def Let_def and_then_Inr_iff)

text \<open>The stages of a computation that returned, and what it reports of them.\<close>

lemma computed_stages:
  assumes "computeEconomics dj input = Inr r"
  shows "\<exists>k m b p s. contract_of dj input = Inr k \<and> margin_of dj input (cp_contractualRevenue k) = Inr m
     \<and> burn_of dj input (cp_budgetedCost k) (cp_contingencyBudget k) = Inr b
     \<and> risk_of dj (ei_currency input) (open_risks (ei_risks input)) = Inr p
     \<and> scenario_of dj input (cp_contractualRevenue k) (mp_estimateAtCompletion m) (rp_incremental p) = Inr s
     \<and> value_at_risk dj (ei_currency input) (mp_soldGmValue m) (sc_riskAdjustedGmValue s) (cp_contractualRevenue k)
         = Inr (er_gmValueAtRisk r)
     \<and> optimism_gap dj (ei_currency input) (er_performanceImpliedEac r) (er_estimateAtCompletion r) = Inr (er_etcOptimismGap r)
     \<and> (er_performanceImpliedEac r, er_performanceImpliedEacNotComputableReason r) = implied_eac dj input
     \<and> er_contractualRevenue r = cp_contractualRevenue k \<and> er_forecastRevenue r = cp_contractualRevenue k
     \<and> er_estimateAtCompletion r = mp_estimateAtCompletion m \<and> er_soldGmValue r = mp_soldGmValue m
     \<and> er_forecastGmValue r = mp_forecastGmValue m \<and> er_forecastGmPercent r = mp_forecastGmPercent m
     \<and> er_marginValueDelta r = mp_marginValueDelta m \<and> er_gmErosionValue r = mp_gmErosionValue m
     \<and> er_marginErosionPp r = mp_marginErosionPp m \<and> er_costConsumedPercent r = bp_costConsumedPercent b
     \<and> er_burnGap r = bp_burnGap b
     \<and> er_grossRiskExposure r = rp_gross p \<and> er_incrementalRiskExposure r = rp_incremental p
     \<and> er_riskProvisionedInEtc r = rp_provisioned p
     \<and> er_riskAdjustedGmValue r = sc_riskAdjustedGmValue s \<and> er_riskAdjustedGmPercent r = sc_riskAdjustedGmPercent s"
  using assms by (auto simp: computeEconomics_def Let_def and_then_Inr_iff)

section \<open>Unexecuted changes never reach the forecast\<close>

lemma stage_independent:
  "margin_of dj (input\<lparr>ei_pendingChanges := ps\<rparr>) = margin_of dj input"
  "burn_of dj (input\<lparr>ei_pendingChanges := ps\<rparr>) = burn_of dj input"
  "margin_of dj (input\<lparr>ei_risks := rs\<rparr>) = margin_of dj input"
  "scenario_of dj (input\<lparr>ei_risks := rs\<rparr>) = scenario_of dj input"
  "contract_of dj (input\<lparr>ei_risks := rs\<rparr>) = contract_of dj input"
  by (auto simp: margin_of_def burn_of_def scenario_of_def contract_of_def intro!: ext)

text \<open>Change requests that are not executed never reach the base forecast. Whatever is pending, the
  forecast revenue, the estimate at completion, the forecast margin in money and in per cent, the erosion and
  the burn gap are the same.\<close>

theorem pending_never_reaches_forecast:
  assumes "computeEconomics dj input = Inr r" "computeEconomics dj (input\<lparr>ei_pendingChanges := ps\<rparr>) = Inr r'"
  shows "er_forecastRevenue r' = er_forecastRevenue r \<and> er_estimateAtCompletion r' = er_estimateAtCompletion r
    \<and> er_forecastGmValue r' = er_forecastGmValue r \<and> er_forecastGmPercent r' = er_forecastGmPercent r
    \<and> er_marginValueDelta r' = er_marginValueDelta r \<and> er_gmErosionValue r' = er_gmErosionValue r
    \<and> er_marginErosionPp r' = er_marginErosionPp r \<and> er_burnGap r' = er_burnGap r"
proof -
  obtain k m b where st: "contract_of dj input = Inr k" "margin_of dj input (cp_contractualRevenue k) = Inr m"
    "burn_of dj input (cp_budgetedCost k) (cp_contingencyBudget k) = Inr b"
    and f: "er_forecastRevenue r = cp_contractualRevenue k" "er_estimateAtCompletion r = mp_estimateAtCompletion m"
    "er_forecastGmValue r = mp_forecastGmValue m" "er_forecastGmPercent r = mp_forecastGmPercent m"
    "er_marginValueDelta r = mp_marginValueDelta m" "er_gmErosionValue r = mp_gmErosionValue m"
    "er_marginErosionPp r = mp_marginErosionPp m" "er_burnGap r = bp_burnGap b"
    using computed_stages [OF assms(1)] by blast
  obtain k' m' b' where st': "contract_of dj (input\<lparr>ei_pendingChanges := ps\<rparr>) = Inr k'"
    "margin_of dj (input\<lparr>ei_pendingChanges := ps\<rparr>) (cp_contractualRevenue k') = Inr m'"
    "burn_of dj (input\<lparr>ei_pendingChanges := ps\<rparr>) (cp_budgetedCost k') (cp_contingencyBudget k') = Inr b'"
    and f': "er_forecastRevenue r' = cp_contractualRevenue k'" "er_estimateAtCompletion r' = mp_estimateAtCompletion m'"
    "er_forecastGmValue r' = mp_forecastGmValue m'" "er_forecastGmPercent r' = mp_forecastGmPercent m'"
    "er_marginValueDelta r' = mp_marginValueDelta m'" "er_gmErosionValue r' = mp_gmErosionValue m'"
    "er_marginErosionPp r' = mp_marginErosionPp m'" "er_burnGap r' = bp_burnGap b'"
    using computed_stages [OF assms(2)] by blast
  have "cp_contractualRevenue k' = cp_contractualRevenue k" "cp_budgetedCost k' = cp_budgetedCost k"
    "cp_contingencyBudget k' = cp_contingencyBudget k"
    using contract_of_Inr [OF st(1)] contract_of_Inr [OF st'(1)] by auto
  then have "m' = m" "b' = b" using st st' by (simp_all add: stage_independent)
  with f f' \<open>cp_contractualRevenue k' = _\<close> show ?thesis by simp
qed

section \<open>Risk is counted once\<close>

text \<open>C21: a risk already provisioned in the estimate to complete is not deducted again. The risk-adjusted margin
  and the value at risk depend only on the open risks that are not provisioned there.\<close>

theorem provisioned_risk_not_deducted:
  assumes "computeEconomics dj input = Inr r" "computeEconomics dj (input\<lparr>ei_risks := rs\<rparr>) = Inr r'"
    and "filter (\<lambda>x. \<not> rk_includedInEtc x) (open_risks rs) = filter (\<lambda>x. \<not> rk_includedInEtc x) (open_risks (ei_risks input))"
  shows "er_incrementalRiskExposure r' = er_incrementalRiskExposure r \<and> er_riskAdjustedGmValue r' = er_riskAdjustedGmValue r
    \<and> er_riskAdjustedGmPercent r' = er_riskAdjustedGmPercent r \<and> er_gmValueAtRisk r' = er_gmValueAtRisk r"
proof -
  have inc: "risk_of dj c xs = Inr p \<Longrightarrow> sum_of dj c (weighted dj) (filter (\<lambda>x. \<not> rk_includedInEtc x) xs) = Inr (rp_incremental p)"
    for c xs p by (auto simp: risk_of_def and_then_Inr_iff)
  obtain k m p s where st: "contract_of dj input = Inr k" "margin_of dj input (cp_contractualRevenue k) = Inr m"
    "risk_of dj (ei_currency input) (open_risks (ei_risks input)) = Inr p"
    "scenario_of dj input (cp_contractualRevenue k) (mp_estimateAtCompletion m) (rp_incremental p) = Inr s"
    "value_at_risk dj (ei_currency input) (mp_soldGmValue m) (sc_riskAdjustedGmValue s) (cp_contractualRevenue k) = Inr (er_gmValueAtRisk r)"
    and f: "er_incrementalRiskExposure r = rp_incremental p" "er_riskAdjustedGmValue r = sc_riskAdjustedGmValue s"
    "er_riskAdjustedGmPercent r = sc_riskAdjustedGmPercent s"
    using computed_stages [OF assms(1)] by blast
  obtain k' m' p' s' where st': "contract_of dj (input\<lparr>ei_risks := rs\<rparr>) = Inr k'"
    "margin_of dj (input\<lparr>ei_risks := rs\<rparr>) (cp_contractualRevenue k') = Inr m'"
    "risk_of dj (ei_currency (input\<lparr>ei_risks := rs\<rparr>)) (open_risks (ei_risks (input\<lparr>ei_risks := rs\<rparr>))) = Inr p'"
    "scenario_of dj (input\<lparr>ei_risks := rs\<rparr>) (cp_contractualRevenue k') (mp_estimateAtCompletion m') (rp_incremental p') = Inr s'"
    "value_at_risk dj (ei_currency (input\<lparr>ei_risks := rs\<rparr>)) (mp_soldGmValue m') (sc_riskAdjustedGmValue s') (cp_contractualRevenue k') = Inr (er_gmValueAtRisk r')"
    and f': "er_incrementalRiskExposure r' = rp_incremental p'" "er_riskAdjustedGmValue r' = sc_riskAdjustedGmValue s'"
    "er_riskAdjustedGmPercent r' = sc_riskAdjustedGmPercent s'"
    using computed_stages [OF assms(2)] by blast
  have "k' = k" using st(1) st'(1) by (simp add: stage_independent)
  then have "m' = m" using st(2) st'(2) by (simp add: stage_independent)
  have "rp_incremental p' = rp_incremental p" using inc [OF st(3)] inc [OF st'(3)] assms(3) by simp
  moreover from this have "s' = s" using st(4) st'(4) \<open>k' = k\<close> \<open>m' = m\<close> by (simp add: stage_independent)
  ultimately show ?thesis using f f' st(5) st'(5) \<open>k' = k\<close> \<open>m' = m\<close> by simp
qed

section \<open>The value at risk\<close>

lemma computed_value_at_risk:
  "computeEconomics dj input = Inr r \<Longrightarrow>
    value_at_risk dj (ei_currency input) (er_soldGmValue r) (er_riskAdjustedGmValue r) (er_contractualRevenue r)
      = Inr (er_gmValueAtRisk r)"
  by (auto simp: computeEconomics_def Let_def and_then_Inr_iff)

lemma value_at_risk_bounds:
  assumes "decimal_lib dj" "value_at_risk dj c sold adjusted revenue = Inr v"
  shows "if 0 \<le> money_value revenue
    then 0 \<le> money_value v \<and> money_value v \<le> money_value revenue
       \<and> (money_value v = 0 \<longleftrightarrow> money_value revenue = 0 \<or> money_value sold \<le> money_value adjusted)
    else money_value v = (if money_value sold < money_value adjusted then 0 else money_value revenue)"
proof -
  let ?x = "money_value sold - money_value adjusted"
  have neg: "dround dj q_precision ?x < 0 \<longleftrightarrow> ?x < 0" "dround dj q_precision ?x = 0 \<longleftrightarrow> ?x = 0"
    using decimal_lib.round_pos [OF assms(1), of q_precision ?x] decimal_lib.round_pos [OF assms(1), of q_precision "- ?x"]
      decimal_lib.round_neg [OF assms(1), of q_precision ?x] decimal_lib.round_zero [OF assms(1), of q_precision]
    by (cases ?x "0 :: rat" rule: linorder_cases; simp)+
  show ?thesis using assms(2) neg
    by (auto simp: value_at_risk_def and_then_Inr_iff money_ops_Inr money_isNegative_def money_isZero_def money_zero_def
        cmp_ord_def split: if_splits)
qed

text \<open>The value at risk is bounded. On a contract with revenue it lies between zero and the contractual
  revenue, and is zero exactly when the risk-adjusted margin is at least the margin sold. On a contract whose
  executed changes have made the revenue negative it is not clamped at zero: it is the negative revenue.\<close>

theorem value_at_risk_bounded:
  assumes "decimal_lib dj" "computeEconomics dj input = Inr r"
  shows "if 0 \<le> money_value (er_contractualRevenue r)
    then 0 \<le> money_value (er_gmValueAtRisk r) \<and> money_value (er_gmValueAtRisk r) \<le> money_value (er_contractualRevenue r)
       \<and> (money_value (er_gmValueAtRisk r) = 0 \<longleftrightarrow> money_value (er_contractualRevenue r) = 0
            \<or> money_value (er_soldGmValue r) \<le> money_value (er_riskAdjustedGmValue r))
    else money_value (er_gmValueAtRisk r)
      = (if money_value (er_soldGmValue r) < money_value (er_riskAdjustedGmValue r) then 0
         else money_value (er_contractualRevenue r))"
  using value_at_risk_bounds [OF assms(1) computed_value_at_risk [OF assms(2)]] .

section \<open>The maturity gate\<close>

text \<open>The performance-implied estimate appears only behind its gate: exactly when a completion is known, not
  zero, credible and at least the maturity threshold; otherwise a reason is given. The optimism gap then exists
  and is never negative.\<close>

theorem maturity_gate:
  assumes "decimal_lib dj" "computeEconomics dj input = Inr r"
  shows "(er_performanceImpliedEac r \<noteq> None \<longleftrightarrow>
      (\<exists>p. ei_physicalCompletion input = Some p \<and> qval p \<noteq> 0 \<and> ei_progressMeasureCredible input
        \<and> qval (ei_maturityThresholdCompletion input) \<le> qval p))
    \<and> (er_performanceImpliedEacNotComputableReason r = None \<longleftrightarrow> er_performanceImpliedEac r \<noteq> None)
    \<and> (case er_etcOptimismGap r of None \<Rightarrow> er_performanceImpliedEac r = None
         | Some g \<Rightarrow> er_performanceImpliedEac r \<noteq> None \<and> 0 \<le> money_value g)"
proof -
  have imp: "(er_performanceImpliedEac r, er_performanceImpliedEacNotComputableReason r) = implied_eac dj input"
    and gap: "optimism_gap dj (ei_currency input) (er_performanceImpliedEac r) (er_estimateAtCompletion r) = Inr (er_etcOptimismGap r)"
    using computed_stages [OF assms(2)] by blast+
  have "(fst (implied_eac dj input) \<noteq> None \<longleftrightarrow>
      (\<exists>p. ei_physicalCompletion input = Some p \<and> qval p \<noteq> 0 \<and> ei_progressMeasureCredible input
        \<and> qval (ei_maturityThresholdCompletion input) \<le> qval p))
    \<and> (snd (implied_eac dj input) = None \<longleftrightarrow> fst (implied_eac dj input) \<noteq> None)"
    by (auto simp: implied_eac_def qIsZero_def qCompare_sign money_dividedByQuantity_def split: option.splits if_splits)
  moreover have "case er_etcOptimismGap r of None \<Rightarrow> er_performanceImpliedEac r = None
      | Some g \<Rightarrow> er_performanceImpliedEac r \<noteq> None \<and> 0 \<le> money_value g"
    using gap decimal_lib.round_nonneg [OF assms(1)]
    by (cases "er_etcOptimismGap r"; cases "er_performanceImpliedEac r")
      (auto simp: optimism_gap_def and_then_Inr_iff money_ops_Inr money_zero_def cmp_ord_def split: if_splits)
  ultimately show ?thesis using imp by (metis fst_conv snd_conv)
qed

section \<open>One currency\<close>

definition economics_amounts :: "economics_input \<Rightarrow> money list" where
  "economics_amounts input =
     [ei_contractValueAsSold input, ei_budgetedCostAsSold input, ei_contingencyBudget input, ei_costToDate input,
      ei_estimateToComplete input, ei_committedFutureCost input, ei_contingencyConsumed input]
     @ map ec_valueDelta (ei_executedChanges input) @ map ec_costDelta (ei_executedChanges input)
     @ map ec_contingencyDelta (ei_executedChanges input) @ map pn_proposedValue (ei_pendingChanges input)
     @ map rk_costImpact (open_risks (ei_risks input))"

lemma contract_ok:
  "list_all (\<lambda>m. money_currency m = ei_currency input) (economics_amounts input) \<Longrightarrow>
    \<exists>k. contract_of dj input = Inr k \<and> money_currency (cp_contractualRevenue k) = ei_currency input
      \<and> money_currency (cp_budgetedCost k) = ei_currency input \<and> money_currency (cp_contingencyBudget k) = ei_currency input
      \<and> money_currency (cp_unsecuredUpside k) = ei_currency input"
  by (simp add: contract_of_def Let_def economics_amounts_def list_all_iff and_then_Inr_iff sum_of_Inr money_ops_Inr)

lemma margin_ok:
  "list_all (\<lambda>m. money_currency m = ei_currency input) (economics_amounts input) \<Longrightarrow> money_currency revenue = ei_currency input \<Longrightarrow>
    \<exists>m. margin_of dj input revenue = Inr m \<and> money_currency (mp_estimateAtCompletion m) = ei_currency input
      \<and> money_currency (mp_soldGmValue m) = ei_currency input"
  by (simp add: margin_of_def economics_amounts_def and_then_Inr_iff money_ops_Inr)

lemma burn_ok:
  "list_all (\<lambda>m. money_currency m = ei_currency input) (economics_amounts input) \<Longrightarrow> money_currency bud = ei_currency input
    \<Longrightarrow> money_currency con = ei_currency input \<Longrightarrow> \<exists>b. burn_of dj input bud con = Inr b"
  by (simp add: burn_of_def economics_amounts_def and_then_Inr_iff money_ops_Inr)

lemma risk_ok:
  "list_all (\<lambda>m. money_currency m = ei_currency input) (economics_amounts input) \<Longrightarrow>
    \<exists>p. risk_of dj (ei_currency input) (open_risks (ei_risks input)) = Inr p \<and> money_currency (rp_incremental p) = ei_currency input"
  by (simp add: risk_of_def economics_amounts_def and_then_Inr_iff sum_of_Inr weighted_def list_all_iff)

lemma scenario_ok:
  "list_all (\<lambda>m. money_currency m = ei_currency input) (economics_amounts input) \<Longrightarrow> money_currency revenue = ei_currency input
    \<Longrightarrow> money_currency eac = ei_currency input \<Longrightarrow> money_currency inc = ei_currency input \<Longrightarrow>
    \<exists>s. scenario_of dj input revenue eac inc = Inr s \<and> money_currency (sc_riskAdjustedGmValue s) = ei_currency input"
  by (simp add: scenario_of_def economics_amounts_def and_then_Inr_iff sum_of_Inr money_ops_Inr expected_recovery_def list_all_iff)

lemma earned_ok:
  "list_all (\<lambda>m. money_currency m = ei_currency input) (economics_amounts input) \<Longrightarrow> money_currency bud = ei_currency input
    \<Longrightarrow> money_currency eac = ei_currency input \<Longrightarrow> \<exists>v. earned_of dj input bud eac = Inr v"
  by (simp add: earned_of_def economics_amounts_def and_then_Inr_iff money_ops_Inr ratio_of_def difference_of_def Let_def
      split: option.splits)

lemma optimism_ok:
  assumes "list_all (\<lambda>m. money_currency m = ei_currency input) (economics_amounts input)" "money_currency eac = ei_currency input"
  shows "\<exists>g. optimism_gap dj (ei_currency input) (fst (implied_eac dj input)) eac = Inr g \<and> (\<exists>q. optimism_ratio dj g eac = Inr q)"
proof (cases "fst (implied_eac dj input)")
  case None
  then show ?thesis by (simp add: optimism_gap_def optimism_ratio_def)
next
  case (Some p)
  then have "money_currency p = ei_currency input" using assms(1)
    by (auto simp: implied_eac_def money_dividedByQuantity_def economics_amounts_def split: option.splits if_splits)
  with Some assms(2) show ?thesis
    by (auto simp: optimism_gap_def optimism_ratio_def and_then_Inr_iff money_ops_Inr money_zero_def)
qed

lemma value_at_risk_ok:
  "money_currency sold = c \<Longrightarrow> money_currency adj = c \<Longrightarrow> money_currency revenue = c \<Longrightarrow>
    \<exists>v. value_at_risk dj c sold adj revenue = Inr v \<and> (\<exists>q. value_at_risk_ratio dj sold v = Inr q)"
  by (auto simp: value_at_risk_def value_at_risk_ratio_def and_then_Inr_iff money_ops_Inr money_zero_def)

lemma returns: "f = Inr x \<Longrightarrow> \<exists>r. g x = Inr r \<Longrightarrow> \<exists>r. and_then f g = Inr r"
  by simp

lemma economics_computed:
  assumes "list_all (\<lambda>m. money_currency m = ei_currency input) (economics_amounts input)"
  shows "\<exists>r. computeEconomics dj input = Inr r"
proof -
  obtain k where k: "contract_of dj input = Inr k" "money_currency (cp_contractualRevenue k) = ei_currency input"
    "money_currency (cp_budgetedCost k) = ei_currency input" "money_currency (cp_contingencyBudget k) = ei_currency input"
    "money_currency (cp_unsecuredUpside k) = ei_currency input"
    using contract_ok [OF assms] by blast
  obtain m where m: "margin_of dj input (cp_contractualRevenue k) = Inr m"
    "money_currency (mp_estimateAtCompletion m) = ei_currency input" "money_currency (mp_soldGmValue m) = ei_currency input"
    using margin_ok [OF assms k(2)] by blast
  obtain b where b: "burn_of dj input (cp_budgetedCost k) (cp_contingencyBudget k) = Inr b"
    using burn_ok [OF assms k(3,4)] by blast
  obtain g q where g: "optimism_gap dj (ei_currency input) (fst (implied_eac dj input)) (mp_estimateAtCompletion m) = Inr g"
    "optimism_ratio dj g (mp_estimateAtCompletion m) = Inr q"
    using optimism_ok [OF assms m(2)] by blast
  obtain p where p: "risk_of dj (ei_currency input) (open_risks (ei_risks input)) = Inr p"
    "money_currency (rp_incremental p) = ei_currency input"
    using risk_ok [OF assms] by blast
  obtain s where s: "scenario_of dj input (cp_contractualRevenue k) (mp_estimateAtCompletion m) (rp_incremental p) = Inr s"
    "money_currency (sc_riskAdjustedGmValue s) = ei_currency input"
    using scenario_ok [OF assms k(2) m(2) p(2)] by blast
  obtain v w where v: "value_at_risk dj (ei_currency input) (mp_soldGmValue m) (sc_riskAdjustedGmValue s) (cp_contractualRevenue k) = Inr v"
    "value_at_risk_ratio dj (mp_soldGmValue m) v = Inr w"
    using value_at_risk_ok [OF m(3) s(2) k(2)] by blast
  obtain e where e: "earned_of dj input (cp_budgetedCost k) (mp_estimateAtCompletion m) = Inr e"
    using earned_ok [OF assms k(3) m(2)] by blast
  obtain u where u: "money_dividedBy dj (cp_unsecuredUpside k) (cp_contractualRevenue k) = Inr u"
    using k by (simp add: money_ops_Inr)
  show ?thesis unfolding computeEconomics_def Let_def
    by (rule returns [OF k(1)], rule returns [OF m(1)], rule returns [OF b], rule returns [OF g(1)], rule returns [OF g(2)],
        rule returns [OF p(1)], rule returns [OF s(1)], rule returns [OF v(1)], rule returns [OF v(2)], rule returns [OF e],
        rule returns [OF u], rule exI, rule refl)
qed

lemma margin_currency:
  assumes "margin_of dj input revenue = Inr m"
  shows "money_currency (ei_costToDate input) = money_currency revenue"
    "money_currency (ei_estimateToComplete input) = money_currency revenue"
    "money_currency (ei_committedFutureCost input) = money_currency revenue"
proof -
  obtain x e f where "money_plus dj (ei_costToDate input) (ei_estimateToComplete input) = Inr x"
    "money_plus dj x (ei_committedFutureCost input) = Inr e" "money_minus dj revenue e = Inr f"
    using assms by (auto simp: margin_of_def and_then_Inr_iff)
  then show "money_currency (ei_costToDate input) = money_currency revenue"
    "money_currency (ei_estimateToComplete input) = money_currency revenue"
    "money_currency (ei_committedFutureCost input) = money_currency revenue"
    using plus_currency minus_currency by metis+
qed

lemma computed_currency:
  assumes "computeEconomics dj input = Inr r"
  shows "list_all (\<lambda>m. money_currency m = ei_currency input) (economics_amounts input)"
proof -
  obtain k m b p s where st: "contract_of dj input = Inr k" "margin_of dj input (cp_contractualRevenue k) = Inr m"
    "burn_of dj input (cp_budgetedCost k) (cp_contingencyBudget k) = Inr b"
    "risk_of dj (ei_currency input) (open_risks (ei_risks input)) = Inr p"
    using computed_stages [OF assms] by blast
  obtain v b' g' where v: "sum_of dj (ei_currency input) ec_valueDelta (ei_executedChanges input) = Inr v"
      "money_plus dj (ei_contractValueAsSold input) v = Inr (cp_contractualRevenue k)"
    and b': "sum_of dj (ei_currency input) ec_costDelta (ei_executedChanges input) = Inr b'"
      "money_plus dj (ei_budgetedCostAsSold input) b' = Inr (cp_budgetedCost k)"
    and g': "sum_of dj (ei_currency input) ec_contingencyDelta (ei_executedChanges input) = Inr g'"
      "money_plus dj (ei_contingencyBudget input) g' = Inr (cp_contingencyBudget k)"
      "sum_of dj (ei_currency input) pn_proposedValue (ei_pendingChanges input) = Inr (cp_unsecuredUpside k)"
    using contract_of_Inr [OF st(1)] by blast
  have k: "list_all (\<lambda>c. money_currency (ec_valueDelta c) = ei_currency input) (ei_executedChanges input)"
    "list_all (\<lambda>c. money_currency (ec_costDelta c) = ei_currency input) (ei_executedChanges input)"
    "list_all (\<lambda>c. money_currency (ec_contingencyDelta c) = ei_currency input) (ei_executedChanges input)"
    "list_all (\<lambda>c. money_currency (pn_proposedValue c) = ei_currency input) (ei_pendingChanges input)"
    "money_currency (ei_contractValueAsSold input) = ei_currency input"
    "money_currency (ei_budgetedCostAsSold input) = ei_currency input"
    "money_currency (ei_contingencyBudget input) = ei_currency input"
    "money_currency (cp_contractualRevenue k) = ei_currency input"
    "money_currency (cp_contingencyBudget k) = ei_currency input"
    using sum_currency [OF v(1)] plus_currency [OF v(2)] sum_currency [OF b'(1)] plus_currency [OF b'(2)]
      sum_currency [OF g'(1)] plus_currency [OF g'(2)] sum_currency [OF g'(3)]
    by simp_all
  have "money_currency (ei_costToDate input) = ei_currency input" "money_currency (ei_estimateToComplete input) = ei_currency input"
    "money_currency (ei_committedFutureCost input) = ei_currency input"
    using margin_currency [OF st(2)] k(8) by metis+
  moreover have "money_currency (ei_contingencyConsumed input) = ei_currency input"
    using st(3) k(9) by (auto simp: burn_of_def and_then_Inr_iff money_ops_Inr)
  moreover have "list_all (\<lambda>x. money_currency (rk_costImpact x) = ei_currency input) (open_risks (ei_risks input))"
    using st(4) by (auto simp: risk_of_def and_then_Inr_iff sum_of_Inr weighted_def)
  ultimately show ?thesis using k by (auto simp: economics_amounts_def list_all_iff)
qed

text \<open>Amounts of different currencies are never combined. The economics are computed exactly when every amount
  they use (the contract, the costs, the executed and pending changes and the open risks) is in the currency of
  the input; a single foreign amount makes the whole computation refuse.\<close>

theorem mixed_currency_refused:
  "(\<exists>r. computeEconomics dj input = Inr r)
    \<longleftrightarrow> list_all (\<lambda>m. money_currency m = ei_currency input) (economics_amounts input)"
  using economics_computed computed_currency by blast

section \<open>A sample contract\<close>

text \<open>Sold at 1000 for a cost of 800; 500 spent, 450 to come; a change pending and two risks, one provisioned.\<close>

definition sample_economics :: economics_input where
  "sample_economics =
     \<lparr>ei_projectId = ''P-1'', ei_asOf = Instant 0 [], ei_currency = USD,
      ei_contractValueAsSold = Money 1000 USD, ei_budgetedCostAsSold = Money 800 USD,
      ei_contingencyBudget = Money 50 USD, ei_executedChanges = [],
      ei_pendingChanges = [\<lparr>pn_id = ''CR-1'', pn_proposedValue = Money 100 USD, pn_approvalProbability = Qty 5 1\<rparr>],
      ei_costToDate = Money 500 USD, ei_estimateToComplete = Money 450 USD, ei_committedFutureCost = Money 0 USD,
      ei_contingencyConsumed = Money 10 USD, ei_physicalCompletion = Some (Qty 5 1), ei_plannedCompletion = Some (Qty 6 1),
      ei_risks = [\<lparr>rk_id = ''R-1'', rk_probability = Qty 5 1, rk_costImpact = Money 60 USD, rk_includedInEtc = False, rk_state = ''OPEN''\<rparr>,
        \<lparr>rk_id = ''R-2'', rk_probability = Qty 5 1, rk_costImpact = Money 80 USD, rk_includedInEtc = True, rk_state = ''OPEN''\<rparr>],
      ei_liquidatedDamagesExposure = None, ei_uncompensatedScopeExposure = None,
      ei_maturityThresholdCompletion = Qty 2 1, ei_progressMeasureCredible = True\<rparr>"

lemma sample_computed:
  "\<exists>r. computeEconomics ref_decimal sample_economics = Inr r"
  "\<exists>r. computeEconomics ref_decimal (sample_economics\<lparr>ei_pendingChanges := []\<rparr>) = Inr r"
  "\<exists>r. computeEconomics ref_decimal (sample_economics\<lparr>ei_risks := [hd (ei_risks sample_economics)]\<rparr>) = Inr r"
  by (rule economics_computed; simp add: sample_economics_def economics_amounts_def open_risks_def)+

theorem pending_never_reaches_forecast_witness:
  "\<exists>r r'. computeEconomics ref_decimal sample_economics = Inr r
     \<and> computeEconomics ref_decimal (sample_economics\<lparr>ei_pendingChanges := []\<rparr>) = Inr r'
     \<and> er_forecastGmValue r' = er_forecastGmValue r"
  using sample_computed(1,2) pending_never_reaches_forecast by blast

theorem provisioned_risk_not_deducted_witness:
  "\<exists>r r'. computeEconomics ref_decimal sample_economics = Inr r
     \<and> computeEconomics ref_decimal (sample_economics\<lparr>ei_risks := [hd (ei_risks sample_economics)]\<rparr>) = Inr r'
     \<and> er_gmValueAtRisk r' = er_gmValueAtRisk r"
proof -
  have "filter (\<lambda>x. \<not> rk_includedInEtc x) (open_risks [hd (ei_risks sample_economics)])
      = filter (\<lambda>x. \<not> rk_includedInEtc x) (open_risks (ei_risks sample_economics))"
    by (simp add: sample_economics_def open_risks_def)
  with sample_computed(1,3) provisioned_risk_not_deducted show ?thesis by blast
qed

theorem value_at_risk_bounded_witness:
  "\<exists>r. computeEconomics ref_decimal sample_economics = Inr r
     \<and> (if 0 \<le> money_value (er_contractualRevenue r) then 0 \<le> money_value (er_gmValueAtRisk r) else True)"
proof -
  obtain r where "computeEconomics ref_decimal sample_economics = Inr r" using sample_computed(1) by blast
  with value_at_risk_bounded [OF ref_decimal_lib this] show ?thesis by (auto split: if_splits)
qed

theorem maturity_gate_witness:
  "\<exists>r. computeEconomics ref_decimal sample_economics = Inr r \<and> er_performanceImpliedEac r \<noteq> None
     \<and> (\<exists>g. er_etcOptimismGap r = Some g \<and> 0 \<le> money_value g)"
proof -
  obtain r where r: "computeEconomics ref_decimal sample_economics = Inr r" using sample_computed(1) by blast
  have "er_performanceImpliedEac r \<noteq> None"
    using maturity_gate [OF ref_decimal_lib r] by (simp add: sample_economics_def)
  with r maturity_gate [OF ref_decimal_lib r] show ?thesis by (auto split: option.splits)
qed

end
