(* ===== verification/Margin_Bridge.thy ===== *)
theory Margin_Bridge
  imports Economics Js_Number
begin

text \<open>
  \<open>contexts/financial/internal/margin-bridge.ts\<close>: the decomposition of the margin delta into named causes,
  settled in whole cents, and a residual. The settlement is a \<open>while\<close> loop on a JavaScript number, a double: it is a
  \<open>partial_function\<close> that returns \<open>None\<close> where the loop would not end, and so does whatever calls it.
\<close>

section \<open>Inputs and outputs\<close>

datatype attribution_basis = DERIVED | MODELLED | NOT_ATTRIBUTED | BASIS_NOT_APPLICABLE | RESIDUAL

record margin_bridge_input =
  bi_projectId :: string
  bi_asOf :: instant
  bi_currency :: currency
  bi_soldGmValue :: money
  bi_forecastGmValue :: money
  bi_marginValueDelta :: money
  bi_riskAdjustedGmValue :: money
  bi_uncompensatedScopeValue :: money
  bi_effortVarianceHours :: "quantity option"
  bi_soldBlendedRate :: money
  bi_resourceCostDriftImpact :: "money option"
  bi_excessReworkCost :: "money option"
  bi_fxMarginImpact :: "money option"
  bi_executedChangeMargin :: money

record bridge_cause =
  bc_id :: string
  bc_label :: string
  bc_metricId :: "string option"
  bc_amount :: money
  bc_basis :: attribution_basis
  bc_explanation :: string

record margin_bridge =
  mb_projectId :: string
  mb_asOf :: instant
  mb_metricId :: string
  mb_soldGm :: money
  mb_causes :: "bridge_cause list"
  mb_forecastGm :: money
  mb_riskAdjustedGm :: money
  mb_totalDelta :: money
  mb_causeSum :: money
  mb_reconciles :: bool
  mb_residualComponents :: "bridge_cause list"
  mb_rankedDestroyers :: "bridge_cause list"
  mb_explanatoryCoverage :: "quantity option"
  mb_explanatoryCoverageMetricId :: string
  mb_explanatoryCoverageNarrative :: string

section \<open>Whole cents\<close>

definition centsOf :: "decimal_js \<Rightarrow> money \<Rightarrow> quantity" where
  "centsOf dj m = qMul dj (money_toQuantity dj m) Q_HUNDRED"

text \<open>The text up to the point, read again: the part towards zero.\<close>

definition truncate_q :: "quantity \<Rightarrow> quantity" where
  "truncate_q q = Qty (sgn (mant q) * (\<bar>mant q\<bar> div 10 ^ places q)) 0"

text \<open>\<open>qToNumber\<close> of \<open>quantity.ts\<close>: the double nearest to the decimal.\<close>

definition qToNumber :: "quantity \<Rightarrow> rat" where
  "qToNumber q = double (qval q)"

text \<open>The settlement loop: one cent at a time, round the order, until the gap is zero.\<close>

partial_function (option) settle :: "decimal_js \<Rightarrow> nat list \<Rightarrow> nat \<Rightarrow> rat \<Rightarrow> quantity list \<Rightarrow> quantity list option" where
  "settle dj order cursor gap result =
     (if gap = 0 \<or> order = [] then Some result
      else let slot = order ! (cursor mod length order);
               step = (if gap > 0 then Qty 1 0 else Qty (- 1) 0)
           in settle dj order (Suc cursor) (double (gap - (if gap > 0 then 1 else - 1)))
                (result[slot := qAdd dj (result ! slot) step]))"

definition settle_order :: "quantity list \<Rightarrow> nat list" where
  "settle_order remainders =
     map fst (sort_by (\<lambda>a b. let c = qCompare (snd b) (snd a) in if c \<noteq> 0 then c else int (fst a) - int (fst b))
       (enumerate 0 remainders))"

definition cents_part :: "decimal_js \<Rightarrow> money \<Rightarrow> quantity \<times> quantity" where
  "cents_part dj m = (let exact = centsOf dj m; whole = truncate_q exact in (whole, qAbs dj (qSub dj exact whole)))"

definition largestRemainderCents :: "decimal_js \<Rightarrow> money list \<Rightarrow> money \<Rightarrow> money list option" where
  "largestRemainderCents dj amounts tot =
     (if length amounts = 0 then Some []
      else
        let target = truncate_q (centsOf dj tot);
            parts = map (cents_part dj) amounts;
            assigned = foldl (\<lambda>a x. qAdd dj a (fst x)) Q_ZERO parts;
            gap = qToNumber (qSub dj target assigned)
        in map_option (map (\<lambda>c. Money (qval (nullish (qDiv dj c Q_HUNDRED) Q_ZERO)) (money_currency tot)))
             (settle dj (settle_order (map snd parts)) 0 gap (map fst parts)))"

section \<open>The causes\<close>

definition scopeWithoutCr :: "margin_bridge_input \<Rightarrow> bridge_cause" where
  "scopeWithoutCr input =
     \<lparr>bc_id = ''scope-without-cr'', bc_label = ''Scope delivered without a change request'', bc_metricId = Some ''MET-COM-009'',
        bc_amount = money_negated (bi_uncompensatedScopeValue input), bc_basis = DERIVED,
        bc_explanation = (if money_isZero (bi_uncompensatedScopeValue input) then (''No delivered scope is recorded as uncontracted.'')
         else (''Work delivered without an executed change request behind it: the cost was incurred and no '' @
         ''revenue was contracted against it.''))\<rparr>"

definition effortOverrun :: "decimal_js \<Rightarrow> margin_bridge_input \<Rightarrow> bridge_cause" where
  "effortOverrun dj input =
     (case bi_effortVarianceHours input of
        None \<Rightarrow> \<lparr>bc_id = ''effort-overrun'', bc_label = ''Effort overrun'', bc_metricId = Some ''MET-RES-002'',
        bc_amount = money_zero (bi_currency input), bc_basis = NOT_ATTRIBUTED,
        bc_explanation = (''No effort is recorded against this project, so hours cannot be compared with the priced plan. '' @
         ''Any effort effect is inside the residual.'')\<rparr>
      | Some hours \<Rightarrow> \<lparr>bc_id = ''effort-overrun'', bc_label = ''Effort overrun'', bc_metricId = Some ''MET-RES-002'',
        bc_amount = money_negated (money_times dj (bi_soldBlendedRate input) hours), bc_basis = MODELLED,
        bc_explanation = (q_text hours @
         '' hours against the priced plan, valued at the as-sold blended rate. **Modelled**: valuing '' @
         ''hours at the sold rate is the pairing that partitions the cost delta exactly against rate/mix, '' @
         ''not an invoiced amount.'')\<rparr>)"

definition rateMix :: "margin_bridge_input \<Rightarrow> bridge_cause" where
  "rateMix input =
     (case bi_resourceCostDriftImpact input of
        None \<Rightarrow> \<lparr>bc_id = ''rate-mix'', bc_label = ''Rate and seniority mix'', bc_metricId = Some ''MET-RES-010'',
        bc_amount = money_zero (bi_currency input), bc_basis = NOT_ATTRIBUTED,
        bc_explanation = (''No blended rate variance is computable, so rate drift cannot be separated from the residual.'')\<rparr>
      | Some drift \<Rightarrow> \<lparr>bc_id = ''rate-mix'', bc_label = ''Rate and seniority mix'', bc_metricId = Some ''MET-RES-010'',
        bc_amount = money_negated drift, bc_basis = MODELLED,
        bc_explanation = (''The gap between the blended rate actually paid and the rate priced, across the hours '' @
         ''delivered. **Modelled**: it attributes a cost difference to staffing shape without a '' @
         ''per-assignment reconciliation.'')\<rparr>)"

definition scheduleExtension :: "margin_bridge_input \<Rightarrow> bridge_cause" where
  "scheduleExtension input =
     \<lparr>bc_id = ''schedule-extension'', bc_label = ''Schedule extension'', bc_metricId = Some ''MET-DEL-011'',
        bc_amount = money_zero (bi_currency input), bc_basis = NOT_ATTRIBUTED,
        bc_explanation = (''A forecast completion date now exists (DR-050 closed) and 30 of 75 projects are forecast past '' @
         ''their committed date -- so the schedule slip is **measurable**. Its margin cost is not. The '' @
         ''cost of running longer is already inside the estimate at completion, and therefore already '' @
         ''inside MET-FIN-024, this bridge's closing balance. Attributing it again here would double '' @
         ''count against the residual. Separating it needs an ETC decomposed by cause, which the facts do '' @
         ''not carry (DR-058).'')\<rparr>"

definition qualityRework :: "margin_bridge_input \<Rightarrow> bridge_cause" where
  "qualityRework input =
     (case bi_excessReworkCost input of
        None \<Rightarrow> \<lparr>bc_id = ''quality-rework'', bc_label = ''Quality and rework'', bc_metricId = Some ''MET-QUA-012'',
        bc_amount = money_zero (bi_currency input), bc_basis = NOT_ATTRIBUTED,
        bc_explanation = (''Excess rework cost is not computable for this project, so rework effect is inside the residual.'')\<rparr>
      | Some cost \<Rightarrow> \<lparr>bc_id = ''quality-rework'', bc_label = ''Quality and rework'', bc_metricId = Some ''MET-QUA-012'',
        bc_amount = money_negated cost, bc_basis = DERIVED,
        bc_explanation = (if money_isZero cost then (''Rework is at or below the allowance priced into the contract, so no excess cost is attributed. '' @
         ''Good quality does not create margin here; it simply does not destroy any.'')
         else (''Rework hours above the allowance priced into the contract, valued at actual cost.''))\<rparr>)"

definition passThrough :: "margin_bridge_input \<Rightarrow> bridge_cause" where
  "passThrough input =
     \<lparr>bc_id = ''pass-through'', bc_label = ''Pass-through cost'', bc_metricId = None,
        bc_amount = money_zero (bi_currency input), bc_basis = BASIS_NOT_APPLICABLE,
        bc_explanation = (''The synthetic portfolio models no pass-through or third-party resale cost, so this cause '' @
         ''cannot arise. It is registered in MET-FIN-018 and kept in the bridge so the cause list matches '' @
         ''the metric.'')\<rparr>"

definition fx_cause :: "margin_bridge_input \<Rightarrow> bridge_cause" where
  "fx_cause input =
     (case bi_fxMarginImpact input of
        None \<Rightarrow> \<lparr>bc_id = ''fx'', bc_label = ''FX movement'', bc_metricId = Some ''MET-FIN-038'',
        bc_amount = money_zero (bi_currency input), bc_basis = BASIS_NOT_APPLICABLE,
        bc_explanation = (''Every project in this portfolio is priced and costed in one currency, so there is no rate '' @
         ''movement to isolate. MET-FIN-038 is structurally zero rather than unmeasured.'')\<rparr>
      | Some impact \<Rightarrow> \<lparr>bc_id = ''fx'', bc_label = ''FX movement'', bc_metricId = Some ''MET-FIN-038'',
        bc_amount = impact, bc_basis = DERIVED,
        bc_explanation = (''Forecast margin at current rates against forecast margin at as-sold rates.'')\<rparr>)"

definition namedRaw :: "decimal_js \<Rightarrow> margin_bridge_input \<Rightarrow> bridge_cause list" where
  "namedRaw dj input =
     [scopeWithoutCr input, effortOverrun dj input, rateMix input, scheduleExtension input,
      qualityRework input, passThrough input, fx_cause input]"

definition residual_cause :: "money \<Rightarrow> bridge_cause" where
  "residual_cause amount =
     \<lparr>bc_id = ''residual'', bc_label = ''Unattributed residual'', bc_metricId = Some ''MET-FIN-018'',
        bc_amount = amount, bc_basis = RESIDUAL,
        bc_explanation = (''The part of the margin delta the named causes do not account for, computed as the total less '' @
         ''the named causes so the bridge reconciles exactly. A large residual is a finding about the '' @
         ''attribution, not a rounding artefact -- the components below are the part of it that can be '' @
         ''named.'')\<rparr>"

definition residual_components :: "margin_bridge_input \<Rightarrow> bridge_cause list" where
  "residual_components input =
     [\<lparr>bc_id = ''executed-cr-recovery'', bc_label = ''Executed change request recovery'', bc_metricId = Some ''MET-FIN-002'',
        bc_amount = bi_executedChangeMargin input, bc_basis = DERIVED,
        bc_explanation = (''Net margin contributed by executed change requests -- contracted value less contracted cost. '' @
         ''It moves the bridge because MET-FIN-017 measures against the **as-sold** baseline, and '' @
         ''MET-FIN-018 does not name it as a separate cause, so it sits here.'')\<rparr>]"

section \<open>The bridge\<close>

definition quantity_sum :: "decimal_js \<Rightarrow> quantity list \<Rightarrow> quantity" where
  "quantity_sum dj qs = foldl (qAdd dj) Q_ZERO qs"

definition explanatory_coverage :: "decimal_js \<Rightarrow> money list \<Rightarrow> money \<Rightarrow> quantity option" where
  "explanatory_coverage dj named residual =
     (let namedGross = quantity_sum dj (map (\<lambda>m. qAbs dj (money_toQuantity dj m)) named);
          gross = qAdd dj namedGross (qAbs dj (money_toQuantity dj residual))
      in if qCompare gross Q_ZERO = 0 then None else qDiv dj namedGross gross)"

definition coverage_narrative :: "decimal_js \<Rightarrow> quantity option \<Rightarrow> string" where
  "coverage_narrative dj coverage =
     (case coverage of
        None \<Rightarrow> (''MET-FIN-041 is not computable: this bridge has no gross movement to attribute, so there is no '' @
         ''share to report. Not zero, and not 100% -- there is nothing to explain.'')
      | Some c \<Rightarrow> (''The named causes account for '' @
         q_text (qFixed dj (qMul dj c Q_HUNDRED) 1) @
         ''% of the GROSS movement in this bridge; the remainder sits in the unattributed residual. '' @
         ''**This is a gross attribution share, not the share of NET margin change explained** '' @
         ''(MET-FIN-041), and it is **not the same claim as AC-4**: the bridge reconciles to the cent by '' @
         ''construction, because the residual is defined as the total less the named causes, so it would '' @
         ''still reconcile if the named causes explained nothing. '' @
         (if qCompare c (Qty 5 1) < 0 then (''Here they carry less than half, so this decomposition should be read as a partial attribution '' @
         ''and not as the reason margin moved (DR-062).'')
          else (''Here they carry the majority of the movement, which is what makes the ranking below usable as '' @
         ''a driver list.''))))"

definition ranked_destroyers :: "decimal_js \<Rightarrow> bridge_cause list \<Rightarrow> bridge_cause list" where
  "ranked_destroyers dj causes =
     sort_by (\<lambda>a b. qCompare (qAbs dj (money_toQuantity dj (bc_amount b))) (qAbs dj (money_toQuantity dj (bc_amount a))))
       (filter (\<lambda>c. qCompare (money_toQuantity dj (bc_amount c)) Q_ZERO < 0) causes)"

text \<open>From the rounded amounts on.\<close>

definition settled_bridge :: "decimal_js \<Rightarrow> margin_bridge_input \<Rightarrow> money list \<Rightarrow> money_error + margin_bridge" where
  "settled_bridge dj input rounded =
     (let c = bi_currency input;
          named = map (\<lambda>(cause, amount). cause\<lparr>bc_amount := amount\<rparr>) (zip (namedRaw dj input) rounded)
      in and_then (sum_of dj c bc_amount named) (\<lambda>namedSum.
         and_then (money_minus dj (bi_marginValueDelta input) namedSum) (\<lambda>residualAmount.
         let causes = named @ [residual_cause residualAmount] in
         and_then (sum_of dj c bc_amount causes) (\<lambda>causeSum.
         let coverage = explanatory_coverage dj (map bc_amount named) residualAmount in
         Inr \<lparr>mb_projectId = bi_projectId input, mb_asOf = bi_asOf input, mb_metricId = ''MET-FIN-018'',
              mb_soldGm = bi_soldGmValue input, mb_causes = causes, mb_forecastGm = bi_forecastGmValue input,
              mb_riskAdjustedGm = bi_riskAdjustedGmValue input, mb_totalDelta = bi_marginValueDelta input,
              mb_causeSum = causeSum,
              mb_reconciles = (money_toQuantity dj causeSum = money_toQuantity dj (bi_marginValueDelta input)),
              mb_residualComponents = residual_components input,
              mb_rankedDestroyers = ranked_destroyers dj causes,
              mb_explanatoryCoverage = coverage, mb_explanatoryCoverageMetricId = ''MET-FIN-041'',
              mb_explanatoryCoverageNarrative = coverage_narrative dj coverage\<rparr>))))"

definition buildMarginBridge :: "decimal_js \<Rightarrow> margin_bridge_input \<Rightarrow> (money_error + margin_bridge) option" where
  "buildMarginBridge dj input =
     (case sum_of dj (bi_currency input) bc_amount (namedRaw dj input) of
        Inl e \<Rightarrow> Some (Inl e)
      | Inr rawSum \<Rightarrow>
          (case largestRemainderCents dj (map bc_amount (namedRaw dj input)) rawSum of
             None \<Rightarrow> None
           | Some rounded \<Rightarrow> Some (settled_bridge dj input rounded)))"

section \<open>Whole numbers are added without rounding\<close>

lemma sum_list_bound:
  assumes "\<And>k. k \<in> set ks \<Longrightarrow> \<bar>k\<bar> \<le> B"
  shows "\<bar>sum_list ks\<bar> \<le> int (length ks) * B"
  using abs_sum_le [of ks] sum_abs_bound [of ks B, OF assms] by linarith

lemma truncate_whole: "\<exists>k. truncate_q q = Qty k 0 \<and> \<bar>of_int k\<bar> \<le> \<bar>qval q\<bar>"
proof (intro exI conjI)
  show "truncate_q q = Qty (sgn (mant q) * (\<bar>mant q\<bar> div 10 ^ places q)) 0" by (simp add: truncate_q_def)
  have "\<bar>mant q\<bar> div 10 ^ places q * 10 ^ places q \<le> \<bar>mant q\<bar>"
    by (simp add: minus_mod_eq_div_mult [symmetric])
  then have "of_int (\<bar>mant q\<bar> div 10 ^ places q * 10 ^ places q) \<le> (of_int \<bar>mant q\<bar> :: rat)"
    by (simp only: of_int_le_iff)
  then have "of_int (\<bar>mant q\<bar> div 10 ^ places q) \<le> \<bar>of_int (mant q)\<bar> / (10 ^ places q :: rat)"
    by (simp add: pos_le_divide_eq)
  moreover have "\<bar>sgn (mant q) * (\<bar>mant q\<bar> div 10 ^ places q)\<bar> \<le> \<bar>mant q\<bar> div 10 ^ places q"
    by (simp add: abs_mult abs_sgn_eq pos_imp_zdiv_nonneg_iff)
  then have "\<bar>of_int (sgn (mant q) * (\<bar>mant q\<bar> div 10 ^ places q))\<bar> \<le> (of_int (\<bar>mant q\<bar> div 10 ^ places q) :: rat)"
    by (simp only: of_int_abs [symmetric] of_int_le_iff)
  ultimately show "\<bar>of_int (sgn (mant q) * (\<bar>mant q\<bar> div 10 ^ places q))\<bar> \<le> \<bar>qval q\<bar>"
    by (simp only: qval_def abs_divide abs_power2 power_abs abs_numeral)
qed

lemma truncate_near: "truncate_q q = Qty k 0 \<Longrightarrow> \<bar>of_int k - qval q\<bar> \<le> 1"
proof -
  assume k: "truncate_q q = Qty k 0"
  let ?a = "\<bar>mant q\<bar>" and ?p = "10 ^ places q :: int"
  have "\<lfloor>of_int ?a / of_int ?p :: rat\<rfloor> = ?a div ?p" by (rule floor_divide_of_int_eq)
  then have near: "\<bar>of_int (?a div ?p) - of_int ?a / of_int ?p :: rat\<bar> \<le> 1" by linarith
  have "qval q = of_int (sgn (mant q)) * (of_int ?a / of_int ?p)"
    by (simp add: qval_def sgn_mult_abs flip: of_int_mult of_int_abs)
  then have "of_int k - qval q = of_int (sgn (mant q)) * (of_int (?a div ?p) - of_int ?a / of_int ?p)"
    using k by (auto simp: truncate_q_def right_diff_distrib)
  moreover have "\<bar>of_int (sgn (mant q)) :: rat\<bar> \<le> 1" by (simp add: sgn_if)
  ultimately show ?thesis using near by (simp only: abs_mult) (metis abs_ge_zero mult_le_one)
qed

lemma settle_order_set: "set (settle_order rs) = {..<length rs}"
proof -
  have "fst ` set (enumerate 0 rs) = set (map fst (enumerate 0 rs))" by (simp only: list.set_map)
  also have "\<dots> = {..<length rs}" by (simp only: map_fst_enumerate) auto
  finally show ?thesis by (simp add: settle_order_def)
qed

lemma qval_whole: "qval (Qty k 0) = of_int k"
  by (simp add: qval_def)

text \<open>Amounts as the facts hold them: decimals with at most twenty digits before the point.\<close>

definition moderate :: "money \<Rightarrow> bool" where
  "moderate m \<longleftrightarrow> (\<exists>q. money_value m = qval q) \<and> \<bar>money_value m\<bar> \<le> 10 ^ 20"

lemma moderateI: "money_value m = qval q \<Longrightarrow> \<bar>money_value m\<bar> \<le> 10 ^ 20 \<Longrightarrow> moderate m"
  by (auto simp: moderate_def)

context decimal_lib begin

lemma round_whole: "\<bar>k\<bar> < 10 ^ q_precision \<Longrightarrow> dround dj q_precision (of_int k) = of_int k"
  by (rule round_fits [OF fits_int])

lemma round_within: "\<bar>x\<bar> \<le> of_int B \<Longrightarrow> \<bar>B\<bar> < 10 ^ q_precision \<Longrightarrow> \<bar>dround dj q_precision x\<bar> \<le> of_int B"
  using round_le_fits [of "\<bar>x\<bar>" "of_int B" q_precision] fits_int [of B q_precision] by (simp add: round_abs)

lemma foldl_qAdd: "qval (foldl (qAdd dj) q qs) = foldl (\<lambda>a x. dround dj q_precision (a + x)) (qval q) (map qval qs)"
  by (induction qs arbitrary: q) (simp_all add: qval_ops)

lemma foldl_within:
  "\<bar>a\<bar> \<le> of_int (int j * B) \<Longrightarrow> \<forall>x\<in>set xs. \<bar>x\<bar> \<le> of_int B \<Longrightarrow> 0 \<le> B \<Longrightarrow> int (j + length xs) * B < 10 ^ q_precision
    \<Longrightarrow> \<bar>foldl (\<lambda>a x. dround dj q_precision (a + x)) a xs\<bar> \<le> of_int (int (j + length xs) * B)"
proof (induction xs arbitrary: a j)
  case (Cons x xs)
  have "\<bar>a + x\<bar> \<le> of_int (int (Suc j) * B)" using Cons.prems(1,2) by (simp add: algebra_simps) linarith
  moreover have "int (Suc j) * B \<le> int (j + length (x # xs)) * B" using Cons.prems(3) by (intro mult_right_mono) simp_all
  then have "\<bar>int (Suc j) * B\<bar> < 10 ^ q_precision" using Cons.prems(3,4) by simp
  ultimately have "\<bar>dround dj q_precision (a + x)\<bar> \<le> of_int (int (Suc j) * B)" by (rule round_within)
  from Cons.IH [OF this] Cons.prems(2,3,4) show ?case by simp
qed simp

lemma round_unit: "\<bar>x\<bar> \<le> 10 ^ 33 \<Longrightarrow> \<bar>dround dj q_precision x - x\<bar> \<le> 1"
proof -
  assume x: "\<bar>x\<bar> \<le> 10 ^ 33"
  have "\<bar>dround dj q_precision x - x\<bar> \<le> \<bar>x\<bar> / 10 ^ 33" using round_near [of q_precision x] by (simp add: q_precision_def)
  also have "\<dots> \<le> 1" using x by (simp add: divide_le_eq_1)
  finally show ?thesis .
qed

text \<open>Every addition loses at most one unit.\<close>

lemma foldl_near:
  "\<bar>a\<bar> \<le> of_int (int j * B) \<Longrightarrow> \<forall>x\<in>set xs. \<bar>x\<bar> \<le> of_int B \<Longrightarrow> 0 \<le> B \<Longrightarrow> int (j + length xs) * B \<le> 10 ^ 33
    \<Longrightarrow> \<bar>foldl (\<lambda>a x. dround dj q_precision (a + x)) a xs - (a + sum_list xs)\<bar> \<le> of_nat (length xs)"
proof (induction xs arbitrary: a j)
  case (Cons x xs)
  let ?a = "dround dj q_precision (a + x)"
  have within: "\<bar>a + x\<bar> \<le> of_int (int (Suc j) * B)" using Cons.prems(1,2) by (simp add: algebra_simps) linarith
  have "int (Suc j) * B \<le> int (j + length (x # xs)) * B" using Cons.prems(3) by (intro mult_right_mono) simp_all
  then have top: "int (Suc j) * B \<le> 10 ^ 33" using Cons.prems(4) by linarith
  then have "(of_int (int (Suc j) * B) :: rat) \<le> 10 ^ 33" by (metis of_int_le_iff of_int_numeral of_int_power)
  then have step: "\<bar>?a - (a + x)\<bar> \<le> 1" using within by (intro round_unit) linarith
  have "0 \<le> int (Suc j) * B" using Cons.prems(3) by simp
  then have "\<bar>int (Suc j) * B\<bar> < 10 ^ q_precision" using top by (simp add: q_precision_def)
  from round_within [OF within this] have "\<bar>?a\<bar> \<le> of_int (int (Suc j) * B)" .
  from Cons.IH [OF this] Cons.prems(2,3,4)
  have "\<bar>foldl (\<lambda>a x. dround dj q_precision (a + x)) ?a xs - (?a + sum_list xs)\<bar> \<le> of_nat (length xs)" by simp
  then show ?case using step by simp
qed simp

lemma foldl_whole:
  "\<bar>a\<bar> + sum_list (map abs ks) < 10 ^ q_precision \<Longrightarrow>
    foldl (\<lambda>a x. dround dj q_precision (a + x)) (of_int a) (map of_int ks) = of_int (a + sum_list ks)"
  using foldl_exact [of a ks 0] by (simp add: scaled_def [abs_def] comp_def)

section \<open>The settlement loop ends\<close>

lemma settle_whole:
  assumes "order \<noteq> []" "\<forall>i\<in>set order. i < length ks"
  shows "map qval result = map of_int ks \<Longrightarrow> \<forall>k\<in>set ks. \<bar>k\<bar> + \<bar>g\<bar> < 10 ^ q_precision \<Longrightarrow> \<bar>g\<bar> < 2 ^ 53 \<Longrightarrow>
    \<exists>r ks'. settle dj order cursor (of_int g) result = Some r \<and> map qval r = map of_int ks'
      \<and> length ks' = length ks \<and> sum_list ks' = sum_list ks + g \<and> (\<forall>i<length ks. \<bar>ks' ! i\<bar> \<le> \<bar>ks ! i\<bar> + \<bar>g\<bar>)"
  using assms
proof (induction "nat \<bar>g\<bar>" arbitrary: g cursor result ks)
  case 0
  then show ?case by (subst settle.simps) auto
next
  case (Suc n)
  let ?slot = "order ! (cursor mod length order)"
  let ?step = "if (of_int g :: rat) > 0 then Qty 1 0 else Qty (- 1) 0"
  let ?ks = "ks[?slot := ks ! ?slot + sgn g]" and ?g = "g - sgn g"
  have g: "g \<noteq> 0" "n = nat \<bar>?g\<bar>" "\<bar>?g\<bar> = \<bar>g\<bar> - 1" "\<bar>sgn g\<bar> = 1" using Suc.hyps(2) by (auto simp: sgn_if)
  have "?slot \<in> set order" using Suc.prems(4) by (intro nth_mem) simp
  then have slot: "?slot < length ks" using Suc.prems(5) by blast
  have len: "length result = length ks" using Suc.prems(1) by (metis length_map)
  have step: "qval ?step = of_int (sgn g)" using g by (auto simp: sgn_if)
  have at: "qval (result ! ?slot) = of_int (ks ! ?slot)"
    using Suc.prems(1) slot len by (metis nth_map)
  have bound: "\<bar>ks ! ?slot\<bar> + \<bar>g\<bar> < 10 ^ q_precision" using Suc.prems(2) slot by simp
  have "\<bar>ks ! ?slot + sgn g\<bar> \<le> \<bar>ks ! ?slot\<bar> + 1" using g(4) by linarith
  then have le: "\<bar>ks ! ?slot + sgn g\<bar> + \<bar>?g\<bar> \<le> \<bar>ks ! ?slot\<bar> + \<bar>g\<bar>" using g(3) by linarith
  then have "qval (qAdd dj (result ! ?slot) ?step) = of_int (ks ! ?slot + sgn g)"
    using round_whole [of "ks ! ?slot + sgn g"] bound g(3) unfolding qval_ops at step by simp
  then have map: "map qval (result[?slot := qAdd dj (result ! ?slot) ?step]) = map of_int ?ks"
    using Suc.prems(1) by (simp add: map_update)
  have all: "\<forall>k\<in>set ?ks. \<bar>k\<bar> + \<bar>?g\<bar> < 10 ^ q_precision"
  proof
    fix k assume "k \<in> set ?ks"
    then have "k \<in> set ks \<or> k = ks ! ?slot + sgn g" using set_update_subset_insert by fastforce
    then show "\<bar>k\<bar> + \<bar>?g\<bar> < 10 ^ q_precision" using Suc.prems(2) g(3) le bound by fastforce
  qed
  have ord: "\<forall>i\<in>set order. i < length ?ks" using Suc.prems(5) by simp
  have small: "\<bar>?g\<bar> < 2 ^ 53" using Suc.prems(3) g(3) by linarith
  obtain r ks' where r: "settle dj order (Suc cursor) (of_int ?g) (result[?slot := qAdd dj (result ! ?slot) ?step]) = Some r"
    "map qval r = map of_int ks'" "length ks' = length ?ks" "sum_list ks' = sum_list ?ks + ?g"
    "\<forall>i<length ?ks. \<bar>ks' ! i\<bar> \<le> \<bar>?ks ! i\<bar> + \<bar>?g\<bar>"
    using Suc.hyps(1) [OF g(2) map all small Suc.prems(4) ord] by blast
  have "of_int g - (if (of_int g :: rat) > 0 then 1 else - 1) = (of_int ?g :: rat)"
    using g(1) by (auto simp: sgn_if)
  then have gap: "double (of_int g - (if (of_int g :: rat) > 0 then 1 else - 1)) = of_int ?g"
    using double_int [OF small] by (simp only:)
  have "settle dj order cursor (of_int g) result = Some r"
  proof (subst settle.simps)
    have "\<not> ((of_int g :: rat) = 0 \<or> order = [])" using g(1) Suc.prems(4) by simp
    then show "(if (of_int g :: rat) = 0 \<or> order = [] then Some result
      else let slot = ?slot; step = ?step
           in settle dj order (Suc cursor) (double (of_int g - (if (of_int g :: rat) > 0 then 1 else - 1)))
                (result[slot := qAdd dj (result ! slot) step])) = Some r"
      by (simp only: if_False Let_def gap r(1))
  qed
  moreover have "sum_list ks' = sum_list ks + g" using r(4) slot by (simp add: sum_list_update_int)
  moreover have "\<forall>i<length ks. \<bar>ks' ! i\<bar> \<le> \<bar>ks ! i\<bar> + \<bar>g\<bar>"
  proof (intro allI impI)
    fix i assume i: "i < length ks"
    then have "\<bar>ks' ! i\<bar> \<le> \<bar>?ks ! i\<bar> + \<bar>?g\<bar>" using r(5) by simp
    then show "\<bar>ks' ! i\<bar> \<le> \<bar>ks ! i\<bar> + \<bar>g\<bar>" using i le g(3) by (cases "i = ?slot") auto
  qed
  ultimately show ?case using r(2,3) by (intro exI [of _ r] exI [of _ ks']) simp
qed

lemma cents_within:
  assumes "\<exists>q. money_value m = qval q" "\<bar>money_value m\<bar> \<le> of_int B" "\<bar>100 * B\<bar> < 10 ^ q_precision"
  shows "\<bar>qval (centsOf dj m)\<bar> \<le> of_int (100 * B)"
proof -
  have "qval (money_toQuantity dj m) = money_value m"
    using assms(1) show_val by (auto simp: money_toQuantity_def)
  then have "\<bar>qval (money_toQuantity dj m) * 100\<bar> \<le> of_int (100 * B)" using assms(2) by (simp add: abs_mult)
  then show ?thesis using round_within [OF _ assms(3)] by (simp add: centsOf_def qval_ops)
qed

lemma cents_near:
  assumes "\<exists>q. money_value m = qval q" "\<bar>money_value m\<bar> \<le> 10 ^ 23" "truncate_q (centsOf dj m) = Qty k 0"
  shows "\<bar>of_int k - 100 * money_value m\<bar> \<le> 2"
proof -
  have "qval (centsOf dj m) = dround dj q_precision (money_value m * 100)"
    using assms(1) show_val by (auto simp: centsOf_def money_toQuantity_def qval_ops)
  moreover have "\<bar>money_value m * 100\<bar> \<le> 10 ^ 33" using assms(2) by (simp add: abs_mult)
  ultimately have "\<bar>qval (centsOf dj m) - 100 * money_value m\<bar> \<le> 1" using round_unit [of "money_value m * 100"] by simp
  then show ?thesis using truncate_near [OF assms(3)] by linarith
qed

lemma part_whole:
  assumes "moderate m"
  shows "\<exists>k. fst (cents_part dj m) = Qty k 0 \<and> \<bar>k\<bar> \<le> 10 ^ 22 \<and> \<bar>of_int k - 100 * money_value m\<bar> \<le> 2"
proof -
  have "\<exists>q. money_value m = qval q" "\<bar>money_value m\<bar> \<le> of_int (10 ^ 20)"
    using assms by (auto simp: moderate_def)
  then have b: "\<bar>qval (centsOf dj m)\<bar> \<le> of_int (100 * 10 ^ 20)"
    by (rule cents_within) (simp add: q_precision_def)
  obtain k where k: "truncate_q (centsOf dj m) = Qty k 0" "\<bar>of_int k\<bar> \<le> \<bar>qval (centsOf dj m)\<bar>"
    using truncate_whole by blast
  have "(of_int \<bar>k\<bar> :: rat) \<le> of_int (100 * 10 ^ 20)" using order_trans [OF k(2) b] by (simp only: of_int_abs)
  then have "\<bar>k\<bar> \<le> 100 * 10 ^ 20" by (simp only: of_int_le_iff)
  moreover have "\<bar>of_int k - 100 * money_value m\<bar> \<le> 2"
    using assms by (intro cents_near [OF _ _ k(1)]) (auto simp: moderate_def)
  ultimately show ?thesis using k(1) by (simp add: cents_part_def Let_def)
qed

lemma target_whole:
  assumes "\<exists>q. money_value tot = qval q" "\<bar>money_value tot\<bar> \<le> 10 ^ 23"
  shows "\<exists>t. truncate_q (centsOf dj tot) = Qty t 0 \<and> \<bar>t\<bar> \<le> 10 ^ 25"
proof -
  have b: "\<bar>qval (centsOf dj tot)\<bar> \<le> of_int (100 * 10 ^ 23)"
    using assms by (intro cents_within) (simp_all add: q_precision_def)
  obtain k where k: "truncate_q (centsOf dj tot) = Qty k 0" "\<bar>of_int k\<bar> \<le> \<bar>qval (centsOf dj tot)\<bar>"
    using truncate_whole by blast
  have "(of_int \<bar>k\<bar> :: rat) \<le> of_int (100 * 10 ^ 23)" using order_trans [OF k(2) b] by (simp only: of_int_abs)
  then have "\<bar>k\<bar> \<le> 100 * 10 ^ 23" by (simp only: of_int_le_iff)
  then show ?thesis using k(1) by simp
qed

lemma cents_back:
  assumes "qval c = of_int k" "\<bar>k\<bar> \<le> 10 ^ 26"
  shows "qval (nullish (qDiv dj c Q_HUNDRED) Q_ZERO) = of_int k / 100"
proof -
  have "fits q_precision (of_int k / 10 ^ 2)" using assms(2) by (intro fits_places) (simp add: q_precision_def)
  from round_fits [OF this] have e: "dround dj q_precision (of_int k / 100) = of_int k / 100" by simp
  have "qval (dshow dj (of_int k / 100)) = of_int k / 100"
    using show_round [of q_precision "of_int k / 100"] unfolding e .
  then show ?thesis using assms(1) e by (simp add: qDiv_def)
qed

lemma cents_back_all:
  assumes "map qval r = map of_int ks" "\<forall>k\<in>set ks. \<bar>k\<bar> \<le> 10 ^ 26"
  shows "map (\<lambda>c. Money (qval (nullish (qDiv dj c Q_HUNDRED) Q_ZERO)) cur) r = map (\<lambda>k. Money (of_int k / 100) cur) ks"
  using assms
proof (induction ks arbitrary: r)
  case (Cons k ks)
  then obtain c r' where "r = c # r'" "qval c = of_int k" "map qval r' = map of_int ks" by (cases r) auto
  then show ?case using Cons.IH [of r'] Cons.prems(2) cents_back [of c k] by simp
qed simp

lemma order_of_parts:
  assumes "rs \<noteq> []" "length rs = n"
  shows "settle_order rs \<noteq> []" "\<forall>i\<in>set (settle_order rs). i < n"
proof -
  show "\<forall>i\<in>set (settle_order rs). i < n" using assms(2) by (simp add: settle_order_set)
  have "0 \<in> set (settle_order rs)" using assms(1) by (simp add: settle_order_set)
  then show "settle_order rs \<noteq> []" by (metis empty_iff empty_set)
qed

lemma sum_near:
  fixes f :: "money \<Rightarrow> int"
  assumes "\<And>m. m \<in> set ms \<Longrightarrow> \<bar>of_int (f m) - 100 * money_value m\<bar> \<le> 2"
  shows "\<bar>of_int (sum_list (map f ms)) - 100 * sum_list (map money_value ms)\<bar> \<le> 2 * of_nat (length ms)"
  using assms
proof (induction ms)
  case (Cons m ms)
  have "\<bar>of_int (f m) - 100 * money_value m\<bar> \<le> 2" using Cons.prems by simp
  moreover have "\<bar>of_int (sum_list (map f ms)) - 100 * sum_list (map money_value ms)\<bar> \<le> 2 * of_nat (length ms)"
    using Cons by simp
  ultimately show ?case by simp
qed simp

lemma settled_cents:
  assumes "amounts \<noteq> []" "length amounts \<le> 1000" "list_all moderate amounts"
    and "\<exists>q. money_value tot = qval q" "\<bar>money_value tot\<bar> \<le> 10 ^ 23"
    and "\<bar>money_value tot - sum_list (map money_value amounts)\<bar> \<le> 10 ^ 13"
  shows "\<exists>ks. largestRemainderCents dj amounts tot = Some (map (\<lambda>k. Money (of_int k / 100) (money_currency tot)) ks)
    \<and> length ks = length amounts \<and> of_int (sum_list ks) = qval (truncate_q (centsOf dj tot)) \<and> (\<forall>k\<in>set ks. \<bar>k\<bar> \<le> 10 ^ 26)"
proof -
  let ?parts = "map (cents_part dj) amounts"
  let ?sum = "foldl (\<lambda>a x. qAdd dj a (fst x)) Q_ZERO ?parts"
  obtain f where f: "fst (cents_part dj m) = Qty (f m) 0 \<and> \<bar>f m\<bar> \<le> 10 ^ 22 \<and> \<bar>of_int (f m) - 100 * money_value m\<bar> \<le> 2" if "m \<in> set amounts" for m
    using assms(3) part_whole unfolding list_all_iff by metis
  let ?ws = "map f amounts" and ?n = "int (length amounts)"
  have ws: "map qval (map fst ?parts) = map of_int ?ws" using f by simp
  have wb: "\<bar>w\<bar> \<le> 10 ^ 22" if "w \<in> set ?ws" for w
  proof -
    from that obtain m where "m \<in> set amounts" "w = f m" by (metis imageE list.set_map)
    then show ?thesis using f [of m] by blast
  qed
  obtain t where t: "truncate_q (centsOf dj tot) = Qty t 0" "\<bar>t\<bar> \<le> 10 ^ 25" using target_whole [OF assms(4,5)] by blast
  have "sum_list (map abs ?ws) \<le> int (length ?ws) * 10 ^ 22" by (rule sum_abs_bound) (rule wb)
  moreover have "int (length ?ws) * 10 ^ 22 \<le> 1000 * (10 ^ 22 :: int)" using assms(2) by (intro mult_right_mono) simp_all
  ultimately have sb: "sum_list (map abs ?ws) \<le> 10 ^ 25" by simp
  have "0 \<le> sum_list (map abs ?ws)" by (rule sum_list_nonneg) auto
  then have small: "\<bar>0\<bar> + sum_list (map abs ?ws) < 10 ^ q_precision" using sb by (simp add: q_precision_def)
  have "qval ?sum = qval (foldl (qAdd dj) Q_ZERO (map fst ?parts))" by (simp only: foldl_map)
  also have "\<dots> = foldl (\<lambda>a x. dround dj q_precision (a + x)) (of_int 0) (map of_int ?ws)"
    by (simp only: foldl_qAdd ws qval_constants of_int_0)
  also have "\<dots> = of_int (sum_list ?ws)" using foldl_whole [OF small] by simp
  finally have assigned: "qval ?sum = of_int (sum_list ?ws)" .
  let ?g = "t - sum_list ?ws"
  have "\<bar>sum_list ?ws\<bar> \<le> 10 ^ 25" using order_trans [OF abs_sum_le [of ?ws] sb] .
  then have gb: "\<bar>?g\<bar> \<le> 2 * 10 ^ 25" using t(2) by linarith
  have gs: "\<bar>?g\<bar> < 10 ^ q_precision" using gb by (simp add: q_precision_def)
  have "\<bar>of_int (sum_list ?ws) - 100 * sum_list (map money_value amounts)\<bar> \<le> 2 * of_nat (length amounts)"
    by (rule sum_near) (use f in blast)
  also have "\<dots> \<le> (2000 :: rat)" using assms(2) by simp
  finally have "\<bar>of_int ?g\<bar> \<le> (10 ^ 15 + 2002 :: rat)"
    using cents_near [OF assms(4,5) t(1)] assms(6) by simp
  then have "of_int \<bar>?g\<bar> \<le> (of_int (10 ^ 15 + 2002) :: rat)" by simp
  then have "\<bar>?g\<bar> \<le> 10 ^ 15 + 2002" by (simp only: of_int_le_iff)
  then have g53: "\<bar>?g\<bar> < 2 ^ 53" by simp
  have "qval (qSub dj (truncate_q (centsOf dj tot)) ?sum) = of_int ?g"
    using round_whole [OF gs] unfolding qval_ops assigned t(1) by (simp only: qval_whole of_int_diff)
  then have gap: "qToNumber (qSub dj (truncate_q (centsOf dj tot)) ?sum) = of_int ?g"
    using double_int [OF g53] by (simp only: qToNumber_def)
  have order: "settle_order (map snd ?parts) \<noteq> []" "\<forall>i\<in>set (settle_order (map snd ?parts)). i < length ?ws"
    using assms(1) by (intro order_of_parts; simp)+
  have lim: "\<forall>k\<in>set ?ws. \<bar>k\<bar> + \<bar>?g\<bar> < 10 ^ q_precision"
  proof
    fix k assume "k \<in> set ?ws"
    from wb [OF this] gb have "\<bar>k\<bar> + \<bar>?g\<bar> \<le> 10 ^ 22 + 2 * 10 ^ 25" by linarith
    then show "\<bar>k\<bar> + \<bar>?g\<bar> < 10 ^ q_precision" by (simp add: q_precision_def)
  qed
  from settle_whole [OF order ws lim g53, of 0] obtain r ks where r: "settle dj (settle_order (map snd ?parts)) 0 (of_int ?g) (map fst ?parts) = Some r"
    "map qval r = map of_int ks" "length ks = length ?ws" "sum_list ks = sum_list ?ws + ?g"
    "\<forall>i<length ?ws. \<bar>ks ! i\<bar> \<le> \<bar>?ws ! i\<bar> + \<bar>?g\<bar>" by blast
  have kb: "\<forall>k\<in>set ks. \<bar>k\<bar> \<le> 10 ^ 26"
  proof
    fix k assume "k \<in> set ks"
    then obtain i where i: "i < length ks" "k = ks ! i" by (metis in_set_conv_nth)
    then have "\<bar>k\<bar> \<le> \<bar>?ws ! i\<bar> + \<bar>?g\<bar>" using r(3,5) by metis
    moreover have "\<bar>?ws ! i\<bar> \<le> 10 ^ 22" using i(1) r(3) by (intro wb nth_mem) simp
    ultimately have "\<bar>k\<bar> \<le> 10 ^ 22 + 2 * 10 ^ 25" using gb by linarith
    then show "\<bar>k\<bar> \<le> 10 ^ 26" by simp
  qed
  have sum: "of_int (sum_list ks) = qval (truncate_q (centsOf dj tot))" using r(4) t(1) by (simp add: qval_whole)
  have "largestRemainderCents dj amounts tot = Some (map (\<lambda>k. Money (of_int k / 100) (money_currency tot)) ks)"
    using assms(1) unfolding largestRemainderCents_def Let_def gap r(1) cents_back_all [OF r(2) kb, symmetric] by simp
  then show ?thesis using r(3) kb sum by (intro exI [of _ ks]) simp
qed

lemma sum_of_scaled:
  assumes "list_all (\<lambda>x. money_currency (f x) = c) xs" "map (\<lambda>x. money_value (f x)) xs = map (scaled p) ks"
    "sum_list (map abs ks) < 10 ^ q_precision"
  shows "sum_of dj c f xs = Inr (Money (scaled p (sum_list ks)) c)"
  using foldl_exact [of 0 ks p] assms by (simp add: sum_of_Inr scaled_arith)

lemma raw_sum:
  assumes "list_all (\<lambda>x. moderate (f x) \<and> money_currency (f x) = c) xs" "length xs \<le> 1000"
  shows "\<exists>v. sum_of dj c f xs = Inr (Money v c) \<and> (\<exists>q. v = qval q) \<and> \<bar>v\<bar> \<le> 10 ^ 23
    \<and> \<bar>v - sum_list (map (\<lambda>x. money_value (f x)) xs)\<bar> \<le> 1000"
proof -
  let ?vs = "map (\<lambda>x. money_value (f x)) xs"
  let ?v = "foldl (\<lambda>a x. dround dj q_precision (a + x)) 0 ?vs"
  have b: "int (0 + length ?vs) * 10 ^ 20 \<le> 10 ^ 23" using assms(2) by simp
  have "\<bar>?v\<bar> \<le> of_int (int (0 + length ?vs) * 10 ^ 20)"
  proof (rule foldl_within)
    show "\<forall>x\<in>set ?vs. \<bar>x\<bar> \<le> of_int (10 ^ 20)" using assms(1) by (auto simp: list_all_iff moderate_def)
    show "int (0 + length ?vs) * 10 ^ 20 < 10 ^ q_precision" using b by (simp add: q_precision_def)
  qed simp_all
  also have "\<dots> \<le> of_int (10 ^ 23)" using b by (simp only: of_int_le_iff)
  finally have "\<bar>?v\<bar> \<le> 10 ^ 23" by simp
  moreover have "\<exists>q. ?v = qval q"
  proof (cases xs rule: rev_cases)
    case Nil
    then show ?thesis by (intro exI [of _ Q_ZERO]) simp
  next
    case (snoc ys y)
    then show ?thesis using round_decimal by simp
  qed
  moreover have "\<bar>?v - (0 + sum_list ?vs)\<bar> \<le> of_nat (length ?vs)"
  proof (rule foldl_near)
    show "\<forall>x\<in>set ?vs. \<bar>x\<bar> \<le> of_int (10 ^ 20)" using assms(1) by (auto simp: list_all_iff moderate_def)
    show "int (0 + length ?vs) * 10 ^ 20 \<le> 10 ^ 33" using b by simp
  qed simp_all
  then have "\<bar>?v - sum_list ?vs\<bar> \<le> 1000" using assms(2) by simp
  ultimately show ?thesis using assms(1) by (simp add: sum_of_Inr list_all_iff)
qed

section \<open>The bridge\<close>

lemma settled_named:
  assumes "length ms = length cs"
  shows "map bc_amount (map (\<lambda>(cause, amount). cause\<lparr>bc_amount := amount\<rparr>) (zip cs ms)) = ms"
  using assms by (induction cs ms rule: list_induct2') auto

lemma bridge_exact:
  assumes "list_all (\<lambda>c. moderate (bc_amount c) \<and> money_currency (bc_amount c) = bi_currency input) (namedRaw dj input)"
    and "bi_marginValueDelta input = Money (scaled 8 d) (bi_currency input)" "\<bar>d\<bar> \<le> 10 ^ 30"
  shows "\<exists>b ks r. buildMarginBridge dj input = Some (Inr b)
    \<and> map (money_value \<circ> bc_amount) (mb_causes b) = map (\<lambda>k. of_int k / 100) ks @ [r]
    \<and> sum_list (map (\<lambda>k. of_int k / 100) ks) + r = scaled 8 d
    \<and> money_value (mb_causeSum b) = scaled 8 d \<and> mb_reconciles b"
proof -
  let ?c = "bi_currency input" and ?raw = "namedRaw dj input"
  have len: "length ?raw = 7" by (simp add: namedRaw_def)
  obtain v where v: "sum_of dj ?c bc_amount ?raw = Inr (Money v ?c)" "\<exists>q. v = qval q" "\<bar>v\<bar> \<le> 10 ^ 23"
    "\<bar>v - sum_list (map (\<lambda>x. money_value (bc_amount x)) ?raw)\<bar> \<le> 1000"
    using raw_sum [OF assms(1)] len by auto
  have "map bc_amount ?raw \<noteq> []" "length (map bc_amount ?raw) \<le> 1000" "list_all moderate (map bc_amount ?raw)"
    "\<exists>q. money_value (Money v ?c) = qval q" "\<bar>money_value (Money v ?c)\<bar> \<le> 10 ^ 23"
    "\<bar>money_value (Money v ?c) - sum_list (map money_value (map bc_amount ?raw))\<bar> \<le> 10 ^ 13"
    using assms(1) v(2,3,4) len by (auto simp: list_all_iff comp_def)
  from settled_cents [OF this] obtain ks where ks:
    "largestRemainderCents dj (map bc_amount ?raw) (Money v ?c) = Some (map (\<lambda>k. Money (of_int k / 100) ?c) ks)"
    "length ks = 7" "\<forall>k\<in>set ks. \<bar>k\<bar> \<le> 10 ^ 26" using len by auto
  let ?ms = "map (\<lambda>k. Money (of_int k / 100) ?c) ks"
  obtain named where nd: "named = map (\<lambda>(cause, amount). cause\<lparr>bc_amount := amount\<rparr>) (zip ?raw ?ms)" by blast
  have named: "map bc_amount named = ?ms" unfolding nd by (rule settled_named) (simp add: len ks(2))
  let ?es = "map (\<lambda>k. 1000000 * k) ks"
  have vals: "map (\<lambda>k. money_value (Money (of_int k / 100) ?c)) ks = map (scaled 8) ?es" by (simp add: scaled_def)
  have nv: "map (\<lambda>x. money_value (bc_amount x)) named = map (scaled 8) ?es"
    using arg_cong [OF named, of "map money_value"] vals by (simp add: comp_def)
  have "list_all (\<lambda>m. money_currency m = ?c) (map bc_amount named)" unfolding named by (simp add: list_all_iff)
  then have nc: "list_all (\<lambda>x. money_currency (bc_amount x) = ?c) named" by (simp only: list.pred_map comp_def)
  have "sum_list (map abs ?es) \<le> int (length ?es) * 10 ^ 32" using ks(3) by (intro sum_abs_bound) fastforce
  then have sb: "sum_list (map abs ?es) \<le> 7 * 10 ^ 32" using ks(2) by simp
  let ?N = "sum_list ?es" and ?R = "d - sum_list ?es"
  have Nb: "\<bar>?N\<bar> \<le> 7 * 10 ^ 32" by (rule order_trans [OF abs_sum_le sb])
  have rb: "\<bar>?R\<bar> \<le> 8 * 10 ^ 32" using Nb assms(3) by simp
  have "sum_list (map abs ?es) < 10 ^ q_precision" using sb by (simp add: q_precision_def)
  from sum_of_scaled [OF nc nv this] have S: "sum_of dj ?c bc_amount named = Inr (Money (scaled 8 ?N) ?c)" .
  have diff: "scaled 8 d - scaled 8 ?N = scaled 8 ?R" by (simp add: scaled_def diff_divide_distrib)
  have "fits q_precision (scaled 8 ?R)" using rb by (intro fits_scaled) (simp add: q_precision_def)
  from round_fits [OF this] have R: "money_minus dj (bi_marginValueDelta input) (Money (scaled 8 ?N) ?c) = Inr (Money (scaled 8 ?R) ?c)"
    by (simp add: money_ops_Inr assms(2) diff)
  let ?causes = "named @ [residual_cause (Money (scaled 8 ?R) ?c)]"
  have cc: "list_all (\<lambda>x. money_currency (bc_amount x) = ?c) ?causes" using nc by (simp add: residual_cause_def)
  have cv: "map (\<lambda>x. money_value (bc_amount x)) ?causes = map (scaled 8) (?es @ [?R])" using nv by (simp add: residual_cause_def)
  have "sum_list (map abs (?es @ [?R])) \<le> 15 * 10 ^ 32" using sb rb by simp
  then have "sum_list (map abs (?es @ [?R])) < 10 ^ q_precision" by (simp add: q_precision_def)
  from sum_of_scaled [OF cc cv this] have T: "sum_of dj ?c bc_amount ?causes = Inr (Money (scaled 8 d) ?c)" by simp
  obtain b where b: "settled_bridge dj input ?ms = Inr b" "mb_causes b = ?causes" "mb_causeSum b = Money (scaled 8 d) ?c" "mb_reconciles b"
    using S R T by (simp add: settled_bridge_def Let_def nd [symmetric] assms(2))
  have "buildMarginBridge dj input = Some (Inr b)" by (simp add: buildMarginBridge_def v(1) ks(1) b(1))
  moreover have "map (money_value \<circ> bc_amount) (mb_causes b) = map (\<lambda>k. of_int k / 100) ks @ [scaled 8 ?R]"
    using cv vals b(2) by (simp add: comp_def)
  moreover have "sum_list (map (\<lambda>k. of_int k / 100) ks) = scaled 8 ?N"
    using vals by (simp only: money.sel scaled_arith(5))
  ultimately show ?thesis using b(3,4)
    by (intro exI [of _ b] exI [of _ ks] exI [of _ "scaled 8 ?R"]) (simp add: diff [symmetric])
qed

lemma qval_qAbs: "qval (qAbs dj q) = \<bar>qval q\<bar>"
proof -
  have "\<bar>qval q\<bar> = qval (Qty \<bar>mant q\<bar> (places q))" by (simp add: qval_def abs_divide)
  then show ?thesis unfolding qAbs_def by (simp only: show_val)
qed

lemma coverage_share:
  assumes "sum_list (map abs ks) < 10 ^ q_precision"
    and e: "explanatory_coverage dj (map (\<lambda>k. Money (of_int k / 100) cur) ks) residual = Some c"
  shows "0 \<le> qval c \<and> qval c \<le> 1"
proof -
  let ?qs = "map (\<lambda>m. qAbs dj (money_toQuantity dj m)) (map (\<lambda>k. Money (of_int k / 100) cur) ks)"
  let ?n = "quantity_sum dj ?qs" and ?r = "qAbs dj (money_toQuantity dj residual)"
  have sh: "qval (dshow dj (of_int k / 100)) = of_int k / 100" for k using show_val [of "Qty k 2"] by (simp add: qval_def)
  have "map qval ?qs = map (scaled 2) (map abs ks)"
    by (simp add: qval_qAbs money_toQuantity_def sh scaled_def abs_divide)
  then have "qval ?n = foldl (\<lambda>a x. dround dj q_precision (a + x)) (scaled 2 0) (map (scaled 2) (map abs ks))"
    unfolding quantity_sum_def foldl_qAdd by (simp only: qval_constants scaled_arith(1))
  also have "foldl (\<lambda>a x. dround dj q_precision (a + x)) (scaled 2 0) (map (scaled 2) (map abs ks)) = scaled 2 (0 + sum_list (map abs ks))"
    using assms(1) by (intro foldl_exact) (simp add: comp_def)
  finally have n: "qval ?n = scaled 2 (sum_list (map abs ks))" by simp
  have s0: "0 \<le> sum_list (map abs ks)" by (rule sum_list_nonneg) auto
  then have n0: "0 \<le> qval ?n" unfolding n by (simp add: scaled_def)
  have nf: "fits q_precision (qval ?n)" unfolding n using assms(1) s0 by (intro fits_scaled) simp
  have "qval ?n \<le> qval ?n + qval ?r" by (simp add: qval_qAbs)
  then have le: "qval ?n \<le> qval (qAdd dj ?n ?r)" using round_ge_fits [OF _ nf] by (simp add: qval_ops)
  have "qDiv dj ?n (qAdd dj ?n ?r) = Some c" using e by (simp add: explanatory_coverage_def Let_def split: if_splits)
  then have c: "qval (qAdd dj ?n ?r) \<noteq> 0" "qval c = dround dj q_precision (qval ?n / qval (qAdd dj ?n ?r))"
    by (simp_all add: qDiv_Some)
  have "0 < qval (qAdd dj ?n ?r)" using c(1) n0 le by linarith
  then have "0 \<le> qval ?n / qval (qAdd dj ?n ?r)" "qval ?n / qval (qAdd dj ?n ?r) \<le> 1"
    using n0 le by (simp_all add: divide_le_eq_1)
  then show ?thesis using round_nonneg round_le_fits [of _ 1] c(2) fits_int [of 1 q_precision] by (simp add: q_precision_def)
qed

end

section \<open>Properties\<close>

text \<open>C19: the cent-by-cent settlement loop of \<open>largestRemainderCents\<close>, whose counter is a double, ends, for up to a
  thousand decimal amounts of up to twenty digits before the point and a total that is at most 10^13 away from their
  sum: one amount of whole cents is returned for each amount given, and together they are exactly the total truncated to
  whole cents.\<close>

theorem largest_remainder_terminates:
  assumes "decimal_lib dj" "amounts \<noteq> []" "length amounts \<le> 1000" "list_all moderate amounts"
    and "\<exists>q. money_value tot = qval q" "\<bar>money_value tot\<bar> \<le> 10 ^ 23"
    and "\<bar>money_value tot - sum_list (map money_value amounts)\<bar> \<le> 10 ^ 13"
  shows "\<exists>ks. largestRemainderCents dj amounts tot = Some (map (\<lambda>k. Money (of_int k / 100) (money_currency tot)) ks)
    \<and> length ks = length amounts \<and> of_int (sum_list ks) = qval (truncate_q (centsOf dj tot))"
  using decimal_lib.settled_cents [OF assms] by blast

theorem largest_remainder_terminates_witness:
  "\<exists>ks. largestRemainderCents ref_decimal [Money (1005 / 1000) USD, Money (2005 / 1000) USD] (Money (301 / 100) USD)
      = Some (map (\<lambda>k. Money (of_int k / 100) USD) ks) \<and> length ks = 2
    \<and> of_int (sum_list ks) = qval (truncate_q (centsOf ref_decimal (Money (301 / 100) USD)))"
proof -
  have "moderate (Money (1005 / 1000) USD)" by (rule moderateI [of _ "Qty 1005 3"]) (simp_all add: qval_def)
  moreover have "moderate (Money (2005 / 1000) USD)" by (rule moderateI [of _ "Qty 2005 3"]) (simp_all add: qval_def)
  moreover have "\<exists>q. money_value (Money (301 / 100) USD) = qval q" by (rule exI [of _ "Qty 301 2"]) (simp add: qval_def)
  ultimately show ?thesis
    using largest_remainder_terminates [OF ref_decimal_lib, of "[Money (1005 / 1000) USD, Money (2005 / 1000) USD]" "Money (301 / 100) USD"]
    by (simp add: numeral_2_eq_2)
qed

text \<open>From a gap that a step of one no longer changes the loop does not return.\<close>

lemma settle_stuck: "settle dj order cursor gap result = Some r \<Longrightarrow> order \<noteq> [] \<longrightarrow> gap \<noteq> 2 ^ 60"
proof (rule settle.raw_induct [where P = "\<lambda>dj order cursor gap result r. order \<noteq> [] \<longrightarrow> gap \<noteq> 2 ^ 60"])
  fix self and dj :: decimal_js and order :: "nat list" and cursor gap and result r :: "quantity list"
  assume IH: "\<And>dj order cursor gap result r. self dj order cursor gap result = Some r \<Longrightarrow> order \<noteq> [] \<longrightarrow> gap \<noteq> 2 ^ 60"
    and body: "(if gap = 0 \<or> order = [] then Some result
      else let slot = order ! (cursor mod length order); step = (if gap > 0 then Qty 1 0 else Qty (- 1) 0)
           in self dj order (Suc cursor) (double (gap - (if gap > 0 then 1 else - 1)))
                (result[slot := qAdd dj (result ! slot) step])) = Some r"
  show "order \<noteq> [] \<longrightarrow> gap \<noteq> 2 ^ 60"
  proof (intro impI notI)
    assume o: "order \<noteq> []" and g: "gap = 2 ^ 60"
    have "double (gap - (if gap > 0 then 1 else - 1)) = 2 ^ 60" unfolding g using big_step_lost by simp
    then have "\<exists>c q. self dj order c (2 ^ 60) q = Some r" using body o g by (auto simp: Let_def)
    then show False using IH o by blast
  qed
qed

theorem settlement_may_never_end:
  assumes "order \<noteq> []"
  shows "settle dj order cursor (2 ^ 60) result = None"
  using settle_stuck [of dj order cursor "2 ^ 60" result] assms by (cases "settle dj order cursor (2 ^ 60) result") auto

text \<open>C20: AC-4, the margin bridge reconciles. For causes of up to twenty digits in the project's currency and a
  delta written with at most eight decimals, the bridge is built (the settlement loop ends and no sum is refused),
  it reports that it reconciles, the causes add up to the delta exactly, and every cause but the residual is in
  whole cents.\<close>

theorem margin_bridge_reconciles:
  assumes "decimal_lib dj"
    and "list_all (\<lambda>c. moderate (bc_amount c) \<and> money_currency (bc_amount c) = bi_currency input) (namedRaw dj input)"
    and "bi_marginValueDelta input = Money (scaled 8 d) (bi_currency input)" "\<bar>d\<bar> \<le> 10 ^ 30"
  shows "\<exists>b ks r. buildMarginBridge dj input = Some (Inr b)
    \<and> map (money_value \<circ> bc_amount) (mb_causes b) = map (\<lambda>k. of_int k / 100) ks @ [r]
    \<and> sum_list (map (\<lambda>k. of_int k / 100) ks) + r = scaled 8 d
    \<and> money_value (mb_causeSum b) = scaled 8 d \<and> mb_reconciles b"
  by (rule decimal_lib.bridge_exact [OF assms])

definition sample_bridge :: margin_bridge_input where
  "sample_bridge =
     \<lparr>bi_projectId = ''P1'', bi_asOf = Instant 0 [], bi_currency = USD, bi_soldGmValue = Money 100 USD, bi_forecastGmValue = Money 60 USD,
        bi_marginValueDelta = Money (scaled 8 (- 4000000000)) USD, bi_riskAdjustedGmValue = Money 50 USD,
        bi_uncompensatedScopeValue = Money 10 USD, bi_effortVarianceHours = None, bi_soldBlendedRate = Money 2 USD,
        bi_resourceCostDriftImpact = Some (Money (qval (Qty 15 1)) USD), bi_excessReworkCost = None, bi_fxMarginImpact = None,
        bi_executedChangeMargin = Money 0 USD\<rparr>"

theorem margin_bridge_reconciles_witness:
  "\<exists>b ks r. buildMarginBridge ref_decimal sample_bridge = Some (Inr b)
    \<and> map (money_value \<circ> bc_amount) (mb_causes b) = map (\<lambda>k. of_int k / 100) ks @ [r]
    \<and> sum_list (map (\<lambda>k. of_int k / 100) ks) + r = scaled 8 (- 4000000000)
    \<and> money_value (mb_causeSum b) = scaled 8 (- 4000000000) \<and> mb_reconciles b"
proof (rule margin_bridge_reconciles [OF ref_decimal_lib])
  have m: "moderate (Money (- 10) USD)" by (rule moderateI [of _ "Qty (- 10) 0"]) (simp_all add: qval_def)
  have "moderate (Money 0 USD)" "moderate (Money (- 3 / 2) USD)"
    by (rule moderateI [of _ Q_ZERO], simp_all) (rule moderateI [of _ "Qty (- 15) 1"], simp_all add: qval_def)
  note m = m this
  show "list_all (\<lambda>c. moderate (bc_amount c) \<and> money_currency (bc_amount c) = bi_currency sample_bridge) (namedRaw ref_decimal sample_bridge)"
    using m by (simp add: sample_bridge_def namedRaw_def scopeWithoutCr_def effortOverrun_def rateMix_def scheduleExtension_def
      qualityRework_def passThrough_def fx_cause_def money_negated_def money_zero_def qval_def)
qed (simp_all add: sample_bridge_def)

text \<open>The explanatory coverage of a bridge (\<open>MET-FIN-041\<close>) is a share: for named causes in whole cents
  whose absolute values add up within thirty-four digits, it is never negative and never above one, whatever the
  residual.\<close>

theorem coverage_is_a_share:
  assumes "decimal_lib dj" "sum_list (map abs ks) < 10 ^ q_precision"
    and "explanatory_coverage dj (map (\<lambda>k. Money (of_int k / 100) cur) ks) residual = Some c"
  shows "0 \<le> qval c \<and> qval c \<le> 1"
  using decimal_lib.coverage_share [OF assms(1,2)] assms(3) by blast

theorem coverage_is_a_share_witness:
  "case explanatory_coverage ref_decimal [Money (of_int (- 100) / 100) USD] (Money (- 2) USD) of
     None \<Rightarrow> False | Some c \<Rightarrow> 0 \<le> qval c \<and> qval c \<le> 1"
proof -
  let ?e = "explanatory_coverage ref_decimal (map (\<lambda>k. Money (of_int k / 100) USD) [- 100]) (Money (- 2) USD)"
  have r: "qval (dshow ref_decimal (- 2)) = - 2" using ref.show_val [of "Qty (- 2) 0"] by simp
  have "0 < dround ref_decimal q_precision (x + 2)" if "0 \<le> x" for x
    using that by (intro ref.round_pos) (simp_all add: q_precision_def)
  from this [of "dround ref_decimal q_precision \<bar>qval (dshow ref_decimal (- 1))\<bar>"] have "?e \<noteq> None"
    by (simp add: ref.round_nonneg cmp_ord_def explanatory_coverage_def Let_def quantity_sum_def qCompare_def qDiv_def ref.qval_ops ref.qval_qAbs money_toQuantity_def r)
  then obtain c where c: "?e = Some c" by blast
  have "sum_list (map abs [- 100 :: int]) < 10 ^ q_precision" by (simp add: q_precision_def)
  from coverage_is_a_share [OF ref_decimal_lib this c] show ?thesis using c by simp
qed

end
