(* ===== verification/Source_Identity.thy ===== *)
theory Source_Identity
  imports Explainability
begin

text \<open>
  \<open>contexts/integration/internal/identity.ts\<close> and \<open>authority.ts\<close>: which project a source's identifier names,
  and which source's value is the governed one for a concept. Both registries are lists in the order of their
  first registration; registering again replaces the entry in its place. Strings are over one-byte characters,
  and only the ASCII letters are folded. \<open>String.prototype.localeCompare\<close> is a parameter.
\<close>

section \<open>Registries that replace in place\<close>

text \<open>\<open>findIndex\<close>, then an assignment at that index or a \<open>push\<close>.\<close>

fun put_where :: "('a \<Rightarrow> bool) \<Rightarrow> 'a \<Rightarrow> 'a list \<Rightarrow> 'a list" where
  "put_where p x [] = [x]"
| "put_where p x (y # ys) = (if p y then x # ys else y # put_where p x ys)"

lemma find_SomeD: "find P xs = Some x \<Longrightarrow> x \<in> set xs \<and> P x"
  by (induction xs) (auto split: if_splits)

text \<open>What a registry keyed by \<open>key\<close> promises: at most one entry for a key, and the last one put there.\<close>

locale keyed_registry =
  fixes key :: "'a \<Rightarrow> 'k"
    and put :: "'a \<Rightarrow> 'a list \<Rightarrow> 'a list"
  assumes put_keys: "map key (put x xs) = (if key x \<in> set (map key xs) then map key xs else map key xs @ [key x])"
    and put_entries: "distinct (map key xs) \<Longrightarrow> set (put x xs) = insert x {y \<in> set xs. key y \<noteq> key x}"
begin

lemma put_distinct: "distinct (map key xs) \<Longrightarrow> distinct (map key (put x xs))"
  by (simp add: put_keys)

lemma find_key: "distinct (map key xs) \<Longrightarrow> x \<in> set xs \<Longrightarrow> find (\<lambda>y. key y = key x) xs = Some x"
  by (induction xs) (auto simp: image_iff)

lemma find_put:
  assumes "distinct (map key xs)"
  shows "find (\<lambda>y. key y = k) (put x xs) = (if k = key x then Some x else find (\<lambda>y. key y = k) xs)"
proof (cases "k = key x")
  case True
  then show ?thesis using find_key [OF put_distinct [OF assms], of x x] put_entries [OF assms] by simp
next
  case False
  show ?thesis
  proof (cases "find (\<lambda>y. key y = k) xs")
    case None
    then have "find (\<lambda>y. key y = k) (put x xs) = None"
      using False put_entries [OF assms, of x] by (auto simp: find_None_iff)
    then show ?thesis using False None by simp
  next
    case (Some y)
    then have y: "y \<in> set xs" "key y = k" by (auto dest: find_SomeD)
    then show ?thesis using find_key [OF put_distinct [OF assms], of y x] False put_entries [OF assms] Some by simp
  qed
qed

lemma filter_key:
  assumes "distinct (map key xs)"
  shows "filter (\<lambda>y. key y = k) xs = (case find (\<lambda>y. key y = k) xs of None \<Rightarrow> [] | Some y \<Rightarrow> [y])"
  using assms
proof (induction xs)
  case (Cons x xs)
  show ?case
  proof (cases "key x = k")
    case True
    then have "filter (\<lambda>y. key y = k) xs = []" using Cons.prems by (auto simp: filter_empty_conv image_iff)
    then show ?thesis using True by simp
  next
    case False
    then show ?thesis using Cons by simp
  qed
qed simp

end

lemma put_where_keys: "map key (put_where (\<lambda>y. key y = key x) x xs)
    = (if key x \<in> set (map key xs) then map key xs else map key xs @ [key x])"
  by (induction xs) auto

lemma put_where_entries: "distinct (map key xs) \<Longrightarrow>
    set (put_where (\<lambda>y. key y = key x) x xs) = insert x {y \<in> set xs. key y \<noteq> key x}"
  by (induction xs) (auto simp: image_iff)

section \<open>The identity hub\<close>

datatype source_system = DELIVERY_INTELLIGENCE | FINANCE_ERP | SALESFORCE | PSA | ALM | DELIVERY_ASSURANCE | TABLEAU | UPLOAD

definition ALL_SOURCE_SYSTEMS :: "source_system list" where
  "ALL_SOURCE_SYSTEMS = [DELIVERY_INTELLIGENCE, FINANCE_ERP, SALESFORCE, PSA, ALM, DELIVERY_ASSURANCE, TABLEAU, UPLOAD]"

fun system_text :: "source_system \<Rightarrow> string" where
  "system_text DELIVERY_INTELLIGENCE = ''DELIVERY_INTELLIGENCE''"
| "system_text FINANCE_ERP = ''FINANCE_ERP''"
| "system_text SALESFORCE = ''SALESFORCE''"
| "system_text PSA = ''PSA''"
| "system_text ALM = ''ALM''"
| "system_text DELIVERY_ASSURANCE = ''DELIVERY_ASSURANCE''"
| "system_text TABLEAU = ''TABLEAU''"
| "system_text UPLOAD = ''UPLOAD''"

record identity_mapping =
  im_projectId :: string
  im_system :: source_system
  im_externalId :: string
  im_declaredBy :: string

datatype unresolved_reason = NOT_MAPPED | AMBIGUOUS | BLANK

datatype identity_resolution = RESOLVED string identity_mapping | UNRESOLVED unresolved_reason nat

text \<open>The state of a \<open>ProjectIdentityHub\<close>.\<close>

type_synonym identity_hub = "identity_mapping list"

text \<open>\<open>toLowerCase\<close> on ASCII.\<close>

definition lower_char :: "char \<Rightarrow> char" where
  "lower_char c = (let n = of_char c :: nat in if 65 \<le> n \<and> n \<le> 90 then char_of (n + 32) else c)"

definition normalise_id :: "string \<Rightarrow> string" where
  "normalise_id s = map lower_char (trim s)"

definition mapping_key :: "identity_mapping \<Rightarrow> source_system \<times> string" where
  "mapping_key m = (im_system m, normalise_id (im_externalId m))"

definition declare_mapping :: "identity_mapping \<Rightarrow> identity_hub \<Rightarrow> identity_hub" where
  "declare_mapping mapping hub =
     (if normalise_id (im_externalId mapping) = '''' then hub
      else put_where (\<lambda>m. im_system m = im_system mapping \<and> normalise_id (im_externalId m) = normalise_id (im_externalId mapping))
             mapping hub)"

fun declareAll :: "identity_mapping list \<Rightarrow> identity_hub \<Rightarrow> identity_hub" where
  "declareAll [] hub = hub"
| "declareAll (m # ms) hub = declareAll ms (declare_mapping m hub)"

definition resolve :: "identity_hub \<Rightarrow> source_system \<Rightarrow> string \<Rightarrow> identity_resolution" where
  "resolve hub system externalId =
     (let key = normalise_id externalId in
      if key = '''' then UNRESOLVED BLANK 0
      else let matches = filter (\<lambda>m. im_system m = system \<and> normalise_id (im_externalId m) = key) hub in
        case matches of
          [] \<Rightarrow> UNRESOLVED NOT_MAPPED 0
        | first # _ \<Rightarrow>
            if length matches > 1 \<and> card (set (map im_projectId matches)) > 1 then UNRESOLVED AMBIGUOUS (length matches)
            else RESOLVED (im_projectId first) first)"

definition identitiesOf :: "(string \<Rightarrow> string \<Rightarrow> int) \<Rightarrow> identity_hub \<Rightarrow> string \<Rightarrow> identity_mapping list" where
  "identitiesOf collate hub projectId =
     sort_by (\<lambda>a b. collate (system_text (im_system a)) (system_text (im_system b))) (filter (\<lambda>m. im_projectId m = projectId) hub)"

record system_coverage =
  sc_system :: source_system
  sc_mapped :: nat
  sc_total :: nat

definition identity_coverage :: "identity_hub \<Rightarrow> string list \<Rightarrow> system_coverage list" where
  "identity_coverage hub projectIds =
     map (\<lambda>system. \<lparr>sc_system = system,
            sc_mapped = length (filter (\<lambda>p. \<exists>m\<in>set hub. im_system m = system \<and> im_projectId m = p) projectIds),
            sc_total = length projectIds\<rparr>)
       (filter (\<lambda>s. s \<noteq> DELIVERY_INTELLIGENCE) ALL_SOURCE_SYSTEMS)"

section \<open>Concepts and authority\<close>

datatype canonical_concept =
    CONTRACT_SOLD_VALUE | CONTRACT_EXECUTED_CHANGE | CONTRACT_PENDING_CHANGE | CONTRACT_PAYMENT_MILESTONE
  | COMMERCIAL_OPPORTUNITY | COMMERCIAL_ACCOUNT_OWNERSHIP | FINANCIAL_ACTUAL_COST | FINANCIAL_RECOGNISED_REVENUE
  | FINANCIAL_FORECAST_REVENUE | FINANCIAL_ESTIMATE_TO_COMPLETE | FINANCIAL_FINANCIAL_PERIOD | FINANCIAL_INVOICE_STATUS
  | DELIVERY_PLANNED_WORK | DELIVERY_COMPLETED_WORK | DELIVERY_VELOCITY | DELIVERY_DEFECT_COUNT
  | DELIVERY_REWORK_EFFORT | DELIVERY_RELEASE_EVENT | DELIVERY_MILESTONE_STATUS | RESOURCE_PLANNED_EFFORT
  | RESOURCE_ACTUAL_EFFORT | RESOURCE_STAFFING | RESOURCE_COST_RATE | ASSURANCE_REVIEW_DATE
  | ASSURANCE_FINDING | ASSURANCE_ACTION_STATUS | STATUS_REPORTED_RAG | DOCUMENT_CONTRACT_TERM
  | DOCUMENT_ACCEPTANCE_CRITERIA

fun concept_text :: "canonical_concept \<Rightarrow> string" where
  "concept_text CONTRACT_SOLD_VALUE = ''contract.soldValue''"
| "concept_text CONTRACT_EXECUTED_CHANGE = ''contract.executedChange''"
| "concept_text CONTRACT_PENDING_CHANGE = ''contract.pendingChange''"
| "concept_text CONTRACT_PAYMENT_MILESTONE = ''contract.paymentMilestone''"
| "concept_text COMMERCIAL_OPPORTUNITY = ''commercial.opportunity''"
| "concept_text COMMERCIAL_ACCOUNT_OWNERSHIP = ''commercial.accountOwnership''"
| "concept_text FINANCIAL_ACTUAL_COST = ''financial.actualCost''"
| "concept_text FINANCIAL_RECOGNISED_REVENUE = ''financial.recognisedRevenue''"
| "concept_text FINANCIAL_FORECAST_REVENUE = ''financial.forecastRevenue''"
| "concept_text FINANCIAL_ESTIMATE_TO_COMPLETE = ''financial.estimateToComplete''"
| "concept_text FINANCIAL_FINANCIAL_PERIOD = ''financial.financialPeriod''"
| "concept_text FINANCIAL_INVOICE_STATUS = ''financial.invoiceStatus''"
| "concept_text DELIVERY_PLANNED_WORK = ''delivery.plannedWork''"
| "concept_text DELIVERY_COMPLETED_WORK = ''delivery.completedWork''"
| "concept_text DELIVERY_VELOCITY = ''delivery.velocity''"
| "concept_text DELIVERY_DEFECT_COUNT = ''delivery.defectCount''"
| "concept_text DELIVERY_REWORK_EFFORT = ''delivery.reworkEffort''"
| "concept_text DELIVERY_RELEASE_EVENT = ''delivery.releaseEvent''"
| "concept_text DELIVERY_MILESTONE_STATUS = ''delivery.milestoneStatus''"
| "concept_text RESOURCE_PLANNED_EFFORT = ''resource.plannedEffort''"
| "concept_text RESOURCE_ACTUAL_EFFORT = ''resource.actualEffort''"
| "concept_text RESOURCE_STAFFING = ''resource.staffing''"
| "concept_text RESOURCE_COST_RATE = ''resource.costRate''"
| "concept_text ASSURANCE_REVIEW_DATE = ''assurance.reviewDate''"
| "concept_text ASSURANCE_FINDING = ''assurance.finding''"
| "concept_text ASSURANCE_ACTION_STATUS = ''assurance.actionStatus''"
| "concept_text STATUS_REPORTED_RAG = ''status.reportedRag''"
| "concept_text DOCUMENT_CONTRACT_TERM = ''document.contractTerm''"
| "concept_text DOCUMENT_ACCEPTANCE_CRITERIA = ''document.acceptanceCriteria''"

definition ALL_CONCEPTS :: "canonical_concept list" where
  "ALL_CONCEPTS = [
     CONTRACT_SOLD_VALUE, CONTRACT_EXECUTED_CHANGE, CONTRACT_PENDING_CHANGE, CONTRACT_PAYMENT_MILESTONE,
     COMMERCIAL_OPPORTUNITY, COMMERCIAL_ACCOUNT_OWNERSHIP, FINANCIAL_ACTUAL_COST, FINANCIAL_RECOGNISED_REVENUE,
     FINANCIAL_FORECAST_REVENUE, FINANCIAL_ESTIMATE_TO_COMPLETE, FINANCIAL_FINANCIAL_PERIOD, FINANCIAL_INVOICE_STATUS,
     DELIVERY_PLANNED_WORK, DELIVERY_COMPLETED_WORK, DELIVERY_VELOCITY, DELIVERY_DEFECT_COUNT,
     DELIVERY_REWORK_EFFORT, DELIVERY_RELEASE_EVENT, DELIVERY_MILESTONE_STATUS, RESOURCE_PLANNED_EFFORT,
     RESOURCE_ACTUAL_EFFORT, RESOURCE_STAFFING, RESOURCE_COST_RATE, ASSURANCE_REVIEW_DATE,
     ASSURANCE_FINDING, ASSURANCE_ACTION_STATUS, STATUS_REPORTED_RAG, DOCUMENT_CONTRACT_TERM,
     DOCUMENT_ACCEPTANCE_CRITERIA]"

fun CONCEPT_LABEL :: "canonical_concept \<Rightarrow> string" where
  "CONCEPT_LABEL CONTRACT_SOLD_VALUE = ''As-sold contract value''"
| "CONCEPT_LABEL CONTRACT_EXECUTED_CHANGE = ''Executed change requests''"
| "CONCEPT_LABEL CONTRACT_PENDING_CHANGE = ''Pending change requests''"
| "CONCEPT_LABEL CONTRACT_PAYMENT_MILESTONE = ''Payment milestones''"
| "CONCEPT_LABEL COMMERCIAL_OPPORTUNITY = ''Commercial opportunity''"
| "CONCEPT_LABEL COMMERCIAL_ACCOUNT_OWNERSHIP = ''Account ownership''"
| "CONCEPT_LABEL FINANCIAL_ACTUAL_COST = ''Actual cost incurred''"
| "CONCEPT_LABEL FINANCIAL_RECOGNISED_REVENUE = ''Recognised revenue''"
| "CONCEPT_LABEL FINANCIAL_FORECAST_REVENUE = ''Forecast revenue''"
| "CONCEPT_LABEL FINANCIAL_ESTIMATE_TO_COMPLETE = ''Estimate to complete''"
| "CONCEPT_LABEL FINANCIAL_FINANCIAL_PERIOD = ''Financial period close''"
| "CONCEPT_LABEL FINANCIAL_INVOICE_STATUS = ''Invoicing and receivables''"
| "CONCEPT_LABEL DELIVERY_PLANNED_WORK = ''Planned work''"
| "CONCEPT_LABEL DELIVERY_COMPLETED_WORK = ''Completed work''"
| "CONCEPT_LABEL DELIVERY_VELOCITY = ''Delivery velocity''"
| "CONCEPT_LABEL DELIVERY_DEFECT_COUNT = ''Defects''"
| "CONCEPT_LABEL DELIVERY_REWORK_EFFORT = ''Rework effort''"
| "CONCEPT_LABEL DELIVERY_RELEASE_EVENT = ''Releases''"
| "CONCEPT_LABEL DELIVERY_MILESTONE_STATUS = ''Milestone status''"
| "CONCEPT_LABEL RESOURCE_PLANNED_EFFORT = ''Planned effort''"
| "CONCEPT_LABEL RESOURCE_ACTUAL_EFFORT = ''Actual effort''"
| "CONCEPT_LABEL RESOURCE_STAFFING = ''Staffing and pyramid''"
| "CONCEPT_LABEL RESOURCE_COST_RATE = ''Resource cost rates''"
| "CONCEPT_LABEL ASSURANCE_REVIEW_DATE = ''Assurance review date''"
| "CONCEPT_LABEL ASSURANCE_FINDING = ''Assurance findings''"
| "CONCEPT_LABEL ASSURANCE_ACTION_STATUS = ''Assurance action status''"
| "CONCEPT_LABEL STATUS_REPORTED_RAG = ''Reported delivery status''"
| "CONCEPT_LABEL DOCUMENT_CONTRACT_TERM = ''Contractual terms''"
| "CONCEPT_LABEL DOCUMENT_ACCEPTANCE_CRITERIA = ''Acceptance criteria''"
datatype conflict_behaviour = DISCLOSE | IGNORE

record authority_grant =
  ag_sourceId :: string
  ag_concept :: canonical_concept
  ag_authority :: authority_class
  ag_priority :: int
  ag_conflictBehaviour :: conflict_behaviour
  ag_rationale :: string

text \<open>\<open>AuthorityConflict\<close>: the concept and the two sources.\<close>

datatype authority_error = AuthorityConflict canonical_concept string string

text \<open>The state of a \<open>SourceAuthorityRegistry\<close>.\<close>

type_synonym authority_registry = "authority_grant list"

definition grant_key :: "authority_grant \<Rightarrow> canonical_concept \<times> string" where
  "grant_key g = (ag_concept g, ag_sourceId g)"

definition put_grant :: "authority_grant \<Rightarrow> authority_registry \<Rightarrow> authority_registry" where
  "put_grant grant gs = put_where (\<lambda>g. ag_concept g = ag_concept grant \<and> ag_sourceId g = ag_sourceId grant) grant gs"

definition register :: "authority_grant \<Rightarrow> authority_registry \<Rightarrow> authority_error + authority_registry" where
  "register grant gs =
     (if ag_authority grant = AUTHORITATIVE
      then (case find (\<lambda>g. ag_concept g = ag_concept grant \<and> ag_authority g = AUTHORITATIVE
                     \<and> ag_priority g = ag_priority grant \<and> ag_sourceId g \<noteq> ag_sourceId grant) gs of
              Some clash \<Rightarrow> Inl (AuthorityConflict (ag_concept grant) (ag_sourceId clash) (ag_sourceId grant))
            | None \<Rightarrow> Inr (put_grant grant gs))
      else Inr (put_grant grant gs))"

fun registerAll :: "authority_grant list \<Rightarrow> authority_registry \<Rightarrow> authority_error + authority_registry" where
  "registerAll [] gs = Inr gs"
| "registerAll (x # xs) gs = and_then (register x gs) (registerAll xs)"

definition grant_order :: "(string \<Rightarrow> string \<Rightarrow> int) \<Rightarrow> authority_grant \<Rightarrow> authority_grant \<Rightarrow> int" where
  "grant_order collate a b =
     (if outranks (ag_authority a) (ag_authority b) then - 1
      else if outranks (ag_authority b) (ag_authority a) then 1
      else if ag_priority a - ag_priority b \<noteq> 0 then ag_priority a - ag_priority b
      else collate (ag_sourceId a) (ag_sourceId b))"

definition grants_for :: "(string \<Rightarrow> string \<Rightarrow> int) \<Rightarrow> authority_registry \<Rightarrow> canonical_concept \<Rightarrow> authority_grant list" where
  "grants_for collate gs concept = sort_by (grant_order collate) (filter (\<lambda>g. ag_concept g = concept) gs)"

definition governingSource :: "(string \<Rightarrow> string \<Rightarrow> int) \<Rightarrow> authority_registry \<Rightarrow> canonical_concept \<Rightarrow> authority_grant option" where
  "governingSource collate gs concept = (case grants_for collate gs concept of [] \<Rightarrow> None | g # _ \<Rightarrow> Some g)"

definition authorityOf :: "authority_registry \<Rightarrow> string \<Rightarrow> canonical_concept \<Rightarrow> authority_class" where
  "authorityOf gs sourceId concept =
     (case find (\<lambda>g. ag_sourceId g = sourceId \<and> ag_concept g = concept) gs of
        Some g \<Rightarrow> ag_authority g | None \<Rightarrow> UNVERIFIED)"

definition grantsBySource :: "authority_registry \<Rightarrow> string \<Rightarrow> authority_grant list" where
  "grantsBySource gs sourceId = filter (\<lambda>g. ag_sourceId g = sourceId) gs"

section \<open>One identifier, one project\<close>

interpretation hub: keyed_registry mapping_key "\<lambda>m. put_where (\<lambda>x. mapping_key x = mapping_key m) m"
  by unfold_locales (simp_all only: put_where_keys put_where_entries)

interpretation grants: keyed_registry grant_key put_grant
proof -
  have eq: "put_grant g = put_where (\<lambda>x. grant_key x = grant_key g) g" for g
    by (rule ext) (simp add: put_grant_def grant_key_def)
  show "keyed_registry grant_key put_grant"
    by unfold_locales (simp_all only: eq put_where_keys put_where_entries)
qed

definition hub_ok :: "identity_hub \<Rightarrow> bool" where
  "hub_ok hub \<longleftrightarrow> distinct (map mapping_key hub) \<and> list_all (\<lambda>m. normalise_id (im_externalId m) \<noteq> '''') hub"

lemma declare_eq: "declare_mapping m hub =
    (if normalise_id (im_externalId m) = '''' then hub else put_where (\<lambda>x. mapping_key x = mapping_key m) m hub)"
  by (simp add: declare_mapping_def mapping_key_def)

lemma declare_keeps: "hub_ok hub \<Longrightarrow> hub_ok (declare_mapping m hub)"
  using hub.put_distinct [of hub m] hub.put_entries [of hub m] by (auto simp: hub_ok_def declare_eq list_all_iff)

lemma declareAll_keeps: "hub_ok hub \<Longrightarrow> hub_ok (declareAll ms hub)"
  by (induction ms arbitrary: hub) (simp_all add: declare_keeps)

lemma hub_ok_Nil [simp]: "hub_ok []"
  by (simp add: hub_ok_def)

lemma resolve_ok:
  assumes "hub_ok hub"
  shows "resolve hub system x = (if normalise_id x = '''' then UNRESOLVED BLANK 0
    else case find (\<lambda>m. mapping_key m = (system, normalise_id x)) hub of
           None \<Rightarrow> UNRESOLVED NOT_MAPPED 0 | Some m \<Rightarrow> RESOLVED (im_projectId m) m)"
proof -
  have eq: "(\<lambda>m. im_system m = system \<and> normalise_id (im_externalId m) = normalise_id x)
      = (\<lambda>m. mapping_key m = (system, normalise_id x))" by (simp add: mapping_key_def)
  have "distinct (map mapping_key hub)" using assms by (simp add: hub_ok_def)
  from hub.filter_key [OF this] show ?thesis
    unfolding resolve_def Let_def eq by (simp split: option.splits)
qed

text \<open>The contract of the hub: a finite map from a system and a folded identifier to the mapping declared last.\<close>

definition declare_spec :: "identity_mapping \<Rightarrow> (source_system \<times> string \<rightharpoonup> identity_mapping) \<Rightarrow> (source_system \<times> string \<rightharpoonup> identity_mapping)" where
  "declare_spec m M = (if normalise_id (im_externalId m) = '''' then M else M(mapping_key m \<mapsto> m))"

definition hub_abs :: "identity_hub \<Rightarrow> (source_system \<times> string \<rightharpoonup> identity_mapping)" where
  "hub_abs hub k = find (\<lambda>m. mapping_key m = k) hub"

lemma declare_refines: "hub_ok hub \<Longrightarrow> hub_abs (declare_mapping m hub) = declare_spec m (hub_abs hub)"
  by (rule ext) (simp add: hub_abs_def declare_eq declare_spec_def hub_ok_def hub.find_put)

lemma declareAll_refines: "hub_ok hub \<Longrightarrow> hub_abs (declareAll ms hub) = fold declare_spec ms (hub_abs hub)"
  by (induction ms arbitrary: hub) (simp_all add: declare_keeps declare_refines)


text \<open>The identity hub refines a finite map. After any sequence of declarations, an identifier resolves to
  the project of the mapping declared last for its system and folded spelling, is \<open>BLANK\<close> when nothing is left
  after folding, and \<open>NOT_MAPPED\<close> otherwise. It is never \<open>AMBIGUOUS\<close>: a second declaration for the same
  identifier replaces the first.\<close>

theorem hub_refines_map:
  "resolve (declareAll ms []) system x = (if normalise_id x = '''' then UNRESOLVED BLANK 0
     else case fold declare_spec ms Map.empty (system, normalise_id x) of
            None \<Rightarrow> UNRESOLVED NOT_MAPPED 0 | Some m \<Rightarrow> RESOLVED (im_projectId m) m)"
proof -
  have ok: "hub_ok (declareAll ms [])" by (simp add: declareAll_keeps)
  have "hub_abs [] = Map.empty" by (rule ext) (simp add: hub_abs_def)
  then have "hub_abs (declareAll ms []) = fold declare_spec ms Map.empty" by (simp add: declareAll_refines)
  then have "find (\<lambda>m. mapping_key m = (system, normalise_id x)) (declareAll ms [])
      = fold declare_spec ms Map.empty (system, normalise_id x)" by (metis hub_abs_def)
  then show ?thesis by (simp only: resolve_ok [OF ok])
qed

text \<open>A conflicting declaration is not reported: the later one wins.\<close>

lemma conflicting_declaration_overwrites:
  "resolve (declareAll [\<lparr>im_projectId = ''P1'', im_system = ALM, im_externalId = ''ATLAS'', im_declaredBy = ''a''\<rparr>,
      \<lparr>im_projectId = ''P2'', im_system = ALM, im_externalId = '' atlas '', im_declaredBy = ''b''\<rparr>] []) ALM ''Atlas''
    = RESOLVED ''P2'' \<lparr>im_projectId = ''P2'', im_system = ALM, im_externalId = '' atlas '', im_declaredBy = ''b''\<rparr>"
  by code_simp

section \<open>One governing source\<close>

definition registry_ok :: "authority_registry \<Rightarrow> bool" where
  "registry_ok gs \<longleftrightarrow> distinct (map grant_key gs)
     \<and> (\<forall>g\<in>set gs. \<forall>h\<in>set gs. ag_concept g = ag_concept h \<and> ag_authority g = AUTHORITATIVE
          \<and> ag_authority h = AUTHORITATIVE \<and> ag_priority g = ag_priority h \<longrightarrow> g = h)"

lemma registry_ok_Nil [simp]: "registry_ok []"
  by (simp add: registry_ok_def)

lemma register_cases:
  assumes "register g gs = Inr gs'"
  shows "gs' = put_grant g gs \<and> (ag_authority g = AUTHORITATIVE \<longrightarrow> (\<forall>h\<in>set gs. ag_concept h = ag_concept g
    \<and> ag_authority h = AUTHORITATIVE \<and> ag_priority h = ag_priority g \<longrightarrow> ag_sourceId h = ag_sourceId g))"
  using assms by (auto simp: register_def find_None_iff split: if_splits option.splits)

lemma register_keeps:
  assumes "registry_ok gs" "register g gs = Inr gs'"
  shows "registry_ok gs'"
proof -
  have d: "distinct (map grant_key gs)" using assms(1) by (simp add: registry_ok_def)
  have gs': "gs' = put_grant g gs" and clash: "\<And>h. ag_authority g = AUTHORITATIVE \<Longrightarrow> h \<in> set gs \<Longrightarrow> ag_concept h = ag_concept g
    \<Longrightarrow> ag_authority h = AUTHORITATIVE \<Longrightarrow> ag_priority h = ag_priority g \<Longrightarrow> ag_sourceId h = ag_sourceId g"
    using register_cases [OF assms(2)] by blast+
  have other: "x = y" if "x \<in> set gs'" "y \<in> set gs'" "ag_concept x = ag_concept y" "ag_authority x = AUTHORITATIVE"
    "ag_authority y = AUTHORITATIVE" "ag_priority x = ag_priority y" for x y
  proof -
    have "x = g \<or> x \<in> set gs \<and> grant_key x \<noteq> grant_key g" "y = g \<or> y \<in> set gs \<and> grant_key y \<noteq> grant_key g"
      using that(1,2) unfolding gs' grants.put_entries [OF d] by blast+
    then show ?thesis
      using that(3-6) clash [of x] clash [of y] assms(1) by (auto simp: registry_ok_def grant_key_def)
  qed
  show ?thesis using other grants.put_distinct [OF d] unfolding registry_ok_def gs' by blast
qed

lemma registerAll_keeps: "registry_ok gs \<Longrightarrow> registerAll xs gs = Inr gs' \<Longrightarrow> registry_ok gs'"
  by (induction xs arbitrary: gs) (auto simp: and_then_Inr_iff dest: register_keeps)

definition authority_index :: "authority_class \<Rightarrow> int" where
  "authority_index a = index_of a AUTHORITY_ORDER"

lemma grant_order_lex: "grant_order collate = cmp_lex (cmp_key (authority_index \<circ> ag_authority) cmp_ord)
    (cmp_lex (cmp_key ag_priority (\<lambda>a b. a - b)) (cmp_key ag_sourceId collate))"
  by (rule ext)+ (simp add: grant_order_def cmp_lex_def cmp_key_def cmp_ord_def outranks_def authority_index_def)

lemma grant_comparator: "comparator collate \<Longrightarrow> comparator (grant_order collate)"
proof -
  assume c: "comparator collate"
  have m: "comparator (\<lambda>a b. a - b :: int)" by unfold_locales (auto simp: sgn_if)
  show ?thesis unfolding grant_order_lex
    by (intro comparator_lex comparator_key m c natural.comparator_axioms)
qed

lemma grant_tie: "grant_order collate a b = 0 \<Longrightarrow> ag_priority a = ag_priority b \<and> collate (ag_sourceId a) (ag_sourceId b) = 0
    \<and> \<not> outranks (ag_authority a) (ag_authority b) \<and> \<not> outranks (ag_authority b) (ag_authority a)"
  by (auto simp: grant_order_def split: if_splits)

lemma governing_first:
  assumes "comparator collate" "governingSource collate gs c = Some g"
  shows "g \<in> set gs \<and> ag_concept g = c \<and> (\<forall>h\<in>set gs. ag_concept h = c \<longrightarrow> grant_order collate g h \<le> 0)"
proof -
  obtain rest where r: "grants_for collate gs c = g # rest"
    using assms(2) by (auto simp: governingSource_def split: list.splits)
  have sorted: "sorted_wrt (\<lambda>x y. grant_order collate x y \<le> 0) (g # rest)"
    using comparator.sorted_sort_by [OF grant_comparator [OF assms(1)], of "filter (\<lambda>g. ag_concept g = c) gs"] r
    by (simp add: grants_for_def)
  have set: "set (g # rest) = {h \<in> set gs. ag_concept h = c}"
    unfolding r [symmetric] by (simp add: grants_for_def)
  have refl: "grant_order collate g g = 0"
    using grant_comparator [OF assms(1)] by (rule comparator.refl)
  have "grant_order collate g h \<le> 0" if "h \<in> set gs" "ag_concept h = c" for h
  proof -
    have "h \<in> set (g # rest)" using that set by blast
    then show ?thesis using sorted refl by auto
  qed
  moreover have "g \<in> set gs \<and> ag_concept g = c" using set by (metis (mono_tags, lifting) list.set_intros(1) mem_Collect_eq)
  ultimately show ?thesis by blast
qed

lemma top_rank: "a = AUTHORITATIVE \<or> outranks AUTHORITATIVE a"
  by (cases a) (simp_all add: outranks_def AUTHORITY_ORDER_def index_of_def)

lemma put_fresh: "\<not> list_ex p xs \<Longrightarrow> put_where p x xs = xs @ [x]"
  by (induction xs) auto

lemma registerAll_fresh:
  "distinct (map grant_key (gs @ xs)) \<Longrightarrow> registerAll xs gs = Inr gs' \<Longrightarrow> gs' = gs @ xs"
proof (induction xs arbitrary: gs)
  case (Cons x xs)
  have "\<not> list_ex (\<lambda>g. ag_concept g = ag_concept x \<and> ag_sourceId g = ag_sourceId x) gs"
    using Cons.prems(1) by (auto simp: list_ex_iff grant_key_def image_iff)
  then have "put_grant x gs = gs @ [x]" by (simp add: put_grant_def put_fresh)
  moreover obtain gs1 where "register x gs = Inr gs1" "registerAll xs gs1 = Inr gs'"
    using Cons.prems(2) by (auto simp: and_then_Inr_iff)
  moreover have "gs1 = put_grant x gs" using register_cases calculation(2) by blast
  ultimately show ?case using Cons.IH [of "gs @ [x]"] Cons.prems(1) by simp
qed simp

text \<open>C25: the governing source of a concept is decided at registration. In a registry that accepted its grants, no
  source of the concept has a higher authority than the governing one, and where that is \<open>AUTHORITATIVE\<close> every
  other source has a lower authority or a later priority: the governing source has no tie.\<close>

theorem governing_source_decided:
  assumes "comparator collate" "registerAll xs [] = Inr gs" "governingSource collate gs c = Some g"
  shows "g \<in> set gs \<and> ag_concept g = c
    \<and> (\<forall>h\<in>set gs. ag_concept h = c \<longrightarrow> \<not> outranks (ag_authority h) (ag_authority g))
    \<and> (ag_authority g = AUTHORITATIVE \<longrightarrow> (\<forall>h\<in>set gs. ag_concept h = c \<and> h \<noteq> g \<longrightarrow>
         outranks AUTHORITATIVE (ag_authority h) \<or> (ag_authority h = AUTHORITATIVE \<and> ag_priority g < ag_priority h)))"
proof -
  have ok: "registry_ok gs" using registerAll_keeps [OF registry_ok_Nil assms(2)] .
  have g: "g \<in> set gs" "ag_concept g = c" and le: "\<And>h. h \<in> set gs \<Longrightarrow> ag_concept h = c \<Longrightarrow> grant_order collate g h \<le> 0"
    using governing_first [OF assms(1,3)] by blast+
  have "\<not> outranks (ag_authority h) (ag_authority g)" if "h \<in> set gs" "ag_concept h = c" for h
    using le [OF that] by (auto simp: grant_order_def outranks_def split: if_splits)
  moreover have "outranks AUTHORITATIVE (ag_authority h) \<or> (ag_authority h = AUTHORITATIVE \<and> ag_priority g < ag_priority h)"
    if "ag_authority g = AUTHORITATIVE" "h \<in> set gs" "ag_concept h = c" "h \<noteq> g" for h
  proof (cases "ag_authority h = AUTHORITATIVE")
    case True
    then have "ag_priority g \<noteq> ag_priority h" using ok g that unfolding registry_ok_def by metis
    moreover have "ag_priority g \<le> ag_priority h"
      using le [OF that(2,3)] that(1) True by (auto simp: grant_order_def outranks_def split: if_splits)
    ultimately show ?thesis using True by simp
  next
    case False
    then show ?thesis using top_rank [of "ag_authority h"] by blast
  qed
  ultimately show ?thesis using g by blast
qed

text \<open>The order in which grants are registered does not matter. Two registries that accepted the same grants,
  one for each source and concept, list the sources of every concept in the same order, so they govern alike.\<close>

theorem registration_order_irrelevant:
  assumes "strict_comparator collate" "registerAll xs [] = Inr gs" "registerAll ys [] = Inr gs'" "mset xs = mset ys"
    and "distinct (map grant_key xs)"
  shows "grants_for collate gs c = grants_for collate gs' c \<and> governingSource collate gs c = governingSource collate gs' c"
proof -
  have cmp: "comparator collate" using assms(1) by (simp add: strict_comparator_def)
  have "mset (map grant_key xs) = mset (map grant_key ys)" using assms(4) by simp
  then have "distinct (map grant_key ys)" using assms(5) mset_eq_imp_distinct_iff by blast
  then have eq: "gs = xs" "gs' = ys" using registerAll_fresh [of "[]"] assms(2,3,5) by simp_all
  have same: "x = y" if "x \<in> set (filter (\<lambda>g. ag_concept g = c) xs)" "y \<in> set (filter (\<lambda>g. ag_concept g = c) xs)"
    "grant_order collate x y = 0" for x y
  proof -
    have "ag_sourceId x = ag_sourceId y" using grant_tie [OF that(3)] strict_comparator.eq [OF assms(1)] by blast
    then have "grant_key x = grant_key y" using that(1,2) by (simp add: grant_key_def)
    then show ?thesis using assms(5) that(1,2) by (auto simp: distinct_map inj_on_def)
  qed
  have "mset (filter (\<lambda>g. ag_concept g = c) xs) = mset (filter (\<lambda>g. ag_concept g = c) ys)" using assms(4) by simp
  then have "grants_for collate xs c = grants_for collate ys c"
    unfolding grants_for_def using same by (rule comparator.sort_by_determined [OF grant_comparator [OF cmp]])
  then show ?thesis by (simp add: eq governingSource_def)
qed

definition sample_grants :: "authority_grant list" where
  "sample_grants =
     [\<lparr>ag_sourceId = ''ERP'', ag_concept = FINANCIAL_ACTUAL_COST, ag_authority = AUTHORITATIVE, ag_priority = 1,
        ag_conflictBehaviour = DISCLOSE, ag_rationale = ''ledger''\<rparr>,
      \<lparr>ag_sourceId = ''PSA'', ag_concept = FINANCIAL_ACTUAL_COST, ag_authority = SUPPLEMENTAL, ag_priority = 1,
        ag_conflictBehaviour = DISCLOSE, ag_rationale = ''timesheets''\<rparr>]"

lemma sample_registered: "registerAll sample_grants [] = Inr sample_grants" "registerAll (rev sample_grants) [] = Inr (rev sample_grants)"
  by (simp_all add: sample_grants_def register_def put_grant_def)

theorem governing_source_decided_witness:
  "hd sample_grants \<in> set sample_grants \<and> \<not> outranks SUPPLEMENTAL (ag_authority (hd sample_grants))"
proof -
  have "governingSource cmp_ord sample_grants FINANCIAL_ACTUAL_COST = Some (hd sample_grants)" by code_simp
  from governing_source_decided [OF natural.comparator_axioms sample_registered(1) this] show ?thesis
    by (simp add: sample_grants_def)
qed

theorem registration_order_irrelevant_witness:
  "governingSource cmp_ord sample_grants FINANCIAL_ACTUAL_COST = governingSource cmp_ord (rev sample_grants) FINANCIAL_ACTUAL_COST"
proof -
  have "distinct (map grant_key sample_grants)" by (simp add: sample_grants_def grant_key_def)
  with registration_order_irrelevant [OF natural.strict_comparator_axioms sample_registered] show ?thesis by simp
qed

text \<open>The vocabulary of concepts is closed and complete: the list of all concepts names each concept exactly
  once, every concept has a label, and no two concepts share their text.\<close>

theorem concepts_closed:
  "distinct ALL_CONCEPTS \<and> set ALL_CONCEPTS = UNIV \<and> CONCEPT_LABEL c \<noteq> ''''
    \<and> (concept_text c = concept_text d \<longleftrightarrow> c = d)"
proof -
  have all: "c \<in> set ALL_CONCEPTS" for c by (cases c) (simp_all add: ALL_CONCEPTS_def)
  have "distinct (map concept_text ALL_CONCEPTS)" by (simp add: ALL_CONCEPTS_def)
  then have "inj_on concept_text (set ALL_CONCEPTS)" and d: "distinct ALL_CONCEPTS" by (simp_all add: distinct_map)
  then have "concept_text c = concept_text d \<longleftrightarrow> c = d" using all by (metis inj_onD)
  moreover have "CONCEPT_LABEL c \<noteq> ''''" by (cases c) simp_all
  ultimately show ?thesis using all d by blast
qed

end
