(* ===== verification/Source_Conflicts.thy ===== *)
theory Source_Conflicts
  imports Source_Identity Decimal_Reference
begin

text \<open>
  \<open>contexts/integration/internal/staging.ts\<close> and \<open>conflict.ts\<close>: staged records, findings and reconciliation, and
  the engine that discloses disagreement between sources. A policy text that is no decimal makes the comparison
  throw, so the comparison and what uses it return an error value.
\<close>

section \<open>Staging\<close>

datatype validation_code =
    MISSING_REQUIRED_FIELD | INVALID_DATA_TYPE | INVALID_DATE
  | DUPLICATE_PROJECT_ID | DUPLICATE_PERIOD_RECORD | IMPOSSIBLE_PERCENTAGE
  | PROHIBITED_NEGATIVE_AMOUNT | CURRENCY_MISMATCH | UNKNOWN_PROJECT
  | UNKNOWN_ENUM_VALUE | SCHEMA_DRIFT | UNRESOLVED_IDENTITY
  | AMBIGUOUS_MAPPING | FORMULA_CELL_REJECTED

fun VALIDATION_MESSAGE :: "validation_code \<Rightarrow> string" where
  "VALIDATION_MESSAGE MISSING_REQUIRED_FIELD = ''A field the mapping marks as required was empty.''"
| "VALIDATION_MESSAGE INVALID_DATA_TYPE = ''The value is not a number where a number is required.''"
| "VALIDATION_MESSAGE INVALID_DATE = ''The value is not a date this pipeline will accept (ISO 8601, or a recognised export format).''"
| "VALIDATION_MESSAGE DUPLICATE_PROJECT_ID = ''The same project appears more than once in a file that permits one row per project.''"
| "VALIDATION_MESSAGE DUPLICATE_PERIOD_RECORD = ''The same project and period appear more than once.''"
| "VALIDATION_MESSAGE IMPOSSIBLE_PERCENTAGE = ''A percentage outside the range this concept permits.''"
| "VALIDATION_MESSAGE PROHIBITED_NEGATIVE_AMOUNT = ''A negative amount where the concept cannot be negative.''"
| "VALIDATION_MESSAGE CURRENCY_MISMATCH = ''The row states a currency the source is not registered to supply.''"
| "VALIDATION_MESSAGE UNKNOWN_PROJECT = ''The project identifier does not resolve to a project in this portfolio.''"
| "VALIDATION_MESSAGE UNKNOWN_ENUM_VALUE = ''A categorical value outside the governed vocabulary for that field.''"
| "VALIDATION_MESSAGE SCHEMA_DRIFT = ''The source structure no longer matches the approved mapping.''"
| "VALIDATION_MESSAGE UNRESOLVED_IDENTITY = ''No declared identity mapping links this source identifier to a project.''"
| "VALIDATION_MESSAGE AMBIGUOUS_MAPPING = ''More than one declared mapping claims this source identifier.''"
| "VALIDATION_MESSAGE FORMULA_CELL_REJECTED = ''The cell holds a formula with no cached value; formulas are never evaluated.''"

record validation_finding =
  vf_code :: validation_code
  vf_field :: string
  vf_detail :: string

datatype disposition = ACCEPTED | QUARANTINED

record staged_record =
  sr_idempotencyKey :: string
  sr_sourceId :: string
  sr_naturalKey :: string
  sr_sourceVersion :: string
  sr_observedAt :: "string option"
  sr_receivedAt :: instant
  sr_rowNumber :: nat
  sr_raw :: "(string, string) js_map"
  sr_projectId :: "string option"
  sr_unresolvedReason :: "unresolved_reason option"
  sr_findings :: "validation_finding list"
  sr_disposition :: disposition

definition idempotencyKey :: "string \<Rightarrow> string \<Rightarrow> string \<Rightarrow> string" where
  "idempotencyKey sourceId naturalKey sourceVersion = sourceId @ ''::'' @ naturalKey @ ''::'' @ sourceVersion"

datatype observation_kind = NUMERIC | CATEGORICAL

record concept_observation =
  co_sourceId :: string
  co_projectId :: string
  co_concept :: canonical_concept
  co_period :: string
  co_value :: string
  co_kind :: observation_kind
  co_authority :: authority_class
  co_dataContext :: data_context
  co_observedAt :: "string option"
  co_sourceVersion :: string

definition INGESTION_VERSION :: string where "INGESTION_VERSION = ''INGEST-v1''"

record reconciliation =
  rc_declaredRecordCount :: "nat option"
  rc_stagedRecordCount :: nat
  rc_reconciled :: bool
  rc_reason :: "string option"

definition reconcile :: "nat option \<Rightarrow> staged_record list \<Rightarrow> reconciliation" where
  "reconcile declaredRecordCount staged =
     (case declaredRecordCount of
        None \<Rightarrow> \<lparr>rc_declaredRecordCount = None, rc_stagedRecordCount = length staged, rc_reconciled = True,
                  rc_reason = Some ''The source declared no control total; record-count reconciliation did not run.''\<rparr>
      | Some n \<Rightarrow>
          let ok = (n = length staged) in
          \<lparr>rc_declaredRecordCount = Some n, rc_stagedRecordCount = length staged, rc_reconciled = ok,
            rc_reason = (if ok then None
              else Some (''The source declared '' @ show_nat n @ '' records and '' @ show_nat (length staged) @ '' were staged. '' @
                ''The batch is quarantined whole; partial application is prohibited (ADR-0008 section 6).''))\<rparr>)"

section \<open>Materiality\<close>

record materiality_policy =
  mp_relative :: string
  mp_absoluteFloor :: string

definition POC_MATERIALITY :: materiality_policy where
  "POC_MATERIALITY = \<lparr>mp_relative = ''0.005'', mp_absoluteFloor = ''1''\<rparr>"

text \<open>\<open>toUpperCase\<close> on ASCII.\<close>

definition upper_char :: "char \<Rightarrow> char" where
  "upper_char c = (let n = of_char c :: nat in if 97 \<le> n \<and> n \<le> 122 then char_of (n - 32) else c)"

definition isMaterial :: "decimal_js \<Rightarrow> materiality_policy \<Rightarrow> concept_observation \<Rightarrow> concept_observation \<Rightarrow> decimal_error + bool" where
  "isMaterial dj policy a b =
     (if co_kind a = CATEGORICAL \<or> co_kind b = CATEGORICAL
      then Inr (map upper_char (trim (co_value a)) \<noteq> map upper_char (trim (co_value b)))
      else case qty (co_value a) of
        Inl _ \<Rightarrow> Inr (trim (co_value a) \<noteq> trim (co_value b))
      | Inr av \<Rightarrow> (case qty (co_value b) of
          Inl _ \<Rightarrow> Inr (trim (co_value a) \<noteq> trim (co_value b))
        | Inr bv \<Rightarrow>
            let difference = qAbs dj (qSub dj av bv) in
            and_then (qty (mp_absoluteFloor policy)) (\<lambda>fl.
            if qCompare difference fl \<le> 0 then Inr False
            else let base = qAbs dj av in
              if qCompare base Q_ZERO = 0 then Inr True
              else case qDiv dj difference base of
                None \<Rightarrow> Inr True
              | Some relative \<Rightarrow> and_then (qty (mp_relative policy)) (\<lambda>limit. Inr (qCompare relative limit > 0)))))"

section \<open>The conflict engine\<close>

record conflict_entry =
  ce_sourceId :: string
  ce_authority :: authority_class
  ce_value :: string
  ce_observedAt :: "string option"
  ce_sourceVersion :: string

record source_conflict =
  sx_conflictId :: string
  sx_projectId :: string
  sx_concept :: canonical_concept
  sx_period :: string
  sx_governedSourceId :: string
  sx_governedAuthority :: authority_class
  sx_governedValue :: string
  sx_entries :: "conflict_entry list"
  sx_unresolvedAuthority :: bool

definition toEntry :: "concept_observation \<Rightarrow> conflict_entry" where
  "toEntry x = \<lparr>ce_sourceId = co_sourceId x, ce_authority = co_authority x, ce_value = co_value x,
     ce_observedAt = co_observedAt x, ce_sourceVersion = co_sourceVersion x\<rparr>"

definition slot_key :: "concept_observation \<Rightarrow> string" where
  "slot_key x = co_projectId x @ ''|'' @ concept_text (co_concept x) @ ''|'' @ co_period x"

fun group_into :: "(string, concept_observation list) js_map \<Rightarrow> concept_observation list \<Rightarrow> (string, concept_observation list) js_map" where
  "group_into m [] = m"
| "group_into m (x # xs) =
     group_into (case js_get m (slot_key x) of
         None \<Rightarrow> js_set (slot_key x) [x] m
       | Some l \<Rightarrow> js_set (slot_key x) (l @ [x]) m) xs"

fun try_filter :: "('a \<Rightarrow> 'e + bool) \<Rightarrow> 'a list \<Rightarrow> 'e + 'a list" where
  "try_filter p [] = Inr []"
| "try_filter p (x # xs) = and_then (p x) (\<lambda>b. and_then (try_filter p xs) (\<lambda>ys. Inr (if b then x # ys else ys)))"

text \<open>\<open>key.replace(/[^a-zA-Z0-9]/g, '-')\<close>.\<close>

definition alnum :: "char \<Rightarrow> bool" where
  "alnum c = (let n = of_char c :: nat in (48 \<le> n \<and> n \<le> 57) \<or> (65 \<le> n \<and> n \<le> 90) \<or> (97 \<le> n \<and> n \<le> 122))"

definition authority_order :: "concept_observation \<Rightarrow> concept_observation \<Rightarrow> int" where
  "authority_order a b =
     (if outranks (co_authority a) (co_authority b) then - 1 else if outranks (co_authority b) (co_authority a) then 1 else 0)"

definition detect_group :: "decimal_js \<Rightarrow> materiality_policy \<Rightarrow> string \<times> concept_observation list \<Rightarrow> decimal_error + source_conflict option" where
  "detect_group dj policy kg =
     (if length (snd kg) < 2 then Inr None
      else case sort_by authority_order (snd kg) of
        [] \<Rightarrow> Inr None
      | governing # others \<Rightarrow>
          and_then (try_filter (\<lambda>x. if co_sourceId x \<noteq> co_sourceId governing then isMaterial dj policy governing x else Inr False) others)
            (\<lambda>disagreeing.
              if disagreeing = [] then Inr None
              else and_then (case others of
                      [] \<Rightarrow> Inr False
                    | second # _ \<Rightarrow> if outranks (co_authority governing) (co_authority second) then Inr False
                                   else isMaterial dj policy governing second)
                (\<lambda>unresolved.
                  Inr (Some \<lparr>sx_conflictId = ''cf-'' @ map (\<lambda>c. if alnum c then c else CHR ''-'') (fst kg),
                    sx_projectId = co_projectId governing, sx_concept = co_concept governing, sx_period = co_period governing,
                    sx_governedSourceId = co_sourceId governing, sx_governedAuthority = co_authority governing,
                    sx_governedValue = co_value governing, sx_entries = map toEntry (governing # disagreeing),
                    sx_unresolvedAuthority = unresolved\<rparr>))))"

definition detectConflicts :: "decimal_js \<Rightarrow> (string \<Rightarrow> string \<Rightarrow> int) \<Rightarrow> materiality_policy \<Rightarrow> concept_observation list \<Rightarrow> decimal_error + source_conflict list" where
  "detectConflicts dj collate policy observations =
     and_then (try_map (detect_group dj policy) (sort_by (\<lambda>a b. collate (fst a) (fst b)) (group_into [] observations)))
       (\<lambda>found. Inr (List.map_filter (\<lambda>x. x) found))"

section \<open>Keys\<close>

text \<open>The idempotency key tells records apart as long as source and version hold no colon.\<close>

lemma append_stop: "c \<notin> set a \<Longrightarrow> c \<notin> set b \<Longrightarrow> a @ c # x = b @ c # y \<Longrightarrow> a = b \<and> x = y"
  by (induction a arbitrary: b) (case_tac b; auto)+

lemma idempotency_key_injective:
  assumes "CHR '':'' \<notin> set s" "CHR '':'' \<notin> set s'" "CHR '':'' \<notin> set v" "CHR '':'' \<notin> set v'"
    and "idempotencyKey s k v = idempotencyKey s' k' v'"
  shows "s = s' \<and> k = k' \<and> v = v'"
proof -
  have "s @ CHR '':'' # (CHR '':'' # k @ ''::'' @ v) = s' @ CHR '':'' # (CHR '':'' # k' @ ''::'' @ v')"
    using assms(5) by (simp add: idempotencyKey_def)
  from append_stop [OF assms(1,2) this] have s: "s = s'" and r: "k @ ''::'' @ v = k' @ ''::'' @ v'" by simp_all
  have "rev v @ CHR '':'' # CHR '':'' # rev k = rev v' @ CHR '':'' # CHR '':'' # rev k'"
    using arg_cong [OF r, of rev] by simp
  from append_stop [OF _ _ this] assms(3,4) have "rev v = rev v'" "rev k = rev k'" by simp_all
  then show ?thesis using s by simp
qed

text \<open>With a colon in the source two different records share a key.\<close>

lemma idempotency_key_collides:
  "idempotencyKey ''erp'' ''eu::P1'' ''v1'' = idempotencyKey ''erp::eu'' ''P1'' ''v1''"
  by (simp add: idempotencyKey_def)

section \<open>Nothing is lost, nothing is invented\<close>

lemma try_filter_Inr:
  "try_filter p xs = Inr ys \<Longrightarrow> (\<forall>x\<in>set xs. \<exists>b. p x = Inr b) \<and> ys = filter (\<lambda>x. p x = Inr True) xs"
  by (induction xs arbitrary: ys) (auto simp: and_then_Inr_iff)

lemma group_get: "js_get (group_into m xs) k = (case js_get m k of
    None \<Rightarrow> (if filter (\<lambda>x. slot_key x = k) xs = [] then None else Some (filter (\<lambda>x. slot_key x = k) xs))
  | Some l \<Rightarrow> Some (l @ filter (\<lambda>x. slot_key x = k) xs))"
  by (induction m xs rule: group_into.induct) (auto simp: jsm.lookup_store split: option.splits)

lemma group_keys: "distinct (map fst m) \<Longrightarrow> distinct (map fst (group_into m xs))"
  by (induction m xs rule: group_into.induct) (auto simp: js_set_keys split: option.splits)

lemma group_entries: "(k, g) \<in> set (group_into [] xs) \<longleftrightarrow> g \<noteq> [] \<and> g = filter (\<lambda>x. slot_key x = k) xs"
proof -
  have "distinct (map fst (group_into [] xs))" by (rule group_keys) simp
  then have "(k, g) \<in> set (group_into [] xs) \<longleftrightarrow> js_get (group_into [] xs) k = Some g"
    by (simp add: js_get_def)
  then show ?thesis unfolding group_get by (auto simp: jsm.lookup_fresh)
qed

context comparator begin

text \<open>The stable sort puts the first of the least elements in front.\<close>

lemma hd_sort_by: "xs \<noteq> [] \<Longrightarrow> find (\<lambda>x. \<forall>y\<in>set xs. cmp x y \<le> 0) xs = Some (hd (sort_by cmp xs))"
proof (induction xs)
  case (Cons x xs)
  show ?case
  proof (cases "xs = []")
    case False
    then obtain h r where s: "sort_by cmp xs = h # r" by (metis length_sort_by length_0_conv list.exhaust)
    have IH: "find (\<lambda>z. \<forall>y\<in>set xs. cmp z y \<le> 0) xs = Some h" using Cons False s by simp
    then have h: "h \<in> set xs" "\<forall>y\<in>set xs. cmp h y \<le> 0" by (auto dest: find_SomeD)
    have least: "(\<forall>y\<in>set xs. cmp x y \<le> 0) \<longleftrightarrow> cmp x h \<le> 0" using h trans by blast
    have hd: "hd (sort_by cmp (x # xs)) = (if cmp x h \<le> 0 then x else h)" by (simp add: s)
    show ?thesis
    proof (cases "cmp x h \<le> 0")
      case True
      then show ?thesis unfolding hd using least by simp
    next
      case gt: False
      then have hx: "cmp h x \<le> 0" using total by blast
      have "cmp z x \<le> 0" if "\<forall>y\<in>set xs. cmp z y \<le> 0" for z using trans [OF _ hx, of z] that h(1) by blast
      then have "(\<forall>y\<in>set (x # xs). cmp z y \<le> 0) \<longleftrightarrow> (\<forall>y\<in>set xs. cmp z y \<le> 0)" for z by simp blast
      then have "find (\<lambda>z. \<forall>y\<in>set (x # xs). cmp z y \<le> 0) (x # xs) = find (\<lambda>z. \<forall>y\<in>set xs. cmp z y \<le> 0) xs"
        using gt least by (simp only: find.simps(2) if_False)
      then show ?thesis unfolding hd using IH gt by simp
    qed
  qed simp
qed simp

end

lemma authority_comparator: "comparator authority_order"
proof -
  have "authority_order = cmp_key (authority_index \<circ> co_authority) cmp_ord"
    by (rule ext)+ (simp add: authority_order_def cmp_key_def cmp_ord_def outranks_def authority_index_def)
  then show ?thesis using comparator_key [OF natural.comparator_axioms] by metis
qed

text \<open>The observation that governs a slot: the first of those no other outranks.\<close>

definition governing :: "concept_observation list \<Rightarrow> concept_observation option" where
  "governing xs = find (\<lambda>x. \<forall>y\<in>set xs. \<not> outranks (co_authority y) (co_authority x)) xs"

definition slot_of :: "concept_observation list \<Rightarrow> concept_observation \<Rightarrow> concept_observation list" where
  "slot_of obs x = filter (\<lambda>y. slot_key y = slot_key x) obs"

lemma order_le: "authority_order x y \<le> 0 \<longleftrightarrow> \<not> outranks (co_authority y) (co_authority x)"
  by (auto simp: authority_order_def outranks_def)

lemma governing_hd: "xs \<noteq> [] \<Longrightarrow> governing xs = Some (hd (sort_by authority_order xs))"
  using comparator.hd_sort_by [OF authority_comparator] by (simp add: governing_def order_le)

lemma detect_cases:
  assumes "detect_group dj policy (k, g) = Inr r" "governing g = Some v"
  shows "let ds = filter (\<lambda>x. co_sourceId x \<noteq> co_sourceId v \<and> isMaterial dj policy v x = Inr True) (tl (sort_by authority_order g)) in
    (ds = [] \<longrightarrow> r = None) \<and> (ds \<noteq> [] \<longrightarrow> (\<exists>c. r = Some c \<and> sx_governedSourceId c = co_sourceId v \<and> sx_governedAuthority c = co_authority v
       \<and> sx_governedValue c = co_value v \<and> sx_projectId c = co_projectId v \<and> sx_concept c = co_concept v
       \<and> sx_period c = co_period v \<and> sx_entries c = map toEntry (v # ds)))"
proof -
  have ne: "g \<noteq> []" using assms(2) by (auto simp: governing_def)
  then obtain rest where s: "sort_by authority_order g = v # rest"
    using assms(2) governing_hd [OF ne] by (metis length_sort_by length_0_conv list.collapse option.inject)
  have p: "(if co_sourceId x \<noteq> co_sourceId v then isMaterial dj policy v x else Inr False) = Inr True
      \<longleftrightarrow> co_sourceId x \<noteq> co_sourceId v \<and> isMaterial dj policy v x = Inr True" for x by simp
  show ?thesis
  proof (cases "length g < 2")
    case True
    then have "rest = []" using arg_cong [OF s, of length] by simp
    then show ?thesis using assms(1) True s by (simp add: detect_group_def)
  next
    case False
    then obtain ds where ds: "try_filter (\<lambda>x. if co_sourceId x \<noteq> co_sourceId v then isMaterial dj policy v x else Inr False) rest = Inr ds"
      using assms(1) s by (auto simp: detect_group_def and_then_Inr_iff)
    then have eq: "ds = filter (\<lambda>x. co_sourceId x \<noteq> co_sourceId v \<and> isMaterial dj policy v x = Inr True) (tl (sort_by authority_order g))"
      using try_filter_Inr [OF ds] by (simp only: p s list.sel)
    show ?thesis unfolding eq [symmetric] Let_def
      using assms(1) False s ds by (auto simp: detect_group_def and_then_Inr_iff split: if_splits)
  qed
qed

lemma try_map_each: "try_map f xs = Inr ys \<Longrightarrow> x \<in> set xs \<Longrightarrow> \<exists>y\<in>set ys. f x = Inr y"
  by (induction xs arbitrary: ys) (auto simp: and_then_Inr_iff)

lemma detected:
  assumes "detectConflicts dj collate policy obs = Inr cs"
  shows "x \<in> set obs \<Longrightarrow> \<exists>r. detect_group dj policy (slot_key x, slot_of obs x) = Inr r \<and> (\<forall>c. r = Some c \<longrightarrow> c \<in> set cs)"
    and "c \<in> set cs \<Longrightarrow> \<exists>x\<in>set obs. detect_group dj policy (slot_key x, slot_of obs x) = Inr (Some c)"
proof -
  let ?gs = "sort_by (\<lambda>a b. collate (fst a) (fst b)) (group_into [] obs)"
  obtain found where f: "try_map (detect_group dj policy) ?gs = Inr found" "cs = List.map_filter (\<lambda>x. x) found"
    using assms by (auto simp: detectConflicts_def and_then_Inr_iff)
  have mem: "c \<in> set cs \<longleftrightarrow> Some c \<in> set found" for c unfolding f(2)
    by (induction found) (auto simp: List.map_filter_simps split: option.splits)
  show "\<exists>r. detect_group dj policy (slot_key x, slot_of obs x) = Inr r \<and> (\<forall>c. r = Some c \<longrightarrow> c \<in> set cs)" if "x \<in> set obs" for x
  proof -
    have "(slot_key x, slot_of obs x) \<in> set ?gs" using that by (simp add: group_entries slot_of_def filter_empty_conv) blast
    from try_map_each [OF f(1) this] show ?thesis using mem by blast
  qed
  show "\<exists>x\<in>set obs. detect_group dj policy (slot_key x, slot_of obs x) = Inr (Some c)" if "c \<in> set cs" for c
  proof -
    have "Some c \<in> set found" using that mem by blast
    from try_map_Inr_set [OF f(1) this] obtain k g where "(k, g) \<in> set (group_into [] obs)" "detect_group dj policy (k, g) = Inr (Some c)"
      by auto
    moreover from this(1) obtain x where "x \<in> set obs" "slot_key x = k" "g = slot_of obs x"
      by (auto simp: group_entries slot_of_def filter_empty_conv)
    ultimately show ?thesis by blast
  qed
qed

lemma slot_tl:
  assumes "governing g = Some v" "x \<in> set g" "x \<noteq> v"
  shows "x \<in> set (tl (sort_by authority_order g))"
proof -
  have ne: "g \<noteq> []" using assms(2) by auto
  then obtain rest where s: "sort_by authority_order g = v # rest"
    using assms(1) governing_hd [OF ne] by (metis length_sort_by length_0_conv list.collapse option.inject)
  have "x \<in> set (sort_by authority_order g)" using assms(2) by simp
  then show ?thesis using assms(3) unfolding s by simp
qed

lemma tl_slot: "x \<in> set (tl (sort_by authority_order g)) \<Longrightarrow> x \<in> set g"
  by (metis list.set_sel(2) set_sort_by sort_by_simps(1) tl_Nil)

text \<open>C24: every disagreement is disclosed. Whenever an observation differs materially from the governing
  observation of its project, concept and period, and comes from another source, some conflict names the governing
  source and value and lists both sides.\<close>

theorem every_disagreement_disclosed:
  assumes "detectConflicts dj collate policy obs = Inr cs" "x \<in> set obs" "governing (slot_of obs x) = Some g"
    and "co_sourceId x \<noteq> co_sourceId g" "isMaterial dj policy g x = Inr True"
  shows "\<exists>c\<in>set cs. sx_governedSourceId c = co_sourceId g \<and> sx_governedValue c = co_value g
    \<and> hd (sx_entries c) = toEntry g \<and> toEntry x \<in> set (sx_entries c)"
proof -
  obtain r where r: "detect_group dj policy (slot_key x, slot_of obs x) = Inr r" "\<forall>c. r = Some c \<longrightarrow> c \<in> set cs"
    using detected(1) [OF assms(1,2)] by blast
  let ?ds = "filter (\<lambda>y. co_sourceId y \<noteq> co_sourceId g \<and> isMaterial dj policy g y = Inr True) (tl (sort_by authority_order (slot_of obs x)))"
  have "x \<in> set (slot_of obs x)" using assms(2) by (simp add: slot_of_def)
  then have x: "x \<in> set ?ds" using slot_tl [OF assms(3)] assms(4,5) by auto
  then have "?ds \<noteq> []" by (metis empty_iff empty_set)
  then obtain c where "r = Some c" "sx_governedSourceId c = co_sourceId g" "sx_governedValue c = co_value g"
    "sx_entries c = map toEntry (g # ?ds)"
    using detect_cases [OF r(1) assms(3)] unfolding Let_def by blast
  then show ?thesis using r(2) x by (intro bexI [of _ c]) auto
qed

text \<open>A conflict is real. It records the governing observation of its slot, which nothing in the slot outranks,
  followed by at least one observation, and only by observations of the same slot from other sources that differ
  materially from it.\<close>

theorem conflicts_are_real:
  assumes "detectConflicts dj collate policy obs = Inr cs" "c \<in> set cs"
  shows "\<exists>g\<in>set obs. governing (slot_of obs g) = Some g \<and> sx_governedSourceId c = co_sourceId g
    \<and> sx_governedValue c = co_value g \<and> sx_governedAuthority c = co_authority g
    \<and> (\<exists>ds. ds \<noteq> [] \<and> sx_entries c = map toEntry (g # ds) \<and> (\<forall>y\<in>set ds. y \<in> set obs \<and> slot_key y = slot_key g
         \<and> co_sourceId y \<noteq> co_sourceId g \<and> isMaterial dj policy g y = Inr True))"
proof -
  obtain x where x: "x \<in> set obs" "detect_group dj policy (slot_key x, slot_of obs x) = Inr (Some c)"
    using detected(2) [OF assms] by blast
  have "slot_of obs x \<noteq> []" using x(1) by (auto simp: slot_of_def filter_empty_conv)
  then obtain g where g: "governing (slot_of obs x) = Some g" using governing_hd by blast
  then have gm: "g \<in> set (slot_of obs x)" by (auto simp: governing_def dest: find_SomeD)
  then have same: "slot_of obs g = slot_of obs x" "g \<in> set obs" by (auto simp: slot_of_def)
  let ?ds = "filter (\<lambda>y. co_sourceId y \<noteq> co_sourceId g \<and> isMaterial dj policy g y = Inr True) (tl (sort_by authority_order (slot_of obs x)))"
  have d: "?ds \<noteq> []" "sx_governedSourceId c = co_sourceId g" "sx_governedAuthority c = co_authority g"
    "sx_governedValue c = co_value g" "sx_entries c = map toEntry (g # ?ds)"
    using detect_cases [OF x(2) g] unfolding Let_def by auto
  have "\<forall>y\<in>set ?ds. y \<in> set obs \<and> slot_key y = slot_key g \<and> co_sourceId y \<noteq> co_sourceId g \<and> isMaterial dj policy g y = Inr True"
  proof
    fix y assume y: "y \<in> set ?ds"
    then have "y \<in> set (slot_of obs x)" using tl_slot by simp
    then show "y \<in> set obs \<and> slot_key y = slot_key g \<and> co_sourceId y \<noteq> co_sourceId g \<and> isMaterial dj policy g y = Inr True"
      using gm y by (simp add: slot_of_def)
  qed
  then show ?thesis using d g same by (intro bexI [of _ g] conjI exI [of _ ?ds]) simp_all
qed

definition status_report :: "string \<Rightarrow> authority_class \<Rightarrow> string \<Rightarrow> concept_observation" where
  "status_report source authority v = \<lparr>co_sourceId = source, co_projectId = ''P1'', co_concept = STATUS_REPORTED_RAG, co_period = ''2026-06'',
     co_value = v, co_kind = CATEGORICAL, co_authority = authority, co_dataContext = SANDBOX, co_observedAt = None, co_sourceVersion = ''v1''\<rparr>"

definition sample_reports :: "concept_observation list" where
  "sample_reports = [status_report ''ERP'' AUTHORITATIVE ''GREEN'', status_report ''PSA'' SUPPLEMENTAL ''RED'']"

lemma sample_slot:
  "map_sum id (map sx_governedValue) (detectConflicts dj collate POC_MATERIALITY sample_reports) = Inr [''GREEN'']"
  "governing (slot_of sample_reports (status_report ''PSA'' SUPPLEMENTAL ''RED'')) = Some (status_report ''ERP'' AUTHORITATIVE ''GREEN'')"
  "isMaterial dj POC_MATERIALITY (status_report ''ERP'' AUTHORITATIVE ''GREEN'') (status_report ''PSA'' SUPPLEMENTAL ''RED'') = Inr True"
  by code_simp+

lemma sample_conflicts: "\<exists>cs. detectConflicts dj collate POC_MATERIALITY sample_reports = Inr cs \<and> cs \<noteq> []"
  using sample_slot(1) [of dj collate] by (cases "detectConflicts dj collate POC_MATERIALITY sample_reports") auto

theorem every_disagreement_disclosed_witness:
  "case detectConflicts ref_decimal cmp_ord POC_MATERIALITY sample_reports of
     Inl _ \<Rightarrow> False
   | Inr cs \<Rightarrow> \<exists>c\<in>set cs. sx_governedValue c = ''GREEN'' \<and> toEntry (status_report ''PSA'' SUPPLEMENTAL ''RED'') \<in> set (sx_entries c)"
proof -
  obtain cs where cs: "detectConflicts ref_decimal cmp_ord POC_MATERIALITY sample_reports = Inr cs"
    using sample_conflicts by blast
  show ?thesis
    using every_disagreement_disclosed [OF cs _ sample_slot(2) _ sample_slot(3)] unfolding cs by (auto simp: sample_reports_def status_report_def)
qed

theorem conflicts_are_real_witness:
  "case detectConflicts ref_decimal cmp_ord POC_MATERIALITY sample_reports of
     Inl _ \<Rightarrow> False | Inr cs \<Rightarrow> cs \<noteq> [] \<and> sx_governedValue (hd cs) \<in> {''GREEN'', ''RED''}"
proof -
  obtain cs where cs: "detectConflicts ref_decimal cmp_ord POC_MATERIALITY sample_reports = Inr cs" "cs \<noteq> []"
    using sample_conflicts by blast
  show ?thesis
    using conflicts_are_real [OF cs(1) hd_in_set [OF cs(2)]] unfolding cs(1) using cs(2) by (auto simp: sample_reports_def status_report_def)
qed

section \<open>Where the tie flag errs\<close>

text \<open>Three authoritative sources, of which the third disagrees: no source outranks the others, and the tie is not reported.\<close>

lemma tie_not_reported:
  "map_sum id (map sx_unresolvedAuthority) (detectConflicts dj collate policy
     [status_report ''A'' AUTHORITATIVE ''GREEN'', status_report ''B'' AUTHORITATIVE ''GREEN'', status_report ''C'' AUTHORITATIVE ''RED''])
    = Inr [False]"
  by code_simp

text \<open>One authoritative source that contradicts itself: the conflict with a weaker source claims an unresolved authority.\<close>

lemma tie_reported_of_one_source:
  "map_sum id (map sx_unresolvedAuthority) (detectConflicts dj collate policy
     [status_report ''A'' AUTHORITATIVE ''GREEN'', status_report ''A'' AUTHORITATIVE ''RED'', status_report ''B'' SUPPLEMENTAL ''RED''])
    = Inr [True]"
  by code_simp

end
