(* ===== verification/Tabular.thy ===== *)
theory Tabular
  imports Time_Periods Decimals
begin

text \<open>
  \<open>platform/parse/tabular.ts\<close>, the numeric boundary of \<open>platform/bytes/index.ts\<close> and \<open>readExternalDate\<close> of
  \<open>platform/time/index.ts\<close>: the CSV reader, the neutralisation of formula-like cells, the profile of a column, and
  the readers of foreign figures and dates. Text is ASCII: the only currency sign is the dollar and there is no
  byte-order mark. The two written date forms are left to the host's \<open>Date.parse\<close>, which is a parameter. A column
  is no property of \<open>Object.prototype\<close>.
\<close>

section \<open>Small texts\<close>

definition starts_with :: "char \<Rightarrow> string \<Rightarrow> bool" where
  "starts_with c s \<longleftrightarrow> (case s of [] \<Rightarrow> False | d # _ \<Rightarrow> d = c)"

definition ascii_lower :: "char \<Rightarrow> char" where
  "ascii_lower c = (let n = of_char c :: nat in if 65 \<le> n \<and> n \<le> 90 then char_of (n + 32) else c)"

definition ascii_letter :: "char \<Rightarrow> bool" where
  "ascii_letter c \<longleftrightarrow> (let n = of_char c :: nat in (65 \<le> n \<and> n \<le> 90) \<or> (97 \<le> n \<and> n \<le> 122))"

text \<open>The first occurrence of each element, as \<open>[...new Set(xs)]\<close> keeps them.\<close>

fun uniq :: "'a list \<Rightarrow> 'a list" where
  "uniq [] = []"
| "uniq (x # xs) = x # filter (\<lambda>y. y \<noteq> x) (uniq xs)"

lemma set_uniq [simp]: "set (uniq xs) = set xs"
  by (induction xs) auto

lemma distinct_uniq [simp]: "distinct (uniq xs)"
  by (induction xs) auto

section \<open>Foreign figures\<close>

definition unsigned_decimal :: "string \<Rightarrow> bool" where
  "unsigned_decimal s =
     (case split_on (CHR ''.'') s of [i] \<Rightarrow> all_digits i | [i, f] \<Rightarrow> all_digits i \<and> all_digits f | _ \<Rightarrow> False)"

text \<open>\<open>/^[+-]?\d+(\.\d+)?$/\<close>.\<close>

definition signed_decimal :: "string \<Rightarrow> bool" where
  "signed_decimal s = unsigned_decimal (if starts_with (CHR ''+'') s \<or> starts_with (CHR ''-'') s then tl s else s)"

text \<open>\<open>/^\(.*\)$/\<close>; the dot is no line end.\<close>

definition parenthesised :: "string \<Rightarrow> bool" where
  "parenthesised t \<longleftrightarrow> length t \<ge> 2 \<and> starts_with (CHR ''('') t \<and> last t = CHR '')''
     \<and> list_all (\<lambda>c. (of_char c :: nat) \<notin> {10, 13}) t"

definition strip_currency :: "string \<Rightarrow> string" where
  "strip_currency s = (if starts_with (CHR ''$'') s then dropWhile is_white (tl s) else s)"

definition strip_percent :: "string \<Rightarrow> string" where
  "strip_percent s = (if s \<noteq> [] \<and> last s = CHR ''%'' then rev (dropWhile is_white (rev (butlast s))) else s)"

definition with_sign :: "bool \<Rightarrow> string \<Rightarrow> string" where
  "with_sign negative s =
     (let signed = (if starts_with (CHR ''+'') s then tl s else s) in
      if \<not> negative then signed
      else if starts_with (CHR ''-'') signed then tl signed else CHR ''-'' # signed)"

definition toDecimalString :: "string \<Rightarrow> string option" where
  "toDecimalString raw =
     (let t = trim raw in
      if t = '''' then None
      else let negative = parenthesised t;
               s0 = (if negative then butlast (tl t) else t);
               s = trim (filter (\<lambda>c. c \<noteq> CHR '','') (strip_percent (strip_currency s0)))
        in if \<not> signed_decimal s then None else Some (with_sign negative s))"

definition structuralInt :: "string \<Rightarrow> nat option" where
  "structuralInt raw =
     (let t = trim raw in if all_digits t \<and> length t \<le> 15 then Some (parse_digits t) else None)"

section \<open>Foreign dates\<close>

text \<open>\<open>/^(\d{4}-\d{2}-\d{2})/\<close>: the text it captures.\<close>

definition iso_prefix :: "string \<Rightarrow> string option" where
  "iso_prefix v =
     (if length v \<ge> 10 \<and> list_all is_digit (take 4 v) \<and> v ! 4 = CHR ''-'' \<and> list_all is_digit (take 2 (drop 5 v))
         \<and> v ! 7 = CHR ''-'' \<and> list_all is_digit (take 2 (drop 8 v))
      then Some (take 10 v) else None)"

definition iso_date :: "string \<Rightarrow> calendar_date" where
  "iso_date s = Date (int (parse_digits (take 4 s))) (int (parse_digits (take 2 (drop 5 s)))) (int (parse_digits (take 2 (drop 8 s))))"

definition on_calendar :: "calendar_date \<Rightarrow> bool" where
  "on_calendar d \<longleftrightarrow> 1 \<le> month d \<and> month d \<le> 12 \<and> 1 \<le> day d \<and> day d \<le> days_in_month (leap_year (year d)) (month d)"

text \<open>The two written forms: day, month name and year, or month name, day and year.\<close>

function words_of :: "string \<Rightarrow> string list" where
  "words_of [] = []"
| "words_of (c # cs) =
     (if is_white c then words_of cs else (c # takeWhile (\<lambda>x. \<not> is_white x) cs) # words_of (dropWhile (\<lambda>x. \<not> is_white x) cs))"
  by pat_completeness auto

termination words_of
  by (relation "measure length") (auto simp: le_imp_less_Suc length_dropWhile_le)

definition day_word :: "string \<Rightarrow> bool" where
  "day_word w \<longleftrightarrow> all_digits w \<and> length w \<le> 2"

definition month_word :: "string \<Rightarrow> bool" where
  "month_word w \<longleftrightarrow> list_all ascii_letter w \<and> 3 \<le> length w \<and> length w \<le> 9"

definition year_word :: "string \<Rightarrow> bool" where
  "year_word w \<longleftrightarrow> all_digits w \<and> length w = 4"

definition written_date :: "string \<Rightarrow> bool" where
  "written_date v =
     (case words_of v of
        [a, b, c] \<Rightarrow> (day_word a \<and> month_word b \<and> year_word c)
          \<or> (month_word a \<and> day_word (if b \<noteq> [] \<and> last b = CHR '','' then butlast b else b) \<and> year_word c)
      | _ \<Rightarrow> False)"

text \<open>\<open>parse\<close> stands for \<open>Date.parse\<close> on a written form: the instant in whole days, in UTC, where there is one.\<close>

definition readExternalDate :: "(string \<Rightarrow> int option) \<Rightarrow> string \<Rightarrow> string option" where
  "readExternalDate parse value =
     (let v = trim value in
      case iso_prefix v of
        Some found \<Rightarrow> if on_calendar (iso_date found) then Some found else None
      | None \<Rightarrow>
          if \<not> written_date v then None
          else (case parse v of None \<Rightarrow> None | Some n \<Rightarrow> Some (date_text (fromEpochDay n))))"

definition isExternalDate :: "(string \<Rightarrow> int option) \<Rightarrow> string \<Rightarrow> bool" where
  "isExternalDate parse value \<longleftrightarrow> readExternalDate parse value \<noteq> None"

section \<open>Cells that look like formulas\<close>

definition execution_prefix :: "string \<Rightarrow> bool" where
  "execution_prefix s \<longleftrightarrow> (case s of [] \<Rightarrow> False | c # _ \<Rightarrow> c \<in> set ''=+-@'' \<or> (of_char c :: nat) \<in> {9, 13})"

text \<open>\<open>/^[+-][\d,. ]*\d[\d,. ]*$/\<close>.\<close>

definition signed_number :: "string \<Rightarrow> bool" where
  "signed_number s \<longleftrightarrow> (case s of [] \<Rightarrow> False
     | c # cs \<Rightarrow> (c = CHR ''+'' \<or> c = CHR ''-'') \<and> list_all (\<lambda>d. is_digit d \<or> d \<in> set '',. '') cs \<and> list_ex is_digit cs)"

definition neutraliseFormula :: "string \<Rightarrow> string \<times> bool" where
  "neutraliseFormula value =
     (if \<not> execution_prefix value then (value, False)
      else if signed_number value then (value, False)
      else (CHR 0x27 # value, True))"

section \<open>The CSV reader\<close>

record tabular_row =
  tr_rowNumber :: nat
  tr_cells :: "(string, string) js_map"
  tr_formulaLike :: "string list"
  tr_uncachedFormula :: "string list"

record tabular_sheet =
  ts_name :: string
  ts_headers :: "string list"
  ts_rows :: "tabular_row list"
  ts_rowsTruncated :: nat

record tabular_budget =
  tb_maxRows :: nat
  tb_maxColumns :: nat
  tb_maxCellChars :: nat

definition DEFAULT_TABULAR_BUDGET :: tabular_budget where
  "DEFAULT_TABULAR_BUDGET = \<lparr>tb_maxRows = 20000, tb_maxColumns = 256, tb_maxCellChars = 4000\<rparr>"

text \<open>The scan: inside quotes or not, the field, the record and the records so far.\<close>

fun scan :: "nat \<Rightarrow> string \<Rightarrow> bool \<Rightarrow> string \<Rightarrow> string list \<Rightarrow> string list list \<Rightarrow> string list list" where
  "scan maxRows [] inQuotes field rec out = (if field \<noteq> '''' \<or> rec \<noteq> [] then out @ [rec @ [field]] else out)"
| "scan maxRows (ch # cs) True field rec out =
     (if ch = CHR 0x22
      then (case cs of
              [] \<Rightarrow> scan maxRows cs False field rec out
            | d # ds \<Rightarrow> if d = CHR 0x22 then scan maxRows ds True (field @ [CHR 0x22]) rec out
                       else scan maxRows cs False field rec out)
      else scan maxRows cs True (field @ [ch]) rec out)"
| "scan maxRows (ch # cs) False field rec out =
     (if ch = CHR 0x22 then scan maxRows cs True field rec out
      else if ch = CHR '','' then scan maxRows cs False '''' (rec @ [field]) out
      else if ch = CHR 0x0D then scan maxRows cs False field rec out
      else if ch = CHR 0x0A then
        (let out' = out @ [rec @ [field]] in
         if length out' > maxRows + 1 then out' else scan maxRows cs False '''' [] out')
      else scan maxRows cs False (field @ [ch]) rec out)"

definition splitRecords :: "string \<Rightarrow> tabular_budget \<Rightarrow> string list list" where
  "splitRecords s budget = scan (tb_maxRows budget) s False '''' [] []"

definition header_of :: "nat \<Rightarrow> string \<Rightarrow> string" where
  "header_of i h = (if trim h = '''' then ''column_'' @ show_nat (i + 1) else trim h)"

definition headers_of :: "tabular_budget \<Rightarrow> string list \<Rightarrow> string list" where
  "headers_of budget record = map (\<lambda>(i, h). header_of i h) (enumerate 0 (take (tb_maxColumns budget) record))"

definition cell_of :: "tabular_budget \<Rightarrow> string list \<Rightarrow> nat \<Rightarrow> string" where
  "cell_of budget record c = take (tb_maxCellChars budget) (if c < length record then record ! c else '''')"

fun read_cells :: "tabular_budget \<Rightarrow> string list \<Rightarrow> nat \<Rightarrow> string list \<Rightarrow> (string, string) js_map \<Rightarrow> string list
    \<Rightarrow> (string, string) js_map \<times> string list" where
  "read_cells budget record c [] cells formulaLike = (cells, formulaLike)"
| "read_cells budget record c (header # hs) cells formulaLike =
     (let n = neutraliseFormula (cell_of budget record c) in
      read_cells budget record (Suc c) hs (js_set header (fst n) cells)
        (if snd n then formulaLike @ [header] else formulaLike))"

definition row_of :: "tabular_budget \<Rightarrow> string list \<Rightarrow> nat \<Rightarrow> string list \<Rightarrow> tabular_row" where
  "row_of budget headers i record =
     (let r = read_cells budget record 0 headers [] [] in
      \<lparr>tr_rowNumber = i + 1, tr_cells = fst r, tr_formulaLike = snd r, tr_uncachedFormula = []\<rparr>)"

text \<open>The loop over the records from index \<open>i\<close> on: the rows read and the number cut off.\<close>

fun read_rows :: "tabular_budget \<Rightarrow> string list \<Rightarrow> nat \<Rightarrow> string list list \<Rightarrow> tabular_row list \<Rightarrow> tabular_row list \<times> nat" where
  "read_rows budget headers i [] rows = (rows, 0)"
| "read_rows budget headers i (record # rest) rows =
     (if length rows \<ge> tb_maxRows budget then (rows, length (record # rest))
      else if length record = 1 \<and> trim (hd record) = '''' then read_rows budget headers (Suc i) rest rows
      else read_rows budget headers (Suc i) rest (rows @ [row_of budget headers i record]))"

definition parseCsv :: "string \<Rightarrow> string \<Rightarrow> tabular_budget \<Rightarrow> tabular_sheet" where
  "parseCsv s sheetName budget =
     (case splitRecords s budget of
        [] \<Rightarrow> \<lparr>ts_name = sheetName, ts_headers = [], ts_rows = [], ts_rowsTruncated = 0\<rparr>
      | headerRecord # records \<Rightarrow>
          let headers = headers_of budget headerRecord;
              r = read_rows budget headers 1 records []
          in \<lparr>ts_name = sheetName, ts_headers = headers, ts_rows = fst r, ts_rowsTruncated = snd r\<rparr>)"

section \<open>Profiles\<close>

datatype inferred_type = NUMBER_TYPE | DATE_TYPE | BOOLEAN_TYPE | TEXT_TYPE | EMPTY_TYPE

record column_profile =
  pf_column :: string
  pf_populated :: nat
  pf_blank :: nat
  pf_distinct :: nat
  pf_inferredType :: inferred_type
  pf_samples :: "string list"

text \<open>\<open>/^[(+-]?[\p{Sc}]?\s*[\d,]+(\.\d+)?\)?%?$/u\<close>, from left to right.\<close>

definition numeric_like :: "string \<Rightarrow> bool" where
  "numeric_like s =
     (let s1 = (case s of c # cs \<Rightarrow> if c \<in> set ''(+-'' then cs else s | [] \<Rightarrow> []);
          s2 = (if starts_with (CHR ''$'') s1 then tl s1 else s1);
          s3 = dropWhile is_white s2;
          p = (\<lambda>c. is_digit c \<or> c = CHR '','');
          s4 = dropWhile p s3;
          s5 = (if starts_with (CHR ''.'') s4 \<and> takeWhile is_digit (tl s4) \<noteq> [] then dropWhile is_digit (tl s4) else s4);
          s6 = (if starts_with (CHR '')'') s5 then tl s5 else s5);
          s7 = (if starts_with (CHR ''%'') s6 then tl s6 else s6)
      in takeWhile p s3 \<noteq> [] \<and> s7 = [])"

definition boolean_like :: "string \<Rightarrow> bool" where
  "boolean_like s \<longleftrightarrow> map ascii_lower s \<in> {''true'', ''false'', ''yes'', ''no'', ''y'', ''n''}"

text \<open>At least nine in ten; \<open>m / n >= 0.9\<close> compares as the fractions do.\<close>

definition nine_in_ten :: "nat \<Rightarrow> nat \<Rightarrow> bool" where
  "nine_in_ten m n \<longleftrightarrow> 10 * m \<ge> 9 * n"

definition inferType :: "(string \<Rightarrow> int option) \<Rightarrow> string list \<Rightarrow> inferred_type" where
  "inferType parse values =
     (let n = length values in
      if n = 0 then EMPTY_TYPE
      else if nine_in_ten (length (filter numeric_like values)) n then NUMBER_TYPE
      else if nine_in_ten (length (filter (isExternalDate parse) values)) n then DATE_TYPE
      else if nine_in_ten (length (filter boolean_like values)) n then BOOLEAN_TYPE
      else TEXT_TYPE)"

definition column_values :: "tabular_sheet \<Rightarrow> string \<Rightarrow> string list" where
  "column_values sheet column = map (\<lambda>r. trim (nullish (js_get (tr_cells r) column) '''')) (ts_rows sheet)"

definition profile :: "(string \<Rightarrow> int option) \<Rightarrow> tabular_sheet \<Rightarrow> column_profile list" where
  "profile parse sheet =
     map (\<lambda>column.
        let values = column_values sheet column; populated = filter (\<lambda>v. v \<noteq> '''') values in
        \<lparr>pf_column = column, pf_populated = length populated, pf_blank = length values - length populated,
         pf_distinct = card (set populated), pf_inferredType = inferType parse populated,
         pf_samples = take 3 (uniq populated)\<rparr>) (ts_headers sheet)"


section \<open>Figures\<close>

text \<open>What the numeric boundary returns is a decimal text, so \<open>qty\<close> reads it.\<close>

lemma no_white_trim: "list_all (\<lambda>c. \<not> is_white c) s \<Longrightarrow> trim s = s"
proof -
  have id: "dropWhile is_white t = t" if "list_all (\<lambda>c. \<not> is_white c) t" for t using that by (cases t) auto
  assume "list_all (\<lambda>c. \<not> is_white c) s"
  moreover from this have "list_all (\<lambda>c. \<not> is_white c) (rev s)" by (simp add: list_all_iff)
  ultimately show ?thesis using id by (simp add: trim_def)
qed

lemma digit_not_white: "is_digit c \<Longrightarrow> \<not> is_white c"
  by (auto simp: is_digit_def is_white_def)

lemma unsigned_chars: "unsigned_decimal s \<Longrightarrow> list_all (\<lambda>c. is_digit c \<or> c = CHR ''.'') s"
proof -
  assume u: "unsigned_decimal s"
  have j: "join_with [CHR ''.''] (split_on (CHR ''.'') s) = s" by simp
  from u consider i where "split_on (CHR ''.'') s = [i]" "all_digits i"
    | i f where "split_on (CHR ''.'') s = [i, f]" "all_digits i" "all_digits f"
    unfolding unsigned_decimal_def by (auto split: list.splits)
  then show ?thesis using j by cases (auto simp: all_digits_def list_all_iff)
qed

lemma unsigned_first: "unsigned_decimal s \<Longrightarrow> \<exists>c cs. s = c # cs \<and> is_digit c"
  using unsigned_chars [of s] by (cases s) (auto simp: unsigned_decimal_def all_digits_def split: if_splits list.splits)

lemma unsigned_plain:
  assumes "unsigned_decimal s"
  shows "decimal_text s" "decimal_text (CHR ''-'' # s)" "list_all (\<lambda>c. \<not> is_white c) s"
proof -
  obtain c cs where s: "s = c # cs" "is_digit c" using unsigned_first [OF assms] by blast
  then have "c \<noteq> CHR ''-''" by (auto simp: is_digit_def)
  then have "drop_sign s = s" using s by (simp add: drop_sign_def)
  then show "decimal_text s" "decimal_text (CHR ''-'' # s)" using assms by (simp_all add: decimal_text_def unsigned_decimal_def drop_sign_def)
  show "list_all (\<lambda>c. \<not> is_white c) s"
    unfolding list_all_iff
  proof
    fix c assume "c \<in> set s"
    then have "is_digit c \<or> c = CHR ''.''" using unsigned_chars [OF assms] by (auto simp: list_all_iff)
    then show "\<not> is_white c" using digit_not_white by (auto simp: is_white_def)
  qed
qed

lemma unsigned_sign: "unsigned_decimal s \<Longrightarrow> \<not> starts_with (CHR ''-'') s \<and> \<not> starts_with (CHR ''+'') s"
  using unsigned_first [of s] by (auto simp: starts_with_def is_digit_def)

lemma signed_cases:
  assumes "signed_decimal s"
  obtains u where "unsigned_decimal u" "s = u \<or> s = CHR ''-'' # u \<or> s = CHR ''+'' # u"
  using assms by (cases s) (auto simp: signed_decimal_def starts_with_def split: if_splits)

lemma reads_back:
  assumes "unsigned_decimal u"
  shows "\<exists>q. qty u = Inr q" "\<exists>q. qty (CHR ''-'' # u) = Inr q"
proof -
  note p = unsigned_plain [OF assms]
  have "trim u = u" "trim (CHR ''-'' # u) = CHR ''-'' # u" using p(3)
    by (auto intro!: no_white_trim simp: is_white_def)
  then show "\<exists>q. qty u = Inr q" "\<exists>q. qty (CHR ''-'' # u) = Inr q" using p(1,2) by (simp_all add: qty_def)
qed

lemma with_sign_read: "signed_decimal s \<Longrightarrow> \<exists>q. qty (with_sign negative s) = Inr q"
proof -
  assume "signed_decimal s"
  then obtain u where u: "unsigned_decimal u" "s = u \<or> s = CHR ''-'' # u \<or> s = CHR ''+'' # u" by (rule signed_cases)
  have "with_sign negative s \<in> {u, CHR ''-'' # u}"
    using u(2) unsigned_sign [OF u(1)] by (auto simp: with_sign_def starts_with_def split: list.splits)
  then show ?thesis using reads_back [OF u(1)] by auto
qed

text \<open>C26: what the numeric boundary lets through is a number. Whatever cell \<open>toDecimalString\<close> accepts, the text it
  returns is one \<open>qty\<close> reads: no currency sign, separator, bracket, percent sign or exponent is left in it.\<close>

theorem boundary_returns_decimals:
  "case toDecimalString raw of None \<Rightarrow> True | Some s \<Rightarrow> \<exists>q. qty s = Inr q"
  by (auto simp: toDecimalString_def Let_def with_sign_read split: option.splits)

section \<open>Dates\<close>

lemma iso_digits:
  assumes "iso_prefix v = Some s"
  shows "length s = 10" "list_all is_digit (take 4 s)" "list_all is_digit (take 2 (drop 5 s))" "list_all is_digit (take 2 (drop 8 s))"
    "s ! 4 = CHR ''-''" "s ! 7 = CHR ''-''"
  using assms by (auto simp: iso_prefix_def min_def drop_take split: if_splits)

text \<open>A day digit more after a date is not seen: the prefix is taken for the date.\<close>

lemma trailing_digit_ignored: "readExternalDate parse ''2026-03-091'' = Some ''2026-03-09''"
  by code_simp

section \<open>Cells\<close>

text \<open>A cell that leaves the reader is safe to export. Unless the whole cell is a signed number it does not begin
  with a character a spreadsheet executes; nothing is lost, since at most an apostrophe is put in front; and reading
  an exported cell again changes nothing.\<close>

theorem neutralised_cell_safe:
  "(if execution_prefix (fst (neutraliseFormula v)) then signed_number (fst (neutraliseFormula v)) else True)
    \<and> fst (neutraliseFormula v) = (if snd (neutraliseFormula v) then CHR 0x27 # v else v)
    \<and> neutraliseFormula (fst (neutraliseFormula v)) = (fst (neutraliseFormula v), False)"
  by (auto simp: neutraliseFormula_def execution_prefix_def)

text \<open>A negative percentage is a figure to the numeric boundary, but not to this test.\<close>

lemma negative_percentage_lost:
  "toDecimalString ''-5%'' = Some ''-5''" "neutraliseFormula ''-5%'' = (CHR 0x27 # ''-5%'', True)"
  "toDecimalString (fst (neutraliseFormula ''-5%'')) = None"
  by code_simp+

section \<open>Budgets\<close>

lemma scan_bound: "length out \<le> maxRows + 1 \<Longrightarrow> length (scan maxRows s q field rec out) \<le> maxRows + 2"
  by (induction maxRows s q field rec out rule: scan.induct) (auto simp: Let_def split: list.splits if_splits)

definition blank_record :: "string list \<Rightarrow> bool" where
  "blank_record r \<longleftrightarrow> length r = 1 \<and> trim (hd r) = ''''"

lemma read_rows_Cons: "read_rows budget headers i (r # rest) rows =
    (if length rows \<ge> tb_maxRows budget then (rows, length (r # rest))
     else if blank_record r then read_rows budget headers (Suc i) rest rows
     else read_rows budget headers (Suc i) rest (rows @ [row_of budget headers i r]))"
  by (simp add: blank_record_def)

lemma read_rows_spec:
  assumes "read_rows budget headers i records rows = (rs, n)" "length rows \<le> tb_maxRows budget"
  shows "n \<le> length records \<and> length rs \<le> tb_maxRows budget \<and> (n > 0 \<longrightarrow> length rs = tb_maxRows budget)
    \<and> length rs = length rows + length (filter (\<lambda>r. \<not> blank_record r) (take (length records - n) records))"
  using assms
proof (induction budget headers i records rows rule: read_rows.induct)
  case (2 budget headers i r rest rows)
  show ?case
  proof (cases "tb_maxRows budget \<le> length rows")
    case True
    then show ?thesis using 2 by auto
  next
    case False
    show ?thesis
    proof (cases "blank_record r")
      case True
      then have "read_rows budget headers (Suc i) rest rows = (rs, n)" using 2(3) False unfolding read_rows_Cons by simp
      then show ?thesis using 2(1) [OF False] 2(4) True by (auto simp: blank_record_def Suc_diff_le)
    next
      case full: False
      then have "read_rows budget headers (Suc i) rest (rows @ [row_of budget headers i r]) = (rs, n)"
        using 2(3) False unfolding read_rows_Cons by simp
      then show ?thesis using 2(2) [OF False] False full by (auto simp: blank_record_def Suc_diff_le)
    qed
  qed
qed simp

text \<open>The sheet keeps its budget, and its count of rows cut off says less than it seems to. However long the text,
  at most \<open>maxRows\<close> rows and \<open>maxColumns\<close> columns are read; but the scan itself stops two records past the row
  budget, so the number of rows reported as cut off is never more than one.\<close>

theorem sheet_within_budget:
  "length (ts_rows (parseCsv s name budget)) \<le> tb_maxRows budget
    \<and> length (ts_headers (parseCsv s name budget)) \<le> tb_maxColumns budget
    \<and> ts_rowsTruncated (parseCsv s name budget) \<le> 1
    \<and> (ts_rowsTruncated (parseCsv s name budget) = 0 \<or> length (ts_rows (parseCsv s name budget)) = tb_maxRows budget)"
proof (cases "splitRecords s budget")
  case (Cons h records)
  have "length (h # records) \<le> tb_maxRows budget + 2"
    using scan_bound [of "[]" "tb_maxRows budget" s False "''''" "[]"] Cons by (simp add: splitRecords_def)
  moreover obtain rs n where r: "read_rows budget (headers_of budget h) 1 records [] = (rs, n)" by force
  moreover have spec: "n \<le> length records" "length rs \<le> tb_maxRows budget" "n > 0 \<longrightarrow> length rs = tb_maxRows budget"
    "length rs = length (filter (\<lambda>r. \<not> blank_record r) (take (length records - n) records))"
    using read_rows_spec [OF r] by auto
  moreover have "length (filter (\<lambda>r. \<not> blank_record r) (take (length records - n) records)) \<le> length records - n"
    using length_filter_le [of _ "take (length records - n) records"] by simp
  ultimately show ?thesis using Cons by (cases "n = 0") (simp_all add: parseCsv_def Let_def headers_of_def)
qed (simp add: parseCsv_def)

text \<open>With blank lines in between, rows are dropped and none is reported: here the budget is one row, the text has
  three, and the one after the blank lines is gone.\<close>

lemma dropped_rows_unreported:
  "let sheet = parseCsv (''a'' @ [CHR 0x0A, CHR 0x0A] @ ''1'' @ [CHR 0x0A] @ ''2'' @ [CHR 0x0A] @ ''3'') ''CSV'' \<lparr>tb_maxRows = 1, tb_maxColumns = 9, tb_maxCellChars = 9\<rparr>
   in (length (ts_rows sheet), ts_rowsTruncated sheet) = (1, 0)"
  by code_simp

section \<open>What is quoted is read back\<close>

text \<open>RFC 4180, every field quoted.\<close>

fun quoted :: "string \<Rightarrow> string" where
  "quoted [] = [CHR 0x22]"
| "quoted (c # cs) = (if c = CHR 0x22 then CHR 0x22 # CHR 0x22 # quoted cs else c # quoted cs)"

fun csv_record :: "string list \<Rightarrow> string" where
  "csv_record [] = [CHR 0x0A]"
| "csv_record [f] = CHR 0x22 # quoted f @ [CHR 0x0A]"
| "csv_record (f # g # fs) = CHR 0x22 # quoted f @ CHR '','' # csv_record (g # fs)"

definition csv_text :: "string list list \<Rightarrow> string" where
  "csv_text records = concat (map csv_record records)"

lemma scan_quoted:
  "c \<noteq> CHR 0x22 \<Longrightarrow> scan m (quoted f @ c # s) True field rec out = scan m (c # s) False (field @ f) rec out"
  by (induction f arbitrary: field) (simp_all del: scan.simps(3))

lemma scan_record:
  "r \<noteq> [] \<Longrightarrow> scan m (csv_record r @ s) False '''' rec out
    = (if length (out @ [rec @ r]) > m + 1 then out @ [rec @ r] else scan m s False '''' [] (out @ [rec @ r]))"
  by (induction r arbitrary: rec rule: csv_record.induct) (simp_all add: scan_quoted Let_def)

lemma scan_text:
  "list_all (\<lambda>r. r \<noteq> []) rs \<Longrightarrow> length out + length rs \<le> m + 1 \<Longrightarrow> scan m (csv_text rs) False '''' [] out = out @ rs"
proof (induction rs arbitrary: out)
  case (Cons r rs)
  then show ?case using scan_record [of r m "csv_text rs" "[]" out] by (simp add: csv_text_def)
qed (simp add: csv_text_def)

text \<open>C32: The CSV reader reads back what is written. Records of one field or more, whatever the fields hold, quotes, commas and
  line ends included, written with every field quoted as RFC 4180 has it, are split into the same records, as long as there are at
  most as many as the row budget and a header.\<close>

theorem csv_roundtrip:
  assumes "list_all (\<lambda>r. r \<noteq> []) records" "length records \<le> tb_maxRows budget + 1"
  shows "splitRecords (csv_text records) budget = records"
  using scan_text [of records "[]"] assms by (simp add: splitRecords_def)

theorem csv_roundtrip_witness:
  "splitRecords (csv_text [[''id'', ''note''], [''P1'', ''a, '' @ [CHR 0x22, CHR 0x0A] @ ''b'']]) DEFAULT_TABULAR_BUDGET
    = [[''id'', ''note''], [''P1'', ''a, '' @ [CHR 0x22, CHR 0x0A] @ ''b'']]"
  by (rule csv_roundtrip) (simp_all add: DEFAULT_TABULAR_BUDGET_def)

end
