(* ===== verification/Ingestion.thy ===== *)
theory Ingestion
  imports Source_Conflicts Tabular
begin

text \<open>
  \<open>app/ingestion/structured.ts\<close> and \<open>detectFormat\<close> of \<open>platform/parse/index.ts\<close>: rows of a sheet into staged records
  and observations. An upload is read as one-byte text: bytes and characters are the same list, which \<open>utf8\<close> gives for
  uploads in ASCII. Parameters: the
  host's \<open>Date.parse\<close> on written dates, SHA-256, and the workbook reader (\<open>platform/parse/xlsx.ts\<close>, not modelled).
\<close>

section \<open>Mapping\<close>

datatype mapping_confidence = EXACT | LIKELY | NONE_MATCHES

record mapping_suggestion =
  ms_sourceField :: string
  ms_concept :: "canonical_concept option"
  ms_confidence :: mapping_confidence
  ms_why :: string

record approved_field =
  af_sourceField :: string
  af_concept :: canonical_concept
  af_required :: bool
  af_kind :: observation_kind
  af_nonNegative :: bool

record approved_mapping =
  am_mappingVersion :: string
  am_identityField :: string
  am_identitySystem :: source_system
  am_periodField :: "string option"
  am_fields :: "approved_field list"

record ingest_lib =
  il_dateParse :: "string \<Rightarrow> int option"
  il_sha256 :: "string \<Rightarrow> string"
  il_xlsx :: "string \<Rightarrow> tabular_sheet list option"

record ingestion_request =
  iq_sourceId :: string
  iq_sourceName :: string
  iq_fileName :: string
  iq_bytes :: string
  iq_mapping :: approved_mapping
  iq_identity :: identity_hub
  iq_registry :: authority_registry
  iq_authority :: authority_class
  iq_dataContext :: data_context
  iq_receivedAt :: instant
  iq_effectiveDate :: "string option"
  iq_declaredRecordCount :: "nat option"
  iq_knownProjectIds :: "string list"

text \<open>The patterns, each a list of alternatives, each a list of words that one separator may stand between.\<close>

definition MAPPING_HINTS :: "(canonical_concept \<times> string list list) list" where
  "MAPPING_HINTS = [
     (FINANCIAL_ACTUAL_COST, [[''actual'', ''cost''], [''cost'', ''to'', ''date''], [''itd'', ''cost''], [''spend'']]),
     (FINANCIAL_ESTIMATE_TO_COMPLETE, [[''etc''], [''estimate'', ''to'', ''complete''], [''remaining'', ''cost'']]),
     (FINANCIAL_FORECAST_REVENUE, [[''forecast'', ''revenue''], [''revenue'', ''forecast''], [''eac'', ''revenue'']]),
     (FINANCIAL_RECOGNISED_REVENUE, [[''recognised'', ''revenue''], [''recognized'', ''revenue''], [''revenue'', ''to'', ''date'']]),
     (FINANCIAL_FINANCIAL_PERIOD, [[''period''], [''financial'', ''period''], [''month''], [''as'', ''of''], [''reporting'', ''date'']]),
     (FINANCIAL_INVOICE_STATUS, [[''invoice'', ''status''], [''ar'', ''status''], [''receivable''], [''receivables'']]),
     (CONTRACT_SOLD_VALUE, [[''contract'', ''value''], [''tcv''], [''sold'', ''value''], [''order'', ''value'']]),
     (CONTRACT_PENDING_CHANGE, [[''pending'', ''cr''], [''pending'', ''change''], [''open'', ''change'']]),
     (CONTRACT_EXECUTED_CHANGE, [[''executed'', ''cr''], [''signed'', ''change''], [''approved'', ''change'']]),
     (DELIVERY_COMPLETED_WORK, [[''completed'', ''work''], [''completed'', ''points''], [''completed'', ''story'', ''points''], [''done'']]),
     (DELIVERY_PLANNED_WORK, [[''planned'', ''work''], [''planned'', ''points''], [''committed'']]),
     (DELIVERY_VELOCITY, [[''velocity''], [''throughput'']]),
     (DELIVERY_DEFECT_COUNT, [[''defect''], [''defects''], [''bug''], [''bugs''], [''defect'', ''count'']]),
     (DELIVERY_MILESTONE_STATUS, [[''milestone'', ''status''], [''gate'', ''status'']]),
     (RESOURCE_ACTUAL_EFFORT, [[''actual'', ''effort''], [''actual'', ''hours''], [''hours'', ''booked'']]),
     (RESOURCE_PLANNED_EFFORT, [[''planned'', ''effort''], [''planned'', ''hours''], [''baseline'', ''hours'']]),
     (RESOURCE_STAFFING, [[''fte''], [''headcount''], [''staffing'']]),
     (ASSURANCE_REVIEW_DATE, [[''review'', ''date''], [''last'', ''review''], [''psv'', ''date'']]),
     (STATUS_REPORTED_RAG, [[''rag''], [''status''], [''reported'', ''rag''], [''health'']])]"

text \<open>\<open>[\s_-]\<close>.\<close>

definition word_separator :: "char \<Rightarrow> bool" where
  "word_separator c \<longleftrightarrow> is_white c \<or> c = CHR ''_'' \<or> c = CHR ''-''"

definition begins :: "string \<Rightarrow> string \<Rightarrow> bool" where
  "begins w s \<longleftrightarrow> take (length w) s = w"

fun matches_words :: "string list \<Rightarrow> string \<Rightarrow> bool" where
  "matches_words [] s = (s = [])"
| "matches_words [w] s = (s = w)"
| "matches_words (w # v # ws) s =
     (begins w s \<and>
       (let r = drop (length w) s in
        matches_words (v # ws) r \<or> (case r of c # cs \<Rightarrow> word_separator c \<and> matches_words (v # ws) cs | [] \<Rightarrow> False)))"

definition hint_matches :: "string list list \<Rightarrow> string \<Rightarrow> bool" where
  "hint_matches alternatives s \<longleftrightarrow> list_ex (\<lambda>ws. matches_words ws (map ascii_lower s)) alternatives"

definition suggest :: "string \<Rightarrow> mapping_suggestion" where
  "suggest sourceField =
     (case find (\<lambda>h. hint_matches (snd h) (trim sourceField)) MAPPING_HINTS of
        Some (concept, _) \<Rightarrow> \<lparr>ms_sourceField = sourceField, ms_concept = Some concept, ms_confidence = EXACT,
          ms_why = ''The column name matches the governed pattern for '' @ concept_text concept @ ''.''\<rparr>
      | None \<Rightarrow>
          (case find (\<lambda>h. hint_matches (snd h) (filter alnum (trim sourceField))) MAPPING_HINTS of
             Some (concept, _) \<Rightarrow> \<lparr>ms_sourceField = sourceField, ms_concept = Some concept, ms_confidence = LIKELY,
               ms_why = ''The column name resembles a governed concept once punctuation is ignored. '' @
                 ''A likely match must be confirmed before it is used; it is never applied silently.''\<rparr>
           | None \<Rightarrow> \<lparr>ms_sourceField = sourceField, ms_concept = None, ms_confidence = NONE_MATCHES,
               ms_why = ''No governed concept matches this column. It will be read and ignored, and the receipt '' @
                 ''will say so rather than dropping it silently.''\<rparr>))"

definition suggestMappings :: "string list \<Rightarrow> mapping_suggestion list" where
  "suggestMappings headers = map suggest headers"

section \<open>One row\<close>

definition vfinding :: "validation_code \<Rightarrow> string \<Rightarrow> string \<Rightarrow> validation_finding" where
  "vfinding code field detail = \<lparr>vf_code = code, vf_field = field, vf_detail = detail\<rparr>"

definition cell_text :: "tabular_row \<Rightarrow> string \<Rightarrow> string" where
  "cell_text row column = trim (nullish (js_get (tr_cells row) column) '''')"

definition raw_identity :: "ingestion_request \<Rightarrow> tabular_row \<Rightarrow> string" where
  "raw_identity request row = cell_text row (am_identityField (iq_mapping request))"

definition row_resolution :: "ingestion_request \<Rightarrow> tabular_row \<Rightarrow> identity_resolution" where
  "row_resolution request row = resolve (iq_identity request) (am_identitySystem (iq_mapping request)) (raw_identity request row)"

text \<open>The project of a row, and what is found wrong with its identity.\<close>

definition row_project :: "ingestion_request \<Rightarrow> tabular_row \<Rightarrow> string option \<times> validation_finding list" where
  "row_project request row =
     (let field = am_identityField (iq_mapping request); raw = raw_identity request row in
      case row_resolution request row of
        RESOLVED p _ \<Rightarrow>
          if p \<notin> set (iq_knownProjectIds request)
          then (None, [vfinding UNKNOWN_PROJECT field
                  (''The mapping resolves \"'' @ raw @ ''\" to a project this portfolio does not contain.'')])
          else (Some p, [])
      | UNRESOLVED reason _ \<Rightarrow>
          (None, [vfinding (if reason = AMBIGUOUS then AMBIGUOUS_MAPPING else UNRESOLVED_IDENTITY) field
             (if reason = BLANK then ''The identity column is empty on this row.''
              else if reason = AMBIGUOUS then ''More than one declared mapping claims \"'' @ raw @ ''\".''
              else ''No declared mapping links \"'' @ raw @ ''\" to a project. Identity is resolved by '' @
                ''declared mapping or not at all; a name-similarity join is not available.'')]))"

definition readPeriod :: "ingest_lib \<Rightarrow> ingestion_request \<Rightarrow> tabular_row \<Rightarrow> string option \<times> validation_finding list" where
  "readPeriod lib request row =
     (case am_periodField (iq_mapping request) of
        None \<Rightarrow> (iq_effectiveDate request, [])
      | Some field \<Rightarrow>
          let raw = cell_text row field in
          if raw = '''' then (iq_effectiveDate request, [])
          else (case readExternalDate (il_dateParse lib) raw of
                  None \<Rightarrow> (None, [vfinding INVALID_DATE field
                    (''The value is not a date this pipeline accepts. An ambiguous numeric date is rejected rather '' @
                     ''than guessed at, because guessing produces a period-shifted financial record.'')])
                | Some found \<Rightarrow> (Some found, [])))"

definition period_key :: "string \<Rightarrow> string option \<Rightarrow> string" where
  "period_key projectId period = projectId @ ''|'' @ nullish period ''''"

definition duplicate_findings :: "ingestion_request \<Rightarrow> string list \<Rightarrow> string list \<Rightarrow> string option \<Rightarrow> string option \<Rightarrow> validation_finding list" where
  "duplicate_findings request seenIdentities seenPeriodKeys projectId period =
     (case projectId of
        None \<Rightarrow> []
      | Some p \<Rightarrow>
          (if p \<in> set seenIdentities \<and> am_periodField (iq_mapping request) = None
           then [vfinding DUPLICATE_PROJECT_ID (am_identityField (iq_mapping request))
                   ''This project already appears in a file that permits one row per project.'']
           else [])
          @ (if period_key p period \<in> set seenPeriodKeys
             then [vfinding DUPLICATE_PERIOD_RECORD (nullish (am_periodField (iq_mapping request)) ''period'')
                     ''This project and period already appear in this file.'']
             else []))"

definition formula_findings :: "tabular_row \<Rightarrow> validation_finding list" where
  "formula_findings row = map (\<lambda>column. vfinding FORMULA_CELL_REJECTED column
     (''The cell holds a formula with no cached value. Formulas are never evaluated, and an '' @
      ''unevaluated cell is a stated absence rather than a zero.'')) (tr_uncachedFormula row)"

definition isPercentConcept :: "canonical_concept \<Rightarrow> bool" where
  "isPercentConcept concept \<longleftrightarrow> concept = DELIVERY_VELOCITY \<or> concept = RESOURCE_STAFFING"

definition outsidePercentRange :: "string \<Rightarrow> bool" where
  "outsidePercentRange v \<longleftrightarrow> starts_with (CHR ''-'') v \<or> length (hd (split_on (CHR ''.'') v)) > 4"

definition row_observation :: "ingestion_request \<Rightarrow> string \<Rightarrow> canonical_concept \<Rightarrow> string option \<Rightarrow> string \<Rightarrow> observation_kind \<Rightarrow> concept_observation" where
  "row_observation request projectId concept period v kind =
     \<lparr>co_sourceId = iq_sourceId request, co_projectId = projectId, co_concept = concept,
      co_period = nullish period (nullish (iq_effectiveDate request) ''unstated''), co_value = v, co_kind = kind,
      co_authority = authorityOf (iq_registry request) (iq_sourceId request) concept,
      co_dataContext = iq_dataContext request, co_observedAt = period,
      co_sourceVersion = am_mappingVersion (iq_mapping request)\<rparr>"

text \<open>One mapped field of a row: a finding, an observation, or nothing.\<close>

definition field_outcome :: "ingestion_request \<Rightarrow> string \<Rightarrow> string option \<Rightarrow> tabular_row \<Rightarrow> approved_field
    \<Rightarrow> validation_finding list \<times> concept_observation list" where
  "field_outcome request projectId period row field =
     (let raw = cell_text row (af_sourceField field); name = af_sourceField field in
      if raw = ''''
      then (if af_required field
            then [vfinding MISSING_REQUIRED_FIELD name ''The mapping marks this field as required and the cell is empty.'']
            else [], [])
      else if af_kind field = NUMERIC
      then (case toDecimalString raw of
              None \<Rightarrow> ([vfinding INVALID_DATA_TYPE name ''The value is not a number where the mapping requires one.''], [])
            | Some v \<Rightarrow>
                if af_nonNegative field \<and> starts_with (CHR ''-'') v
                then ([vfinding PROHIBITED_NEGATIVE_AMOUNT name ''The concept cannot be negative.''], [])
                else if isPercentConcept (af_concept field) \<and> outsidePercentRange v
                then ([vfinding IMPOSSIBLE_PERCENTAGE name ''A percentage outside the range this concept permits.''], [])
                else ([], [row_observation request projectId (af_concept field) period v NUMERIC]))
      else if af_concept field = STATUS_REPORTED_RAG \<and> map ascii_lower raw \<notin> {''green'', ''amber'', ''red''}
      then ([vfinding UNKNOWN_ENUM_VALUE name ''Reported status must be GREEN, AMBER or RED.''], [])
      else ([], [row_observation request projectId (af_concept field) period raw CATEGORICAL]))"

section \<open>The sheet\<close>

record ingest_state =
  is_seenPeriodKeys :: "string list"
  is_seenIdentities :: "string list"
  is_staged :: "staged_record list"
  is_observations :: "concept_observation list"

definition mapped_fields :: "ingestion_request \<Rightarrow> tabular_sheet \<Rightarrow> approved_field list" where
  "mapped_fields request sheet = filter (\<lambda>f. af_sourceField f \<in> set (ts_headers sheet)) (am_fields (iq_mapping request))"

definition ignored_headers :: "ingestion_request \<Rightarrow> tabular_sheet \<Rightarrow> string list" where
  "ignored_headers request sheet =
     filter (\<lambda>h. h \<notin> set (map af_sourceField (am_fields (iq_mapping request)))
        \<and> h \<noteq> am_identityField (iq_mapping request) \<and> Some h \<noteq> am_periodField (iq_mapping request)) (ts_headers sheet)"

definition row_findings :: "ingest_lib \<Rightarrow> ingestion_request \<Rightarrow> approved_field list \<Rightarrow> string list \<Rightarrow> string list \<Rightarrow> tabular_row \<Rightarrow> validation_finding list" where
  "row_findings lib request mapped seenIdentities seenPeriodKeys row =
     (let project = fst (row_project request row); period = fst (readPeriod lib request row) in
      snd (row_project request row) @ snd (readPeriod lib request row)
        @ duplicate_findings request seenIdentities seenPeriodKeys project period @ formula_findings row
        @ concat (map (\<lambda>f. fst (field_outcome request (nullish project '''') period row f)) mapped))"

definition row_observations :: "ingest_lib \<Rightarrow> ingestion_request \<Rightarrow> approved_field list \<Rightarrow> tabular_row \<Rightarrow> concept_observation list" where
  "row_observations lib request mapped row =
     concat (map (\<lambda>f. snd (field_outcome request (nullish (fst (row_project request row)) '''') (fst (readPeriod lib request row)) row f)) mapped)"

definition stage_row :: "ingest_lib \<Rightarrow> ingestion_request \<Rightarrow> tabular_row \<Rightarrow> validation_finding list \<Rightarrow> staged_record" where
  "stage_row lib request row findings =
     (let raw = raw_identity request row; project = fst (row_project request row) in
      \<lparr>sr_idempotencyKey = idempotencyKey (iq_sourceId request) (if raw = '''' then ''row-'' @ show_nat (tr_rowNumber row) else raw)
          (am_mappingVersion (iq_mapping request)),
       sr_sourceId = iq_sourceId request, sr_naturalKey = raw, sr_sourceVersion = am_mappingVersion (iq_mapping request),
       sr_observedAt = fst (readPeriod lib request row), sr_receivedAt = iq_receivedAt request, sr_rowNumber = tr_rowNumber row,
       sr_raw = tr_cells row, sr_projectId = project,
       sr_unresolvedReason = (case row_resolution request row of UNRESOLVED reason _ \<Rightarrow> Some reason | RESOLVED _ _ \<Rightarrow> None),
       sr_findings = findings,
       sr_disposition = (if findings = [] \<and> project \<noteq> None then ACCEPTED else QUARANTINED)\<rparr>)"

definition ingest_row :: "ingest_lib \<Rightarrow> ingestion_request \<Rightarrow> approved_field list \<Rightarrow> tabular_row \<Rightarrow> ingest_state \<Rightarrow> ingest_state" where
  "ingest_row lib request mapped row st =
     (let project = fst (row_project request row); period = fst (readPeriod lib request row);
          findings = row_findings lib request mapped (is_seenIdentities st) (is_seenPeriodKeys st) row;
          staged = stage_row lib request row findings
      in \<lparr>is_seenPeriodKeys = (case project of None \<Rightarrow> is_seenPeriodKeys st
                               | Some p \<Rightarrow> is_seenPeriodKeys st @ [period_key p period]),
          is_seenIdentities = (case project of None \<Rightarrow> is_seenIdentities st | Some p \<Rightarrow> is_seenIdentities st @ [p]),
          is_staged = is_staged st @ [staged],
          is_observations = is_observations st
            @ (if sr_disposition staged = ACCEPTED then row_observations lib request mapped row else [])\<rparr>)"

fun ingest_rows :: "ingest_lib \<Rightarrow> ingestion_request \<Rightarrow> approved_field list \<Rightarrow> tabular_row list \<Rightarrow> ingest_state \<Rightarrow> ingest_state" where
  "ingest_rows lib request mapped [] st = st"
| "ingest_rows lib request mapped (row # rows) st = ingest_rows lib request mapped rows (ingest_row lib request mapped row st)"

section \<open>The receipt\<close>

datatype source_kind = FILE_UPLOAD | CONNECTOR_SYNC | DOCUMENT_UPLOAD

record ingestion_receipt =
  rp_receiptId :: string
  rp_sourceId :: string
  rp_sourceName :: string
  rp_sourceKind :: source_kind
  rp_fingerprint :: string
  rp_byteLength :: nat
  rp_receivedAt :: instant
  rp_effectiveDate :: "string option"
  rp_recordsDetected :: nat
  rp_recordsAccepted :: nat
  rp_recordsQuarantined :: nat
  rp_projectsMatched :: nat
  rp_projectsUnresolved :: nat
  rp_fieldsMapped :: nat
  rp_fieldsIgnored :: nat
  rp_conceptsMapped :: "canonical_concept list"
  rp_conflictsDetected :: nat
  rp_authority :: authority_class
  rp_dataContext :: data_context
  rp_mappingVersion :: string
  rp_ingestionVersion :: string
  rp_pagesParsed :: "nat option"
  rp_chunksIndexed :: "nat option"
  rp_parseCompleteness :: "bool option"
  rp_notes :: "string list"

record ingestion_result =
  ir_receipt :: ingestion_receipt
  ir_staged :: "staged_record list"
  ir_observations :: "concept_observation list"
  ir_quarantined :: "staged_record list"
  ir_profile :: "column_profile list"
  ir_suggestions :: "mapping_suggestion list"
  ir_sheetName :: string
  ir_headers :: "string list"

definition shortId :: "ingest_lib \<Rightarrow> string \<Rightarrow> string list \<Rightarrow> string" where
  "shortId lib front parts = front @ ''-'' @ take 12 (il_sha256 lib (join_with '' '' parts))"

definition context_text :: "data_context \<Rightarrow> string" where
  "context_text c = (case c of CANONICAL \<Rightarrow> ''CANONICAL'' | APPROVED \<Rightarrow> ''APPROVED'' | VALIDATED \<Rightarrow> ''VALIDATED'' | SANDBOX \<Rightarrow> ''SANDBOX'')"

definition receipt_notes :: "ingestion_request \<Rightarrow> tabular_sheet \<Rightarrow> reconciliation \<Rightarrow> string list" where
  "receipt_notes request sheet rc =
     (let ignored = ignored_headers request sheet; formulas = length (filter (\<lambda>r. tr_formulaLike r \<noteq> []) (ts_rows sheet)) in
      (case rc_reason rc of None \<Rightarrow> [] | Some r \<Rightarrow> [r])
      @ (if ts_rowsTruncated sheet > 0
         then [show_nat (ts_rowsTruncated sheet) @ '' rows exceeded the ingestion row ceiling and were not read.''] else [])
      @ (if ignored \<noteq> [] then [''Columns read and not mapped: '' @ join_with '', '' ignored @ ''.''] else [])
      @ (if formulas > 0
         then [show_nat formulas @ '' rows contained a cell beginning with a spreadsheet execution '' @
               ''character. The value was preserved and neutralised so it cannot execute if this data is '' @
               ''ever exported and reopened in a spreadsheet.''] else [])
      @ [''Every accepted record entered the '' @ context_text (iq_dataContext request) @ '' data context. Nothing an '' @
         ''upload contributes reaches the governed executive figures in this POC.''])"

definition ingest_fresh :: ingest_state where
  "ingest_fresh = \<lparr>is_seenPeriodKeys = [], is_seenIdentities = [], is_staged = [], is_observations = []\<rparr>"

definition ingestSheet :: "ingest_lib \<Rightarrow> ingestion_request \<Rightarrow> tabular_sheet \<Rightarrow> ingestion_result" where
  "ingestSheet lib request sheet =
     (let mapped = mapped_fields request sheet;
          final = ingest_rows lib request mapped (ts_rows sheet) ingest_fresh;
          staged = is_staged final;
          rc = reconcile (iq_declaredRecordCount request) staged;
          accepted = filter (\<lambda>s. sr_disposition s = ACCEPTED) staged;
          quarantined = filter (\<lambda>s. sr_disposition s = QUARANTINED) staged;
          print = il_sha256 lib (iq_bytes request)
      in \<lparr>ir_receipt =
            \<lparr>rp_receiptId = shortId lib ''rcpt'' [iq_sourceId request, print], rp_sourceId = iq_sourceId request,
             rp_sourceName = iq_sourceName request, rp_sourceKind = FILE_UPLOAD, rp_fingerprint = print,
             rp_byteLength = length (iq_bytes request), rp_receivedAt = iq_receivedAt request,
             rp_effectiveDate = iq_effectiveDate request, rp_recordsDetected = length (ts_rows sheet),
             rp_recordsAccepted = (if rc_reconciled rc then length accepted else 0),
             rp_recordsQuarantined = (if rc_reconciled rc then length quarantined else length staged),
             rp_projectsMatched = card (set (map sr_projectId accepted)),
             rp_projectsUnresolved = card (set (map sr_naturalKey (filter (\<lambda>s. sr_projectId s = None) quarantined))),
             rp_fieldsMapped = length mapped, rp_fieldsIgnored = length (ignored_headers request sheet),
             rp_conceptsMapped = uniq (map af_concept mapped), rp_conflictsDetected = 0, rp_authority = iq_authority request,
             rp_dataContext = iq_dataContext request, rp_mappingVersion = am_mappingVersion (iq_mapping request),
             rp_ingestionVersion = INGESTION_VERSION, rp_pagesParsed = None, rp_chunksIndexed = None,
             rp_parseCompleteness = None, rp_notes = receipt_notes request sheet rc\<rparr>,
          ir_staged = staged,
          ir_observations = (if rc_reconciled rc then is_observations final else []),
          ir_quarantined = quarantined,
          ir_profile = profile (il_dateParse lib) sheet,
          ir_suggestions = suggestMappings (ts_headers sheet),
          ir_sheetName = ts_name sheet, ir_headers = ts_headers sheet\<rparr>)"

section \<open>Files and connectors\<close>

datatype detected_format = XLSX_FORMAT | PDF_FORMAT | TEXT_FORMAT | UNKNOWN_FORMAT

definition detectFormat :: "string \<Rightarrow> detected_format" where
  "detectFormat bytes =
     (if length bytes > 5 \<and> take 5 bytes = ''%PDF-'' then PDF_FORMAT
      else if length bytes > 4 \<and> take 2 bytes = ''PK'' then XLSX_FORMAT
      else let window = take 1024 bytes in
        if list_ex (\<lambda>b. (of_char b :: nat) = 0) window then UNKNOWN_FORMAT
        else if window = [] then UNKNOWN_FORMAT else TEXT_FORMAT)"

datatype upload_error = UnreadableUpload string | WorkbookError

definition readSheet :: "ingest_lib \<Rightarrow> ingestion_request \<Rightarrow> detected_format \<Rightarrow> upload_error + tabular_sheet" where
  "readSheet lib request format =
     (if format = XLSX_FORMAT
      then (case il_xlsx lib (iq_bytes request) of
              None \<Rightarrow> Inl WorkbookError
            | Some sheets \<Rightarrow> (case sheets of [] \<Rightarrow> Inl (UnreadableUpload ''The workbook contains no readable sheet.'') | s # _ \<Rightarrow> Inr s))
      else if format = TEXT_FORMAT then Inr (parseCsv (iq_bytes request) (iq_fileName request) DEFAULT_TABULAR_BUDGET)
      else Inl (UnreadableUpload (iq_fileName request @
        '' is not a workbook or a delimited text file. The file's own bytes decide this, not its extension.'')))"

definition ingestStructured :: "ingest_lib \<Rightarrow> ingestion_request \<Rightarrow> upload_error + ingestion_result" where
  "ingestStructured lib request =
     and_then (readSheet lib request (detectFormat (iq_bytes request))) (\<lambda>sheet. Inr (ingestSheet lib request sheet))"

record connector_record =
  cr_naturalKey :: string
  cr_observedAt :: "string option"
  cr_fields :: "(string, string) js_map"

definition connector_sheet :: "string \<Rightarrow> connector_record list \<Rightarrow> tabular_sheet" where
  "connector_sheet sourceName records =
     \<lparr>ts_name = sourceName, ts_headers = uniq (concat (map (\<lambda>r. map fst (cr_fields r)) records)),
      ts_rows = map (\<lambda>(i, r). \<lparr>tr_rowNumber = i + 2, tr_cells = cr_fields r, tr_formulaLike = [], tr_uncachedFormula = []\<rparr>)
        (enumerate 0 records),
      ts_rowsTruncated = 0\<rparr>"

definition ingestConnectorRecords :: "ingest_lib \<Rightarrow> ingestion_request \<Rightarrow> connector_record list \<Rightarrow> ingestion_result" where
  "ingestConnectorRecords lib request records =
     ingestSheet lib (request\<lparr>iq_bytes := [], iq_fileName := iq_sourceName request\<rparr>) (connector_sheet (iq_sourceName request) records)"

section \<open>The durable store of staged records\<close>

text \<open>\<open>InMemoryStores.putStaged\<close> of \<open>app/ingestion/ports.ts\<close>, under the keys \<open>SourceRegistry.addStaged\<close> gives.\<close>

definition putStaged :: "staged_record list \<Rightarrow> (string, staged_record) js_map \<Rightarrow> (string, staged_record) js_map" where
  "putStaged staged m = foldl (\<lambda>m s. js_set (sr_idempotencyKey s) s m) m staged"

section \<open>Rows are accounted for\<close>

lemma ingest_row_fields:
  "is_staged (ingest_row lib request mapped row st) = is_staged st
     @ [stage_row lib request row (row_findings lib request mapped (is_seenIdentities st) (is_seenPeriodKeys st) row)]"
  by (simp add: ingest_row_def Let_def)

text \<open>The projects, and the periods with their projects, that the rows before a row were resolved to.\<close>

definition earlier_projects :: "ingestion_request \<Rightarrow> tabular_row list \<Rightarrow> string list" where
  "earlier_projects request rows = concat (map (\<lambda>r. case fst (row_project request r) of None \<Rightarrow> [] | Some p \<Rightarrow> [p]) rows)"

definition earlier_periods :: "ingest_lib \<Rightarrow> ingestion_request \<Rightarrow> tabular_row list \<Rightarrow> string list" where
  "earlier_periods lib request rows = concat (map (\<lambda>r. case fst (row_project request r) of
     None \<Rightarrow> [] | Some p \<Rightarrow> [period_key p (fst (readPeriod lib request r))]) rows)"

lemma ingest_rows_snoc: "ingest_rows lib request mapped (rows @ [row]) st = ingest_row lib request mapped row (ingest_rows lib request mapped rows st)"
  by (induction rows arbitrary: st) simp_all

lemma ingest_rows_seen:
  "is_seenIdentities (ingest_rows lib request mapped rows ingest_fresh) = earlier_projects request rows"
  "is_seenPeriodKeys (ingest_rows lib request mapped rows ingest_fresh) = earlier_periods lib request rows"
  by (induction rows rule: rev_induct)
    (auto simp: ingest_rows_snoc ingest_row_def Let_def ingest_fresh_def earlier_projects_def earlier_periods_def split: option.splits)

lemma ingest_rows_staged:
  "is_staged (ingest_rows lib request mapped rows ingest_fresh) = map (\<lambda>i. stage_row lib request (rows ! i)
     (row_findings lib request mapped (earlier_projects request (take i rows)) (earlier_periods lib request (take i rows)) (rows ! i)))
   [0..<length rows]"
proof (induction rows rule: rev_induct)
  case (snoc row rows)
  then show ?case by (simp add: ingest_rows_snoc ingest_row_fields ingest_rows_seen nth_append)
qed (simp add: ingest_fresh_def)

lemma dispositions: "length (filter (\<lambda>s. sr_disposition s = ACCEPTED) xs) + length (filter (\<lambda>s. sr_disposition s = QUARANTINED) xs) = length xs"
proof (induction xs)
  case (Cons s xs)
  then show ?case by (cases "sr_disposition s") simp_all
qed simp

lemma reconciled_iff: "rc_reconciled (reconcile d staged) \<longleftrightarrow> d = None \<or> d = Some (length staged)"
  by (auto simp: reconcile_def Let_def split: option.splits)

text \<open>C23: every row of a sheet is accounted for. There is one staged record for each row, in the order of the sheet; it
  keeps the row's number, its cells as read, its identifier and the project and period they resolve to; its findings are
  those of its own cells together with the duplicates of the projects and periods of the rows before it; and it is accepted
  exactly when it has no finding and a project. The receipt counts the accepted and the quarantined records when the source
  declared no number of records or the right one. On another declared number it counts none as accepted and all as
  quarantined and nothing is observed, though the staged records keep the disposition they have.\<close>

theorem every_row_accounted:
  "let result = ingestSheet lib request sheet; rows = ts_rows sheet; n = length rows;
       staged = ir_staged result; receipt = ir_receipt result in
   length staged = n \<and> rp_recordsDetected receipt = n
   \<and> list_all (\<lambda>i. let s = staged ! i; row = rows ! i in
        sr_rowNumber s = tr_rowNumber row \<and> sr_raw s = tr_cells row \<and> sr_naturalKey s = raw_identity request row
        \<and> sr_projectId s = fst (row_project request row) \<and> sr_observedAt s = fst (readPeriod lib request row)
        \<and> sr_findings s = row_findings lib request (mapped_fields request sheet)
             (earlier_projects request (take i rows)) (earlier_periods lib request (take i rows)) row
        \<and> sr_disposition s = (if sr_findings s = [] \<and> sr_projectId s \<noteq> None then ACCEPTED else QUARANTINED)) [0..<n]
   \<and> (if iq_declaredRecordCount request \<in> {None, Some n}
      then rp_recordsAccepted receipt = length (filter (\<lambda>s. sr_disposition s = ACCEPTED) staged)
        \<and> rp_recordsQuarantined receipt = length (filter (\<lambda>s. sr_disposition s = QUARANTINED) staged)
        \<and> rp_recordsAccepted receipt + rp_recordsQuarantined receipt = n
      else rp_recordsAccepted receipt = 0 \<and> rp_recordsQuarantined receipt = n \<and> ir_observations result = [])"
proof -
  let ?result = "ingestSheet lib request sheet" and ?rows = "ts_rows sheet"
  let ?fs = "\<lambda>i. row_findings lib request (mapped_fields request sheet)
      (earlier_projects request (take i ?rows)) (earlier_periods lib request (take i ?rows)) (?rows ! i)"
  have staged: "ir_staged ?result = map (\<lambda>i. stage_row lib request (?rows ! i) (?fs i)) [0..<length ?rows]"
    by (simp add: ingestSheet_def Let_def ingest_rows_staged)
  then have n: "length (ir_staged ?result) = length ?rows" by simp
  have receipt: "rp_recordsDetected (ir_receipt ?result) = length ?rows"
    "rp_recordsAccepted (ir_receipt ?result) = (if rc_reconciled (reconcile (iq_declaredRecordCount request) (ir_staged ?result))
      then length (filter (\<lambda>s. sr_disposition s = ACCEPTED) (ir_staged ?result)) else 0)"
    "rp_recordsQuarantined (ir_receipt ?result) = (if rc_reconciled (reconcile (iq_declaredRecordCount request) (ir_staged ?result))
      then length (filter (\<lambda>s. sr_disposition s = QUARANTINED) (ir_staged ?result)) else length (ir_staged ?result))"
    "\<not> rc_reconciled (reconcile (iq_declaredRecordCount request) (ir_staged ?result)) \<Longrightarrow> ir_observations ?result = []"
    by (simp_all add: ingestSheet_def Let_def)
  have row: "ir_staged ?result ! i = stage_row lib request (?rows ! i) (?fs i)" if "i < length ?rows" for i
    using that by (simp add: staged)
  show ?thesis
    unfolding Let_def list_all_iff
    using receipt n dispositions [of "ir_staged ?result"] row
    by (auto simp: stage_row_def Let_def reconciled_iff)
qed

section \<open>The quarantine gate\<close>

lemma observation_shape:
  assumes "x \<in> set (snd (field_outcome request p period row f))"
  shows "co_sourceId x = iq_sourceId request \<and> co_projectId x = p \<and> co_observedAt x = period
    \<and> co_concept x = af_concept f \<and> co_authority x = authorityOf (iq_registry request) (iq_sourceId request) (co_concept x)
    \<and> co_dataContext x = iq_dataContext request \<and> co_sourceVersion x = am_mappingVersion (iq_mapping request)"
  using assms by (auto simp: field_outcome_def Let_def row_observation_def split: if_splits option.splits)

definition backed :: "ingestion_request \<Rightarrow> staged_record list \<Rightarrow> concept_observation \<Rightarrow> bool" where
  "backed request staged x \<longleftrightarrow> (\<exists>s\<in>set staged. sr_disposition s = ACCEPTED \<and> sr_findings s = []
     \<and> sr_projectId s = Some (co_projectId x) \<and> sr_observedAt s = co_observedAt x \<and> sr_sourceId s = co_sourceId x)
   \<and> co_sourceId x = iq_sourceId request \<and> co_projectId x \<in> set (iq_knownProjectIds request)
   \<and> co_authority x = authorityOf (iq_registry request) (iq_sourceId request) (co_concept x)"

lemma backed_mono: "backed request xs x \<Longrightarrow> set xs \<subseteq> set ys \<Longrightarrow> backed request ys x"
  unfolding backed_def by blast

lemma known_project: "fst (row_project request row) = Some p \<Longrightarrow> p \<in> set (iq_knownProjectIds request)"
  by (auto simp: row_project_def Let_def split: identity_resolution.splits if_splits)

lemma row_backed:
  assumes "sr_disposition (stage_row lib request row fs) = ACCEPTED" "x \<in> set (row_observations lib request mapped row)"
  shows "backed request [stage_row lib request row fs] x"
proof -
  obtain p where p: "fst (row_project request row) = Some p" "fs = []"
    using assms(1) by (auto simp: stage_row_def Let_def split: if_splits)
  obtain f where "x \<in> set (snd (field_outcome request p (fst (readPeriod lib request row)) row f))"
    using assms(2) p by (auto simp: row_observations_def)
  from observation_shape [OF this] show ?thesis
    using p known_project [OF p(1)] by (simp add: backed_def stage_row_def Let_def)
qed

lemma rows_backed:
  "\<forall>x\<in>set (is_observations st). backed request (is_staged st) x \<Longrightarrow>
    \<forall>x\<in>set (is_observations (ingest_rows lib request mapped rows st)). backed request (is_staged (ingest_rows lib request mapped rows st)) x"
proof (induction rows arbitrary: st)
  case (Cons row rows)
  let ?st = "ingest_row lib request mapped row st"
  let ?s = "stage_row lib request row (row_findings lib request mapped (is_seenIdentities st) (is_seenPeriodKeys st) row)"
  have staged: "is_staged ?st = is_staged st @ [?s]" by (rule ingest_row_fields)
  have "is_observations ?st = is_observations st @ (if sr_disposition ?s = ACCEPTED then row_observations lib request mapped row else [])"
    by (simp add: ingest_row_def Let_def)
  then have "backed request (is_staged ?st) x" if "x \<in> set (is_observations ?st)" for x
    using that Cons.prems backed_mono [of request "is_staged st" x "is_staged ?st"]
      backed_mono [of request "[?s]" x "is_staged ?st"] row_backed [of lib request row _ x mapped]
    unfolding staged by (auto split: if_splits)
  then show ?case using Cons.IH [of ?st] by simp
qed simp

text \<open>C22: the quarantine gate. Every observation of a result comes from an accepted record without a finding, about a
  project the portfolio knows, and carries the authority the registry grants its source for the concept, whatever the
  request claims.\<close>

theorem quarantined_rows_teach_nothing:
  "list_all (\<lambda>x. (\<exists>s\<in>set (ir_staged (ingestSheet lib request sheet)). sr_disposition s = ACCEPTED \<and> sr_findings s = []
        \<and> sr_projectId s = Some (co_projectId x) \<and> sr_observedAt s = co_observedAt x)
      \<and> co_projectId x \<in> set (iq_knownProjectIds request)
      \<and> co_authority x = authorityOf (iq_registry request) (iq_sourceId request) (co_concept x))
    (ir_observations (ingestSheet lib request sheet))"
proof -
  have "\<forall>x\<in>set (is_observations (ingest_rows lib request (mapped_fields request sheet) (ts_rows sheet) ingest_fresh)).
      backed request (is_staged (ingest_rows lib request (mapped_fields request sheet) (ts_rows sheet) ingest_fresh)) x"
    by (rule rows_backed) (simp add: ingest_fresh_def)
  then show ?thesis unfolding list_all_iff by (auto simp: ingestSheet_def Let_def backed_def)
qed

section \<open>One record for a project and period\<close>

definition accepted_slots :: "staged_record list \<Rightarrow> (string \<times> string option) list" where
  "accepted_slots staged = map (\<lambda>s. (nullish (sr_projectId s) '''', sr_observedAt s)) (filter (\<lambda>s. sr_disposition s = ACCEPTED) staged)"

text \<open>The periods seen so far cover every accepted record.\<close>

definition slots_seen :: "ingest_state \<Rightarrow> bool" where
  "slots_seen st \<longleftrightarrow> distinct (accepted_slots (is_staged st))
     \<and> (\<forall>(p, period)\<in>set (accepted_slots (is_staged st)). period_key p period \<in> set (is_seenPeriodKeys st))"

lemma row_slots:
  assumes "slots_seen st"
  shows "slots_seen (ingest_row lib request mapped row st)"
proof -
  let ?fs = "row_findings lib request mapped (is_seenIdentities st) (is_seenPeriodKeys st) row"
  let ?s = "stage_row lib request row ?fs" and ?period = "fst (readPeriod lib request row)"
  have staged: "is_staged (ingest_row lib request mapped row st) = is_staged st @ [?s]" by (rule ingest_row_fields)
  show ?thesis
  proof (cases "sr_disposition ?s = ACCEPTED")
    case True
    then obtain p where p: "fst (row_project request row) = Some p" and none: "?fs = []"
      by (auto simp: stage_row_def Let_def split: if_splits)
    have "duplicate_findings request (is_seenIdentities st) (is_seenPeriodKeys st) (Some p) ?period = []"
      using none p by (simp add: row_findings_def Let_def)
    then have new: "period_key p ?period \<notin> set (is_seenPeriodKeys st)"
      by (auto simp: duplicate_findings_def split: if_splits)
    have slot: "accepted_slots [?s] = [(p, ?period)]" using True p by (simp add: accepted_slots_def stage_row_def Let_def)
    have "accepted_slots (is_staged st @ [?s]) = accepted_slots (is_staged st) @ [(p, ?period)]"
      using slot by (simp add: accepted_slots_def)
    moreover have "is_seenPeriodKeys (ingest_row lib request mapped row st) = is_seenPeriodKeys st @ [period_key p ?period]"
      using p by (simp add: ingest_row_def Let_def)
    ultimately show ?thesis using assms new unfolding slots_seen_def staged by auto
  next
    case False
    then have "accepted_slots (is_staged st @ [?s]) = accepted_slots (is_staged st)" by (simp add: accepted_slots_def)
    moreover have "set (is_seenPeriodKeys st) \<subseteq> set (is_seenPeriodKeys (ingest_row lib request mapped row st))"
      by (auto simp: ingest_row_def Let_def split: option.splits)
    ultimately show ?thesis using assms unfolding slots_seen_def staged by auto
  qed
qed

lemma rows_slots: "slots_seen st \<Longrightarrow> slots_seen (ingest_rows lib request mapped rows st)"
  by (induction rows arbitrary: st) (simp_all add: row_slots)

text \<open>No project and period is counted twice: among the accepted records of a file each pair occurs once, whatever
  the rows, so no figure of the file enters twice.\<close>

theorem accepted_once_per_period:
  "distinct (map (\<lambda>s. (sr_projectId s, sr_observedAt s))
     (filter (\<lambda>s. sr_disposition s = ACCEPTED) (ir_staged (ingestSheet lib request sheet))))"
proof -
  let ?acc = "filter (\<lambda>s. sr_disposition s = ACCEPTED) (ir_staged (ingestSheet lib request sheet))"
  have "slots_seen (ingest_rows lib request (mapped_fields request sheet) (ts_rows sheet) ingest_fresh)"
    by (rule rows_slots) (simp add: ingest_fresh_def slots_seen_def accepted_slots_def)
  then have "distinct (map (\<lambda>s. (nullish (sr_projectId s) '''', sr_observedAt s)) ?acc)"
    by (simp add: slots_seen_def accepted_slots_def ingestSheet_def Let_def)
  then have "distinct (map (\<lambda>(p, t). (nullish p '''', t)) (map (\<lambda>s. (sr_projectId s, sr_observedAt s)) ?acc))"
    by (simp add: comp_def)
  then show ?thesis by (simp only: distinct_map)
qed

section \<open>What the receipt and the keys do not tell\<close>

text \<open>The idempotency key holds the project's identifier and no period: the records of one project, one for each period
  of a file, share it.\<close>

lemma periods_share_a_key:
  assumes "raw_identity request row = raw_identity request row'" "raw_identity request row \<noteq> ''''"
  shows "sr_idempotencyKey (stage_row lib request row fs) = sr_idempotencyKey (stage_row lib request row' fs')"
  using assms by (simp add: stage_row_def Let_def)

lemma putStaged_keys: "distinct (map fst m) \<Longrightarrow> distinct (map fst (putStaged xs m))
    \<and> set (map fst (putStaged xs m)) = set (map fst m) \<union> set (map sr_idempotencyKey xs)"
proof (induction xs arbitrary: m)
  case (Cons x xs)
  let ?m = "js_set (sr_idempotencyKey x) x m"
  have "distinct (map fst ?m)" "set (map fst ?m) = insert (sr_idempotencyKey x) (set (map fst m))"
    unfolding js_set_keys using Cons.prems by auto
  then show ?case using Cons.IH [of ?m] by (simp add: putStaged_def)
qed (simp add: putStaged_def)

text \<open>So the store keeps one record for a project, and a restart finds fewer records than were staged.\<close>

lemma store_keeps_one_per_key: "length (putStaged staged []) = card (set (map sr_idempotencyKey staged))"
  using putStaged_keys [of "[]" staged] distinct_card [of "map fst (putStaged staged [])"] by simp

text \<open>A batch that does not reconcile is not quarantined record by record: what the result lists as quarantined does
  not depend on the declared count.\<close>

lemma unreconciled_not_quarantined:
  "ir_quarantined (ingestSheet lib request sheet) = filter (\<lambda>s. sr_disposition s = QUARANTINED) (ir_staged (ingestSheet lib request sheet))"
  by (simp add: ingestSheet_def Let_def)

text \<open>Receipts of a connector: every synchronisation of a source has the same identifier, and the kind of an upload.\<close>

lemma connector_receipts_alike:
  assumes "iq_sourceId request = iq_sourceId request'"
  shows "rp_receiptId (ir_receipt (ingestConnectorRecords lib request records))
      = rp_receiptId (ir_receipt (ingestConnectorRecords lib request' records'))"
    and "rp_sourceKind (ir_receipt (ingestConnectorRecords lib request records)) = FILE_UPLOAD"
  using assms by (simp_all add: ingestConnectorRecords_def ingestSheet_def Let_def)

section \<open>Three rows\<close>

definition sample_lib_ingest :: ingest_lib where
  "sample_lib_ingest = \<lparr>il_dateParse = (\<lambda>_. None), il_sha256 = (\<lambda>_. ''5feceb66ffc8''), il_xlsx = (\<lambda>_. None)\<rparr>"

definition sample_upload :: "string \<Rightarrow> ingestion_request" where
  "sample_upload content =
     \<lparr>iq_sourceId = ''S'', iq_sourceName = ''Extract'', iq_fileName = ''x.csv'', iq_bytes = content,
      iq_mapping = \<lparr>am_mappingVersion = ''v1'', am_identityField = ''id'', am_identitySystem = UPLOAD, am_periodField = None,
        am_fields = [\<lparr>af_sourceField = ''cost'', af_concept = FINANCIAL_ACTUAL_COST, af_required = True, af_kind = NUMERIC, af_nonNegative = True\<rparr>]\<rparr>,
      iq_identity = declareAll [\<lparr>im_projectId = ''P1'', im_system = UPLOAD, im_externalId = ''A-1'', im_declaredBy = ''pmo''\<rparr>] [],
      iq_registry = [], iq_authority = AUTHORITATIVE, iq_dataContext = SANDBOX, iq_receivedAt = Instant 0 [], iq_effectiveDate = None,
      iq_declaredRecordCount = None, iq_knownProjectIds = [''P1'']\<rparr>"

definition sample_row :: "nat \<Rightarrow> string \<Rightarrow> string \<Rightarrow> tabular_row" where
  "sample_row n x cost = \<lparr>tr_rowNumber = n, tr_cells = [(''id'', x), (''cost'', cost)], tr_formulaLike = [], tr_uncachedFormula = []\<rparr>"

text \<open>A negative amount and an unknown identifier are quarantined with their reasons; a good row is accepted, with the
  authority of an unregistered source; a repeated project is quarantined.\<close>

lemma sample_ingested:
  "let st = ingest_rows sample_lib_ingest (sample_upload '''') (am_fields (iq_mapping (sample_upload '''')))
      [sample_row 2 ''B-7'' ''1'', sample_row 3 '' a-1'' ''$1,200'', sample_row 4 ''A-1'' ''(3)''] ingest_fresh
   in (map (\<lambda>s. map vf_code (sr_findings s)) (is_staged st), map (\<lambda>x. (co_projectId x, co_value x, co_authority x)) (is_observations st))
    = ([[UNRESOLVED_IDENTITY], [], [DUPLICATE_PROJECT_ID, DUPLICATE_PERIOD_RECORD, PROHIBITED_NEGATIVE_AMOUNT]],
       [(''P1'', ''1200'', UNVERIFIED)])"
  by code_simp

end
