(* ===== verification/Unit_Scores.thy ===== *)
theory Unit_Scores
  imports Exact_Sums
begin

text \<open>
  Scores between nothing and everything: what the clamps, the quotients and the percentages of the engines have in
  common, under every rounding of the decimal arithmetic.
\<close>

lemma clamp_unit: "0 \<le> qval (qClamp v Q_ZERO Q_ONE) \<and> qval (qClamp v Q_ZERO Q_ONE) \<le> 1"
  by (simp add: qClamp_def qMin_def qMax_def qCompare_sign)

lemma clamp_above: "1 \<le> qval v \<Longrightarrow> qval (qClamp v Q_ZERO Q_ONE) = 1"
  and clamp_below: "qval v \<le> 0 \<Longrightarrow> qval (qClamp v Q_ZERO Q_ONE) = 0"
  by (auto simp: qClamp_def qMin_def qMax_def qCompare_sign)

text \<open>A measured part lies between nothing and everything, and its weight is written exactly.\<close>

definition unit_interval :: "quantity \<Rightarrow> bool" where
  "unit_interval v \<longleftrightarrow> 0 \<le> qval v \<and> qval v \<le> 1"

definition sound_weight :: "quantity \<Rightarrow> bool" where
  "sound_weight w \<longleftrightarrow> 0 \<le> mant w \<and> mant w < 10 ^ 34"

lemma sound_weight_fits: "sound_weight w \<Longrightarrow> 0 \<le> qval w \<and> fits q_precision (qval w)"
  by (cases w) (auto simp: sound_weight_def q_precision_def intro: fits_places)

text \<open>Amounts that add up exactly: at most a million of them, each at most a million with at most six decimals.\<close>

definition small_amounts :: "quantity list \<Rightarrow> bool" where
  "small_amounts ws \<longleftrightarrow>
     length ws \<le> 10 ^ 6 \<and> list_all (\<lambda>w. 0 \<le> qval w \<and> qval w \<le> 10 ^ 6 \<and> places w \<le> 6) ws"

lemma small_sum:
  assumes "small_amounts ws"
  shows "0 \<le> sum_list (map qval ws)" "sum_list (map qval ws) \<le> 10 ^ 12"
proof -
  show "0 \<le> sum_list (map qval ws)"
    using assms by (intro sum_list_nonneg) (auto simp: small_amounts_def list_all_iff)
  have "sum_list (map qval ws) \<le> sum_list (map (\<lambda>_. 10 ^ 6) ws)"
    using assms by (intro sum_list_mono) (auto simp: small_amounts_def list_all_iff)
  also have "\<dots> = of_nat (length ws) * 10 ^ 6" by (simp add: sum_list_triv)
  also have "\<dots> \<le> of_nat (10 ^ 6) * 10 ^ 6"
    using assms by (intro mult_right_mono) (simp_all only: of_nat_le_iff small_amounts_def, simp)
  finally show "sum_list (map qval ws) \<le> 10 ^ 12" by simp
qed

lemma small_part: "small_amounts (map f xs) \<Longrightarrow> small_amounts (map f (filter P xs))"
  unfolding small_amounts_def by (auto simp: list_all_iff intro: order_trans [OF length_filter_le])

lemma part_le_whole: "small_amounts (map f xs) \<Longrightarrow> sum_list (map (\<lambda>x. qval (f x)) (filter P xs)) \<le> sum_list (map (\<lambda>x. qval (f x)) xs)"
  unfolding small_amounts_def by (induction xs) auto

context decimal_lib begin

lemma quotient_unit: "qDiv dj a b = Some q \<Longrightarrow> 0 \<le> qval a \<Longrightarrow> qval a \<le> qval b \<Longrightarrow> unit_interval q"
  using qDiv_Some [of a b q] round_nonneg [of "qval a / qval b" q_precision]
    round_le_fits [of "qval a / qval b" 1 q_precision] fits_1 [of q_precision]
  by (simp add: unit_interval_def divide_le_eq_1 divide_nonneg_nonneg)

lemma scaled_part:
  assumes "unit_interval v" "sound_weight w"
  shows "0 \<le> qval (qMul dj v w)" "qval (qMul dj v w) \<le> qval w"
  using assms sound_weight_fits [of w]
  by (auto simp: unit_interval_def qval_ops intro!: round_nonneg round_le_fits mult_left_le_one_le)

lemma percentage_bounds:
  assumes "unit_interval r"
  shows "0 \<le> qval (qFixed dj (qMul dj r Q_HUNDRED) 2) \<and> qval (qFixed dj (qMul dj r Q_HUNDRED) 2) \<le> 100"
proof -
  have "0 \<le> qval (qMul dj r Q_HUNDRED)" "qval (qMul dj r Q_HUNDRED) \<le> 100"
    using assms round_nonneg round_le_fits [OF _ fits_100(2)] by (simp_all add: qval_ops unit_interval_def)
  from fixed_bounds [OF this, of 0 100 2] show ?thesis unfolding qFixed_def by simp
qed

lemma small_total: "small_amounts (map f xs) \<Longrightarrow> qval (foldl (\<lambda>a x. qAdd dj a (f x)) Q_ZERO xs) = sum_list (map (\<lambda>x. qval (f x)) xs)"
proof -
  assume m: "small_amounts (map f xs)"
  have fold: "qval (foldl (\<lambda>a x. qAdd dj a (f x)) q ys) = foldl (\<lambda>a w. dround dj q_precision (a + qval w)) (qval q) (map f ys)" for q ys
    by (induction ys arbitrary: q) (simp_all add: qval_ops)
  have "sum_list (map qval (map f xs)) < 10 ^ q_precision / 10 ^ 6"
    using small_sum(2) [OF m] by (simp add: q_precision_def)
  then show ?thesis
    using weights_exact [of "map f xs" 6] m unfolding fold by (simp add: small_amounts_def list_all_iff comp_def)
qed

lemma part_unit:
  assumes "small_amounts (map f xs)"
    "qDiv dj (foldl (\<lambda>a x. qAdd dj a (f x)) Q_ZERO (filter P xs)) (foldl (\<lambda>a x. qAdd dj a (f x)) Q_ZERO xs) = Some q"
  shows "unit_interval q"
  using quotient_unit [OF assms(2)] small_total [OF assms(1)] small_total [OF small_part [OF assms(1)], of P]
    part_le_whole [OF assms(1), of P] small_sum(1) [OF small_part [OF assms(1)], of P]
  by (simp add: comp_def)

end

end
