(* ===== verification/Data_Confidence.thy ===== *)
theory Data_Confidence
  imports Unit_Scores Decimal_Reference Explainability
begin

text \<open>
  \<open>contexts/data-quality/internal/confidence-engine.ts\<close>: how far the data behind an assessment can be trusted (a
  weighted score, and a band under the ceiling of the critical domains), and how far a project's own forecasts can.
  Counts and ages are the integers the sources report, without the exponent that JavaScript writes from 10^21 on.
\<close>

section \<open>Data\<close>

datatype confidence_band = HIGH | MEDIUM | LOW

fun band_text :: "confidence_band \<Rightarrow> string" where
  "band_text HIGH = ''HIGH''"
| "band_text MEDIUM = ''MEDIUM''"
| "band_text LOW = ''LOW''"

record domain_observation =
  ob_domain :: string
  ob_requiredFields :: int
  ob_populatedFields :: int
  ob_valuesChecked :: int
  ob_valuesValid :: int
  ob_invalidFields :: "string list"
  ob_assertionsEvaluated :: int
  ob_assertionsPassed :: int
  ob_failedAssertions :: "string list"
  ob_ageDays :: "int option"
  ob_expectedCadenceDays :: int
  ob_evidence :: "record_ref list"

record confidence_weights =
  cw_completeness :: quantity
  cw_freshness :: quantity
  cw_consistency :: quantity
  cw_coverage :: quantity
  cw_validity :: quantity
  cw_highBandFloor :: quantity
  cw_mediumBandFloor :: quantity
  cw_stalenessRedMultiple :: quantity
  cw_criticalDomains :: "string list"
  cw_criticalStalenessTolerance :: quantity
  cw_freshnessPolicyVersion :: string

record data_confidence_input =
  ci_projectId :: string
  ci_week :: week_id
  ci_assessedAt :: instant
  ci_ruleVersion :: rule_version
  ci_metricCatalogVersion :: string
  ci_expectedDomains :: "string list"
  ci_observations :: "domain_observation list"
  ci_assessmentEvidence :: "record_ref list"
  ci_weights :: confidence_weights

record stale_critical_domain =
  sd_domain :: string
  sd_ageDays :: int
  sd_expectedCadenceDays :: int
  sd_toleranceDays :: quantity

record data_confidence_assessment =
  ca_projectId :: string
  ca_week :: week_id
  ca_assessedAt :: instant
  ca_completeness :: "quantity option"
  ca_freshnessDays :: "int option"
  ca_consistency :: "quantity option"
  ca_sourceCoverage :: "quantity option"
  ca_validity :: "quantity option"
  ca_confidenceScore :: "quantity option"
  ca_arithmeticBand :: confidence_band
  ca_band :: confidence_band
  ca_bandCappedBy :: "string option"
  ca_staleCriticalDomains :: "stale_critical_domain list"
  ca_silentCriticalDomains :: "string list"
  ca_freshnessPolicyVersion :: string
  ca_missingDomains :: "string list"
  ca_failedAssertions :: "string list"
  ca_invalidFields :: "string list"
  ca_explanation :: explanation

text \<open>\<open>qty(String(n))\<close>.\<close>

definition q_count :: "int \<Rightarrow> quantity" where "q_count n = Qty n 0"

definition s_unless_one :: "'a list \<Rightarrow> string" where
  "s_unless_one xs = (if length xs = 1 then '''' else ''s'')"

section \<open>The components of the score\<close>

definition share :: "decimal_js \<Rightarrow> (int \<times> int) list \<Rightarrow> quantity option" where
  "share dj pairs =
     (let num = foldl (\<lambda>a p. a + fst p) 0 pairs; den = foldl (\<lambda>a p. a + snd p) 0 pairs
      in if den = 0 then None else qDiv dj (q_count num) (q_count den))"

definition reporting_domains :: "data_confidence_input \<Rightarrow> string list" where
  "reporting_domains input = rev (remdups (rev (map ob_domain (ci_observations input))))"

definition missingDomains :: "data_confidence_input \<Rightarrow> string list" where
  "missingDomains input = filter (\<lambda>d. d \<notin> set (reporting_domains input)) (ci_expectedDomains input)"

definition completeness_of :: "decimal_js \<Rightarrow> data_confidence_input \<Rightarrow> quantity option" where
  "completeness_of dj input = share dj (map (\<lambda>o'. (ob_populatedFields o', ob_requiredFields o')) (ci_observations input))"

definition consistency_of :: "decimal_js \<Rightarrow> data_confidence_input \<Rightarrow> quantity option" where
  "consistency_of dj input = share dj (map (\<lambda>o'. (ob_assertionsPassed o', ob_assertionsEvaluated o')) (ci_observations input))"

definition validity_of :: "decimal_js \<Rightarrow> data_confidence_input \<Rightarrow> quantity option" where
  "validity_of dj input = share dj (map (\<lambda>o'. (ob_valuesValid o', ob_valuesChecked o')) (ci_observations input))"

definition sourceCoverage :: "decimal_js \<Rightarrow> data_confidence_input \<Rightarrow> quantity option" where
  "sourceCoverage dj input =
     (if length (ci_expectedDomains input) = 0 then None
      else qDiv dj (q_nat (length (reporting_domains input))) (q_nat (length (ci_expectedDomains input))))"

definition freshnessDays :: "data_confidence_input \<Rightarrow> int option" where
  "freshnessDays input =
     (let ages = List.map_filter ob_ageDays (ci_observations input)
      in if length ages = 0 then None else Some (Max (set ages)))"

definition domain_freshness :: "decimal_js \<Rightarrow> quantity \<Rightarrow> domain_observation \<Rightarrow> quantity" where
  "domain_freshness dj redMultiple o' =
     (case ob_ageDays o' of
        None \<Rightarrow> Q_ZERO
      | Some age \<Rightarrow>
          let cadence = q_count (ob_expectedCadenceDays o');
              red = qMul dj cadence redMultiple;
              over = qSub dj (q_count age) cadence;
              span = qSub dj red cadence
          in if qCompare over Q_ZERO \<le> 0 then Q_ONE
             else case qDiv dj over span of
                    None \<Rightarrow> Q_ZERO
                  | Some decayed \<Rightarrow> qClamp (qSub dj Q_ONE decayed) Q_ZERO Q_ONE)"

definition freshnessScore :: "decimal_js \<Rightarrow> data_confidence_input \<Rightarrow> quantity option" where
  "freshnessScore dj input =
     (let scores = map (domain_freshness dj (cw_stalenessRedMultiple (ci_weights input))) (ci_observations input)
      in if length scores = 0 then None
         else Some (foldl (\<lambda>worst s. if qCompare s worst < 0 then s else worst) Q_ONE scores))"

record confidence_component =
  cc_id :: string
  cc_metricId :: string
  cc_value :: "quantity option"
  cc_weight :: quantity

definition components_of :: "decimal_js \<Rightarrow> data_confidence_input \<Rightarrow> confidence_component list" where
  "components_of dj input =
     (let w = ci_weights input in
      [\<lparr>cc_id = ''COMPLETENESS'', cc_metricId = ''MET-DQ-001'', cc_value = completeness_of dj input, cc_weight = cw_completeness w\<rparr>,
       \<lparr>cc_id = ''FRESHNESS'', cc_metricId = ''MET-DQ-002'', cc_value = freshnessScore dj input, cc_weight = cw_freshness w\<rparr>,
       \<lparr>cc_id = ''CONSISTENCY'', cc_metricId = ''MET-DQ-003'', cc_value = consistency_of dj input, cc_weight = cw_consistency w\<rparr>,
       \<lparr>cc_id = ''COVERAGE'', cc_metricId = ''MET-DQ-004'', cc_value = sourceCoverage dj input, cc_weight = cw_coverage w\<rparr>,
       \<lparr>cc_id = ''VALIDITY'', cc_metricId = ''MET-DQ-008'', cc_value = validity_of dj input, cc_weight = cw_validity w\<rparr>])"

text \<open>The weighted mean of what could be measured, as a percentage of two decimals: the shape both assessments have.\<close>

definition weighted_percentage :: "decimal_js \<Rightarrow> (quantity \<times> quantity) list \<Rightarrow> quantity option" where
  "weighted_percentage dj parts =
     (let weightSum = foldl (\<lambda>a p. qAdd dj a (snd p)) Q_ZERO parts;
          weighted = foldl (\<lambda>a p. qAdd dj a (qMul dj (fst p) (snd p))) Q_ZERO parts;
          raw = (if length parts = 0 then None else qDiv dj weighted weightSum)
      in map_option (\<lambda>r. qFixed dj (qMul dj r Q_HUNDRED) 2) raw)"

definition confidenceScore :: "decimal_js \<Rightarrow> data_confidence_input \<Rightarrow> quantity option" where
  "confidenceScore dj input =
     weighted_percentage dj
       (List.map_filter (\<lambda>c. map_option (\<lambda>v. (v, cc_weight c)) (cc_value c)) (components_of dj input))"

definition band_for :: "quantity option \<Rightarrow> quantity \<Rightarrow> quantity \<Rightarrow> confidence_band" where
  "band_for score highBandFloor mediumBandFloor =
     (case score of
        None \<Rightarrow> LOW
      | Some s \<Rightarrow> if qCompare s highBandFloor \<ge> 0 then HIGH
                  else if qCompare s mediumBandFloor \<ge> 0 then MEDIUM else LOW)"

definition arithmeticBand :: "decimal_js \<Rightarrow> data_confidence_input \<Rightarrow> confidence_band" where
  "arithmeticBand dj input =
     band_for (confidenceScore dj input) (cw_highBandFloor (ci_weights input)) (cw_mediumBandFloor (ci_weights input))"

section \<open>The ceiling of the critical domains\<close>

definition applicableCritical :: "data_confidence_input \<Rightarrow> string list" where
  "applicableCritical input =
     filter (\<lambda>d. d \<in> set (ci_expectedDomains input)) (cw_criticalDomains (ci_weights input))"

definition critical_observation :: "decimal_js \<Rightarrow> data_confidence_input \<Rightarrow>
    stale_critical_domain list \<times> string list \<Rightarrow> domain_observation \<Rightarrow> stale_critical_domain list \<times> string list" where
  "critical_observation dj input found o' =
     (if ob_domain o' \<notin> set (applicableCritical input) then found
      else case ob_ageDays o' of
        None \<Rightarrow> (fst found, snd found @ [ob_domain o'])
      | Some age \<Rightarrow>
          let tolerance = qMul dj (q_count (ob_expectedCadenceDays o')) (cw_criticalStalenessTolerance (ci_weights input))
          in if qCompare (q_count age) tolerance > 0
             then (fst found @ [\<lparr>sd_domain = ob_domain o', sd_ageDays = age,
                     sd_expectedCadenceDays = ob_expectedCadenceDays o', sd_toleranceDays = tolerance\<rparr>], snd found)
             else found)"

definition critical_domains :: "decimal_js \<Rightarrow> data_confidence_input \<Rightarrow> stale_critical_domain list \<times> string list" where
  "critical_domains dj input =
     (let found = foldl (critical_observation dj input) ([], []) (ci_observations input)
      in (fst found,
          foldl (\<lambda>silent d. if d \<notin> set (reporting_domains input) \<and> d \<notin> set silent then silent @ [d] else silent)
            (snd found) (applicableCritical input)))"

fun RANK :: "confidence_band \<Rightarrow> int" where
  "RANK LOW = 0"
| "RANK MEDIUM = 1"
| "RANK HIGH = 2"

definition ceiling_of :: "stale_critical_domain list \<Rightarrow> string list \<Rightarrow> confidence_band option" where
  "ceiling_of stale silent =
     (if length silent > 0 then Some LOW else if length stale > 0 then Some MEDIUM else None)"

definition capped_band :: "confidence_band option \<Rightarrow> confidence_band \<Rightarrow> bool \<times> confidence_band" where
  "capped_band cap_at arithmetic =
     (case cap_at of
        None \<Rightarrow> (False, arithmetic)
      | Some c \<Rightarrow> if RANK c < RANK arithmetic then (True, c) else (False, arithmetic))"

definition score_text :: "quantity option \<Rightarrow> string \<Rightarrow> string" where
  "score_text score otherwise = nullish (map_option q_text score) otherwise"

definition stale_text :: "stale_critical_domain \<Rightarrow> string" where
  "stale_text d = sd_domain d @ '' ('' @ show_int (sd_ageDays d) @ ''d against a '' @ q_text (sd_toleranceDays d)
     @ ''d tolerance on a '' @ show_int (sd_expectedCadenceDays d) @ ''d cadence)''"

definition bandCappedBy :: "confidence_weights \<Rightarrow> quantity option \<Rightarrow> stale_critical_domain list \<Rightarrow> string list \<Rightarrow> string" where
  "bandCappedBy w score stale silent =
     (if length silent > 0
      then ''Critical domain'' @ s_unless_one silent @ '' ''
        @ join_with '', '' silent @ '' reported nothing at all. The composite scores ''
        @ score_text score ''nothing'' @ '', but an assessment cannot be more trustworthy than a ''
        @ ''domain it never heard from, so the displayed band is capped at LOW ''
        @ ''(freshness policy '' @ cw_freshnessPolicyVersion w @ '').''
      else ''Critical domain'' @ s_unless_one stale @ '' ''
        @ join_with '', '' (map stale_text stale) @ '' ''
        @ (if length stale = 1 then ''is'' else ''are'') @ '' beyond tolerance. The composite scores ''
        @ score_text score ''nothing'' @ '' -- a true statement about the components -- but a weighted ''
        @ ''mean can hide one stale authoritative source behind several fresh ones, so the displayed ''
        @ ''band is capped at MEDIUM (freshness policy '' @ cw_freshnessPolicyVersion w @ '').'')"

section \<open>The evaluations\<close>

definition component_evaluation :: "data_confidence_input \<Rightarrow> confidence_component \<Rightarrow> rule_evaluation" where
  "component_evaluation input c =
     \<lparr>ev_status = (if cc_value c \<noteq> None then FIRED else CLEAR),
      ev_notEvaluatedReasonCode = None, ev_requiredEvidence = None, ev_missingEvidence = None,
      ev_ruleId = ''DQ-'' @ cc_id c, ev_ruleName = cc_id c, ev_ruleSetId = ''DQ-v1'',
      ev_ruleVersion = ci_ruleVersion input, ev_signalId = cc_id c, ev_signalMetricId = Some (cc_metricId c),
      ev_observedValue = map_option q_text (cc_value c), ev_comparison = PRESENT, ev_thresholdValue = None,
      ev_notEvaluatedReason = (if cc_value c = None then Some ''no domain reported anything measurable'' else None),
      ev_fired = (cc_value c \<noteq> None), ev_trend = None, ev_estimatedImpact = None,
      ev_contribution = (case cc_value c of None \<Rightarrow> ''excluded from the composite''
        | Some v \<Rightarrow> q_text (cc_weight c) @ '' weight x '' @ q_text v),
      ev_narrative = (case cc_value c of
          None \<Rightarrow> cc_id c @ '' could not be measured and was excluded, rather than scored as zero -- a zero here ''
            @ ''would be a fabricated measurement.''
        | Some v \<Rightarrow> cc_id c @ '' = '' @ q_text v @ '' at weight '' @ q_text (cc_weight c) @ ''.''),
      ev_evidence = concat (map ob_evidence (ci_observations input)) @ ci_assessmentEvidence input\<rparr>"

definition band_evaluation :: "data_confidence_input \<Rightarrow> quantity option \<Rightarrow> confidence_band \<Rightarrow> rule_evaluation" where
  "band_evaluation input score arithmetic =
     \<lparr>ev_status = (if arithmetic = HIGH then FIRED else CLEAR),
      ev_notEvaluatedReasonCode = None, ev_requiredEvidence = None, ev_missingEvidence = None,
      ev_ruleId = ''DQ-BAND'', ev_ruleName = ''Confidence band'', ev_ruleSetId = ''DQ-v1'',
      ev_ruleVersion = ci_ruleVersion input, ev_signalId = ''CONFIDENCE_SCORE'', ev_signalMetricId = Some ''MET-DQ-005'',
      ev_observedValue = map_option q_text score, ev_comparison = GTE,
      ev_thresholdValue = Some (q_text (cw_highBandFloor (ci_weights input))), ev_notEvaluatedReason = None,
      ev_fired = (arithmetic = HIGH), ev_trend = None, ev_estimatedImpact = None,
      ev_contribution = ''arithmetic band = '' @ band_text arithmetic,
      ev_narrative = (case score of
          None \<Rightarrow> ''Nothing measurable was reported, so confidence is LOW by default -- an unmeasured project ''
            @ ''is not a trustworthy one.''
        | Some s \<Rightarrow> ''Score '' @ q_text s @ '' against High >= '' @ q_text (cw_highBandFloor (ci_weights input))
            @ '', Medium >= '' @ q_text (cw_mediumBandFloor (ci_weights input)) @ ''.''),
      ev_evidence = ci_assessmentEvidence input\<rparr>"

definition critical_evaluation :: "data_confidence_input \<Rightarrow> quantity option \<Rightarrow> confidence_band \<Rightarrow>
    stale_critical_domain list \<Rightarrow> string list \<Rightarrow> rule_evaluation" where
  "critical_evaluation input score arithmetic stale silent =
     (let w = ci_weights input;
          cap = capped_band (ceiling_of stale silent) arithmetic;
          named = join_with '', '' (map (\<lambda>d. sd_domain d @ ''='' @ show_int (sd_ageDays d) @ ''d'') stale
                    @ map (\<lambda>d. d @ ''=silent'') silent)
      in
      \<lparr>ev_status = (if fst cap then FIRED else CLEAR),
       ev_notEvaluatedReasonCode = None, ev_requiredEvidence = None, ev_missingEvidence = None,
       ev_ruleId = ''DQ-CRITICAL-FRESHNESS'', ev_ruleName = ''Critical-domain freshness ceiling'', ev_ruleSetId = ''DQ-v1'',
       ev_ruleVersion = ci_ruleVersion input, ev_signalId = ''CRITICAL_DOMAIN_FRESHNESS'',
       ev_signalMetricId = Some ''MET-DQ-002'',
       ev_observedValue = Some (if named = '''' then ''all critical domains within tolerance'' else named),
       ev_comparison = LTE,
       ev_thresholdValue = Some (q_text (cw_criticalStalenessTolerance w) @ '' x each domain's expected cadence''),
       ev_notEvaluatedReason = (if length (applicableCritical input) = 0
         then Some ''no declared critical domain is expected for this project'' else None),
       ev_fired = fst cap, ev_trend = None, ev_estimatedImpact = None,
       ev_contribution = (if fst cap
         then ''band capped from '' @ band_text arithmetic @ '' to '' @ band_text (snd cap)
         else ''no cap; band stands at '' @ band_text arithmetic),
       ev_narrative = (if fst cap then bandCappedBy w score stale silent
         else ''Critical domains ('' @ join_with '', '' (cw_criticalDomains w) @ '') are all within ''
           @ q_text (cw_criticalStalenessTolerance w) @ ''x their expected cadence, so the arithmetic band stands ''
           @ ''(freshness policy '' @ cw_freshnessPolicyVersion w @ '').''),
       ev_evidence = concat (map ob_evidence
           (filter (\<lambda>o'. ob_domain o' \<in> set (applicableCritical input)) (ci_observations input)))
         @ ci_assessmentEvidence input\<rparr>)"

definition missing_evaluation :: "data_confidence_input \<Rightarrow> rule_evaluation list" where
  "missing_evaluation input =
     (let missing = missingDomains input in
      if length missing > 0 then
        [\<lparr>ev_status = FIRED,
          ev_notEvaluatedReasonCode = None, ev_requiredEvidence = None, ev_missingEvidence = None,
          ev_ruleId = ''DQ-MISSING-DOMAINS'', ev_ruleName = ''Expected domains silent'', ev_ruleSetId = ''DQ-v1'',
          ev_ruleVersion = ci_ruleVersion input, ev_signalId = ''MISSING_DOMAINS'', ev_signalMetricId = Some ''MET-DQ-004'',
          ev_observedValue = Some (join_with '', '' missing), ev_comparison = PRESENT, ev_thresholdValue = None,
          ev_notEvaluatedReason = None, ev_fired = True, ev_trend = None, ev_estimatedImpact = None,
          ev_contribution = ''lowers coverage'',
          ev_narrative = show_nat (length missing) @ '' expected domain'' @ s_unless_one missing @ '' reported ''
            @ ''nothing: '' @ join_with '', '' missing @ ''. Named rather than counted, because \"coverage 0.8\" ''
            @ ''is not actionable and \"Finance is silent\" is.'',
          ev_evidence = ci_assessmentEvidence input\<rparr>]
      else [])"

definition confidence_evaluations :: "decimal_js \<Rightarrow> data_confidence_input \<Rightarrow> rule_evaluation list" where
  "confidence_evaluations dj input =
     (let score = confidenceScore dj input; arithmetic = arithmeticBand dj input; critical = critical_domains dj input
      in map (component_evaluation input) (components_of dj input)
         @ [band_evaluation input score arithmetic, critical_evaluation input score arithmetic (fst critical) (snd critical)]
         @ missing_evaluation input)"

definition assessDataConfidence :: "decimal_js \<Rightarrow> data_confidence_input \<Rightarrow> explanation_error + data_confidence_assessment" where
  "assessDataConfidence dj input =
     (let score = confidenceScore dj input;
          arithmetic = arithmeticBand dj input;
          stale = fst (critical_domains dj input);
          silent = snd (critical_domains dj input);
          cap = capped_band (ceiling_of stale silent) arithmetic;
          evaluations = confidence_evaluations dj input
      in and_then
        (explain (''Data confidence = '' @ band_text (snd cap))
          (Some (if fst cap
            then ''score '' @ score_text score ''not computable'' @ '' (arithmetic band '' @ band_text arithmetic
              @ ''), capped to '' @ band_text (snd cap) @ '' by critical-domain freshness''
            else ''score '' @ score_text score ''not computable''))
          (ci_assessedAt input) (ci_ruleVersion input) (ci_metricCatalogVersion input) None evaluations)
        (\<lambda>explanation. Inr
          \<lparr>ca_projectId = ci_projectId input, ca_week = ci_week input, ca_assessedAt = ci_assessedAt input,
           ca_completeness = completeness_of dj input, ca_freshnessDays = freshnessDays input,
           ca_consistency = consistency_of dj input, ca_sourceCoverage = sourceCoverage dj input,
           ca_validity = validity_of dj input, ca_confidenceScore = score, ca_arithmeticBand = arithmetic,
           ca_band = snd cap,
           ca_bandCappedBy = (if fst cap then Some (bandCappedBy (ci_weights input) score stale silent) else None),
           ca_staleCriticalDomains = stale, ca_silentCriticalDomains = silent,
           ca_freshnessPolicyVersion = cw_freshnessPolicyVersion (ci_weights input),
           ca_missingDomains = missingDomains input,
           ca_failedAssertions = concat (map ob_failedAssertions (ci_observations input)),
           ca_invalidFields = concat (map ob_invalidFields (ci_observations input)),
           ca_explanation = explanation\<rparr>))"

section \<open>Confidence in the forecast\<close>

record forecast_weights =
  fw_replan :: quantity
  fw_optimism :: quantity
  fw_stability :: quantity

record forecast_edges =
  fe_replan :: "quantity \<times> quantity"
  fe_optimism :: "quantity \<times> quantity"
  fe_stability :: "quantity \<times> quantity"

record forecast_confidence_input =
  fi_projectId :: string
  fi_week :: week_id
  fi_assessedAt :: instant
  fi_ruleVersion :: rule_version
  fi_metricCatalogVersion :: string
  fi_replanFrequency :: "quantity option"
  fi_etcOptimismGap :: "quantity option"
  fi_velocityStability :: "quantity option"
  fi_weights :: forecast_weights
  fi_edges :: forecast_edges
  fi_evidence :: "record_ref list"

record forecast_confidence_assessment =
  fa_projectId :: string
  fa_week :: week_id
  fa_score :: "quantity option"
  fa_band :: confidence_band
  fa_explanation :: explanation

definition normalise :: "decimal_js \<Rightarrow> quantity \<Rightarrow> quantity \<Rightarrow> quantity \<Rightarrow> quantity" where
  "normalise dj v green red =
     (let span = qSub dj green red
      in case qDiv dj (qSub dj v red) span of
           None \<Rightarrow> Q_ZERO
         | Some t \<Rightarrow> qClamp t Q_ZERO Q_ONE)"

record forecast_part =
  fp_id :: string
  fp_metricId :: string
  fp_raw :: "quantity option"
  fp_edges :: "quantity \<times> quantity"
  fp_weight :: quantity

definition forecast_parts :: "forecast_confidence_input \<Rightarrow> forecast_part list" where
  "forecast_parts input =
     [\<lparr>fp_id = ''REPLAN_FREQUENCY'', fp_metricId = ''MET-DEL-014'', fp_raw = fi_replanFrequency input,
       fp_edges = fe_replan (fi_edges input), fp_weight = fw_replan (fi_weights input)\<rparr>,
      \<lparr>fp_id = ''ETC_OPTIMISM_GAP'', fp_metricId = ''MET-FIN-030'', fp_raw = fi_etcOptimismGap input,
       fp_edges = fe_optimism (fi_edges input), fp_weight = fw_optimism (fi_weights input)\<rparr>,
      \<lparr>fp_id = ''VELOCITY_STABILITY'', fp_metricId = ''MET-DEL-013'', fp_raw = fi_velocityStability input,
       fp_edges = fe_stability (fi_edges input), fp_weight = fw_stability (fi_weights input)\<rparr>]"

definition part_score :: "decimal_js \<Rightarrow> forecast_part \<Rightarrow> quantity option" where
  "part_score dj p = map_option (\<lambda>raw. normalise dj raw (fst (fp_edges p)) (snd (fp_edges p))) (fp_raw p)"

definition forecast_score :: "decimal_js \<Rightarrow> forecast_confidence_input \<Rightarrow> quantity option" where
  "forecast_score dj input =
     weighted_percentage dj
       (List.map_filter (\<lambda>p. map_option (\<lambda>s. (s, fp_weight p)) (part_score dj p)) (forecast_parts input))"

definition forecast_evaluation :: "decimal_js \<Rightarrow> forecast_confidence_input \<Rightarrow> forecast_part \<Rightarrow> rule_evaluation" where
  "forecast_evaluation dj input p =
     \<lparr>ev_status = (if fp_raw p \<noteq> None then FIRED else CLEAR),
      ev_notEvaluatedReasonCode = None, ev_requiredEvidence = None, ev_missingEvidence = None,
      ev_ruleId = ''FC-'' @ fp_id p, ev_ruleName = fp_id p, ev_ruleSetId = ''DQ-v1'',
      ev_ruleVersion = fi_ruleVersion input, ev_signalId = fp_id p, ev_signalMetricId = Some (fp_metricId p),
      ev_observedValue = map_option q_text (fp_raw p), ev_comparison = IN_BAND,
      ev_thresholdValue = Some (''green '' @ q_text (fst (fp_edges p)) @ '' / red '' @ q_text (snd (fp_edges p))),
      ev_notEvaluatedReason = (if fp_raw p = None then Some ''component not available'' else None),
      ev_fired = (fp_raw p \<noteq> None), ev_trend = None, ev_estimatedImpact = None,
      ev_contribution = (case part_score dj p of None \<Rightarrow> ''excluded'' | Some s \<Rightarrow> q_text (fp_weight p) @ '' x '' @ q_text s),
      ev_narrative = (case fp_raw p of
          None \<Rightarrow> fp_id p @ '' was not available and is excluded from the composite rather than scored zero.''
        | Some raw \<Rightarrow> fp_id p @ '' = '' @ q_text raw @ '', normalised to '' @ score_text (part_score dj p) ''undefined''
            @ '' against green '' @ q_text (fst (fp_edges p)) @ '' / red '' @ q_text (snd (fp_edges p)) @ ''.''),
      ev_evidence = fi_evidence input\<rparr>"

definition assessForecastConfidence :: "decimal_js \<Rightarrow> forecast_confidence_input \<Rightarrow> quantity \<Rightarrow> quantity
    \<Rightarrow> explanation_error + forecast_confidence_assessment" where
  "assessForecastConfidence dj input highBandFloor mediumBandFloor =
     (let score = forecast_score dj input;
          band = band_for score highBandFloor mediumBandFloor
      in and_then
        (explain (''Forecast confidence = '' @ band_text band)
          (map_option (\<lambda>s. ''score '' @ q_text s @ '' (MET-DQ-007)'') score)
          (fi_assessedAt input) (fi_ruleVersion input) (fi_metricCatalogVersion input) None
          (map (forecast_evaluation dj input) (forecast_parts input)))
        (\<lambda>explanation. Inr
          \<lparr>fa_projectId = fi_projectId input, fa_week = fi_week input, fa_score = score, fa_band = band,
           fa_explanation = explanation\<rparr>))"

datatype reliability_factor_id =
    ETC_FRESHNESS | ETC_COVERAGE | SCOPE_STABILITY | MILESTONE_ACCURACY
  | CUSTOMER_DEPENDENCIES | RESOURCE_STABILITY | REQUIRED_FUTURE_PRODUCTIVITY

fun factor_text :: "reliability_factor_id \<Rightarrow> string" where
  "factor_text ETC_FRESHNESS = ''ETC_FRESHNESS''"
| "factor_text ETC_COVERAGE = ''ETC_COVERAGE''"
| "factor_text SCOPE_STABILITY = ''SCOPE_STABILITY''"
| "factor_text MILESTONE_ACCURACY = ''MILESTONE_ACCURACY''"
| "factor_text CUSTOMER_DEPENDENCIES = ''CUSTOMER_DEPENDENCIES''"
| "factor_text RESOURCE_STABILITY = ''RESOURCE_STABILITY''"
| "factor_text REQUIRED_FUTURE_PRODUCTIVITY = ''REQUIRED_FUTURE_PRODUCTIVITY''"

record reliability_factor =
  rf_id :: reliability_factor_id
  rf_metricId :: string
  rf_observed :: "quantity option"
  rf_edges :: "quantity \<times> quantity"
  rf_notMeasurableReason :: "string option"
  rf_evidence :: "record_ref list"

text \<open>The band of a factor; \<open>None\<close> is \<open>NOT_MEASURABLE\<close>.\<close>

record reliability_factor_result = reliability_factor +
  rf_band :: "confidence_band option"
  rf_narrative :: string

definition factor_band :: "quantity \<Rightarrow> confidence_band" where
  "factor_band s = (if qCompare s (Qty 7 1) \<ge> 0 then HIGH else if qCompare s (Qty 4 1) \<ge> 0 then MEDIUM else LOW)"

definition profile_factor :: "decimal_js \<Rightarrow> reliability_factor \<Rightarrow> reliability_factor_result" where
  "profile_factor dj f =
     (case rf_observed f of
        None \<Rightarrow> reliability_factor.extend f \<lparr>rf_band = None,
          rf_narrative = factor_text (rf_id f) @ '' could not be measured''
            @ (case rf_notMeasurableReason f of None \<Rightarrow> '''' | Some r \<Rightarrow> '': '' @ r) @ ''. ''
            @ ''Reported as unmeasurable rather than as a passing score.''\<rparr>
      | Some v \<Rightarrow>
          let s = normalise dj v (fst (rf_edges f)) (snd (rf_edges f)); band = factor_band s
          in reliability_factor.extend f \<lparr>rf_band = Some band,
            rf_narrative = factor_text (rf_id f) @ '' = '' @ q_text v @ '' ('' @ rf_metricId f @ ''), normalised to ''
              @ q_text s @ '' against green '' @ q_text (fst (rf_edges f)) @ '' / ''
              @ ''red '' @ q_text (snd (rf_edges f)) @ '' -> '' @ band_text band @ ''.''\<rparr>)"

definition forecastReliabilityProfile :: "decimal_js \<Rightarrow> reliability_factor list \<Rightarrow> reliability_factor_result list" where
  "forecastReliabilityProfile dj factors = map (profile_factor dj) factors"

section \<open>Lemmas on the score\<close>

lemma foldl_sum_list: "foldl (\<lambda>a p. a + f p) (b::int) xs = b + sum_list (map f xs)"
  by (induction xs arbitrary: b) auto

lemma sum_list_le: "(\<And>x. x \<in> set xs \<Longrightarrow> f x \<le> (g x :: int)) \<Longrightarrow> sum_list (map f xs) \<le> sum_list (map g xs)"
  by (induction xs) fastforce+

lemma sum_list_nonneg': "(\<And>x. x \<in> set xs \<Longrightarrow> 0 \<le> (f x :: int)) \<Longrightarrow> 0 \<le> sum_list (map f xs)"
  by (induction xs) fastforce+

context decimal_lib begin

lemma share_unit:
  assumes "\<And>p. p \<in> set pairs \<Longrightarrow> 0 \<le> fst p \<and> fst p \<le> snd p" "share dj pairs = Some q"
  shows "unit_interval q"
proof -
  let ?n = "sum_list (map fst pairs)" and ?d = "sum_list (map snd pairs)"
  have le: "0 \<le> ?n" "?n \<le> ?d"
    using assms(1) by (auto intro!: sum_list_le sum_list_nonneg')
  from assms(2) have q: "?d \<noteq> 0" "qval q = dround dj q_precision (of_int ?n / of_int ?d)"
    by (auto simp: share_def Let_def foldl_sum_list q_count_def qDiv_def split: if_splits)
  have "(0::rat) \<le> of_int ?n / of_int ?d" "of_int ?n / of_int ?d \<le> (1::rat)"
    using le q(1) by (auto simp: divide_le_eq_1)
  then show ?thesis
    using q(2) round_nonneg round_le_fits [OF _ fits_1] by (simp add: unit_interval_def)
qed

lemma weighted_fold:
  assumes "list_all (\<lambda>p. unit_interval (fst p) \<and> sound_weight (snd p)) parts" "0 \<le> qval a" "qval a \<le> qval b"
  shows "0 \<le> qval (foldl (\<lambda>a p. qAdd dj a (qMul dj (fst p) (snd p))) a parts)
    \<and> qval (foldl (\<lambda>a p. qAdd dj a (qMul dj (fst p) (snd p))) a parts) \<le> qval (foldl (\<lambda>a p. qAdd dj a (snd p)) b parts)"
  using assms
proof (induction parts arbitrary: a b)
  case (Cons p parts)
  have m: "0 \<le> qval (qMul dj (fst p) (snd p))" "qval (qMul dj (fst p) (snd p)) \<le> qval (snd p)"
    using Cons.prems(1) by (auto intro: scaled_part)
  have "0 \<le> qval (qAdd dj a (qMul dj (fst p) (snd p)))"
    "qval (qAdd dj a (qMul dj (fst p) (snd p))) \<le> qval (qAdd dj b (snd p))"
    using m Cons.prems(2,3) by (auto simp: qval_ops intro!: round_nonneg round_mono add_mono)
  from Cons.IH [OF _ this] Cons.prems(1) show ?case by simp
qed simp

lemma weighted_percentage_bounds:
  assumes parts: "list_all (\<lambda>p. unit_interval (fst p) \<and> sound_weight (snd p)) parts"
    and s: "weighted_percentage dj parts = Some q"
  shows "0 \<le> qval q \<and> qval q \<le> 100"
proof -
  let ?w = "foldl (\<lambda>a p. qAdd dj a (qMul dj (fst p) (snd p))) Q_ZERO parts"
  let ?t = "foldl (\<lambda>a p. qAdd dj a (snd p)) Q_ZERO parts"
  from s obtain r where r: "qDiv dj ?w ?t = Some r" "q = qFixed dj (qMul dj r Q_HUNDRED) 2"
    by (auto simp: weighted_percentage_def Let_def split: if_splits)
  have wt: "0 \<le> qval ?w" "qval ?w \<le> qval ?t" using weighted_fold [OF parts, of Q_ZERO Q_ZERO] by auto
  from percentage_bounds [OF quotient_unit [OF r(1) wt]] show ?thesis unfolding r(2) .
qed

lemma normalise_unit: "unit_interval (normalise dj v g r)"
  by (auto simp: normalise_def Let_def unit_interval_def clamp_unit split: option.splits)

lemma domain_freshness_unit: "unit_interval (domain_freshness dj m o')"
  by (auto simp: domain_freshness_def Let_def unit_interval_def clamp_unit split: option.splits)

lemma freshness_unit: "freshnessScore dj input = Some s \<Longrightarrow> unit_interval s"
proof -
  have "unit_interval (foldl (\<lambda>worst s. if qCompare s worst < 0 then s else worst) w xs)"
    if "unit_interval w" "list_all unit_interval xs" for w xs
    using that by (induction xs arbitrary: w) auto
  note this [of Q_ONE "map (domain_freshness dj (cw_stalenessRedMultiple (ci_weights input))) (ci_observations input)"]
  then have "unit_interval (foldl (\<lambda>worst s. if qCompare s worst < 0 then s else worst) Q_ONE
      (map (domain_freshness dj (cw_stalenessRedMultiple (ci_weights input))) (ci_observations input)))"
    by (simp_all add: list_all_iff domain_freshness_unit unit_interval_def [of Q_ONE])
  then show "freshnessScore dj input = Some s \<Longrightarrow> unit_interval s"
    by (simp add: freshnessScore_def split: if_splits)
qed

end

section \<open>Scores are percentages\<close>

text \<open>What the sources say of themselves is possible: no more is valid than was checked, and only expected domains report.\<close>

definition plausible_counts :: "domain_observation \<Rightarrow> bool" where
  "plausible_counts o' \<longleftrightarrow> 0 \<le> ob_populatedFields o' \<and> ob_populatedFields o' \<le> ob_requiredFields o'
     \<and> 0 \<le> ob_valuesValid o' \<and> ob_valuesValid o' \<le> ob_valuesChecked o'
     \<and> 0 \<le> ob_assertionsPassed o' \<and> ob_assertionsPassed o' \<le> ob_assertionsEvaluated o'"

definition plausible :: "data_confidence_input \<Rightarrow> bool" where
  "plausible input \<longleftrightarrow>
     list_all (\<lambda>o'. plausible_counts o' \<and> ob_domain o' \<in> set (ci_expectedDomains input)) (ci_observations input)
     \<and> list_all sound_weight [cw_completeness (ci_weights input), cw_freshness (ci_weights input),
          cw_consistency (ci_weights input), cw_coverage (ci_weights input), cw_validity (ci_weights input)]"

lemma set_reporting [simp]: "set (reporting_domains input) = ob_domain ` set (ci_observations input)"
  by (simp add: reporting_domains_def)

lemma distinct_reporting: "distinct (reporting_domains input)"
  by (simp add: reporting_domains_def)

lemma reporting_bound:
  assumes "ob_domain ` set (ci_observations input) \<subseteq> set (ci_expectedDomains input)"
  shows "length (reporting_domains input) \<le> length (ci_expectedDomains input)"
proof -
  have "length (reporting_domains input) = card (ob_domain ` set (ci_observations input))"
    using distinct_card [OF distinct_reporting [of input]] by simp
  also have "\<dots> \<le> card (set (ci_expectedDomains input))" using assms by (intro card_mono) auto
  finally show ?thesis using card_length [of "ci_expectedDomains input"] by linarith
qed

context decimal_lib begin

lemma coverage_unit:
  assumes "plausible input" "sourceCoverage dj input = Some q"
  shows "unit_interval q"
proof -
  have "length (reporting_domains input) \<le> length (ci_expectedDomains input)"
    using assms(1) by (intro reporting_bound) (auto simp: plausible_def list_all_iff)
  then have "(0::rat) \<le> of_nat (length (reporting_domains input)) / of_nat (length (ci_expectedDomains input))"
    "of_nat (length (reporting_domains input)) / of_nat (length (ci_expectedDomains input)) \<le> (1::rat)"
    by (auto simp: divide_le_eq_1)
  then show ?thesis
    using assms(2) qDiv_Some round_nonneg round_le_fits [OF _ fits_1]
    by (fastforce simp: sourceCoverage_def unit_interval_def split: if_splits)
qed

lemma components_unit:
  assumes "plausible input" "c \<in> set (components_of dj input)" "cc_value c = Some v"
  shows "unit_interval v \<and> sound_weight (cc_weight c)"
proof -
  have counts: "plausible_counts o'" if "o' \<in> set (ci_observations input)" for o'
    using assms(1) that by (simp add: plausible_def list_all_iff)
  have "unit_interval v" if "completeness_of dj input = Some v"
    by (rule share_unit [OF _ that [unfolded completeness_of_def]]) (use counts in \<open>auto simp: plausible_counts_def\<close>)
  moreover have "unit_interval v" if "consistency_of dj input = Some v"
    by (rule share_unit [OF _ that [unfolded consistency_of_def]]) (use counts in \<open>auto simp: plausible_counts_def\<close>)
  moreover have "unit_interval v" if "validity_of dj input = Some v"
    by (rule share_unit [OF _ that [unfolded validity_of_def]]) (use counts in \<open>auto simp: plausible_counts_def\<close>)
  ultimately show ?thesis
    using assms coverage_unit freshness_unit by (auto simp: components_of_def Let_def plausible_def)
qed

lemma score_percentage:
  assumes "plausible input" "confidenceScore dj input = Some s"
  shows "0 \<le> qval s \<and> qval s \<le> 100"
  by (rule weighted_percentage_bounds [OF _ assms(2) [unfolded confidenceScore_def]])
    (use components_unit [OF assms(1)] in \<open>auto simp: list_all_iff map_filter_def\<close>)

lemma forecast_percentage:
  assumes "list_all (\<lambda>p. sound_weight (fp_weight p)) (forecast_parts input)" "forecast_score dj input = Some s"
  shows "0 \<le> qval s \<and> qval s \<le> 100"
  by (rule weighted_percentage_bounds [OF _ assms(2) [unfolded forecast_score_def]])
    (use assms(1) in \<open>auto simp: list_all_iff map_filter_def part_score_def normalise_unit\<close>)

end

section \<open>The band and its ceiling, in terms of the input\<close>

definition stale_of :: "decimal_js \<Rightarrow> data_confidence_input \<Rightarrow> domain_observation \<Rightarrow> bool" where
  "stale_of dj input o' \<longleftrightarrow> ob_domain o' \<in> set (applicableCritical input)
     \<and> (case ob_ageDays o' of None \<Rightarrow> False | Some age \<Rightarrow>
          qval (qMul dj (q_count (ob_expectedCadenceDays o')) (cw_criticalStalenessTolerance (ci_weights input))) < of_int age)"

definition silent_of :: "data_confidence_input \<Rightarrow> string \<Rightarrow> bool" where
  "silent_of input d \<longleftrightarrow> d \<notin> ob_domain ` set (ci_observations input)
     \<or> list_ex (\<lambda>o'. ob_domain o' = d \<and> ob_ageDays o' = None) (ci_observations input)"

lemma critical_observation_step:
  "set (snd (critical_observation dj input found o')) = set (snd found) \<union>
     (if ob_domain o' \<in> set (applicableCritical input) \<and> ob_ageDays o' = None then {ob_domain o'} else {})"
  "fst (critical_observation dj input found o') = [] \<longleftrightarrow> fst found = [] \<and> \<not> stale_of dj input o'"
  by (auto simp: critical_observation_def stale_of_def Let_def qCompare_sign q_count_def split: option.splits)

lemma critical_fold:
  "set (snd (foldl (critical_observation dj input) found obs)) = set (snd found) \<union> ob_domain ` {o' \<in> set obs.
      ob_domain o' \<in> set (applicableCritical input) \<and> ob_ageDays o' = None}"
  "fst (foldl (critical_observation dj input) found obs) = [] \<longleftrightarrow> fst found = [] \<and> \<not> list_ex (stale_of dj input) obs"
  by (induction obs arbitrary: found) (auto simp: critical_observation_step)

lemma silent_fold:
  "set (foldl (\<lambda>silent d. if d \<notin> R \<and> d \<notin> set silent then silent @ [d] else silent) ss ds) = set ss \<union> (set ds - R)"
  by (induction ds arbitrary: ss) auto

lemma image_split: "f ` {x \<in> S. f x \<in> A \<and> P x} \<union> (A - f ` S) = {d \<in> A. d \<notin> f ` S \<or> (\<exists>x\<in>S. f x = d \<and> P x)}"
proof (rule set_eqI)
  show "d \<in> f ` {x \<in> S. f x \<in> A \<and> P x} \<union> (A - f ` S) \<longleftrightarrow> d \<in> {d \<in> A. d \<notin> f ` S \<or> (\<exists>x\<in>S. f x = d \<and> P x)}" for d
    by (cases "d \<in> f ` S"; cases "d \<in> A") (auto simp: image_iff)
qed

lemma silent_set: "set (snd (critical_domains dj input)) = {d \<in> set (applicableCritical input). silent_of input d}"
  unfolding critical_domains_def Let_def snd_conv silent_fold critical_fold
  unfolding silent_of_def list_ex_iff set_reporting by (simp only: list.set(1) Un_empty_left snd_conv image_split)

lemma stale_none: "fst (critical_domains dj input) = [] \<longleftrightarrow> \<not> list_ex (stale_of dj input) (ci_observations input)"
  by (simp add: critical_domains_def Let_def critical_fold)

lemma silent_none: "snd (critical_domains dj input) = [] \<longleftrightarrow> \<not> list_ex (silent_of input) (applicableCritical input)"
  unfolding set_empty [symmetric] silent_set by (auto simp: list_ex_iff)

lemma RANK_cases: "RANK a < RANK b \<longleftrightarrow> (a = LOW \<and> b \<noteq> LOW) \<or> (a = MEDIUM \<and> b = HIGH)"
  by (cases a; cases b) simp_all

lemma confidence_parts: "assessDataConfidence dj input = Inr a \<Longrightarrow>
    ca_arithmeticBand a = arithmeticBand dj input \<and> ca_confidenceScore a = confidenceScore dj input
    \<and> ca_completeness a = completeness_of dj input \<and> ca_consistency a = consistency_of dj input
    \<and> ca_validity a = validity_of dj input \<and> ca_sourceCoverage a = sourceCoverage dj input
    \<and> ca_missingDomains a = missingDomains input
    \<and> ca_staleCriticalDomains a = fst (critical_domains dj input)
    \<and> ca_silentCriticalDomains a = snd (critical_domains dj input)
    \<and> (ca_bandCappedBy a \<noteq> None \<longleftrightarrow> fst (capped_band (ceiling_of (fst (critical_domains dj input)) (snd (critical_domains dj input))) (arithmeticBand dj input)))
    \<and> ca_band a = snd (capped_band (ceiling_of (fst (critical_domains dj input)) (snd (critical_domains dj input))) (arithmeticBand dj input))"
  unfolding assessDataConfidence_def Let_def and_then_Inr_iff by (elim exE conjE) (drule sum.inject(2) [THEN iffD1], clarsimp)

text \<open>C27: A critical domain that was never heard from makes the displayed band LOW, whatever the other sources score; one
  older than its own cadence allows keeps it from HIGH; otherwise the band is the arithmetic one. The band is never
  raised, and it differs from the arithmetic band exactly when the assessment says why it was capped.\<close>

theorem band_under_ceiling:
  "case assessDataConfidence dj input of
     Inl _ \<Rightarrow> True
   | Inr a \<Rightarrow>
       ca_band a = (if list_ex (silent_of input) (applicableCritical input) then LOW
                    else if list_ex (stale_of dj input) (ci_observations input) \<and> ca_arithmeticBand a = HIGH then MEDIUM
                    else ca_arithmeticBand a)
       \<and> RANK (ca_band a) \<le> RANK (ca_arithmeticBand a)
       \<and> (ca_bandCappedBy a = None \<longleftrightarrow> ca_band a = ca_arithmeticBand a)
       \<and> set (ca_silentCriticalDomains a) = {d \<in> set (applicableCritical input). silent_of input d}"
proof (cases "assessDataConfidence dj input")
  case (Inr a)
  then show ?thesis
    using confidence_parts [OF Inr] silent_set [of dj input] silent_none [of dj input] stale_none [of dj input]
    by (cases "arithmeticBand dj input") (auto simp: capped_band_def ceiling_of_def)
qed simp

text \<open>Where the sources claim no more than was checked and only expected domains report, every component of the
  confidence lies between 0 and 1 and the score between 0 and 100, under every rounding the arithmetic makes.\<close>

theorem confidence_is_percentage:
  assumes "decimal_lib dj" "plausible input"
  shows "case assessDataConfidence dj input of
     Inl _ \<Rightarrow> True
   | Inr a \<Rightarrow>
       list_all (\<lambda>m. case m of None \<Rightarrow> True | Some v \<Rightarrow> unit_interval v)
         [ca_completeness a, ca_consistency a, ca_validity a, ca_sourceCoverage a]
       \<and> (case ca_confidenceScore a of None \<Rightarrow> True | Some s \<Rightarrow> 0 \<le> qval s \<and> qval s \<le> 100)"
proof (cases "assessDataConfidence dj input")
  case (Inr a)
  have "list_all (\<lambda>c. case cc_value c of None \<Rightarrow> True | Some v \<Rightarrow> unit_interval v) (components_of dj input)"
    unfolding list_all_iff by (auto dest: decimal_lib.components_unit [OF assms] split: option.split)
  then have "list_all (\<lambda>m. case m of None \<Rightarrow> True | Some v \<Rightarrow> unit_interval v)
      [completeness_of dj input, consistency_of dj input, validity_of dj input, sourceCoverage dj input]"
    by (simp add: components_of_def Let_def)
  then show ?thesis
    unfolding Inr sum.case using confidence_parts [OF Inr] decimal_lib.score_percentage [OF assms]
    by (simp split: option.split)
qed simp

lemma evaluation_ids: "map ev_ruleId (confidence_evaluations dj input) =
    [''DQ-COMPLETENESS'', ''DQ-FRESHNESS'', ''DQ-CONSISTENCY'', ''DQ-COVERAGE'', ''DQ-VALIDITY'', ''DQ-BAND'',
     ''DQ-CRITICAL-FRESHNESS''] @ (if missingDomains input = [] then [] else [''DQ-MISSING-DOMAINS''])"
  by (simp add: confidence_evaluations_def component_evaluation_def components_of_def band_evaluation_def
    critical_evaluation_def missing_evaluation_def Let_def)

lemma explainable: "ci_assessmentEvidence input \<noteq> [] \<Longrightarrow> \<exists>x. explain o' d t rv mv hv (confidence_evaluations dj input) = Inr x"
  unfolding explain_Inr_iff
  by (auto simp: confidence_evaluations_def component_evaluation_def band_evaluation_def critical_evaluation_def
    missing_evaluation_def Let_def split: if_splits)

lemma unexplainable:
  "explain o' d t rv mv hv (confidence_evaluations dj input) = Inr x \<Longrightarrow>
    missingDomains input \<noteq> [] \<or> arithmeticBand dj input = HIGH \<Longrightarrow> ci_assessmentEvidence input \<noteq> []"
  using explain_Inr_iff [of o' d t rv mv hv "confidence_evaluations dj input"]
  by (auto simp: confidence_evaluations_def band_evaluation_def missing_evaluation_def Let_def)

lemma assessed: "ci_assessmentEvidence input \<noteq> [] \<Longrightarrow> \<exists>a. assessDataConfidence dj input = Inr a"
  using explainable [of input] unfolding assessDataConfidence_def Let_def by (metis and_then_simps(2))

text \<open>An assessment that names a missing domain, or claims HIGH confidence, has a record behind it: without the record
  of what was expected no such assessment is produced, and with it every assessment is.\<close>

theorem absence_needs_evidence:
  "case assessDataConfidence dj input of
     Inl e \<Rightarrow> ci_assessmentEvidence input = []
   | Inr a \<Rightarrow> (if missingDomains input = [] \<and> ca_arithmeticBand a \<noteq> HIGH then True else ci_assessmentEvidence input \<noteq> [])
       \<and> map ev_ruleId (ex_evaluations (ca_explanation a))
           = [''DQ-COMPLETENESS'', ''DQ-FRESHNESS'', ''DQ-CONSISTENCY'', ''DQ-COVERAGE'', ''DQ-VALIDITY'', ''DQ-BAND'',
              ''DQ-CRITICAL-FRESHNESS''] @ (if missingDomains input = [] then [] else [''DQ-MISSING-DOMAINS''])"
proof (cases "assessDataConfidence dj input")
  case (Inl e)
  then show ?thesis using assessed [of input dj] by auto
next
  case (Inr a)
  then obtain o' d t rv mv hv where "explain o' d t rv mv hv (confidence_evaluations dj input) = Inr (ca_explanation a)"
    unfolding assessDataConfidence_def Let_def and_then_Inr_iff
    by (elim exE conjE) (drule sum.inject(2) [THEN iffD1], clarsimp)
  from unexplainable [OF this] explain_Inr [OF this] evaluation_ids [of dj input] confidence_parts [OF Inr] Inr
  show ?thesis by simp
qed

section \<open>Forecast reliability\<close>

text \<open>An observation at or past the good edge of a factor, and at or past the bad one, whichever way the edges lie.\<close>

definition past :: "quantity \<Rightarrow> quantity \<Rightarrow> quantity \<Rightarrow> bool" where
  "past good bad v \<longleftrightarrow> (if qval bad < qval good then qval good \<le> qval v else qval v \<le> qval good)"

lemma past_excl: "qval g \<noteq> qval r \<Longrightarrow> past g r v \<Longrightarrow> \<not> past r g v"
  by (auto simp: past_def split: if_splits)

context decimal_lib begin

lemma span_sign:
  "qval r < qval g \<Longrightarrow> 0 < dround dj q_precision (qval g - qval r)"
  "qval g < qval r \<Longrightarrow> dround dj q_precision (qval g - qval r) < 0"
  using round_pos [of q_precision "qval g - qval r"] round_pos [of q_precision "qval r - qval g"]
    round_neg [of q_precision "qval r - qval g"] by simp_all

lemma normalise_value:
  assumes "qval g \<noteq> qval r"
  shows "qval (normalise dj v g r) = qval (qClamp
      (dshow dj (dround dj q_precision (dround dj q_precision (qval v - qval r) / dround dj q_precision (qval g - qval r)))) Q_ZERO Q_ONE)"
  using assms span_sign [of r g] span_sign [of g r]
  by (cases "qval r < qval g") (auto simp: normalise_def Let_def qDiv_def qval_ops not_less)

lemma normalise_past_green:
  assumes "qval g \<noteq> qval r" "past g r v"
  shows "qval (normalise dj v g r) = 1"
proof -
  let ?s = "dround dj q_precision (qval g - qval r)" and ?x = "dround dj q_precision (qval v - qval r)"
  have "1 \<le> ?x / ?s"
  proof (cases "qval r < qval g")
    case True
    then have "?s \<le> ?x" using assms(2) by (intro round_mono) (simp add: past_def)
    then show ?thesis using span_sign(1) [OF True] by (simp add: le_divide_eq)
  next
    case False
    then have "?x \<le> ?s" "qval g < qval r" using assms by (auto intro: round_mono simp: past_def)
    then show ?thesis using span_sign(2) [of g r] by (simp add: le_divide_eq)
  qed
  then show ?thesis
    using round_ge_fits [OF _ fits_1] by (simp add: normalise_value [OF assms(1)] clamp_above)
qed

lemma normalise_past_red:
  assumes "qval g \<noteq> qval r" "past r g v"
  shows "qval (normalise dj v g r) = 0"
proof -
  let ?s = "dround dj q_precision (qval g - qval r)" and ?x = "dround dj q_precision (qval v - qval r)"
  have "?x / ?s \<le> 0"
  proof (cases "qval r < qval g")
    case True
    then have "?x \<le> 0" using assms(2) round_mono [of "qval v - qval r" 0] by (simp add: past_def split: if_splits)
    then show ?thesis using span_sign(1) [OF True] by (simp add: divide_le_0_iff)
  next
    case False
    then have "0 \<le> ?x" "qval g < qval r" using assms by (auto intro: round_nonneg simp: past_def)
    then show ?thesis using span_sign(2) [of g r] by (simp add: divide_le_0_iff)
  qed
  then show ?thesis
    using round_mono [of "?x / ?s" 0 q_precision] by (simp add: normalise_value [OF assms(1)] clamp_below)
qed

end

text \<open>The reliability profile answers every factor in order and keeps it as it was given: what was not observed has no band,
  an observation at or past the green edge is HIGH and one at or past the red edge is LOW, whichever way the edges lie and
  under every rounding of the normalisation.\<close>

theorem profile_bands_sound:
  assumes "decimal_lib dj"
  shows "list_all2 (\<lambda>f res. reliability_factor.truncate res = f
      \<and> (case rf_observed f of
           None \<Rightarrow> rf_band res = None
         | Some v \<Rightarrow> rf_band res \<noteq> None
             \<and> (if qval (fst (rf_edges f)) \<noteq> qval (snd (rf_edges f)) \<and> past (fst (rf_edges f)) (snd (rf_edges f)) v
                 then rf_band res = Some HIGH else True)
             \<and> (if qval (fst (rf_edges f)) \<noteq> qval (snd (rf_edges f)) \<and> past (snd (rf_edges f)) (fst (rf_edges f)) v
                 then rf_band res = Some LOW else True)))
    factors (forecastReliabilityProfile dj factors)"
proof -
  show ?thesis
    unfolding forecastReliabilityProfile_def list_all2_conv_all_nth
    by (auto dest: past_excl simp: profile_factor_def Let_def reliability_factor.defs factor_band_def qCompare_sign
      decimal_lib.normalise_past_green [OF assms] decimal_lib.normalise_past_red [OF assms] split: option.splits)
qed

section \<open>Instances\<close>

definition domain_report :: "string \<Rightarrow> int option \<Rightarrow> domain_observation" where
  "domain_report d age = \<lparr>ob_domain = d, ob_requiredFields = 10, ob_populatedFields = 9, ob_valuesChecked = 20, ob_valuesValid = 20,
     ob_invalidFields = [], ob_assertionsEvaluated = 4, ob_assertionsPassed = 3, ob_failedAssertions = [''A1''],
     ob_ageDays = age, ob_expectedCadenceDays = 7, ob_evidence = []\<rparr>"

definition sample_confidence :: "string list \<Rightarrow> domain_observation list \<Rightarrow> data_confidence_input" where
  "sample_confidence expected obs = \<lparr>ci_projectId = ''P1'', ci_week = Week 2026 23, ci_assessedAt = Instant 0 [],
     ci_ruleVersion = ''DQ-v1'', ci_metricCatalogVersion = ''1'', ci_expectedDomains = expected, ci_observations = obs,
     ci_assessmentEvidence = [\<lparr>rr_context = ''project'', rr_entityType = ''snapshot'', rr_entityId = ''S1'', rr_metricId = None\<rparr>],
     ci_weights = \<lparr>cw_completeness = Qty 25 2, cw_freshness = Qty 25 2, cw_consistency = Qty 2 1, cw_coverage = Qty 15 2,
       cw_validity = Qty 15 2, cw_highBandFloor = Qty 80 0, cw_mediumBandFloor = Qty 60 0, cw_stalenessRedMultiple = Qty 4 0,
       cw_criticalDomains = [''FINANCE''], cw_criticalStalenessTolerance = Qty 2 0, cw_freshnessPolicyVersion = ''v1''\<rparr>\<rparr>"

theorem confidence_is_percentage_witness:
  "case assessDataConfidence ref_decimal (sample_confidence [''FINANCE'', ''DELIVERY'']
       [domain_report ''FINANCE'' (Some 60), domain_report ''DELIVERY'' (Some 3)]) of
     Inl _ \<Rightarrow> False
   | Inr a \<Rightarrow> (case ca_confidenceScore a of None \<Rightarrow> True | Some s \<Rightarrow> 0 \<le> qval s \<and> qval s \<le> 100)"
proof -
  let ?i = "sample_confidence [''FINANCE'', ''DELIVERY''] [domain_report ''FINANCE'' (Some 60), domain_report ''DELIVERY'' (Some 3)]"
  have "plausible ?i" by code_simp
  moreover obtain a where "assessDataConfidence ref_decimal ?i = Inr a"
    using assessed [of ?i ref_decimal] by (auto simp: sample_confidence_def)
  ultimately show ?thesis
    using confidence_is_percentage [OF ref.decimal_lib_axioms, of ?i] by simp
qed

definition sample_factor :: "quantity option \<Rightarrow> reliability_factor" where
  "sample_factor v = \<lparr>rf_id = SCOPE_STABILITY, rf_metricId = ''MET-COM-001'', rf_observed = v, rf_edges = (Qty 5 2, Qty 25 2),
     rf_notMeasurableReason = None, rf_evidence = []\<rparr>"

theorem profile_bands_sound_witness:
  "map rf_band (forecastReliabilityProfile ref_decimal [sample_factor None, sample_factor (Some (Qty 3 2)), sample_factor (Some (Qty 3 1))])
     = [None, Some HIGH, Some LOW]"
proof -
  have "past (Qty 5 2) (Qty 25 2) (Qty 3 2)" "past (Qty 25 2) (Qty 5 2) (Qty 3 1)" "qval (Qty 5 2) \<noteq> qval (Qty 25 2)"
    by (simp_all add: past_def)
  then show ?thesis
    using profile_bands_sound [OF ref.decimal_lib_axioms, of "[sample_factor None, sample_factor (Some (Qty 3 2)), sample_factor (Some (Qty 3 1))]"]
    by (auto simp: list_all2_Cons1 sample_factor_def)
qed

text \<open>A domain nobody expects stands in for the one that is missing: full coverage beside a named missing domain, and
  coverage of 200 percent where none is missing.\<close>

definition unexpected_report :: "string list \<Rightarrow> data_confidence_input" where
  "unexpected_report expected =
     sample_confidence expected [domain_report ''DELIVERY'' (Some 3), domain_report ''WEATHER'' (Some 1)]"

lemma coverage_masks_missing:
  "missingDomains (unexpected_report [''FINANCE'', ''DELIVERY'']) = [''FINANCE'']"
  "map_option qval (sourceCoverage ref_decimal (unexpected_report [''FINANCE'', ''DELIVERY''])) = Some 1"
  "map_option qval (sourceCoverage ref_decimal (unexpected_report [''DELIVERY''])) = Some 2"
proof -
  show "missingDomains (unexpected_report [''FINANCE'', ''DELIVERY'']) = [''FINANCE'']" by code_simp
  have n: "reporting_domains (unexpected_report expected) = [''DELIVERY'', ''WEATHER'']" for expected by code_simp
  have e: "ci_expectedDomains (unexpected_report expected) = expected" for expected
    by (simp add: unexpected_report_def sample_confidence_def)
  show "map_option qval (sourceCoverage ref_decimal (unexpected_report [''FINANCE'', ''DELIVERY''])) = Some 1"
    "map_option qval (sourceCoverage ref_decimal (unexpected_report [''DELIVERY''])) = Some 2"
    using ref.round_fits [of q_precision 1] ref.round_fits [of q_precision 2]
      fits_int [of 1 q_precision] fits_int [of 2 q_precision] ref.show_val [of "Qty 1 0"] ref.show_val [of "Qty 2 0"]
    by (simp_all add: sourceCoverage_def n e qDiv_def q_precision_def)
qed

end
