(* ===== verification/Portfolio.thy ===== *)
theory Portfolio
  imports Money Decimal_Reference
begin

text \<open>
  \<open>contexts/portfolio/internal/portfolio-value-at-risk.ts\<close> and \<open>aggregation.ts\<close>: the portfolio totals over an
  authorised set of projects, the division of one project's value at risk over its causes, and the concentration of
  exposure on causes that several projects share. The collation of \<open>localeCompare\<close> is a parameter.
\<close>

section \<open>Aggregation\<close>

record project_contribution =
  pc_projectId :: string
  pc_contractValue :: money
  pc_forecastRevenue :: money
  pc_estimateAtCompletion :: money
  pc_gmValueAtRisk :: money

record portfolio_aggregate =
  pg_currency :: currency
  pg_projectCount :: nat
  pg_contractValue :: money
  pg_forecastRevenue :: money
  pg_estimateAtCompletion :: money
  pg_forecastMarginPercent :: ratio
  pg_valueAtRisk :: money

definition aggregate :: "decimal_js \<Rightarrow> project_contribution list \<Rightarrow> money \<Rightarrow> money_error + portfolio_aggregate" where
  "aggregate dj contributions zero =
     and_then (money_sum_from dj zero (map pc_contractValue contributions)) (\<lambda>contractValue.
     and_then (money_sum_from dj zero (map pc_forecastRevenue contributions)) (\<lambda>forecastRevenue.
     and_then (money_sum_from dj zero (map pc_estimateAtCompletion contributions)) (\<lambda>estimateAtCompletion.
     and_then (money_sum_from dj zero (map pc_gmValueAtRisk contributions)) (\<lambda>valueAtRisk.
     and_then
       (if money_isZero forecastRevenue then Inr (NotComputable ZERO_DENOMINATOR)
        else and_then (money_minus dj forecastRevenue estimateAtCompletion) (\<lambda>m. money_dividedBy dj m forecastRevenue))
       (\<lambda>forecastMarginPercent. Inr
         \<lparr>pg_currency = dto_currency (money_toDto dj zero), pg_projectCount = length contributions,
          pg_contractValue = contractValue, pg_forecastRevenue = forecastRevenue,
          pg_estimateAtCompletion = estimateAtCompletion, pg_forecastMarginPercent = forecastMarginPercent,
          pg_valueAtRisk = valueAtRisk\<rparr>)))))"

section \<open>Value at risk: data\<close>

record risk_cause =
  rc_causeKey :: string
  rc_probability :: quantity
  rc_costImpact :: money

record project_cause_input =
  pi_projectId :: string
  pi_gmValueAtRisk :: money
  pi_risks :: "risk_cause list"

record cause_attribution =
  at_causeKey :: string
  at_amount :: money

record project_attribution =
  pa_projectId :: string
  pa_gmValueAtRisk :: money
  pa_attributions :: "cause_attribution list"
  pa_dominantCause :: "string option"
  pa_dominantAmount :: money
  pa_notAttributableReason :: "string option"

record cause_concentration =
  cn_causeKey :: string
  cn_exposedProjectCount :: nat
  cn_projectIds :: "string list"
  cn_exposedValueAtRisk :: money
  cn_largestSingleProjectExposure :: money
  cn_shareOfPortfolioValueAtRisk :: "quantity option"

record portfolio_value_at_risk =
  pv_metricId :: string
  pv_valueAtRisk :: money
  pv_projectCount :: nat
  pv_concentration :: "cause_concentration list"
  pv_concentrationIsAdditive :: bool
  pv_attributions :: "project_attribution list"
  pv_projectsWithNoRecordedCause :: "string list"
  pv_deduplicationBasis :: string

definition NO_CROSS_PROJECT_DEDUP :: string where
  "NO_CROSS_PROJECT_DEDUP =
     ''Each distinct eligible project contributes MET-FIN-019 exactly once. No cross-project reduction ''
     @ ''is applied: a shared riskCauseKey is a category label, not evidence that two projects share a ''
     @ ''monetary exposure, and two projects' margins are disjoint pools. A reduction would require ''
     @ ''explicit shared-exposure allocation facts, which the model does not carry (ADR-0023).''"

section \<open>The causes of one project\<close>

definition weight_by_cause :: "decimal_js \<Rightarrow> risk_cause list \<Rightarrow> (string, quantity) js_map" where
  "weight_by_cause dj risks =
     foldl (\<lambda>m r. js_set (rc_causeKey r)
         (qAdd dj (nullish (js_get m (rc_causeKey r)) Q_ZERO) (qMul dj (money_toQuantity dj (rc_costImpact r)) (rc_probability r))) m)
       [] risks"

definition largest_index :: "decimal_js \<Rightarrow> cause_attribution list \<Rightarrow> nat" where
  "largest_index dj scaled_amounts =
     foldl (\<lambda>best i. if qCompare (money_toQuantity dj (at_amount (scaled_amounts ! i)))
                          (money_toQuantity dj (at_amount (scaled_amounts ! best))) > 0 then i else best)
       0 [1..<length scaled_amounts]"

definition attributeProject :: "decimal_js \<Rightarrow> (string \<Rightarrow> string \<Rightarrow> int) \<Rightarrow> project_cause_input \<Rightarrow> money
    \<Rightarrow> money_error + project_attribution" where
  "attributeProject dj localeCompare input zero =
     (let byCause = weight_by_cause dj (pi_risks input);
          rawTotal = foldl (qAdd dj) Q_ZERO (map snd byCause)
      in if length byCause = 0 \<or> qCompare rawTotal Q_ZERO \<le> 0 \<or> money_isZero (pi_gmValueAtRisk input)
         then Inr \<lparr>pa_projectId = pi_projectId input, pa_gmValueAtRisk = pi_gmValueAtRisk input, pa_attributions = [],
           pa_dominantCause = None, pa_dominantAmount = zero,
           pa_notAttributableReason = Some
             (if length byCause = 0 then ''no open risk carries a cause key''
              else if money_isZero (pi_gmValueAtRisk input) then ''the project has no gross margin at risk to attribute''
              else ''every recorded risk has zero probability-weighted impact'')\<rparr>
         else
           let ordered = sort_by (\<lambda>a b. localeCompare (fst a) (fst b)) byCause;
               amounts = map (\<lambda>(causeKey, raw). \<lparr>at_causeKey = causeKey,
                   at_amount = money_times dj (pi_gmValueAtRisk input) (nullish (qDiv dj raw rawTotal) Q_ZERO)\<rparr>) ordered
           in and_then (money_sum_from dj zero (map at_amount amounts)) (\<lambda>assigned.
              and_then (money_minus dj (pi_gmValueAtRisk input) assigned) (\<lambda>residual.
              let k = largest_index dj amounts
              in and_then (money_plus dj (at_amount (amounts ! k)) residual) (\<lambda>amount.
                 let attributions = amounts[k := \<lparr>at_causeKey = at_causeKey (amounts ! k), at_amount = amount\<rparr>];
                     dominant = attributions ! k
                 in Inr \<lparr>pa_projectId = pi_projectId input, pa_gmValueAtRisk = pi_gmValueAtRisk input,
                      pa_attributions = attributions, pa_dominantCause = Some (at_causeKey dominant),
                      pa_dominantAmount = at_amount dominant, pa_notAttributableReason = None\<rparr>))))"

section \<open>The portfolio\<close>

definition distinct_projects :: "project_cause_input list \<Rightarrow> project_cause_input list" where
  "distinct_projects projects =
     map snd (foldl (\<lambda>m p. if js_get m (pi_projectId p) = None then js_set (pi_projectId p) p m else m) [] projects)"

text \<open>\<open>new Set(xs)\<close>: the members in the order of their first occurrence.\<close>

definition cause_keys :: "project_cause_input \<Rightarrow> string list" where
  "cause_keys p = rev (remdups (rev (map rc_causeKey (pi_risks p))))"

definition projects_by_cause :: "project_cause_input list \<Rightarrow> (string, project_cause_input list) js_map" where
  "projects_by_cause unique =
     foldl (\<lambda>m p. foldl (\<lambda>m key. js_set key (nullish (js_get m key) [] @ [p]) m) m (cause_keys p)) [] unique"

definition concentration_row :: "decimal_js \<Rightarrow> money \<Rightarrow> money \<Rightarrow> string \<times> project_cause_input list
    \<Rightarrow> money_error + cause_concentration" where
  "concentration_row dj zero valueAtRisk = (\<lambda>(causeKey, members).
     and_then (money_sum_from dj zero (map pi_gmValueAtRisk members)) (\<lambda>exposed.
       let largest = foldl (\<lambda>best m. if qCompare (money_toQuantity dj (pi_gmValueAtRisk m)) (money_toQuantity dj best) > 0
                                      then pi_gmValueAtRisk m else best) zero members
       in Inr \<lparr>cn_causeKey = causeKey, cn_exposedProjectCount = length members,
            cn_projectIds = sort_strings (map pi_projectId members),
            cn_exposedValueAtRisk = exposed, cn_largestSingleProjectExposure = largest,
            cn_shareOfPortfolioValueAtRisk = (if money_isZero valueAtRisk then None
              else qDiv dj (money_toQuantity dj exposed) (money_toQuantity dj valueAtRisk))\<rparr>))"

definition concentration_order :: "decimal_js \<Rightarrow> (string \<Rightarrow> string \<Rightarrow> int) \<Rightarrow> cause_concentration \<Rightarrow> cause_concentration \<Rightarrow> int" where
  "concentration_order dj localeCompare a b =
     (let byExposure = qCompare (money_toQuantity dj (cn_exposedValueAtRisk b)) (money_toQuantity dj (cn_exposedValueAtRisk a))
      in if byExposure \<noteq> 0 then byExposure else localeCompare (cn_causeKey a) (cn_causeKey b))"

definition portfolioValueAtRisk :: "decimal_js \<Rightarrow> (string \<Rightarrow> string \<Rightarrow> int) \<Rightarrow> project_cause_input list \<Rightarrow> money
    \<Rightarrow> money_error + portfolio_value_at_risk" where
  "portfolioValueAtRisk dj localeCompare projects zero =
     (let unique = distinct_projects projects
      in and_then (money_sum_from dj zero (map pi_gmValueAtRisk unique)) (\<lambda>valueAtRisk.
         and_then (try_map (\<lambda>p. attributeProject dj localeCompare p zero) unique) (\<lambda>attributions.
         and_then (try_map (concentration_row dj zero valueAtRisk) (projects_by_cause unique)) (\<lambda>rows. Inr
           \<lparr>pv_metricId = ''MET-PORT-003'', pv_valueAtRisk = valueAtRisk, pv_projectCount = length unique,
            pv_concentration = sort_by (concentration_order dj localeCompare) rows,
            pv_concentrationIsAdditive = False, pv_attributions = attributions,
            pv_projectsWithNoRecordedCause = map pa_projectId (filter (\<lambda>a. pa_dominantCause a = None) attributions),
            pv_deduplicationBasis = NO_CROSS_PROJECT_DEDUP\<rparr>))))"

definition currencyOf :: "decimal_js \<Rightarrow> money \<Rightarrow> currency" where
  "currencyOf dj zero = dto_currency (money_toDto dj zero)"

section \<open>Every project once\<close>

lemma js_set_fresh: "js_get m k = None \<Longrightarrow> js_set k v m = m @ [(k, v)]"
  unfolding js_set_def js_get_None_iff by (induction m) auto

lemma js_set_keeps_distinct: "distinct (map fst m) \<Longrightarrow> distinct (map fst (js_set k v m))"
  by (auto simp: js_set_keys)

lemma try_map_related: "try_map f xs = Inr ys \<Longrightarrow> (\<And>x y. f x = Inr y \<Longrightarrow> g y = h x) \<Longrightarrow> map g ys = map h xs"
  by (induction xs arbitrary: ys) (auto simp: and_then_Inr_iff)

lemma try_map_total: "(\<And>x. x \<in> set xs \<Longrightarrow> \<exists>y. f x = Inr y) \<Longrightarrow> \<exists>ys. try_map f xs = Inr ys"
  by (induction xs) (fastforce simp: and_then_Inr_iff)+

definition keep_first :: "(string, project_cause_input) js_map \<Rightarrow> project_cause_input \<Rightarrow> (string, project_cause_input) js_map" where
  "keep_first m p = (if js_get m (pi_projectId p) = None then js_set (pi_projectId p) p m else m)"

lemma distinct_projects_fold: "distinct_projects projects = map snd (foldl keep_first [] projects)"
  by (simp add: distinct_projects_def keep_first_def [abs_def])

lemma keep_first_cases: "keep_first m p = (if pi_projectId p \<in> fst ` set m then m else m @ [(pi_projectId p, p)])"
proof (cases "js_get m (pi_projectId p) = None")
  case True
  then show ?thesis using js_get_None_iff [of m "pi_projectId p"] by (simp add: keep_first_def js_set_fresh)
next
  case False
  then have "pi_projectId p \<in> fst ` set m" by (metis js_get_None_iff)
  then show ?thesis using False unfolding keep_first_def by (simp only: if_False if_True)
qed

lemma keep_first_step:
  shows "fst ` set (keep_first m p) = insert (pi_projectId p) (fst ` set m)"
    and "distinct (map fst m) \<Longrightarrow> distinct (map fst (keep_first m p))"
    and "map fst m = map (\<lambda>x. pi_projectId (snd x)) m \<Longrightarrow> map fst (keep_first m p) = map (\<lambda>x. pi_projectId (snd x)) (keep_first m p)"
    and "snd ` set (keep_first m p) \<subseteq> insert p (snd ` set m)"
proof -
  show "fst ` set (keep_first m p) = insert (pi_projectId p) (fst ` set m)"
    unfolding keep_first_cases by (cases "pi_projectId p \<in> fst ` set m") auto
  show "distinct (map fst m) \<Longrightarrow> distinct (map fst (keep_first m p))"
    unfolding keep_first_cases by simp
  show "map fst m = map (\<lambda>x. pi_projectId (snd x)) m \<Longrightarrow> map fst (keep_first m p) = map (\<lambda>x. pi_projectId (snd x)) (keep_first m p)"
    unfolding keep_first_cases by (simp del: map_eq_conv)
  show "snd ` set (keep_first m p) \<subseteq> insert p (snd ` set m)"
    unfolding keep_first_cases by auto
qed

lemma keep_first_fold:
  "fst ` set (foldl keep_first m ps) = fst ` set m \<union> pi_projectId ` set ps"
  "distinct (map fst m) \<Longrightarrow> distinct (map fst (foldl keep_first m ps))"
  "map fst m = map (\<lambda>x. pi_projectId (snd x)) m \<Longrightarrow>
     map fst (foldl keep_first m ps) = map (\<lambda>x. pi_projectId (snd x)) (foldl keep_first m ps)"
  "snd ` set (foldl keep_first m ps) \<subseteq> snd ` set m \<union> set ps"
proof (induction ps arbitrary: m)
  case (Cons p ps)
  { case 1 show ?case by (simp add: Cons.IH(1) keep_first_step(1))
  next case 2 then show ?case by (simp add: Cons.IH(2) keep_first_step(2))
  next case 3 then show ?case using Cons.IH(3) [OF keep_first_step(3) [OF 3]] by (simp only: foldl_Cons)
  next case 4 show ?case using Cons.IH(4) [of "keep_first m p"] keep_first_step(4) [of m p] by auto }
qed simp_all

lemma distinct_projects_ids:
  "distinct (map pi_projectId (distinct_projects ps))"
  "pi_projectId ` set (distinct_projects ps) = pi_projectId ` set ps"
  "set (distinct_projects ps) \<subseteq> set ps"
proof -
  let ?m = "foldl keep_first [] ps"
  have eq: "map pi_projectId (distinct_projects ps) = map fst ?m"
    using keep_first_fold(3) [of "[]" ps] by (simp add: distinct_projects_fold)
  show "distinct (map pi_projectId (distinct_projects ps))"
    unfolding eq using keep_first_fold(2) [of "[]" ps] by simp
  show "pi_projectId ` set (distinct_projects ps) = pi_projectId ` set ps"
    using arg_cong [OF eq, of set] keep_first_fold(1) [of "[]" ps] by simp
  show "set (distinct_projects ps) \<subseteq> set ps"
    using keep_first_fold(4) [of "[]" ps] by (simp add: distinct_projects_fold)
qed

lemma keep_first_known: "pi_projectId ` set ps \<subseteq> fst ` set m \<Longrightarrow> foldl keep_first m ps = m"
  by (induction ps) (auto simp: keep_first_def js_get_None_iff)

lemma distinct_projects_again:
  "pi_projectId ` set again \<subseteq> pi_projectId ` set ps \<Longrightarrow> distinct_projects (ps @ again) = distinct_projects ps"
  by (simp add: distinct_projects_fold keep_first_known keep_first_fold(1))

lemma attribution_id: "attributeProject dj lc p zero = Inr a \<Longrightarrow> pa_projectId a = pi_projectId p \<and> pa_gmValueAtRisk a = pi_gmValueAtRisk p"
  by (auto simp: attributeProject_def Let_def and_then_Inr_iff split: if_splits)

lemma portfolio_Inr:
  assumes "portfolioValueAtRisk dj lc projects zero = Inr v"
  obtains rows where
    "money_sum_from dj zero (map pi_gmValueAtRisk (distinct_projects projects)) = Inr (pv_valueAtRisk v)"
    "try_map (\<lambda>p. attributeProject dj lc p zero) (distinct_projects projects) = Inr (pv_attributions v)"
    "try_map (concentration_row dj zero (pv_valueAtRisk v)) (projects_by_cause (distinct_projects projects)) = Inr rows"
    "pv_concentration v = sort_by (concentration_order dj lc) rows"
    "pv_projectCount v = length (distinct_projects projects)"
  using assms unfolding portfolioValueAtRisk_def Let_def and_then_Inr_iff by fastforce

section \<open>Concentration\<close>

definition carriers :: "string \<Rightarrow> project_cause_input list \<Rightarrow> project_cause_input list" where
  "carriers k unique = filter (\<lambda>p. k \<in> rc_causeKey ` set (pi_risks p)) unique"

lemma cause_keys_set [simp]: "set (cause_keys p) = rc_causeKey ` set (pi_risks p)" "distinct (cause_keys p)"
  by (simp_all add: cause_keys_def)

definition join_cause :: "project_cause_input \<Rightarrow> (string, project_cause_input list) js_map \<Rightarrow> string \<Rightarrow> (string, project_cause_input list) js_map" where
  "join_cause p m key = js_set key (nullish (js_get m key) [] @ [p]) m"

lemma join_causes_get:
  "distinct keys \<Longrightarrow> js_get (foldl (join_cause p) m keys) k
     = (if k \<in> set keys then Some (nullish (js_get m k) [] @ [p]) else js_get m k)"
  by (induction keys arbitrary: m) (auto simp: join_cause_def jsm.lookup_store)

lemma by_cause_get:
  "js_get (foldl (\<lambda>m p. foldl (join_cause p) m (cause_keys p)) m unique) k
     = (if carriers k unique = [] then js_get m k else Some (nullish (js_get m k) [] @ carriers k unique))"
  by (induction unique arbitrary: m) (auto simp: join_causes_get carriers_def)

lemma join_causes_distinct: "distinct (map fst m) \<Longrightarrow> distinct (map fst (foldl (join_cause p) m keys))"
  by (induction keys arbitrary: m) (simp_all add: join_cause_def js_set_keeps_distinct)

lemma projects_by_cause_fold: "projects_by_cause unique = foldl (\<lambda>m p. foldl (join_cause p) m (cause_keys p)) [] unique"
  by (simp add: projects_by_cause_def join_cause_def [abs_def])

lemma projects_by_cause_members:
  "distinct (map fst (projects_by_cause unique))"
  "(k, ms) \<in> set (projects_by_cause unique) \<longleftrightarrow> ms = carriers k unique \<and> ms \<noteq> []"
proof -
  have "distinct (map fst (foldl (\<lambda>m p. foldl (join_cause p) m (cause_keys p)) m unique))" if "distinct (map fst m)" for m
    using that by (induction unique arbitrary: m) (simp_all add: join_causes_distinct)
  then show d: "distinct (map fst (projects_by_cause unique))" by (simp add: projects_by_cause_fold)
  have "(k, ms) \<in> set (projects_by_cause unique) \<longleftrightarrow> js_get (projects_by_cause unique) k = Some ms"
    using d by (simp add: js_get_def map_of_eq_Some_iff)
  then show "(k, ms) \<in> set (projects_by_cause unique) \<longleftrightarrow> ms = carriers k unique \<and> ms \<noteq> []"
    by (auto simp: projects_by_cause_fold by_cause_get jsm.lookup_fresh)
qed

text \<open>Whatever the amounts: the attributions list each project identifier exactly once, and handing in projects again that
  were already there changes nothing of the result. The concentration rows name each recorded cause once, with exactly the
  projects that carry it.\<close>

lemma each_project_listed_once:
  "portfolioValueAtRisk dj localeCompare
     (projects @ filter (\<lambda>p. pi_projectId p \<in> pi_projectId ` set projects) again) zero
   = portfolioValueAtRisk dj localeCompare projects zero
   \<and> (case portfolioValueAtRisk dj localeCompare projects zero of
        Inl _ \<Rightarrow> True
      | Inr v \<Rightarrow>
          distinct (map pa_projectId (pv_attributions v))
          \<and> set (map pa_projectId (pv_attributions v)) = pi_projectId ` set projects
          \<and> pv_projectCount v = card (pi_projectId ` set projects)
          \<and> distinct (map cn_causeKey (pv_concentration v))
          \<and> set (map cn_causeKey (pv_concentration v)) = rc_causeKey ` set (concat (map pi_risks (distinct_projects projects)))
          \<and> list_all (\<lambda>row. mset (cn_projectIds row)
                = mset (map pi_projectId (filter (\<lambda>p. cn_causeKey row \<in> rc_causeKey ` set (pi_risks p)) (distinct_projects projects)))
              \<and> cn_exposedProjectCount row = length (cn_projectIds row)) (pv_concentration v))"
proof -
  have again: "distinct_projects (projects @ filter (\<lambda>p. pi_projectId p \<in> pi_projectId ` set projects) again) = distinct_projects projects"
    by (rule distinct_projects_again) auto
  have row: "cn_causeKey r = fst kms \<and> mset (cn_projectIds r) = mset (map pi_projectId (snd kms)) \<and> cn_exposedProjectCount r = length (snd kms)"
    if "concentration_row dj zero t kms = Inr r" for kms r t
    using that by (cases kms) (auto simp: concentration_row_def Let_def and_then_Inr_iff)
  show ?thesis
  proof (cases "portfolioValueAtRisk dj localeCompare projects zero")
    case (Inr v)
    from portfolio_Inr [OF Inr] obtain rows where v:
      "try_map (\<lambda>p. attributeProject dj localeCompare p zero) (distinct_projects projects) = Inr (pv_attributions v)"
      "try_map (concentration_row dj zero (pv_valueAtRisk v)) (projects_by_cause (distinct_projects projects)) = Inr rows"
      "pv_concentration v = sort_by (concentration_order dj localeCompare) rows"
      "pv_projectCount v = length (distinct_projects projects)" by metis
    have ids: "map pa_projectId (pv_attributions v) = map pi_projectId (distinct_projects projects)"
      by (rule try_map_related [OF v(1)]) (simp add: attribution_id)
    have keys: "map cn_causeKey rows = map fst (projects_by_cause (distinct_projects projects))"
      by (rule try_map_related [OF v(2)]) (simp add: row)
    have perm: "mset (map cn_causeKey (pv_concentration v)) = mset (map cn_causeKey rows)"
      by (simp add: v(3))
    have "set (map fst (projects_by_cause (distinct_projects projects)))
        = rc_causeKey ` set (concat (map pi_risks (distinct_projects projects)))"
    proof -
      have "k \<in> fst ` set (projects_by_cause u) \<longleftrightarrow> carriers k u \<noteq> []" for k u
        using projects_by_cause_members(2) [of k _ u] by (force simp: image_iff)
      then have "k \<in> fst ` set (projects_by_cause u) \<longleftrightarrow> (\<exists>p\<in>set u. k \<in> rc_causeKey ` set (pi_risks p))" for k u
        by (simp add: carriers_def filter_empty_conv)
      then show ?thesis by (intro set_eqI) auto
    qed
    moreover have "list_all (\<lambda>row. mset (cn_projectIds row)
          = mset (map pi_projectId (carriers (cn_causeKey row) (distinct_projects projects)))
        \<and> cn_exposedProjectCount row = length (cn_projectIds row)) rows"
      unfolding list_all_iff
    proof
      fix r assume "r \<in> set rows"
      from try_map_Inr_set [OF v(2) this]
      obtain k ms where "(k, ms) \<in> set (projects_by_cause (distinct_projects projects))"
        "concentration_row dj zero (pv_valueAtRisk v) (k, ms) = Inr r"
        by auto
      then have ms: "ms = carriers k (distinct_projects projects)" and r: "cn_causeKey r = k"
        "mset (cn_projectIds r) = mset (map pi_projectId ms)" "cn_exposedProjectCount r = length ms"
        using row projects_by_cause_members(2) by auto
      have "length (cn_projectIds r) = length ms" using mset_eq_length [OF r(2)] by simp
      then show "mset (cn_projectIds r) = mset (map pi_projectId (carriers (cn_causeKey r) (distinct_projects projects)))
          \<and> cn_exposedProjectCount r = length (cn_projectIds r)"
        using r unfolding ms by simp
    qed
    moreover have "distinct (map cn_causeKey (pv_concentration v))"
      using perm projects_by_cause_members(1) keys by (metis mset_eq_imp_distinct_iff)
    moreover have "set (map cn_causeKey (pv_concentration v)) = set (map cn_causeKey rows)"
      using perm by (metis set_mset_mset)
    moreover have "length (distinct_projects projects) = card (pi_projectId ` set projects)"
      using distinct_card [OF distinct_projects_ids(1) [of projects]] distinct_projects_ids(2) [of projects] by simp
    moreover have "portfolioValueAtRisk dj localeCompare
        (projects @ filter (\<lambda>p. pi_projectId p \<in> pi_projectId ` set projects) again) zero = Inr v"
      using Inr unfolding portfolioValueAtRisk_def again .
    ultimately show ?thesis
      unfolding Inr sum.case ids v(4) carriers_def keys [symmetric]
      using distinct_projects_ids [of projects] by (simp add: v(3) list_all_iff keys flip: set_map)
  qed (simp add: portfolioValueAtRisk_def again)
qed

section \<open>The total\<close>

text \<open>A figure in the portfolio's currency, not negative, and written with at most \<open>s\<close> decimals.\<close>

definition exact_figure :: "nat \<Rightarrow> currency \<Rightarrow> money \<Rightarrow> bool" where
  "exact_figure s c m \<longleftrightarrow> money_currency m = c \<and> 0 \<le> money_value m
     \<and> money_value m * 10 ^ s = of_int \<lfloor>money_value m * 10 ^ s\<rfloor>"

definition figures :: "project_cause_input list \<Rightarrow> rat" where
  "figures projects = sum_list (map (\<lambda>p. money_value (pi_gmValueAtRisk p)) projects)"

lemma sum_filter_le: "list_all (\<lambda>x. 0 \<le> f x) xs \<Longrightarrow> sum_list (map f (filter P xs)) \<le> (sum_list (map f xs) :: rat)"
  by (induction xs) auto

lemma member_le_sum: "list_all (\<lambda>x. 0 \<le> f x) xs \<Longrightarrow> x \<in> set xs \<Longrightarrow> f x \<le> (sum_list (map f xs) :: rat)"
proof (induction xs)
  case (Cons y ys)
  have "0 \<le> sum_list (map f ys)" using Cons.prems(1) by (induction ys) auto
  then show ?case using Cons by auto
qed simp

lemma exact_sum:
  assumes "decimal_lib dj" "list_all (\<lambda>p. exact_figure s c (pi_gmValueAtRisk p)) ps" "figures ps < 10 ^ q_precision / 10 ^ s"
  shows "money_sum_from dj (Money 0 c) (map pi_gmValueAtRisk ps) = Inr (Money (figures ps) c)"
proof -
  let ?ms = "map pi_gmValueAtRisk ps"
  have e: "\<forall>m\<in>set ?ms. money_currency m = c \<and> (\<exists>k. money_value m = scaled s k)"
  proof
    fix m assume "m \<in> set ?ms"
    then have "exact_figure s c m" using assms(2) by (auto simp: list_all_iff)
    then have "money_currency m = c" "money_value m = scaled s \<lfloor>money_value m * 10 ^ s\<rfloor>"
      by (auto simp: exact_figure_def scaled_def eq_divide_eq)
    then show "money_currency m = c \<and> (\<exists>k. money_value m = scaled s k)" by blast
  qed
  have nonneg: "map (\<lambda>m. \<bar>money_value m\<bar>) ?ms = map money_value ?ms"
    using assms(2) by (auto simp: list_all_iff exact_figure_def)
  have "sum_list (map (\<lambda>m. \<bar>money_value m\<bar>) ?ms) < 10 ^ q_precision / 10 ^ s"
    unfolding nonneg using assms(3) by (simp add: figures_def comp_def)
  from money_sum_value [OF assms(1) e this] show ?thesis
    by (simp add: money_sum_def money_zero_def figures_def comp_def)
qed

lemma largest_index_bound: "amounts \<noteq> [] \<Longrightarrow> largest_index dj amounts < length amounts"
proof -
  have "foldl (\<lambda>best i. if P best i then i else best) k is < n" if "k < n" "\<forall>i\<in>set is. i < n" for k n :: nat and "is" P
    using that by (induction "is" arbitrary: k) auto
  then show "amounts \<noteq> [] \<Longrightarrow> largest_index dj amounts < length amounts" by (simp add: largest_index_def)
qed

lemma plus_same: "money_currency a = money_currency b \<Longrightarrow> \<exists>m. money_plus dj a b = Inr m"
  by (simp add: money_plus_def assertSameCurrency_def)

lemma attribution_exists:
  assumes "money_currency (pi_gmValueAtRisk p) = c"
  shows "\<exists>a. attributeProject dj lc p (Money z c) = Inr a"
proof -
  let ?by = "weight_by_cause dj (pi_risks p)"
  let ?amounts = "map (\<lambda>(causeKey, raw). \<lparr>at_causeKey = causeKey, at_amount = money_times dj (pi_gmValueAtRisk p)
      (nullish (qDiv dj raw (foldl (qAdd dj) Q_ZERO (map snd ?by))) Q_ZERO)\<rparr>) (sort_by (\<lambda>a b. lc (fst a) (fst b)) ?by)"
  let ?k = "largest_index dj ?amounts"
  have cur: "money_currency (at_amount x) = c" if "x \<in> set ?amounts" for x
    using that assms by (auto simp: money_times_def)
  then have "find (\<lambda>m. money_currency m \<noteq> c) (map at_amount ?amounts) = None"
    unfolding find_None_iff by (metis (no_types, lifting) imageE list.set_map)
  then obtain v where sum: "money_sum_from dj (Money z c) (map at_amount ?amounts) = Inr (Money v c)"
    by (simp only: money_sum_from_eq option.case)
  obtain r where residual: "money_minus dj (pi_gmValueAtRisk p) (Money v c) = Inr (Money r c)"
    using assms by (simp add: money_minus_def assertSameCurrency_def)
  show ?thesis
  proof (cases "?by = []")
    case True
    then show ?thesis by (simp add: attributeProject_def Let_def)
  next
    case False
    have "length ?amounts = length ?by" by simp
    with False have "?k < length ?amounts" by (intro largest_index_bound) (metis length_0_conv)
    then have "money_currency (at_amount (?amounts ! ?k)) = c" by (intro cur nth_mem)
    then obtain m where "money_plus dj (at_amount (?amounts ! ?k)) (Money r c) = Inr m"
      using plus_same [of "at_amount (?amounts ! ?k)" "Money r c" dj] money.sel(2) by metis
    then show ?thesis
      unfolding attributeProject_def Let_def sum residual and_then_simps by (simp only: and_then_simps split: if_split) blast
  qed
qed

lemma comparator_reversed:
  assumes "comparator f"
  shows "comparator (\<lambda>x y. f y x)"
proof
  show "sgn (f x y) = - sgn (f y x)" for x y by (rule comparator.flip [OF assms])
  show "f z x \<le> 0" if "f y x \<le> 0" "f z y \<le> 0" for x y z using comparator.trans [OF assms that(2,1)] .
qed

lemma concentration_comparator:
  assumes "comparator localeCompare"
  shows "comparator (concentration_order dj localeCompare)"
proof -
  have "concentration_order dj localeCompare
      = cmp_lex (\<lambda>a b. cmp_key (\<lambda>r. money_toQuantity dj (cn_exposedValueAtRisk r)) qCompare b a) (cmp_key cn_causeKey localeCompare)"
    by (intro ext) (simp add: concentration_order_def cmp_lex_def cmp_key_def Let_def)
  then show ?thesis
    using comparator_lex [OF comparator_reversed [OF comparator_key [OF by_value.comparator_axioms]] comparator_key [OF assms]]
    by simp
qed

text \<open>Where the figures of all projects are in one currency, not negative and small enough to add exactly, the portfolio
  value at risk always exists and is the exact sum over the distinct projects: no cause they share reduces it. Every
  concentration row is the exact sum over the projects that carry its cause, never more than the total and never less than
  its largest project, and the rows come in falling order.\<close>

theorem shared_causes_never_reduce:
  assumes "decimal_lib dj" "comparator localeCompare"
    and exact: "list_all (\<lambda>p. exact_figure s c (pi_gmValueAtRisk p)) projects"
    and small: "figures (distinct_projects projects) < 10 ^ q_precision / 10 ^ s"
  shows "case portfolioValueAtRisk dj localeCompare projects (Money 0 c) of
     Inl _ \<Rightarrow> False
   | Inr v \<Rightarrow>
       pv_valueAtRisk v = Money (figures (distinct_projects projects)) c
       \<and> list_all (\<lambda>row.
            cn_exposedValueAtRisk row = Money (figures (carriers (cn_causeKey row) (distinct_projects projects))) c
            \<and> money_value (cn_exposedValueAtRisk row) \<le> money_value (pv_valueAtRisk v)
            \<and> money_value (cn_largestSingleProjectExposure row) \<le> money_value (cn_exposedValueAtRisk row)) (pv_concentration v)
       \<and> sorted_wrt (\<lambda>a b. qCompare (money_toQuantity dj (cn_exposedValueAtRisk b)) (money_toQuantity dj (cn_exposedValueAtRisk a)) \<le> 0)
            (pv_concentration v)"
proof -
  let ?u = "distinct_projects projects"
  have ex: "list_all (\<lambda>p. exact_figure s c (pi_gmValueAtRisk p)) ?u"
    using exact distinct_projects_ids(3) [of projects] by (auto simp: list_all_iff)
  then have nonneg: "list_all (\<lambda>p. 0 \<le> money_value (pi_gmValueAtRisk p)) ?u"
    by (auto simp: list_all_iff exact_figure_def)
  have total: "money_sum_from dj (Money 0 c) (map pi_gmValueAtRisk ?u) = Inr (Money (figures ?u) c)"
    by (rule exact_sum [OF assms(1) ex small])
  have le: "figures (carriers k ?u) \<le> figures ?u" for k
    unfolding figures_def carriers_def by (rule sum_filter_le [OF nonneg])
  have member: "money_sum_from dj (Money 0 c) (map pi_gmValueAtRisk (carriers k ?u)) = Inr (Money (figures (carriers k ?u)) c)" for k
    using ex le [of k] small by (intro exact_sum [OF assms(1)]) (auto simp: carriers_def list_all_iff)
  have largest: "money_value (foldl (\<lambda>best m. if P m best then pi_gmValueAtRisk m else best) z ms) \<le> B"
    if "money_value z \<le> B" "\<forall>m\<in>set ms. money_value (pi_gmValueAtRisk m) \<le> B" for P z ms B
    using that by (induction ms arbitrary: z) auto
  have row: "concentration_row dj (Money 0 c) t (k, carriers k ?u) = Inr r \<Longrightarrow> cn_causeKey r = k
      \<and> cn_exposedValueAtRisk r = Money (figures (carriers k ?u)) c
      \<and> money_value (cn_largestSingleProjectExposure r) \<le> figures (carriers k ?u)" for t k r
  proof -
    have nn: "list_all (\<lambda>p. 0 \<le> money_value (pi_gmValueAtRisk p)) (carriers k ?u)"
      using nonneg by (auto simp: carriers_def list_all_iff)
    then have "0 \<le> figures (carriers k ?u)" unfolding figures_def by (intro sum_list_nonneg) (auto simp: list_all_iff)
    moreover have "\<forall>m\<in>set (carriers k ?u). money_value (pi_gmValueAtRisk m) \<le> figures (carriers k ?u)"
      unfolding figures_def using member_le_sum [OF nn] by blast
    ultimately show "concentration_row dj (Money 0 c) t (k, carriers k ?u) = Inr r \<Longrightarrow> cn_causeKey r = k
      \<and> cn_exposedValueAtRisk r = Money (figures (carriers k ?u)) c
      \<and> money_value (cn_largestSingleProjectExposure r) \<le> figures (carriers k ?u)"
      using largest [of "Money 0 c" "figures (carriers k ?u)" "carriers k ?u"]
      by (auto simp: concentration_row_def member Let_def)
  qed
  have rows_exist: "\<exists>rows. try_map (concentration_row dj (Money 0 c) t) (projects_by_cause ?u) = Inr rows" for t
  proof (rule try_map_total)
    fix kms assume "kms \<in> set (projects_by_cause ?u)"
    then have "snd kms = carriers (fst kms) ?u" using projects_by_cause_members(2) by (metis prod.collapse)
    then show "\<exists>r. concentration_row dj (Money 0 c) t kms = Inr r"
      using member [of "fst kms"] by (cases kms) (simp add: concentration_row_def Let_def)
  qed
  have attributed: "\<exists>as. try_map (\<lambda>p. attributeProject dj localeCompare p (Money 0 c)) ?u = Inr as"
    using ex by (intro try_map_total attribution_exists) (auto simp: list_all_iff exact_figure_def)
  obtain v where v: "portfolioValueAtRisk dj localeCompare projects (Money 0 c) = Inr v"
  proof -
    obtain rows where rows: "try_map (concentration_row dj (Money 0 c) (Money (figures ?u) c)) (projects_by_cause ?u) = Inr rows"
      using rows_exist by blast
    obtain as where as: "try_map (\<lambda>p. attributeProject dj localeCompare p (Money 0 c)) ?u = Inr as"
      using attributed by blast
    show ?thesis by (rule that) (simp only: portfolioValueAtRisk_def Let_def total as rows and_then_simps)
  qed
  from portfolio_Inr [OF v] obtain rows where p:
    "money_sum_from dj (Money 0 c) (map pi_gmValueAtRisk ?u) = Inr (pv_valueAtRisk v)"
    "try_map (concentration_row dj (Money 0 c) (pv_valueAtRisk v)) (projects_by_cause ?u) = Inr rows"
    "pv_concentration v = sort_by (concentration_order dj localeCompare) rows" by metis
  have t: "pv_valueAtRisk v = Money (figures ?u) c" using p(1) total by simp
  have "list_all (\<lambda>row. cn_exposedValueAtRisk row = Money (figures (carriers (cn_causeKey row) ?u)) c
      \<and> money_value (cn_exposedValueAtRisk row) \<le> money_value (pv_valueAtRisk v)
      \<and> money_value (cn_largestSingleProjectExposure row) \<le> money_value (cn_exposedValueAtRisk row)) rows"
    unfolding list_all_iff
  proof
    fix r assume "r \<in> set rows"
    from try_map_Inr_set [OF p(2) this]
    obtain k ms where km: "(k, ms) \<in> set (projects_by_cause ?u)" and r: "concentration_row dj (Money 0 c) (pv_valueAtRisk v) (k, ms) = Inr r"
      by auto
    have "concentration_row dj (Money 0 c) (pv_valueAtRisk v) (k, carriers k ?u) = Inr r"
      using projects_by_cause_members(2) [THEN iffD1, OF km] r by simp
    from row [OF this] le [of k] show "cn_exposedValueAtRisk r = Money (figures (carriers (cn_causeKey r) ?u)) c
      \<and> money_value (cn_exposedValueAtRisk r) \<le> money_value (pv_valueAtRisk v)
      \<and> money_value (cn_largestSingleProjectExposure r) \<le> money_value (cn_exposedValueAtRisk r)"
      by (simp add: t)
  qed
  then have all: "list_all (\<lambda>row. cn_exposedValueAtRisk row = Money (figures (carriers (cn_causeKey row) ?u)) c
      \<and> money_value (cn_exposedValueAtRisk row) \<le> money_value (pv_valueAtRisk v)
      \<and> money_value (cn_largestSingleProjectExposure row) \<le> money_value (cn_exposedValueAtRisk row)) (pv_concentration v)"
    unfolding p(3) list_all_iff set_sort_by .
  have "sorted_wrt (\<lambda>a b. concentration_order dj localeCompare a b \<le> 0) (pv_concentration v)"
    unfolding p(3) by (rule comparator.sorted_sort_by [OF concentration_comparator [OF assms(2)]])
  then have "sorted_wrt (\<lambda>a b. qCompare (money_toQuantity dj (cn_exposedValueAtRisk b)) (money_toQuantity dj (cn_exposedValueAtRisk a)) \<le> 0)
      (pv_concentration v)"
    by (rule sorted_wrt_mono_rel [rotated]) (auto simp: concentration_order_def Let_def split: if_splits)
  then show ?thesis unfolding v sum.case using t all by (intro conjI)
qed

section \<open>Every project is counted once\<close>

text \<open>What the first record with an identifier has at risk.\<close>

definition first_figure :: "project_cause_input list \<Rightarrow> string \<Rightarrow> rat" where
  "first_figure projects k = money_value (pi_gmValueAtRisk (hd (filter (\<lambda>p. pi_projectId p = k) projects)))"

lemma keep_first_get: "js_get (foldl keep_first m ps) k
    = (case js_get m k of Some p \<Rightarrow> Some p | None \<Rightarrow> find (\<lambda>p. pi_projectId p = k) ps)"
proof (induction ps arbitrary: m)
  case (Cons p ps)
  show ?case unfolding foldl_Cons Cons.IH
    by (auto simp: keep_first_def jsm.lookup_store split: option.splits)
qed (simp split: option.splits)

lemma distinct_projects_first:
  assumes "p \<in> set (distinct_projects ps)"
  shows "first_figure ps (pi_projectId p) = money_value (pi_gmValueAtRisk p)"
proof -
  let ?m = "foldl keep_first [] ps"
  obtain k where k: "(k, p) \<in> set ?m" using assms by (auto simp: distinct_projects_fold)
  have "map fst ?m = map (\<lambda>x. pi_projectId (snd x)) ?m" by (rule keep_first_fold(3)) simp
  then have "k = pi_projectId p" using k by (auto simp: map_eq_conv)
  moreover have "js_get ?m k = Some p"
    using k keep_first_fold(2) [of "[]" ps] by (simp add: js_get_def)
  ultimately have "find (\<lambda>q. pi_projectId q = pi_projectId p) ps = Some p"
    by (simp add: keep_first_get jsm.lookup_fresh)
  then have "hd (filter (\<lambda>q. pi_projectId q = pi_projectId p) ps) = p"
    by (induction ps) (auto split: if_splits)
  then show ?thesis by (simp add: first_figure_def)
qed

lemma figures_first: "figures (distinct_projects ps) = (\<Sum>k\<in>pi_projectId ` set ps. first_figure ps k)"
proof -
  have "map (\<lambda>p. money_value (pi_gmValueAtRisk p)) (distinct_projects ps) = map (first_figure ps) (map pi_projectId (distinct_projects ps))"
    by (simp add: distinct_projects_first)
  then show ?thesis
    unfolding figures_def using distinct_projects_ids(1,2) [of ps]
    by (simp add: sum_list_distinct_conv_sum_set del: map_map flip: set_map)
qed

text \<open>C28: The portfolio figure counts every project once. Where all figures are in one currency, not negative, and written
  with at most \<open>s\<close> decimals within the 34 digits of the library, there is a result; its value at risk is the exact sum,
  over the distinct project identifiers, of what the first record of each has at risk, whatever causes the projects share;
  handing in projects again that were already there changes nothing, whatever they say the second time. The attributions
  list each identifier exactly once, and the concentration rows name each recorded cause once, with exactly the projects
  that carry it.\<close>

theorem each_project_counted_once:
  assumes "decimal_lib dj" "comparator localeCompare"
    and "list_all (\<lambda>p. exact_figure s c (pi_gmValueAtRisk p)) projects"
    and "(\<Sum>k\<in>pi_projectId ` set projects. first_figure projects k) < 10 ^ q_precision / 10 ^ s"
  shows "portfolioValueAtRisk dj localeCompare
      (projects @ filter (\<lambda>p. pi_projectId p \<in> pi_projectId ` set projects) again) (Money 0 c)
    = portfolioValueAtRisk dj localeCompare projects (Money 0 c)
    \<and> (case portfolioValueAtRisk dj localeCompare projects (Money 0 c) of
         Inl _ \<Rightarrow> False
       | Inr v \<Rightarrow>
           pv_valueAtRisk v = Money (\<Sum>k\<in>pi_projectId ` set projects. first_figure projects k) c
           \<and> distinct (map pa_projectId (pv_attributions v))
           \<and> set (map pa_projectId (pv_attributions v)) = pi_projectId ` set projects
           \<and> pv_projectCount v = card (pi_projectId ` set projects)
           \<and> distinct (map cn_causeKey (pv_concentration v))
           \<and> set (map cn_causeKey (pv_concentration v)) = rc_causeKey ` set (concat (map pi_risks (distinct_projects projects)))
           \<and> list_all (\<lambda>row. mset (cn_projectIds row)
                 = mset (map pi_projectId (filter (\<lambda>p. cn_causeKey row \<in> rc_causeKey ` set (pi_risks p)) (distinct_projects projects)))
               \<and> cn_exposedProjectCount row = length (cn_projectIds row)) (pv_concentration v))"
  using shared_causes_never_reduce [OF assms(1,2,3) assms(4) [folded figures_first]]
    each_project_listed_once [of dj localeCompare projects again "Money 0 c"]
  unfolding figures_first by (simp split: sum.splits)

section \<open>The division of one project's figure\<close>

lemma attribution_eta: "\<lparr>at_causeKey = at_causeKey x, at_amount = at_amount x\<rparr> = x" for x :: cause_attribution
  by (cases x) simp

text \<open>One project's value at risk is divided over exactly the causes its risks carry, each once; the named dominant cause is
  one of them and carries the stated amount. A project is left undivided exactly when it has no risk, nothing at risk or no
  weight behind its risks, and then it says which.\<close>

theorem attribution_covers_causes:
  "case attributeProject dj localeCompare p zero of
     Inl _ \<Rightarrow> True
   | Inr a \<Rightarrow>
       (if pa_notAttributableReason a = None
        then mset (map at_causeKey (pa_attributions a)) = mset_set (rc_causeKey ` set (pi_risks p))
          \<and> (case pa_dominantCause a of None \<Rightarrow> False
              | Some k \<Rightarrow> \<lparr>at_causeKey = k, at_amount = pa_dominantAmount a\<rparr> \<in> set (pa_attributions a))
        else pa_attributions a = [] \<and> pa_dominantCause a = None \<and> pa_dominantAmount a = zero)
       \<and> (pa_notAttributableReason a \<noteq> None \<longleftrightarrow>
            pi_risks p = [] \<or> qCompare (foldl (qAdd dj) Q_ZERO (map snd (weight_by_cause dj (pi_risks p)))) Q_ZERO \<le> 0
            \<or> money_isZero (pi_gmValueAtRisk p))"
proof -
  have keys: "distinct (map fst (weight_by_cause dj rs)) \<and> set (map fst (weight_by_cause dj rs)) = rc_causeKey ` set rs" for rs
    unfolding weight_by_cause_def by (induction rs rule: rev_induct) (auto simp: js_set_keys simp flip: set_map)
  let ?by = "weight_by_cause dj (pi_risks p)"
  have empty: "?by = [] \<longleftrightarrow> pi_risks p = []"
    using keys [of "pi_risks p"] by (metis image_is_empty set_empty map_is_Nil_conv)
  have "mset (map fst ?by) = mset_set (rc_causeKey ` set (pi_risks p))"
    using keys [of "pi_risks p"] by (metis mset_set_set)
  then have perm: "mset (map fst (sort_by f ?by)) = mset_set (rc_causeKey ` set (pi_risks p))" for f by simp
  let ?amounts = "map (\<lambda>(causeKey, raw). \<lparr>at_causeKey = causeKey, at_amount = money_times dj (pi_gmValueAtRisk p)
      (nullish (qDiv dj raw (foldl (qAdd dj) Q_ZERO (map snd ?by))) Q_ZERO)\<rparr>) (sort_by (\<lambda>a b. localeCompare (fst a) (fst b)) ?by)"
  let ?k = "largest_index dj ?amounts"
  have ks: "map at_causeKey ?amounts = map fst (sort_by (\<lambda>a b. localeCompare (fst a) (fst b)) ?by)" by auto
  have upd: "map at_causeKey (?amounts[?k := \<lparr>at_causeKey = at_causeKey (?amounts ! ?k), at_amount = m\<rparr>]) = map at_causeKey ?amounts" for m
    by (simp only: map_update cause_attribution.select_convs) (metis list_update_id map_update)
  have "length ?amounts = length ?by" by simp
  then have k: "?k < length ?amounts" if "?by \<noteq> []" using that by (intro largest_index_bound) (metis length_0_conv)
  show ?thesis
  proof (cases "length ?by = 0 \<or> qCompare (foldl (qAdd dj) Q_ZERO (map snd ?by)) Q_ZERO \<le> 0 \<or> money_isZero (pi_gmValueAtRisk p)")
    case True
    then show ?thesis using empty by (simp add: attributeProject_def Let_def)
  next
    case False
    then have nonempty: "?by \<noteq> []" by simp
    show ?thesis
    proof (cases "attributeProject dj localeCompare p zero")
      case (Inr a)
      from Inr False obtain m where a: "pa_attributions a = ?amounts[?k := \<lparr>at_causeKey = at_causeKey (?amounts ! ?k), at_amount = m\<rparr>]"
        "pa_dominantCause a = Some (at_causeKey (pa_attributions a ! ?k))" "pa_dominantAmount a = at_amount (pa_attributions a ! ?k)"
        "pa_notAttributableReason a = None"
        unfolding attributeProject_def Let_def if_not_P [OF False] and_then_Inr_iff
        by (elim exE conjE) (drule sum.inject(2) [THEN iffD1], drule sym, simp only: project_attribution.select_convs simp_thms)
      have "pa_attributions a ! ?k \<in> set (pa_attributions a)" using k [OF nonempty] by (intro nth_mem) (simp only: a(1) length_list_update)
      then have "\<lparr>at_causeKey = at_causeKey (pa_attributions a ! ?k), at_amount = at_amount (pa_attributions a ! ?k)\<rparr> \<in> set (pa_attributions a)"
        by (simp only: attribution_eta)
      moreover have "mset (map at_causeKey (pa_attributions a)) = mset_set (rc_causeKey ` set (pi_risks p))"
        unfolding a(1) upd ks by (rule perm)
      ultimately show ?thesis
        using False empty unfolding Inr sum.case a(2,3,4) by simp
    qed simp
  qed
qed

section \<open>Instances\<close>

definition sample_project :: "string \<Rightarrow> rat \<Rightarrow> risk_cause list \<Rightarrow> project_cause_input" where
  "sample_project k v risks = \<lparr>pi_projectId = k, pi_gmValueAtRisk = Money v USD, pi_risks = risks\<rparr>"

definition key_person :: "rat \<Rightarrow> risk_cause" where
  "key_person impact = \<lparr>rc_causeKey = ''KEY_PERSON'', rc_probability = Qty 5 1, rc_costImpact = Money impact USD\<rparr>"

definition sample_portfolio :: "project_cause_input list" where
  "sample_portfolio = [sample_project ''P1'' 100 [key_person 80], sample_project ''P2'' 60 [key_person 50], sample_project ''P1'' 7 []]"

lemma sample_ids: "pi_projectId ` set sample_portfolio = {''P1'', ''P2''}"
  by (auto simp: sample_portfolio_def sample_project_def)

lemma sample_figures: "(\<Sum>k\<in>pi_projectId ` set sample_portfolio. first_figure sample_portfolio k) = 160"
  unfolding sample_ids by (simp add: sample_portfolio_def sample_project_def first_figure_def)

lemma sample_exact: "list_all (\<lambda>p. exact_figure 0 USD (pi_gmValueAtRisk p)) sample_portfolio"
  by (simp add: sample_portfolio_def sample_project_def exact_figure_def)

theorem each_project_counted_once_witness:
  "case portfolioValueAtRisk ref_decimal cmp_ord sample_portfolio (Money 0 USD) of
     Inl _ \<Rightarrow> False | Inr v \<Rightarrow> pv_valueAtRisk v = Money 160 USD \<and> pv_projectCount v = 2"
proof -
  have n: "card (pi_projectId ` set sample_portfolio) = 2"
    unfolding sample_ids by simp
  show ?thesis
    using each_project_counted_once [OF ref.decimal_lib_axioms natural.comparator_axioms sample_exact, of "[]"]
    unfolding sample_figures n by (simp add: q_precision_def split: sum.splits)
qed

text \<open>A project with a recorded cause and nothing at risk is listed among those with no recorded cause.\<close>

lemma cause_recorded_yet_listed:
  "map_sum id pv_projectsWithNoRecordedCause
     (portfolioValueAtRisk dj localeCompare [sample_project ''P1'' 0 [key_person 80]] (Money 0 USD)) = Inr [''P1'']"
proof -
  have "distinct_projects [sample_project ''P1'' 0 [key_person 80]] = [sample_project ''P1'' 0 [key_person 80]]"
    by (simp add: distinct_projects_def js_get_def js_set_def)
  moreover have "projects_by_cause [sample_project ''P1'' 0 [key_person 80]] = [(''KEY_PERSON'', [sample_project ''P1'' 0 [key_person 80]])]"
    by (simp add: projects_by_cause_def cause_keys_def sample_project_def key_person_def js_get_def js_set_def)
  ultimately show ?thesis
    by (simp add: portfolioValueAtRisk_def attributeProject_def concentration_row_def Let_def sample_project_def money_isZero_def
      money_plus_def assertSameCurrency_def)
qed

end
