(* ===== verification/Recovery.thy ===== *)
theory Recovery
  imports Money Unit_Scores Decimal_Reference Explainability
begin

text \<open>
  \<open>contexts/recovery/internal/recovery-economics.ts\<close>: what a recovery plan is worth. Actions that fix the same problem
  are banked once, the recovery case takes the banked actions in full, the probability-adjusted case scales them by
  confidence, and the credibility of the plan is kept apart from both. Weeks are whole numbers.
\<close>

section \<open>Data\<close>

datatype recovery_action_status = PROPOSED | COMMITTED | IN_PROGRESS | COMPLETE | ABANDONED

fun status_text :: "recovery_action_status \<Rightarrow> string" where
  "status_text PROPOSED = ''PROPOSED''"
| "status_text COMMITTED = ''COMMITTED''"
| "status_text IN_PROGRESS = ''IN_PROGRESS''"
| "status_text COMPLETE = ''COMPLETE''"
| "status_text ABANDONED = ''ABANDONED''"

record recovery_action =
  ra_id :: string
  ra_description :: string
  ra_ownerActorId :: "string option"
  ra_dueOn :: "calendar_date option"
  ra_status :: recovery_action_status
  ra_revenueBenefit :: money
  ra_costBenefit :: money
  ra_scheduleBenefitWeeks :: int
  ra_confidence :: quantity
  ra_incompatibilityGroup :: "string option"
  ra_evidence :: "record_ref list"

record credibility_weights =
  rw_ownership :: quantity
  rw_timeliness :: quantity
  rw_completion :: quantity

record recovery_input =
  re_projectId :: string
  re_week :: week_id
  re_assessedAt :: instant
  re_ruleVersion :: rule_version
  re_metricCatalogVersion :: string
  re_currency :: currency
  re_forecastRevenue :: money
  re_forecastCost :: money
  re_forecastGmPercent :: ratio
  re_riskAdjustedGmPercent :: ratio
  re_actions :: "recovery_action list"
  re_baseEvidence :: "record_ref list"
  re_overdueDiscount :: quantity
  re_confidenceFloor :: quantity
  re_today :: calendar_date
  re_credibilityWeights :: credibility_weights

record counted_action =
  ct_id :: string
  ct_counted :: bool
  ct_reason :: string
  ct_appliedRevenueBenefit :: money
  ct_appliedCostBenefit :: money
  ct_appliedConfidence :: quantity

record recovery_economics =
  ro_projectId :: string
  ro_week :: week_id
  ro_assessedAt :: instant
  ro_currentForecastGmPercent :: ratio
  ro_riskAdjustedGmPercent :: ratio
  ro_recoveryCaseGmPercent :: ratio
  ro_probabilityAdjustedGmPercent :: ratio
  ro_planCredibility :: "quantity option"
  ro_recoveryUpliftPp :: "quantity option"
  ro_scheduleBenefitWeeks :: int
  ro_actions :: "counted_action list"
  ro_explanation :: explanation

datatype recovery_error = Mixed_currencies money_error | Not_explained explanation_error | No_such_action

definition refused :: "('e \<Rightarrow> recovery_error) \<Rightarrow> 'e + 'a \<Rightarrow> recovery_error + 'a" where
  "refused f r = map_sum f (\<lambda>x. x) r"

definition ACTIVE :: "recovery_action_status list" where
  "ACTIVE = [PROPOSED, COMMITTED, IN_PROGRESS, COMPLETE]"

definition gm_ratio :: "decimal_js \<Rightarrow> money \<Rightarrow> money \<Rightarrow> money_error + ratio" where
  "gm_ratio dj revenue cost = and_then (money_minus dj revenue cost) (\<lambda>margin. money_dividedBy dj margin revenue)"

section \<open>Which actions are banked\<close>

definition live_actions :: "recovery_action list \<Rightarrow> recovery_action list" where
  "live_actions actions = filter (\<lambda>a. ra_status a \<in> set ACTIVE) actions"

definition total_benefit :: "decimal_js \<Rightarrow> recovery_action \<Rightarrow> money_error + money" where
  "total_benefit dj x = money_plus dj (ra_revenueBenefit x) (ra_costBenefit x)"

fun best_in_group :: "decimal_js \<Rightarrow> recovery_action list \<Rightarrow> (string, string) js_map \<Rightarrow> recovery_action list
    \<Rightarrow> money_error + (string, string) js_map" where
  "best_in_group dj live best [] = Inr best"
| "best_in_group dj live best (a # as) =
     (case ra_incompatibilityGroup a of
        None \<Rightarrow> best_in_group dj live best as
      | Some g \<Rightarrow>
          (case Option.bind (js_get best g) (\<lambda>i. find (\<lambda>x. ra_id x = i) live) of
             None \<Rightarrow> best_in_group dj live (js_set g (ra_id a) best) as
           | Some incumbent \<Rightarrow>
               and_then (total_benefit dj a) (\<lambda>mine. and_then (total_benefit dj incumbent) (\<lambda>theirs.
               and_then (money_compare mine theirs) (\<lambda>order.
                 best_in_group dj live (if order > 0 then js_set g (ra_id a) best else best) as)))))"

definition overdue :: "calendar_date \<Rightarrow> recovery_action \<Rightarrow> bool" where
  "overdue today a \<longleftrightarrow> ra_status a \<noteq> COMPLETE
     \<and> (case ra_dueOn a of None \<Rightarrow> False | Some due \<Rightarrow> \<not> date_le today due)"

definition applied_confidence :: "decimal_js \<Rightarrow> recovery_input \<Rightarrow> recovery_action \<Rightarrow> quantity" where
  "applied_confidence dj input a =
     (let discounted = (if overdue (re_today input) a
                        then qMul dj (ra_confidence a) (qSub dj Q_ONE (re_overdueDiscount input)) else ra_confidence a)
      in if qCompare discounted (re_confidenceFloor input) < 0 then Q_ZERO else qClamp discounted Q_ZERO Q_ONE)"

definition left_out :: "money \<Rightarrow> recovery_action \<Rightarrow> string \<Rightarrow> counted_action" where
  "left_out zero a reason = \<lparr>ct_id = ra_id a, ct_counted = False, ct_reason = reason,
     ct_appliedRevenueBenefit = zero, ct_appliedCostBenefit = zero, ct_appliedConfidence = Q_ZERO\<rparr>"

definition count_action :: "decimal_js \<Rightarrow> recovery_input \<Rightarrow> (string, string) js_map \<Rightarrow> money \<Rightarrow> recovery_action \<Rightarrow> counted_action" where
  "count_action dj input best zero a =
     (if ra_status a \<notin> set ACTIVE then left_out zero a (''status '' @ status_text (ra_status a))
      else if (case ra_incompatibilityGroup a of None \<Rightarrow> False | Some g \<Rightarrow> js_get best g \<noteq> Some (ra_id a))
      then left_out zero a
        (''superseded within incompatibility group \"'' @ nullish (ra_incompatibilityGroup a) '''' @ ''\" by ''
         @ nullish (Option.bind (ra_incompatibilityGroup a) (js_get best)) ''undefined''
         @ '' -- the same problem is not fixed twice'')
      else
        let applied = applied_confidence dj input a
        in \<lparr>ct_id = ra_id a, ct_counted = True,
            ct_reason = (if overdue (re_today input) a
              then ''counted; overdue since '' @ (case ra_dueOn a of None \<Rightarrow> '''' | Some due \<Rightarrow> date_text due)
                @ '', confidence discounted '' @ q_text (ra_confidence a) @ '' -> '' @ q_text applied
              else ''counted''),
            ct_appliedRevenueBenefit = ra_revenueBenefit a, ct_appliedCostBenefit = ra_costBenefit a,
            ct_appliedConfidence = applied\<rparr>)"

definition counted_actions :: "recovery_action list \<Rightarrow> counted_action list \<Rightarrow> recovery_action list" where
  "counted_actions live counted =
     filter (\<lambda>a. ra_id a \<in> set (map ct_id (filter ct_counted counted))) live"

section \<open>The two cases\<close>

fun money_less_from :: "decimal_js \<Rightarrow> money \<Rightarrow> money list \<Rightarrow> money_error + money" where
  "money_less_from dj acc [] = Inr acc"
| "money_less_from dj acc (m # items) = and_then (money_minus dj acc m) (\<lambda>acc'. money_less_from dj acc' items)"

definition confidence_in :: "counted_action list \<Rightarrow> recovery_action \<Rightarrow> quantity" where
  "confidence_in counted a = nullish (map_option ct_appliedConfidence (find (\<lambda>x. ct_id x = ra_id a) counted)) Q_ZERO"

definition case_totals :: "decimal_js \<Rightarrow> recovery_input \<Rightarrow> recovery_action list \<Rightarrow> money_error + money \<times> money" where
  "case_totals dj input banked =
     and_then (money_sum_from dj (re_forecastRevenue input) (map ra_revenueBenefit banked)) (\<lambda>revenue.
     and_then (money_less_from dj (re_forecastCost input) (map ra_costBenefit banked)) (\<lambda>cost. Inr (revenue, cost)))"

definition adjusted_totals :: "decimal_js \<Rightarrow> recovery_input \<Rightarrow> counted_action list \<Rightarrow> recovery_action list \<Rightarrow> money_error + money \<times> money" where
  "adjusted_totals dj input counted banked =
     and_then (money_sum_from dj (re_forecastRevenue input)
         (map (\<lambda>a. money_times dj (ra_revenueBenefit a) (confidence_in counted a)) banked)) (\<lambda>revenue.
     and_then (money_less_from dj (re_forecastCost input)
         (map (\<lambda>a. money_times dj (ra_costBenefit a) (confidence_in counted a)) banked)) (\<lambda>cost. Inr (revenue, cost)))"

section \<open>Credibility\<close>

definition share_of :: "decimal_js \<Rightarrow> recovery_action list \<Rightarrow> (recovery_action \<Rightarrow> bool) \<Rightarrow> quantity" where
  "share_of dj live pred = nullish (qDiv dj (q_nat (length (filter pred live))) (q_nat (length live))) Q_ZERO"

definition plan_credibility :: "decimal_js \<Rightarrow> recovery_input \<Rightarrow> recovery_action list \<Rightarrow> quantity option" where
  "plan_credibility dj input live =
     (if length live = 0 then None
      else
        let w = re_credibilityWeights input;
            owned = share_of dj live (\<lambda>a. ra_ownerActorId a \<noteq> None \<and> ra_dueOn a \<noteq> None);
            onTime = share_of dj live (\<lambda>a. ra_status a = COMPLETE
              \<or> (case ra_dueOn a of None \<Rightarrow> True | Some due \<Rightarrow> date_le (re_today input) due));
            complete = share_of dj live (\<lambda>a. ra_status a = COMPLETE);
            weightSum = qAdd dj (qAdd dj (rw_ownership w) (rw_timeliness w)) (rw_completion w)
        in map_option (\<lambda>s. qFixed dj (qMul dj s Q_HUNDRED) 2)
             (qDiv dj (qAdd dj (qAdd dj (qMul dj owned (rw_ownership w)) (qMul dj onTime (rw_timeliness w)))
                (qMul dj complete (rw_completion w))) weightSum))"

section \<open>The evaluations\<close>

definition recovery_evaluation :: "recovery_input \<Rightarrow> string \<Rightarrow> string \<Rightarrow> string \<Rightarrow> string \<Rightarrow> rule_status \<Rightarrow>
    reason_code option \<Rightarrow> string option \<Rightarrow> string option \<Rightarrow> impact option \<Rightarrow> string \<Rightarrow> string \<Rightarrow> record_ref list \<Rightarrow> rule_evaluation" where
  "recovery_evaluation input ruleId name signalId metricId status code reason observedValue estimated contributes narrative evidence =
     \<lparr>ev_status = status, ev_notEvaluatedReasonCode = code, ev_requiredEvidence = None, ev_missingEvidence = None,
      ev_ruleId = ruleId, ev_ruleName = name, ev_ruleSetId = ''RECOVERY-v1'', ev_ruleVersion = re_ruleVersion input,
      ev_signalId = signalId, ev_signalMetricId = Some metricId, ev_observedValue = observedValue, ev_comparison = PRESENT,
      ev_thresholdValue = None, ev_notEvaluatedReason = reason, ev_fired = (status = FIRED), ev_trend = None,
      ev_estimatedImpact = estimated, ev_contribution = contributes, ev_narrative = narrative, ev_evidence = evidence\<rparr>"

definition base_evaluation :: "decimal_js \<Rightarrow> recovery_input \<Rightarrow> rule_evaluation" where
  "base_evaluation dj input =
     (case ratioToQuantity dj (re_forecastGmPercent input) of
        None \<Rightarrow> recovery_evaluation input ''REC-BASE'' ''Current forecast margin'' ''FORECAST_GM'' ''MET-FIN-014'' RULE_NOT_COMPUTABLE
          (Some REQUIRED_METRIC_NOT_COMPUTABLE) (Some ''forecast revenue is zero'') None None
          ''the base the recovery case is measured from''
          ''Forecast GM is NOT_COMPUTABLE, so no recovery uplift can be stated.'' (re_baseEvidence input)
      | Some q \<Rightarrow> recovery_evaluation input ''REC-BASE'' ''Current forecast margin'' ''FORECAST_GM'' ''MET-FIN-014'' FIRED
          None None (Some (q_text q)) None ''the base the recovery case is measured from''
          (''Current forecast GM is '' @ q_text q @ '', supplied by financial -- not recomputed here.'') (re_baseEvidence input))"

definition risk_evaluation :: "decimal_js \<Rightarrow> recovery_input \<Rightarrow> rule_evaluation" where
  "risk_evaluation dj input =
     recovery_evaluation input ''REC-RISK'' ''Risk-adjusted margin'' ''RISK_ADJUSTED_GM'' ''MET-FIN-033''
       (if isComputable (re_riskAdjustedGmPercent input) then FIRED else RULE_NOT_COMPUTABLE) None None
       (map_option q_text (ratioToQuantity dj (re_riskAdjustedGmPercent input))) None
       ''reported beside the recovery case, never merged into it''
       (''Risk-adjusted margin answers \"what if the open risks land\"; the recovery case answers ''
        @ ''\"what if our fixes land\". They are different questions and are never averaged.'') (re_baseEvidence input)"

definition action_evaluation :: "decimal_js \<Rightarrow> recovery_input \<Rightarrow> counted_action \<Rightarrow> recovery_error + rule_evaluation" where
  "action_evaluation dj input c =
     (case find (\<lambda>x. ra_id x = ct_id c) (re_actions input) of
        None \<Rightarrow> Inl No_such_action
      | Some a \<Rightarrow> and_then (refused Mixed_currencies (total_benefit dj a)) (\<lambda>benefit. Inr
          (recovery_evaluation input (''REC-ACTION-'' @ ct_id c) (ra_description a) ''RECOVERY_ACTION'' ''MET-REC-001''
            (if ct_counted c then FIRED else RULE_NOT_APPLICABLE)
            (if ct_counted c then None else Some REQUIRED_EVIDENCE_MISSING)
            (if ct_counted c then None else Some (ct_reason c))
            (Some (q_text (money_toQuantity dj benefit)))
            (if ct_counted c then Some \<lparr>impact_amount = dto_amount (money_toDto dj benefit),
               impact_currency = currency_code (dto_currency (money_toDto dj benefit))\<rparr> else None)
            (if ct_counted c
             then ct_reason c @ ''; +'' @ q_text (money_toQuantity dj (ra_revenueBenefit a)) @ '' revenue, -''
               @ q_text (money_toQuantity dj (ra_costBenefit a)) @ '' ''
               @ ''cost, '' @ show_int (ra_scheduleBenefitWeeks a) @ ''w schedule at applied confidence '' @ q_text (ct_appliedConfidence c)
             else ct_reason c)
            (ra_description a @ '' -- owner '' @ nullish (ra_ownerActorId a) ''UNASSIGNED'' @ '', due ''
              @ (case ra_dueOn a of None \<Rightarrow> ''UNDATED'' | Some due \<Rightarrow> date_text due) @ '', ''
              @ ''status '' @ status_text (ra_status a) @ ''. '' @ ct_reason c @ ''.''
              @ (if ra_ownerActorId a = None \<or> ra_dueOn a = None
                 then '' An action without an owner or a date is a wish, and is counted in the economics but ''
                   @ ''held against plan credibility.''
                 else ''''))
            (ra_evidence a))))"

definition credibility_evaluation :: "recovery_input \<Rightarrow> recovery_action list \<Rightarrow> quantity option \<Rightarrow> rule_evaluation" where
  "credibility_evaluation input live credibility =
     (let entry = recovery_evaluation input ''REC-CREDIBILITY'' ''Plan credibility'' ''PLAN_CREDIBILITY'' ''MET-REC-003'' in
      case credibility of
        None \<Rightarrow> entry RULE_NOT_APPLICABLE (Some REQUIRED_EVIDENCE_MISSING) (Some ''the plan contains no live actions'') None None
          ''reported separately from the economics''
          (''No live recovery actions, so credibility is undefined rather than zero -- there is no plan ''
           @ ''to judge. OVR-NO-CREDIBLE-PLAN reads this state directly.'') (concat (map ra_evidence live))
      | Some q \<Rightarrow> entry FIRED None None (Some (q_text q)) None ''reported separately from the economics''
          (''Plan credibility '' @ q_text q @ '' over '' @ show_nat (length live) @ '' live action''
           @ (if length live = 1 then '''' else ''s'') @ ''. A plan can ''
           @ ''be arithmetically sound and completely unowned; this number is what says so.'') (concat (map ra_evidence live)))"

section \<open>The engine\<close>

definition computeRecoveryEconomics :: "decimal_js \<Rightarrow> recovery_input \<Rightarrow> recovery_error + recovery_economics" where
  "computeRecoveryEconomics dj input =
     and_then (refused Mixed_currencies (money_minus dj (re_forecastRevenue input) (re_forecastRevenue input))) (\<lambda>zero.
     let live = live_actions (re_actions input) in
     and_then (refused Mixed_currencies (best_in_group dj live [] live)) (\<lambda>best.
     let counted = map (count_action dj input best zero) (re_actions input);
         banked = counted_actions live counted in
     and_then (refused Mixed_currencies (case_totals dj input banked)) (\<lambda>full.
     and_then (refused Mixed_currencies (gm_ratio dj (fst full) (snd full))) (\<lambda>recoveryCaseGmPercent.
     and_then (refused Mixed_currencies (adjusted_totals dj input counted banked)) (\<lambda>adjusted.
     and_then (refused Mixed_currencies (gm_ratio dj (fst adjusted) (snd adjusted))) (\<lambda>probabilityAdjustedGmPercent.
     let planCredibility = plan_credibility dj input live;
         forecastQ = ratioToQuantity dj (re_forecastGmPercent input);
         caseQ = ratioToQuantity dj recoveryCaseGmPercent;
         recoveryUpliftPp = (case forecastQ of None \<Rightarrow> None | Some f \<Rightarrow>
           map_option (\<lambda>c. qFixed dj (qSub dj c f) 6) caseQ) in
     and_then (try_map (action_evaluation dj input) counted) (\<lambda>evaluated.
     and_then (refused Not_explained (explain
         (case caseQ of None \<Rightarrow> ''Recovery case NOT_COMPUTABLE''
          | Some c \<Rightarrow> ''Recovery case GM '' @ q_text c @ '', probability-adjusted ''
              @ nullish (map_option q_text (ratioToQuantity dj probabilityAdjustedGmPercent)) ''NOT_COMPUTABLE'')
         (map_option (\<lambda>u. q_text u @ '' margin points above the current forecast if the plan lands in full'') recoveryUpliftPp)
         (re_assessedAt input) (re_ruleVersion input) (re_metricCatalogVersion input) None
         ([base_evaluation dj input, risk_evaluation dj input] @ evaluated @ [credibility_evaluation input live planCredibility])))
     (\<lambda>explanation. Inr
       \<lparr>ro_projectId = re_projectId input, ro_week = re_week input, ro_assessedAt = re_assessedAt input,
        ro_currentForecastGmPercent = re_forecastGmPercent input,
        ro_riskAdjustedGmPercent = re_riskAdjustedGmPercent input,
        ro_recoveryCaseGmPercent = recoveryCaseGmPercent,
        ro_probabilityAdjustedGmPercent = probabilityAdjustedGmPercent,
        ro_planCredibility = planCredibility, ro_recoveryUpliftPp = recoveryUpliftPp,
        ro_scheduleBenefitWeeks = foldl (\<lambda>a x. a + ra_scheduleBenefitWeeks x) 0 banked,
        ro_actions = counted, ro_explanation = explanation\<rparr>))))))))"

section \<open>One fix is banked once\<close>

definition benefit :: "decimal_js \<Rightarrow> recovery_action \<Rightarrow> rat" where
  "benefit dj a = dround dj q_precision (money_value (ra_revenueBenefit a) + money_value (ra_costBenefit a))"

lemma refused_Inr [simp]: "refused f r = Inr x \<longleftrightarrow> r = Inr x"
  by (cases r) (simp_all add: refused_def)

lemma total_benefit_value: "total_benefit dj a = Inr m \<Longrightarrow> money_value m = benefit dj a"
  by (auto simp: total_benefit_def money_plus_def assertSameCurrency_def benefit_def split: if_splits)

lemma compare_value: "money_compare a b = Inr i \<Longrightarrow> i > 0 \<longleftrightarrow> money_value b < money_value a"
  by (auto simp: money_compare_def assertSameCurrency_def cmp_ord_def split: if_splits)

lemma find_by_id: "distinct (map ra_id xs) \<Longrightarrow> b \<in> set xs \<Longrightarrow> find (\<lambda>x. ra_id x = ra_id b) xs = Some b"
  by (induction xs) auto

lemma filter_by_id: "distinct (map ra_id xs) \<Longrightarrow> b \<in> set xs \<Longrightarrow> filter (\<lambda>x. ra_id x = ra_id b) xs = [b]"
  by (induction xs) (auto simp: filter_empty_conv image_iff)

text \<open>What the loop has established over the actions it has seen: per group, a seen action with the largest benefit.\<close>

definition champion :: "decimal_js \<Rightarrow> string option \<Rightarrow> recovery_action list \<Rightarrow> string \<Rightarrow> bool" where
  "champion dj best seen g \<longleftrightarrow> (case best of
      None \<Rightarrow> \<forall>a\<in>set seen. ra_incompatibilityGroup a \<noteq> Some g
    | Some i \<Rightarrow> \<exists>b\<in>set seen. ra_id b = i \<and> ra_incompatibilityGroup b = Some g
        \<and> (\<forall>a\<in>set seen. ra_incompatibilityGroup a = Some g \<longrightarrow> benefit dj a \<le> benefit dj b))"

definition champions :: "decimal_js \<Rightarrow> (string, string) js_map \<Rightarrow> recovery_action list \<Rightarrow> bool" where
  "champions dj best seen \<longleftrightarrow> (\<forall>g. champion dj (js_get best g) seen g)"

lemma champion_other: "champion dj m seen h \<Longrightarrow> ra_incompatibilityGroup a \<noteq> Some h \<Longrightarrow> champion dj m (seen @ [a]) h"
  by (cases m) (auto simp: champion_def)

lemma champions_other: "champions dj best seen \<Longrightarrow> ra_incompatibilityGroup a = None \<Longrightarrow> champions dj best (seen @ [a])"
  by (simp add: champions_def champion_other)

lemma champions_keep:
  assumes c: "champions dj best seen" and g: "ra_incompatibilityGroup a = Some g" "js_get best g = Some (ra_id b)"
    and b: "b \<in> set seen" "ra_incompatibilityGroup b = Some g" "benefit dj a \<le> benefit dj b"
      "\<forall>a\<in>set seen. ra_incompatibilityGroup a = Some g \<longrightarrow> benefit dj a \<le> benefit dj b"
  shows "champions dj best (seen @ [a])"
proof -
  have "champion dj (js_get best g) (seen @ [a]) g" using g b by (auto simp: champion_def)
  moreover have "champion dj (js_get best h) (seen @ [a]) h" if "h \<noteq> g" for h
    using c g(1) that by (intro champion_other) (auto simp: champions_def)
  ultimately show ?thesis unfolding champions_def by metis
qed

lemma champions_set:
  assumes c: "champions dj best seen" and g: "ra_incompatibilityGroup a = Some g"
    and a: "\<forall>x\<in>set seen. ra_incompatibilityGroup x = Some g \<longrightarrow> benefit dj x \<le> benefit dj a"
  shows "champions dj (js_set g (ra_id a) best) (seen @ [a])"
proof -
  have "champion dj (Some (ra_id a)) (seen @ [a]) g" using g a by (auto simp: champion_def)
  moreover have "champion dj (js_get best h) (seen @ [a]) h" if "h \<noteq> g" for h
    using c g that by (intro champion_other) (auto simp: champions_def)
  ultimately show ?thesis by (simp add: champions_def jsm.lookup_store)
qed

lemma best_champions:
  assumes "distinct (map ra_id live)" "set seen \<union> set rest \<subseteq> set live"
    and "champions dj best seen" "best_in_group dj live best rest = Inr best'"
  shows "champions dj best' (seen @ rest)"
  using assms(2-4)
proof (induction rest arbitrary: best seen)
  case (Cons a as)
  have step: "champions dj best' (seen @ a # as)"
    if "best_in_group dj live m as = Inr best'" "champions dj m (seen @ [a])" for m
    using Cons.IH [of "seen @ [a]" m] that Cons.prems(1) by simp
  show ?case
  proof (cases "ra_incompatibilityGroup a")
    case None
    then show ?thesis using Cons.prems champions_other by (intro step) auto
  next
    case (Some g)
    show ?thesis
    proof (cases "js_get best g")
      case None
      then have "\<forall>x\<in>set seen. ra_incompatibilityGroup x \<noteq> Some g"
        using Cons.prems(2) unfolding champions_def by (auto simp: champion_def dest!: spec [of _ g])
      then have "champions dj (js_set g (ra_id a) best) (seen @ [a])"
        by (intro champions_set [OF Cons.prems(2) Some]) auto
      then show ?thesis using Cons.prems(3) Some None by (intro step) auto
    next
      case i: (Some i)
      then obtain b where b: "b \<in> set seen" "ra_id b = i" "ra_incompatibilityGroup b = Some g"
        "\<forall>x\<in>set seen. ra_incompatibilityGroup x = Some g \<longrightarrow> benefit dj x \<le> benefit dj b"
        using Cons.prems(2) unfolding champions_def by (auto simp: champion_def dest!: spec [of _ g])
      have "find (\<lambda>x. ra_id x = i) live = Some b"
        using find_by_id [OF assms(1), of b] b(1,2) Cons.prems(1) by auto
      with Cons.prems(3) Some i obtain mine theirs ord where
        t: "total_benefit dj a = Inr mine" "total_benefit dj b = Inr theirs" "money_compare mine theirs = Inr ord"
          "best_in_group dj live (if ord > 0 then js_set g (ra_id a) best else best) as = Inr best'"
        by (auto simp: and_then_Inr_iff)
      have ord: "ord > 0 \<longleftrightarrow> benefit dj b < benefit dj a"
        using compare_value [OF t(3)] total_benefit_value [OF t(1)] total_benefit_value [OF t(2)] by simp
      have "champions dj (if ord > 0 then js_set g (ra_id a) best else best) (seen @ [a])"
      proof (cases "ord > 0")
        case True
        then have "\<forall>x\<in>set seen. ra_incompatibilityGroup x = Some g \<longrightarrow> benefit dj x \<le> benefit dj a"
          using ord b(4) by fastforce
        from champions_set [OF Cons.prems(2) Some this] True show ?thesis by simp
      next
        case False
        then have "benefit dj a \<le> benefit dj b" using ord by simp
        from champions_keep [OF Cons.prems(2) Some _ b(1,3) this b(4)] False i b(2) show ?thesis by simp
      qed
      then show ?thesis by (intro step [OF t(4)])
    qed
  qed
qed simp

lemma recovery_Inr:
  assumes "computeRecoveryEconomics dj input = Inr r"
  obtains zero best where
    "best_in_group dj (live_actions (re_actions input)) [] (live_actions (re_actions input)) = Inr best"
    "ro_actions r = map (count_action dj input best zero) (re_actions input)"
    "ro_planCredibility r = plan_credibility dj input (live_actions (re_actions input))"
  using assms unfolding computeRecoveryEconomics_def Let_def and_then_Inr_iff refused_Inr
  by (elim exE conjE) (drule sum.inject(2) [THEN iffD1], drule sym, auto)

lemma counted_iff: "ct_counted (count_action dj input best zero a) \<longleftrightarrow> ra_status a \<noteq> ABANDONED
    \<and> (case ra_incompatibilityGroup a of None \<Rightarrow> True | Some g \<Rightarrow> js_get best g = Some (ra_id a))"
  by (cases "ra_status a") (auto simp: count_action_def left_out_def Let_def ACTIVE_def split: option.splits)

lemma count_action_id: "ct_id (count_action dj input best zero a) = ra_id a"
  by (simp add: count_action_def left_out_def Let_def)

lemma live_iff: "a \<in> set (live_actions actions) \<longleftrightarrow> a \<in> set actions \<and> ra_status a \<noteq> ABANDONED"
  by (cases "ra_status a") (auto simp: live_actions_def ACTIVE_def)

definition banked_in :: "string \<Rightarrow> (recovery_action \<times> counted_action) list \<Rightarrow> recovery_action list" where
  "banked_in g entries = map fst (filter (\<lambda>e. ct_counted (snd e) \<and> ra_incompatibilityGroup (fst e) = Some g) entries)"

text \<open>C29: For a plan whose actions have distinct identifiers, every action is answered once and in order. An abandoned
  action is never counted, an independent one always, and of the live actions that fix the same problem exactly one is
  banked, one with the largest benefit.\<close>

theorem one_fix_banked_once:
  assumes "distinct (map ra_id (re_actions input))"
  shows "case computeRecoveryEconomics dj input of
     Inl _ \<Rightarrow> True
   | Inr r \<Rightarrow>
       map ct_id (ro_actions r) = map ra_id (re_actions input)
       \<and> list_all (\<lambda>e. if ra_status (fst e) = ABANDONED then \<not> ct_counted (snd e)
            else case ra_incompatibilityGroup (fst e) of
                None \<Rightarrow> ct_counted (snd e)
              | Some g \<Rightarrow> (case banked_in g (zip (re_actions input) (ro_actions r)) of
                    [b] \<Rightarrow> benefit dj (fst e) \<le> benefit dj b
                  | _ \<Rightarrow> False))
          (zip (re_actions input) (ro_actions r))"
proof (cases "computeRecoveryEconomics dj input")
  case (Inr r)
  let ?as = "re_actions input"
  from recovery_Inr [OF Inr] obtain zero best where b: "best_in_group dj (live_actions ?as) [] (live_actions ?as) = Inr best"
    "ro_actions r = map (count_action dj input best zero) ?as" by metis
  let ?h = "count_action dj input best zero"
  have d: "distinct (map ra_id (live_actions ?as))"
    using assms by (simp add: live_actions_def distinct_map_filter)
  have "champions dj [] []" by (simp add: champions_def champion_def jsm.lookup_fresh)
  from best_champions [OF d _ this b(1)] have champions: "champions dj best (live_actions ?as)" by simp
  have zipped: "zip ?as (ro_actions r) = map (\<lambda>a. (a, ?h a)) ?as"
    unfolding b(2) by (simp add: zip_map2 zip_same_conv_map)
  have one: "\<exists>b'. banked_in g (zip ?as (ro_actions r)) = [b'] \<and> benefit dj a \<le> benefit dj b'"
    if a: "a \<in> set ?as" "ra_status a \<noteq> ABANDONED" "ra_incompatibilityGroup a = Some g" for a g
  proof -
    have live: "a \<in> set (live_actions ?as)" using a by (simp add: live_iff)
    obtain i where i: "js_get best g = Some i"
      using champions live a(3) by (cases "js_get best g") (auto simp: champions_def champion_def dest!: spec [of _ g])
    then obtain b' where b': "b' \<in> set (live_actions ?as)" "ra_id b' = i" "ra_incompatibilityGroup b' = Some g"
      "benefit dj a \<le> benefit dj b'"
      using champions live a(3) by (auto simp: champions_def champion_def dest!: spec [of _ g])
    have "filter (\<lambda>x. ct_counted (?h x) \<and> ra_incompatibilityGroup x = Some g) ?as = filter (\<lambda>x. ra_id x = ra_id b') ?as"
    proof (rule filter_cong [OF refl])
      fix x assume x: "x \<in> set ?as"
      show "(ct_counted (?h x) \<and> ra_incompatibilityGroup x = Some g) \<longleftrightarrow> ra_id x = ra_id b'"
      proof
        assume "ra_id x = ra_id b'"
        then have "x = b'" using assms x b'(1) by (auto simp: live_iff distinct_map inj_on_def)
        then show "ct_counted (?h x) \<and> ra_incompatibilityGroup x = Some g" using b' i by (auto simp: counted_iff live_iff)
      qed (use i b'(2) in \<open>auto simp: counted_iff\<close>)
    qed
    also have "\<dots> = [b']" using assms b'(1) by (intro filter_by_id) (auto simp: live_iff)
    finally have "banked_in g (zip ?as (ro_actions r)) = [b']" by (simp add: banked_in_def zipped filter_map comp_def)
    then show ?thesis using b'(4) by blast
  qed
  have ids: "map ct_id (ro_actions r) = map ra_id ?as" by (simp add: b(2) count_action_id)
  have pointwise: "if ra_status a = ABANDONED then \<not> ct_counted (?h a)
      else case ra_incompatibilityGroup a of None \<Rightarrow> ct_counted (?h a)
        | Some g \<Rightarrow> (case banked_in g (zip ?as (ro_actions r)) of [b] \<Rightarrow> benefit dj a \<le> benefit dj b | _ \<Rightarrow> False)" if "a \<in> set ?as" for a
    using one [OF that] by (cases "ra_incompatibilityGroup a") (fastforce simp: counted_iff)+
  have "if ra_status (fst e) = ABANDONED then \<not> ct_counted (snd e)
      else case ra_incompatibilityGroup (fst e) of None \<Rightarrow> ct_counted (snd e)
        | Some g \<Rightarrow> (case banked_in g (zip ?as (ro_actions r)) of [b] \<Rightarrow> benefit dj (fst e) \<le> benefit dj b | _ \<Rightarrow> False)"
    if "e \<in> set (zip ?as (ro_actions r))" for e
  proof -
    from that obtain a where a: "a \<in> set ?as" "e = (a, ?h a)" unfolding zipped set_map by blast
    show ?thesis using pointwise [OF a(1)] unfolding a(2) fst_conv snd_conv .
  qed
  with ids show ?thesis unfolding Inr sum.case list_all_iff by blast
qed simp

section \<open>When a plan can be computed\<close>

definition one_currency :: "currency \<Rightarrow> recovery_input \<Rightarrow> bool" where
  "one_currency c input \<longleftrightarrow> money_currency (re_forecastRevenue input) = c \<and> money_currency (re_forecastCost input) = c
     \<and> list_all (\<lambda>a. money_currency (ra_revenueBenefit a) = c \<and> money_currency (ra_costBenefit a) = c) (re_actions input)"

lemma plus_in: "money_currency a = c \<Longrightarrow> money_currency b = c \<Longrightarrow> \<exists>m. money_plus dj a b = Inr m \<and> money_currency m = c"
  and minus_in: "money_currency a = c \<Longrightarrow> money_currency b = c \<Longrightarrow> \<exists>m. money_minus dj a b = Inr m \<and> money_currency m = c"
  by (simp_all add: money_plus_def money_minus_def assertSameCurrency_def)

lemma sum_in: "money_currency a = c \<Longrightarrow> \<forall>m\<in>set ms. money_currency m = c \<Longrightarrow> \<exists>m. money_sum_from dj a ms = Inr m \<and> money_currency m = c"
proof (induction ms arbitrary: a)
  case (Cons m ms)
  then obtain a' where "money_plus dj a m = Inr a'" "money_currency a' = c" using plus_in [of a c m dj] by auto
  then show ?case using Cons.IH [of a'] Cons.prems(2) by simp
qed simp

lemma less_in: "money_currency a = c \<Longrightarrow> \<forall>m\<in>set ms. money_currency m = c \<Longrightarrow> \<exists>m. money_less_from dj a ms = Inr m \<and> money_currency m = c"
proof (induction ms arbitrary: a)
  case (Cons m ms)
  then obtain a' where "money_minus dj a m = Inr a'" "money_currency a' = c" using minus_in [of a c m dj] by auto
  then show ?case using Cons.IH [of a'] Cons.prems(2) by simp
qed simp

lemma gm_in: "money_currency a = c \<Longrightarrow> money_currency b = c \<Longrightarrow> \<exists>q. gm_ratio dj a b = Inr q"
  using minus_in [of a c b dj] by (auto simp: gm_ratio_def money_dividedBy_def assertSameCurrency_def)

lemma total_in: "money_currency (ra_revenueBenefit a) = c \<Longrightarrow> money_currency (ra_costBenefit a) = c \<Longrightarrow>
    \<exists>m. total_benefit dj a = Inr m \<and> money_currency m = c"
  unfolding total_benefit_def by (rule plus_in)

lemma best_exists:
  assumes live: "\<forall>a\<in>set live. money_currency (ra_revenueBenefit a) = c \<and> money_currency (ra_costBenefit a) = c"
    and rest: "set rest \<subseteq> set live"
  shows "\<exists>m. best_in_group dj live best rest = Inr m"
  using rest
proof (induction rest arbitrary: best)
  case (Cons a as)
  have mine: "\<exists>m. total_benefit dj a = Inr m \<and> money_currency m = c" using live Cons.prems by (intro total_in) auto
  have theirs: "\<exists>m. total_benefit dj b = Inr m \<and> money_currency m = c" if "find P live = Some b" for P b
    using live that by (intro total_in) (auto simp: find_Some_iff)
  have next': "\<exists>m. best_in_group dj live b as = Inr m" for b using Cons by simp
  show ?case
    using mine next' by (auto split: option.split dest!: theirs simp: bind_eq_Some_conv money_compare_def assertSameCurrency_def)
qed simp

lemma try_map_ex: "\<forall>x\<in>set xs. \<exists>y. f x = Inr y \<Longrightarrow> \<exists>ys. try_map f xs = Inr ys"
  by (induction xs) (auto simp: and_then_Inr_iff)

lemma evaluated_exists:
  assumes "\<forall>a\<in>set (re_actions input). money_currency (ra_revenueBenefit a) = c \<and> money_currency (ra_costBenefit a) = c"
    "\<forall>a\<in>set (re_actions input). ra_evidence a \<noteq> []" "ct_id e \<in> ra_id ` set (re_actions input)"
  shows "\<exists>ev. action_evaluation dj input e = Inr ev \<and> ev_evidence ev \<noteq> []"
proof -
  obtain a where a: "find (\<lambda>x. ra_id x = ct_id e) (re_actions input) = Some a" "a \<in> set (re_actions input)"
    using assms(3) by (cases "find (\<lambda>x. ra_id x = ct_id e) (re_actions input)") (auto simp: find_None_iff find_Some_iff)
  obtain m where "total_benefit dj a = Inr m" using total_in [of a c dj] assms(1) a(2) by auto
  then show ?thesis using a assms(2) by (simp add: action_evaluation_def refused_def recovery_evaluation_def)
qed

lemma plan_computed:
  assumes c: "one_currency c input" and ev: "re_baseEvidence input \<noteq> []" "\<forall>a\<in>set (re_actions input). ra_evidence a \<noteq> []"
  shows "\<exists>r. computeRecoveryEconomics dj input = Inr r"
proof -
  let ?live = "live_actions (re_actions input)"
  have actions: "\<forall>a\<in>set (re_actions input). money_currency (ra_revenueBenefit a) = c \<and> money_currency (ra_costBenefit a) = c"
    and base: "money_currency (re_forecastRevenue input) = c" "money_currency (re_forecastCost input) = c"
    using c by (auto simp: one_currency_def list_all_iff)
  obtain zero where zero: "money_minus dj (re_forecastRevenue input) (re_forecastRevenue input) = Inr zero"
    using minus_in [OF base(1) base(1)] by blast
  obtain best where best: "best_in_group dj ?live [] ?live = Inr best"
    using best_exists [of ?live c ?live dj "[]"] actions by (auto simp: live_iff)
  let ?counted = "map (count_action dj input best zero) (re_actions input)"
  let ?banked = "counted_actions ?live ?counted"
  have banked: "\<forall>a\<in>set ?banked. money_currency (ra_revenueBenefit a) = c \<and> money_currency (ra_costBenefit a) = c"
    using actions by (auto simp: counted_actions_def live_iff)
  obtain r1 c1 where t1: "case_totals dj input ?banked = Inr (r1, c1)" "money_currency r1 = c" "money_currency c1 = c"
    using sum_in [OF base(1), of "map ra_revenueBenefit ?banked" dj] less_in [OF base(2), of "map ra_costBenefit ?banked" dj] banked
    by (auto simp: case_totals_def)
  obtain r2 c2 where t2: "adjusted_totals dj input ?counted ?banked = Inr (r2, c2)" "money_currency r2 = c" "money_currency c2 = c"
    using sum_in [OF base(1), of "map (\<lambda>a. money_times dj (ra_revenueBenefit a) (confidence_in ?counted a)) ?banked" dj]
      less_in [OF base(2), of "map (\<lambda>a. money_times dj (ra_costBenefit a) (confidence_in ?counted a)) ?banked" dj] banked
    by (auto simp: adjusted_totals_def money_times_def)
  obtain q1 q2 where q: "gm_ratio dj r1 c1 = Inr q1" "gm_ratio dj r2 c2 = Inr q2" using gm_in t1 t2 by metis
  have one: "\<exists>e. action_evaluation dj input x = Inr e \<and> ev_evidence e \<noteq> []" if "x \<in> set ?counted" for x
    using that by (intro evaluated_exists [OF actions ev(2)]) (auto simp: count_action_id)
  then obtain es where es: "try_map (action_evaluation dj input) ?counted = Inr es"
    using try_map_ex [of ?counted "action_evaluation dj input"] by blast
  have "\<forall>e\<in>set es. ev_evidence e \<noteq> []" using try_map_Inr_set [OF es] one by fastforce
  moreover have "concat (map ra_evidence ?live) \<noteq> []" if "plan_credibility dj input ?live = Some k" for k
  proof -
    have "?live \<noteq> []" using that by (auto simp: plan_credibility_def)
    then obtain a where "a \<in> set ?live" by (cases ?live) auto
    then show ?thesis using ev(2) by (auto simp: live_iff)
  qed
  ultimately have "\<exists>x. explain o' d t rv mv hv ([base_evaluation dj input, risk_evaluation dj input] @ es
      @ [credibility_evaluation input ?live (plan_credibility dj input ?live)]) = Inr x" for o' d t rv mv hv
    unfolding explain_Inr_iff using ev(1)
    by (auto simp: base_evaluation_def risk_evaluation_def credibility_evaluation_def recovery_evaluation_def Let_def split: option.splits)
  then show ?thesis
    unfolding computeRecoveryEconomics_def Let_def
    by (auto simp only: zero best t1(1) t2(1) q es fst_conv snd_conv refused_def map_sum.simps and_then_simps)
      (metis and_then_simps(2) map_sum.simps(2))
qed

section \<open>Bounds\<close>

context decimal_lib begin

lemma applied_unit: "unit_interval (applied_confidence dj input a)"
  by (simp add: applied_confidence_def Let_def unit_interval_def clamp_unit)

lemma count_action_unit: "unit_interval (ct_appliedConfidence (count_action dj input best zero a))"
  by (auto simp: count_action_def left_out_def Let_def applied_unit) (simp_all add: unit_interval_def)

lemma share_of_unit: "unit_interval (share_of dj live P)"
proof (cases "qDiv dj (q_nat (length (filter P live))) (q_nat (length live))")
  case (Some q)
  then show ?thesis using quotient_unit [OF Some] by (simp add: share_of_def)
qed (simp add: share_of_def unit_interval_def)

lemma credibility_bounds:
  assumes "sound_weight (rw_ownership (re_credibilityWeights input))" "sound_weight (rw_timeliness (re_credibilityWeights input))"
    "sound_weight (rw_completion (re_credibilityWeights input))" and c: "plan_credibility dj input live = Some q"
  shows "0 \<le> qval q \<and> qval q \<le> 100"
proof -
  let ?w = "re_credibilityWeights input"
  have sum: "0 \<le> qval (qAdd dj (qAdd dj (qMul dj u (rw_ownership ?w)) (qMul dj v (rw_timeliness ?w))) (qMul dj t (rw_completion ?w)))"
    "qval (qAdd dj (qAdd dj (qMul dj u (rw_ownership ?w)) (qMul dj v (rw_timeliness ?w))) (qMul dj t (rw_completion ?w)))
      \<le> qval (qAdd dj (qAdd dj (rw_ownership ?w) (rw_timeliness ?w)) (rw_completion ?w))"
    if "unit_interval u" "unit_interval v" "unit_interval t" for u v t
    using scaled_part [OF that(1) assms(1)] scaled_part [OF that(2) assms(2)] scaled_part [OF that(3) assms(3)]
    unfolding qval_ops(1) by (auto intro!: round_nonneg round_mono add_mono add_nonneg_nonneg)
  from c obtain r u v t where r: "unit_interval u" "unit_interval v" "unit_interval t"
    "qDiv dj (qAdd dj (qAdd dj (qMul dj u (rw_ownership ?w)) (qMul dj v (rw_timeliness ?w))) (qMul dj t (rw_completion ?w)))
        (qAdd dj (qAdd dj (rw_ownership ?w) (rw_timeliness ?w)) (rw_completion ?w)) = Some r"
    "q = qFixed dj (qMul dj r Q_HUNDRED) 2"
    by (auto simp: plan_credibility_def Let_def intro: that [OF share_of_unit share_of_unit share_of_unit] split: if_splits)
  from percentage_bounds [OF quotient_unit [OF r(4) sum [OF r(1-3)]]] show ?thesis unfolding r(5) .
qed

lemma foldl_round_mono:
  "a \<le> b \<Longrightarrow> list_all (\<lambda>x. f x \<le> g x) xs \<Longrightarrow>
    foldl (\<lambda>a x. dround dj q_precision (a + x)) a (map f xs) \<le> foldl (\<lambda>a x. dround dj q_precision (a + x)) b (map g xs)"
  by (induction xs arbitrary: a b) (auto intro: round_mono add_mono)

end

lemma money_less_from_eq:
  "money_less_from dj (Money v c) items =
     (case find (\<lambda>m. money_currency m \<noteq> c) items of
        Some m \<Rightarrow> Inl (CurrencyMismatch c (money_currency m))
      | None \<Rightarrow> Inr (Money (foldl (\<lambda>a x. dround dj q_precision (a + x)) v (map (\<lambda>m. - money_value m) items)) c))"
  by (induction items arbitrary: v) (auto simp: money_minus_def assertSameCurrency_def split: option.splits)

lemma summed_value: "money_sum_from dj a items = Inr m \<Longrightarrow>
    money_value m = foldl (\<lambda>a x. dround dj q_precision (a + x)) (money_value a) (map money_value items)"
  by (cases a) (auto simp: money_sum_from_eq split: option.splits)

lemma lessened_value: "money_less_from dj a items = Inr m \<Longrightarrow>
    money_value m = foldl (\<lambda>a x. dround dj q_precision (a + x)) (money_value a) (map (\<lambda>m. - money_value m) items)"
  by (cases a) (auto simp: money_less_from_eq split: option.splits)

text \<open>A benefit of an action: not negative, and written within the digits of the arithmetic.\<close>

definition sound_benefit :: "money \<Rightarrow> bool" where
  "sound_benefit m \<longleftrightarrow> 0 \<le> money_value m \<and> money_value m < 10 ^ 24
     \<and> money_value m * 10 ^ 10 = of_int \<lfloor>money_value m * 10 ^ 10\<rfloor>"

lemma sound_benefit_fits: "sound_benefit m \<Longrightarrow> fits q_precision (money_value m)"
proof -
  assume m: "sound_benefit m"
  let ?k = "\<lfloor>money_value m * 10 ^ 10\<rfloor>"
  have v: "money_value m = of_int ?k / 10 ^ 10" using m by (simp add: sound_benefit_def eq_divide_eq)
  have "0 \<le> ?k" using m by (simp add: sound_benefit_def)
  moreover have "?k < 10 ^ 34" using m unfolding floor_less_iff by (simp add: sound_benefit_def)
  ultimately have "\<bar>?k\<bar> < 10 ^ q_precision" by (simp add: q_precision_def)
  then show ?thesis using v fits_places [of ?k q_precision 10] by simp
qed

definition sound_plan :: "recovery_input \<Rightarrow> bool" where
  "sound_plan input \<longleftrightarrow>
     list_all (\<lambda>a. sound_benefit (ra_revenueBenefit a) \<and> sound_benefit (ra_costBenefit a)) (re_actions input)
     \<and> list_all sound_weight [rw_ownership (re_credibilityWeights input), rw_timeliness (re_credibilityWeights input),
          rw_completion (re_credibilityWeights input)]"

context decimal_lib begin

lemma scaled_benefit:
  assumes "sound_benefit m" "unit_interval q"
  shows "money_value (money_times dj m q) \<le> money_value m"
  using assms sound_benefit_fits [OF assms(1)]
  by (auto simp: money_times_def sound_benefit_def unit_interval_def intro!: round_le_fits mult_left_le)

lemma adjusted_within_case:
  assumes plan: "list_all (\<lambda>a. sound_benefit (ra_revenueBenefit a) \<and> sound_benefit (ra_costBenefit a)) banked"
    and unit: "list_all (\<lambda>c. unit_interval (ct_appliedConfidence c)) counted"
    and t: "case_totals dj input banked = Inr (r1, c1)" "adjusted_totals dj input counted banked = Inr (r2, c2)"
  shows "money_value r2 \<le> money_value r1 \<and> money_value c1 \<le> money_value c2"
proof -
  have u: "unit_interval (confidence_in counted a)" for a
  proof (cases "find (\<lambda>x. ct_id x = ra_id a) counted")
    case (Some c)
    then have "c \<in> set counted" by (auto simp: find_Some_iff)
    then show ?thesis using unit by (simp add: confidence_in_def Some list_all_iff)
  qed (simp add: confidence_in_def unit_interval_def)
  have le: "list_all (\<lambda>a. money_value (money_times dj (ra_revenueBenefit a) (confidence_in counted a)) \<le> money_value (ra_revenueBenefit a)) banked"
    "list_all (\<lambda>a. - money_value (ra_costBenefit a) \<le> - money_value (money_times dj (ra_costBenefit a) (confidence_in counted a))) banked"
    using plan u by (auto simp: list_all_iff scaled_benefit)
  show ?thesis
    using t foldl_round_mono [OF order.refl le(1)] foldl_round_mono [OF order.refl le(2)]
    by (auto simp: case_totals_def adjusted_totals_def and_then_Inr_iff comp_def dest!: summed_value lessened_value)
qed

end

text \<open>The confidence applied to an action lies between 0 and 1, the credibility of the plan between 0 and 100, and the
  probability-adjusted case never claims more than the recovery case: no more revenue, and no less cost, under every
  rounding of the sums.\<close>

theorem hope_never_exceeds_plan:
  assumes "decimal_lib dj" "sound_plan input"
  shows "case computeRecoveryEconomics dj input of
     Inl _ \<Rightarrow> True
   | Inr r \<Rightarrow>
       list_all (\<lambda>c. unit_interval (ct_appliedConfidence c)) (ro_actions r)
       \<and> (case ro_planCredibility r of None \<Rightarrow> True | Some q \<Rightarrow> 0 \<le> qval q \<and> qval q \<le> 100)
       \<and> (let banked = counted_actions (live_actions (re_actions input)) (ro_actions r) in
          case (case_totals dj input banked, adjusted_totals dj input (ro_actions r) banked) of
            (Inr (revenue, cost), Inr (adjustedRevenue, adjustedCost)) \<Rightarrow>
              money_value adjustedRevenue \<le> money_value revenue \<and> money_value cost \<le> money_value adjustedCost
          | _ \<Rightarrow> True)"
proof (cases "computeRecoveryEconomics dj input")
  case (Inr r)
  from recovery_Inr [OF Inr] obtain zero best where b: "ro_actions r = map (count_action dj input best zero) (re_actions input)"
    "ro_planCredibility r = plan_credibility dj input (live_actions (re_actions input))" by metis
  let ?banked = "counted_actions (live_actions (re_actions input)) (ro_actions r)"
  have unit: "list_all (\<lambda>c. unit_interval (ct_appliedConfidence c)) (ro_actions r)"
    by (simp add: b(1) list_all_iff decimal_lib.count_action_unit [OF assms(1)])
  have "list_all (\<lambda>a. sound_benefit (ra_revenueBenefit a) \<and> sound_benefit (ra_costBenefit a)) ?banked"
    using assms(2) by (auto simp: sound_plan_def list_all_iff counted_actions_def live_iff)
  note within = decimal_lib.adjusted_within_case [OF assms(1) this unit, of input]
  have "case ro_planCredibility r of None \<Rightarrow> True | Some q \<Rightarrow> 0 \<le> qval q \<and> qval q \<le> 100"
    using decimal_lib.credibility_bounds [OF assms(1), of input "live_actions (re_actions input)"] assms(2)
    by (auto simp: b(2) sound_plan_def split: option.split)
  then show ?thesis unfolding Inr sum.case Let_def using unit within
    by (auto split: sum.split prod.split)
qed simp

section \<open>Instances\<close>

definition sample_action :: "string \<Rightarrow> rat \<Rightarrow> recovery_action" where
  "sample_action k v = \<lparr>ra_id = k, ra_description = ''renegotiate'', ra_ownerActorId = Some ''U1'', ra_dueOn = Some (Date 2026 7 1),
     ra_status = COMMITTED, ra_revenueBenefit = Money v USD, ra_costBenefit = Money 0 USD, ra_scheduleBenefitWeeks = 2,
     ra_confidence = Qty 5 1, ra_incompatibilityGroup = Some ''CR'',
     ra_evidence = [\<lparr>rr_context = ''recovery'', rr_entityType = ''action'', rr_entityId = k, rr_metricId = None\<rparr>]\<rparr>"

definition sample_plan :: recovery_input where
  "sample_plan = \<lparr>re_projectId = ''P1'', re_week = Week 2026 23, re_assessedAt = Instant 0 [], re_ruleVersion = ''RECOVERY-v1'',
     re_metricCatalogVersion = ''1'', re_currency = USD, re_forecastRevenue = Money 1000 USD, re_forecastCost = Money 800 USD,
     re_forecastGmPercent = Computed 34 (2 / 10), re_riskAdjustedGmPercent = Computed 34 (1 / 10),
     re_actions = [sample_action ''A'' 100, sample_action ''B'' 60],
     re_baseEvidence = [\<lparr>rr_context = ''financial'', rr_entityType = ''economics'', rr_entityId = ''P1'', rr_metricId = None\<rparr>],
     re_overdueDiscount = Qty 5 1, re_confidenceFloor = Qty 2 1, re_today = Date 2026 6 8,
     re_credibilityWeights = \<lparr>rw_ownership = Qty 4 1, rw_timeliness = Qty 3 1, rw_completion = Qty 3 1\<rparr>\<rparr>"

lemma sample_plan_computed: "\<exists>r. computeRecoveryEconomics dj sample_plan = Inr r"
  by (rule plan_computed [of USD]) (simp_all add: one_currency_def sample_plan_def sample_action_def)

theorem one_fix_banked_once_witness:
  "case computeRecoveryEconomics ref_decimal sample_plan of
     Inl _ \<Rightarrow> False
   | Inr r \<Rightarrow> map ct_id (ro_actions r) = [''A'', ''B''] \<and> length (banked_in ''CR'' (zip (re_actions sample_plan) (ro_actions r))) = 1"
proof -
  obtain r where r: "computeRecoveryEconomics ref_decimal sample_plan = Inr r" using sample_plan_computed by blast
  have d: "distinct (map ra_id (re_actions sample_plan))" by (simp add: sample_plan_def sample_action_def)
  show ?thesis
    using one_fix_banked_once [OF d, of ref_decimal] unfolding r sum.case
    by (cases "ro_actions r") (auto simp: sample_plan_def sample_action_def split: list.splits)
qed

theorem hope_never_exceeds_plan_witness:
  "case computeRecoveryEconomics ref_decimal sample_plan of
     Inl _ \<Rightarrow> False
   | Inr r \<Rightarrow> (case ro_planCredibility r of None \<Rightarrow> True | Some q \<Rightarrow> 0 \<le> qval q \<and> qval q \<le> 100)"
proof -
  obtain r where r: "computeRecoveryEconomics ref_decimal sample_plan = Inr r" using sample_plan_computed by blast
  have s: "sound_plan sample_plan"
    by (simp add: sound_plan_def sample_plan_def sample_action_def sound_benefit_def sound_weight_def)
  show ?thesis using hope_never_exceeds_plan [OF ref.decimal_lib_axioms s] unfolding r sum.case by blast
qed

text \<open>A risk-adjusted margin that cannot be computed is reported without a reason, so it is not among the rules the
  explanation lists as not evaluated.\<close>

lemma risk_gap_without_reason:
  "ev_status (risk_evaluation dj (sample_plan\<lparr>re_riskAdjustedGmPercent := NotComputable ZERO_DENOMINATOR\<rparr>)) = RULE_NOT_COMPUTABLE"
  "ev_notEvaluatedReason (risk_evaluation dj (sample_plan\<lparr>re_riskAdjustedGmPercent := NotComputable ZERO_DENOMINATOR\<rparr>)) = None"
  by (simp_all add: risk_evaluation_def recovery_evaluation_def isComputable_def)

end
