(* ===== verification/Commercial.thy ===== *)
theory Commercial
  imports Js_Number Money Explainability
begin

text \<open>
  \<open>contexts/commercial/internal/commercial-engine.ts\<close>: the age of pending change requests, scope change, work delivered
  without a contract, and liquidated damages. The mean age is a double.
\<close>

section \<open>Data\<close>

record pending_change_input =
  pn_id :: string
  pn_raisedOn :: calendar_date
  pn_proposedValue :: money
  pn_superseded :: bool

record scope_item =
  si_id :: string
  si_uncontracted :: bool
  si_completedOn :: "calendar_date option"
  si_estimatedValue :: "money option"

record commercial_input =
  cm_projectId :: string
  cm_asOf :: instant
  cm_contractValueAsSold :: money
  cm_contractualRevenue :: money
  cm_pendingChanges :: "pending_change_input list"
  cm_scopeItems :: "scope_item list"
  cm_liquidatedDamagesExposure :: money

record 'a derived =
  dd_state :: "signal_state option"
  dd_stateReasonCode :: "reason_code option"
  dd_metricId :: string
  dd_value :: "'a option"
  dd_notComputableReason :: "string option"

record commercial_evaluation =
  cv_projectId :: string
  cv_asOf :: instant
  cv_maxPendingCrAgeDays :: "int derived"
  cv_meanPendingCrAgeDays :: "rat derived"
  cv_openPendingChanges :: nat
  cv_scopeChangeRatio :: "quantity derived"
  cv_uncompensatedScopeRatio :: "quantity derived"
  cv_uncompensatedScopeValue :: money
  cv_liquidatedDamagesRatio :: "quantity derived"
  cv_liquidatedDamagesExposure :: money
  cv_unpricedUncontractedItems :: nat

definition nc :: "string \<Rightarrow> string \<Rightarrow> 'a derived" where
  "nc metricId reason = \<lparr>dd_state = None, dd_stateReasonCode = None, dd_metricId = metricId, dd_value = None,
     dd_notComputableReason = Some reason\<rparr>"

definition ok :: "string \<Rightarrow> 'a \<Rightarrow> 'a derived" where
  "ok metricId v = \<lparr>dd_state = None, dd_stateReasonCode = None, dd_metricId = metricId, dd_value = Some v,
     dd_notComputableReason = None\<rparr>"

definition na :: "string \<Rightarrow> string \<Rightarrow> 'a derived" where
  "na metricId reason = \<lparr>dd_state = Some NOT_APPLICABLE, dd_stateReasonCode = Some RISK_OBJECT_ABSENT, dd_metricId = metricId,
     dd_value = None, dd_notComputableReason = Some reason\<rparr>"

section \<open>Pending changes\<close>

definition open_changes :: "pending_change_input list \<Rightarrow> pending_change_input list" where
  "open_changes changes = filter (\<lambda>c. \<not> pn_superseded c) changes"

definition change_ages :: "calendar_date \<Rightarrow> pending_change_input list \<Rightarrow> int list" where
  "change_ages today changes = map (\<lambda>c. daysBetween (pn_raisedOn c) today) (open_changes changes)"

definition none_to_age :: string where
  "none_to_age = ''no unsuperseded pending change requests exist, so there is none to age''"

definition max_age :: "int list \<Rightarrow> int derived" where
  "max_age ages = (case ages of [] \<Rightarrow> na ''MET-COM-007'' none_to_age | a # as \<Rightarrow> ok ''MET-COM-007'' (foldl max a as))"

definition mean_age :: "int list \<Rightarrow> rat derived" where
  "mean_age ages =
     (if length ages = 0 then na ''MET-COM-007'' none_to_age
      else ok ''MET-COM-007''
        (js_tenths (double (js_sum ages / of_nat (length ages)))))"

section \<open>Scope and damages\<close>

definition scope_change :: "decimal_js \<Rightarrow> money \<Rightarrow> money \<Rightarrow> quantity derived" where
  "scope_change dj revenue asSold =
     (if money_isZero asSold
      then nc ''MET-COM-008'' ''the as-sold contract value is zero, so there is no baseline to change against''
      else case qDiv dj (money_toQuantity dj revenue) (money_toQuantity dj asSold) of
          None \<Rightarrow> nc ''MET-COM-008'' ''the as-sold contract value is zero''
        | Some r \<Rightarrow> ok ''MET-COM-008'' (qSub dj r Q_ONE))"

definition delivered_uncontracted :: "scope_item list \<Rightarrow> scope_item list" where
  "delivered_uncontracted items = filter (\<lambda>s. si_uncontracted s \<and> si_completedOn s \<noteq> None) items"

definition priced_items :: "scope_item list \<Rightarrow> scope_item list" where
  "priced_items items = filter (\<lambda>s. si_estimatedValue s \<noteq> None) items"

definition uncompensated :: "decimal_js \<Rightarrow> money \<Rightarrow> scope_item list \<Rightarrow> money_error + money" where
  "uncompensated dj zero items =
     money_sum_from dj zero (List.map_filter si_estimatedValue (priced_items (delivered_uncontracted items)))"

definition ratio_to_revenue :: "decimal_js \<Rightarrow> string \<Rightarrow> money \<Rightarrow> money \<Rightarrow> quantity derived" where
  "ratio_to_revenue dj metricId amount revenue =
     (if money_isZero revenue then nc metricId ''contractual revenue is zero, so there is no denominator''
      else case qDiv dj (money_toQuantity dj amount) (money_toQuantity dj revenue) of
          None \<Rightarrow> nc metricId ''contractual revenue is zero''
        | Some r \<Rightarrow> ok metricId r)"

definition evaluateCommercial :: "decimal_js \<Rightarrow> commercial_input \<Rightarrow> money_error + commercial_evaluation" where
  "evaluateCommercial dj input =
     (let today = dateOf (cm_asOf input); revenue = cm_contractualRevenue input;
          ages = change_ages today (cm_pendingChanges input);
          delivered = delivered_uncontracted (cm_scopeItems input)
      in and_then (money_minus dj revenue revenue) (\<lambda>zero.
         and_then (uncompensated dj zero (cm_scopeItems input)) (\<lambda>scopeValue. Inr
           \<lparr>cv_projectId = cm_projectId input, cv_asOf = cm_asOf input,
            cv_maxPendingCrAgeDays = max_age ages, cv_meanPendingCrAgeDays = mean_age ages,
            cv_openPendingChanges = length (open_changes (cm_pendingChanges input)),
            cv_scopeChangeRatio = scope_change dj revenue (cm_contractValueAsSold input),
            cv_uncompensatedScopeRatio = ratio_to_revenue dj ''MET-COM-009'' scopeValue revenue,
            cv_uncompensatedScopeValue = scopeValue,
            cv_liquidatedDamagesRatio = ratio_to_revenue dj ''MET-COM-011'' (cm_liquidatedDamagesExposure input) revenue,
            cv_liquidatedDamagesExposure = cm_liquidatedDamagesExposure input,
            cv_unpricedUncontractedItems = length delivered - length (priced_items delivered)\<rparr>)))"

definition unsecuredUpsideOf :: "decimal_js \<Rightarrow> commercial_input \<Rightarrow> money_error + money" where
  "unsecuredUpsideOf dj input =
     and_then (money_minus dj (cm_contractualRevenue input) (cm_contractualRevenue input)) (\<lambda>zero.
       money_sum_from dj zero (map pn_proposedValue (open_changes (cm_pendingChanges input))))"

definition totalQuantity :: "decimal_js \<Rightarrow> quantity list \<Rightarrow> quantity" where
  "totalQuantity dj values = foldl (qAdd dj) Q_ZERO values"

section \<open>Nothing hides in the averages\<close>

lemma foldl_max: "foldl max a as \<in> set (a # as) \<and> (\<forall>x\<in>set (a # as). x \<le> foldl max a (as :: int list))"
proof (induction as arbitrary: a)
  case (Cons b bs)
  have "max a b \<in> {a, b}" by (simp add: max_def)
  then show ?case using Cons.IH [of "max a b"] by fastforce
qed simp

lemma max_age_value:
  "max_age ages = (if ages = [] then na ''MET-COM-007'' none_to_age else ok ''MET-COM-007'' (foldl max (hd ages) (tl ages)))"
  by (cases ages) (simp_all add: max_age_def)

text \<open>What the commercial evaluation reports is what the facts hold. The age of the pending change requests is that of the
  oldest one that is not superseded, and without one the metric does not apply, which is not the same as zero days. Only
  delivered work without a contract counts as uncompensated; an item nobody priced is counted apart instead of adding
  nothing silently.\<close>

theorem oldest_change_and_unpriced_work_show:
  "case evaluateCommercial dj input of
     Inl _ \<Rightarrow> True
   | Inr r \<Rightarrow>
       (case dd_value (cv_maxPendingCrAgeDays r) of
          None \<Rightarrow> list_all pn_superseded (cm_pendingChanges input) \<and> dd_state (cv_maxPendingCrAgeDays r) = Some NOT_APPLICABLE
        | Some age \<Rightarrow>
            list_ex (\<lambda>c. \<not> pn_superseded c \<and> daysBetween (pn_raisedOn c) (dateOf (cm_asOf input)) = age) (cm_pendingChanges input)
            \<and> list_all (\<lambda>c. if pn_superseded c then True else daysBetween (pn_raisedOn c) (dateOf (cm_asOf input)) \<le> age)
                (cm_pendingChanges input))
       \<and> cv_unpricedUncontractedItems r
           = length (filter (\<lambda>s. si_uncontracted s \<and> si_completedOn s \<noteq> None \<and> si_estimatedValue s = None) (cm_scopeItems input))
       \<and> uncompensated dj (Money (dround dj q_precision 0) (money_currency (cm_contractualRevenue input)))
           (filter (\<lambda>s. si_uncontracted s \<and> si_completedOn s \<noteq> None \<and> si_estimatedValue s \<noteq> None) (cm_scopeItems input))
         = Inr (cv_uncompensatedScopeValue r)"
proof (cases "evaluateCommercial dj input")
  case (Inr r)
  let ?today = "dateOf (cm_asOf input)"
  let ?ages = "change_ages ?today (cm_pendingChanges input)"
  have r: "cv_maxPendingCrAgeDays r = max_age ?ages"
    "cv_unpricedUncontractedItems r = length (delivered_uncontracted (cm_scopeItems input)) - length (priced_items (delivered_uncontracted (cm_scopeItems input)))"
    "uncompensated dj (Money (dround dj q_precision 0) (money_currency (cm_contractualRevenue input))) (cm_scopeItems input) = Inr (cv_uncompensatedScopeValue r)"
    using Inr by (auto simp: evaluateCommercial_def Let_def and_then_Inr_iff money_minus_def assertSameCurrency_def)
  have "length (filter (\<lambda>s. \<not> P s) xs) = length xs - length (filter P xs)" for P and xs :: "scope_item list"
    using sum_length_filter_compl [of P xs] by simp
  from this [of "\<lambda>s. si_estimatedValue s \<noteq> None" "delivered_uncontracted (cm_scopeItems input)"]
  have unpriced: "cv_unpricedUncontractedItems r
      = length (filter (\<lambda>s. si_uncontracted s \<and> si_completedOn s \<noteq> None \<and> si_estimatedValue s = None) (cm_scopeItems input))"
    unfolding r(2) priced_items_def by (simp add: delivered_uncontracted_def conj_commute conj_left_commute)
  have same: "priced_items (delivered_uncontracted (filter (\<lambda>s. si_uncontracted s \<and> si_completedOn s \<noteq> None \<and> si_estimatedValue s \<noteq> None) (cm_scopeItems input)))
      = priced_items (delivered_uncontracted (cm_scopeItems input))"
    unfolding priced_items_def delivered_uncontracted_def filter_filter by (rule filter_cong) auto
  have age: "case dd_value (max_age ?ages) of
      None \<Rightarrow> list_all pn_superseded (cm_pendingChanges input) \<and> dd_state (max_age ?ages) = Some NOT_APPLICABLE
    | Some age \<Rightarrow> list_ex (\<lambda>c. \<not> pn_superseded c \<and> daysBetween (pn_raisedOn c) ?today = age) (cm_pendingChanges input)
        \<and> list_all (\<lambda>c. if pn_superseded c then True else daysBetween (pn_raisedOn c) ?today \<le> age) (cm_pendingChanges input)"
  proof (cases "?ages = []")
    case True
    then show ?thesis
      by (auto simp: max_age_value na_def list_all_iff change_ages_def open_changes_def filter_empty_conv)
  next
    case False
    have in_ages: "x \<in> set ?ages \<longleftrightarrow> (\<exists>c\<in>set (cm_pendingChanges input). \<not> pn_superseded c \<and> daysBetween (pn_raisedOn c) ?today = x)" for x
      by (auto simp: change_ages_def open_changes_def)
    have "foldl max (hd ?ages) (tl ?ages) \<in> set ?ages" "\<forall>x\<in>set ?ages. x \<le> foldl max (hd ?ages) (tl ?ages)"
      using foldl_max [of "hd ?ages" "tl ?ages"] False by simp_all
    then show ?thesis using in_ages by (auto simp: max_age_value False ok_def list_ex_iff list_all_iff)
  qed
  have "uncompensated dj (Money (dround dj q_precision 0) (money_currency (cm_contractualRevenue input)))
      (filter (\<lambda>s. si_uncontracted s \<and> si_completedOn s \<noteq> None \<and> si_estimatedValue s \<noteq> None) (cm_scopeItems input))
      = Inr (cv_uncompensatedScopeValue r)"
    using r(3) by (simp only: uncompensated_def same)
  with age unpriced show ?thesis unfolding Inr sum.case r(1) by (intro conjI)
qed simp

end
