(* ===== verification/Quality.thy ===== *)
theory Quality
  imports Js_Number Money Unit_Scores Decimal_Reference Explainability
begin

text \<open>
  \<open>contexts/quality/internal/quality-engine.ts\<close>: open and escaped defects, rework, the trend of the defect backlog and
  acceptance. The slope and the mean latency are doubles, rounded after every operation as the host rounds them, before they
  are printed with their decimals.
\<close>

section \<open>Data\<close>

datatype defect_severity = CRITICAL | MAJOR | MINOR | TRIVIAL

record defect_input =
  df_id :: string
  df_severity :: defect_severity
  df_raisedOn :: calendar_date
  df_closedOn :: "calendar_date option"
  df_escapedToClient :: bool

record acceptance_item =
  ai_id :: string
  ai_submittedOn :: calendar_date
  ai_acceptedOn :: "calendar_date option"
  ai_resolvedOn :: "calendar_date option"
  ai_blocking :: bool

record quality_effort =
  ef_week :: string
  ef_hours :: quantity
  ef_isRework :: bool

record defect_source =
  ds_available :: bool
  ds_ageDays :: "int option"
  ds_expectedCadenceDays :: int

record quality_input =
  qi_projectId :: string
  qi_asOf :: instant
  qi_defects :: "defect_input list"
  qi_acceptanceItems :: "acceptance_item list"
  qi_effort :: "quality_effort list"
  qi_actualCost :: money
  qi_reworkAllowance :: quantity
  qi_backlogWindowWeeks :: nat
  qi_openDefectHistory :: "(string \<times> int) list"
  qi_defectSource :: defect_source

record 'a quality_value =
  qv_metricId :: string
  qv_value :: "'a option"
  qv_notComputableReason :: "string option"
  qv_state :: "signal_state option"
  qv_stateReasonCode :: "reason_code option"

record quality_evaluation =
  qe_projectId :: string
  qe_asOf :: instant
  qe_openDefectsBySeverity :: "(defect_severity \<times> nat) list"
  qe_openDefectsTotal :: nat
  qe_openCriticalDefects :: nat
  qe_escapedDefectRate :: "quantity quality_value"
  qe_reworkRatio :: "quantity quality_value"
  qe_defectBacklogTrend :: "quantity quality_value"
  qe_acceptanceBlockers :: nat
  qe_acceptanceLatencyDays :: "quantity quality_value"
  qe_excessReworkCost :: "money quality_value"
  qe_acceptedDeliverables :: nat
  qe_submittedDeliverables :: nat

definition nc :: "string \<Rightarrow> string \<Rightarrow> 'a quality_value" where
  "nc metricId reason = \<lparr>qv_metricId = metricId, qv_value = None, qv_notComputableReason = Some reason,
     qv_state = None, qv_stateReasonCode = None\<rparr>"

definition ok :: "string \<Rightarrow> 'a \<Rightarrow> 'a quality_value" where
  "ok metricId v = \<lparr>qv_metricId = metricId, qv_value = Some v, qv_notComputableReason = None,
     qv_state = None, qv_stateReasonCode = None\<rparr>"

definition okState :: "string \<Rightarrow> signal_state \<Rightarrow> 'a \<Rightarrow> 'a quality_value" where
  "okState metricId state v = \<lparr>qv_metricId = metricId, qv_value = Some v, qv_notComputableReason = None,
     qv_state = Some state, qv_stateReasonCode = None\<rparr>"

definition ncState :: "string \<Rightarrow> signal_state \<Rightarrow> reason_code \<Rightarrow> string \<Rightarrow> 'a quality_value" where
  "ncState metricId state code reason = \<lparr>qv_metricId = metricId, qv_value = None, qv_notComputableReason = Some reason,
     qv_state = Some state, qv_stateReasonCode = Some code\<rparr>"

definition SEVERITIES :: "defect_severity list" where
  "SEVERITIES = [CRITICAL, MAJOR, MINOR, TRIVIAL]"

text \<open>\<open>x.toFixed(dp)\<close> of a double below \<open>10\<^sup>2\<^sup>1\<close>: the nearest number of that many decimals, ties away from zero.\<close>

definition to_fixed :: "nat \<Rightarrow> rat \<Rightarrow> quantity" where
  "to_fixed dp x = (let n = \<lfloor>\<bar>x\<bar> * 10 ^ dp + 1 / 2\<rfloor> in Qty (if x < 0 then - n else n) dp)"

section \<open>The trend\<close>

fun slope_sums :: "rat \<Rightarrow> rat \<Rightarrow> nat \<Rightarrow> int list \<Rightarrow> rat \<times> rat \<Rightarrow> rat \<times> rat" where
  "slope_sums meanX meanY x [] acc = acc"
| "slope_sums meanX meanY x (v # vs) acc =
     (let dx = double (of_nat x - meanX)
      in slope_sums meanX meanY (Suc x) vs
           (double (fst acc + double (dx * double (of_int v - meanY))), double (snd acc + double (dx * dx))))"

definition slope :: "int list \<Rightarrow> nat \<Rightarrow> quantity option" where
  "slope vals minimum =
     (let n = length vals in
      if n < minimum then None
      else
        let meanX = double ((of_nat n - 1) / 2);
            meanY = double (js_sum vals / of_nat n);
            totals = slope_sums meanX meanY 0 vals (0, 0)
        in if snd totals = 0 then None else Some (to_fixed 6 (double (fst totals / snd totals))))"

text \<open>\<open>xs.slice(-n)\<close>.\<close>

definition last_of :: "nat \<Rightarrow> 'a list \<Rightarrow> 'a list" where
  "last_of n xs = (if n = 0 then xs else drop (length xs - n) xs)"

definition backlog_trend :: "(string \<times> int) list \<Rightarrow> nat \<Rightarrow> quantity quality_value" where
  "backlog_trend history weeks =
     (case slope (map snd (last_of weeks history)) weeks of
        None \<Rightarrow> nc ''MET-QUA-009''
          (show_nat (length history) @ '' weekly defect snapshot'' @ (if length history = 1 then '''' else ''s'') @ '', below the ''
           @ show_nat weeks @ '' the registered trailing window requires'')
      | Some v \<Rightarrow> ok ''MET-QUA-009'' v)"

section \<open>Defects, rework and acceptance\<close>

definition open_defects :: "defect_input list \<Rightarrow> defect_input list" where
  "open_defects defects = filter (\<lambda>d. df_closedOn d = None) defects"

definition by_severity :: "defect_input list \<Rightarrow> (defect_severity \<times> nat) list" where
  "by_severity defects = map (\<lambda>s. (s, length (filter (\<lambda>d. df_severity d = s) defects))) SEVERITIES"

definition source_stale :: "defect_source \<Rightarrow> bool" where
  "source_stale source \<longleftrightarrow> (case ds_ageDays source of None \<Rightarrow> False | Some age \<Rightarrow> age > ds_expectedCadenceDays source)"

definition escaped_rate :: "decimal_js \<Rightarrow> defect_input list \<Rightarrow> defect_source \<Rightarrow> quantity quality_value" where
  "escaped_rate dj defects source =
     (if length defects = 0 then
        if \<not> ds_available source
        then ncState ''MET-QUA-003'' NOT_COMPUTABLE REQUIRED_EVIDENCE_MISSING
          (''no defect telemetry is available for this project, so the escaped-defect rate is unknown. ''
           @ ''This is NOT a statement that there are no defects.'')
        else if source_stale source
        then ncState ''MET-QUA-003'' NOT_COMPUTABLE REQUIRED_EVIDENCE_MISSING
          (''the defect source last reported '' @ (case ds_ageDays source of None \<Rightarrow> ''null'' | Some age \<Rightarrow> show_int age) @ '' days ago, beyond ''
           @ ''its '' @ show_int (ds_expectedCadenceDays source) @ ''-day cadence, so its silence is ''
           @ ''not evidence of zero defects'')
        else okState ''MET-QUA-003'' KNOWN_ZERO Q_ZERO
      else ok ''MET-QUA-003''
        (nullish (qDiv dj (q_nat (length (filter df_escapedToClient defects))) (q_nat (length defects))) Q_ZERO))"

definition hours_of :: "decimal_js \<Rightarrow> quality_effort list \<Rightarrow> quantity" where
  "hours_of dj effort = foldl (\<lambda>a e. qAdd dj a (ef_hours e)) Q_ZERO effort"

definition rework_ratio :: "decimal_js \<Rightarrow> quality_effort list \<Rightarrow> quantity quality_value" where
  "rework_ratio dj effort =
     (case (if length effort = 0 then None else qDiv dj (hours_of dj (filter ef_isRework effort)) (hours_of dj effort)) of
        None \<Rightarrow> nc ''MET-QUA-006'' ''no effort has been recorded, so there are no hours to divide''
      | Some v \<Rightarrow> ok ''MET-QUA-006'' v)"

definition accepted_items :: "acceptance_item list \<Rightarrow> acceptance_item list" where
  "accepted_items items = filter (\<lambda>a. ai_acceptedOn a \<noteq> None) items"

definition acceptance_latency :: "acceptance_item list \<Rightarrow> quantity quality_value" where
  "acceptance_latency accepted =
     (if length accepted = 0
      then nc ''MET-QUA-011'' ''no deliverable has been accepted yet, so there is no latency to average''
      else ok ''MET-QUA-011'' (to_fixed 2 (double
        (js_sum (map (\<lambda>x. case ai_acceptedOn x of None \<Rightarrow> 0 | Some d \<Rightarrow> daysBetween (ai_submittedOn x) d) accepted)
         / of_nat (length accepted)))))"

definition excess_rework :: "decimal_js \<Rightarrow> quality_input \<Rightarrow> money \<Rightarrow> quantity quality_value \<Rightarrow> money quality_value" where
  "excess_rework dj input zero ratio =
     (case qv_value ratio of
        None \<Rightarrow> nc ''MET-QUA-012'' (''rework ratio is not computable: '' @ nullish (qv_notComputableReason ratio) ''unknown'')
      | Some v \<Rightarrow>
          let excess = qSub dj v (qi_reworkAllowance input)
          in if qIsNegative excess then ok ''MET-QUA-012'' zero
             else ok ''MET-QUA-012'' (money_times dj (qi_actualCost input) excess))"

definition evaluateQuality :: "decimal_js \<Rightarrow> quality_input \<Rightarrow> money_error + quality_evaluation" where
  "evaluateQuality dj input =
     and_then (money_minus dj (qi_actualCost input) (qi_actualCost input)) (\<lambda>zero.
       let open = open_defects (qi_defects input);
           ratio = rework_ratio dj (qi_effort input);
           accepted = accepted_items (qi_acceptanceItems input)
       in Inr
         \<lparr>qe_projectId = qi_projectId input, qe_asOf = qi_asOf input,
          qe_openDefectsBySeverity = by_severity open, qe_openDefectsTotal = length open,
          qe_openCriticalDefects = nullish (map_of (by_severity open) CRITICAL) 0,
          qe_escapedDefectRate = escaped_rate dj (qi_defects input) (qi_defectSource input),
          qe_reworkRatio = ratio,
          qe_defectBacklogTrend = backlog_trend (qi_openDefectHistory input) (qi_backlogWindowWeeks input),
          qe_acceptanceBlockers = length (filter (\<lambda>a. ai_blocking a \<and> ai_resolvedOn a = None) (qi_acceptanceItems input)),
          qe_acceptanceLatencyDays = acceptance_latency accepted,
          qe_excessReworkCost = excess_rework dj input zero ratio,
          qe_acceptedDeliverables = length accepted,
          qe_submittedDeliverables = length (qi_acceptanceItems input)\<rparr>)"

section \<open>The slope is the least-squares slope\<close>

definition squared_error :: "rat \<Rightarrow> rat \<Rightarrow> int list \<Rightarrow> rat" where
  "squared_error a b vals = (\<Sum>i<length vals. (of_int (vals ! i) - (a + b * of_nat i)) ^ 2)"

definition mean_of :: "int list \<Rightarrow> rat" where
  "mean_of vals = of_int (sum_list vals) / of_nat (length vals)"

definition mid_of :: "int list \<Rightarrow> rat" where
  "mid_of vals = (of_nat (length vals) - 1) / 2"

lemma sum_positions: "(\<Sum>i<n. (of_nat i :: rat)) = of_nat n * (of_nat n - 1) / 2"
  by (induction n) (simp_all add: field_simps)

lemma deviations:
  assumes "vals \<noteq> []"
  shows "(\<Sum>i<length vals. of_nat i - mid_of vals) = 0"
    and "(\<Sum>i<length vals. of_int (vals ! i) - mean_of vals) = 0"
proof -
  show "(\<Sum>i<length vals. of_nat i - mid_of vals) = 0"
    by (simp add: sum_subtractf sum_positions mid_of_def)
  have "(\<Sum>i<length vals. (of_int (vals ! i) :: rat)) = of_int (sum_list vals)"
    by (simp add: sum_list_sum_nth atLeast0LessThan)
  then show "(\<Sum>i<length vals. of_int (vals ! i) - mean_of vals) = 0"
    using assms by (simp add: sum_subtractf mean_of_def)
qed

lemma error_decomposed:
  fixes a b :: rat
  assumes "vals \<noteq> []"
  defines "x \<equiv> \<lambda>i. of_nat i - mid_of vals" and "y \<equiv> \<lambda>i. of_int (vals ! i) - mean_of vals"
  shows "squared_error a b vals = (\<Sum>i<length vals. y i ^ 2) - 2 * b * (\<Sum>i<length vals. x i * y i)
    + b ^ 2 * (\<Sum>i<length vals. x i ^ 2) + of_nat (length vals) * (mean_of vals - a - b * mid_of vals) ^ 2"
proof -
  let ?n = "length vals" and ?c = "mean_of vals - a - b * mid_of vals"
  have "squared_error a b vals = (\<Sum>i<?n. (y i - b * x i + ?c) ^ 2)"
    unfolding squared_error_def x_def y_def by (intro sum.cong refl) (simp add: algebra_simps)
  also have "\<dots> = (\<Sum>i<?n. y i ^ 2 - 2 * b * (x i * y i) + b ^ 2 * x i ^ 2 + 2 * ?c * y i - 2 * ?c * b * x i + ?c ^ 2)"
    by (intro sum.cong refl) (simp add: power2_eq_square algebra_simps)
  also have "\<dots> = (\<Sum>i<?n. y i ^ 2) - 2 * b * (\<Sum>i<?n. x i * y i) + b ^ 2 * (\<Sum>i<?n. x i ^ 2)
      + 2 * ?c * (\<Sum>i<?n. y i) - 2 * ?c * b * (\<Sum>i<?n. x i) + of_nat ?n * ?c ^ 2"
    by (simp add: sum.distrib sum_subtractf sum_distrib_left)
  finally show ?thesis using deviations [OF assms(1)] by (simp add: x_def y_def)
qed

lemma least_squares:
  fixes a b :: rat
  assumes "vals \<noteq> []" and s: "s = (\<Sum>i<length vals. (of_nat i - mid_of vals) ^ 2)" "s \<noteq> 0"
    and m: "m = (\<Sum>i<length vals. (of_nat i - mid_of vals) * (of_int (vals ! i) - mean_of vals)) / s"
  shows "squared_error (mean_of vals - m * mid_of vals) m vals \<le> squared_error a b vals"
proof -
  have t: "(\<Sum>i<length vals. (of_nat i - mid_of vals) * (of_int (vals ! i) - mean_of vals)) = m * s"
    using m s(2) by simp
  have "0 \<le> s" unfolding s(1) by (intro sum_nonneg) simp
  then have "0 \<le> s * (b - m) ^ 2 + of_nat (length vals) * (mean_of vals - a - b * mid_of vals) ^ 2" by simp
  then show ?thesis
    unfolding error_decomposed [OF assms(1)] t s(1) [symmetric] by (simp add: power2_eq_square algebra_simps)
qed

lemma spread_zero: "(\<Sum>i<length vals. (of_nat i - mid_of vals) ^ 2) = 0 \<longleftrightarrow> length vals \<le> 1"
proof
  assume z: "(\<Sum>i<length vals. (of_nat i - mid_of vals) ^ 2) = 0"
  show "length vals \<le> 1"
  proof (rule ccontr)
    assume "\<not> length vals \<le> 1"
    then have n: "0 < length vals" "1 < length vals" by linarith+
    have "\<forall>i\<in>{..<length vals}. (of_nat i - mid_of vals) ^ 2 = 0"
      using z sum_nonneg_eq_0_iff [of "{..<length vals}" "\<lambda>i. (of_nat i - mid_of vals) ^ 2"] by simp
    then have z: "(of_nat 0 - mid_of vals) ^ 2 = 0" "(of_nat 1 - mid_of vals) ^ 2 = 0" using n by (blast intro: lessThan_iff [THEN iffD2])+
    then show False by simp
  qed
next
  assume "length vals \<le> 1"
  then consider "length vals = 0" | "length vals = 1" by linarith
  then show "(\<Sum>i<length vals. (of_nat i - mid_of vals) ^ 2) = 0" by cases (simp_all add: mid_of_def)
qed

text \<open>The sums of the code, against the exact ones: at most a thousand weeks, counts up to a million.\<close>

definition small_counts :: "int list \<Rightarrow> bool" where
  "small_counts vals \<longleftrightarrow> length vals \<le> 1000 \<and> list_all (\<lambda>v. \<bar>v\<bar> \<le> 10 ^ 6) vals"

lemma position_exact:
  assumes "k \<le> 1000" "n \<le> 1000"
  shows "double (of_nat k - (of_nat n - 1) / 2) = of_nat k - (of_nat n - 1) / 2"
proof (rule double_exact [of _ "2 * int k - (int n - 1)" 1])
  show "\<bar>2 * int k - (int n - 1)\<bar> < 2 ^ 53" using assms by simp
qed (simp_all add: subnormal_places_def field_simps)

lemma middle_exact: "n \<le> 1000 \<Longrightarrow> double ((of_nat n - 1) / 2) = (of_nat n - 1) / 2"
  by (rule double_exact [of _ "int n - 1" 1]) (simp_all add: subnormal_places_def)

lemma spread_exact:
  assumes "n \<le> 1000"
  shows "k + length vs \<le> n \<Longrightarrow> 0 \<le> c \<Longrightarrow> c \<le> int k * 10 ^ 7 \<Longrightarrow>
    snd (slope_sums ((of_nat n - 1) / 2) my k vs (b, of_int c / 4))
      = of_int c / 4 + (\<Sum>i<length vs. (of_nat (k + i) - (of_nat n - 1) / 2) ^ 2)"
proof (induction vs arbitrary: k c b)
  case (Cons v vs)
  let ?dx = "of_nat k - (of_nat n - 1) / 2 :: rat" and ?j = "2 * int k - (int n - 1)"
  have dx: "?dx = of_int ?j / 2" by (simp add: field_simps)
  have k: "k \<le> 1000" using Cons.prems(1) assms by simp
  have j: "\<bar>?j\<bar> \<le> 3000" using k assms by simp
  then have "\<bar>?j\<bar> * \<bar>?j\<bar> \<le> 3000 * 3000" by (intro mult_mono) simp_all
  then have sq: "?j * ?j \<le> 9000000" "0 \<le> ?j * ?j" by (simp_all add: abs_mult_self_eq)
  have square: "double (?dx * ?dx) = of_int (?j * ?j) / 4"
    unfolding dx using sq by (intro trans [OF double_exact [of _ "?j * ?j" 2]]) (simp_all add: subnormal_places_def)
  have "c + ?j * ?j \<le> int k * 10 ^ 7 + 10 ^ 7" using Cons.prems(3) sq by simp
  then have c: "c + ?j * ?j \<le> int (Suc k) * 10 ^ 7" by simp
  moreover have "int (Suc k) * 10 ^ 7 \<le> 1001 * 10 ^ 7" using k by (intro mult_right_mono) simp_all
  ultimately have "\<bar>c + ?j * ?j\<bar> < 2 ^ 53" using Cons.prems(2) sq(2) by simp
  then have total: "double (of_int c / 4 + of_int (?j * ?j) / 4) = of_int (c + ?j * ?j) / 4"
    by (intro trans [OF double_exact [of _ "c + ?j * ?j" 2]]) (simp_all add: subnormal_places_def add_divide_distrib)
  have step: "snd (slope_sums ((of_nat n - 1) / 2) my k (v # vs) (b, of_int c / 4))
      = snd (slope_sums ((of_nat n - 1) / 2) my (Suc k) vs (double (b + double (?dx * double (of_int v - my))), of_int (c + ?j * ?j) / 4))"
    by (simp only: slope_sums.simps Let_def fst_conv snd_conv position_exact [OF k assms] square total)
  have "0 \<le> c + ?j * ?j" using Cons.prems(2) sq(2) by linarith
  then have rest: "snd (slope_sums ((of_nat n - 1) / 2) my (Suc k) vs (double (b + double (?dx * double (of_int v - my))), of_int (c + ?j * ?j) / 4))
      = of_int (c + ?j * ?j) / 4 + (\<Sum>i<length vs. (of_nat (Suc k + i) - (of_nat n - 1) / 2) ^ 2)"
    using Cons.prems(1) by (intro Cons.IH c) simp_all
  have "?dx ^ 2 = of_int (?j * ?j) / 4" unfolding dx by (simp add: power2_eq_square)
  then show ?case unfolding step rest
    by (simp only: length_Cons sum.lessThan_Suc_shift of_int_add add_divide_distrib add_Suc_shift add_0_right add.assoc)
qed simp

text \<open>One step of the numerator, with \<open>N\<close> weeks: what it adds to the error.\<close>

lemma step_near:
  fixes dx v my my' a t N e :: rat
  assumes e: "e = 1 / 2 ^ 53" and N: "2 \<le> N" "N \<le> 1000" and dx: "\<bar>dx\<bar> \<le> N / 2" and v: "\<bar>v\<bar> \<le> 10 ^ 6"
    and m: "\<bar>my\<bar> \<le> 10 ^ 6" "\<bar>my' - my\<bar> \<le> (10 ^ 6 + 1) * e"
    and a: "\<bar>a - t\<bar> \<le> 1" and t: "\<bar>t + dx * (v - my)\<bar> \<le> N * N * 10 ^ 6"
  shows "\<bar>double (a + double (dx * double (v - my'))) - (t + dx * (v - my))\<bar> \<le> \<bar>a - t\<bar> + 4 * (N * N * 10 ^ 6) * e"
proof -
  have err: "\<bar>double x - x\<bar> \<le> (\<bar>x\<bar> + 1) * e" for x using double_error [of x] by (simp add: e)
  have e0: "0 < e" "(3 * 10 ^ 6 + 3) * e \<le> 1" "2500002 * (1000 * e) + e \<le> 1" by (simp_all add: e)
  define y y' where "y = v - my" and "y' = double (v - my')"
  have small: "(10 ^ 6 + 1) * e \<le> 1" by (simp add: e)
  then have "\<bar>v - my'\<bar> \<le> 2 * 10 ^ 6 + 1" using v m by linarith
  then have "(\<bar>v - my'\<bar> + 1) * e \<le> (2 * 10 ^ 6 + 2) * e" using e0(1) by (intro mult_right_mono) simp_all
  then have "\<bar>y' - (v - my')\<bar> \<le> (2 * 10 ^ 6 + 2) * e" using err [of "v - my'"] unfolding y'_def by linarith
  then have y: "\<bar>y' - y\<bar> \<le> (3 * 10 ^ 6 + 3) * e" using m(2) unfolding y_def by (simp add: algebra_simps)
  have yb: "\<bar>y'\<bar> \<le> 2 * 10 ^ 6 + 1" using y e0(2) v m(1) unfolding y_def by linarith
  have "\<bar>dx * y' - dx * y\<bar> = \<bar>dx\<bar> * \<bar>y' - y\<bar>" by (simp add: abs_mult flip: right_diff_distrib)
  also have "\<dots> \<le> N / 2 * ((3 * 10 ^ 6 + 3) * e)" using dx y N by (intro mult_mono) simp_all
  finally have p1: "\<bar>dx * y' - dx * y\<bar> \<le> N / 2 * ((3 * 10 ^ 6 + 3) * e)" .
  have "\<bar>dx * y'\<bar> \<le> N / 2 * (2 * 10 ^ 6 + 1)" unfolding abs_mult using dx yb N by (intro mult_mono) simp_all
  then have "(\<bar>dx * y'\<bar> + 1) * e \<le> (N / 2 * (2 * 10 ^ 6 + 1) + 1) * e" using e0(1) by (intro mult_right_mono) simp_all
  then have p2: "\<bar>double (dx * y') - dx * y'\<bar> \<le> (N / 2 * (2 * 10 ^ 6 + 1) + 1) * e" using err [of "dx * y'"] by linarith
  define p where "p = double (dx * y')"
  have sum: "N / 2 * ((3 * 10 ^ 6 + 3) * e) + (N / 2 * (2 * 10 ^ 6 + 1) + 1) * e = 2500002 * (N * e) + e"
    by (simp add: field_simps)
  have p: "\<bar>p - dx * y\<bar> \<le> 2500002 * (N * e) + e" using p1 p2 sum unfolding p_def by linarith
  have Ne: "N * e \<le> 1000 * e" using N e0(1) by (intro mult_right_mono) simp_all
  have p1: "\<bar>p - dx * y\<bar> \<le> 1" using p Ne e0 by linarith
  have NN: "2 * N \<le> N * N" using N by (intro mult_right_mono) simp_all
  have NNe: "2 * (N * e) \<le> N * N * e" "4 * e \<le> N * N * e"
  proof -
    have "2 * N * e \<le> N * N * e" "2 * 2 * e \<le> 2 * N * e" using NN N e0(1) by (simp_all add: mult_right_mono)
    then show "2 * (N * e) \<le> N * N * e" "4 * e \<le> N * N * e" by simp_all
  qed
  have "\<bar>a + p\<bar> \<le> N * N * 10 ^ 6 + 2" using a p1 t unfolding y_def by linarith
  then have "(\<bar>a + p\<bar> + 1) * e \<le> (N * N * 10 ^ 6 + 3) * e" using e0(1) by (intro mult_right_mono) simp_all
  then have "\<bar>double (a + p) - (a + p)\<bar> \<le> N * N * e * 10 ^ 6 + 3 * e" using err [of "a + p"] by (simp add: algebra_simps)
  then have "\<bar>double (a + p) - (t + dx * y)\<bar> \<le> \<bar>a - t\<bar> + (2500002 * (N * e) + e) + (N * N * e * 10 ^ 6 + 3 * e)"
    using p by linarith
  also have "\<dots> \<le> \<bar>a - t\<bar> + 4 * 10 ^ 6 * (N * N * e)"
  proof -
    have "2500002 * A + e + (B * 10 ^ 6 + 3 * e) \<le> 4 * 10 ^ 6 * B" if "2 * A \<le> B" "4 * e \<le> B" for A B
      using that e0(1) by simp
    from this [OF NNe] show ?thesis by linarith
  qed
  finally show ?thesis unfolding p_def y'_def y_def by (simp add: mult_ac)
qed

lemma numerator_near:
  fixes my my' e :: rat
  assumes e: "e = 1 / 2 ^ 53" and n: "2 \<le> n" "n \<le> 1000" and m: "\<bar>my\<bar> \<le> 10 ^ 6" "\<bar>my' - my\<bar> \<le> (10 ^ 6 + 1) * e"
  shows "k + length vs \<le> n \<Longrightarrow> list_all (\<lambda>v. \<bar>v\<bar> \<le> 10 ^ 6) vs \<Longrightarrow>
    \<bar>a - t\<bar> \<le> of_nat k * (4 * (of_nat n * of_nat n * 10 ^ 6) * e) \<Longrightarrow> \<bar>t\<bar> \<le> of_nat k * (of_nat n * 10 ^ 6) \<Longrightarrow>
    \<bar>fst (slope_sums ((of_nat n - 1) / 2) my' k vs (a, c)) - (t + (\<Sum>i<length vs. (of_nat (k + i) - (of_nat n - 1) / 2) * (of_int (vs ! i) - my)))\<bar>
      \<le> of_nat (k + length vs) * (4 * (of_nat n * of_nat n * 10 ^ 6) * e)"
proof (induction vs arbitrary: k a t c)
  case (Cons v vs)
  let ?N = "of_nat n :: rat" and ?dx = "of_nat k - (of_nat n - 1) / 2 :: rat"
  let ?K = "4 * (?N * ?N * 10 ^ 6) * e" and ?p = "(of_nat k - (of_nat n - 1) / 2) * (of_int v - my) :: rat"
  have k: "Suc k \<le> n" "k \<le> 1000" using Cons.prems(1) n by simp_all
  have N: "2 \<le> ?N" "?N \<le> 1000" using n by simp_all
  have kN: "of_nat k + 1 \<le> ?N" using k(1) by (metis Suc_eq_plus1 of_nat_Suc of_nat_le_iff add.commute)
  have dx: "\<bar>?dx\<bar> \<le> ?N / 2" using kN by (simp add: abs_le_iff field_simps)
  have v: "\<bar>of_int v :: rat\<bar> \<le> 10 ^ 6" using Cons.prems(2) by (simp flip: of_int_abs)
  have p: "\<bar>?p\<bar> \<le> ?N * 10 ^ 6"
  proof -
    have "\<bar>of_int v - my\<bar> \<le> 2 * 10 ^ 6" using v m(1) by linarith
    then    have "\<bar>?p\<bar> \<le> ?N / 2 * (2 * 10 ^ 6)" unfolding abs_mult using dx N by (intro mult_mono) simp_all
    then show ?thesis by simp
  qed
  have t': "\<bar>t + ?p\<bar> \<le> of_nat (Suc k) * (?N * 10 ^ 6)" using Cons.prems(4) p by (simp add: algebra_simps)
  also have "\<dots> \<le> ?N * (?N * 10 ^ 6)" using kN N by (intro mult_right_mono) simp_all
  finally have tN: "\<bar>t + ?p\<bar> \<le> ?N * ?N * 10 ^ 6" by (simp add: mult.assoc)
  have "of_nat k * ?K \<le> 1000 * (4 * (1000 * 1000 * 10 ^ 6) * e)"
    using k(2) N by (intro mult_mono mult_left_mono) (simp_all add: e)
  also have "\<dots> \<le> 1" by (simp add: e)
  finally have a: "\<bar>a - t\<bar> \<le> 1" using Cons.prems(3) by linarith
  have "\<bar>double (a + double (?dx * double (of_int v - my'))) - (t + ?p)\<bar> \<le> \<bar>a - t\<bar> + ?K"
    by (rule step_near [OF e N dx v m a tN])
  then have acc: "\<bar>double (a + double (?dx * double (of_int v - my'))) - (t + ?p)\<bar> \<le> of_nat (Suc k) * ?K"
    using Cons.prems(3) by (simp add: algebra_simps)
  have step: "fst (slope_sums ((of_nat n - 1) / 2) my' k (v # vs) (a, c))
      = fst (slope_sums ((of_nat n - 1) / 2) my' (Suc k) vs (double (a + double (?dx * double (of_int v - my'))), double (c + double (?dx * ?dx))))"
    by (simp only: slope_sums.simps Let_def fst_conv snd_conv position_exact [OF k(2) n(2)])
  have sum: "(\<Sum>i<length (v # vs). (of_nat (k + i) - (of_nat n - 1) / 2) * (of_int ((v # vs) ! i) - my))
      = ?p + (\<Sum>i<length vs. (of_nat (Suc k + i) - (of_nat n - 1) / 2) * (of_int (vs ! i) - my))"
    by (simp only: length_Cons sum.lessThan_Suc_shift nth_Cons_0 nth_Cons_Suc add_Suc_shift add_0_right)
  have "Suc k + length vs \<le> n" "list_all (\<lambda>v. \<bar>v\<bar> \<le> 10 ^ 6) vs" using Cons.prems(1,2) by simp_all
  from Cons.IH [OF this acc t'] show ?case unfolding step sum by (simp only: add.assoc length_Cons add_Suc_shift)
qed simp

text \<open>The slope of the least-squares line.\<close>

definition line_slope :: "int list \<Rightarrow> rat" where
  "line_slope vals = (\<Sum>i<length vals. (of_nat i - mid_of vals) * (of_int (vals ! i) - mean_of vals))
     / (\<Sum>i<length vals. (of_nat i - mid_of vals) ^ 2)"

lemma line_slope_fits:
  assumes "2 \<le> length vals"
  shows "squared_error (mean_of vals - line_slope vals * mid_of vals) (line_slope vals) vals \<le> squared_error a b vals"
proof (rule least_squares [OF _ refl])
  show "vals \<noteq> []" "(\<Sum>i<length vals. (of_nat i - mid_of vals) ^ 2) \<noteq> 0" using assms spread_zero [of vals] by auto
qed (simp add: line_slope_def)

lemma spread_closed: "(\<Sum>i<n. (of_nat i - x) ^ 2) = of_nat n * (of_nat n - 1) * (2 * of_nat n - 1) / 6 - x * of_nat n * (of_nat n - 1) + x ^ 2 * (of_nat n :: rat)"
  by (induction n) (simp_all add: field_simps power2_eq_square)

lemma spread_value: "(\<Sum>i<length vals. (of_nat i - mid_of vals) ^ 2) = of_nat (length vals) * (of_nat (length vals) ^ 2 - 1) / 12"
  unfolding spread_closed by (simp add: mid_of_def field_simps power2_eq_square)

lemma mean_bounded:
  assumes "small_counts vals" "vals \<noteq> []"
  shows "\<bar>mean_of vals\<bar> \<le> 10 ^ 6" "js_sum vals = of_int (sum_list vals)"
proof -
  have b: "sum_list (map abs vals) \<le> int (length vals) * 10 ^ 6"
    using assms(1) unfolding small_counts_def by (induction vals) (auto simp: algebra_simps)
  moreover have "int (length vals) * 10 ^ 6 \<le> 1000 * 10 ^ 6"
    using assms(1) by (intro mult_right_mono) (simp_all add: small_counts_def)
  ultimately show "js_sum vals = of_int (sum_list vals)" by (intro js_sum_exact) simp
  have "\<bar>sum_list vals\<bar> \<le> int (length vals) * 10 ^ 6" using b sum_list_abs [of vals] by linarith
  then have "of_int \<bar>sum_list vals\<bar> \<le> (of_int (int (length vals) * 10 ^ 6) :: rat)" by (simp only: of_int_le_iff)
  then show "\<bar>mean_of vals\<bar> \<le> 10 ^ 6" using assms(2) by (simp add: mean_of_def abs_divide divide_le_eq mult.commute)
qed

text \<open>The quotient the code prints: within a hundred-millionth of the slope.\<close>

lemma computed_slope:
  assumes "small_counts vals" "2 \<le> length vals"
  defines "s \<equiv> slope_sums (double ((of_nat (length vals) - 1) / 2)) (double (js_sum vals / of_nat (length vals))) 0 vals (0, 0)"
  shows "snd s \<noteq> 0" "\<bar>double (fst s / snd s) - line_slope vals\<bar> \<le> 1 / 10 ^ 8"
proof -
  let ?n = "length vals" and ?N = "of_nat (length vals) :: rat" and ?e = "1 / 2 ^ 53 :: rat"
  let ?t = "\<Sum>i<?n. (of_nat i - mid_of vals) * (of_int (vals ! i) - mean_of vals)"
  let ?d = "?N * (?N ^ 2 - 1) / 12"
  have n: "?n \<le> 1000" "vals \<noteq> []" "list_all (\<lambda>v. \<bar>v\<bar> \<le> 10 ^ 6) vals" using assms(1,2) by (auto simp: small_counts_def)
  note mean = mean_bounded [OF assms(1) n(2)]
  have N: "2 \<le> ?N" "?N \<le> 1000" using assms(2) n(1) by simp_all
  have my: "js_sum vals / of_nat ?n = mean_of vals" by (simp add: mean(2) mean_of_def)
  have near: "\<bar>double (mean_of vals) - mean_of vals\<bar> \<le> (10 ^ 6 + 1) * ?e"
  proof -
    have "(\<bar>mean_of vals\<bar> + 1) / 2 ^ 53 \<le> (10 ^ 6 + 1) / 2 ^ 53" using mean(1) by (intro divide_right_mono) simp_all
    then show ?thesis using double_error [of "mean_of vals"] by simp
  qed
  have s: "s = slope_sums ((?N - 1) / 2) (double (mean_of vals)) 0 vals (0, of_int 0 / 4)"
    unfolding s_def my middle_exact [OF n(1)] by simp
  have mid: "(?N - 1) / 2 = mid_of vals" by (simp add: mid_of_def)
  have "snd s = (\<Sum>i<?n. (of_nat i - mid_of vals) ^ 2)"
    unfolding s using spread_exact [OF n(1), of 0 vals 0] by (simp add: mid)
  then have den: "snd s = ?d" by (simp only: spread_value)
  have sq: "4 \<le> ?N ^ 2" using mult_mono [of 2 ?N 2 ?N] N by (simp add: power2_eq_square)
  have "?N * (3 / 4 * ?N ^ 2) \<le> ?N * (?N ^ 2 - 1)" using sq N by (intro mult_left_mono) simp_all
  then have d: "?N * ?N ^ 2 / 16 \<le> ?d" by simp
  have "0 < ?N" using N by linarith
  then have dpos: "0 < ?N * ?N ^ 2 / 16" by (intro divide_pos_pos mult_pos_pos zero_less_power) simp_all
  show "snd s \<noteq> 0" using d dpos unfolding den by linarith
  have num: "\<bar>fst s - ?t\<bar> \<le> ?N * (4 * (?N * ?N * 10 ^ 6) * ?e)"
    unfolding s using numerator_near [OF refl assms(2) n(1) mean(1) near, of 0 vals 0 0 "of_int 0 / 4"] n(3) by (simp add: mid)
  have quot: "\<bar>fst s / ?d - ?t / ?d\<bar> \<le> 64 * 10 ^ 6 * ?e"
  proof -
    have "0 < ?d" using d dpos by linarith
    then have "\<bar>fst s / ?d - ?t / ?d\<bar> = \<bar>fst s - ?t\<bar> / ?d"
      by (simp only: diff_divide_distrib [symmetric] abs_divide abs_of_pos)
    also have "\<dots> \<le> ?N * (4 * (?N * ?N * 10 ^ 6) * ?e) / (?N * ?N ^ 2 / 16)" by (rule frac_le [OF _ num dpos d]) simp
    also have "\<dots> = 64 * 10 ^ 6 * ?e" using n(2) by (simp add: field_simps power2_eq_square)
    finally show ?thesis .
  qed
  have slope: "?t / ?d = line_slope vals" by (simp add: line_slope_def spread_value)
  have top: "\<bar>line_slope vals\<bar> \<le> 16 * 10 ^ 6"
  proof -
    have "\<bar>?t\<bar> \<le> (\<Sum>i<?n. ?N * 10 ^ 6)"
    proof (rule order_trans [OF sum_abs], rule sum_mono)
      fix i assume "i \<in> {..<?n}"
      then have i: "i < ?n" by simp
      have "\<bar>vals ! i\<bar> \<le> 10 ^ 6" using n(3) i by (simp add: list_all_length)
      then have "\<bar>of_int (vals ! i) :: rat\<bar> \<le> 10 ^ 6" by (simp flip: of_int_abs)
      then have y: "\<bar>of_int (vals ! i) - mean_of vals\<bar> \<le> 2 * 10 ^ 6" using mean(1) by linarith
      have "of_nat i + 1 \<le> ?N" using i by (metis Suc_eq_plus1 Suc_leI add.commute of_nat_Suc of_nat_le_iff)
      then have "\<bar>of_nat i - mid_of vals\<bar> \<le> ?N / 2" by (simp add: mid_of_def abs_le_iff field_simps)
      then have "\<bar>of_nat i - mid_of vals\<bar> * \<bar>of_int (vals ! i) - mean_of vals\<bar> \<le> ?N / 2 * (2 * 10 ^ 6)"
        using y N by (intro mult_mono) simp_all
      then show "\<bar>(of_nat i - mid_of vals) * (of_int (vals ! i) - mean_of vals)\<bar> \<le> ?N * 10 ^ 6" by (simp add: abs_mult)
    qed
    then have "\<bar>?t\<bar> \<le> ?N * (?N * 10 ^ 6)" by simp
    also have "\<dots> \<le> ?N * (?N * 10 ^ 6) * ?N" using N by (intro mult_left_mono [of 1 ?N, simplified]) simp_all
    finally have "\<bar>?t\<bar> / ?d \<le> ?N * (?N * 10 ^ 6) * ?N / (?N * ?N ^ 2 / 16)" by (intro frac_le [OF _ _ dpos d]) simp_all
    also have "\<dots> = 16 * 10 ^ 6" using n(2) by (simp add: field_simps power2_eq_square)
    finally show ?thesis using d dpos by (simp add: abs_divide flip: slope)
  qed
  have quot: "\<bar>fst s / snd s - line_slope vals\<bar> \<le> 64 * 10 ^ 6 * ?e" using quot unfolding den slope .
  have "64 * 10 ^ 6 * ?e \<le> 1" by simp
  then have "\<bar>fst s / snd s\<bar> \<le> 16 * 10 ^ 6 + 1" using quot top by linarith
  then have "(\<bar>fst s / snd s\<bar> + 1) / 2 ^ 53 \<le> (16 * 10 ^ 6 + 2) / 2 ^ 53" by (intro divide_right_mono) simp_all
  moreover have "(16 * 10 ^ 6 + 2) / 2 ^ 53 + 64 * 10 ^ 6 * ?e \<le> 1 / 10 ^ 8" by simp
  ultimately show "\<bar>double (fst s / snd s) - line_slope vals\<bar> \<le> 1 / 10 ^ 8"
    using double_error [of "fst s / snd s"] quot by linarith
qed

lemma to_fixed_near: "\<bar>qval (to_fixed dp x) - x\<bar> \<le> 1 / 2 / 10 ^ dp"
proof -
  let ?n = "\<lfloor>\<bar>x\<bar> * 10 ^ dp + 1 / 2\<rfloor>"
  have "\<bar>of_int ?n - \<bar>x\<bar> * 10 ^ dp\<bar> \<le> 1 / 2" by linarith
  then have "\<bar>of_int ?n - \<bar>x\<bar> * 10 ^ dp\<bar> / 10 ^ dp \<le> 1 / 2 / 10 ^ dp" by (intro divide_right_mono) simp_all
  moreover have "\<bar>of_int ?n - \<bar>x\<bar> * 10 ^ dp\<bar> / 10 ^ dp = \<bar>of_int ?n / 10 ^ dp - \<bar>x\<bar>\<bar>"
  proof -
    have "of_int ?n / 10 ^ dp - \<bar>x\<bar> = (of_int ?n - \<bar>x\<bar> * 10 ^ dp) / 10 ^ dp" by (simp add: diff_divide_distrib)
    then show ?thesis by (simp only: abs_divide power_abs abs_numeral)
  qed
  ultimately show ?thesis by (auto simp: to_fixed_def Let_def abs_if split: if_splits)
qed

lemma slope_near:
  assumes "small_counts vals"
  shows "case slope vals minimum of
     None \<Rightarrow> length vals < minimum \<or> length vals \<le> 1
   | Some q \<Rightarrow> minimum \<le> length vals \<and> 2 \<le> length vals \<and> places q = 6 \<and> \<bar>qval q - line_slope vals\<bar> \<le> 51 / 10 ^ 8"
proof (cases "length vals < minimum \<or> length vals \<le> 1")
  case True
  have "snd (slope_sums mx my 0 vals (0, 0)) = 0" if "length vals \<le> 1" "mx = double ((of_nat (length vals) - 1) / 2)" for mx my
    using that by (cases vals) (auto simp: Let_def)
  then show ?thesis using True by (auto simp: slope_def Let_def)
next
  case False
  then have n: "2 \<le> length vals" by simp
  let ?s = "slope_sums (double ((of_nat (length vals) - 1) / 2)) (double (js_sum vals / of_nat (length vals))) 0 vals (0, 0)"
  note c = computed_slope [OF assms n]
  have "\<bar>qval (to_fixed 6 (double (fst ?s / snd ?s))) - line_slope vals\<bar> \<le> 1 / 2 / 10 ^ 6 + 1 / 10 ^ 8"
    using to_fixed_near [of 6 "double (fst ?s / snd ?s)"] c(2) by linarith
  moreover have "slope vals minimum = Some (to_fixed 6 (double (fst ?s / snd ?s)))"
    using False c(1) by (simp add: slope_def Let_def)
  ultimately show ?thesis using False by (simp add: to_fixed_def Let_def)
qed

text \<open>C30: The backlog trend is the slope of the least-squares line through the open-defect counts of the window, to within 0.51
  millionths, whatever the rounding of the doubles: no other line has a smaller squared error. It is printed with six
  decimals, and refused exactly when the window has fewer weeks than required, or fewer than two. Windows of up to a thousand
  weeks and counts of up to a million.\<close>

theorem trend_is_least_squares:
  assumes "small_counts (map snd (last_of (qi_backlogWindowWeeks input) (qi_openDefectHistory input)))"
  shows "case evaluateQuality dj input of
     Inl _ \<Rightarrow> False
   | Inr r \<Rightarrow>
       let weeks = qi_backlogWindowWeeks input; vals = map snd (last_of weeks (qi_openDefectHistory input)) in
       (case qv_value (qe_defectBacklogTrend r) of
          None \<Rightarrow> length vals < weeks \<or> length vals \<le> 1
        | Some q \<Rightarrow> weeks \<le> length vals \<and> 2 \<le> length vals \<and> places q = 6
            \<and> (\<exists>level incline. \<bar>qval q - incline\<bar> \<le> 51 / 10 ^ 8
                  \<and> (\<forall>a b. squared_error level incline vals \<le> squared_error a b vals)))"
proof -
  let ?weeks = "qi_backlogWindowWeeks input"
  let ?vals = "map snd (last_of ?weeks (qi_openDefectHistory input))"
  obtain r where r: "evaluateQuality dj input = Inr r"
    "qe_defectBacklogTrend r = backlog_trend (qi_openDefectHistory input) ?weeks"
    by (simp add: evaluateQuality_def money_minus_def assertSameCurrency_def Let_def)
  have "qv_value (qe_defectBacklogTrend r) = slope ?vals ?weeks"
    by (auto simp: r(2) backlog_trend_def nc_def ok_def split: option.split)
  then show ?thesis
    using slope_near [OF assms, of ?weeks] line_slope_fits [of ?vals] unfolding r(1) sum.case Let_def
    by (auto split: option.splits)
qed

definition sample_trend :: quality_input where
  "sample_trend = \<lparr>qi_projectId = ''P1'', qi_asOf = Instant 0 [], qi_defects = [], qi_acceptanceItems = [], qi_effort = [],
     qi_actualCost = Money 1000 USD, qi_reworkAllowance = Qty 5 2, qi_backlogWindowWeeks = 3,
     qi_openDefectHistory = [(''2026-W22'', 9), (''2026-W23'', 4), (''2026-W24'', 6), (''2026-W25'', 10)],
     qi_defectSource = \<lparr>ds_available = True, ds_ageDays = Some 3, ds_expectedCadenceDays = 7\<rparr>\<rparr>"

theorem trend_is_least_squares_witness:
  "case evaluateQuality ref_decimal sample_trend of
     Inl _ \<Rightarrow> False
   | Inr r \<Rightarrow> (case qv_value (qe_defectBacklogTrend r) of None \<Rightarrow> False | Some q \<Rightarrow> places q = 6)"
proof -
  have "small_counts (map snd (last_of (qi_backlogWindowWeeks sample_trend) (qi_openDefectHistory sample_trend)))"
    by (simp add: small_counts_def last_of_def sample_trend_def)
  from trend_is_least_squares [OF this, of ref_decimal] show ?thesis
    by (cases "evaluateQuality ref_decimal sample_trend") (auto simp: Let_def sample_trend_def last_of_def split: option.splits)
qed

section \<open>Rates are rates\<close>

text \<open>What the quality record holds is possible: hours that add up exactly, a cost and an allowance that are not negative.\<close>

definition plausible_quality :: "quality_input \<Rightarrow> bool" where
  "plausible_quality input \<longleftrightarrow> small_amounts (map ef_hours (qi_effort input)) \<and> 0 \<le> money_value (qi_actualCost input)"

definition is_rate :: "quantity quality_value \<Rightarrow> bool" where
  "is_rate v \<longleftrightarrow> (case qv_value v of None \<Rightarrow> qv_notComputableReason v \<noteq> None | Some q \<Rightarrow> unit_interval q)"

context decimal_lib begin

lemma escaped_rate_unit: "is_rate (escaped_rate dj defects source)"
proof (cases "qDiv dj (q_nat (length (filter df_escapedToClient defects))) (q_nat (length defects))")
  case (Some q)
  have "unit_interval q" by (rule quotient_unit [OF Some]) simp_all
  then show ?thesis by (auto simp: is_rate_def escaped_rate_def ncState_def okState_def ok_def Some unit_interval_def)
qed (auto simp: is_rate_def escaped_rate_def ncState_def okState_def ok_def unit_interval_def)

lemma rework_unit:
  assumes "small_amounts (map ef_hours effort)"
  shows "is_rate (rework_ratio dj effort)"
  using part_unit [OF assms, of ef_isRework]
  by (auto simp: is_rate_def rework_ratio_def hours_of_def nc_def ok_def split: option.splits)

lemma excess_nonneg:
  assumes "0 \<le> money_value (qi_actualCost input)" "money_value zero = 0"
  shows "case qv_value (excess_rework dj input zero v) of None \<Rightarrow> qv_value v = None | Some m \<Rightarrow> 0 \<le> money_value m"
  using assms
  by (auto simp: excess_rework_def Let_def nc_def ok_def qIsNegative_def qIsZero_def money_times_def intro!: round_nonneg mult_nonneg_nonneg
    split: option.split)

end

text \<open>C31: Silence is no quality. For efforts whose hours are not negative and small enough to add exactly, and an actual cost
  that is not negative: with no recorded defect the escaped-defect rate is a known zero only where the source reports and
  is not stale; otherwise it is unknown, with a reason. Every rate reported lies between 0 and 1, and rework under the
  allowance never earns a negative cost.\<close>

theorem silence_is_not_quality:
  assumes "decimal_lib dj" "plausible_quality input"
  shows "case evaluateQuality dj input of
     Inl _ \<Rightarrow> False
   | Inr r \<Rightarrow>
       is_rate (qe_escapedDefectRate r) \<and> is_rate (qe_reworkRatio r)
       \<and> (case qv_value (qe_excessReworkCost r) of None \<Rightarrow> qv_value (qe_reworkRatio r) = None | Some m \<Rightarrow> 0 \<le> money_value m)
       \<and> (qv_state (qe_escapedDefectRate r) = Some KNOWN_ZERO
            \<longleftrightarrow> qi_defects input = [] \<and> ds_available (qi_defectSource input) \<and> \<not> source_stale (qi_defectSource input))
       \<and> (qv_value (qe_escapedDefectRate r) = None
            \<longleftrightarrow> qi_defects input = [] \<and> \<not> (ds_available (qi_defectSource input) \<and> \<not> source_stale (qi_defectSource input)))"
proof -
  let ?zero = "Money 0 (money_currency (qi_actualCost input))" and ?ratio = "rework_ratio dj (qi_effort input)"
  have zero: "money_minus dj (qi_actualCost input) (qi_actualCost input) = Inr ?zero"
    by (simp add: money_minus_def assertSameCurrency_def decimal_lib.round_zero [OF assms(1)])
  obtain r where r: "evaluateQuality dj input = Inr r"
    "qe_escapedDefectRate r = escaped_rate dj (qi_defects input) (qi_defectSource input)" "qe_reworkRatio r = ?ratio"
    "qe_excessReworkCost r = excess_rework dj input ?zero ?ratio"
    by (simp add: evaluateQuality_def zero Let_def)
  have rework: "is_rate ?ratio" and cost: "0 \<le> money_value (qi_actualCost input)"
    using decimal_lib.rework_unit [OF assms(1)] assms(2) by (simp_all add: plausible_quality_def)
  have excess: "case qv_value (excess_rework dj input ?zero ?ratio) of
      None \<Rightarrow> qv_value ?ratio = None | Some m \<Rightarrow> 0 \<le> money_value m"
    using decimal_lib.excess_nonneg [OF assms(1) cost] by simp
  show ?thesis
    unfolding r sum.case
    by (intro conjI decimal_lib.escaped_rate_unit [OF assms(1)] rework excess)
      (auto simp: escaped_rate_def ncState_def okState_def ok_def)
qed

definition sample_quality :: "bool \<Rightarrow> quality_input" where
  "sample_quality reports = \<lparr>qi_projectId = ''P1'', qi_asOf = Instant 0 [], qi_defects = [], qi_acceptanceItems = [],
     qi_effort = [\<lparr>ef_week = ''2026-W23'', ef_hours = Qty 80 0, ef_isRework = False\<rparr>, \<lparr>ef_week = ''2026-W23'', ef_hours = Qty 20 0, ef_isRework = True\<rparr>],
     qi_actualCost = Money 1000 USD, qi_reworkAllowance = Qty 5 2, qi_backlogWindowWeeks = 8, qi_openDefectHistory = [],
     qi_defectSource = \<lparr>ds_available = reports, ds_ageDays = Some 3, ds_expectedCadenceDays = 7\<rparr>\<rparr>"

theorem silence_is_not_quality_witness:
  "map_sum id (\<lambda>r. qv_state (qe_escapedDefectRate r) = Some KNOWN_ZERO) (evaluateQuality ref_decimal (sample_quality True)) = Inr True
   \<and> map_sum id (\<lambda>r. qv_value (qe_escapedDefectRate r)) (evaluateQuality ref_decimal (sample_quality False)) = Inr None"
proof -
  have p: "plausible_quality (sample_quality b)" for b by (simp add: plausible_quality_def sample_quality_def small_amounts_def)
  show ?thesis
    using silence_is_not_quality [OF ref.decimal_lib_axioms p, of True] silence_is_not_quality [OF ref.decimal_lib_axioms p, of False]
    by (cases "evaluateQuality ref_decimal (sample_quality True)"; cases "evaluateQuality ref_decimal (sample_quality False)")
      (auto simp: sample_quality_def source_stale_def)
qed

end
