(* ===== verification/Resource.thy ===== *)
theory Resource
  imports Money Unit_Scores Decimal_Reference Time_Periods
begin

text \<open>
  \<open>contexts/resource/internal/resource-engine.ts\<close>: utilisation, effort against the priced baseline, the pyramid, the blended
  rate and the concentration of work on one person. A person is an opaque reference; what leaves is counts, ratios and
  rates.
\<close>

section \<open>Data\<close>

datatype seniority_band = PRINCIPAL | SENIOR | MID | JUNIOR | TRAINEE

definition SENIOR_BANDS :: "seniority_band list" where
  "SENIOR_BANDS = [PRINCIPAL, SENIOR]"

datatype delivery_location = ONSHORE | NEARSHORE | OFFSHORE
datatype engagement_type = EMPLOYEE | SUBCONTRACTOR

record assignment_input =
  as_id :: string
  as_personRef :: string
  as_seniorityBand :: seniority_band
  as_deliveryLocation :: delivery_location
  as_engagementType :: engagement_type
  as_allocationPercent :: quantity
  as_ended :: bool

record effort_input =
  ei_week :: string
  ei_hours :: quantity
  ei_billable :: bool
  ei_isRework :: bool

record resource_input =
  ri_projectId :: string
  ri_asOf :: instant
  ri_assignments :: "assignment_input list"
  ri_effort :: "effort_input list"
  ri_actualCost :: money
  ri_plannedEffortHours :: quantity
  ri_earnedCompletionRatio :: "quantity option"
  ri_soldBlendedRate :: money
  ri_soldPyramidRatio :: quantity

record 'a resource_value =
  rv_metricId :: string
  rv_value :: "'a option"
  rv_notComputableReason :: "string option"

record 'k mix =
  mx_key :: 'k
  mx_people :: nat
  mx_fte :: quantity

record resource_evaluation =
  re_projectId :: string
  re_asOf :: instant
  re_billableUtilisation :: "quantity resource_value"
  re_effortVarianceHours :: "quantity resource_value"
  re_plannedEffortToDate :: "quantity resource_value"
  re_effortBaselineBasis :: string
  re_actualHours :: quantity
  re_pyramidRatio :: "quantity resource_value"
  re_pyramidDrift :: "quantity resource_value"
  re_actualBlendedRate :: "money resource_value"
  re_blendedRateVariance :: "money resource_value"
  re_resourceCostDriftImpact :: "money resource_value"
  re_keyPersonConcentration :: "quantity resource_value"
  re_seniorityMix :: "seniority_band mix list"
  re_locationMix :: "delivery_location mix list"
  re_engagementMix :: "engagement_type mix list"
  re_activeAssignments :: nat

definition nc :: "string \<Rightarrow> string \<Rightarrow> 'a resource_value" where
  "nc metricId reason = \<lparr>rv_metricId = metricId, rv_value = None, rv_notComputableReason = Some reason\<rparr>"

definition ok :: "string \<Rightarrow> 'a \<Rightarrow> 'a resource_value" where
  "ok metricId v = \<lparr>rv_metricId = metricId, rv_value = Some v, rv_notComputableReason = None\<rparr>"

section \<open>Effort\<close>

definition total_hours :: "decimal_js \<Rightarrow> effort_input list \<Rightarrow> quantity" where
  "total_hours dj effort = foldl (\<lambda>a e. qAdd dj a (ei_hours e)) Q_ZERO effort"

definition no_hours :: "decimal_js \<Rightarrow> effort_input list \<Rightarrow> bool" where
  "no_hours dj effort \<longleftrightarrow> qCompare (total_hours dj effort) Q_ZERO \<le> 0"

definition billable_utilisation :: "decimal_js \<Rightarrow> effort_input list \<Rightarrow> quantity resource_value" where
  "billable_utilisation dj effort =
     (if no_hours dj effort then nc ''MET-RES-001'' ''no effort has been recorded, so there are no hours to divide''
      else ok ''MET-RES-001'' (nullish (qDiv dj (total_hours dj (filter ei_billable effort)) (total_hours dj effort)) Q_ZERO))"

definition planned_to_date :: "decimal_js \<Rightarrow> quantity \<Rightarrow> quantity option \<Rightarrow> quantity resource_value" where
  "planned_to_date dj planned completion =
     (case completion of
        None \<Rightarrow> nc ''MET-RES-002'' ''no physical completion has been claimed, so the priced effort cannot be time-phased''
      | Some ratio \<Rightarrow> ok ''MET-RES-002'' (qMul dj planned ratio))"

definition effort_variance :: "decimal_js \<Rightarrow> quantity \<Rightarrow> quantity resource_value \<Rightarrow> quantity resource_value" where
  "effort_variance dj totalHours planned =
     (case rv_value planned of
        None \<Rightarrow> nc ''MET-RES-002'' (nullish (rv_notComputableReason planned) ''planned effort to date is not computable'')
      | Some p \<Rightarrow> ok ''MET-RES-002'' (qSub dj totalHours p))"

section \<open>The pyramid\<close>

definition active_assignments :: "assignment_input list \<Rightarrow> assignment_input list" where
  "active_assignments assignments = filter (\<lambda>a. \<not> as_ended a) assignments"

definition fte_sum :: "decimal_js \<Rightarrow> assignment_input list \<Rightarrow> quantity" where
  "fte_sum dj members = foldl (\<lambda>acc a. qAdd dj acc (nullish (qDiv dj (as_allocationPercent a) Q_HUNDRED) Q_ZERO)) Q_ZERO members"

definition fteOf :: "decimal_js \<Rightarrow> assignment_input list \<Rightarrow> seniority_band list \<Rightarrow> quantity" where
  "fteOf dj active bands = fte_sum dj (filter (\<lambda>a. as_seniorityBand a \<in> set bands) active)"

definition pyramid_ratio :: "decimal_js \<Rightarrow> assignment_input list \<Rightarrow> quantity resource_value" where
  "pyramid_ratio dj active =
     (let seniorFte = fteOf dj active SENIOR_BANDS; juniorFte = fteOf dj active [MID, JUNIOR, TRAINEE]
      in if qCompare juniorFte Q_ZERO \<le> 0
         then nc ''MET-RES-003'' (if length active = 0 then ''no active assignments''
                else ''no junior-band FTE on the project, so the senior-to-junior ratio has no denominator'')
         else ok ''MET-RES-003'' (nullish (qDiv dj seniorFte juniorFte) Q_ZERO))"

definition pyramid_drift :: "decimal_js \<Rightarrow> quantity resource_value \<Rightarrow> quantity \<Rightarrow> quantity resource_value" where
  "pyramid_drift dj ratio sold =
     (case rv_value ratio of
        None \<Rightarrow> nc ''MET-RES-004'' (''pyramid ratio is not computable: '' @ nullish (rv_notComputableReason ratio) ''unknown'')
      | Some r \<Rightarrow> ok ''MET-RES-004'' (qSub dj r sold))"

section \<open>The blended rate\<close>

definition rate_quantity :: "decimal_js \<Rightarrow> effort_input list \<Rightarrow> money \<Rightarrow> quantity option" where
  "rate_quantity dj effort cost =
     (if no_hours dj effort then None else qDiv dj (money_toQuantity dj cost) (total_hours dj effort))"

definition blended_rate :: "quantity option \<Rightarrow> currency \<Rightarrow> money resource_value" where
  "blended_rate rateQ cur =
     (case rateQ of
        None \<Rightarrow> nc ''MET-RES-005'' ''no effort has been recorded, so there is no hour count to divide cost by''
      | Some r \<Rightarrow> ok ''MET-RES-005'' (Money (qval r) cur))"

definition rate_variance :: "decimal_js \<Rightarrow> money resource_value \<Rightarrow> money \<Rightarrow> money_error + money resource_value" where
  "rate_variance dj actual sold =
     (case rv_value actual of
        None \<Rightarrow> Inr (nc ''MET-RES-005'' ''no effort has been recorded, so there is no actual blended rate to compare'')
      | Some m \<Rightarrow> and_then (money_minus dj m sold) (\<lambda>d. Inr (ok ''MET-RES-005'' d)))"

definition cost_drift_impact :: "decimal_js \<Rightarrow> money resource_value \<Rightarrow> quantity \<Rightarrow> money resource_value" where
  "cost_drift_impact dj variance totalHours =
     (case rv_value variance of
        None \<Rightarrow> nc ''MET-RES-010'' (''blended rate variance is not computable: '' @ nullish (rv_notComputableReason variance) ''unknown'')
      | Some m \<Rightarrow> ok ''MET-RES-010'' (money_times dj m totalHours))"

section \<open>Concentration\<close>

definition add_person :: "decimal_js \<Rightarrow> (string, quantity) js_map \<Rightarrow> assignment_input \<Rightarrow> (string, quantity) js_map" where
  "add_person dj m a =
     js_set (as_personRef a) (qAdd dj (nullish (js_get m (as_personRef a)) Q_ZERO) (as_allocationPercent a)) m"

definition by_person :: "decimal_js \<Rightarrow> assignment_input list \<Rightarrow> (string, quantity) js_map" where
  "by_person dj active = foldl (add_person dj) [] active"

definition largest_of :: "quantity list \<Rightarrow> quantity" where
  "largest_of qs = foldl (\<lambda>x y. if qCompare y x > 0 then y else x) Q_ZERO qs"

definition key_person :: "decimal_js \<Rightarrow> assignment_input list \<Rightarrow> quantity resource_value" where
  "key_person dj active =
     (let held = map snd (by_person dj active); totalAllocation = foldl (qAdd dj) Q_ZERO held
      in if qCompare totalAllocation Q_ZERO \<le> 0
         then nc ''MET-RES-007'' ''no active assignments, so there is no allocation to concentrate''
         else ok ''MET-RES-007'' (nullish (qDiv dj (largest_of held) totalAllocation) Q_ZERO))"

section \<open>Headcounts\<close>

definition mixOf :: "decimal_js \<Rightarrow> assignment_input list \<Rightarrow> 'k list \<Rightarrow> (assignment_input \<Rightarrow> 'k) \<Rightarrow> 'k mix list" where
  "mixOf dj active keys pick = map (\<lambda>key.
     let inGroup = filter (\<lambda>a. pick a = key) active
     in \<lparr>mx_key = key, mx_people = card (set (map as_personRef inGroup)), mx_fte = fte_sum dj inGroup\<rparr>) keys"

section \<open>The evaluation\<close>

definition effort_baseline_basis :: string where
  "effort_baseline_basis =
     ''priced effort (contract:baseline.plannedEffortHours) time-phased by the claimed **physical ''
     @ ''completion** at the as-of date -- the effort the work actually completed was priced at ''
     @ ''(earned value). Not the planned-completion ratio: that would credit unperformed work as an ''
     @ ''effort saving (ADR-0024).''"

definition evaluateResource :: "decimal_js \<Rightarrow> resource_input \<Rightarrow> money_error + resource_evaluation" where
  "evaluateResource dj input =
     (let effort = ri_effort input; totalHours = total_hours dj effort;
          planned = planned_to_date dj (ri_plannedEffortHours input) (ri_earnedCompletionRatio input);
          active = active_assignments (ri_assignments input);
          ratio = pyramid_ratio dj active;
          actual = blended_rate (rate_quantity dj effort (ri_actualCost input)) (money_currency (ri_actualCost input))
      in and_then (rate_variance dj actual (ri_soldBlendedRate input)) (\<lambda>variance. Inr
        \<lparr>re_projectId = ri_projectId input, re_asOf = ri_asOf input,
         re_billableUtilisation = billable_utilisation dj effort,
         re_effortVarianceHours = effort_variance dj totalHours planned,
         re_plannedEffortToDate = planned, re_effortBaselineBasis = effort_baseline_basis,
         re_actualHours = totalHours, re_pyramidRatio = ratio,
         re_pyramidDrift = pyramid_drift dj ratio (ri_soldPyramidRatio input),
         re_actualBlendedRate = actual, re_blendedRateVariance = variance,
         re_resourceCostDriftImpact = cost_drift_impact dj variance totalHours,
         re_keyPersonConcentration = key_person dj active,
         re_seniorityMix = mixOf dj active [PRINCIPAL, SENIOR, MID, JUNIOR, TRAINEE] as_seniorityBand,
         re_locationMix = mixOf dj active [ONSHORE, NEARSHORE, OFFSHORE] as_deliveryLocation,
         re_engagementMix = mixOf dj active [EMPLOYEE, SUBCONTRACTOR] as_engagementType,
         re_activeAssignments = length active\<rparr>))"

definition hasEffort :: "resource_input \<Rightarrow> bool" where
  "hasEffort input \<longleftrightarrow> length (ri_effort input) > 0"

section \<open>What one person holds\<close>

definition held_by :: "string \<Rightarrow> assignment_input list \<Rightarrow> rat" where
  "held_by person active = sum_list (map (\<lambda>a. qval (as_allocationPercent a)) (filter (\<lambda>a. as_personRef a = person) active))"

definition held_in_all :: "assignment_input list \<Rightarrow> rat" where
  "held_in_all active = sum_list (map (\<lambda>a. qval (as_allocationPercent a)) active)"

definition small_allocations :: "assignment_input list \<Rightarrow> bool" where
  "small_allocations active \<longleftrightarrow> small_amounts (map as_allocationPercent active)"

lemma sum_by_key:
  fixes g :: "'a \<Rightarrow> rat"
  assumes "distinct ps" "set (map f xs) \<subseteq> set ps"
  shows "sum_list (map (\<lambda>p. sum_list (map g (filter (\<lambda>x. f x = p) xs))) ps) = sum_list (map g xs)"
  using assms(2)
proof (induction xs)
  case (Cons x xs)
  have "sum_list (map (\<lambda>p. if f x = p then g x else 0) ps) = g x"
    using assms(1) Cons.prems by (simp add: sum_list_distinct_conv_sum_set)
  moreover have "sum_list (map g (filter (\<lambda>x. f x = p) (x # xs))) = (if f x = p then g x else 0) + sum_list (map g (filter (\<lambda>x. f x = p) xs))" for p
    by simp
  ultimately show ?case using Cons by (simp only: sum_list_addf) simp
qed simp

lemma by_person_keys: "distinct (map fst m) \<Longrightarrow> distinct (map fst (foldl (add_person dj) m active))
    \<and> fst ` set (foldl (add_person dj) m active) = fst ` set m \<union> as_personRef ` set active"
proof (induction active arbitrary: m)
  case (Cons a active)
  have "distinct (map fst (add_person dj m a))" "fst ` set (add_person dj m a) = insert (as_personRef a) (fst ` set m)"
    using Cons.prems by (auto simp: add_person_def js_set_keys simp flip: set_map)
  with Cons.IH [of "add_person dj m a"] show ?case by auto
qed simp

lemma by_person_get: "nullish (js_get (foldl (add_person dj) m active) p) Q_ZERO
    = foldl (\<lambda>acc a. qAdd dj acc (as_allocationPercent a)) (nullish (js_get m p) Q_ZERO) (filter (\<lambda>a. as_personRef a = p) active)"
  by (induction active arbitrary: m) (auto simp: add_person_def jsm.lookup_store nullish_def)

lemma largest_step:
  "let l = foldl (\<lambda>x y. if qCompare y x > 0 then y else x) a qs
   in qval l \<in> insert (qval a) (qval ` set qs) \<and> qval a \<le> qval l \<and> (\<forall>q\<in>set qs. qval q \<le> qval l)"
proof (induction qs arbitrary: a)
  case (Cons q qs)
  show ?case
  proof (cases "qval a < qval q")
    case True
    with Cons.IH [of q] show ?thesis by (auto simp: qCompare_sign Let_def)
  next
    case False
    with Cons.IH [of a] show ?thesis by (auto simp: qCompare_sign Let_def)
  qed
qed simp

lemma largest_of_spec:
  "qval (largest_of qs) \<in> insert 0 (qval ` set qs)" "0 \<le> qval (largest_of qs)" "\<forall>q\<in>set qs. qval q \<le> qval (largest_of qs)"
  using largest_step [of Q_ZERO qs] by (simp_all add: largest_of_def Let_def)

lemma held_scaled:
  assumes "small_allocations active"
  shows "\<exists>k. held_by p active = scaled 6 k \<and> 0 \<le> k"
proof -
  let ?f = "filter (\<lambda>a. as_personRef a = p) active"
  let ?k = "\<lambda>a. mant (as_allocationPercent a) * 10 ^ (6 - places (as_allocationPercent a))"
  have small: "small_amounts (map as_allocationPercent ?f)" using assms small_part unfolding small_allocations_def by blast
  have "held_by p active = sum_list (map (scaled 6) (map ?k ?f))"
    unfolding held_by_def map_map using small
    by (intro arg_cong [where f = sum_list] map_cong refl) (auto simp: qval_scaled small_amounts_def list_all_iff)
  then have k: "held_by p active = scaled 6 (sum_list (map ?k ?f))" by (simp only: scaled_arith)
  have "0 \<le> held_by p active" using small_sum(1) [OF small] by (simp add: held_by_def comp_def)
  then show ?thesis using k by (auto simp: scaled_def zero_le_divide_iff)
qed

context decimal_lib begin

lemma person_holds:
  assumes "small_allocations active" "(p, q) \<in> set (by_person dj active)"
  shows "qval q = held_by p active"
proof -
  have "distinct (map fst (by_person dj active))" using by_person_keys [of "[]"] by (simp add: by_person_def)
  then have "js_get (by_person dj active) p = Some q" using assms(2) by (simp add: js_get_def)
  then have "q = foldl (\<lambda>acc a. qAdd dj acc (as_allocationPercent a)) Q_ZERO (filter (\<lambda>a. as_personRef a = p) active)"
    using by_person_get [of dj "[]" active p] by (simp add: by_person_def nullish_def jsm.lookup_fresh)
  moreover have "small_amounts (map as_allocationPercent (filter (\<lambda>a. as_personRef a = p) active))"
    using assms(1) small_part unfolding small_allocations_def by blast
  ultimately show ?thesis using small_total by (simp add: held_by_def)
qed

lemma people_hold_everything:
  assumes "small_allocations active"
  shows "qval (foldl (qAdd dj) Q_ZERO (map snd (by_person dj active))) = held_in_all active"
proof -
  let ?m = "by_person dj active"
  have keys: "distinct (map fst ?m)" "fst ` set ?m = as_personRef ` set active"
    using by_person_keys [of "[]"] by (simp_all add: by_person_def)
  have "\<exists>k. \<forall>p. held_by p active = scaled 6 (k p) \<and> 0 \<le> k p" using held_scaled [OF assms] by (intro choice) blast
  then obtain k where k: "held_by p active = scaled 6 (k p)" "0 \<le> k p" for p by blast
  have fold: "qval (foldl (qAdd dj) q ys) = foldl (\<lambda>a x. dround dj q_precision (a + x)) (qval q) (map qval ys)" for q ys
    by (induction ys arbitrary: q) (simp_all add: qval_ops)
  have amounts: "map qval (map snd ?m) = map (scaled 6) (map k (map fst ?m))"
    unfolding map_map by (rule map_cong [OF refl]) (auto simp: person_holds [OF assms] k(1))
  have "sum_list (map (\<lambda>p. held_by p active) (map fst ?m)) = held_in_all active"
    unfolding held_by_def held_in_all_def using keys by (intro sum_by_key) auto
  then have sum: "scaled 6 (sum_list (map k (map fst ?m))) = held_in_all active"
    unfolding scaled_arith(5) [symmetric] map_map by (simp add: k(1) comp_def)
  have "held_in_all active \<le> 10 ^ 12"
    using small_sum(2) [OF assms [unfolded small_allocations_def]] by (simp add: held_in_all_def comp_def)
  then have "(of_int (sum_list (map k (map fst ?m))) :: rat) \<le> of_int (10 ^ 18)"
    unfolding sum [symmetric] by (simp add: scaled_def pos_divide_le_eq)
  then have "sum_list (map k (map fst ?m)) \<le> 10 ^ 18" by (simp only: of_int_le_iff)
  moreover have "sum_list (map abs (map k (map fst ?m))) = sum_list (map k (map fst ?m))"
    using k by (intro nonneg_sum_abs) auto
  ultimately have "foldl (\<lambda>a x. dround dj q_precision (a + x)) (scaled 6 0) (map (scaled 6) (map k (map fst ?m)))
      = scaled 6 (0 + sum_list (map k (map fst ?m)))"
    by (intro foldl_exact) (simp add: q_precision_def)
  then show ?thesis unfolding fold amounts using sum by (simp add: scaled_arith)
qed

lemma largest_share:
  assumes "small_allocations active"
  shows "list_all (\<lambda>a. held_by (as_personRef a) active \<le> qval (largest_of (map snd (by_person dj active)))) active"
    "active \<noteq> [] \<Longrightarrow> list_ex (\<lambda>a. held_by (as_personRef a) active = qval (largest_of (map snd (by_person dj active)))) active"
    "qval (largest_of (map snd (by_person dj active))) \<le> held_in_all active"
proof -
  let ?m = "by_person dj active" and ?l = "qval (largest_of (map snd (by_person dj active)))"
  have keys: "fst ` set ?m = as_personRef ` set active" using by_person_keys [of "[]"] by (simp add: by_person_def)
  have upper: "held_by (as_personRef a) active \<le> ?l" if "a \<in> set active" for a
  proof -
    have "as_personRef a \<in> fst ` set ?m" using that keys by blast
    then obtain q where "(as_personRef a, q) \<in> set ?m" by auto
    then have "qval q = held_by (as_personRef a) active" "q \<in> set (map snd ?m)" using person_holds [OF assms] by force+
    then show ?thesis using largest_of_spec(3) by metis
  qed
  then show "list_all (\<lambda>a. held_by (as_personRef a) active \<le> ?l) active" by (simp add: list_all_iff)
  have attained: "\<exists>a\<in>set active. held_by (as_personRef a) active = ?l" if "active \<noteq> []"
  proof (cases "?l \<in> qval ` set (map snd ?m)")
    case True
    then obtain p q where "(p, q) \<in> set ?m" "qval q = ?l" by auto
    moreover from this have "p \<in> as_personRef ` set active" using keys by force
    ultimately show ?thesis using person_holds [OF assms] by fastforce
  next
    case False
    then have "?l = 0" using largest_of_spec(1) by blast
    moreover obtain k where "held_by (as_personRef (hd active)) active = scaled 6 k" "0 \<le> k" using held_scaled [OF assms] by blast
    ultimately have "held_by (as_personRef (hd active)) active = ?l"
      using upper [of "hd active"] that by (simp add: scaled_def divide_le_0_iff)
    then show ?thesis using that by (intro bexI [of _ "hd active"]) simp_all
  qed
  then show "active \<noteq> [] \<Longrightarrow> list_ex (\<lambda>a. held_by (as_personRef a) active = ?l) active" by (simp add: list_ex_iff)
  show "?l \<le> held_in_all active"
  proof (cases "active = []")
    case True
    then show ?thesis by (simp add: by_person_def largest_of_def held_in_all_def)
  next
    case False
    then obtain a :: assignment_input where "held_by (as_personRef a) active = ?l" using attained by blast
    moreover have "held_by (as_personRef a) active \<le> held_in_all active"
      using part_le_whole assms unfolding held_by_def held_in_all_def small_allocations_def by blast
    ultimately show ?thesis by simp
  qed
qed

lemma key_person_share:
  assumes "small_allocations active"
  shows "case rv_value (key_person dj active) of
      None \<Rightarrow> held_in_all active = 0
    | Some q \<Rightarrow> unit_interval q
        \<and> list_ex (\<lambda>a. qval q = dround dj q_precision (held_by (as_personRef a) active / held_in_all active)
            \<and> list_all (\<lambda>b. held_by (as_personRef b) active \<le> held_by (as_personRef a) active) active) active"
proof -
  let ?held = "map snd (by_person dj active)"
  note total = people_hold_everything [OF assms] and share = largest_share [OF assms]
  have nonneg: "0 \<le> held_in_all active"
    using small_sum(1) [OF assms [unfolded small_allocations_def]] by (simp add: held_in_all_def comp_def)
  show ?thesis
  proof (cases "held_in_all active = 0")
    case True
    then show ?thesis by (simp add: key_person_def Let_def qCompare_sign total nc_def)
  next
    case False
    then have some: "active \<noteq> []" by (auto simp: held_in_all_def)
    obtain q where q: "qDiv dj (largest_of ?held) (foldl (qAdd dj) Q_ZERO ?held) = Some q"
      using False by (simp add: qDiv_def total)
    then have "rv_value (key_person dj active) = Some q"
      using False nonneg by (simp add: key_person_def Let_def qCompare_sign total ok_def nullish_def)
    moreover have "unit_interval q"
      by (rule quotient_unit [OF q]) (simp_all add: total share(3) largest_of_spec(2))
    moreover have "qval q = dround dj q_precision (qval (largest_of ?held) / held_in_all active)"
      using qDiv_Some [OF q] by (simp add: total)
    moreover obtain a where "a \<in> set active" "held_by (as_personRef a) active = qval (largest_of ?held)"
      using share(2) [OF some] by (auto simp: list_ex_iff)
    ultimately show ?thesis using share(1) unfolding list_ex_iff by (auto intro!: bexI [of _ a])
  qed
qed

lemma utilisation_unit:
  assumes "small_amounts (map ei_hours effort)"
  shows "case rv_value (billable_utilisation dj effort) of None \<Rightarrow> no_hours dj effort | Some q \<Rightarrow> unit_interval q"
  using part_unit [OF assms, of ei_billable]
  by (auto simp: billable_utilisation_def total_hours_def no_hours_def nc_def ok_def nullish_def unit_interval_def split: option.splits)

end

lemma evaluateResource_parts:
  "case evaluateResource dj input of
     Inl e \<Rightarrow> money_currency (ri_actualCost input) \<noteq> money_currency (ri_soldBlendedRate input) \<and> \<not> no_hours dj (ri_effort input)
   | Inr r \<Rightarrow> re_billableUtilisation r = billable_utilisation dj (ri_effort input)
       \<and> re_keyPersonConcentration r = key_person dj (active_assignments (ri_assignments input))"
  by (auto simp: evaluateResource_def Let_def and_then_def rate_variance_def blended_rate_def rate_quantity_def ok_def nc_def
      money_minus_def assertSameCurrency_def split: sum.split option.split if_splits)

definition plausible_resource :: "resource_input \<Rightarrow> bool" where
  "plausible_resource input \<longleftrightarrow> small_amounts (map ei_hours (ri_effort input)) \<and> small_allocations (active_assignments (ri_assignments input))"

text \<open>Shares are shares. Billable utilisation and the concentration on one person lie between 0 and 1 or are not computable,
  the concentration only when nothing is allocated. The concentration is the share of one contributor, all of whose active
  assignments count together, and no contributor holds more. Evaluation fails on a foreign currency alone, and then only when
  there are hours to price.\<close>

theorem concentration_is_the_largest_share:
  assumes "decimal_lib dj" "plausible_resource input"
  shows "case evaluateResource dj input of
     Inl e \<Rightarrow> money_currency (ri_actualCost input) \<noteq> money_currency (ri_soldBlendedRate input) \<and> \<not> no_hours dj (ri_effort input)
   | Inr r \<Rightarrow>
       (let active = filter (\<lambda>a. \<not> as_ended a) (ri_assignments input) in
        (case rv_value (re_billableUtilisation r) of None \<Rightarrow> no_hours dj (ri_effort input) | Some q \<Rightarrow> unit_interval q)
        \<and> (case rv_value (re_keyPersonConcentration r) of
             None \<Rightarrow> held_in_all active = 0
           | Some q \<Rightarrow> unit_interval q
               \<and> list_ex (\<lambda>a. qval q = dround dj q_precision (held_by (as_personRef a) active / held_in_all active)
                   \<and> list_all (\<lambda>b. held_by (as_personRef b) active \<le> held_by (as_personRef a) active) active) active))"
  using decimal_lib.key_person_share [OF assms(1), of "active_assignments (ri_assignments input)"]
    decimal_lib.utilisation_unit [OF assms(1), of "ri_effort input"] evaluateResource_parts [of input dj] assms(2)
  unfolding active_assignments_def [symmetric] Let_def plausible_resource_def by (cases "evaluateResource dj input") simp_all

definition sample_resource :: resource_input where
  "sample_resource = \<lparr>ri_projectId = ''P1'', ri_asOf = Instant 0 [],
     ri_assignments = [\<lparr>as_id = ''a1'', as_personRef = ''r1'', as_seniorityBand = SENIOR, as_deliveryLocation = ONSHORE,
         as_engagementType = EMPLOYEE, as_allocationPercent = Qty 100 0, as_ended = False\<rparr>,
       \<lparr>as_id = ''a2'', as_personRef = ''r2'', as_seniorityBand = MID, as_deliveryLocation = OFFSHORE,
         as_engagementType = SUBCONTRACTOR, as_allocationPercent = Qty 60 0, as_ended = False\<rparr>,
       \<lparr>as_id = ''a3'', as_personRef = ''r1'', as_seniorityBand = SENIOR, as_deliveryLocation = ONSHORE,
         as_engagementType = EMPLOYEE, as_allocationPercent = Qty 40 0, as_ended = False\<rparr>],
     ri_effort = [], ri_actualCost = Money 1000 USD, ri_plannedEffortHours = Qty 400 0, ri_earnedCompletionRatio = None,
     ri_soldBlendedRate = Money 90 USD, ri_soldPyramidRatio = Qty 5 1\<rparr>"

theorem concentration_is_the_largest_share_witness:
  "map_sum id (\<lambda>r. map_option qval (rv_value (re_keyPersonConcentration r))) (evaluateResource ref_decimal sample_resource)
     = Inr (Some (7 / 10))"
proof -
  have p: "plausible_resource sample_resource"
    by (simp add: plausible_resource_def sample_resource_def small_amounts_def small_allocations_def active_assignments_def qval_def)
  have "dround ref_decimal q_precision (7 / 10) = 7 / 10"
    using ref.round_fits [OF fits_places [of 7 q_precision 1]] by (simp add: q_precision_def)
  moreover have "qval (Qty n 0) = of_int n" for n by (simp add: qval_def)
  ultimately show ?thesis
    using concentration_is_the_largest_share [OF ref.decimal_lib_axioms p]
    by (cases "evaluateResource ref_decimal sample_resource")
      (auto simp: sample_resource_def held_by_def held_in_all_def split: option.splits)
qed

end
