(* ===== verification/Persistence.thy ===== *)
theory Persistence
  imports Gldi_Prelude "HOL-Library.Sublist"
begin

text \<open>
  \<open>platform/persistence/in-memory.ts\<close>: the insert-once store and the append-only weekly series, whose two readings keep apart
  what was believed at a date and what is known since. \<open>String.prototype.localeCompare\<close> is the parameter \<open>collate\<close>.
\<close>

section \<open>Stores\<close>

datatype store_error =
    ImmutabilityViolation string string
  | UnnamedCorrection string

record unit_of_work =
  uw_sequence :: nat

definition run_work :: "(string \<Rightarrow> 't) \<Rightarrow> unit_of_work \<Rightarrow> 't \<times> unit_of_work" where
  "run_work job u = (let n = Suc (uw_sequence u) in (job (''tx-'' @ show_nat n), u\<lparr>uw_sequence := n\<rparr>))"

record ('i, 'e) repository =
  rp_entityName :: string
  rp_idOf :: "'e \<Rightarrow> 'i"
  rp_rows :: "('i, 'e) js_map"

definition repo_findById :: "('i, 'e) repository \<Rightarrow> 'i \<Rightarrow> 'e option" where
  "repo_findById r i = js_get (rp_rows r) i"

definition repo_findMany :: "('i, 'e) repository \<Rightarrow> 'i list \<Rightarrow> 'e list" where
  "repo_findMany r ids = List.map_filter (js_get (rp_rows r)) ids"

definition repo_upsert :: "'e \<Rightarrow> ('i, 'e) repository \<Rightarrow> ('i, 'e) repository" where
  "repo_upsert e r = r\<lparr>rp_rows := js_set (rp_idOf r e) e (rp_rows r)\<rparr>"

text \<open>The insert-once store has the same state and no update.\<close>

definition immutable_insert :: "(string, 'e) repository \<Rightarrow> 'e \<Rightarrow> store_error + (string, 'e) repository" where
  "immutable_insert r e =
     (let i = rp_idOf r e in
      if js_get (rp_rows r) i \<noteq> None then Inl (ImmutabilityViolation (rp_entityName r) i)
      else Inr (r\<lparr>rp_rows := js_set i e (rp_rows r)\<rparr>))"

section \<open>The weekly series\<close>

text \<open>A row of any entity: the record is extensible.\<close>

record series_row =
  row_key :: string
  row_week :: string
  row_correctionSeq :: int
  row_capturedAt :: string
  row_corrects :: "int option"

definition clashes :: "'a series_row_scheme \<Rightarrow> 'a series_row_scheme \<Rightarrow> bool" where
  "clashes e r \<longleftrightarrow> row_key r = row_key e \<and> row_week r = row_week e \<and> row_correctionSeq r = row_correctionSeq e"

definition append_row ::
  "string \<Rightarrow> 'a series_row_scheme \<Rightarrow> 'a series_row_scheme list \<Rightarrow> store_error + 'a series_row_scheme list" where
  "append_row name e rows =
     (if list_ex (clashes e) rows
      then Inl (ImmutabilityViolation name (row_key e @ ''/'' @ row_week e @ ''/seq'' @ show_int (row_correctionSeq e)))
      else if row_correctionSeq e > 0 \<and> row_corrects e = None then Inl (UnnamedCorrection name)
      else Inr (rows @ [e]))"

definition believed :: "string \<Rightarrow> string \<Rightarrow> 'a series_row_scheme \<Rightarrow> bool" where
  "believed key asOf r \<longleftrightarrow> row_key r = key \<and> row_capturedAt r \<le> asOf \<and> row_correctionSeq r = 0"

definition seriesAsOf :: "(string \<Rightarrow> string \<Rightarrow> int) \<Rightarrow> 'a series_row_scheme list \<Rightarrow> string \<Rightarrow> string \<Rightarrow> 'a series_row_scheme list" where
  "seriesAsOf collate rows key asOf = sort_by (cmp_key row_week collate) (filter (believed key asOf) rows)"

definition keep_latest :: "string \<Rightarrow> string \<Rightarrow> (string, 'a series_row_scheme) js_map \<Rightarrow> 'a series_row_scheme \<Rightarrow>
    (string, 'a series_row_scheme) js_map" where
  "keep_latest key asOf latest r =
     (if row_key r \<noteq> key \<or> row_capturedAt r > asOf then latest
      else case js_get latest (row_week r) of
          None \<Rightarrow> js_set (row_week r) r latest
        | Some held \<Rightarrow> if row_correctionSeq r > row_correctionSeq held then js_set (row_week r) r latest else latest)"

definition seriesAsCorrected :: "(string \<Rightarrow> string \<Rightarrow> int) \<Rightarrow> 'a series_row_scheme list \<Rightarrow> string \<Rightarrow> string \<Rightarrow> 'a series_row_scheme list" where
  "seriesAsCorrected collate rows key asOf =
     sort_by (cmp_key row_week collate) (map snd (foldl (keep_latest key asOf) [] rows))"

section \<open>Insert once\<close>

text \<open>A caller that keeps trying: an append that is refused leaves the store as it is.\<close>

definition attempt :: "string \<Rightarrow> 'a series_row_scheme list \<Rightarrow> 'a series_row_scheme \<Rightarrow> 'a series_row_scheme list" where
  "attempt name rows e = (case append_row name e rows of Inl _ \<Rightarrow> rows | Inr rows' \<Rightarrow> rows')"

definition history :: "string \<Rightarrow> 'a series_row_scheme list \<Rightarrow> 'a series_row_scheme list" where
  "history name es = foldl (attempt name) [] es"

definition slot :: "'a series_row_scheme \<Rightarrow> string \<times> string \<times> int" where
  "slot r = (row_key r, row_week r, row_correctionSeq r)"

definition named :: "'a series_row_scheme \<Rightarrow> bool" where
  "named r \<longleftrightarrow> \<not> (row_correctionSeq r > 0 \<and> row_corrects r = None)"

lemma clashes_slot: "clashes e r \<longleftrightarrow> slot r = slot e"
  by (auto simp: clashes_def slot_def)

lemma clash_iff: "list_ex (clashes e) rows \<longleftrightarrow> slot e \<in> slot ` set rows"
  unfolding list_ex_iff clashes_slot image_iff by metis

lemma attempt_cases: "attempt name rows e = (if slot e \<notin> slot ` set rows \<and> named e then rows @ [e] else rows)"
  by (simp add: attempt_def append_row_def named_def clash_iff)

interpretation series: append_only id "\<lambda>s t. \<exists>e. append_row name e s = Inr t"
  by unfold_locales (auto simp: append_row_def split: if_splits)

lemma history_snoc: "history name (es @ [e]) = attempt name (history name es) e"
  by (simp add: history_def)

lemma attempt_run: "(\<lambda>s t. \<exists>e. append_row name e s = Inr t)\<^sup>*\<^sup>* rows (foldl (attempt name) rows es)"
proof (induction es arbitrary: rows)
  case (Cons e es)
  have "(\<lambda>s t. \<exists>e. append_row name e s = Inr t)\<^sup>*\<^sup>* rows (attempt name rows e)"
    by (cases "append_row name e rows") (auto simp: attempt_def)
  then show ?case using Cons.IH [of "attempt name rows e"] by (simp add: rtranclp_trans)
qed simp

lemma subseq_snoc: "subseq xs ys \<Longrightarrow> subseq xs (ys @ [y])" "subseq xs ys \<Longrightarrow> subseq (xs @ [y]) (ys @ [y])"
  by (simp_all add: list_emb_append_mono list_emb_prefix)

lemma history_sound:
  "distinct (map slot (history name es)) \<and> subseq (history name es) es \<and> list_all named (history name es)
   \<and> slot ` set (history name es) = slot ` set (filter named es)"
proof (induction es rule: rev_induct)
  case (snoc e es)
  then show ?case by (auto simp: history_snoc attempt_cases subseq_snoc)
qed (simp add: history_def)

text \<open>C36: The weekly series is insert-once. Whatever is attempted in whatever order, the store holds attempted rows in the order
  they came, at most one per project, week and correction number; a correction that does not name what it corrects is never
  stored; every other attempted slot is filled, and what one attempt stored no later attempt removes or replaces.\<close>

theorem series_insert_once:
  "let rows = history name es in
     distinct (map slot rows) \<and> subseq rows es \<and> list_all named rows
     \<and> slot ` set rows = slot ` set (filter named es) \<and> prefix rows (history name (es @ later))"
  using history_sound [of name es] series.run_grows [OF attempt_run [of name "history name es" later]]
  by (simp add: Let_def history_def)

section \<open>Two readings\<close>

definition visible :: "string \<Rightarrow> string \<Rightarrow> 'a series_row_scheme \<Rightarrow> bool" where
  "visible key asOf r \<longleftrightarrow> row_key r = key \<and> row_capturedAt r \<le> asOf"

definition newest :: "string \<Rightarrow> string \<Rightarrow> 'a series_row_scheme list \<Rightarrow> 'a series_row_scheme \<Rightarrow> bool" where
  "newest key asOf rows r \<longleftrightarrow> r \<in> set rows \<and> visible key asOf r
     \<and> list_all (\<lambda>q. if visible key asOf q \<and> row_week q = row_week r then row_correctionSeq q \<le> row_correctionSeq r else True) rows"

lemma keep_latest_invisible: "\<not> visible key asOf r \<Longrightarrow> keep_latest key asOf latest r = latest"
  by (auto simp: keep_latest_def visible_def)

lemma latest_get:
  "case js_get (foldl (keep_latest key asOf) [] rows) w of
     None \<Rightarrow> \<forall>q\<in>set rows. visible key asOf q \<longrightarrow> row_week q \<noteq> w
   | Some r \<Rightarrow> newest key asOf rows r \<and> row_week r = w"
proof (induction rows rule: rev_induct)
  case (snoc e rows)
  show ?case
  proof (cases "visible key asOf e \<and> row_week e = w")
    case True
    let ?m = "foldl (keep_latest key asOf) [] rows"
    have step: "js_get (keep_latest key asOf ?m e) w
        = (case js_get ?m w of None \<Rightarrow> Some e | Some held \<Rightarrow> if row_correctionSeq e > row_correctionSeq held then Some e else Some held)"
      using True by (auto simp: keep_latest_def visible_def jsm.lookup_store split: option.split)
    show ?thesis
    proof (cases "js_get ?m w")
      case None
      then show ?thesis using snoc True by (auto simp: step newest_def list_all_iff)
    next
      case (Some held)
      then have held: "newest key asOf rows held" "row_week held = w" using snoc by simp_all
      then have le: "row_correctionSeq q \<le> row_correctionSeq held" if "q \<in> set rows" "visible key asOf q" "row_week q = w" for q
        using that by (auto simp: newest_def list_all_iff)
      show ?thesis
      proof (cases "row_correctionSeq held < row_correctionSeq e")
        case newer: True
        then have "row_correctionSeq q \<le> row_correctionSeq e" if "q \<in> set rows" "visible key asOf q" "row_week q = w" for q
          using le [OF that] by simp
        then have "newest key asOf (rows @ [e]) e" using True by (auto simp: newest_def list_all_iff)
        then show ?thesis using newer True by (simp add: step Some)
      next
        case older: False
        then have "newest key asOf (rows @ [e]) held" using held True by (auto simp: newest_def list_all_iff)
        then show ?thesis using older held(2) by (simp add: step Some)
      qed
    qed
  next
    case False
    then have "js_get (keep_latest key asOf m e) w = js_get m w" for m
      by (auto simp: keep_latest_def visible_def jsm.lookup_store split: option.split)
    then show ?thesis using snoc False
      by (auto simp: newest_def list_all_iff split: option.splits)
  qed
qed (simp add: jsm.lookup_fresh)

lemma latest_keys: "distinct (map fst m) \<Longrightarrow> distinct (map fst (foldl (keep_latest key asOf) m rows))"
proof (induction rows arbitrary: m)
  case (Cons r rows)
  have "distinct (map fst (keep_latest key asOf m r))"
    using Cons.prems by (auto simp: keep_latest_def js_set_keys split: option.split simp flip: set_map)
  then show ?case using Cons.IH by simp
qed simp

lemma newest_unique:
  assumes "distinct (map slot rows)" "newest key asOf rows r" "newest key asOf rows q" "row_week r = row_week q"
  shows "r = q"
proof -
  have "slot r = slot q" using assms(2-4) by (auto simp: newest_def list_all_iff slot_def visible_def split: if_splits intro: antisym)
  then show ?thesis using assms(1-3) by (auto simp: newest_def distinct_map inj_on_def)
qed

lemma latest_values:
  assumes "distinct (map slot rows)"
  shows "set (map snd (foldl (keep_latest key asOf) [] rows)) = {r. newest key asOf rows r}"
    "map row_week (map snd (foldl (keep_latest key asOf) [] rows)) = map fst (foldl (keep_latest key asOf) [] rows)"
proof -
  let ?m = "foldl (keep_latest key asOf) [] rows"
  have get: "js_get ?m w = Some r \<longleftrightarrow> (w, r) \<in> set ?m" for w r
    using latest_keys [of "[]" key asOf rows] by (simp add: js_get_def)
  have found: "newest key asOf rows r \<and> row_week r = w" if "(w, r) \<in> set ?m" for w r
    using latest_get [of rows key asOf w] that by (simp flip: get)
  have "(row_week r, r) \<in> set ?m" if n: "newest key asOf rows r" for r
  proof (cases "js_get ?m (row_week r)")
    case None
    then show ?thesis using latest_get [of rows key asOf "row_week r"] n by (auto simp: newest_def)
  next
    case (Some q)
    then have "newest key asOf rows q" "row_week q = row_week r" using latest_get [of rows key asOf "row_week r"] by auto
    then show ?thesis using newest_unique [OF assms n] Some get by metis
  qed
  then show "set (map snd ?m) = {r. newest key asOf rows r}" using found by force
  show "map row_week (map snd ?m) = map fst ?m" using found by auto
qed

text \<open>C37: The corrected series is what is known by now: for every week of the project with a row captured by the date it holds
  exactly one row, the one with the highest correction number among those captured by then, in the order of the weeks.\<close>

theorem corrected_series_is_current:
  assumes "comparator collate"
  shows "let rows = history name es; s = seriesAsCorrected collate rows key asOf in
     sorted_wrt (\<lambda>a b. collate (row_week a) (row_week b) \<le> 0) s \<and> distinct (map row_week s)
     \<and> set s = {r. newest key asOf rows r} \<and> row_week ` set s = row_week ` set (filter (visible key asOf) rows)"
proof -
  let ?rows = "history name es"
  let ?m = "foldl (keep_latest key asOf) [] ?rows"
  have slots: "distinct (map slot ?rows)" using history_sound by blast
  note vals = latest_values [OF slots, of key asOf]
  have "mset (map row_week (seriesAsCorrected collate ?rows key asOf)) = mset (map fst ?m)"
    unfolding seriesAsCorrected_def vals(2) [symmetric] by (simp only: mset_map mset_sort_by)
  then have "distinct (map row_week (seriesAsCorrected collate ?rows key asOf))"
    using mset_eq_imp_distinct_iff latest_keys [of "[]"] by fastforce
  moreover have elems: "set (seriesAsCorrected collate ?rows key asOf) = {r. newest key asOf ?rows r}"
    unfolding seriesAsCorrected_def set_sort_by by (rule vals(1))
  moreover have "sorted_wrt (\<lambda>a b. collate (row_week a) (row_week b) \<le> 0) (seriesAsCorrected collate ?rows key asOf)"
    using comparator.sorted_sort_by [OF comparator_key [OF assms]] by (simp add: seriesAsCorrected_def cmp_key_def)
  moreover have "\<exists>r. newest key asOf ?rows r \<and> row_week r = row_week q" if "q \<in> set ?rows" "visible key asOf q" for q
    using latest_get [of ?rows key asOf "row_week q"] that by (auto split: option.splits)
  then have "row_week ` {r. newest key asOf ?rows r} = row_week ` set (filter (visible key asOf) ?rows)"
    by (auto simp: newest_def) (metis (mono_tags) imageI mem_Collect_eq newest_def)
  ultimately show ?thesis unfolding Let_def elems by blast
qed

lemma history_append: "\<exists>kept. history name (es @ later) = history name es @ kept \<and> set kept \<subseteq> set later"
proof (induction later rule: rev_induct)
  case (snoc e later)
  then obtain kept where k: "history name (es @ later) = history name es @ kept" "set kept \<subseteq> set later" by blast
  show ?case
  proof (cases "slot e \<notin> slot ` set (history name (es @ later)) \<and> named e")
    case True
    then have "history name (es @ later @ [e]) = history name es @ kept @ [e]"
      by (simp add: history_snoc attempt_cases k(1) flip: append_assoc)
    then show ?thesis using k(2) by (intro exI [of _ "kept @ [e]"]) auto
  next
    case False
    then have "history name (es @ later @ [e]) = history name es @ kept"
      by (auto simp: history_snoc attempt_cases k(1) simp flip: append_assoc)
    then show ?thesis using k(2) by auto
  qed
qed simp

text \<open>C38: What was believed is not rewritten. No attempt to append rows captured after a date, or corrections whenever they are
  captured, changes the series as of that date; and the corrected series as of that date changes only by rows captured by
  then.\<close>

theorem belief_is_not_rewritten:
  assumes "list_all (\<lambda>e. asOf < row_capturedAt e \<or> row_correctionSeq e \<noteq> 0) later"
  shows "seriesAsOf collate (history name (es @ later)) key asOf = seriesAsOf collate (history name es) key asOf
    \<and> (list_all (\<lambda>e. asOf < row_capturedAt e) later \<longrightarrow>
         seriesAsCorrected collate (history name (es @ later)) key asOf = seriesAsCorrected collate (history name es) key asOf)"
proof -
  obtain kept where k: "history name (es @ later) = history name es @ kept" "set kept \<subseteq> set later"
    using history_append by blast
  have "filter (believed key asOf) kept = []"
    using assms k(2) by (fastforce simp: filter_empty_conv believed_def list_all_iff dest: leD)
  moreover have "foldl (keep_latest key asOf) m kept = m" if "list_all (\<lambda>e. asOf < row_capturedAt e) later" for m
  proof -
    have "\<forall>r\<in>set kept. \<not> visible key asOf r" using that k(2) by (fastforce simp: visible_def list_all_iff dest: leD)
    then show ?thesis by (induction kept) (simp_all add: keep_latest_invisible)
  qed
  ultimately show ?thesis unfolding k(1) by (simp add: seriesAsOf_def seriesAsCorrected_def)
qed

definition sample_series_row :: "string \<Rightarrow> int \<Rightarrow> string \<Rightarrow> series_row" where
  "sample_series_row week seq captured = \<lparr>row_key = ''P1'', row_week = week, row_correctionSeq = seq, row_capturedAt = captured,
     row_corrects = (if seq > 0 then Some 0 else None)\<rparr>"

lemma newest_filter: "{r. newest key asOf rows r} = set (filter (newest key asOf rows) rows)"
  by (auto simp: newest_def)

lemma sample_series_row_sel:
  "row_key (sample_series_row w s c) = ''P1''" "row_week (sample_series_row w s c) = w"
  "row_correctionSeq (sample_series_row w s c) = s" "row_capturedAt (sample_series_row w s c) = c"
  by (simp_all add: sample_series_row_def)

theorem corrected_series_is_current_witness:
  "set (seriesAsCorrected cmp_ord (history ''health'' [sample_series_row ''W1'' 0 ''a'', sample_series_row ''W1'' 1 ''b'', sample_series_row ''W1'' 2 ''c''])
     ''P1'' ''b'') = {sample_series_row ''W1'' 1 ''b''}"
proof -
  let ?rows = "[sample_series_row ''W1'' 0 ''a'', sample_series_row ''W1'' 1 ''b'', sample_series_row ''W1'' 2 ''c'']"
  have kept: "history ''health'' ?rows = ?rows"
    by (simp add: history_def attempt_def append_row_def clashes_def sample_series_row_def)
  have "{r. newest ''P1'' ''b'' ?rows r} = set (filter (newest ''P1'' ''b'' ?rows) ?rows)" by (rule newest_filter)
  also have "\<dots> = {sample_series_row ''W1'' 1 ''b''}" by (simp add: newest_def visible_def sample_series_row_sel)
  finally have "{r. newest ''P1'' ''b'' ?rows r} = {sample_series_row ''W1'' 1 ''b''}" .
  then show ?thesis
    using corrected_series_is_current [OF natural.comparator_axioms, of "''health''" ?rows "''P1''" "''b''"]
    unfolding Let_def kept by simp
qed

theorem belief_is_not_rewritten_witness:
  "seriesAsOf cmp_ord (history ''health'' [sample_series_row ''W1'' 0 ''a'', sample_series_row ''W1'' 1 ''a'', sample_series_row ''W2'' 0 ''c'']) ''P1'' ''b''
     = [sample_series_row ''W1'' 0 ''a'']"
  using belief_is_not_rewritten [of "''b''" "[sample_series_row ''W1'' 1 ''a'', sample_series_row ''W2'' 0 ''c'']" cmp_ord "''health''"
      "[sample_series_row ''W1'' 0 ''a'']" "''P1''"]
  by (simp add: seriesAsOf_def believed_def history_def attempt_def append_row_def clashes_def sample_series_row_def)

text \<open>A correction may name a number that was never stored, and may come with a lower number than one that is there.\<close>

theorem correction_of_nothing_stored:
  "history ''health'' [sample_series_row ''W1'' 2 ''b'', sample_series_row ''W1'' 1 ''c'']
     = [sample_series_row ''W1'' 2 ''b'', sample_series_row ''W1'' 1 ''c'']"
  by (simp add: history_def attempt_def append_row_def clashes_def sample_series_row_def)

section \<open>The insert-once store\<close>

definition try_insert :: "(string, 'e) repository \<Rightarrow> 'e \<Rightarrow> (string, 'e) repository" where
  "try_insert r e = (case immutable_insert r e of Inl _ \<Rightarrow> r | Inr r' \<Rightarrow> r')"

lemma try_insert_get: "js_get (rp_rows (try_insert r e)) i
    = (if i = rp_idOf r e \<and> js_get (rp_rows r) i = None then Some e else js_get (rp_rows r) i)"
  "rp_idOf (try_insert r e) = rp_idOf r"
  by (auto simp: try_insert_def immutable_insert_def Let_def jsm.lookup_store)

text \<open>Whatever is inserted, an identifier keeps the first entity stored under it.\<close>

theorem first_insert_wins:
  "js_get (rp_rows (foldl try_insert r es)) i
     = (case js_get (rp_rows r) i of Some e \<Rightarrow> Some e | None \<Rightarrow> find (\<lambda>e. rp_idOf r e = i) es)"
  by (induction es arbitrary: r) (auto simp: try_insert_get split: option.split)

text \<open>The mutable repository answers with the last entity stored under an identifier.\<close>

lemma upserted_is_found: "repo_findById (repo_upsert e r) i = (if i = rp_idOf r e then Some e else repo_findById r i)"
  by (simp add: repo_findById_def repo_upsert_def jsm.lookup_store)

end
