(* ===== verification/Text_Scan.thy ===== *)
theory Text_Scan
  imports Gldi_Prelude
begin

text \<open>
  Searches in text that several components make: \<open>includes\<close> and \<open>parseInt\<close> of the host.
\<close>

definition text_includes :: "'a list \<Rightarrow> 'a list \<Rightarrow> bool" where
  "text_includes needle s \<longleftrightarrow> list_ex (\<lambda>i. take (length needle) (drop i s) = needle) [0..<Suc (length s)]"

lemma text_includes_mid: "text_includes needle (xs @ needle @ ys)"
  by (auto simp: text_includes_def list_ex_iff intro!: bexI [of _ "length xs"])

text \<open>\<open>Number.parseInt(s, 10)\<close>: leading white space, a sign, then digits until something else; without a digit it is no number.\<close>

definition parse_int :: "string \<Rightarrow> int option" where
  "parse_int s =
     (let t = dropWhile is_white s; negative = take 1 t = ''-'';
          u = (if negative \<or> take 1 t = ''+'' then drop 1 t else t); digits = takeWhile is_digit u
      in if digits = [] then None else Some (if negative then - int (parse_digits digits) else int (parse_digits digits)))"

text \<open>A whole number that does not round to infinity.\<close>

definition finite_number :: "int \<Rightarrow> bool" where
  "finite_number n \<longleftrightarrow> \<bar>n\<bar> < 2 ^ 1024 - 2 ^ 970"

end
