(* ===== verification/Zip_Reader.thy ===== *)
theory Zip_Reader
  imports Text_Scan "HOL-Library.Word"
begin

text \<open>
  \<open>platform/parse/zip.ts\<close> with the bounded reads and the bounded decompression of \<open>platform/bytes/index.ts\<close>: a read-only view
  of an archive. A byte is an 8-bit word and the reads keep the 32-bit operators of the code. What is decoded from bytes is a
  list of code points. The decompressor (\<open>node:zlib\<close>) is a parameter.
\<close>

unbundle bit_operations_syntax

type_synonym bytes = "8 word list"

type_synonym code_points = "nat list"

record byte_budget =
  bb_maxInputBytes :: nat
  bb_maxOutputBytes :: nat

record zip_budget = byte_budget +
  zb_maxEntries :: nat
  zb_maxEntryBytes :: nat

definition DEFAULT_ZIP_BUDGET :: zip_budget where
  "DEFAULT_ZIP_BUDGET = \<lparr>bb_maxInputBytes = 25 * 1024 * 1024, bb_maxOutputBytes = 120 * 1024 * 1024,
     zb_maxEntries = 512, zb_maxEntryBytes = 32 * 1024 * 1024\<rparr>"

text \<open>\<open>MalformedMember\<close> is the \<open>MalformedInput\<close> whose message is a text, the name of a member and a text.\<close>

datatype byte_error =
    ByteLimitExceeded string nat nat
  | MalformedInput string
  | MalformedMember string code_points string

record zip_entry =
  ze_name :: code_points
  ze_compressedSize :: nat
  ze_uncompressedSize :: nat
  ze_method :: nat
  ze_localHeaderOffset :: nat

record zip_archive =
  za_bytes :: bytes
  za_budget :: zip_budget
  za_entries :: "zip_entry list"

section \<open>Bytes\<close>

definition byte_at :: "bytes \<Rightarrow> nat \<Rightarrow> 8 word option" where
  "byte_at b pos = (if pos < length b then Some (b ! pos) else None)"

definition truncated :: "nat \<Rightarrow> byte_error" where
  "truncated pos = MalformedInput (''Truncated at offset '' @ show_nat pos @ ''.'')"

definition u16le :: "bytes \<Rightarrow> nat \<Rightarrow> byte_error + nat" where
  "u16le b pos =
     (case (byte_at b pos, byte_at b (pos + 1)) of
        (Some a, Some c) \<Rightarrow> Inr (unat (ucast a OR push_bit 8 (ucast c) :: 32 word))
      | _ \<Rightarrow> Inl (truncated pos))"

definition u32le :: "bytes \<Rightarrow> nat \<Rightarrow> byte_error + nat" where
  "u32le b pos =
     (case (byte_at b pos, byte_at b (pos + 1), byte_at b (pos + 2), byte_at b (pos + 3)) of
        (Some x0, Some x1, Some x2, Some x3) \<Rightarrow>
          Inr (unat ((ucast x0 OR push_bit 8 (ucast x1)) OR push_bit 16 (ucast x2) :: 32 word) + unat x3 * 0x1000000)
      | _ \<Rightarrow> Inl (truncated pos))"

definition subarray :: "bytes \<Rightarrow> nat \<Rightarrow> nat \<Rightarrow> bytes" where
  "subarray b start stop = take (stop - start) (drop start b)"

text \<open>
  \<open>Buffer.toString('utf8')\<close>, the decoder of the encoding standard: \<open>needed\<close> continuation bytes are missing, the next one in
  \<open>low\<close>..\<open>high\<close>. What is ill-formed becomes U+FFFD, and the byte that ends an ill-formed sequence is read again.
\<close>

function utf8_from :: "nat \<Rightarrow> nat \<Rightarrow> nat \<Rightarrow> nat \<Rightarrow> nat list \<Rightarrow> code_points" where
  "utf8_from needed cp low high [] = (if needed = 0 then [] else [0xFFFD])"
| "utf8_from needed cp low high (b # bs) =
     (if needed = 0 then
        if b < 0x80 then b # utf8_from 0 0 0x80 0xBF bs
        else if 0xC2 \<le> b \<and> b \<le> 0xDF then utf8_from 1 (b - 0xC0) 0x80 0xBF bs
        else if 0xE0 \<le> b \<and> b \<le> 0xEF
        then utf8_from 2 (b - 0xE0) (if b = 0xE0 then 0xA0 else 0x80) (if b = 0xED then 0x9F else 0xBF) bs
        else if 0xF0 \<le> b \<and> b \<le> 0xF4
        then utf8_from 3 (b - 0xF0) (if b = 0xF0 then 0x90 else 0x80) (if b = 0xF4 then 0x8F else 0xBF) bs
        else 0xFFFD # utf8_from 0 0 0x80 0xBF bs
      else if low \<le> b \<and> b \<le> high then
        let cp' = cp * 64 + (b - 0x80)
        in if needed = 1 then cp' # utf8_from 0 0 0x80 0xBF bs else utf8_from (needed - 1) cp' 0x80 0xBF bs
      else 0xFFFD # utf8_from 0 0 0x80 0xBF (b # bs))"
  by pat_completeness auto

termination
  by (relation "measures [\<lambda>(_, _, _, _, bs). length bs, \<lambda>(needed, _, _, _, _). needed]") auto

definition utf8 :: "bytes \<Rightarrow> code_points" where
  "utf8 b = utf8_from 0 0 0x80 0xBF (map unat b)"

text \<open>The decompressor gets the bytes and the ceiling and fails with a message. What is relied on: it keeps the ceiling.\<close>

type_synonym inflater = "bytes \<Rightarrow> nat \<Rightarrow> string + bytes"

definition keeps_ceiling :: "inflater \<Rightarrow> bool" where
  "keeps_ceiling zlib \<longleftrightarrow> (\<forall>data ceil out. zlib data ceil = Inr out \<longrightarrow> length out \<le> ceil)"

definition inflate_raw :: "inflater \<Rightarrow> bytes \<Rightarrow> byte_budget \<Rightarrow> byte_error + bytes" where
  "inflate_raw zlib b budget =
     (if length b > bb_maxInputBytes budget
      then Inl (ByteLimitExceeded ''maxInputBytes'' (bb_maxInputBytes budget) (length b))
      else case zlib b (bb_maxOutputBytes budget) of
          Inr out \<Rightarrow> Inr out
        | Inl message \<Rightarrow>
            if text_includes ''maxOutputLength'' message \<or> text_includes ''Buffer size'' message
            then Inl (ByteLimitExceeded ''maxOutputBytes'' (bb_maxOutputBytes budget) (bb_maxOutputBytes budget))
            else Inl (MalformedInput (''Compressed stream could not be inflated (raw): '' @ message)))"

section \<open>Opening an archive\<close>

definition EOCD_SIGNATURE :: nat where "EOCD_SIGNATURE = 0x06054b50"
definition CENTRAL_SIGNATURE :: nat where "CENTRAL_SIGNATURE = 0x02014b50"
definition LOCAL_SIGNATURE :: nat where "LOCAL_SIGNATURE = 0x04034b50"

text \<open>The loop from \<open>i\<close> down over \<open>n\<close> offsets.\<close>

fun scan_back :: "bytes \<Rightarrow> nat \<Rightarrow> nat \<Rightarrow> byte_error + nat" where
  "scan_back b i 0 = Inl (MalformedInput ''Not a ZIP archive: no end-of-central-directory record was found.'')"
| "scan_back b i (Suc n) =
     and_then (u32le b i) (\<lambda>v. if v = EOCD_SIGNATURE then Inr i else scan_back b (i - 1) n)"

definition findEocd :: "bytes \<Rightarrow> byte_error + nat" where
  "findEocd b =
     (let floor = length b - 65557 in
      if length b < 22 then scan_back b 0 0
      else scan_back b (length b - 22) (Suc (length b - 22) - floor))"

definition drive_letter :: "code_points \<Rightarrow> bool" where
  "drive_letter name \<longleftrightarrow> (case name of
     c # d # _ \<Rightarrow> d = 58 \<and> list_ex (\<lambda>(low, high). low \<le> c \<and> c \<le> high) [(97, 122), (65, 90)]
   | _ \<Rightarrow> False)"

text \<open>Two dots, a slash or a backslash in front, a drive letter.\<close>

definition traverses :: "code_points \<Rightarrow> bool" where
  "traverses name \<longleftrightarrow> text_includes [46, 46] name \<or> take 1 name = [47] \<or> take 1 name = [92] \<or> drive_letter name"

definition assertSafeName :: "code_points \<Rightarrow> byte_error + unit" where
  "assertSafeName name =
     (if traverses name
      then Inl (MalformedMember ''Archive entry \"'' name (''\" has a traversing path. Nothing is written to disk, but an archive ''
        @ ''that contains one is refused rather than sanitised.''))
      else Inr ())"

definition read_entry :: "bytes \<Rightarrow> zip_budget \<Rightarrow> nat \<Rightarrow> nat \<Rightarrow> byte_error + zip_entry \<times> nat" where
  "read_entry b budget i cursor =
     and_then (u32le b cursor) (\<lambda>signature.
     if signature \<noteq> CENTRAL_SIGNATURE
     then Inl (MalformedInput (''Central directory entry '' @ show_nat i @ '' has a bad signature.''))
     else and_then (u16le b (cursor + 8)) (\<lambda>flags.
     if odd flags then Inl (MalformedInput ''Encrypted archive members are not read.'')
     else and_then (u16le b (cursor + 10)) (\<lambda>method.
     and_then (u32le b (cursor + 20)) (\<lambda>compressedSize.
     and_then (u32le b (cursor + 24)) (\<lambda>uncompressedSize.
     and_then (u16le b (cursor + 28)) (\<lambda>nameLength.
     and_then (u16le b (cursor + 30)) (\<lambda>extraLength.
     and_then (u16le b (cursor + 32)) (\<lambda>commentLength.
     and_then (u32le b (cursor + 42)) (\<lambda>localHeaderOffset.
     let name = utf8 (subarray b (cursor + 46) (cursor + 46 + nameLength)) in
     and_then (assertSafeName name) (\<lambda>_.
     if uncompressedSize > zb_maxEntryBytes budget
     then Inl (ByteLimitExceeded ''maxOutputBytes'' (zb_maxEntryBytes budget) uncompressedSize)
     else Inr (\<lparr>ze_name = name, ze_compressedSize = compressedSize, ze_uncompressedSize = uncompressedSize,
                ze_method = method, ze_localHeaderOffset = localHeaderOffset\<rparr>,
               cursor + (46 + nameLength + extraLength + commentLength))))))))))))"

text \<open>\<open>n\<close> more entries, the first of them the \<open>i\<close>-th.\<close>

fun read_entries :: "bytes \<Rightarrow> zip_budget \<Rightarrow> nat \<Rightarrow> nat \<Rightarrow> nat \<Rightarrow> byte_error + zip_entry list" where
  "read_entries b budget i cursor 0 = Inr []"
| "read_entries b budget i cursor (Suc n) =
     and_then (read_entry b budget i cursor) (\<lambda>(entry, next_cursor).
     and_then (read_entries b budget (Suc i) next_cursor n) (\<lambda>entries. Inr (entry # entries)))"

definition zip_open :: "bytes \<Rightarrow> zip_budget \<Rightarrow> byte_error + zip_archive" where
  "zip_open b budget =
     (if length b > bb_maxInputBytes budget
      then Inl (ByteLimitExceeded ''maxInputBytes'' (bb_maxInputBytes budget) (length b))
      else and_then (findEocd b) (\<lambda>eocd.
        and_then (u16le b (eocd + 10)) (\<lambda>entryCount.
        if entryCount > zb_maxEntries budget
        then Inl (MalformedInput (''Archive declares '' @ show_nat entryCount @ '' entries; the ceiling is ''
          @ show_nat (zb_maxEntries budget) @ ''.''))
        else and_then (u32le b (eocd + 16)) (\<lambda>cursor.
        and_then (read_entries b budget 0 cursor entryCount) (\<lambda>entries.
        Inr \<lparr>za_bytes = b, za_budget = budget, za_entries = entries\<rparr>)))))"

section \<open>Reading a member\<close>

definition zip_has :: "zip_archive \<Rightarrow> code_points \<Rightarrow> bool" where
  "zip_has a name \<longleftrightarrow> list_ex (\<lambda>e. ze_name e = name) (za_entries a)"

definition read_member :: "inflater \<Rightarrow> zip_archive \<Rightarrow> code_points \<Rightarrow> zip_entry \<Rightarrow> byte_error + bytes" where
  "read_member zlib a name entry =
     (let b = za_bytes a; pos = ze_localHeaderOffset entry in
      and_then (u32le b pos) (\<lambda>signature.
      if signature \<noteq> LOCAL_SIGNATURE then Inl (MalformedMember ''Local header for \"'' name ''\" has a bad signature.'')
      else and_then (u16le b (pos + 26)) (\<lambda>nameLength.
      and_then (u16le b (pos + 28)) (\<lambda>extraLength.
      let start = pos + 30 + nameLength + extraLength;
          data = subarray b start (start + ze_compressedSize entry)
      in if ze_method entry = 0 then Inr data
         else if ze_method entry \<noteq> 8
         then Inl (MalformedMember ''Entry \"'' name (''\" uses compression method '' @ show_nat (ze_method entry)
           @ ''; only stored and deflate are read.''))
         else inflate_raw zlib data
           \<lparr>bb_maxInputBytes = bb_maxInputBytes (za_budget a),
            bb_maxOutputBytes = min (zb_maxEntryBytes (za_budget a)) (bb_maxOutputBytes (za_budget a))\<rparr>))))"

definition zip_read :: "inflater \<Rightarrow> zip_archive \<Rightarrow> code_points \<Rightarrow> byte_error + bytes option" where
  "zip_read zlib a name =
     (case find (\<lambda>e. ze_name e = name) (za_entries a) of
        None \<Rightarrow> Inr None
      | Some entry \<Rightarrow> and_then (read_member zlib a name entry) (\<lambda>data. Inr (Some data)))"

definition zip_readText :: "inflater \<Rightarrow> zip_archive \<Rightarrow> code_points \<Rightarrow> byte_error + code_points option" where
  "zip_readText zlib a name = and_then (zip_read zlib a name) (\<lambda>data. Inr (map_option utf8 data))"

section \<open>The reads\<close>

lemma or_add:
  fixes x y :: "32 word"
  assumes "x AND y = 0" "unat x + unat y < 4294967296"
  shows "unat (x OR y) = unat x + unat y"
proof -
  have "x OR y = x + y" using assms(1) by (simp add: disjunctive_add_eq_or)
  then show ?thesis using assms(2) by (simp add: unat_word_ariths)
qed

lemma byte_bits: "bit (ucast (x :: 8 word) :: 32 word) n \<Longrightarrow> n < 8"
  by (auto simp: bit_simps dest: bit_imp_le_length)

lemma bytes_apart:
  fixes x y z :: "8 word"
  shows "(ucast x :: 32 word) AND push_bit 8 (ucast y) = 0"
    "((ucast x OR push_bit 8 (ucast y)) :: 32 word) AND push_bit 16 (ucast z) = 0"
  by (rule bit_eqI; auto simp: bit_simps dest: byte_bits bit_imp_le_length)+

lemma unat_byte: "unat (ucast (x :: 8 word) :: 32 word) = unat x" "unat x < 256"
  using unsigned_less [of x, where ?'a = nat] by (simp_all add: unsigned_ucast_eq take_bit_nat_eq_self)

lemma unat_push:
  "unat (push_bit 8 (ucast (x :: 8 word)) :: 32 word) = unat x * 256"
  "unat (push_bit 16 (ucast x) :: 32 word) = unat x * 65536"
proof -
  have "unat x < 256" by (rule unat_byte)
  then have "unat x * 256 < 4294967296" "unat x * 65536 < 4294967296" by linarith+
  then show "unat (push_bit 8 (ucast x) :: 32 word) = unat x * 256" "unat (push_bit 16 (ucast x) :: 32 word) = unat x * 65536"
    by (simp_all only: push_bit_eq_mult unat_word_ariths unat_byte) simp_all
qed

lemma two_bytes: "unat (ucast a OR push_bit 8 (ucast c) :: 32 word) = unat a + 256 * unat c" for a c :: "8 word"
proof -
  have "unat a + unat c * 256 < 4294967296" using unat_byte(2) [of a] unat_byte(2) [of c] by linarith
  then show ?thesis by (subst or_add) (simp_all add: bytes_apart unat_push unat_byte)
qed

lemma three_bytes: "unat ((ucast a OR push_bit 8 (ucast c)) OR push_bit 16 (ucast d) :: 32 word) = unat a + 256 * unat c + 65536 * unat d"
  for a c d :: "8 word"
proof -
  have "unat a + 256 * unat c + unat d * 65536 < 4294967296"
    using unat_byte(2) [of a] unat_byte(2) [of c] unat_byte(2) [of d] by linarith
  then show ?thesis by (subst or_add) (simp_all add: bytes_apart unat_push unat_byte two_bytes)
qed

lemma u16_value: "u16le b pos = (if pos + 1 < length b then Inr (unat (b ! pos) + 256 * unat (b ! (pos + 1))) else Inl (truncated pos))"
  by (simp add: u16le_def byte_at_def two_bytes)

lemma u32_value: "u32le b pos =
    (if pos + 3 < length b
     then Inr (unat (b ! pos) + 256 * unat (b ! (pos + 1)) + 65536 * unat (b ! (pos + 2)) + 16777216 * unat (b ! (pos + 3)))
     else Inl (truncated pos))"
  by (simp add: u32le_def byte_at_def three_bytes)

lemma read_skip:
  "u16le (xs @ ys) (length xs + k) = map_sum (\<lambda>_. truncated (length xs + k)) id (u16le ys k)"
  "u32le (xs @ ys) (length xs + k) = map_sum (\<lambda>_. truncated (length xs + k)) id (u32le ys k)"
  by (auto simp: u16_value u32_value nth_append add.assoc)

section \<open>What an open archive promises\<close>

text \<open>The end-of-directory record is the last of its signature, in a window that is bounded.\<close>

lemma scan_back_finds:
  "scan_back b i n = Inr j \<Longrightarrow> n \<le> Suc i \<Longrightarrow>
     u32le b j = Inr EOCD_SIGNATURE \<and> j \<le> i \<and> i < j + n \<and> (\<forall>k. j < k \<longrightarrow> k \<le> i \<longrightarrow> u32le b k \<noteq> Inr EOCD_SIGNATURE)"
proof (induction b i n rule: scan_back.induct)
  case (2 b i n)
  then obtain v where v: "u32le b i = Inr v" by (auto simp: and_then_Inr_iff)
  show ?case
  proof (cases "v = EOCD_SIGNATURE")
    case True
    then show ?thesis using 2 v by (simp add: and_then_def)
  next
    case False
    then have rest: "scan_back b (i - 1) n = Inr j" using 2 v by (simp add: and_then_def)
    then have "0 < n" by (cases n) auto
    then obtain i' where i': "i = Suc i'" using 2(3) by (cases i) auto
    have "u32le b j = Inr EOCD_SIGNATURE \<and> j \<le> i' \<and> i' < j + n \<and> (\<forall>k. j < k \<longrightarrow> k \<le> i' \<longrightarrow> u32le b k \<noteq> Inr EOCD_SIGNATURE)"
      using 2(1) [OF False] 2(3) rest i' by simp
    then show ?thesis using v False i' by (auto simp: le_Suc_eq)
  qed
qed simp

definition entry_allowed :: "zip_budget \<Rightarrow> zip_entry \<Rightarrow> bool" where
  "entry_allowed budget e \<longleftrightarrow> \<not> traverses (ze_name e) \<and> ze_uncompressedSize e \<le> zb_maxEntryBytes budget"

lemma read_entry_allowed: "read_entry b budget i cursor = Inr (e, c) \<Longrightarrow> entry_allowed budget e \<and> cursor + 46 \<le> c"
  by (auto simp: read_entry_def and_then_Inr_iff Let_def assertSafeName_def entry_allowed_def split: if_splits)

lemma read_entries_allowed:
  "read_entries b budget i cursor n = Inr es \<Longrightarrow> length es = n \<and> list_all (entry_allowed budget) es"
proof (induction n arbitrary: i cursor es)
  case (Suc n)
  then show ?case using read_entry_allowed by (fastforce simp: and_then_Inr_iff split: prod.splits)
qed simp

lemma findEocd_last:
  assumes "findEocd b = Inr j"
  shows "u32le b j = Inr EOCD_SIGNATURE \<and> j + 22 \<le> length b \<and> length b \<le> j + 65557
    \<and> (\<forall>k. j < k \<longrightarrow> k + 22 \<le> length b \<longrightarrow> u32le b k \<noteq> Inr EOCD_SIGNATURE)"
proof (cases "length b < 22")
  case True
  then show ?thesis using assms by (simp add: findEocd_def)
next
  case False
  then have "scan_back b (length b - 22) (Suc (length b - 22) - (length b - 65557)) = Inr j"
    using assms by (simp add: findEocd_def Let_def)
  moreover have "Suc (length b - 22) - (length b - 65557) \<le> Suc (length b - 22)" by simp
  ultimately have "u32le b j = Inr EOCD_SIGNATURE \<and> j \<le> length b - 22
      \<and> length b - 22 < j + (Suc (length b - 22) - (length b - 65557))
      \<and> (\<forall>k. j < k \<longrightarrow> k \<le> length b - 22 \<longrightarrow> u32le b k \<noteq> Inr EOCD_SIGNATURE)"
    by (rule scan_back_finds)
  moreover from this have "j + 22 \<le> length b" "length b \<le> j + 65557" using False by linarith+
  moreover have "k \<le> length b - 22" if "k + 22 \<le> length b" for k using that by linarith
  ultimately show ?thesis by blast
qed

text \<open>C40: An archive that opens is within its budget: no more bytes and entries than allowed, no member that declares more than
  the ceiling or whose name would traverse. Its directory is found at the last end-of-directory record, searched for in at
  most the last 65557 bytes, and holds exactly as many entries as that record says.\<close>

theorem opened_archive_is_bounded:
  "case zip_open b budget of
     Inl _ \<Rightarrow> True
   | Inr a \<Rightarrow>
       za_bytes a = b \<and> length b \<le> bb_maxInputBytes budget \<and> length (za_entries a) \<le> zb_maxEntries budget
       \<and> list_all (\<lambda>e. \<not> traverses (ze_name e) \<and> ze_uncompressedSize e \<le> zb_maxEntryBytes budget) (za_entries a)
       \<and> (\<exists>j. u32le b j = Inr EOCD_SIGNATURE \<and> u16le b (j + 10) = Inr (length (za_entries a))
             \<and> j + 22 \<le> length b \<and> length b \<le> j + 65557
             \<and> list_all (\<lambda>k. u32le b k \<noteq> Inr EOCD_SIGNATURE) [Suc j..<length b - 21])"
proof (cases "zip_open b budget")
  case (Inr a)
  then obtain j n c where a: "length b \<le> bb_maxInputBytes budget" "findEocd b = Inr j" "u16le b (j + 10) = Inr n"
    "n \<le> zb_maxEntries budget" "read_entries b budget 0 c n = Inr (za_entries a)" "za_bytes a = b"
    by (auto simp: zip_open_def and_then_Inr_iff split: if_splits)
  have "list_all (\<lambda>k. u32le b k \<noteq> Inr EOCD_SIGNATURE) [Suc j..<length b - 21]"
    using findEocd_last [OF a(2)] by (auto simp: list_all_iff)
  moreover have "list_all (\<lambda>e. \<not> traverses (ze_name e) \<and> ze_uncompressedSize e \<le> zb_maxEntryBytes budget) (za_entries a)"
    "length (za_entries a) = n"
    using read_entries_allowed [OF a(5)] by (simp_all add: entry_allowed_def list_all_iff)
  ultimately show ?thesis
    unfolding Inr sum.case using a(1,3,4,6) findEocd_last [OF a(2)] by blast
qed simp

text \<open>What a member unpacks to is bounded: a deflated member by both ceilings, a stored one by the bytes of the archive; and a
  member is read only where its own header carries the signature.\<close>

theorem member_size_is_bounded:
  assumes "keeps_ceiling zlib"
  shows "case zip_read zlib a name of
     Inl _ \<Rightarrow> True
   | Inr None \<Rightarrow> \<not> zip_has a name
   | Inr (Some data) \<Rightarrow>
       list_ex (\<lambda>e. ze_name e = name \<and> u32le (za_bytes a) (ze_localHeaderOffset e) = Inr LOCAL_SIGNATURE
         \<and> (if ze_method e = 0 then length data \<le> length (za_bytes a)
            else ze_method e = 8 \<and> length data \<le> zb_maxEntryBytes (za_budget a) \<and> length data \<le> bb_maxOutputBytes (za_budget a)))
         (za_entries a)"
proof (cases "find (\<lambda>e. ze_name e = name) (za_entries a)")
  case None
  then show ?thesis by (simp add: zip_read_def zip_has_def list_ex_iff) (auto simp: find_None_iff)
next
  case (Some e)
  then have e: "e \<in> set (za_entries a)" "ze_name e = name" by (auto simp: find_Some_iff)
  have size: "length out \<le> bb_maxOutputBytes bud" if "inflate_raw zlib d bud = Inr out" for d bud out
    using that assms by (auto simp: inflate_raw_def keeps_ceiling_def split: if_splits sum.splits)
  have "u32le (za_bytes a) (ze_localHeaderOffset e) = Inr LOCAL_SIGNATURE
      \<and> (if ze_method e = 0 then length data \<le> length (za_bytes a)
         else ze_method e = 8 \<and> length data \<le> zb_maxEntryBytes (za_budget a) \<and> length data \<le> bb_maxOutputBytes (za_budget a))"
    if "read_member zlib a name e = Inr data" for data
    using that size by (fastforce simp: read_member_def and_then_Inr_iff Let_def subarray_def split: if_splits)
  with e show ?thesis
    by (cases "read_member zlib a name e") (auto simp: zip_read_def Some and_then_def list_ex_iff intro!: bexI [of _ e])
qed

section \<open>Reading back what was stored\<close>

text \<open>An archive of stored members, as a writer lays it out.\<close>

definition le16 :: "nat \<Rightarrow> bytes" where
  "le16 n = [word_of_nat (n mod 256), word_of_nat (n div 256)]"

definition le32 :: "nat \<Rightarrow> bytes" where
  "le32 n = [word_of_nat (n mod 256), word_of_nat (n div 256 mod 256), word_of_nat (n div 65536 mod 256), word_of_nat (n div 16777216)]"

definition ascii :: "code_points \<Rightarrow> bytes" where
  "ascii s = map word_of_nat s"

definition local_record :: "code_points \<Rightarrow> bytes \<Rightarrow> bytes" where
  "local_record name data = le32 LOCAL_SIGNATURE @ replicate 22 0 @ le16 (length name) @ le16 0 @ ascii name @ data"

definition central_record :: "code_points \<Rightarrow> bytes \<Rightarrow> nat \<Rightarrow> bytes" where
  "central_record name data pos = le32 CENTRAL_SIGNATURE @ replicate 4 0 @ le16 0 @ le16 0 @ replicate 8 0
     @ le32 (length data) @ le32 (length data) @ le16 (length name) @ le16 0 @ le16 0 @ replicate 8 0 @ le32 pos @ ascii name"

fun locals_of :: "(code_points \<times> bytes) list \<Rightarrow> bytes" where
  "locals_of [] = []"
| "locals_of ((name, data) # files) = local_record name data @ locals_of files"

fun centrals_of :: "nat \<Rightarrow> (code_points \<times> bytes) list \<Rightarrow> bytes" where
  "centrals_of pos [] = []"
| "centrals_of pos ((name, data) # files) = central_record name data pos @ centrals_of (pos + length (local_record name data)) files"

definition zip_of :: "(code_points \<times> bytes) list \<Rightarrow> bytes" where
  "zip_of files = locals_of files @ centrals_of 0 files
     @ le32 EOCD_SIGNATURE @ replicate 6 0 @ le16 (length files) @ replicate 4 0 @ le32 (length (locals_of files)) @ replicate 2 0"

lemma byte_value: "n < 256 \<Longrightarrow> unat (word_of_nat n :: 8 word) = n"
  by (simp add: unat_of_nat take_bit_nat_eq_self)

lemma u16_le16: "n < 65536 \<Longrightarrow> u16le (le16 n @ ys) 0 = Inr n"
  by (simp add: u16_value le16_def byte_value)

lemma u32_le32: "n < 4294967296 \<Longrightarrow> u32le (le32 n @ ys) 0 = Inr n"
proof -
  assume n: "n < 4294967296"
  have d: "n div 16777216 < 256" using n by (simp add: less_mult_imp_div_less)
  have "n div 65536 = n div 256 div 256" "n div 16777216 = n div 65536 div 256" by (simp_all flip: div_mult2_eq)
  then have "n = n div 256 * 256 + n mod 256" "n div 256 = n div 65536 * 256 + n div 256 mod 256"
    "n div 65536 = n div 16777216 * 256 + n div 65536 mod 256" by (simp_all only: div_mult_mod_eq)
  then have "n mod 256 + 256 * (n div 256 mod 256) + 65536 * (n div 65536 mod 256) + 16777216 * (n div 16777216) = n"
    by linarith
  then show ?thesis using d by (simp add: u32_value le32_def byte_value)
qed

lemma utf8_ascii: "list_all (\<lambda>c. c < 128) s \<Longrightarrow> utf8 (ascii s) = s"
proof -
  have "list_all (\<lambda>c. c < 128) s \<Longrightarrow> utf8_from 0 0 0x80 0xBF s = s" by (induction s) simp_all
  moreover have "list_all (\<lambda>c. c < 128) s \<Longrightarrow> map unat (ascii s) = s"
    by (induction s) (simp_all add: ascii_def byte_value)
  ultimately show "list_all (\<lambda>c. c < 128) s \<Longrightarrow> utf8 (ascii s) = s" by (simp add: utf8_def)
qed

lemma field16: "b = xs @ le16 n @ ys \<Longrightarrow> length xs = pos \<Longrightarrow> n < 65536 \<Longrightarrow> u16le b pos = Inr n"
  using read_skip(1) [of xs "le16 n @ ys" 0] by (simp add: u16_le16)

lemma field32: "b = xs @ le32 n @ ys \<Longrightarrow> length xs = pos \<Longrightarrow> n < 4294967296 \<Longrightarrow> u32le b pos = Inr n"
  using read_skip(2) [of xs "le32 n @ ys" 0] by (simp add: u32_le32)

lemma lengths [simp]: "length (le16 n) = 2" "length (le32 n) = 4" "length (ascii s) = length s"
  "length (local_record name data) = 30 + length name + length data"
  "length (central_record name data pos) = 46 + length name"
  by (simp_all add: le16_def le32_def ascii_def local_record_def central_record_def)

definition stored_entry :: "code_points \<Rightarrow> bytes \<Rightarrow> nat \<Rightarrow> zip_entry" where
  "stored_entry name data pos = \<lparr>ze_name = name, ze_compressedSize = length data, ze_uncompressedSize = length data,
     ze_method = 0, ze_localHeaderOffset = pos\<rparr>"

fun entries_of :: "nat \<Rightarrow> (code_points \<times> bytes) list \<Rightarrow> zip_entry list" where
  "entries_of pos [] = []"
| "entries_of pos ((name, data) # files) = stored_entry name data pos # entries_of (pos + length (local_record name data)) files"

definition storable_file :: "zip_budget \<Rightarrow> code_points \<times> bytes \<Rightarrow> bool" where
  "storable_file budget f \<longleftrightarrow> length (fst f) < 65536 \<and> list_all (\<lambda>c. c < 128) (fst f) \<and> \<not> traverses (fst f)
     \<and> length (snd f) < 4294967296 \<and> length (snd f) \<le> zb_maxEntryBytes budget"

lemma read_central:
  assumes b: "b = pre @ central_record name data pos @ post" and ok: "storable_file budget (name, data)" "pos < 4294967296"
  shows "read_entry b budget i (length pre) = Inr (stored_entry name data pos, length pre + (46 + length name))"
proof -
  note b = b [unfolded central_record_def]
  have sizes: "length name < 65536" "list_all (\<lambda>c. c < 128) name" "\<not> traverses name" "length data < 4294967296" "length data \<le> zb_maxEntryBytes budget" "pos < 4294967296"
    using ok by (simp_all add: storable_file_def)
  have "u32le b (length pre) = Inr CENTRAL_SIGNATURE"
    by (rule field32 [of _ pre]) (simp_all add: b CENTRAL_SIGNATURE_def)
  moreover have "u16le b (length pre + 8) = Inr 0"
    by (rule field16 [of _ "pre @ le32 CENTRAL_SIGNATURE @ replicate 4 0"]) (simp_all add: b)
  moreover have "u16le b (length pre + 10) = Inr 0"
    by (rule field16 [of _ "pre @ le32 CENTRAL_SIGNATURE @ replicate 4 0 @ le16 0"]) (simp_all add: b)
  moreover have "u32le b (length pre + 20) = Inr (length data)"
    by (rule field32 [of _ "pre @ le32 CENTRAL_SIGNATURE @ replicate 4 0 @ le16 0 @ le16 0 @ replicate 8 0"]) (simp_all add: b sizes)
  moreover have "u32le b (length pre + 24) = Inr (length data)"
    by (rule field32 [of _ "pre @ le32 CENTRAL_SIGNATURE @ replicate 4 0 @ le16 0 @ le16 0 @ replicate 8 0 @ le32 (length data)"])
      (simp_all add: b sizes)
  moreover have "u16le b (length pre + 28) = Inr (length name)"
    by (rule field16 [of _ "pre @ le32 CENTRAL_SIGNATURE @ replicate 4 0 @ le16 0 @ le16 0 @ replicate 8 0 @ le32 (length data) @ le32 (length data)"])
      (use sizes in \<open>simp_all add: b\<close>)
  moreover have "u16le b (length pre + 30) = Inr 0"
    by (rule field16 [of _ "pre @ le32 CENTRAL_SIGNATURE @ replicate 4 0 @ le16 0 @ le16 0 @ replicate 8 0 @ le32 (length data) @ le32 (length data)
        @ le16 (length name)"]) (simp_all add: b)
  moreover have "u16le b (length pre + 32) = Inr 0"
    by (rule field16 [of _ "pre @ le32 CENTRAL_SIGNATURE @ replicate 4 0 @ le16 0 @ le16 0 @ replicate 8 0 @ le32 (length data) @ le32 (length data)
        @ le16 (length name) @ le16 0"]) (simp_all add: b)
  moreover have "u32le b (length pre + 42) = Inr pos"
    by (rule field32 [of _ "pre @ le32 CENTRAL_SIGNATURE @ replicate 4 0 @ le16 0 @ le16 0 @ replicate 8 0 @ le32 (length data) @ le32 (length data)
        @ le16 (length name) @ le16 0 @ le16 0 @ replicate 8 0"]) (simp_all add: b sizes)
  moreover have "utf8 (subarray b (length pre + 46) (length pre + 46 + length name)) = name"
    by (simp add: subarray_def b utf8_ascii sizes)
  ultimately show ?thesis
    using sizes by (simp add: read_entry_def and_then_def assertSafeName_def stored_entry_def)
qed

lemma read_centrals:
  "b = pre @ centrals_of pos files @ post \<Longrightarrow> list_all (storable_file budget) files \<Longrightarrow> pos + length (locals_of files) < 4294967296 \<Longrightarrow>
    read_entries b budget i (length pre) (length files) = Inr (entries_of pos files)"
proof (induction pos files arbitrary: pre i rule: entries_of.induct)
  case (2 pos name data files)
  have "read_entry b budget i (length pre) = Inr (stored_entry name data pos, length pre + (46 + length name))"
    using 2 by (intro read_central [where post = "centrals_of (pos + length (local_record name data)) files @ post"]) simp_all
  moreover have "read_entries b budget (Suc i) (length (pre @ central_record name data pos)) (length files)
      = Inr (entries_of (pos + length (local_record name data)) files)"
    using 2(2-) by (intro 2(1)) simp_all
  ultimately show ?case by (simp add: and_then_def)
qed simp

lemma read_stored:
  assumes b: "za_bytes a = pre @ local_record name data @ post" and n: "length name < 65536"
  shows "read_member zlib a name (stored_entry name data (length pre)) = Inr data"
proof -
  note b = b [unfolded local_record_def]
  have "u32le (za_bytes a) (length pre) = Inr LOCAL_SIGNATURE"
    by (rule field32 [of _ pre]) (simp_all add: b LOCAL_SIGNATURE_def)
  moreover have "u16le (za_bytes a) (length pre + 26) = Inr (length name)"
    by (rule field16 [of _ "pre @ le32 LOCAL_SIGNATURE @ replicate 22 0"]) (simp_all add: b n)
  moreover have "u16le (za_bytes a) (length pre + 28) = Inr 0"
    by (rule field16 [of _ "pre @ le32 LOCAL_SIGNATURE @ replicate 22 0 @ le16 (length name)"]) (simp_all add: b)
  moreover have "subarray (za_bytes a) (length pre + 30 + length name) (length pre + 30 + length name + length data) = data"
    by (simp add: subarray_def b)
  ultimately show ?thesis by (simp add: read_member_def stored_entry_def and_then_def)
qed

lemma find_stored:
  "za_bytes a = pre @ locals_of files @ post \<Longrightarrow> list_all (storable_file budget) files \<Longrightarrow> distinct (map fst files) \<Longrightarrow>
    (name, data) \<in> set files \<Longrightarrow>
    \<exists>e. find (\<lambda>e. ze_name e = name) (entries_of (length pre) files) = Some e \<and> read_member zlib a name e = Inr data"
proof (induction files arbitrary: pre)
  case (Cons f files)
  obtain n d where f: "f = (n, d)" by (cases f)
  show ?case
  proof (cases "n = name")
    case True
    then have "d = data" using Cons.prems(3,4) f by force
    then have "read_member zlib a name (stored_entry name data (length pre)) = Inr data"
      using Cons.prems(1,2) f True by (intro read_stored [where post = "locals_of files @ post"]) (simp_all add: storable_file_def)
    then show ?thesis using True \<open>d = data\<close> by (simp add: f) (simp add: stored_entry_def)
  next
    case False
    then show ?thesis
      using Cons.IH [of "pre @ local_record n d"] Cons.prems f by (auto simp: stored_entry_def add.assoc)
  qed
qed simp

definition storable :: "zip_budget \<Rightarrow> (code_points \<times> bytes) list \<Rightarrow> bool" where
  "storable budget files \<longleftrightarrow> distinct (map fst files) \<and> list_all (storable_file budget) files
     \<and> length files < 65536 \<and> length files \<le> zb_maxEntries budget
     \<and> length (zip_of files) < 4294967296 \<and> length (zip_of files) \<le> bb_maxInputBytes budget"

lemma eocd_found: "findEocd (zip_of files) = Inr (length (zip_of files) - 22)"
proof -
  let ?b = "zip_of files"
  have len: "length ?b = length (locals_of files @ centrals_of 0 files) + 22" by (simp add: zip_of_def)
  have "u32le ?b (length ?b - 22) = Inr EOCD_SIGNATURE"
    by (rule field32 [of _ "locals_of files @ centrals_of 0 files"]) (simp_all add: zip_of_def EOCD_SIGNATURE_def)
  moreover obtain m where "Suc (length ?b - 22) - (length ?b - 65557) = Suc m"
    using len by (cases "Suc (length ?b - 22) - (length ?b - 65557)") auto
  ultimately show ?thesis using len by (simp add: findEocd_def and_then_def)
qed

text \<open>C39: What a writer stores the reader reads. An archive of stored members laid out as the format says, with distinct safe names
  in ASCII and within the budget, opens; it lists the members in their order and gives back the bytes of each, whatever the
  decompressor does.\<close>

theorem zip_roundtrip:
  assumes "storable budget files"
  shows "case zip_open (zip_of files) budget of
     Inl _ \<Rightarrow> False
   | Inr a \<Rightarrow> map ze_name (za_entries a) = map fst files
       \<and> list_all (\<lambda>(name, data). zip_read zlib a name = Inr (Some data)) files"
proof -
  let ?b = "zip_of files" and ?dir = "locals_of files @ centrals_of 0 files"
  note ok = assms [unfolded storable_def]
  have len: "length ?b = length ?dir + 22" by (simp add: zip_of_def)
  have "u16le ?b (length ?b - 22 + 10) = Inr (length files)"
    by (rule field16 [of _ "?dir @ le32 EOCD_SIGNATURE @ replicate 6 0"]) (use ok in \<open>simp_all add: zip_of_def\<close>)
  moreover have "u32le ?b (length ?b - 22 + 16) = Inr (length (locals_of files))"
    by (rule field32 [of _ "?dir @ le32 EOCD_SIGNATURE @ replicate 6 0 @ le16 (length files) @ replicate 4 0"])
      (use ok in \<open>simp_all add: zip_of_def\<close>)
  moreover have "read_entries ?b budget 0 (length (locals_of files)) (length files) = Inr (entries_of 0 files)"
    by (rule read_centrals) (use ok len in \<open>simp_all add: zip_of_def\<close>)
  ultimately have opened: "zip_open ?b budget = Inr \<lparr>za_bytes = ?b, za_budget = budget, za_entries = entries_of 0 files\<rparr>"
    using ok by (simp add: zip_open_def eocd_found and_then_def)
  have "map ze_name (entries_of pos files) = map fst files" for pos
    by (induction pos files rule: entries_of.induct) (simp_all add: stored_entry_def)
  moreover have "zip_read zlib \<lparr>za_bytes = ?b, za_budget = budget, za_entries = entries_of 0 files\<rparr> name = Inr (Some data)"
    if "(name, data) \<in> set files" for name data
  proof -
    let ?a = "\<lparr>za_bytes = ?b, za_budget = budget, za_entries = entries_of 0 files\<rparr>"
    have "za_bytes ?a = [] @ locals_of files @ (centrals_of 0 files @ le32 EOCD_SIGNATURE @ replicate 6 0 @ le16 (length files)
        @ replicate 4 0 @ le32 (length (locals_of files)) @ replicate 2 0)" by (simp add: zip_of_def)
    from find_stored [OF this, of budget name data zlib] ok that
    obtain e where "find (\<lambda>e. ze_name e = name) (entries_of 0 files) = Some e" "read_member zlib ?a name e = Inr data"
      by auto
    then show ?thesis by (simp add: zip_read_def and_then_def)
  qed
  ultimately show ?thesis unfolding opened by (auto simp: list_all_iff)
qed

definition sample_files :: "(code_points \<times> bytes) list" where
  "sample_files = [([97, 46, 116], [72, 105]), ([98, 47, 99], [0, 255, 1])]"

theorem zip_roundtrip_witness:
  "case zip_open (zip_of sample_files) DEFAULT_ZIP_BUDGET of Inl _ \<Rightarrow> False
   | Inr a \<Rightarrow> zip_read (\<lambda>_ _. Inl ''none'') a [98, 47, 99] = Inr (Some [0, 255, 1])"
proof -
  have "storable DEFAULT_ZIP_BUDGET sample_files"
    by (simp add: storable_def storable_file_def sample_files_def DEFAULT_ZIP_BUDGET_def zip_of_def traverses_def drive_letter_def text_includes_def)
  from zip_roundtrip [OF this, of "\<lambda>_ _. Inl ''none''"] show ?thesis
    by (cases "zip_open (zip_of sample_files) DEFAULT_ZIP_BUDGET") (simp_all add: sample_files_def)
qed

definition lying_archive :: zip_archive where
  "lying_archive = \<lparr>za_bytes = local_record [97] [1, 2, 3], za_budget = DEFAULT_ZIP_BUDGET\<lparr>zb_maxEntryBytes := 2\<rparr>,
     za_entries = [\<lparr>ze_name = [97], ze_compressedSize = 3, ze_uncompressedSize = 0, ze_method = 0, ze_localHeaderOffset = 0\<rparr>]\<rparr>"

text \<open>The ceiling of a member is compared with what the directory declares; a stored member that declares less is read whole.\<close>

theorem stored_member_exceeds_ceiling:
  "list_all (entry_allowed (za_budget lying_archive)) (za_entries lying_archive)
   \<and> zip_read zlib lying_archive [97] = Inr (Some [1, 2, 3]) \<and> length ([1, 2, 3] :: bytes) > zb_maxEntryBytes (za_budget lying_archive)"
  by (simp add: lying_archive_def entry_allowed_def traverses_def drive_letter_def text_includes_def zip_read_def read_member_def
      local_record_def LOCAL_SIGNATURE_def le16_def le32_def ascii_def u32_value u16_value subarray_def and_then_def nth_append)

theorem member_size_is_bounded_witness:
  "keeps_ceiling (\<lambda>_ _. Inr []) \<and> zip_read (\<lambda>_ _. Inr []) lying_archive [98] = Inr None \<and> \<not> zip_has lying_archive [98]"
proof -
  have k: "keeps_ceiling (\<lambda>_ _. Inr [])" by (simp add: keeps_ceiling_def)
  have r: "zip_read (\<lambda>_ _. Inr []) lying_archive [98] = Inr None" by (simp add: zip_read_def lying_archive_def)
  show ?thesis using k r member_size_is_bounded [OF k, of lying_archive "[98]"] by simp
qed

text \<open>Different names of other encodings can be read as the same one.\<close>

theorem names_may_collide:
  "utf8 [0x80] = [0xFFFD]" "utf8 [0x81] = [0xFFFD]" "utf8 [0xC3, 0xA9] = [0xE9]" "utf8 [0xE2, 0x82] = [0xFFFD]"
  by (simp_all add: utf8_def)

end
