(* ===== verification/Plan_Validator.thy ===== *)
theory Plan_Validator
  imports Audit_Log Tabular
begin

text \<open>
  \<open>contexts/ai-intelligence/internal/plan.ts\<close> (the plan and its vocabularies) and \<open>app/assistant/plan-validator.ts\<close>: what a
  plan for an answer has to satisfy before any tool runs, and how a plan a model proposes is read. A plan holds texts, since
  what a model returns need not be in the vocabularies. \<open>JSON.parse\<close> is a parameter; text is one-byte characters.
\<close>

section \<open>Vocabularies\<close>

definition ALL_SHAPES :: "string list" where
  "ALL_SHAPES = [''population.list'', ''population.rank'', ''population.compare'', ''population.aggregate'',
     ''population.change'', ''population.concentration'', ''population.reportedGreenRisk'',
     ''population.emergingRisk'', ''population.recovering'',
     ''project.health'', ''project.margin'', ''project.burn'', ''project.scope'', ''project.confidence'',
     ''project.forwardRisk'', ''project.recovery'', ''project.milestones'', ''project.acceptanceEvidence'',
     ''project.compare'',
     ''evidence.lookup'', ''metric.definition'', ''knowledge.document'', ''source.provenance'', ''source.dataQuality'']"

definition PROJECT_SHAPES :: "string list" where
  "PROJECT_SHAPES = [''project.health'', ''project.margin'', ''project.burn'', ''project.scope'', ''project.confidence'',
     ''project.forwardRisk'', ''project.recovery'', ''project.milestones'', ''project.acceptanceEvidence'',
     ''evidence.lookup'', ''knowledge.document'']"

definition requiresProject :: "string \<Rightarrow> bool" where
  "requiresProject shape \<longleftrightarrow> shape \<in> set PROJECT_SHAPES"

definition ALL_BANDS :: "string list" where "ALL_BANDS = [''GREEN'', ''AMBER'', ''RED'']"

definition ALL_TRAJECTORIES :: "string list" where
  "ALL_TRAJECTORIES = [''IMPROVING'', ''STABLE'', ''DETERIORATING'', ''RAPIDLY_DETERIORATING'']"

definition ALL_DRIVERS :: "string list" where
  "ALL_DRIVERS = [''margin-erosion'', ''scope-leakage'', ''burn-ahead-of-progress'', ''behind-plan'', ''deteriorating'',
     ''reporting-divergence'', ''emerging-risk'']"

definition ALL_FINDINGS :: "string list" where
  "ALL_FINDINGS = [''reportedGreenRisk'', ''emergingRisk'', ''recovering'']"

definition ALL_METRICS :: "string list" where
  "ALL_METRICS = [''tcv'', ''soldGm'', ''forecastGm'', ''riskAdjustedGm'', ''gmErosion'', ''gmAtRisk'', ''eac'', ''etc'',
     ''scopeExposure'', ''pendingChange'', ''milestoneStatus'', ''qualityExposure'']"

definition ALL_TIMES :: "string list" where "ALL_TIMES = [''current'', ''previousPeriod'', ''day30'', ''day60'']"

definition ALL_COMPARISONS :: "string list" where
  "ALL_COMPARISONS = [''none'', ''soldVsCurrent'', ''currentVsPrior'', ''currentVsOutlook'']"

definition ALL_SORTS :: "string list" where
  "ALL_SORTS = [''economicExposure'', ''gmErosion'', ''trajectorySeverity'', ''milestoneProximity'', ''interventionPriority'',
     ''recovery'', ''contractValue'', ''name'']"

definition ALL_GROUPS :: "string list" where
  "ALL_GROUPS = [''region'', ''industry'', ''account'', ''deliveryGroup'', ''driver'', ''customer'']"

definition LIMIT_MIN :: int where "LIMIT_MIN = 1"
definition LIMIT_MAX :: int where "LIMIT_MAX = 50"
definition DEFAULT_LIMIT :: int where "DEFAULT_LIMIT = 10"

section \<open>Plans\<close>

record threshold_condition =
  tc_metric :: string
  tc_operator :: string
  tc_value :: string
  tc_unit :: string

record plan_filters =
  pf_regions :: "string list"
  pf_industries :: "string list"
  pf_accounts :: "string list"
  pf_customers :: "string list"
  pf_deliveryGroups :: "string list"
  pf_systemRag :: "string list"
  pf_reportedRag :: "string list"
  pf_trajectory :: "string list"
  pf_outlook30 :: "string list"
  pf_outlook60 :: "string list"
  pf_drivers :: "string list"
  pf_findings :: "string list"
  pf_projectIds :: "string list"
  pf_thresholds :: "threshold_condition list"

definition EMPTY_FILTERS :: plan_filters where
  "EMPTY_FILTERS = \<lparr>pf_regions = [], pf_industries = [], pf_accounts = [], pf_customers = [], pf_deliveryGroups = [],
     pf_systemRag = [], pf_reportedRag = [], pf_trajectory = [], pf_outlook30 = [], pf_outlook60 = [],
     pf_drivers = [], pf_findings = [], pf_projectIds = [], pf_thresholds = []\<rparr>"

text \<open>A number is whole, or it is none that counts.\<close>

datatype js_number = Whole int | NotWhole

datatype plan_origin = DETERMINISTIC | MODEL_PROPOSED | CONVERSATION_REFINEMENT

record query_plan =
  qp_shape :: string
  qp_scope :: string
  qp_filters :: plan_filters
  qp_metrics :: "string list"
  qp_time :: string
  qp_comparison :: string
  qp_sort :: string
  qp_limit :: js_number
  qp_groupBy :: "string option"
  qp_projectId :: "string option"
  qp_metricId :: "string option"
  qp_evidenceQuery :: "string option"
  qp_origin :: plan_origin

definition emptyPlan :: "string \<Rightarrow> query_plan" where
  "emptyPlan shape = \<lparr>qp_shape = shape, qp_scope = ''portfolio'', qp_filters = EMPTY_FILTERS, qp_metrics = [], qp_time = ''current'',
     qp_comparison = ''none'', qp_sort = ''interventionPriority'', qp_limit = Whole DEFAULT_LIMIT, qp_groupBy = None,
     qp_projectId = None, qp_metricId = None, qp_evidenceQuery = None, qp_origin = DETERMINISTIC\<rparr>"

datatype plan_rejection_code =
    UNKNOWN_SHAPE | UNKNOWN_METRIC | UNKNOWN_FILTER_VALUE | UNKNOWN_SORT | UNKNOWN_TIME | UNKNOWN_COMPARISON | UNKNOWN_GROUP
  | LIMIT_OUT_OF_RANGE | PROJECT_REQUIRED | PROJECT_NOT_AUTHORISED | SCOPE_EXCEEDS_CALLER | MALFORMED_METRIC_ID
  | MALFORMED_THRESHOLD | MUTATION_NOT_SUPPORTED | EXECUTABLE_CONTENT | TOO_MANY_FILTER_VALUES | EVIDENCE_QUERY_TOO_LONG

record plan_rejection =
  pj_code :: plan_rejection_code
  pj_field :: string
  pj_detail :: string

record planner_vocabulary =
  pv_regions :: "string list"
  pv_industries :: "string list"
  pv_accounts :: "string list"
  pv_customers :: "string list"
  pv_deliveryGroups :: "string list"
  pv_projects :: "(string \<times> string) list"

record validation_context =
  vc_vocabulary :: planner_vocabulary
  vc_authorisedProjectIds :: "string list"
  vc_knownMetricIds :: "string list"

section \<open>Patterns\<close>

text \<open>
  \<open>EXECUTABLE_SHAPE\<close>, alternative by alternative over positions of the text in lower case: \<open>word_after\<close> gives the position
  behind a word, \<open>boundary\<close> is \<open>\b\<close>, \<open>spaces\<close> the positions \<open>\s*\<close> may reach.
\<close>

definition word_char :: "char option \<Rightarrow> bool" where
  "word_char c \<longleftrightarrow> (case c of None \<Rightarrow> False | Some d \<Rightarrow> ascii_letter d \<or> is_digit d \<or> d = CHR ''_'')"

definition char_at :: "string \<Rightarrow> nat \<Rightarrow> char option" where
  "char_at s i = (if i < length s then Some (s ! i) else None)"

definition boundary :: "string \<Rightarrow> nat \<Rightarrow> bool" where
  "boundary s i \<longleftrightarrow> word_char (if i = 0 then None else char_at s (i - 1)) \<noteq> word_char (char_at s i)"

definition word_after :: "string \<Rightarrow> string \<Rightarrow> nat \<Rightarrow> nat option" where
  "word_after w s i = (if take (length w) (drop i s) = w then Some (i + length w) else None)"

definition spaces :: "string \<Rightarrow> nat \<Rightarrow> nat list" where
  "spaces s i = [i..<Suc (i + length (takeWhile is_white (drop i s)))]"

definition followed :: "nat option \<Rightarrow> (nat \<Rightarrow> bool) \<Rightarrow> bool" where
  "followed p rest \<longleftrightarrow> (case p of None \<Rightarrow> False | Some i \<Rightarrow> rest i)"

definition spaced_words :: "string \<Rightarrow> string \<Rightarrow> string \<Rightarrow> nat \<Rightarrow> bool" where
  "spaced_words a b s i \<longleftrightarrow> boundary s i \<and> followed (word_after a s i) (\<lambda>j.
     list_ex (\<lambda>k. followed (word_after b s k) (boundary s)) (tl (spaces s j)))"

definition call_of :: "string \<Rightarrow> string \<Rightarrow> nat \<Rightarrow> bool" where
  "call_of f s i \<longleftrightarrow> boundary s i \<and> followed (word_after f s i) (\<lambda>j. list_ex (\<lambda>k. char_at s k = Some (CHR ''('')) (spaces s j))"

definition select_from :: "string \<Rightarrow> nat \<Rightarrow> bool" where
  "select_from s i \<longleftrightarrow> boundary s i \<and> followed (word_after ''select'' s i) (\<lambda>j.
     boundary s j \<and> list_ex (\<lambda>k. j + k \<le> length s \<and> boundary s (j + k)
       \<and> followed (word_after ''from'' s (j + k)) (boundary s)) [0..<41])"

definition executable_at :: "string \<Rightarrow> nat \<Rightarrow> bool" where
  "executable_at s i \<longleftrightarrow>
     select_from s i \<or> spaced_words ''drop'' ''table'' s i \<or> spaced_words ''union'' ''select'' s i
     \<or> followed (word_after ''--'' s i) (\<lambda>j. case char_at s j of None \<Rightarrow> False | Some c \<Rightarrow> is_white c)
     \<or> followed (word_after '';'' s i) (\<lambda>j. list_ex (\<lambda>k. word_after ''delete'' s k \<noteq> None) (spaces s j))
     \<or> word_after ''<script'' s i \<noteq> None \<or> word_after ''javascript:'' s i \<noteq> None \<or> word_after ''${'' s i \<noteq> None
     \<or> call_of ''function'' s i \<or> word_after ''=>'' s i \<noteq> None \<or> call_of ''eval'' s i"

definition EXECUTABLE_SHAPE :: "string \<Rightarrow> bool" where
  "EXECUTABLE_SHAPE text \<longleftrightarrow> list_ex (executable_at (map ascii_lower text)) [0..<Suc (length text)]"

definition threshold_figure :: "string \<Rightarrow> bool" where
  "threshold_figure v \<longleftrightarrow>
     (let s = (if take 1 v = ''-'' then drop 1 v else v); w = takeWhile is_digit s; rest = dropWhile is_digit s
      in 1 \<le> length w \<and> length w \<le> 15
         \<and> (rest = [] \<or> (hd rest = CHR ''.'' \<and> list_all is_digit (tl rest) \<and> 1 \<le> length (tl rest) \<and> length (tl rest) \<le> 6)))"

definition upper_char :: "char \<Rightarrow> bool" where
  "upper_char c \<longleftrightarrow> (let n = of_char c :: nat in 65 \<le> n \<and> n \<le> 90)"

definition metric_id_form :: "string \<Rightarrow> bool" where
  "metric_id_form m \<longleftrightarrow>
     (let body = drop 4 m; area = takeWhile upper_char body; rest = dropWhile upper_char body
      in take 4 m = ''MET-'' \<and> 2 \<le> length area \<and> length area \<le> 5
         \<and> take 1 rest = ''-'' \<and> length (drop 1 rest) = 3 \<and> list_all is_digit (drop 1 rest))"

section \<open>Validation\<close>

definition MAX_FILTER_VALUES :: nat where "MAX_FILTER_VALUES = 12"
definition MAX_EVIDENCE_QUERY_CHARS :: nat where "MAX_EVIDENCE_QUERY_CHARS = 500"

definition rejection :: "plan_rejection_code \<Rightarrow> string \<Rightarrow> string \<Rightarrow> plan_rejection" where
  "rejection code field detail = \<lparr>pj_code = code, pj_field = field, pj_detail = detail\<rparr>"

definition reject_if :: "bool \<Rightarrow> plan_rejection_code \<Rightarrow> string \<Rightarrow> string \<Rightarrow> plan_rejection list" where
  "reject_if c code field detail = (if c then [rejection code field detail] else [])"

definition checkVocabulary :: "string \<Rightarrow> string list \<Rightarrow> string list \<Rightarrow> plan_rejection list" where
  "checkVocabulary field xs governed =
     (if length governed = 0 then []
      else concat (map (\<lambda>v. reject_if (v \<notin> set governed) UNKNOWN_FILTER_VALUE (''filters.'' @ field)
        (''\"'' @ v @ ''\" is not a value this portfolio holds for '' @ field @ ''.'')) xs))"

definition checkEnum :: "string \<Rightarrow> string list \<Rightarrow> string list \<Rightarrow> plan_rejection list" where
  "checkEnum field xs permitted =
     concat (map (\<lambda>v. reject_if (v \<notin> set permitted) UNKNOWN_FILTER_VALUE (''filters.'' @ field)
       (''\"'' @ v @ ''\" is not one of '' @ join_with '', '' permitted @ ''.'')) xs)"

definition isSafeInteger :: "js_number \<Rightarrow> bool" where
  "isSafeInteger n \<longleftrightarrow> (case n of NotWhole \<Rightarrow> False | Whole i \<Rightarrow> \<bar>i\<bar> \<le> 9007199254740991)"

definition limit_in_range :: "js_number \<Rightarrow> bool" where
  "limit_in_range n \<longleftrightarrow> isSafeInteger n \<and> (case n of NotWhole \<Rightarrow> False | Whole i \<Rightarrow> \<not> i < LIMIT_MIN \<and> \<not> i > LIMIT_MAX)"

definition check_threshold :: "threshold_condition \<Rightarrow> plan_rejection list" where
  "check_threshold t =
     (if tc_metric t \<notin> set ALL_METRICS
      then [rejection MALFORMED_THRESHOLD ''filters.thresholds'' (''A threshold names \"'' @ tc_metric t @ ''\", which is not a governed metric.'')]
      else reject_if (tc_operator t \<noteq> ''gte'' \<and> tc_operator t \<noteq> ''lte'') MALFORMED_THRESHOLD ''filters.thresholds''
             ''A threshold operator must be gte or lte.''
           @ reject_if (\<not> threshold_figure (tc_value t)) MALFORMED_THRESHOLD ''filters.thresholds''
             ''A threshold value must be a plain decimal figure. Expressions are not accepted.'')"

definition check_selectors :: "query_plan \<Rightarrow> plan_rejection list" where
  "check_selectors plan =
     reject_if (qp_shape plan \<notin> set ALL_SHAPES) UNKNOWN_SHAPE ''shape'' (''\"'' @ qp_shape plan @ ''\" is not a question this product answers.'')
     @ concat (map (\<lambda>m. reject_if (m \<notin> set ALL_METRICS) UNKNOWN_METRIC ''metrics''
         (''\"'' @ m @ ''\" is not a governed metric. A plan selects metrics the catalogue defines; '' @ ''it cannot introduce one.'')) (qp_metrics plan))
     @ reject_if (qp_sort plan \<notin> set ALL_SORTS) UNKNOWN_SORT ''sort'' (''\"'' @ qp_sort plan @ ''\" is not an ordering this product supports.'')
     @ reject_if (qp_time plan \<notin> set ALL_TIMES) UNKNOWN_TIME ''time'' (''\"'' @ qp_time plan @ ''\" is not a governed period.'')
     @ reject_if (qp_comparison plan \<notin> set ALL_COMPARISONS) UNKNOWN_COMPARISON ''comparison''
         (''\"'' @ qp_comparison plan @ ''\" is not a supported comparison.'')
     @ (case qp_groupBy plan of None \<Rightarrow> [] | Some g \<Rightarrow>
         reject_if (g \<notin> set ALL_GROUPS) UNKNOWN_GROUP ''groupBy'' (''\"'' @ g @ ''\" is not a dimension this product groups by.''))
     @ reject_if (\<not> limit_in_range (qp_limit plan)) LIMIT_OUT_OF_RANGE ''limit''
         (''A result limit must be between '' @ show_int LIMIT_MIN @ '' and '' @ show_int LIMIT_MAX @ ''. An out-of-range ''
          @ ''limit is rejected rather than clamped, because a clamped answer looks like a complete one.'')"

definition check_filters :: "plan_filters \<Rightarrow> planner_vocabulary \<Rightarrow> plan_rejection list" where
  "check_filters f v =
     checkVocabulary ''regions'' (pf_regions f) (pv_regions v)
     @ checkVocabulary ''industries'' (pf_industries f) (pv_industries v)
     @ checkVocabulary ''accounts'' (pf_accounts f) (pv_accounts v)
     @ checkVocabulary ''customers'' (pf_customers f) (pv_customers v)
     @ checkVocabulary ''deliveryGroups'' (pf_deliveryGroups f) (pv_deliveryGroups v)
     @ checkEnum ''systemRag'' (pf_systemRag f) ALL_BANDS
     @ checkEnum ''reportedRag'' (pf_reportedRag f) ALL_BANDS
     @ checkEnum ''outlook30'' (pf_outlook30 f) ALL_BANDS
     @ checkEnum ''outlook60'' (pf_outlook60 f) ALL_BANDS
     @ checkEnum ''trajectory'' (pf_trajectory f) ALL_TRAJECTORIES
     @ checkEnum ''drivers'' (pf_drivers f) ALL_DRIVERS
     @ checkEnum ''findings'' (pf_findings f) ALL_FINDINGS
     @ concat (map check_threshold (pf_thresholds f))"

definition check_scope :: "query_plan \<Rightarrow> string list \<Rightarrow> plan_rejection list" where
  "check_scope plan authorised =
     reject_if (requiresProject (qp_shape plan) \<and> qp_projectId plan = None) PROJECT_REQUIRED ''projectId''
       ''That question is about one project, and no project was resolved.''
     @ (case qp_projectId plan of None \<Rightarrow> [] | Some p \<Rightarrow>
         reject_if (p \<notin> set authorised) PROJECT_NOT_AUTHORISED ''projectId''
           ''There is nothing to show for that request in your authorised scope.'')
     @ (let unauthorised = filter (\<lambda>i. i \<notin> set authorised) (pf_projectIds (qp_filters plan)) in
         reject_if (length unauthorised > 0) SCOPE_EXCEEDS_CALLER ''filters.projectIds''
           (''The plan named projects outside the resolved scope. A plan may narrow the caller's scope and ''
            @ ''can never widen it.''))"

definition check_metric_id :: "string option \<Rightarrow> string list \<Rightarrow> plan_rejection list" where
  "check_metric_id metricId known =
     (case metricId of None \<Rightarrow> [] | Some m \<Rightarrow>
        reject_if (\<not> metric_id_form m) MALFORMED_METRIC_ID ''metricId'' ''A metric identifier must match the catalogue format.''
        @ reject_if (length known > 0 \<and> m \<notin> set known) UNKNOWN_METRIC ''metricId'' (m @ '' is not defined in the metric catalogue.''))"

definition free_texts :: "plan_filters \<Rightarrow> string list" where
  "free_texts f = pf_regions f @ pf_industries f @ pf_accounts f @ pf_customers f @ pf_deliveryGroups f"

definition bounded_fields :: "plan_filters \<Rightarrow> (string \<times> string list) list" where
  "bounded_fields f = [(''regions'', pf_regions f), (''industries'', pf_industries f), (''accounts'', pf_accounts f),
     (''customers'', pf_customers f), (''deliveryGroups'', pf_deliveryGroups f), (''projectIds'', pf_projectIds f)]"

definition check_content :: "query_plan \<Rightarrow> plan_rejection list" where
  "check_content plan =
     (case qp_evidenceQuery plan of None \<Rightarrow> [] | Some q \<Rightarrow>
        reject_if (length q > MAX_EVIDENCE_QUERY_CHARS) EVIDENCE_QUERY_TOO_LONG ''evidenceQuery'' ''The evidence query exceeds the retrieval bound.''
        @ reject_if (EXECUTABLE_SHAPE q) EXECUTABLE_CONTENT ''evidenceQuery''
            ''The evidence query contains query- or code-shaped content. Retrieval takes words, not code.'')
     @ concat (map (\<lambda>v. reject_if (EXECUTABLE_SHAPE v) EXECUTABLE_CONTENT ''filters''
         ''A filter value contains query- or code-shaped content.'') (free_texts (qp_filters plan)))
     @ concat (map (\<lambda>(field, xs). reject_if (length xs > MAX_FILTER_VALUES) TOO_MANY_FILTER_VALUES (''filters.'' @ field)
         (''A filter may name at most '' @ show_nat MAX_FILTER_VALUES @ '' values.'')) (bounded_fields (qp_filters plan)))"

definition validatePlan :: "query_plan \<Rightarrow> validation_context \<Rightarrow> plan_rejection list + query_plan" where
  "validatePlan plan ctx =
     (let rejections = check_selectors plan @ check_filters (qp_filters plan) (vc_vocabulary ctx)
            @ check_scope plan (vc_authorisedProjectIds ctx) @ check_metric_id (qp_metricId plan) (vc_knownMetricIds ctx)
            @ check_content plan
      in if length rejections = 0 then Inr plan else Inl rejections)"

section \<open>Plans a model proposes\<close>

definition json_object :: "json \<Rightarrow> (string \<times> json) list option" where
  "json_object j = (case j of JObj members \<Rightarrow> Some members | JArr _ \<Rightarrow> Some [] | _ \<Rightarrow> None)"

definition json_field :: "(string \<times> json) list \<Rightarrow> string \<Rightarrow> json" where
  "json_field members k = nullish (js_get members k) JUndefined"

definition json_text :: "json \<Rightarrow> string option" where
  "json_text j = (case j of JStr s \<Rightarrow> Some s | _ \<Rightarrow> None)"

definition pickStrings :: "json \<Rightarrow> string list" where
  "pickStrings j = (case j of JArr xs \<Rightarrow> take MAX_FILTER_VALUES (List.map_filter json_text xs) | _ \<Rightarrow> [])"

definition pickEnum :: "json \<Rightarrow> string list \<Rightarrow> string option" where
  "pickEnum j permitted = (case json_text j of None \<Rightarrow> None | Some s \<Rightarrow> if s \<in> set permitted then Some s else None)"

definition pickEnums :: "json \<Rightarrow> string list \<Rightarrow> string list" where
  "pickEnums j permitted = (case j of JArr xs \<Rightarrow> List.map_filter (\<lambda>x. pickEnum x permitted) xs | _ \<Rightarrow> [])"

definition ascii_upper :: "char \<Rightarrow> char" where
  "ascii_upper c = (let n = of_char c :: nat in if 97 \<le> n \<and> n \<le> 122 then char_of (n - 32) else c)"

definition proposed_limit :: "json \<Rightarrow> js_number \<Rightarrow> js_number" where
  "proposed_limit j base = (case j of JInt i \<Rightarrow> if isSafeInteger (Whole i) then Whole i else base | _ \<Rightarrow> base)"

definition proposed_filters :: "json \<Rightarrow> plan_filters \<Rightarrow> plan_filters" where
  "proposed_filters j base =
     (let filtersRaw = nullish (json_object j) [] in
      \<lparr>pf_regions = pickStrings (json_field filtersRaw ''regions''),
       pf_industries = pickStrings (json_field filtersRaw ''industries''),
       pf_accounts = pickStrings (json_field filtersRaw ''accounts''),
       pf_customers = pickStrings (json_field filtersRaw ''customers''),
       pf_deliveryGroups = pickStrings (json_field filtersRaw ''deliveryGroups''),
       pf_systemRag = pickEnums (json_field filtersRaw ''systemRag'') ALL_BANDS,
       pf_reportedRag = pickEnums (json_field filtersRaw ''reportedRag'') ALL_BANDS,
       pf_trajectory = pickEnums (json_field filtersRaw ''trajectory'') ALL_TRAJECTORIES,
       pf_outlook30 = pickEnums (json_field filtersRaw ''outlook30'') ALL_BANDS,
       pf_outlook60 = pickEnums (json_field filtersRaw ''outlook60'') ALL_BANDS,
       pf_drivers = pickEnums (json_field filtersRaw ''drivers'') ALL_DRIVERS,
       pf_findings = pickEnums (json_field filtersRaw ''findings'') ALL_FINDINGS,
       pf_projectIds = pickStrings (json_field filtersRaw ''projectIds''),
       pf_thresholds = pf_thresholds base\<rparr>)"

text \<open>The text between the first opening and the last closing brace.\<close>

definition braced :: "string \<Rightarrow> string option" where
  "braced raw =
     (let from_open = dropWhile (\<lambda>c. c \<noteq> CHR ''{'') raw; reversed = dropWhile (\<lambda>c. c \<noteq> CHR ''}'') (rev raw);
          jsonStart = length raw - length from_open; jsonEnd = length reversed - 1
      in if from_open = [] \<or> reversed = [] \<or> jsonEnd \<le> jsonStart then None
         else Some (take (Suc jsonEnd - jsonStart) (drop jsonStart raw)))"

definition read_object :: "(string \<times> json) list \<Rightarrow> query_plan \<Rightarrow> query_plan option" where
  "read_object p base =
     (case pickEnum (json_field p ''shape'') ALL_SHAPES of
        None \<Rightarrow> None
      | Some shape \<Rightarrow>
          let projectId = json_text (json_field p ''projectId'') in
          Some (base\<lparr>qp_shape := shape,
            qp_scope := (if projectId \<noteq> None then ''project'' else qp_scope base),
            qp_filters := proposed_filters (json_field p ''filters'') (qp_filters base),
            qp_metrics := pickEnums (json_field p ''metrics'') ALL_METRICS,
            qp_time := nullish (pickEnum (json_field p ''time'') ALL_TIMES) (qp_time base),
            qp_comparison := nullish (pickEnum (json_field p ''comparison'') ALL_COMPARISONS) (qp_comparison base),
            qp_sort := nullish (pickEnum (json_field p ''sort'') ALL_SORTS) (qp_sort base),
            qp_limit := proposed_limit (json_field p ''limit'') (qp_limit base),
            qp_groupBy := pickEnum (json_field p ''groupBy'') ALL_GROUPS,
            qp_projectId := (case projectId of Some s \<Rightarrow> Some (map ascii_lower s) | None \<Rightarrow> qp_projectId base),
            qp_metricId := (case json_text (json_field p ''metricId'') of Some s \<Rightarrow> Some (map ascii_upper s) | None \<Rightarrow> qp_metricId base),
            qp_evidenceQuery := (case json_text (json_field p ''evidenceQuery'') of
                Some s \<Rightarrow> Some (take MAX_EVIDENCE_QUERY_CHARS s) | None \<Rightarrow> qp_evidenceQuery base),
            qp_origin := MODEL_PROPOSED\<rparr>))"

definition readProposedPlan :: "(string \<Rightarrow> json option) \<Rightarrow> string \<Rightarrow> query_plan \<Rightarrow> query_plan option" where
  "readProposedPlan parse raw base =
     (case braced raw of
        None \<Rightarrow> None
      | Some text \<Rightarrow>
          (case parse text of
             None \<Rightarrow> None
           | Some parsed \<Rightarrow>
               (case json_object parsed of None \<Rightarrow> None | Some p \<Rightarrow> read_object p base)))"

section \<open>What an accepted plan satisfies\<close>

definition in_vocabulary :: "string list \<Rightarrow> string list \<Rightarrow> bool" where
  "in_vocabulary governed xs \<longleftrightarrow> governed = [] \<or> set xs \<subseteq> set governed"

definition sound_threshold :: "threshold_condition \<Rightarrow> bool" where
  "sound_threshold t \<longleftrightarrow> tc_metric t \<in> set ALL_METRICS \<and> tc_operator t \<in> {''gte'', ''lte''} \<and> threshold_figure (tc_value t)"

definition sound_filters :: "plan_filters \<Rightarrow> planner_vocabulary \<Rightarrow> bool" where
  "sound_filters f v \<longleftrightarrow>
     in_vocabulary (pv_regions v) (pf_regions f) \<and> in_vocabulary (pv_industries v) (pf_industries f)
     \<and> in_vocabulary (pv_accounts v) (pf_accounts f) \<and> in_vocabulary (pv_customers v) (pf_customers f)
     \<and> in_vocabulary (pv_deliveryGroups v) (pf_deliveryGroups f)
     \<and> set (pf_systemRag f) \<union> set (pf_reportedRag f) \<union> set (pf_outlook30 f) \<union> set (pf_outlook60 f) \<subseteq> set ALL_BANDS
     \<and> set (pf_trajectory f) \<subseteq> set ALL_TRAJECTORIES \<and> set (pf_drivers f) \<subseteq> set ALL_DRIVERS \<and> set (pf_findings f) \<subseteq> set ALL_FINDINGS
     \<and> list_all sound_threshold (pf_thresholds f)"

definition sound_selectors :: "query_plan \<Rightarrow> bool" where
  "sound_selectors plan \<longleftrightarrow>
     qp_shape plan \<in> set ALL_SHAPES \<and> set (qp_metrics plan) \<subseteq> set ALL_METRICS \<and> qp_sort plan \<in> set ALL_SORTS
     \<and> qp_time plan \<in> set ALL_TIMES \<and> qp_comparison plan \<in> set ALL_COMPARISONS
     \<and> set_option (qp_groupBy plan) \<subseteq> set ALL_GROUPS
     \<and> (\<exists>i. qp_limit plan = Whole i \<and> 1 \<le> i \<and> i \<le> 50)"

definition within_scope :: "query_plan \<Rightarrow> string list \<Rightarrow> bool" where
  "within_scope plan authorised \<longleftrightarrow>
     set_option (qp_projectId plan) \<union> set (pf_projectIds (qp_filters plan)) \<subseteq> set authorised
     \<and> (if qp_shape plan \<in> set PROJECT_SHAPES then qp_projectId plan \<noteq> None else True)"

definition sound_metric_id :: "string option \<Rightarrow> string list \<Rightarrow> bool" where
  "sound_metric_id metricId known \<longleftrightarrow> (case metricId of None \<Rightarrow> True | Some m \<Rightarrow> metric_id_form m \<and> (known = [] \<or> m \<in> set known))"

definition sound_content :: "query_plan \<Rightarrow> bool" where
  "sound_content plan \<longleftrightarrow>
     (case qp_evidenceQuery plan of None \<Rightarrow> True | Some q \<Rightarrow> length q \<le> 500 \<and> \<not> EXECUTABLE_SHAPE q)
     \<and> (let f = qp_filters plan in
         list_all (\<lambda>v. \<not> EXECUTABLE_SHAPE v) (pf_regions f @ pf_industries f @ pf_accounts f @ pf_customers f @ pf_deliveryGroups f)
         \<and> list_all (\<lambda>xs. length xs \<le> 12) [pf_regions f, pf_industries f, pf_accounts f, pf_customers f, pf_deliveryGroups f, pf_projectIds f])"

lemma reject_if_Nil: "reject_if c code field detail = [] \<longleftrightarrow> \<not> c"
  by (simp add: reject_if_def)

lemma checkVocabulary_Nil: "checkVocabulary field xs governed = [] \<longleftrightarrow> in_vocabulary governed xs"
  by (auto simp: checkVocabulary_def in_vocabulary_def reject_if_Nil)

lemma checkEnum_Nil: "checkEnum field xs permitted = [] \<longleftrightarrow> set xs \<subseteq> set permitted"
  by (auto simp: checkEnum_def reject_if_Nil)

lemma check_threshold_Nil: "check_threshold t = [] \<longleftrightarrow> sound_threshold t"
  by (auto simp: check_threshold_def sound_threshold_def reject_if_Nil)

lemma check_filters_Nil: "check_filters f v = [] \<longleftrightarrow> sound_filters f v"
  by (auto simp: check_filters_def sound_filters_def checkVocabulary_Nil checkEnum_Nil check_threshold_Nil list_all_iff)

lemma limit_in_range_iff: "limit_in_range n \<longleftrightarrow> (\<exists>i. n = Whole i \<and> 1 \<le> i \<and> i \<le> 50)"
  by (cases n) (auto simp: limit_in_range_def isSafeInteger_def LIMIT_MIN_def LIMIT_MAX_def)

lemma check_selectors_Nil: "check_selectors plan = [] \<longleftrightarrow> sound_selectors plan"
  by (auto simp: check_selectors_def sound_selectors_def reject_if_Nil limit_in_range_iff split: option.split)

lemma check_scope_Nil: "check_scope plan authorised = [] \<longleftrightarrow> within_scope plan authorised"
  by (auto simp: check_scope_def within_scope_def reject_if_Nil requiresProject_def filter_empty_conv split: option.split)

lemma check_metric_id_Nil: "check_metric_id metricId known = [] \<longleftrightarrow> sound_metric_id metricId known"
  by (auto simp: check_metric_id_def sound_metric_id_def reject_if_Nil split: option.split)

lemma check_content_Nil: "check_content plan = [] \<longleftrightarrow> sound_content plan"
  by (auto simp: check_content_def sound_content_def reject_if_Nil free_texts_def bounded_fields_def Let_def list_all_iff
      MAX_FILTER_VALUES_def MAX_EVIDENCE_QUERY_CHARS_def not_less split: option.split)

lemmas check_Nil = check_filters_Nil check_selectors_Nil check_scope_Nil check_metric_id_Nil check_content_Nil

text \<open>C34: A plan is accepted, and accepted unchanged, exactly when all of this holds; otherwise there is a reason. Its shape,
  metrics, sort, period, comparison and grouping are in their vocabularies, and its limit is a whole number from 1 to 50.
  Every region, industry, account, customer and delivery group it filters on is one the portfolio holds, where a governed
  list of them is given at all (an empty list checks nothing); every band, trajectory, driver and finding is in its
  vocabulary; every threshold is on a governed metric with \<open>gte\<close> or \<open>lte\<close> and a plain figure. A shape about one project names
  one; the projects named are in the authorised set. A metric identifier has the form of the catalogue and, where known
  identifiers are given, is one of them. The evidence query is at most 500 characters, neither it nor a free-text filter looks like
  code, and no free-text filter nor the project filter has more than twelve values.\<close>

theorem plan_accepted_iff_sound:
  "case validatePlan plan ctx of
     Inr accepted \<Rightarrow> accepted = plan
       \<and> sound_selectors plan \<and> sound_filters (qp_filters plan) (vc_vocabulary ctx) \<and> within_scope plan (vc_authorisedProjectIds ctx)
       \<and> sound_metric_id (qp_metricId plan) (vc_knownMetricIds ctx) \<and> sound_content plan
   | Inl rejections \<Rightarrow> rejections \<noteq> []
       \<and> \<not> (sound_selectors plan \<and> sound_filters (qp_filters plan) (vc_vocabulary ctx) \<and> within_scope plan (vc_authorisedProjectIds ctx)
            \<and> sound_metric_id (qp_metricId plan) (vc_knownMetricIds ctx) \<and> sound_content plan)"
  unfolding validatePlan_def Let_def length_0_conv by (simp add: check_Nil)

lemma pickEnum_in: "pickEnum j permitted = Some s \<Longrightarrow> s \<in> set permitted"
  by (auto simp: pickEnum_def split: option.splits if_splits)

lemma validate_scope: "case validatePlan plan ctx of Inl _ \<Rightarrow> True
    | Inr accepted \<Rightarrow> set_option (qp_projectId accepted) \<union> set (pf_projectIds (qp_filters accepted)) \<subseteq> set (vc_authorisedProjectIds ctx)"
  by (simp add: validatePlan_def Let_def check_Nil within_scope_def)

text \<open>C35: Whatever a model returns, a plan read from it and accepted names no project outside the caller's scope, carries only the
  thresholds the deterministic reading produced, and says that a model proposed it.\<close>

theorem proposed_plan_stays_in_scope:
  "case readProposedPlan parse raw base of
     None \<Rightarrow> True
   | Some plan \<Rightarrow>
       pf_thresholds (qp_filters plan) = pf_thresholds (qp_filters base) \<and> qp_origin plan = MODEL_PROPOSED
       \<and> qp_shape plan \<in> set ALL_SHAPES
       \<and> (case validatePlan plan ctx of
            Inl _ \<Rightarrow> True
          | Inr accepted \<Rightarrow> set_option (qp_projectId accepted) \<union> set (pf_projectIds (qp_filters accepted)) \<subseteq> set (vc_authorisedProjectIds ctx))"
proof (cases "readProposedPlan parse raw base")
  case (Some plan)
  then obtain p where p: "read_object p base = Some plan" by (auto simp: readProposedPlan_def split: option.splits)
  then obtain shape where shape: "pickEnum (json_field p ''shape'') ALL_SHAPES = Some shape"
    by (cases "pickEnum (json_field p ''shape'') ALL_SHAPES") (simp_all add: read_object_def)
  have "pf_thresholds (qp_filters plan) = pf_thresholds (qp_filters base) \<and> qp_origin plan = MODEL_PROPOSED \<and> qp_shape plan = shape"
    using p by (simp only: read_object_def shape option.case Let_def option.inject) (hypsubst, simp add: proposed_filters_def Let_def)
  moreover have "shape \<in> set ALL_SHAPES" using pickEnum_in [OF shape] .
  ultimately show ?thesis
    using validate_scope [of ctx plan] by (simp add: Some split: sum.split)
qed simp

section \<open>What reading drops\<close>

definition unknown_band :: json where
  "unknown_band = JObj [(''shape'', JStr ''population.list''), (''filters'', JObj [(''systemRag'', JArr [JStr ''PURPLE''])])]"

text \<open>A proposal filtered on a band that does not exist is read as an unfiltered one, and accepted.\<close>

theorem unknown_filter_widens:
  "case readProposedPlan (\<lambda>_. Some unknown_band) ''{...}'' (emptyPlan ''population.rank'') of
     None \<Rightarrow> False
   | Some plan \<Rightarrow> qp_filters plan = EMPTY_FILTERS
       \<and> validatePlan plan \<lparr>vc_vocabulary = \<lparr>pv_regions = [], pv_industries = [], pv_accounts = [], pv_customers = [],
             pv_deliveryGroups = [], pv_projects = []\<rparr>, vc_authorisedProjectIds = [], vc_knownMetricIds = []\<rparr> = Inr plan"
proof -
  have "braced ''{...}'' = Some ''{...}''" by (simp add: braced_def)
  then have "readProposedPlan (\<lambda>_. Some unknown_band) ''{...}'' (emptyPlan ''population.rank'')
      = Some ((emptyPlan ''population.list'')\<lparr>qp_origin := MODEL_PROPOSED\<rparr>)"
    by (simp add: readProposedPlan_def unknown_band_def json_object_def read_object_def json_field_def js_get_def pickEnum_def json_text_def
        ALL_SHAPES_def nullish_def proposed_filters_def pickStrings_def pickEnums_def proposed_limit_def emptyPlan_def EMPTY_FILTERS_def
        ALL_BANDS_def map_filter_simps)
  then show ?thesis
    by (simp add: validatePlan_def check_Nil sound_selectors_def sound_filters_def within_scope_def sound_metric_id_def sound_content_def
        in_vocabulary_def emptyPlan_def EMPTY_FILTERS_def ALL_SHAPES_def ALL_SORTS_def ALL_TIMES_def ALL_COMPARISONS_def PROJECT_SHAPES_def
        DEFAULT_LIMIT_def)
qed

end
