(* ===== verification/Outbound.thy ===== *)
theory Outbound
  imports Text_Scan Tabular Explainability
begin

text \<open>
  What may leave the deployment: \<open>platform/net/index.ts\<close> (the one outbound request), \<open>app/llm/policy.ts\<close> (which material may be
  sent to an external model) and \<open>app/llm/routing.ts\<close> (which provider a request reaches). Parameters: the host's \<open>URL\<close>
  parser and \<open>fetch\<close>, the clock, and the call that reaches a provider, which acts on a state of its own.
\<close>

section \<open>The outbound request\<close>

datatype http_method = GET_METHOD | POST_METHOD

record http_budget =
  hb_timeoutMs :: nat
  hb_maxResponseBytes :: nat

record http_request =
  hq_method :: http_method
  hq_url :: string
  hq_headers :: "(string, string) js_map"
  hq_body :: "string option"
  hq_budget :: http_budget

record http_response =
  hs_status :: nat
  hs_ok :: bool
  hs_body :: string
  hs_elapsedMs :: int

datatype http_failure_kind = TIMEOUT | UNREACHABLE | RESPONSE_TOO_LARGE | REDIRECT_REFUSED | BAD_URL

datatype http_failure = HttpFailure http_failure_kind string string

record host_policy =
  hp_allowedHosts :: "string list"
  hp_requireTls :: bool

record parsed_url =
  pu_protocol :: string
  pu_hostname :: string

definition is_loopback :: "string \<Rightarrow> bool" where
  "is_loopback host \<longleftrightarrow> host = ''localhost'' \<or> host = ''127.0.0.1'' \<or> host = ''::1'' \<or> host = ''[::1]''"

definition assertAllowed :: "(string \<Rightarrow> parsed_url option) \<Rightarrow> string \<Rightarrow> host_policy \<Rightarrow> http_failure + parsed_url" where
  "assertAllowed parse url policy =
     (case parse url of
        None \<Rightarrow> Inl (HttpFailure BAD_URL ''unknown'' ''not a URL'')
      | Some parsed \<Rightarrow>
          let host = pu_hostname parsed in
          if hp_requireTls policy \<and> pu_protocol parsed \<noteq> ''https:'' \<and> \<not> is_loopback host
          then Inl (HttpFailure BAD_URL host ''TLS is required for non-loopback hosts'')
          else if pu_protocol parsed \<noteq> ''https:'' \<and> pu_protocol parsed \<noteq> ''http:''
          then Inl (HttpFailure BAD_URL host (''scheme '' @ pu_protocol parsed @ '' is not permitted''))
          else if host \<notin> set (hp_allowedHosts policy)
          then Inl (HttpFailure BAD_URL host ''host is not in the configured allow-list'')
          else Inr parsed)"

text \<open>What \<open>fetch\<close> gives: a reply whose body arrives in chunks and then ends or breaks off, or an error. An error is what was
  thrown with its message, and whether the timer had fired.\<close>

record fetch_error =
  fe_aborted :: bool
  fe_message :: string

record fetch_reply =
  fr_status :: nat
  fr_ok :: bool
  fr_contentLength :: "string option"
  fr_chunks :: "string list option"
  fr_broken :: "fetch_error option"

datatype send_error = Known http_failure | Thrown fetch_error

fun read_chunks :: "nat \<Rightarrow> string \<Rightarrow> fetch_error option \<Rightarrow> nat \<Rightarrow> string list \<Rightarrow> string list \<Rightarrow> send_error + string" where
  "read_chunks limit host broken seen [] chunks =
     (case broken of Some e \<Rightarrow> Inl (Thrown e) | None \<Rightarrow> Inr (concat chunks))"
| "read_chunks limit host broken seen (value # rest) chunks =
     (let seen' = seen + length value in
      if seen' > limit then Inl (Known (HttpFailure RESPONSE_TOO_LARGE host (''exceeded '' @ show_nat limit @ '' bytes'')))
      else read_chunks limit host broken seen' rest (chunks @ [value]))"

definition readBounded :: "fetch_reply \<Rightarrow> nat \<Rightarrow> string \<Rightarrow> send_error + string" where
  "readBounded response limit host =
     (case fr_chunks response of None \<Rightarrow> Inr [] | Some chunks \<Rightarrow> read_chunks limit host (fr_broken response) 0 chunks [])"

definition declared_too_large :: "fetch_reply \<Rightarrow> nat \<Rightarrow> string option" where
  "declared_too_large response limit =
     (case fr_contentLength response of
        None \<Rightarrow> None
      | Some declared \<Rightarrow>
          (case parse_int declared of
             None \<Rightarrow> None
           | Some n \<Rightarrow> if finite_number n \<and> n > int limit then Some declared else None))"

definition read_reply :: "http_budget \<Rightarrow> string \<Rightarrow> fetch_reply \<Rightarrow> send_error + string" where
  "read_reply budget host response =
     (case declared_too_large response (hb_maxResponseBytes budget) of
        Some declared \<Rightarrow> Inl (Known (HttpFailure RESPONSE_TOO_LARGE host (''declared '' @ declared @ '' bytes'')))
      | None \<Rightarrow> readBounded response (hb_maxResponseBytes budget) host)"

definition failure_of :: "http_budget \<Rightarrow> string \<Rightarrow> send_error \<Rightarrow> http_failure" where
  "failure_of budget host e =
     (case e of
        Known f \<Rightarrow> f
      | Thrown t \<Rightarrow>
          if fe_aborted t then HttpFailure TIMEOUT host (''no response within '' @ show_nat (hb_timeoutMs budget) @ ''ms'')
          else if text_includes ''redirect'' (map ascii_lower (fe_message t))
          then HttpFailure REDIRECT_REFUSED host ''the endpoint redirected''
          else HttpFailure UNREACHABLE host (take 120 (fe_message t)))"

definition elapsed :: "instant \<Rightarrow> instant \<Rightarrow> int" where
  "elapsed from to = max 0 (msBetween from to)"

text \<open>The clock is read before the request and after the body; \<open>started\<close> and \<open>finished\<close> are what it gives.\<close>

definition send :: "(string \<Rightarrow> parsed_url option) \<Rightarrow> (parsed_url \<Rightarrow> http_request \<Rightarrow> fetch_error + fetch_reply) \<Rightarrow> instant \<Rightarrow> instant \<Rightarrow>
    http_request \<Rightarrow> host_policy \<Rightarrow> http_failure + http_response" where
  "send parse fetch started finished request policy =
     and_then (assertAllowed parse (hq_url request) policy) (\<lambda>url.
       let host = pu_hostname url in
       case fetch url request of
         Inl e \<Rightarrow> Inl (failure_of (hq_budget request) host (Thrown e))
       | Inr response \<Rightarrow>
           (case read_reply (hq_budget request) host response of
              Inl e \<Rightarrow> Inl (failure_of (hq_budget request) host e)
            | Inr text \<Rightarrow> Inr \<lparr>hs_status = fr_status response, hs_ok = fr_ok response, hs_body = text, hs_elapsedMs = elapsed started finished\<rparr>))"

section \<open>The policy on external processing\<close>

datatype material_class = PUBLIC_INTERNAL | DELIVERY_SENSITIVE | COMMERCIAL_CONFIDENTIAL | PERSONAL_DATA | SECURITY_TELEMETRY

datatype document_class = SOW | CONTRACT | AMENDMENT | CHANGE_REQUEST | ACCEPTANCE_CRITERIA | GOVERNANCE_MINUTES | RISK_DOCUMENT
  | STEERING_ARTIFACT | OTHER

fun material_text :: "material_class \<Rightarrow> string" where
  "material_text PUBLIC_INTERNAL = ''PUBLIC_INTERNAL''"
| "material_text DELIVERY_SENSITIVE = ''DELIVERY_SENSITIVE''"
| "material_text COMMERCIAL_CONFIDENTIAL = ''COMMERCIAL_CONFIDENTIAL''"
| "material_text PERSONAL_DATA = ''PERSONAL_DATA''"
| "material_text SECURITY_TELEMETRY = ''SECURITY_TELEMETRY''"

fun document_text :: "document_class \<Rightarrow> string" where
  "document_text SOW = ''SOW''"
| "document_text CONTRACT = ''CONTRACT''"
| "document_text AMENDMENT = ''AMENDMENT''"
| "document_text CHANGE_REQUEST = ''CHANGE_REQUEST''"
| "document_text ACCEPTANCE_CRITERIA = ''ACCEPTANCE_CRITERIA''"
| "document_text GOVERNANCE_MINUTES = ''GOVERNANCE_MINUTES''"
| "document_text RISK_DOCUMENT = ''RISK_DOCUMENT''"
| "document_text STEERING_ARTIFACT = ''STEERING_ARTIFACT''"
| "document_text OTHER = ''OTHER''"

record external_ai_policy =
  xp_externalAiAllowed :: bool
  xp_allowedMaterialClasses :: "material_class list"
  xp_allowedDocumentClasses :: "document_class list"
  xp_localToExternalFallback :: bool
  xp_statement :: string

definition POC_EXTERNAL_AI_POLICY :: external_ai_policy where
  "POC_EXTERNAL_AI_POLICY = \<lparr>xp_externalAiAllowed = False,
     xp_allowedMaterialClasses = [PUBLIC_INTERNAL, DELIVERY_SENSITIVE, COMMERCIAL_CONFIDENTIAL],
     xp_allowedDocumentClasses = [SOW, CONTRACT, AMENDMENT, CHANGE_REQUEST, ACCEPTANCE_CRITERIA,
       GOVERNANCE_MINUTES, RISK_DOCUMENT, STEERING_ARTIFACT],
     xp_localToExternalFallback = False,
     xp_statement = ''POC policy: synthetic delivery and commercial findings may be sent to a configured external ''
       @ ''model for narration when external processing is enabled. Personal data and security telemetry ''
       @ ''may never be. Document class OTHER is treated as unclassified and is never transmitted.''\<rparr>"

record material_inventory =
  mi_materialClasses :: "material_class list"
  mi_documentClasses :: "document_class list"
  mi_authorities :: "authority_class list"

datatype policy_outcome = PERMITTED | PROHIBITED

datatype policy_code = ALLOWED | EXTERNAL_DISABLED | MATERIAL_CLASS_PROHIBITED | DOCUMENT_CLASS_PROHIBITED | UNVERIFIED_MATERIAL

record policy_decision =
  pd_outcome :: policy_outcome
  pd_code :: policy_code
  pd_reason :: string

definition prohibited :: "policy_code \<Rightarrow> string \<Rightarrow> policy_decision" where
  "prohibited code reason = \<lparr>pd_outcome = PROHIBITED, pd_code = code, pd_reason = reason\<rparr>"

definition evaluateExternalTransmission :: "external_ai_policy \<Rightarrow> material_inventory \<Rightarrow> policy_decision" where
  "evaluateExternalTransmission policy inventory =
     (if \<not> xp_externalAiAllowed policy
      then prohibited EXTERNAL_DISABLED (''External AI processing is disabled for this deployment. The answer was composed by the ''
        @ ''governed deterministic composer; no material left the deployment boundary.'')
      else
        let prohibitedMaterial = filter (\<lambda>c. c \<notin> set (xp_allowedMaterialClasses policy)) (mi_materialClasses inventory);
            prohibitedDocuments = filter (\<lambda>c. c \<notin> set (xp_allowedDocumentClasses policy)) (mi_documentClasses inventory)
        in if length prohibitedMaterial > 0
           then prohibited MATERIAL_CLASS_PROHIBITED (''This request includes '' @ join_with '', '' (map material_text prohibitedMaterial)
             @ '' material, which this deployment '' @ ''does not permit to be processed externally. The answer was composed locally.'')
           else if length prohibitedDocuments > 0
           then prohibited DOCUMENT_CLASS_PROHIBITED (''Evidence of class '' @ join_with '', '' (map document_text prohibitedDocuments)
             @ '' is present, and this deployment does '' @ ''not permit that class to inform an external call. The answer was composed locally.'')
           else if UNVERIFIED \<in> set (mi_authorities inventory)
           then prohibited UNVERIFIED_MATERIAL (''Unverified material is present. Material whose source authority has not been ''
             @ ''established is never transmitted externally.'')
           else \<lparr>pd_outcome = PERMITTED, pd_code = ALLOWED,
                 pd_reason = ''External processing is enabled and every class present is permitted by policy.''\<rparr>)"

section \<open>Routing\<close>

datatype provider_id = ANTHROPIC | LOCAL | NO_PROVIDER

fun provider_text :: "provider_id \<Rightarrow> string" where
  "provider_text ANTHROPIC = ''anthropic''"
| "provider_text LOCAL = ''local''"
| "provider_text NO_PROVIDER = ''none''"

record provider_metadata =
  pm_providerId :: provider_id
  pm_displayName :: string
  pm_model :: "string option"
  pm_external :: bool
  pm_endpointHost :: "string option"

datatype run_failure = ProviderUnavailable string | OtherFailure

type_synonym 'w run = "provider_metadata \<Rightarrow> 'w \<Rightarrow> (run_failure + string \<times> int) \<times> 'w"

datatype routing_outcome = PROVIDER_USED | NO_PROVIDER_CONFIGURED | PROVIDER_UNAVAILABLE | POLICY_PROHIBITED | EXTERNAL_FALLBACK_USED

record routing_decision =
  rd_outcome :: routing_outcome
  rd_providerId :: provider_id
  rd_model :: "string option"
  rd_external :: bool
  rd_policy :: policy_decision
  rd_explanation :: string
  rd_decidedAt :: instant

record router_options =
  ro_selected :: provider_id
  ro_primary :: provider_metadata
  ro_externalFallback :: "provider_metadata option"
  ro_policy :: external_ai_policy

record routed_generation =
  rg_decision :: routing_decision
  rg_text :: "string option"
  rg_elapsedMs :: "int option"

record router_description =
  rs_selected :: provider_id
  rs_model :: "string option"
  rs_external :: bool
  rs_fallbackConfigured :: bool
  rs_policyStatement :: string

definition describe :: "router_options \<Rightarrow> router_description" where
  "describe opts = \<lparr>rs_selected = ro_selected opts, rs_model = pm_model (ro_primary opts), rs_external = pm_external (ro_primary opts),
     rs_fallbackConfigured = (ro_externalFallback opts \<noteq> None), rs_policyStatement = xp_statement (ro_policy opts)\<rparr>"

definition decision :: "routing_outcome \<Rightarrow> provider_metadata \<Rightarrow> policy_decision \<Rightarrow> string \<Rightarrow> instant \<Rightarrow> routing_decision" where
  "decision outcome m policy explanation decidedAt = \<lparr>rd_outcome = outcome, rd_providerId = pm_providerId m, rd_model = pm_model m,
     rd_external = pm_external m, rd_policy = policy, rd_explanation = explanation, rd_decidedAt = decidedAt\<rparr>"

definition refuse :: "router_options \<Rightarrow> routing_outcome \<Rightarrow> instant \<Rightarrow> policy_decision \<Rightarrow> string \<Rightarrow> routed_generation" where
  "refuse opts outcome decidedAt policy explanation =
     \<lparr>rg_decision = decision outcome (ro_primary opts) policy explanation decidedAt, rg_text = None, rg_elapsedMs = None\<rparr>"

definition unavailable_text :: "router_options \<Rightarrow> string \<Rightarrow> string" where
  "unavailable_text opts reason =
     ''The '' @ provider_text (ro_selected opts) @ '' AI provider is unavailable ('' @ reason @ ''). ''
     @ ''The answer was composed by the governed deterministic composer. ''
     @ ''No part of this request was sent to any other provider.''"

definition afterPrimaryFailure :: "router_options \<Rightarrow> material_inventory \<Rightarrow> 'w run \<Rightarrow> instant \<Rightarrow> string \<Rightarrow> 'w \<Rightarrow> routed_generation \<times> 'w" where
  "afterPrimaryFailure opts inventory run decidedAt reason w =
     (case (if xp_localToExternalFallback (ro_policy opts) then ro_externalFallback opts else None) of
        None \<Rightarrow> (refuse opts PROVIDER_UNAVAILABLE decidedAt
            (prohibited EXTERNAL_DISABLED ''No external fallback is configured for this deployment.'') (unavailable_text opts reason), w)
      | Some m \<Rightarrow>
          let policy = evaluateExternalTransmission (ro_policy opts) inventory in
          if pd_outcome policy = PROHIBITED
          then (refuse opts PROVIDER_UNAVAILABLE decidedAt policy
                  (unavailable_text opts reason @ '' An external fallback is configured, but policy prohibited it for this ''
                   @ ''request: '' @ pd_reason policy), w)
          else (case run m w of
              (Inl _, w') \<Rightarrow> (refuse opts PROVIDER_UNAVAILABLE decidedAt policy
                  (unavailable_text opts reason @ '' The configured external fallback was also unavailable.''), w')
            | (Inr result, w') \<Rightarrow>
                (\<lparr>rg_decision = decision EXTERNAL_FALLBACK_USED m policy
                    (''The local provider was unavailable ('' @ reason @ ''). This deployment explicitly permits ''
                     @ ''falling back to '' @ pm_displayName m @ '', and policy permitted this request's material to ''
                     @ ''be processed externally. That transmission is recorded in the audit log.'') decidedAt,
                  rg_text = Some (fst result), rg_elapsedMs = Some (snd result)\<rparr>, w')))"

definition primary_policy :: "router_options \<Rightarrow> material_inventory \<Rightarrow> policy_decision" where
  "primary_policy opts inventory =
     (if pm_external (ro_primary opts) then evaluateExternalTransmission (ro_policy opts) inventory
      else \<lparr>pd_outcome = PERMITTED, pd_code = ALLOWED,
            pd_reason = ''The selected provider runs inside the deployment boundary; no material leaves it.''\<rparr>)"

definition generate :: "router_options \<Rightarrow> instant \<Rightarrow> material_inventory \<Rightarrow> 'w run \<Rightarrow> 'w \<Rightarrow> routed_generation \<times> 'w" where
  "generate opts decidedAt inventory run w =
     (let m = ro_primary opts; policy = primary_policy opts inventory in
      if ro_selected opts = NO_PROVIDER
      then (refuse opts NO_PROVIDER_CONFIGURED decidedAt (prohibited EXTERNAL_DISABLED ''No provider is configured.'')
              ''No AI provider is configured. The answer was composed by the governed deterministic composer.'', w)
      else if pd_outcome policy = PROHIBITED then (refuse opts POLICY_PROHIBITED decidedAt policy (pd_reason policy), w)
      else (case run m w of
          (Inr result, w') \<Rightarrow>
            (\<lparr>rg_decision = decision PROVIDER_USED m policy
                (''Narrated by '' @ pm_displayName m @ (case pm_model m of None \<Rightarrow> [] | Some model \<Rightarrow> '' ('' @ model @ '')'') @ ''.'') decidedAt,
              rg_text = Some (fst result), rg_elapsedMs = Some (snd result)\<rparr>, w')
        | (Inl failure, w') \<Rightarrow>
            afterPrimaryFailure opts inventory run decidedAt
              (case failure of ProviderUnavailable reason \<Rightarrow> reason | OtherFailure \<Rightarrow> ''the provider call did not complete'') w'))"

section \<open>What leaves\<close>

text \<open>Providers that answer as \<open>answers\<close> says and record who was called.\<close>

definition recording :: "(provider_metadata \<Rightarrow> run_failure + string \<times> int) \<Rightarrow> provider_metadata list run" where
  "recording answers m sent = (answers m, sent @ [m])"

definition may_leave :: "external_ai_policy \<Rightarrow> material_inventory \<Rightarrow> bool" where
  "may_leave policy inventory \<longleftrightarrow> xp_externalAiAllowed policy
     \<and> set (mi_materialClasses inventory) \<subseteq> set (xp_allowedMaterialClasses policy)
     \<and> set (mi_documentClasses inventory) \<subseteq> set (xp_allowedDocumentClasses policy)
     \<and> UNVERIFIED \<notin> set (mi_authorities inventory)"

lemma transmission_permitted: "pd_outcome (evaluateExternalTransmission policy inventory) = PROHIBITED \<longleftrightarrow> \<not> may_leave policy inventory"
  by (auto simp: evaluateExternalTransmission_def may_leave_def prohibited_def Let_def filter_empty_conv)

text \<open>The answer comes from the last provider called.\<close>

definition answered_by :: "(provider_metadata \<Rightarrow> run_failure + string \<times> int) \<Rightarrow> provider_metadata \<Rightarrow> routed_generation \<Rightarrow> bool" where
  "answered_by answers m r \<longleftrightarrow> rg_text r = (case answers m of Inl _ \<Rightarrow> None | Inr a \<Rightarrow> Some (fst a))"

text \<open>C33: Nothing leaves unless policy permits this material to leave. An external provider is called only where external processing
  is on, every class of material and document present is allowed and nothing is unverified; a second provider is called only
  after the first failed, where a fallback is configured, enabled and the material may leave; and a text is returned exactly
  when the last provider called succeeded.\<close>

theorem nothing_leaves_unless_permitted:
  "case generate opts decidedAt inventory (recording answers) [] of (r, sent) \<Rightarrow>
     list_all (\<lambda>m. if pm_external m then may_leave (ro_policy opts) inventory else True) sent
     \<and> (case sent of
          [] \<Rightarrow> rg_text r = None
        | [m] \<Rightarrow> m = ro_primary opts \<and> answered_by answers m r
        | m # f # others \<Rightarrow> others = [] \<and> m = ro_primary opts \<and> isl (answers m) \<and> ro_externalFallback opts = Some f
            \<and> xp_localToExternalFallback (ro_policy opts) \<and> may_leave (ro_policy opts) inventory \<and> answered_by answers f r)"
proof -
  have outcome: "pd_outcome (evaluateExternalTransmission policy inventory) = PERMITTED \<longleftrightarrow> may_leave policy inventory" for policy
    by (metis policy_outcome.exhaust policy_outcome.distinct(1) transmission_permitted)
  show ?thesis
    by (auto simp: generate_def afterPrimaryFailure_def primary_policy_def recording_def refuse_def answered_by_def Let_def
        transmission_permitted outcome split: sum.split option.split)
qed

text \<open>Where the fallback fails too, the explanation says that no part of the request was sent to it.\<close>

theorem fallback_called_and_denied:
  assumes "ro_selected opts \<noteq> NO_PROVIDER" "\<not> pm_external (ro_primary opts)" "ro_externalFallback opts = Some f"
    "xp_localToExternalFallback (ro_policy opts)" "may_leave (ro_policy opts) inventory"
    "answers (ro_primary opts) = Inl (ProviderUnavailable reason)" "answers f = Inl e"
  shows "case generate opts decidedAt inventory (recording answers) [] of (r, sent) \<Rightarrow>
     sent = [ro_primary opts, f] \<and> rd_outcome (rg_decision r) = PROVIDER_UNAVAILABLE
     \<and> text_includes ''No part of this request was sent to any other provider.'' (rd_explanation (rg_decision r))"
proof -
  have "text_includes ''No part of this request was sent to any other provider.''
      (unavailable_text opts reason @ '' The configured external fallback was also unavailable.'')"
    using text_includes_mid [of "''No part of this request was sent to any other provider.''"
        "''The '' @ provider_text (ro_selected opts) @ '' AI provider is unavailable ('' @ reason @ ''). The answer was composed by the governed deterministic composer. ''"]
    by (simp add: unavailable_text_def)
  then show ?thesis
    using assms by (simp add: generate_def afterPrimaryFailure_def primary_policy_def recording_def refuse_def decision_def Let_def
        transmission_permitted)
qed

section \<open>One bounded request\<close>

lemma read_chunks_bounded:
  "read_chunks limit host broken (length (concat chunks)) rest chunks = Inr body \<Longrightarrow> length (concat chunks) \<le> limit \<Longrightarrow>
    length body \<le> limit \<and> body = concat (chunks @ rest)"
proof (induction rest arbitrary: chunks)
  case (Cons a rest)
  have "length body \<le> limit \<and> body = concat ((chunks @ [a]) @ rest)"
    by (rule Cons.IH) (use Cons.prems in \<open>simp_all add: Let_def split: if_splits\<close>)
  moreover have "(chunks @ [a]) @ rest = chunks @ a # rest" by simp
  ultimately show ?case by metis
qed (simp split: option.splits)

text \<open>One request is bounded. It goes to a host of the allow-list over https, or over http where TLS is not required or the host
  is the machine itself; a response that is returned has at most the bytes allowed, whatever length it declares, and is the
  whole body; and a failure before a host was checked reaches no network.\<close>

theorem request_is_bounded:
  "case assertAllowed parse (hq_url request) policy of
     Inl e \<Rightarrow> send parse fetch started finished request policy = Inl e
   | Inr url \<Rightarrow>
       pu_hostname url \<in> set (hp_allowedHosts policy)
       \<and> (pu_protocol url = ''https:'' \<or> pu_protocol url = ''http:'' \<and> (if hp_requireTls policy then is_loopback (pu_hostname url) else True))
       \<and> (case send parse fetch started finished request policy of
            Inl _ \<Rightarrow> True
          | Inr response \<Rightarrow> length (hs_body response) \<le> hb_maxResponseBytes (hq_budget request)
              \<and> (\<exists>reply. fetch url request = Inr reply \<and> hs_status response = fr_status reply
                   \<and> hs_body response = concat (nullish (fr_chunks reply) [])) \<and> 0 \<le> hs_elapsedMs response)"
proof (cases "assertAllowed parse (hq_url request) policy")
  case (Inr url)
  then have url: "pu_hostname url \<in> set (hp_allowedHosts policy)"
    "pu_protocol url = ''https:'' \<or> pu_protocol url = ''http:'' \<and> (hp_requireTls policy \<longrightarrow> is_loopback (pu_hostname url))"
    by (auto simp: assertAllowed_def Let_def split: option.splits if_splits)
  have "length body \<le> limit \<and> body = concat (nullish (fr_chunks reply) [])" if "readBounded reply limit host = Inr body" for reply limit host body
    using that read_chunks_bounded [of limit host "fr_broken reply" "[]" _ body]
    by (auto simp: readBounded_def nullish_def split: option.splits)
  then have "case send parse fetch started finished request policy of
      Inl _ \<Rightarrow> True
    | Inr response \<Rightarrow> length (hs_body response) \<le> hb_maxResponseBytes (hq_budget request)
        \<and> (\<exists>reply. fetch url request = Inr reply \<and> hs_status response = fr_status reply
             \<and> hs_body response = concat (nullish (fr_chunks reply) [])) \<and> 0 \<le> hs_elapsedMs response"
    by (auto simp: send_def Inr and_then_def Let_def read_reply_def elapsed_def split: sum.split option.splits)
  with url show ?thesis unfolding Inr by auto
qed (simp add: send_def and_then_def)

end
