(* ===== verification/Spec2Isabelle.thy ===== *)
theory Spec2Isabelle
  imports Dispatcher Green_At_Risk Early_Warning Intervention_Priority Delivery Economics Margin_Bridge Source_Identity Source_Conflicts Tabular Ingestion Data_Confidence Portfolio Recovery Commercial Quality Resource Persistence Zip_Reader Plan_Validator Outbound Decimal_Reference Explainability Rule_Engine Override_Rules Warning_Rules
    Health_Model Health_Engine
begin

text \<open>
  Global Delivery Assurance: the decision core of the assurance platform.

  The platform reads delivery, financial, quality and commercial facts about projects, evaluates
  them with governed rules, bands every project Red, Amber or Green, and serves the result to
  authenticated callers inside their scope, with a record of every decision. This library models
  the part that decides and the part that guards; paths below are under \<open>src/\<close> of the repository.

  Foundations. \<open>Gldi_Prelude\<close> holds what the components share: error values (\<open>and_then\<close>, \<open>try_map\<close>),
  decimal text and its parser, JavaScript's stable sort over a comparator (locales \<open>comparator\<close> and
  \<open>strict_comparator\<close>), insertion-ordered maps (\<open>js_map\<close>, locale \<open>keyed_store\<close>) and logs that only grow
  (locale \<open>append_only\<close>). \<open>Decimals\<close> is \<open>platform/decimal/quantity.ts\<close> and \<open>ratio.ts\<close>: quantities are
  rationals, and the package decimal.js is a parameter, the record \<open>decimal_js\<close>, whose documented
  behaviour (correct rounding to the precision, ties away from zero, exact division by powers of ten)
  is the locale \<open>decimal_lib\<close>; \<open>Decimal_Reference\<close> gives an arithmetic that satisfies it. A negative
  zero and a positive one are the same rational. \<open>Exact_Sums\<close> says when sums fit 34 digits.
  \<open>Money\<close> is \<open>money.ts\<close>, \<open>currency.ts\<close> and \<open>fx.ts\<close>; \<open>Time_Periods\<close> is \<open>platform/time\<close>, instants being the
  texts the code keeps, split in seconds and fraction; \<open>Explainability\<close> is \<open>platform/provenance\<close> and
  \<open>platform/explainability\<close>.

  Assessment. \<open>Rule_Engine\<close>, \<open>Override_Rules\<close>, \<open>Warning_Rules\<close> and \<open>Health_Model\<close> are \<open>contexts/rules\<close>:
  one threshold engine, the tables it runs and the governed weights. \<open>Health_Engine\<close> is
  \<open>contexts/health\<close>: inputs to dimension scores, scores to a composite, overrides and elevations to a
  band, coverage, and the three statuses kept apart. The prose in the tables is transliterated to
  ASCII. The lemmas show that every rule outcome is warranted, that a fired override decides the
  band, that an unbounded reading never helps, and that nothing is assessed without evidence.

  Access. \<open>Authz_Policy\<close> is \<open>platform/authz\<close>, \<open>Sessions\<close> is \<open>contexts/identity\<close> with the security
  policy of \<open>platform/config\<close>, \<open>Audit_Log\<close> is \<open>platform/audit\<close> (the digest and the collation are the
  parameter \<open>js_lib\<close>), \<open>Api\<close> is the route table, the rate limiter and the validators of \<open>app/api\<close>,
  \<open>Field_Policy\<close> and \<open>Enforcement\<close> are \<open>app/authorization\<close>, and \<open>Dispatcher\<close> is \<open>app/api/dispatcher.ts\<close>,
  which composes them. Mutable stores are records passed along; a step that can throw returns what it
  throws beside the state it leaves (\<open>effect\<close>). The use cases behind the routes are a parameter
  (\<open>handlers\<close>). Reading the clock is a function of how often it was read before. Telemetry changes
  neither results nor these stores and is left out. The life of a store is a step relation
  (\<open>audit_step\<close>, \<open>session_step\<close>, \<open>service_step\<close>); the lemmas are invariants over its runs, a refinement
  of the session store by an abstract one, and the guarantees of the pipeline: a denial reveals
  nothing, the record precedes the data, and an answer holds only what its reader may see.

  Derivations. \<open>Js_Number\<close> is the host's number: IEEE doubles as the rationals they denote, with the rounding after every
  operation, for the few places where the code leaves the decimal strings: the cent counter of the margin bridge, the slope of
  the defect backlog and the mean ages. \<open>Delivery\<close>, \<open>Commercial\<close>, \<open>Quality\<close> and \<open>Resource\<close> are the engines of the contexts of
  those names, \<open>Economics\<close> and \<open>Margin_Bridge\<close> are \<open>contexts/financial\<close>, \<open>Data_Confidence\<close> is \<open>contexts/data-quality\<close>. Every
  figure is a record of its value, state and the reason it is not computable, as in the code. The settlement loop of the
  margin bridge is a \<open>partial_function\<close>: that it ends is proved for totals up to \<open>10^13\<close> away from the amounts, and so is that it
  does not for a gap of \<open>2^60\<close> cents. \<open>Unit_Scores\<close> collects what clamps, quotients and percentages keep between their bounds.

  Judgement. \<open>Trajectory\<close>, \<open>Green_At_Risk\<close> and \<open>Early_Warning\<close> are \<open>contexts/forecast\<close>: slopes of series, outlooks, the two
  findings about projects that look healthy, and warnings with the lifecycle of what people did about them.
  \<open>Intervention_Priority\<close> and \<open>Portfolio\<close> are \<open>contexts/portfolio\<close>: the ranking with its sentences, the totals, the value at risk
  and its concentration on shared causes. \<open>Recovery\<close> is \<open>contexts/recovery\<close>: what a plan is worth when each fix is banked once.

  Data in. \<open>Source_Identity\<close> and \<open>Source_Conflicts\<close> are \<open>contexts/integration\<close>: declared identities, granted authority (two
  interpretations of the locale \<open>keyed_registry\<close>), staging, and the disclosure of disagreement. \<open>Tabular\<close> is
  \<open>platform/parse/tabular.ts\<close> with the readers of foreign figures and dates, \<open>Zip_Reader\<close> is \<open>platform/parse/zip.ts\<close> over 8-bit
  words with the decoder of UTF-8, and \<open>Ingestion\<close> is \<open>app/ingestion/structured.ts\<close>: from a sheet to staged records, observations
  and a receipt. \<open>Persistence\<close> is the in-memory store of \<open>platform/persistence\<close>, an interpretation of \<open>append_only\<close>.

  Data out. \<open>Plan_Validator\<close> is the query plan of the assistant: its vocabularies, its validation, and the reading of a plan that
  a model proposes. \<open>Outbound\<close> is the one outbound request, the policy on external models and the router of providers.
  \<open>Text_Scan\<close> holds the searches both use.

  Parameters. Beside decimal.js: SHA-256 and \<open>localeCompare\<close> (\<open>js_lib\<close>, or a comparator where only its order matters),
  \<open>Date.parse\<close>, \<open>JSON.parse\<close>, \<open>URL\<close>, \<open>fetch\<close>, the call to a model provider, \<open>node:zlib\<close>, and the reader of workbooks. Nothing is
  assumed of them but the laws a theorem names. Text is lists of one-byte characters, and where letters are folded or
  patterns matched only the ASCII ones are meant; the names in an archive are lists of code points. A theorem about sums
  states the sizes within which 34 digits, or a double, are enough.

  Not modelled. What composes the engines for a screen and formats the result: the executive health, command centre, forward
  risk and margin services, lineage, metric calculation, \<open>presentation\<close>. The assistant beyond the plan: the planner over phrases, the tools,
  the composer and the orchestrator, and the adapters to model providers. Ingestion of documents, the source registry, the
  knowledge index, and the readers of PDF and XLSX. The metric and rule catalogues that are data, the contexts that declare little but types (contract,
  organization, project, risk, assurance), configuration loading, secrets, language, telemetry, the server process, and the
  scripts that generate data, draw assets and deploy.
\<close>

end
